(* ===== verification/Prelude.thy ===== *)
theory Prelude
  imports Complex_Main "HOL-Library.Multiset" "HOL-Library.Product_Lexorder"
    "HOL-Library.List_Lexorder" "HOL-Library.Char_ord"
begin

text \<open>
  Shared vocabulary of the development: the JavaScript numbers and operators that the broker's code uses,
  the collections of simplification rules the component proofs share, and the generic facts about lists,
  sums and options that no component owns.

  A finite JavaScript number is an exact rational (\<open>jsnum\<close>). An optional or unvalidated numeric
  field is a \<open>jsnum option\<close>: \<open>None\<close> stands for every value on which \<^verbatim>\<open>Number.isFinite\<close>
  answers false (absent, null, NaN, a string), so \<^verbatim>\<open>Number.isFinite(x)\<close> is \<open>x \<noteq> None\<close>.
\<close>

named_theorems js_simps \<open>unfolding rules for the JavaScript operators\<close>
named_theorems queue_simps \<open>rules about queues of readable and unreadable records\<close>
named_theorems store_simps \<open>read-after-write rules of the fairness stores\<close>
named_theorems stage_dests \<open>what a stage of the admission transaction establishes when it lets a ticket through\<close>

type_synonym jsnum = rat

section \<open>JavaScript operators\<close>

text \<open>The nullish coalescing operator \<^verbatim>\<open>x ?? d\<close>.\<close>

definition nullish :: "'a option \<Rightarrow> 'a \<Rightarrow> 'a" where
  "nullish x d = (case x of None \<Rightarrow> d | Some v \<Rightarrow> v)"

text \<open>\<^verbatim>\<open>x ?? y\<close> where the default may itself be absent.\<close>

definition nullish_opt :: "'a option \<Rightarrow> 'a option \<Rightarrow> 'a option" where
  "nullish_opt x y = (case x of None \<Rightarrow> y | Some v \<Rightarrow> Some v)"

text \<open>\<^verbatim>\<open>Number.isInteger\<close>, \<^verbatim>\<open>Math.floor\<close>, \<^verbatim>\<open>Math.ceil\<close> and \<^verbatim>\<open>Math.round\<close> on a finite number.\<close>

definition is_integer :: "jsnum \<Rightarrow> bool" where
  "is_integer x \<longleftrightarrow> of_int \<lfloor>x\<rfloor> = x"

definition js_floor :: "jsnum \<Rightarrow> jsnum" where
  "js_floor x = of_int \<lfloor>x\<rfloor>"

definition js_ceil :: "jsnum \<Rightarrow> jsnum" where
  "js_ceil x = of_int \<lceil>x\<rceil>"

definition js_round :: "jsnum \<Rightarrow> jsnum" where
  "js_round x = of_int \<lfloor>x + 1 / 2\<rfloor>"

text \<open>\<^verbatim>\<open>x || d\<close> on a number: zero and every non-number are falsy.\<close>

definition num_or :: "jsnum option \<Rightarrow> jsnum \<Rightarrow> jsnum" where
  "num_or x d = (case x of None \<Rightarrow> d | Some v \<Rightarrow> if v = 0 then d else v)"

declare nullish_def [js_simps] nullish_opt_def [js_simps] num_or_def [js_simps]

lemma nullish_simps [simp]:
  "nullish None d = d" "nullish (Some v) d = v"
  by (simp_all add: nullish_def)

lemma nullish_opt_simps [simp]:
  "nullish_opt None y = y" "nullish_opt (Some v) y = Some v" "nullish_opt x None = x"
  by (simp_all add: nullish_opt_def split: option.splits)

lemma js_floor_le [simp]: "js_floor x \<le> x"
  by (simp add: js_floor_def)

lemma le_js_ceil [simp]: "x \<le> js_ceil x"
  by (simp add: js_ceil_def)

lemma js_floor_integer [simp]: "is_integer (js_floor x)"
  by (simp add: js_floor_def is_integer_def)

lemma js_ceil_integer [simp]: "is_integer (js_ceil x)"
  by (simp add: js_ceil_def is_integer_def)

lemma js_floor_mono: "x \<le> y \<Longrightarrow> js_floor x \<le> js_floor y"
  by (simp add: js_floor_def floor_mono)

lemma js_ceil_mono: "x \<le> y \<Longrightarrow> js_ceil x \<le> js_ceil y"
  by (simp add: js_ceil_def ceiling_mono)

lemma is_integer_le_js_floor: "is_integer x \<Longrightarrow> x \<le> y \<Longrightarrow> x \<le> js_floor y"
  unfolding is_integer_def js_floor_def by (metis floor_mono of_int_le_iff)

lemma js_ceil_le_integer: "is_integer y \<Longrightarrow> x \<le> y \<Longrightarrow> js_ceil x \<le> y"
  unfolding is_integer_def js_ceil_def by (metis ceiling_le_iff of_int_le_iff)

section \<open>Lists, sums and queues\<close>

text \<open>A queue is a list of records in which an unreadable file is \<open>None\<close>.\<close>

type_synonym 'a rqueue = "'a option list"

definition readable :: "'a rqueue \<Rightarrow> 'a list" where
  "readable q = List.map_filter (\<lambda>x. x) q"

lemma readable_simps [simp, queue_simps]:
  "readable [] = []" "readable (None # q) = readable q" "readable (Some t # q) = t # readable q"
  "readable (q @ r) = readable q @ readable r"
  by (simp_all add: readable_def List.map_filter_def)

lemma set_readable [simp, queue_simps]: "set (readable q) = {t. Some t \<in> set q}"
  by (induction q) (auto split: option.splits simp: readable_def List.map_filter_def)

lemma readable_map_Some [simp, queue_simps]: "readable (map Some ts) = ts"
  by (induction ts) auto

lemma Some_in_map_option: "Some v \<in> map_option f ` A \<longleftrightarrow> (\<exists>u. Some u \<in> A \<and> v = f u)"
proof
  assume "Some v \<in> map_option f ` A"
  then obtain x where "Some v = map_option f x" "x \<in> A" by (rule imageE)
  then show "\<exists>u. Some u \<in> A \<and> v = f u" by (cases x) auto
next
  assume "\<exists>u. Some u \<in> A \<and> v = f u"
  then show "Some v \<in> map_option f ` A" by (elim exE conjE) (rule image_eqI, auto)
qed

lemma no_pair_None [simp]: "(\<forall>a b. x \<noteq> Some (a, b)) \<longleftrightarrow> x = None"
  by (cases x) auto

lemma find_SomeD: "List.find P xs = Some x \<Longrightarrow> P x \<and> x \<in> set xs"
  by (induction xs) (auto split: if_splits)

lemma find_NoneD: "List.find P xs = None \<Longrightarrow> x \<in> set xs \<Longrightarrow> \<not> P x"
  by (auto simp: find_None_iff)

lemma sum_list_nonneg_rat: "(\<And>x. x \<in> set xs \<Longrightarrow> 0 \<le> f x) \<Longrightarrow> (0 :: rat) \<le> sum_list (map f xs)"
  by (induction xs) auto

lemma sum_list_mono_rat:
  "(\<And>x. x \<in> set xs \<Longrightarrow> f x \<le> g x) \<Longrightarrow> sum_list (map f xs) \<le> (sum_list (map g xs) :: rat)"
  by (induction xs) (auto intro: add_mono)

lemma sum_list_filter_le_rat:
  "(\<And>x. x \<in> set xs \<Longrightarrow> 0 \<le> f x) \<Longrightarrow>
   sum_list (map f (filter P xs)) \<le> (sum_list (map f xs) :: rat)"
  by (induction xs) (auto intro: add_increasing order_trans)

text \<open>The prefix in front of the first element that satisfies a predicate.\<close>

lemma takeWhile_set_prefix: "x \<in> set (takeWhile P xs) \<Longrightarrow> P x \<and> x \<in> set xs"
  by (metis set_takeWhileD)

end
