(* ===== verification/Lane_Data.thy ===== *)
theory Lane_Data
  imports Prelude
begin

text \<open>
  The data the broker keeps: resource claims, queue records (tickets), held leases, the slice of the global
  configuration that scheduling reads, and the host samples. Field names follow the JSON keys; a field is an
  option where the code tests it for presence or type, and \<open>None\<close> is every value that fails that test.
\<close>

section \<open>Tiers, classes and modes\<close>

text \<open>Priority tiers (\<^verbatim>\<open>PRIORITY_TIERS\<close>), allocation classes, and the two scheduler modes.\<close>

datatype tier = Low | Medium | High

datatype lane_class = TestClass | SimClass

datatype scheduler_mode = Active | Shadow

datatype lease_state = RUNNING | ORPHANED | DONE

datatype weight_capacity = AutoCapacity | FixedCapacity jsnum

section \<open>Claims, tickets and leases\<close>

text \<open>The \<^verbatim>\<open>resources\<close> object of a ticket or lease.\<close>

record claim =
  cpuCores :: "jsnum option"
  minCpuCores :: "jsnum option"
  memoryBytes :: "jsnum option"

text \<open>The stamp a push gate carries (\<^verbatim>\<open>detectPushGate\<close>).\<close>

record push_gate =
  gitPid :: jsnum
  gitStartEpoch :: jsnum
  caller :: string
  worktree :: string
  branch :: string
  pushArgsHash :: string

text \<open>
  What a ticket and a lease have in common; the code reads these fields from either. \<open>klass\<close> is the
  JSON field \<^verbatim>\<open>class\<close>, \<open>eid\<close> the field \<^verbatim>\<open>id\<close>.
\<close>

record entry =
  eid :: string
  key :: string
  resources :: "claim option"
  configLane :: "string option"
  cmdFingerprint :: "string option"
  klass :: "lane_class option"
  exclusive :: bool
  nice :: "jsnum option"
  priorityRequested :: "tier option"
  priorityAdmitted :: "tier option"
  priorityDemoted :: bool
  maxConcurrent :: "jsnum option"
  pushGate :: "push_gate option"
  repoId :: "string option"
  supervisorPid :: "jsnum option"
  supervisorStart :: "string option"
  bypassRefused :: "string option"

record ticket = entry +
  weight :: jsnum
  weightClampedFrom :: "jsnum option"
  conflicts :: "string list"
  seq :: "jsnum option"
  createdAt :: "jsnum option"
  localSince :: "jsnum option"
  prioOriginAt :: "jsnum option"
  aging :: "bool option"
  startDeadline :: "jsnum option"
  lane :: "string option"
  command :: "string option"
  remote :: bool
  localReason :: "string option"
  enforcementRequired :: bool
  niceOverride :: "jsnum option"
  schedVersion :: "jsnum option"
  priorityRetieredAt :: "jsnum option"
  tBootId :: "string option"
  declaredCpuCores :: "jsnum option"

text \<open>One reading kept in a lease's \<^verbatim>\<open>observedCpuHistory\<close>.\<close>

record observation =
  obsAt :: "jsnum option"
  obsCores :: "jsnum option"

record bypass_grant =
  expectedMs :: jsnum
  bypassSource :: string

text \<open>Where the reaping of an orphaned lease stands (\<^verbatim>\<open>orphanReap\<close>): members are kept by their pid and start token.\<close>

record orphan_reap =
  termAt :: jsnum
  killAt :: "jsnum option"
  signalledCount :: nat
  termedMembers :: "string list"
  killedMembers :: "string list"

record lease = entry +
  leaseWeight :: "jsnum option"
  state :: lease_state
  leaseBootId :: "string option"
  childPgid :: "jsnum option"
  heartbeatAt :: "jsnum option"
  admittedAt :: "jsnum option"
  observedAt :: "jsnum option"
  observedCpuCores :: "jsnum option"
  observedMemoryBytes :: "jsnum option"
  observedCpuHistory :: "observation list"
  cpuIntervalCores :: "jsnum option"
  cpuIdleSince :: "jsnum option"
  cpuIdleLastAt :: "jsnum option"
  grantedCpuCores :: "jsnum option"
  queueBypass :: "bypass_grant option"
  floorSlot :: bool
  classEnforced :: bool
  effectiveRankAtStart :: jsnum
  scoreAtStart :: jsnum
  leaseRetieredAt :: "jsnum option"
  leaseDeclaredCpu :: "jsnum option"
  orphanReap :: "orphan_reap option"

section \<open>Configuration\<close>

record priority_weights =
  w_tier :: jsnum
  w_age :: jsnum

text \<open>The \<^verbatim>\<open>classes\<close> block as configured: every cap is optional.\<close>

datatype class_mode = ClassesOff | ClassesShadow | ClassesActive

record class_block =
  blockMode :: class_mode
  blockReserveCores :: "jsnum option"
  blockCapCores :: "jsnum option"
  blockMaxTickets :: "jsnum option"
  blockCapMemoryBytes :: "jsnum option"

text \<open>The keys of the global configuration that the modelled code reads.\<close>

record cfg =
  capacity :: weight_capacity
  schedulerMode :: scheduler_mode
  loadClose :: jsnum
  loadOpen :: jsnum
  loadOpenSamples :: jsnum
  sampleMs :: jsnum
  cpuClosePercent :: jsnum
  cpuOpenPercent :: jsnum
  cpuOpenSamples :: jsnum
  cpuAdmissionPercent :: jsnum
  cpuReserveCores :: jsnum
  admissionCooldownMs :: jsnum
  admissionLoadGate :: bool
  preemptibleNiceMin :: jsnum
  preemptibleShare :: jsnum
  memoryReserveBytes :: jsnum
  defaultMemoryBytesPerWeight :: jsnum
  settledDemandEnabled :: bool
  settledDemandSettleMs :: jsnum
  settledDemandWindowMs :: jsnum
  settledDemandHeadroom :: jsnum
  settledDemandFloorFraction :: jsnum
  historyDemandEnabled :: bool
  historyDemandRaise :: bool
  maxLaneWeight :: jsnum
  conflictSkipLimit :: jsnum
  headBlockGraceMs :: jsnum
  conflictSafeBackfill :: bool
  expressMaxMs :: jsnum
  expressPerMinute :: jsnum
  expressHeadMaxWaitMs :: jsnum
  queueBypassCap :: jsnum
  queueBypassMaxMs :: jsnum
  resourceSkipLimit :: jsnum
  resourceIdleOvershootCores :: jsnum
  floorOvershootCores :: jsnum
  laneNice :: jsnum
  priorityNice :: "tier \<Rightarrow> jsnum option"
  priorityAgeMaxMs :: jsnum
  priorityWeights :: priority_weights
  maxQueuedHighPerRepo :: jsnum
  idleCreditBelowFraction :: jsnum
  idleCreditAfterMs :: jsnum
  simArmWindowMs :: jsnum
  classesInvalid :: bool
  classesBlock :: "class_block option"

text \<open>\<^verbatim>\<open>DEFAULT_GLOBAL_CONFIG\<close>, restricted to those keys; it has no \<^verbatim>\<open>classes\<close> block.\<close>

definition default_cfg :: cfg where
  "default_cfg = \<lparr>
     capacity = AutoCapacity, schedulerMode = Active,
     loadClose = 15, loadOpen = 11, loadOpenSamples = 3, sampleMs = 5000,
     cpuClosePercent = 90, cpuOpenPercent = 70, cpuOpenSamples = 3, cpuAdmissionPercent = 75,
     cpuReserveCores = 1, admissionCooldownMs = 5000, admissionLoadGate = False,
     preemptibleNiceMin = 1, preemptibleShare = 8 / 10,
     memoryReserveBytes = 2147483648, defaultMemoryBytesPerWeight = 1073741824,
     settledDemandEnabled = True, settledDemandSettleMs = 120000, settledDemandWindowMs = 180000,
     settledDemandHeadroom = 125 / 100, settledDemandFloorFraction = 1 / 2,
     historyDemandEnabled = True, historyDemandRaise = True,
     maxLaneWeight = 4, conflictSkipLimit = 3, headBlockGraceMs = 600000, conflictSafeBackfill = True,
     expressMaxMs = 30000, expressPerMinute = 6, expressHeadMaxWaitMs = 900000,
     queueBypassCap = 0, queueBypassMaxMs = 60000,
     resourceSkipLimit = 3, resourceIdleOvershootCores = 1, floorOvershootCores = 6,
     laneNice = 10, priorityNice = (\<lambda>t. if t = High then Some 5 else None),
     priorityAgeMaxMs = 1200000, priorityWeights = \<lparr>w_tier = 2, w_age = 2\<rparr>, maxQueuedHighPerRepo = 1,
     idleCreditBelowFraction = 1 / 10, idleCreditAfterMs = 600000, simArmWindowMs = 300000,
     classesInvalid = False, classesBlock = None\<rparr>"

section \<open>Host observations\<close>

text \<open>What \<^verbatim>\<open>detectResourceCapacity\<close>, the CPU sampler and the memory reader report.\<close>

record host =
  hostCores :: jsnum
  hostMemoryBytes :: jsnum

record cpu_sample =
  hostBusyCores :: "jsnum option"
  sampleCores :: jsnum
  preemptibleBusyCores :: "jsnum option"
  stale :: bool
  reused :: bool
  sampledAt :: "jsnum option"

record mem_info =
  availableBytes :: "jsnum option"
  totalBytes :: "jsnum option"
  macCritical :: bool

section \<open>Small accessors shared by every component\<close>

text \<open>\<^verbatim>\<open>x.resources?.cpuCores\<close> and its siblings.\<close>

definition res_cpu :: "'a entry_scheme \<Rightarrow> jsnum option" where
  "res_cpu e = Option.bind (resources e) cpuCores"

definition res_min :: "'a entry_scheme \<Rightarrow> jsnum option" where
  "res_min e = Option.bind (resources e) minCpuCores"

definition res_mem :: "'a entry_scheme \<Rightarrow> jsnum option" where
  "res_mem e = Option.bind (resources e) memoryBytes"

text \<open>\<^verbatim>\<open>classOf\<close> (allocation.js): anything without an explicit sim class is a test.\<close>

definition classOf :: "'a entry_scheme \<Rightarrow> lane_class" where
  "classOf e = (if klass e = Some SimClass then SimClass else TestClass)"

text \<open>\<^verbatim>\<open>HELD_STATES\<close>: a running or orphaned lease holds its key and its share of the machine.\<close>

definition is_held :: "lease \<Rightarrow> bool" where
  "is_held l \<longleftrightarrow> state l = RUNNING \<or> state l = ORPHANED"

definition held_leases :: "lease list \<Rightarrow> lease list" where
  "held_leases ls = filter is_held ls"

lemma classOf_cases: "classOf e = TestClass \<or> classOf e = SimClass"
  by (simp add: classOf_def)

lemma held_leases_held [simp]: "l \<in> set (held_leases ls) \<Longrightarrow> is_held l"
  by (simp add: held_leases_def)

section \<open>A ticket and a lease for the examples\<close>

definition example_ticket :: ticket where
  "example_ticket = \<lparr>eid = ''t1'', key = ''repo:test'', resources = None, configLane = None, cmdFingerprint = None,
     klass = None, exclusive = False, nice = None, priorityRequested = Some Medium, priorityAdmitted = Some Medium,
     priorityDemoted = False, maxConcurrent = None, pushGate = None, repoId = Some ''repo'',
     supervisorPid = Some 100, supervisorStart = None, bypassRefused = None,
     weight = 2, weightClampedFrom = None, conflicts = [], seq = Some 1, createdAt = None, localSince = None,
     prioOriginAt = Some 0, aging = None, startDeadline = None, lane = Some ''test'', command = None, remote = False,
     localReason = None, enforcementRequired = False, niceOverride = None, schedVersion = Some 2,
     priorityRetieredAt = None, tBootId = None, declaredCpuCores = None\<rparr>"

definition example_lease :: lease where
  "example_lease = \<lparr>eid = ''l1'', key = ''repo:build'', resources = None, configLane = None, cmdFingerprint = None,
     klass = None, exclusive = False, nice = None, priorityRequested = Some Medium, priorityAdmitted = Some Medium,
     priorityDemoted = False, maxConcurrent = None, pushGate = None, repoId = Some ''repo'',
     supervisorPid = Some 90, supervisorStart = None, bypassRefused = None,
     leaseWeight = Some 2, state = RUNNING, leaseBootId = None, childPgid = None, heartbeatAt = None,
     admittedAt = Some 0, observedAt = None, observedCpuCores = None, observedMemoryBytes = None,
     observedCpuHistory = [], cpuIntervalCores = None, cpuIdleSince = None, cpuIdleLastAt = None,
     grantedCpuCores = None, queueBypass = None, floorSlot = False, classEnforced = False,
     effectiveRankAtStart = 1, scoreAtStart = 1, leaseRetieredAt = None, leaseDeclaredCpu = None, orphanReap = None\<rparr>"

end
