(* ===== verification/Leases.thy ===== *)
theory Leases
  imports Lane_Data
begin

text \<open>
  The lease table and its reaper (src/lease.js): the exact reap rule for one lease, and the non-blocking state machine
  that terminates and then kills the descendants of a lease whose supervisor and process group are gone. What the
  machine observes is an input: the boot id, whether the supervisor and the group are alive, and a scan of the process
  table (the live recorded members and, of those, the ones whose identity could be verified).
\<close>

section \<open>The table\<close>

definition writeLease :: "lease list \<Rightarrow> lease \<Rightarrow> lease list" where
  "writeLease ls l = (if list_ex (\<lambda>x. eid x = eid l) ls then map (\<lambda>x. if eid x = eid l then l else x) ls else ls @ [l])"

definition readLease :: "lease list \<Rightarrow> string \<Rightarrow> lease option" where
  "readLease ls i = List.find (\<lambda>l. eid l = i) ls"

definition removeLease :: "lease list \<Rightarrow> string \<Rightarrow> lease list" where
  "removeLease ls i = filter (\<lambda>l. eid l \<noteq> i) ls"

text \<open>\<^verbatim>\<open>liveLease\<close>: the lease an id names, if it is live on this host. \<open>isId\<close> is the ticket-id syntax test.\<close>

datatype lease_refusal = NotATicketId | NoLeaseRecord | BeforeThisBoot | NotRunning lease_state | SupervisorExited

definition liveLease ::
  "(string \<Rightarrow> bool) \<Rightarrow> (lease \<Rightarrow> bool) \<Rightarrow> lease list \<Rightarrow> string \<Rightarrow> string option \<Rightarrow> lease_refusal + lease" where
  "liveLease isId alive ls i boot =
     (if \<not> isId i then Inl NotATicketId
      else case readLease ls i of
          None \<Rightarrow> Inl NoLeaseRecord
        | Some l \<Rightarrow>
            if leaseBootId l \<noteq> boot then Inl BeforeThisBoot
            else if state l \<noteq> RUNNING then Inl (NotRunning (state l))
            else if \<not> alive l then Inl SupervisorExited
            else Inr l)"

section \<open>Reaping an orphan\<close>

definition ORPHAN_KILL_GIVE_UP_MS :: jsnum where "ORPHAN_KILL_GIVE_UP_MS = 30000"
definition ORPHAN_UNREADABLE_GIVE_UP_MS :: jsnum where "ORPHAN_UNREADABLE_GIVE_UP_MS = 60000"
definition CANCEL_GRACE_MS :: jsnum where "CANCEL_GRACE_MS = 10000"

text \<open>One scan of the process table: the live members, and the verified ones a signal may be sent to.\<close>

record scan =
  scanLive :: "string list"
  scanSignalable :: "string list"

datatype orphan_outcome = Released | StillHeld lease

text \<open>\<^verbatim>\<open>stepOrphanReap\<close>. \<open>sc = None\<close> is a process table that could not be read. The CPU scope is stopped outside the model.\<close>

definition stepOrphanReap :: "lease \<Rightarrow> scan option \<Rightarrow> jsnum \<Rightarrow> orphan_outcome" where
  "stepOrphanReap l sc now =
     (let s = nullish (orphanReap l) \<lparr>termAt = now, killAt = None, signalledCount = 0, termedMembers = [], killedMembers = []\<rparr>
      in if (case sc of Some x \<Rightarrow> scanLive x = [] | None \<Rightarrow> False) then Released
         else if sc = None \<and> now - termAt s \<ge> ORPHAN_UNREADABLE_GIVE_UP_MS then Released
         else if (case killAt s of Some k \<Rightarrow> now - k \<ge> ORPHAN_KILL_GIVE_UP_MS | None \<Rightarrow> False) then Released
         else (let pastGrace = (sc \<noteq> None \<and> orphanReap l \<noteq> None \<and> now - termAt s \<ge> CANCEL_GRACE_MS);
                   phaseKill = (killAt s \<noteq> None \<or> pastGrace);
                   sent = (if phaseKill then killedMembers s else termedMembers s);
                   signalled = (case sc of Some x \<Rightarrow> filter (\<lambda>m. m \<notin> set sent) (scanSignalable x) | None \<Rightarrow> []);
                   killAt' = nullish_opt (killAt s) (if pastGrace \<and> signalled \<noteq> [] then Some now else None)
               in if killAt' = None \<and> now - termAt s \<ge> ORPHAN_UNREADABLE_GIVE_UP_MS then Released
                  else StillHeld (l\<lparr>state := ORPHANED, orphanReap := Some
                    \<lparr>termAt = termAt s, killAt = killAt', signalledCount = signalledCount s + length signalled,
                     termedMembers = (if phaseKill then termedMembers s else termedMembers s @ signalled),
                     killedMembers = (if phaseKill then killedMembers s @ signalled else killedMembers s)\<rparr>\<rparr>)))"

text \<open>What the host says about a lease when it is reaped.\<close>

record lease_probe =
  supervisorUp :: bool
  groupUp :: bool
  tableScan :: "scan option"

datatype reap_action = Kept | Reaped | Orphaned

definition reapIfStale :: "lease \<Rightarrow> string option \<Rightarrow> lease_probe \<Rightarrow> jsnum \<Rightarrow> reap_action \<times> lease option" where
  "reapIfStale l boot pr now =
     (if leaseBootId l \<noteq> boot then (Reaped, None)
      else if supervisorUp pr then (Kept, Some l)
      else if \<not> groupUp pr then
        (case stepOrphanReap l (tableScan pr) now of Released \<Rightarrow> (Reaped, None) | StillHeld l' \<Rightarrow> (Orphaned, Some l'))
      else (Orphaned, Some (l\<lparr>state := ORPHANED\<rparr>)))"

definition reapAll :: "lease list \<Rightarrow> string option \<Rightarrow> (lease \<Rightarrow> lease_probe) \<Rightarrow> jsnum \<Rightarrow> lease list" where
  "reapAll ls boot probe now = List.map_filter (\<lambda>l. snd (reapIfStale l boot (probe l) now)) ls"

section \<open>Lemmas\<close>

lemma stepOrphanReap_held:
  assumes "stepOrphanReap l sc now = StillHeld l'"
  shows "state l' = ORPHANED \<and> eid l' = eid l \<and> key l' = key l \<and> leaseWeight l' = leaseWeight l \<and> exclusive l' = exclusive l \<and>
    (\<exists>s'. orphanReap l' = Some s' \<and> termAt s' = termAt (nullish (orphanReap l) \<lparr>termAt = now, killAt = None, signalledCount = 0, termedMembers = [], killedMembers = []\<rparr>))"
  using assms by (auto simp: stepOrphanReap_def Let_def split: if_splits)

lemma reapIfStale_fields:
  assumes "snd (reapIfStale l boot pr now) = Some l'"
  shows "eid l' = eid l \<and> key l' = key l \<and> leaseWeight l' = leaseWeight l \<and> exclusive l' = exclusive l \<and>
    (state l' = state l \<or> state l' = ORPHANED)"
  using assms
  by (auto simp: reapIfStale_def split: if_splits orphan_outcome.splits dest!: stepOrphanReap_held)

text \<open>After a pass that held the lease, the deadlines of the next pass are already running.\<close>

lemma stepOrphanReap_deadline:
  assumes "stepOrphanReap l sc now = StillHeld l'" "orphanReap l = Some s" "termAt s + ORPHAN_UNREADABLE_GIVE_UP_MS \<le> now"
  shows "\<exists>s' k. orphanReap l' = Some s' \<and> killAt s' = Some k \<and> k \<le> max now (nullish (killAt s) now) \<and>
    (killAt s \<noteq> None \<longrightarrow> killAt s' = killAt s) \<and> (killAt s = None \<longrightarrow> k = now)"
  using assms by (auto simp: stepOrphanReap_def Let_def algebra_simps nullish_opt_def split: if_splits option.splits)

lemma stepOrphanReap_kill_deadline:
  assumes "orphanReap l = Some s" "killAt s = Some k" "k + ORPHAN_KILL_GIVE_UP_MS \<le> now"
  shows "stepOrphanReap l sc now = Released"
  using assms by (auto simp: stepOrphanReap_def Let_def algebra_simps split: option.splits)

section \<open>Properties\<close>

text \<open>
  The reap rule never drops work that may be running. \<^verbatim>\<open>reapIfStale\<close> removes a lease of this boot only when its
  supervisor and its process group are gone and either a readable scan shows no live member, or the machine has been
  trying for its full deadlines: thirty seconds after a KILL was sent, or sixty seconds after the first TERM without one.
\<close>

theorem reap_only_when_dead:
  assumes "snd (reapIfStale l boot pr now) = None" and "leaseBootId l = boot"
  shows "\<not> supervisorUp pr \<and> \<not> groupUp pr \<and>
    ((\<exists>x. tableScan pr = Some x \<and> scanLive x = []) \<or>
     (\<exists>s. orphanReap l = Some s \<and>
        ((\<exists>k. killAt s = Some k \<and> ORPHAN_KILL_GIVE_UP_MS \<le> now - k) \<or> ORPHAN_UNREADABLE_GIVE_UP_MS \<le> now - termAt s)))"
proof -
  have st: "stepOrphanReap l (tableScan pr) now = Released" "\<not> supervisorUp pr" "\<not> groupUp pr"
    using assms by (auto simp: reapIfStale_def split: if_splits orphan_outcome.splits)
  show ?thesis
  proof (cases "orphanReap l")
    case None
    then show ?thesis
      using st by (auto simp: stepOrphanReap_def Let_def ORPHAN_UNREADABLE_GIVE_UP_MS_def split: if_splits option.splits)
  next
    case (Some s)
    then show ?thesis
      using st by (auto simp: stepOrphanReap_def Let_def split: if_splits option.splits)
  qed
qed

text \<open>
  C36. An orphan cannot block its lane for ever. Whatever the scans show, once a pass has run sixty seconds after the first
  TERM, a pass thirty seconds later removes the lease: the machine is released within ninety seconds of polling.
\<close>

theorem orphan_eventually_released:
  assumes start: "orphanReap l = Some s" and first: "termAt s + ORPHAN_UNREADABLE_GIVE_UP_MS \<le> t1"
    and past: "\<And>k. killAt s = Some k \<Longrightarrow> k \<le> t1" and second: "t1 + ORPHAN_KILL_GIVE_UP_MS \<le> t2"
  shows "stepOrphanReap l sc1 t1 = Released \<or>
    (\<exists>l'. stepOrphanReap l sc1 t1 = StillHeld l' \<and> stepOrphanReap l' sc2 t2 = Released)"
proof (cases "stepOrphanReap l sc1 t1")
  case (StillHeld l')
  obtain s' k where k: "orphanReap l' = Some s'" "killAt s' = Some k" "killAt s \<noteq> None \<longrightarrow> killAt s' = killAt s" "killAt s = None \<longrightarrow> k = t1"
    using stepOrphanReap_deadline[OF StillHeld start first] by (elim exE conjE) (rule that)
  have "k \<le> t1" using k past by (cases "killAt s") auto
  then have "k + ORPHAN_KILL_GIVE_UP_MS \<le> t2" using second by linarith
  then show ?thesis using StillHeld stepOrphanReap_kill_deadline[OF k(1,2)] by blast
qed simp

definition orphan_example :: lease where
  "orphan_example = \<lparr>eid = ''l1'', key = ''repo:e2e'', resources = None, configLane = None, cmdFingerprint = None,
     klass = None, exclusive = False, nice = None, priorityRequested = None, priorityAdmitted = None,
     priorityDemoted = False, maxConcurrent = None, pushGate = None, repoId = None, supervisorPid = Some 90,
     supervisorStart = None, bypassRefused = None, leaseWeight = Some 2, state = ORPHANED, leaseBootId = Some ''b'',
     childPgid = Some 91, heartbeatAt = None, admittedAt = Some 0, observedAt = None, observedCpuCores = None,
     observedMemoryBytes = None, observedCpuHistory = [], cpuIntervalCores = None, cpuIdleSince = None, cpuIdleLastAt = None,
     grantedCpuCores = None, queueBypass = None, floorSlot = False, classEnforced = False, effectiveRankAtStart = 0,
     scoreAtStart = 0, leaseRetieredAt = None, leaseDeclaredCpu = None,
     orphanReap = Some \<lparr>termAt = 0, killAt = None, signalledCount = 1, termedMembers = [''p:1''], killedMembers = []\<rparr>\<rparr>"

definition stubborn_scan :: scan where
  "stubborn_scan = \<lparr>scanLive = [''p:1''], scanSignalable = [''p:1'']\<rparr>"

theorem reap_only_when_dead_witness:
  "snd (reapIfStale orphan_example (Some ''b'') \<lparr>supervisorUp = False, groupUp = False, tableScan = None\<rparr> 70000) = None \<and>
   ORPHAN_UNREADABLE_GIVE_UP_MS \<le> 70000"
proof -
  have h: "snd (reapIfStale orphan_example (Some ''b'') \<lparr>supervisorUp = False, groupUp = False, tableScan = None\<rparr> 70000) = None"
    by code_simp
  have b: "leaseBootId orphan_example = Some ''b''" by (simp add: orphan_example_def)
  show ?thesis using h reap_only_when_dead[OF h b] by (auto simp: orphan_example_def)
qed

theorem orphan_eventually_released_witness:
  "\<exists>l'. stepOrphanReap orphan_example (Some stubborn_scan) 60000 = StillHeld l' \<and> stepOrphanReap l' (Some stubborn_scan) 90000 = Released"
proof -
  have ne: "stepOrphanReap orphan_example (Some stubborn_scan) 60000 \<noteq> Released"
    by (simp add: stepOrphanReap_def orphan_example_def stubborn_scan_def CANCEL_GRACE_MS_def Let_def)
  show ?thesis
    using ne orphan_eventually_released[of orphan_example
        "\<lparr>termAt = 0, killAt = None, signalledCount = 1, termedMembers = [''p:1''], killedMembers = []\<rparr>" 60000 90000
        "Some stubborn_scan" "Some stubborn_scan"]
    by (simp add: orphan_example_def ORPHAN_UNREADABLE_GIVE_UP_MS_def ORPHAN_KILL_GIVE_UP_MS_def)
qed

end
