(* ===== verification/Attempts.thy ===== *)
theory Attempts
  imports Lane_Data "HOL-Library.AList"
begin

text \<open>
  Remote attempts (src/attempts.js): one durable record per remote-eligible ticket, fenced by a generation, and the one
  function every terminal path publishes through. Each operation runs under the broker lock, so an interleaving of
  supervisors is a sequence of steps; the last section states the publish-once property over all such sequences.
\<close>

section \<open>Records and operations\<close>

datatype executor = RemoteExec | LocalExec

datatype attempt_phase = ProbePhase | QueuedPhase | RunningPhase | OtherPhase string

text \<open>What the dispatch was bound to, and a move between runners in progress (\<open>mvRefuse\<close>: its \<^verbatim>\<open>kind\<close> is \<^verbatim>\<open>refuse\<close>, a withdraw without destination).\<close>

record binding =
  bProtocol :: int
  bTicketId :: "string option"
  bGeneration :: int
  bManifestHash :: string

datatype move_phase = Withdrawing | Dispatching

record move =
  mvFrom :: string
  mvTo :: string
  mvPhase :: move_phase
  mvRefuse :: bool

record attempt =
  generation :: int
  executor :: executor
  phase :: attempt_phase
  runner :: "string option"
  fallbackReason :: "string option"
  rebinding :: bool
  attemptBoot :: "string option"
  attemptPid :: jsnum
  attemptStart :: "string option"
  kernelBoot :: "string option"
  attemptStarted :: jsnum
  binding :: "binding option"
  moving :: "move option"
  dispatchedRunners :: "string list"

type_synonym attempts = "(string \<times> attempt) list"

definition readAttempt :: "attempts \<Rightarrow> string \<Rightarrow> attempt option" where
  "readAttempt as i = map_of as i"

definition removeAttempt :: "attempts \<Rightarrow> string \<Rightarrow> attempts" where
  "removeAttempt as i = AList.delete i as"

text \<open>\<^verbatim>\<open>supervisorAlive\<close>: \<open>procAlive\<close> is the process probe, which answers true when it cannot tell.\<close>

definition supervisorAlive :: "string option \<Rightarrow> (jsnum \<Rightarrow> string option \<Rightarrow> bool) \<Rightarrow> attempt option \<Rightarrow> bool" where
  "supervisorAlive boot procAlive a =
     (case a of Some x \<Rightarrow> attemptBoot x = boot \<and> procAlive (attemptPid x) (attemptStart x) | None \<Rightarrow> False)"

datatype create_outcome = ExistingTicket | RefusedMigrating | Created attempt

text \<open>
  \<^verbatim>\<open>createAttempt\<close>: \<open>existing\<close> is what \<^verbatim>\<open>refuseIf\<close> finds under the same lock; the owner's identity is the caller's, \<open>bootAt\<close> the kernel boot id and the time.
\<close>

definition createAttempt ::
  "bool \<Rightarrow> bool \<Rightarrow> jsnum \<times> string option \<times> string option \<Rightarrow> string option \<times> jsnum \<Rightarrow> string option \<Rightarrow> string \<Rightarrow> attempts \<Rightarrow> create_outcome \<times> attempts" where
  "createAttempt existing migrating owner bootAt runner0 i as =
     (let a = \<lparr>generation = 0, executor = RemoteExec, phase = ProbePhase, runner = runner0, fallbackReason = None,
              rebinding = False, attemptBoot = snd (snd owner), attemptPid = fst owner, attemptStart = fst (snd owner),
              kernelBoot = fst bootAt, attemptStarted = snd bootAt, binding = None, moving = None, dispatchedRunners = []\<rparr>
      in if existing then (ExistingTicket, as)
         else if migrating then (RefusedMigrating, as)
         else (Created a, AList.update i a as))"

definition patchAttemptLocked :: "attempts \<Rightarrow> string \<Rightarrow> (attempt \<Rightarrow> attempt) \<Rightarrow> attempts" where
  "patchAttemptLocked as i f = (case readAttempt as i of None \<Rightarrow> as | Some a \<Rightarrow> AList.update i (f a) as)"

text \<open>\<^verbatim>\<open>updateAttempt\<close>: the flag is \<^verbatim>\<open>ok\<close>. A refusal while migrating is an exception and changes nothing either.\<close>

definition updateAttempt :: "bool \<Rightarrow> attempts \<Rightarrow> string \<Rightarrow> int \<Rightarrow> (attempt \<Rightarrow> attempt) \<Rightarrow> bool \<times> attempts" where
  "updateAttempt refusedMigrating as i expected f =
     (if refusedMigrating then (False, as)
      else case readAttempt as i of
          None \<Rightarrow> (False, as)
        | Some a \<Rightarrow> if generation a \<noteq> expected then (False, as) else (True, AList.update i (f a) as))"

definition fallbackToLocal :: "bool \<Rightarrow> attempts \<Rightarrow> string \<Rightarrow> string \<Rightarrow> bool \<times> attempts" where
  "fallbackToLocal cancelled as i why =
     (if cancelled then (False, as)
      else case readAttempt as i of
          None \<Rightarrow> (False, as)
        | Some a \<Rightarrow> (True, AList.update i (a\<lparr>generation := generation a + 1, executor := LocalExec, phase := QueuedPhase,
                        fallbackReason := Some why\<rparr>) as))"

datatype publish_outcome = AlreadyPublished | StaleAttempt | GenerationMismatch | PublishedCancelled | Published

definition publishTerminal ::
  "bool \<Rightarrow> attempts \<Rightarrow> string \<Rightarrow> int \<Rightarrow> (attempt \<Rightarrow> bool) option \<Rightarrow> publish_outcome \<times> attempts" where
  "publishTerminal cancelled as i gen expected =
     (case readAttempt as i of
        None \<Rightarrow> (AlreadyPublished, as)
      | Some a \<Rightarrow>
          if (case expected of Some p \<Rightarrow> \<not> p a | None \<Rightarrow> False) then (StaleAttempt, as)
          else if cancelled then (PublishedCancelled, removeAttempt as i)
          else if generation a \<noteq> gen then (GenerationMismatch, as)
          else (Published, removeAttempt as i))"

definition published :: "publish_outcome \<Rightarrow> bool" where
  "published p \<longleftrightarrow> p = PublishedCancelled \<or> p = Published"

section \<open>Interleavings\<close>

text \<open>
  The shared state: the attempt records, the cancel markers, and the list of results published, each with its ticket, whether
  it was published as cancelled, and the generation the publisher acted on. A client-supplied id is refused once a result exists.
\<close>

record world =
  wAttempts :: attempts
  wCancelled :: "string list"
  wResults :: "(string \<times> bool \<times> int) list"

definition known_id :: "world \<Rightarrow> string \<Rightarrow> bool" where
  "known_id w i \<longleftrightarrow> readAttempt (wAttempts w) i \<noteq> None \<or> i \<in> fst ` set (wResults w)"

inductive wstep :: "world \<Rightarrow> world \<Rightarrow> bool" where
  create: "wstep w (w\<lparr>wAttempts := snd (createAttempt (known_id w i) mig owner bt rn i (wAttempts w))\<rparr>)"
| update: "(\<And>a. generation (f a) = generation a) \<Longrightarrow>
     wstep w (w\<lparr>wAttempts := snd (updateAttempt mig (wAttempts w) i g f)\<rparr>)"
| fallback: "wstep w (w\<lparr>wAttempts := snd (fallbackToLocal (i \<in> set (wCancelled w)) (wAttempts w) i why)\<rparr>)"
| cancel: "wstep w (w\<lparr>wCancelled := i # wCancelled w\<rparr>)"
| publish: "publishTerminal (i \<in> set (wCancelled w)) (wAttempts w) i g ex = (out, as') \<Longrightarrow> published out \<Longrightarrow>
     wstep w (w\<lparr>wAttempts := as', wResults := (i, out = PublishedCancelled, g) # wResults w\<rparr>)"

definition fresh_world :: world where
  "fresh_world = \<lparr>wAttempts = [], wCancelled = [], wResults = []\<rparr>"

inductive_cases wstepE: "wstep w w'"

abbreviation reachable_world :: "world \<Rightarrow> bool" where
  "reachable_world w \<equiv> wstep\<^sup>*\<^sup>* fresh_world w"

section \<open>Lemmas\<close>

lemma createAttempt_dom:
  "readAttempt (snd (createAttempt ex mig owner bt rn i as)) j \<noteq> None \<Longrightarrow> readAttempt as j \<noteq> None \<or> (j = i \<and> \<not> ex)"
  by (auto simp: createAttempt_def readAttempt_def update_conv Let_def split: if_splits)

lemma updateAttempt_dom: "readAttempt (snd (updateAttempt mig as i g f)) j \<noteq> None \<longleftrightarrow> readAttempt as j \<noteq> None"
  by (auto simp: updateAttempt_def readAttempt_def update_conv split: option.splits)

lemma fallbackToLocal_dom: "readAttempt (snd (fallbackToLocal c as i why)) j \<noteq> None \<longleftrightarrow> readAttempt as j \<noteq> None"
  by (auto simp: fallbackToLocal_def readAttempt_def update_conv split: option.splits)

lemma publishTerminal_published:
  assumes "publishTerminal c as i g ex = (out, as')" "published out"
  shows "as' = removeAttempt as i \<and> (out = PublishedCancelled \<longleftrightarrow> c) \<and>
    (\<exists>a. readAttempt as i = Some a \<and> (\<not> c \<longrightarrow> generation a = g))"
  using assms by (auto simp: publishTerminal_def published_def split: option.splits if_splits)

lemma readAttempt_remove [simp]: "readAttempt (removeAttempt as i) j = (if j = i then None else readAttempt as j)"
  by (simp add: readAttempt_def removeAttempt_def delete_conv)

text \<open>The invariant: a published ticket has no attempt, no ticket is published twice, and cancel markers only accumulate.\<close>

definition world_inv :: "world \<Rightarrow> bool" where
  "world_inv w \<longleftrightarrow> distinct (map fst (wResults w)) \<and> (\<forall>i \<in> fst ` set (wResults w). readAttempt (wAttempts w) i = None) \<and>
     (\<forall>(i, c, g) \<in> set (wResults w). c \<longrightarrow> i \<in> set (wCancelled w))"

lemma world_inv_attempts:
  assumes "world_inv w" "\<And>j. j \<in> fst ` set (wResults w) \<Longrightarrow> readAttempt as' j = None"
  shows "world_inv (w\<lparr>wAttempts := as'\<rparr>)"
  unfolding world_inv_def using assms by (simp add: world_inv_def)

lemma world_inv_none: "world_inv w \<Longrightarrow> j \<in> fst ` set (wResults w) \<Longrightarrow> readAttempt (wAttempts w) j = None"
  unfolding world_inv_def by (elim conjE) (erule bspec)

lemma world_inv_step:
  assumes "wstep w w'" "world_inv w"
  shows "world_inv w'"
  using assms(1)
proof (cases rule: wstep.cases)
  case (create i mig owner bt rn)
  have "readAttempt (snd (createAttempt (known_id w i) mig owner bt rn i (wAttempts w))) j = None"
    if "j \<in> fst ` set (wResults w)" for j
  proof (rule ccontr)
    assume "readAttempt (snd (createAttempt (known_id w i) mig owner bt rn i (wAttempts w))) j \<noteq> None"
    from createAttempt_dom[OF this] world_inv_none[OF assms(2) that] have "j = i" "\<not> known_id w i" by auto
    then show False using that by (simp add: known_id_def)
  qed
  then show ?thesis unfolding create by (intro world_inv_attempts[OF assms(2)])
next
  case (update f mig i g)
  then show ?thesis
    using updateAttempt_dom world_inv_none[OF assms(2)] unfolding update(1) by (intro world_inv_attempts[OF assms(2)]) metis
next
  case (fallback i why)
  then show ?thesis
    using fallbackToLocal_dom world_inv_none[OF assms(2)] unfolding fallback by (intro world_inv_attempts[OF assms(2)]) metis
next
  case (cancel i)
  have "\<forall>(j, c, g) \<in> set (wResults w). c \<longrightarrow> j \<in> set (i # wCancelled w)"
    using assms(2) unfolding world_inv_def by auto
  then show ?thesis using assms(2) unfolding cancel world_inv_def by simp
next
  case (publish i g ex out as')
  note p = publishTerminal_published[OF publish(2,3)]
  have "i \<notin> fst ` set (wResults w)"
    using p world_inv_none[OF assms(2)] by (metis option.distinct(1))
  moreover have "readAttempt as' j = None" if "j \<in> fst ` set (wResults w)" for j
    using p world_inv_none[OF assms(2) that] by simp
  ultimately show ?thesis
    using p assms(2) unfolding publish(1) world_inv_def by (auto simp: image_iff)
qed

lemma world_inv_reachable: "reachable_world w \<Longrightarrow> world_inv w"
proof (induction rule: rtranclp_induct)
  case base
  show ?case by (simp add: world_inv_def fresh_world_def)
next
  case (step y z)
  then show ?case using world_inv_step by blast
qed

section \<open>Properties\<close>



text \<open>
  The generation fence. A writer that acts on a generation the attempt has left changes nothing: after a fallback
  succeeds, an update or a publish by the previous generation is refused and leaves the record exactly as the fallback wrote
  it, unless the ticket was cancelled, in which case the only thing that can be published is the cancelled result.
\<close>

theorem generation_fence:
  assumes "readAttempt as i = Some a" and "fallbackToLocal False as i why = (True, as')"
  shows "updateAttempt mig as' i (generation a) f = (False, as') \<and>
    publishTerminal False as' i (generation a) None = (GenerationMismatch, as') \<and>
    publishTerminal True as' i g None = (PublishedCancelled, removeAttempt as' i) \<and>
    fallbackToLocal True as i why = (False, as)"
  using assms
  by (auto simp: fallbackToLocal_def updateAttempt_def publishTerminal_def readAttempt_def update_conv split: option.splits)

theorem generation_fence_witness:
  "\<exists>as'. fallbackToLocal False (snd (createAttempt False False (1, None, None) (None, 0) None ''t'' [])) ''t'' ''busy'' = (True, as') \<and>
     publishTerminal False as' ''t'' 0 None = (GenerationMismatch, as')"
proof -
  let ?as = "snd (createAttempt False False (1, None, None) (None, 0) None ''t'' [])"
  obtain a where a: "readAttempt ?as ''t'' = Some a" "generation a = 0"
    by (simp add: createAttempt_def readAttempt_def Let_def)
  then obtain as' where f: "fallbackToLocal False ?as ''t'' ''busy'' = (True, as')"
    by (simp add: fallbackToLocal_def)
  show ?thesis using f generation_fence[OF a(1) f] a(2) by auto
qed

end
