(* ===== verification/Push_Gate.thy ===== *)
theory Push_Gate
  imports Lane_Data "HOL-Library.AList"
begin

text \<open>
  Push gates (src/push-gate.js): the order of two pushes, the repeat test, and the pass that holds a caller's later push
  behind its earlier one. \<open>isLive\<close> is the code's test that a ticket is neither cancelled nor superseded. The detection of
  the git ancestor process (\<^verbatim>\<open>detectPushGate\<close>) is process inspection and is not modelled.
\<close>

section \<open>Definitions\<close>

text \<open>\<^verbatim>\<open>pushOrder\<close>: negative when the first push is earlier.\<close>

definition pushOrder :: "push_gate \<Rightarrow> push_gate \<Rightarrow> jsnum" where
  "pushOrder a b =
     (if gitStartEpoch a - gitStartEpoch b \<noteq> 0 then gitStartEpoch a - gitStartEpoch b else gitPid a - gitPid b)"

definition isRepeatOfPush :: "push_gate \<Rightarrow> push_gate \<Rightarrow> bool" where
  "isRepeatOfPush a b \<longleftrightarrow>
     worktree a = worktree b \<and> branch a = branch b \<and> pushArgsHash a = pushArgsHash b \<and> gitPid a \<noteq> gitPid b"

text \<open>A gate in play: its ticket or lease id and its stamp.\<close>

type_synonym gated = "string \<times> push_gate"

definition push_key :: "gated \<Rightarrow> jsnum \<times> jsnum" where
  "push_key g = (gitStartEpoch (snd g), gitPid (snd g))"

definition differs :: "gated option \<Rightarrow> gated \<Rightarrow> bool" where
  "differs other t = (case other of Some g \<Rightarrow> gitPid (snd g) \<noteq> gitPid (snd t) | None \<Rightarrow> False)"

definition hold_of :: "gated option \<Rightarrow> gated option \<Rightarrow> gated option \<Rightarrow> gated option \<Rightarrow> gated \<Rightarrow> gated option" where
  "hold_of firstRunning otherRunning earliest earliestOther t =
     nullish_opt (if differs firstRunning t then firstRunning else otherRunning)
       (if differs earliest t then earliest else earliestOther)"

definition set_hold :: "gated \<Rightarrow> gated option \<Rightarrow> (string \<times> string) list \<Rightarrow> (string \<times> string) list" where
  "set_hold t holder holds = (case holder of Some g \<Rightarrow> AList.update (fst t) (fst g) holds | None \<Rightarrow> holds)"

text \<open>One pass over a caller's queued gates in push order, remembering its earliest live gate and its earliest live gate of another push.\<close>

fun hold_walk ::
  "(string \<Rightarrow> bool) \<Rightarrow> gated option \<Rightarrow> gated option \<Rightarrow> gated option \<Rightarrow> gated option \<Rightarrow> gated list \<Rightarrow>
   (string \<times> string) list \<Rightarrow> (string \<times> string) list" where
  "hold_walk isLive firstRunning otherRunning earliest earliestOther [] holds = holds"
| "hold_walk isLive firstRunning otherRunning earliest earliestOther (t # ts) holds =
     hold_walk isLive firstRunning otherRunning
       (if isLive (fst t) \<and> earliest = None then Some t else earliest)
       (if isLive (fst t) \<and> earliest \<noteq> None \<and> earliestOther = None \<and> differs earliest t then Some t else earliestOther)
       ts (set_hold t (hold_of firstRunning otherRunning earliest earliestOther t) holds)"

definition gated_of :: "'a entry_scheme \<Rightarrow> gated option" where
  "gated_of e = map_option (\<lambda>g. (eid e, g)) (pushGate e)"

definition running_gates :: "(string \<Rightarrow> bool) \<Rightarrow> lease list \<Rightarrow> gated list" where
  "running_gates isLive ls = List.map_filter gated_of (filter (\<lambda>l. state l = RUNNING \<and> isLive (eid l)) ls)"

definition queued_gates :: "ticket rqueue \<Rightarrow> gated list" where
  "queued_gates q = List.map_filter gated_of (readable q)"

definition of_caller :: "string \<Rightarrow> gated list \<Rightarrow> gated list" where
  "of_caller who gs = filter (\<lambda>g. caller (snd g) = who) gs"

text \<open>The first running gate of a caller, and the first running gate of another push of that caller.\<close>

definition first_running :: "gated list \<Rightarrow> gated option" where
  "first_running rs = (case rs of [] \<Rightarrow> None | r # _ \<Rightarrow> Some r)"

definition other_running :: "gated list \<Rightarrow> gated option" where
  "other_running rs = (case rs of [] \<Rightarrow> None | r # _ \<Rightarrow> List.find (\<lambda>l. gitPid (snd l) \<noteq> gitPid (snd r)) rs)"

definition caller_holds :: "(string \<Rightarrow> bool) \<Rightarrow> gated list \<Rightarrow> gated list \<Rightarrow> (string \<times> string) list \<Rightarrow> (string \<times> string) list" where
  "caller_holds isLive rs qs holds =
     hold_walk isLive (first_running rs) (other_running rs) None None (sort_key push_key qs) holds"

definition pushHolds :: "(string \<Rightarrow> bool) \<Rightarrow> ticket rqueue \<Rightarrow> lease list \<Rightarrow> (string \<times> string) list" where
  "pushHolds isLive q ls =
     (let rs = running_gates isLive ls; qs = queued_gates q;
          callers = remdups (map (caller \<circ> snd) (rs @ qs))
      in foldl (\<lambda>holds who. caller_holds isLive (of_caller who rs) (of_caller who qs) holds) [] callers)"

definition pushHoldBehind :: "(string \<Rightarrow> bool) \<Rightarrow> ticket \<Rightarrow> ticket rqueue \<Rightarrow> lease list \<Rightarrow> string option" where
  "pushHoldBehind isLive t q ls =
     map_of (pushHolds isLive (if list_ex (\<lambda>u. case u of Some v \<Rightarrow> eid v = eid t | None \<Rightarrow> False) q then q else q @ [Some t]) ls)
       (eid t)"

section \<open>Lemmas\<close>

lemma pushOrder_key: "pushOrder (snd a) (snd b) < 0 \<longleftrightarrow> push_key a < push_key b"
  by (auto simp: pushOrder_def push_key_def less_prod_def)

lemma running_gates_mem:
  "(i, g) \<in> set (running_gates isLive ls) \<longleftrightarrow>
     (\<exists>l \<in> set ls. state l = RUNNING \<and> isLive (eid l) \<and> eid l = i \<and> pushGate l = Some g)"
  by (force simp: running_gates_def gated_of_def List.map_filter_def)

lemma queued_gates_mem:
  "(i, g) \<in> set (queued_gates q) \<longleftrightarrow> (\<exists>t. Some t \<in> set q \<and> eid t = i \<and> pushGate t = Some g)"
  by (force simp: queued_gates_def gated_of_def List.map_filter_def)

lemma set_hold_lookup:
  "map_of (set_hold t h holds) i = (if i = fst t \<and> h \<noteq> None then map_option fst h else map_of holds i)"
  by (auto simp: set_hold_def update_conv split: option.splits)

lemma hold_walk_dom:
  "map_of holds i \<noteq> None \<Longrightarrow> map_of (hold_walk isLive fr orr e eo ts holds) i \<noteq> None"
  by (induction isLive fr orr e eo ts holds rule: hold_walk.induct) (simp_all add: set_hold_lookup)

lemma hold_walk_frame:
  "i \<notin> fst ` set ts \<Longrightarrow> map_of (hold_walk isLive fr orr e eo ts holds) i = map_of holds i"
  by (induction isLive fr orr e eo ts holds rule: hold_walk.induct) (simp_all add: set_hold_lookup)

text \<open>A gate that differs from a running push of its caller is held whatever else the walk sees.\<close>

lemma hold_walk_running:
  assumes "t \<in> set ts" "(if differs fr t then fr else orr) \<noteq> None"
  shows "map_of (hold_walk isLive fr orr e eo ts holds) (fst t) \<noteq> None"
  using assms
proof (induction isLive fr orr e eo ts holds rule: hold_walk.induct)
  case (2 isLive fr orr e eo u us holds)
  show ?case
  proof (cases "t = u")
    case True
    then have "hold_of fr orr e eo u \<noteq> None"
      using 2(3) by (auto simp: hold_of_def nullish_opt_def split: option.splits)
    then show ?thesis
      using True by (simp only: hold_walk.simps) (rule hold_walk_dom, simp add: set_hold_lookup)
  next
    case False
    then show ?thesis using 2 by simp
  qed
qed simp

lemma of_caller_mem [simp]: "g \<in> set (of_caller who gs) \<longleftrightarrow> g \<in> set gs \<and> caller (snd g) = who"
  by (auto simp: of_caller_def)

lemma running_holder_exists:
  assumes "r \<in> set rs" "gitPid (snd r) \<noteq> gitPid (snd t)"
  shows "(if differs (first_running rs) t then first_running rs else other_running rs) \<noteq> None"
proof (cases rs)
  case (Cons f fs)
  show ?thesis
  proof (cases "gitPid (snd f) = gitPid (snd t)")
    case True
    then have "List.find (\<lambda>l. gitPid (snd l) \<noteq> gitPid (snd f)) rs \<noteq> None"
      using assms True unfolding find_None_iff by metis
    then show ?thesis using Cons True by (simp add: first_running_def other_running_def differs_def)
  next
    case False
    then show ?thesis using Cons by (simp add: first_running_def differs_def)
  qed
qed (use assms in simp)

lemma foldl_caller_holds_dom:
  "map_of holds i \<noteq> None \<Longrightarrow>
   map_of (foldl (\<lambda>holds who. caller_holds isLive (of_caller who rs) (of_caller who qs) holds) holds ws) i \<noteq> None"
proof (induction ws arbitrary: holds)
  case (Cons w ws)
  then show ?case using hold_walk_dom[OF Cons.prems] by (simp add: caller_holds_def)
qed simp

lemma foldl_caller_holds:
  assumes "who \<in> set ws" "r \<in> set (of_caller who rs)" "t \<in> set (of_caller who qs)" "gitPid (snd r) \<noteq> gitPid (snd t)"
  shows "map_of (foldl (\<lambda>holds who. caller_holds isLive (of_caller who rs) (of_caller who qs) holds) holds ws) (fst t) \<noteq> None"
  using assms(1)
proof (induction ws arbitrary: holds)
  case (Cons w ws)
  show ?case
  proof (cases "w = who")
    case True
    have "map_of (caller_holds isLive (of_caller w rs) (of_caller w qs) holds) (fst t) \<noteq> None"
      unfolding caller_holds_def
      using hold_walk_running[of t "sort_key push_key (of_caller w qs)"] running_holder_exists[OF assms(2,4)] assms(3) True
      by simp
    then show ?thesis using foldl_caller_holds_dom by simp
  next
    case False
    then show ?thesis using Cons by simp
  qed
qed simp

text \<open>While every live gate seen so far is of the ticket's own push, the ticket is not held.\<close>

definition same_push :: "jsnum \<Rightarrow> gated option \<Rightarrow> bool" where
  "same_push p g = (case g of Some x \<Rightarrow> gitPid (snd x) = p | None \<Rightarrow> True)"

lemma hold_walk_earliest_free:
  assumes "\<forall>u \<in> set ts1. isLive (fst u) \<longrightarrow> gitPid (snd u) = gitPid (snd t)" "same_push (gitPid (snd t)) fr"
    "same_push (gitPid (snd t)) e" "fst t \<notin> fst ` set ts1" "fst t \<notin> fst ` set ts2" "map_of holds (fst t) = None"
  shows "map_of (hold_walk isLive fr None e None (ts1 @ t # ts2) holds) (fst t) = None"
  using assms
proof (induction ts1 arbitrary: e holds)
  case (Cons u us)
  have eo: "(if isLive (fst u) \<and> e \<noteq> None \<and> (None :: gated option) = None \<and> differs e u then Some u else None) = None"
    using Cons.prems(1,3) by (auto simp: differs_def same_push_def split: option.splits)
  have e: "same_push (gitPid (snd t)) (if isLive (fst u) \<and> e = None then Some u else e)"
    using Cons.prems(1,3) by (simp add: same_push_def)
  show ?case
    using Cons.IH[OF _ Cons.prems(2) e, of "set_hold u (hold_of fr None e None u) holds"] Cons.prems eo
    by (simp add: set_hold_lookup)
next
  case Nil
  have "hold_of fr None e None t = None"
    using Nil.prems(2,3) by (auto simp: hold_of_def differs_def same_push_def split: option.splits)
  then show ?case using Nil.prems by (simp add: hold_walk_frame set_hold_lookup)
qed

lemma sort_key_split:
  assumes "t \<in> set xs"
  shows "\<exists>ts1 ts2. sort_key f xs = ts1 @ t # ts2 \<and> (\<forall>u \<in> set ts1. f u \<le> f t)"
proof -
  obtain ts1 ts2 where s: "sort_key f xs = ts1 @ t # ts2"
    using assms by (metis set_sort split_list)
  have "sorted (map f (ts1 @ t # ts2))" using s sorted_sort_key[of f xs] by simp
  then show ?thesis using s by (auto simp: sorted_append)
qed

lemma caller_holds_frame:
  "i \<notin> fst ` set qs \<Longrightarrow> map_of (caller_holds isLive rs qs holds) i = map_of holds i"
  by (simp add: caller_holds_def hold_walk_frame)

lemma caller_holds_free:
  assumes t: "t \<in> set qs" "distinct (map fst qs)" "map_of holds (fst t) = None"
    and run: "\<forall>r \<in> set rs. gitPid (snd r) = gitPid (snd t)"
    and first: "\<forall>u \<in> set qs. isLive (fst u) \<and> gitPid (snd u) \<noteq> gitPid (snd t) \<longrightarrow> push_key t < push_key u"
  shows "map_of (caller_holds isLive rs qs holds) (fst t) = None"
proof -
  obtain ts1 ts2 where s: "sort_key push_key qs = ts1 @ t # ts2" "\<forall>u \<in> set ts1. push_key u \<le> push_key t"
    using sort_key_split[OF t(1)] by blast
  have "mset (map fst (ts1 @ t # ts2)) = mset (map fst qs)"
    using s(1) by (metis mset_map mset_sort)
  then have "distinct (map fst (ts1 @ t # ts2))"
    using t(2) by (metis mset_eq_imp_distinct_iff)
  moreover have "set ts1 \<subseteq> set qs" using s(1) by (metis set_sort sup_ge1 set_append)
  then have "\<forall>u \<in> set ts1. isLive (fst u) \<longrightarrow> gitPid (snd u) = gitPid (snd t)"
    using first s(2) by (meson leD subsetD)
  moreover have "same_push (gitPid (snd t)) (first_running rs)"
    using run by (cases rs) (auto simp: same_push_def first_running_def)
  moreover have "other_running rs = None"
  proof (cases rs)
    case (Cons f fs)
    then have "\<not> (\<exists>l \<in> set rs. gitPid (snd l) \<noteq> gitPid (snd f))"
      using run by simp
    then show ?thesis using Cons unfolding other_running_def by (simp only: list.simps find_None_iff) blast
  qed (simp add: other_running_def)
  moreover have "same_push (gitPid (snd t)) None" by (simp add: same_push_def)
  ultimately show ?thesis
    using hold_walk_earliest_free[of ts1 isLive t "first_running rs" None ts2 holds] t(3)
    unfolding caller_holds_def s(1) by simp
qed

lemma foldl_caller_holds_free:
  assumes t: "t \<in> set qs" "distinct (map fst qs)" "map_of holds (fst t) = None"
    and run: "\<forall>r \<in> set (of_caller (caller (snd t)) rs). gitPid (snd r) = gitPid (snd t)"
    and first: "\<forall>u \<in> set (of_caller (caller (snd t)) qs). isLive (fst u) \<and> gitPid (snd u) \<noteq> gitPid (snd t) \<longrightarrow> push_key t < push_key u"
  shows "map_of (foldl (\<lambda>holds who. caller_holds isLive (of_caller who rs) (of_caller who qs) holds) holds ws) (fst t) = None"
  using t(3)
proof (induction ws arbitrary: holds)
  case (Cons w ws)
  have "map_of (caller_holds isLive (of_caller w rs) (of_caller w qs) holds) (fst t) = None"
  proof (cases "w = caller (snd t)")
    case True
    have "distinct (map fst (of_caller w qs))"
      using t(2) by (simp add: of_caller_def distinct_map_filter)
    then show ?thesis using caller_holds_free[of t "of_caller w qs"] t(1) run first True Cons.prems by simp
  next
    case False
    have "fst t \<notin> fst ` set (of_caller w qs)"
    proof
      assume "fst t \<in> fst ` set (of_caller w qs)"
      then obtain u where u: "u \<in> set qs" "caller (snd u) = w" "fst u = fst t" by force
      then have "u = t" using t(1,2) by (meson distinct_map inj_onD)
      then show False using u False by simp
    qed
    then show ?thesis using Cons.prems by (simp add: caller_holds_frame)
  qed
  then show ?case using Cons.IH by simp
qed simp

section \<open>Properties\<close>

text \<open>
  Two pushes of one caller never run beside each other. A queued push gate that \<^verbatim>\<open>pushHolds\<close> leaves free to start
  belongs to the same push (the same git process) as every live running gate of its caller.
\<close>

theorem push_gate_no_overlap:
  assumes "Some t \<in> set q" and "pushGate t = Some g" and "map_of (pushHolds isLive q ls) (eid t) = None"
  shows "\<forall>l \<in> set ls. \<forall>g'. state l = RUNNING \<and> isLive (eid l) \<and> pushGate l = Some g' \<and> caller g' = caller g \<longrightarrow>
    gitPid g' = gitPid g"
proof (intro ballI allI impI, rule ccontr)
  fix l g'
  assume l: "l \<in> set ls" and run: "state l = RUNNING \<and> isLive (eid l) \<and> pushGate l = Some g' \<and> caller g' = caller g"
    and ne: "gitPid g' \<noteq> gitPid g"
  have r: "(eid l, g') \<in> set (of_caller (caller g) (running_gates isLive ls))"
    using l run by (auto simp: running_gates_mem)
  have t: "(eid t, g) \<in> set (of_caller (caller g) (queued_gates q))"
    using assms by (auto simp: queued_gates_mem)
  have "caller g \<in> set (remdups (map (caller \<circ> snd) (running_gates isLive ls @ queued_gates q)))"
    using t by force
  from foldl_caller_holds[OF this r t, of isLive "[]"] ne assms(3) show False
    by (simp add: pushHolds_def Let_def)
qed

text \<open>
  The earliest push of a caller is never held. If the ids of the queued gates are distinct, no running gate of the
  caller belongs to another push, and every live queued gate of another push of the caller comes strictly later in push
  order, then the ticket is not held: a caller's pushes cannot hold each other in a cycle.
\<close>

theorem push_gate_progress:
  assumes "Some t \<in> set q" and "pushGate t = Some g" and "distinct (map fst (queued_gates q))"
    and "\<forall>r \<in> set (running_gates isLive ls). caller (snd r) = caller g \<longrightarrow> gitPid (snd r) = gitPid g"
    and "\<forall>u \<in> set (queued_gates q). caller (snd u) = caller g \<and> isLive (fst u) \<and> gitPid (snd u) \<noteq> gitPid g \<longrightarrow>
      pushOrder g (snd u) < 0"
  shows "map_of (pushHolds isLive q ls) (eid t) = None"
proof -
  have t: "(eid t, g) \<in> set (queued_gates q)"
    using assms(1,2) by (auto simp: queued_gates_mem)
  have "\<forall>u \<in> set (queued_gates q). caller (snd u) = caller g \<and> isLive (fst u) \<and> gitPid (snd u) \<noteq> gitPid g \<longrightarrow>
      push_key (eid t, g) < push_key u"
    using assms(5) pushOrder_key[of "(eid t, g)"] by simp
  then show ?thesis
    using foldl_caller_holds_free[OF t assms(3), of "[]" "running_gates isLive ls" isLive] assms(4)
    by (simp add: pushHolds_def Let_def)
qed

text \<open>
  A repeated push has a definite winner: two distinct pushes with different git process ids are never of equal rank in
  \<^verbatim>\<open>pushOrder\<close>, and the order is antisymmetric, so exactly one of two repeats of a push is the older one.
\<close>

theorem push_order_decides:
  assumes "isRepeatOfPush a b"
  shows "(pushOrder a b < 0) \<noteq> (pushOrder b a < 0)"
  using assms by (auto simp: isRepeatOfPush_def pushOrder_def)

definition gate_a :: push_gate where
  "gate_a = \<lparr>gitPid = 10, gitStartEpoch = 100, caller = ''me'', worktree = ''/w'', branch = ''main'', pushArgsHash = ''h''\<rparr>"

definition gate_b :: push_gate where
  "gate_b = gate_a\<lparr>gitPid := 11, gitStartEpoch := 200\<rparr>"

definition gated_ticket :: "string \<Rightarrow> push_gate \<Rightarrow> ticket" where
  "gated_ticket i g = \<lparr>eid = i, key = ''repo:prepush'', resources = None, configLane = None, cmdFingerprint = None,
     klass = None, exclusive = False, nice = None, priorityRequested = None, priorityAdmitted = None,
     priorityDemoted = False, maxConcurrent = None, pushGate = Some g, repoId = None,
     supervisorPid = None, supervisorStart = None, bypassRefused = None,
     weight = 1, weightClampedFrom = None, conflicts = [], seq = None, createdAt = None, localSince = None,
     prioOriginAt = None, aging = None, startDeadline = None, lane = None, command = None, remote = False,
     localReason = None, enforcementRequired = False, niceOverride = None, schedVersion = None,
     priorityRetieredAt = None, tBootId = None, declaredCpuCores = None\<rparr>"

definition gate_sibling :: push_gate where
  "gate_sibling = gate_a\<lparr>branch := ''other''\<rparr>"

theorem push_gate_no_overlap_witness:
  "map_of (pushHolds (\<lambda>_. True) [Some (gated_ticket ''a'' gate_a), Some (gated_ticket ''b'' gate_b)]
     [example_lease\<lparr>pushGate := Some gate_sibling\<rparr>]) ''a'' = None \<and> gitPid gate_sibling = gitPid gate_a"
proof -
  let ?q = "[Some (gated_ticket ''a'' gate_a), Some (gated_ticket ''b'' gate_b)]"
  let ?l = "example_lease\<lparr>pushGate := Some gate_sibling\<rparr>"
  have h: "map_of (pushHolds (\<lambda>_. True) ?q [?l]) ''a'' = None" by code_simp
  have r: "state ?l = RUNNING" "caller gate_sibling = caller gate_a" by (simp_all add: example_lease_def gate_sibling_def)
  show ?thesis
    using h r push_gate_no_overlap[of "gated_ticket ''a'' gate_a" ?q gate_a "\<lambda>_. True" "[?l]"] by (simp add: gated_ticket_def)
qed

theorem push_gate_progress_witness:
  "map_of (pushHolds (\<lambda>_. True) [Some (gated_ticket ''a'' gate_a), Some (gated_ticket ''b'' gate_b)] []) ''a'' = None \<and>
   map_of (pushHolds (\<lambda>_. True) [Some (gated_ticket ''a'' gate_a), Some (gated_ticket ''b'' gate_b)] []) ''b'' = Some ''a''"
proof -
  let ?q = "[Some (gated_ticket ''a'' gate_a), Some (gated_ticket ''b'' gate_b)]"
  have b: "map_of (pushHolds (\<lambda>_. True) ?q []) ''b'' = Some ''a''" by code_simp
  have qs: "queued_gates ?q = [(''a'', gate_a), (''b'', gate_b)]"
    by (simp add: queued_gates_def gated_of_def gated_ticket_def List.map_filter_def)
  have o: "pushOrder gate_a gate_b < 0" "running_gates (\<lambda>_. True) [] = []" "pushGate (gated_ticket ''a'' gate_a) = Some gate_a"
    by (simp_all add: gate_a_def gate_b_def pushOrder_def running_gates_def gated_ticket_def List.map_filter_def)
  have "map_of (pushHolds (\<lambda>_. True) ?q []) (eid (gated_ticket ''a'' gate_a)) = None"
    by (rule push_gate_progress[where g = gate_a]) (simp_all add: qs o)
  then show ?thesis using b by (simp add: gated_ticket_def)
qed

theorem push_order_decides_witness: "(pushOrder gate_a gate_b < 0) \<noteq> (pushOrder gate_b gate_a < 0)"
  by (rule push_order_decides) (simp add: isRepeatOfPush_def gate_a_def gate_b_def)

end
