(* ===== verification/Priority.thy ===== *)
theory Priority
  imports Lane_Data
begin

text \<open>
  Priority scoring and queue ordering (src/priority.js) and the priority clock (src/priority-clock.js).
  Everything here is a pure function of the ticket, the effective time and the configuration. The theorems
  show that a score stays below the tier ceiling, that a fresh high outranks every non-high inside the
  starvation horizon, that past the horizon everything that ages ties a high, and that ordering a queue is
  a stable sort of each readable run in which no record crosses an unreadable one.
\<close>

section \<open>Tiers\<close>

fun tier_base :: "tier \<Rightarrow> jsnum" where
  "tier_base Low = 0"
| "tier_base Medium = 1"
| "tier_base High = 2"

definition DEFAULT_PRIORITY :: tier where
  "DEFAULT_PRIORITY = Medium"

definition tierRank :: "tier option \<Rightarrow> jsnum" where
  "tierRank t = (case t of Some x \<Rightarrow> tier_base x | None \<Rightarrow> tier_base DEFAULT_PRIORITY)"

definition resolveLaneNice :: "ticket \<Rightarrow> tier \<Rightarrow> cfg \<Rightarrow> jsnum" where
  "resolveLaneNice t tr c =
     (case niceOverride t of
        Some n \<Rightarrow> if is_integer n then n else
          (case priorityNice c tr of Some m \<Rightarrow> if is_integer m then m else laneNice c | None \<Rightarrow> laneNice c)
      | None \<Rightarrow> (case priorityNice c tr of Some m \<Rightarrow> if is_integer m then m else laneNice c | None \<Rightarrow> laneNice c))"

definition effectiveNice :: "jsnum \<Rightarrow> jsnum \<Rightarrow> jsnum" where
  "effectiveNice target currentNice = min 19 (max target currentNice)"

definition priorityOf :: "'a entry_scheme \<Rightarrow> tier" where
  "priorityOf e = nullish (priorityAdmitted e) DEFAULT_PRIORITY"

section \<open>Origins and waits\<close>

definition originOrNow :: "jsnum option \<Rightarrow> jsnum \<Rightarrow> jsnum" where
  "originOrNow origin nowEff =
     (case origin of Some o' \<Rightarrow> if 0 \<le> o' \<and> o' \<le> nowEff then o' else nowEff | None \<Rightarrow> nowEff)"

definition MAX_ACCRUED_MS :: jsnum where
  "MAX_ACCRUED_MS = 86400000"

definition sanitizeAccruedMs :: "jsnum option \<Rightarrow> jsnum" where
  "sanitizeAccruedMs v =
     (case v of Some x \<Rightarrow> if is_integer x \<and> 0 \<le> x \<and> x \<le> MAX_ACCRUED_MS then x else 0 | None \<Rightarrow> 0)"

text \<open>A remote header carries a requested tier and the wait accrued on the submitter; either may be missing or invalid.\<close>

definition remotePriorityFrom :: "tier option \<times> jsnum option \<Rightarrow> tier \<times> jsnum" where
  "remotePriorityFrom hdr = (nullish (fst hdr) DEFAULT_PRIORITY, sanitizeAccruedMs (snd hdr))"

definition waitedMs :: "ticket \<Rightarrow> jsnum \<Rightarrow> jsnum" where
  "waitedMs t nowEff = max 0 (nowEff - originOrNow (prioOriginAt t) nowEff)"

definition creditedWaitMs :: "ticket \<Rightarrow> jsnum \<Rightarrow> jsnum" where
  "creditedWaitMs t nowEff = (if aging t = Some False \<or> exclusive t then 0 else waitedMs t nowEff)"

section \<open>Scores\<close>

definition AGED_CEILING_EPSILON :: jsnum where
  "AGED_CEILING_EPSILON = 1 / 100"

definition starvationHorizonMs :: "cfg \<Rightarrow> jsnum" where
  "starvationHorizonMs c = 3 * priorityAgeMaxMs c"

definition score :: "ticket \<Rightarrow> jsnum \<Rightarrow> cfg \<Rightarrow> jsnum" where
  "score t nowEff c =
     (let tr = w_tier (priorityWeights c);
          tierFactor = tier_base (priorityOf t) / 2;
          creditedMs = creditedWaitMs t nowEff;
          ageFactor = min 1 (creditedMs / priorityAgeMaxMs c);
          reachesTop = (priorityOf t = High \<or> creditedMs \<ge> starvationHorizonMs c);
          ceil = (if reachesTop then tr else tr * (1 - AGED_CEILING_EPSILON))
      in min ceil (tr * tierFactor + w_age (priorityWeights c) * ageFactor))"

definition effectiveRank :: "ticket \<Rightarrow> jsnum \<Rightarrow> cfg \<Rightarrow> jsnum" where
  "effectiveRank t nowEff c =
     (let s = score t nowEff c; tr = w_tier (priorityWeights c)
      in if s \<ge> tr then 2 else if s \<ge> tr / 2 then 1 else 0)"

text \<open>\<^verbatim>\<open>PRIORITY_TIERS[rank]\<close>; an index outside the array is undefined.\<close>

definition tierName :: "nat \<Rightarrow> tier option" where
  "tierName r = (if r < 3 then Some ([Low, Medium, High] ! r) else None)"

section \<open>Ordering the queue\<close>

definition simRank :: "ticket \<Rightarrow> jsnum \<Rightarrow> cfg \<Rightarrow> bool \<Rightarrow> nat" where
  "simRank t nowEff c simsAfterTests =
     (if simsAfterTests \<and> klass t = Some SimClass \<and> waitedMs t nowEff < priorityAgeMaxMs c then 1 else 0)"

text \<open>
  The comparator of \<^verbatim>\<open>orderQueue\<close> as a key: score descending, then \<^verbatim>\<open>simRank\<close>, then \<^verbatim>\<open>seq ?? 0\<close>. Its last component
  is the position in the run, which the stable \<open>sort_key\<close> keeps by itself.
\<close>

definition order_key :: "jsnum \<Rightarrow> cfg \<Rightarrow> bool \<Rightarrow> ticket \<Rightarrow> jsnum \<times> nat \<times> jsnum" where
  "order_key nowEff c simsAfterTests t =
     (- score t nowEff c, simRank t nowEff c simsAfterTests, nullish (seq t) 0)"

fun order_runs :: "('a \<Rightarrow> 'k::linorder) \<Rightarrow> 'a list \<Rightarrow> 'a rqueue \<Rightarrow> 'a rqueue" where
  "order_runs f run [] = map Some (sort_key f run)"
| "order_runs f run (None # raw) = map Some (sort_key f run) @ None # order_runs f [] raw"
| "order_runs f run (Some t # raw) = order_runs f (run @ [t]) raw"

definition orderQueue :: "ticket rqueue \<Rightarrow> jsnum \<Rightarrow> cfg \<Rightarrow> bool \<Rightarrow> ticket rqueue" where
  "orderQueue raw nowEff c simsAfterTests = order_runs (order_key nowEff c simsAfterTests) [] raw"

section \<open>Reservation owner\<close>

text \<open>A reservation latch: the owner's id and its \<^verbatim>\<open>reservationSeq\<close>.\<close>

type_synonym reservation = "string \<times> jsnum"

fun find_index :: "('a \<Rightarrow> bool) \<Rightarrow> 'a list \<Rightarrow> nat option" where
  "find_index p [] = None"
| "find_index p (x # xs) = (if p x then Some 0 else map_option Suc (find_index p xs))"

definition reach_of :: "'a rqueue \<Rightarrow> nat" where
  "reach_of ordered = (case find_index (\<lambda>t. t = None) ordered of None \<Rightarrow> length ordered | Some b \<Rightarrow> b)"

definition owner_dormant :: "ticket rqueue \<Rightarrow> nat \<Rightarrow> bool" where
  "owner_dormant ordered i \<longleftrightarrow>
     (case ordered ! i of
        Some t \<Rightarrow> klass t = Some SimClass \<and>
          list_ex (\<lambda>u. case u of Some v \<Rightarrow> klass v \<noteq> Some SimClass | None \<Rightarrow> False) (take i ordered)
      | None \<Rightarrow> False)"

fun promote_first :: "ticket rqueue \<Rightarrow> reservation list \<Rightarrow> ticket rqueue \<times> string option" where
  "promote_first ordered [] = (ordered, None)"
| "promote_first ordered ((rid, rseq) # rs) =
     (case find_index (\<lambda>t. case t of Some u \<Rightarrow> eid u = rid | None \<Rightarrow> False) ordered of
        None \<Rightarrow> promote_first ordered rs
      | Some i \<Rightarrow>
          if i \<ge> reach_of ordered \<or> owner_dormant ordered i then promote_first ordered rs
          else (if i = 0 then ordered else ordered ! i # take i ordered @ drop (Suc i) ordered, Some rid))"

definition promoteReservationOwner :: "ticket rqueue \<Rightarrow> reservation list \<Rightarrow> ticket rqueue \<times> string option" where
  "promoteReservationOwner ordered reservations =
     promote_first ordered (sort_key (\<lambda>(rid, rseq). (rseq, rid)) reservations)"

section \<open>The priority clock\<close>

text \<open>
  \<^verbatim>\<open>hwm\<close> is the persisted high-water mark (\<open>None\<close>: missing or malformed file). \<^verbatim>\<open>advanceHwm\<close> returns the
  effective time and the mark on disk afterwards; \<open>wok\<close> says whether the write succeeds.
\<close>

definition readHwm :: "jsnum option \<Rightarrow> jsnum" where
  "readHwm hwm = nullish hwm 0"

definition effectiveNow :: "jsnum option \<Rightarrow> jsnum \<Rightarrow> jsnum" where
  "effectiveNow hwm wallNow = max wallNow (readHwm hwm)"

definition advanceHwm :: "bool \<Rightarrow> jsnum option \<Rightarrow> jsnum \<Rightarrow> jsnum \<times> jsnum option" where
  "advanceHwm wok hwm wallNow =
     (if wallNow \<le> readHwm hwm then (readHwm hwm, hwm)
      else (wallNow, if wok then Some wallNow else hwm))"

section \<open>What the configuration guarantees\<close>

text \<open>The part of \<^verbatim>\<open>validatePriorityConfig\<close> (src/config.js) that the scores rest on.\<close>

definition valid_priority_cfg :: "cfg \<Rightarrow> bool" where
  "valid_priority_cfg c \<longleftrightarrow>
     is_integer (priorityAgeMaxMs c) \<and> 60000 \<le> priorityAgeMaxMs c \<and> priorityAgeMaxMs c \<le> 86400000 \<and>
     1 / 100 \<le> w_tier (priorityWeights c) \<and> w_tier (priorityWeights c) \<le> 100 \<and>
     1 / 100 \<le> w_age (priorityWeights c) \<and> w_age (priorityWeights c) \<le> 100 \<and>
     w_tier (priorityWeights c) \<le> w_age (priorityWeights c) \<and>
     is_integer (maxQueuedHighPerRepo c) \<and> 0 \<le> maxQueuedHighPerRepo c"

lemma valid_priority_cfgD:
  assumes "valid_priority_cfg c"
  shows "0 < w_tier (priorityWeights c)" "0 < w_age (priorityWeights c)" "0 < priorityAgeMaxMs c"
    "w_tier (priorityWeights c) \<le> w_age (priorityWeights c)"
  using assms by (auto simp: valid_priority_cfg_def)

lemma valid_priority_default: "valid_priority_cfg default_cfg"
  by (simp add: valid_priority_cfg_def default_cfg_def is_integer_def)

section \<open>Facts about waits and scores\<close>

lemma originOrNow_le: "originOrNow o' n \<le> n"
  by (auto simp: originOrNow_def split: option.splits)

lemma waitedMs_nonneg [simp]: "0 \<le> waitedMs t n"
  by (simp add: waitedMs_def)

lemma creditedWaitMs_nonneg [simp]: "0 \<le> creditedWaitMs t n"
  by (simp add: creditedWaitMs_def)

lemma creditedWaitMs_le_waited: "creditedWaitMs t n \<le> waitedMs t n"
  by (simp add: creditedWaitMs_def)

lemma tier_base_bounds: "0 \<le> tier_base t" "tier_base t \<le> 2"
  by (cases t; simp)+

lemma tier_base_not_high: "t \<noteq> High \<Longrightarrow> tier_base t \<le> 1"
  by (cases t) auto

lemma score_le_ceiling:
  assumes "valid_priority_cfg c"
  shows "score t n c \<le> w_tier (priorityWeights c)"
  using valid_priority_cfgD[OF assms] by (auto simp: score_def Let_def AGED_CEILING_EPSILON_def min_def)

lemma score_high:
  assumes "valid_priority_cfg c" "priorityOf t = High"
  shows "score t n c = w_tier (priorityWeights c)"
proof -
  note v = valid_priority_cfgD[OF assms(1)]
  have "0 \<le> creditedWaitMs t n / priorityAgeMaxMs c"
    using v by simp
  then have "0 \<le> w_age (priorityWeights c) * min 1 (creditedWaitMs t n / priorityAgeMaxMs c)"
    using v by simp
  then show ?thesis
    using assms(2) by (simp add: score_def Let_def)
qed

lemma score_aged_below:
  assumes "valid_priority_cfg c" "priorityOf t \<noteq> High" "creditedWaitMs t n < starvationHorizonMs c"
  shows "score t n c \<le> w_tier (priorityWeights c) * (1 - AGED_CEILING_EPSILON)"
  using assms by (simp add: score_def Let_def)

lemma score_past_horizon:
  assumes "valid_priority_cfg c" "starvationHorizonMs c \<le> creditedWaitMs t n"
  shows "score t n c = w_tier (priorityWeights c)"
proof -
  note v = valid_priority_cfgD[OF assms(1)]
  have "1 \<le> creditedWaitMs t n / priorityAgeMaxMs c"
    using assms(2) v by (simp add: starvationHorizonMs_def pos_le_divide_eq)
  then have "min 1 (creditedWaitMs t n / priorityAgeMaxMs c) = 1"
    by simp
  moreover have "0 \<le> w_tier (priorityWeights c) * (tier_base (priorityOf t) / 2)"
    using v tier_base_bounds(1) by simp
  ultimately show ?thesis
    using assms(2) v by (simp add: score_def Let_def)
qed

lemma waitedMs_mono:
  assumes "n \<le> m" "prioOriginAt t = Some o'" "0 \<le> o'" "o' \<le> n"
  shows "waitedMs t n \<le> waitedMs t m"
  using assms by (simp add: waitedMs_def originOrNow_def)

section \<open>Facts about ordering\<close>

lemma order_runs_mset: "mset (order_runs f run raw) = mset (map Some run) + mset raw"
  by (induction f run raw rule: order_runs.induct) auto

lemma order_runs_append_barrier:
  "order_runs f run (map Some ts @ None # raw) = map Some (sort_key f (run @ ts)) @ None # order_runs f [] raw"
  by (induction ts arbitrary: run) auto

lemma order_runs_readable: "order_runs f run (map Some ts) = map Some (sort_key f (run @ ts))"
  by (induction ts arbitrary: run) auto

lemma map_is_none_Some: "map (Option.is_none \<circ> Some) xs = replicate (length xs) False"
  by (induction xs) auto

lemma order_runs_barriers:
  "map Option.is_none (order_runs f run raw) = replicate (length run) False @ map Option.is_none raw"
proof (induction f run raw rule: order_runs.induct)
  case (3 f run t raw)
  then show ?case by (simp add: replicate_app_Cons_same)
qed (simp_all add: map_is_none_Some)

lemma find_index_Some:
  "find_index p xs = Some i \<Longrightarrow> i < length xs \<and> p (xs ! i) \<and> (\<forall>j < i. \<not> p (xs ! j))"
  by (induction xs arbitrary: i) (auto split: if_splits simp: nth_Cons less_Suc_eq_0_disj split: nat.splits)

lemma find_index_None: "find_index p xs = None \<longleftrightarrow> (\<forall>x \<in> set xs. \<not> p x)"
  by (induction xs) auto

lemma reach_of_le: "reach_of q \<le> length q"
  by (auto simp: reach_of_def split: option.splits dest: find_index_Some)

lemma reach_of_readable: "i < reach_of q \<Longrightarrow> q ! i \<noteq> None"
  by (force simp: reach_of_def find_index_None split: option.splits dest: find_index_Some)

lemma move_to_front_mset:
  assumes "i < length xs"
  shows "mset (xs ! i # take i xs @ drop (Suc i) xs) = mset xs"
  by (metis add_mset_add_single assms id_take_nth_drop mset.simps(2) mset_append union_mset_add_mset_right)

lemma promote_first_mset: "mset (fst (promote_first q rs)) = mset q"
proof (induction q rs rule: promote_first.induct)
  case (2 q rid rseq rs)
  then show ?case
    using move_to_front_mset[of _ q]
    by (auto split: option.splits dest!: find_index_Some simp del: mset.simps)
qed simp

lemma promote_first_none: "snd (promote_first q rs) = None \<Longrightarrow> fst (promote_first q rs) = q"
  by (induction q rs rule: promote_first.induct) (auto split: option.splits if_splits)

lemma promote_first_owner:
  assumes "snd (promote_first q rs) = Some rid"
  shows "\<exists>i t. i < reach_of q \<and> q ! i = Some t \<and> eid t = rid \<and> \<not> owner_dormant q i \<and>
    fst (promote_first q rs) = Some t # take i q @ drop (Suc i) q \<and> rid \<in> fst ` set rs"
  using assms
proof (induction q rs rule: promote_first.induct)
  case (2 q r rseq rs)
  show ?case
  proof (cases "find_index (\<lambda>t. case t of Some u \<Rightarrow> eid u = r | None \<Rightarrow> False) q")
    case None
    with 2 show ?thesis by force
  next
    case (Some i)
    show ?thesis
    proof (cases "i \<ge> reach_of q \<or> owner_dormant q i")
      case True
      with 2 Some show ?thesis by force
    next
      case False
      obtain t where t: "q ! i = Some t" "eid t = r" "i < length q"
        using find_index_Some[OF Some] by (auto split: option.splits)
      have "q = Some t # drop (Suc 0) q" if "i = 0"
        using t that by (metis Cons_nth_drop_Suc drop0)
      with 2 Some False t show ?thesis
        by (intro exI[of _ i] exI[of _ t]) (auto split: if_splits)
    qed
  qed
qed simp

lemma order_runs_length: "length (order_runs f run raw) = length run + length raw"
  using arg_cong[OF order_runs_barriers[of f run raw], of length] by simp

lemma order_runs_sorted:
  assumes "i \<le> j" "j < length (order_runs f run raw)" "\<And>k. i \<le> k \<Longrightarrow> k \<le> j \<Longrightarrow> order_runs f run raw ! k \<noteq> None"
  shows "f (the (order_runs f run raw ! i)) \<le> f (the (order_runs f run raw ! j))"
  using assms
proof (induction f run raw arbitrary: i j rule: order_runs.induct)
  case (1 f run)
  then show ?case using sorted_nth_mono[of "map f (sort_key f run)" i j] by simp
next
  case (2 f run raw)
  show ?case
  proof (cases "j < length run")
    case True
    with 2(2) show ?thesis using sorted_nth_mono[of "map f (sort_key f run)" i j] by (simp add: nth_append)
  next
    case False
    have "\<not> i \<le> length run" using 2(4)[of "length run"] False by (auto simp: nth_append)
    then obtain i' j' where ij: "i = length run + 1 + i'" "j = length run + 1 + j'"
      using 2(2) by (metis le_add_diff_inverse not_le_imp_less order_trans Suc_eq_plus1 Suc_leI)
    have "f (the (order_runs f [] raw ! i')) \<le> f (the (order_runs f [] raw ! j'))"
    proof (rule 2(1))
      show "i' \<le> j'" "j' < length (order_runs f [] raw)" using 2(2,3) ij by auto
      show "order_runs f [] raw ! k \<noteq> None" if "i' \<le> k" "k \<le> j'" for k
        using 2(4)[of "length run + 1 + k"] that ij by (simp add: nth_append)
    qed
    then show ?thesis using ij by (simp add: nth_append)
  qed
qed simp

section \<open>Properties\<close>

text \<open>
  Tier ordering of scores. Under a validated priority configuration every score is at most the tier weight,
  an admitted high always has exactly the tier weight, a non-high whose credited wait is inside the starvation
  horizon is strictly below it, and any ticket whose credited wait reached the horizon ties it.
\<close>

theorem score_tier_order:
  assumes "valid_priority_cfg c"
  shows "score t n c \<le> w_tier (priorityWeights c) \<and>
    (priorityOf t = High \<longrightarrow> score t n c = w_tier (priorityWeights c)) \<and>
    (priorityOf t \<noteq> High \<and> creditedWaitMs t n < starvationHorizonMs c \<longrightarrow> score t n c < w_tier (priorityWeights c)) \<and>
    (starvationHorizonMs c \<le> creditedWaitMs t n \<longrightarrow> score t n c = w_tier (priorityWeights c))"
proof -
  have "w_tier (priorityWeights c) * (1 - AGED_CEILING_EPSILON) < w_tier (priorityWeights c)"
    using valid_priority_cfgD[OF assms] by (simp add: AGED_CEILING_EPSILON_def)
  then show ?thesis
    using score_le_ceiling[OF assms] score_high[OF assms] score_past_horizon[OF assms] score_aged_below[OF assms]
    by (meson le_less_trans)
qed

theorem score_tier_order_witness:
  "score (example_ticket\<lparr>priorityAdmitted := Some High\<rparr>) 1000 default_cfg = 2 \<and> score example_ticket 1000 default_cfg < 2"
proof -
  have v: "valid_priority_cfg default_cfg" by (rule valid_priority_default)
  have w: "w_tier (priorityWeights default_cfg) = 2" by (simp add: default_cfg_def)
  have h: "priorityOf (example_ticket\<lparr>priorityAdmitted := Some High\<rparr>) = High" and m: "priorityOf example_ticket \<noteq> High"
    by code_simp+
  have "creditedWaitMs example_ticket 1000 < starvationHorizonMs default_cfg"
    by code_simp
  with m w h score_tier_order[OF v, of "example_ticket\<lparr>priorityAdmitted := Some High\<rparr>" 1000] score_tier_order[OF v, of example_ticket 1000]
  show ?thesis by auto
qed

text \<open>
  Ordering sorts the runs between unreadable files and nothing else. \<^verbatim>\<open>orderQueue\<close> permutes the queue, leaves every unreadable
  file where it is, so no ticket is moved across one, and between two positions with no unreadable file from one to the other
  the tickets stand in the order of score, sim rank and sequence number.
\<close>

theorem orderQueue_sorts_between_barriers:
  shows "mset (orderQueue raw n c sims) = mset raw \<and> map Option.is_none (orderQueue raw n c sims) = map Option.is_none raw \<and>
    (\<forall>i j. i \<le> j \<and> j < length raw \<and> (\<forall>k. i \<le> k \<and> k \<le> j \<longrightarrow> raw ! k \<noteq> None) \<longrightarrow>
       order_key n c sims (the (orderQueue raw n c sims ! i)) \<le> order_key n c sims (the (orderQueue raw n c sims ! j)))"
proof (intro conjI allI impI)
  show "mset (orderQueue raw n c sims) = mset raw" by (simp add: orderQueue_def order_runs_mset)
  show b: "map Option.is_none (orderQueue raw n c sims) = map Option.is_none raw" by (simp add: orderQueue_def order_runs_barriers)
  fix i j assume a: "i \<le> j \<and> j < length raw \<and> (\<forall>k. i \<le> k \<and> k \<le> j \<longrightarrow> raw ! k \<noteq> None)"
  have len: "length (orderQueue raw n c sims) = length raw" by (simp add: orderQueue_def order_runs_length)
  have "orderQueue raw n c sims ! k \<noteq> None" if "i \<le> k" "k \<le> j" for k
    using a that nth_map[of k raw Option.is_none] nth_map[of k "orderQueue raw n c sims" Option.is_none] len b
    by (metis is_none_code(1) is_none_simps(1) le_less_trans option.exhaust_sel is_none_code(2))
  then show "order_key n c sims (the (orderQueue raw n c sims ! i)) \<le> order_key n c sims (the (orderQueue raw n c sims ! j))"
    using a len order_runs_sorted[of i j "order_key n c sims" "[]" raw] by (simp add: orderQueue_def)
qed

theorem orderQueue_sorts_between_barriers_witness:
  "order_key 1000 default_cfg False (the (orderQueue [Some example_ticket, Some (example_ticket\<lparr>priorityAdmitted := Some High\<rparr>), None] 1000 default_cfg False ! 0))
     \<le> order_key 1000 default_cfg False (the (orderQueue [Some example_ticket, Some (example_ticket\<lparr>priorityAdmitted := Some High\<rparr>), None] 1000 default_cfg False ! 1))"
proof -
  let ?q = "[Some example_ticket, Some (example_ticket\<lparr>priorityAdmitted := Some High\<rparr>), None]"
  have "?q ! k \<noteq> None" if "0 \<le> k" "k \<le> 1" for k using that by (cases k) auto
  then have "0 \<le> (1::nat) \<and> 1 < length ?q \<and> (\<forall>k. 0 \<le> k \<and> k \<le> 1 \<longrightarrow> ?q ! k \<noteq> None)" by simp
  then show ?thesis using orderQueue_sorts_between_barriers[of ?q 1000 default_cfg False] by blast
qed

text \<open>
  A reservation moves one ticket and cannot cross a barrier. \<^verbatim>\<open>promoteReservationOwner\<close> permutes the queue; it either leaves it alone or
  moves exactly the ticket that holds one of the reservations to the front, keeping the others in order. The owner stood before every
  unreadable file, and an owner that is a sim had no test before it.
\<close>

theorem promotion_moves_one_owner:
  assumes "promoteReservationOwner q rs = (q', owner)"
  shows "mset q' = mset q \<and> (owner = None \<longrightarrow> q' = q) \<and>
    (\<forall>rid. owner = Some rid \<longrightarrow> rid \<in> fst ` set rs \<and>
      (\<exists>i t. i < reach_of q \<and> q ! i = Some t \<and> eid t = rid \<and> q' = Some t # take i q @ drop (Suc i) q \<and>
         (klass t = Some SimClass \<longrightarrow> (\<forall>u. Some u \<in> set (take i q) \<longrightarrow> klass u = Some SimClass))))"
proof (intro conjI allI impI)
  let ?rs = "sort_key (\<lambda>(rid, rseq). (rseq, rid)) rs"
  have e: "promote_first q ?rs = (q', owner)" using assms by (simp add: promoteReservationOwner_def)
  show "mset q' = mset q" using promote_first_mset[of q ?rs] e by simp
  show "q' = q" if "owner = None" using promote_first_none[of q ?rs] e that by simp
  fix rid assume "owner = Some rid"
  then obtain i t where it: "i < reach_of q" "q ! i = Some t" "eid t = rid" "\<not> owner_dormant q i"
      "q' = Some t # take i q @ drop (Suc i) q" "rid \<in> fst ` set ?rs"
    using promote_first_owner[of q ?rs rid] e by auto
  show "rid \<in> fst ` set rs" using it(6) by simp
  have "klass u = Some SimClass" if "klass t = Some SimClass" "Some u \<in> set (take i q)" for u
    using it(2,4) that by (force simp: owner_dormant_def list_ex_iff)
  then show "\<exists>i t. i < reach_of q \<and> q ! i = Some t \<and> eid t = rid \<and> q' = Some t # take i q @ drop (Suc i) q \<and>
      (klass t = Some SimClass \<longrightarrow> (\<forall>u. Some u \<in> set (take i q) \<longrightarrow> klass u = Some SimClass))"
    using it by blast
qed

theorem promotion_moves_one_owner_witness:
  "fst (promoteReservationOwner [Some example_ticket, Some (example_ticket\<lparr>eid := ''t2''\<rparr>)] [(''t2'', 1)]) =
     [Some (example_ticket\<lparr>eid := ''t2''\<rparr>), Some example_ticket] \<and>
   mset (fst (promoteReservationOwner [Some example_ticket, Some (example_ticket\<lparr>eid := ''t2''\<rparr>)] [(''t2'', 1)])) =
     mset [Some example_ticket, Some (example_ticket\<lparr>eid := ''t2''\<rparr>)]"
proof -
  let ?q = "[Some example_ticket, Some (example_ticket\<lparr>eid := ''t2''\<rparr>)]"
  have e: "promoteReservationOwner ?q [(''t2'', 1)] = ([Some (example_ticket\<lparr>eid := ''t2''\<rparr>), Some example_ticket], Some ''t2'')"
    by code_simp
  show ?thesis using e promotion_moves_one_owner[OF e] by simp
qed

end
