(* ===== verification/Fairness.thy ===== *)
theory Fairness
  imports Priority "HOL-Library.AList"
begin

text \<open>
  The scheduler fence and the two stores of skip records (src/fairness.js): the legacy singletons, one record per kind
  of block, and the per-ticket records of \<^verbatim>\<open>fairness-v2.json\<close>. Both serve the same skip logic; the contract they share
  is the locale \<open>skip_store\<close>, and the per-ticket store also satisfies \<open>per_ticket_store\<close>, which is what makes a displaced
  head keep its counters. A write takes a flag that says whether the file system accepts it.
\<close>

section \<open>Records\<close>

text \<open>A JSON field: absent (or null), present with the wrong type, or a value of the type the code tests for.\<close>

datatype 'a jf = Absent | Wrong | Val 'a

fun jf_opt :: "'a jf \<Rightarrow> 'a option" where
  "jf_opt (Val v) = Some v"
| "jf_opt _ = None"

fun jf_of :: "'a option \<Rightarrow> 'a jf" where
  "jf_of (Some v) = Val v"
| "jf_of None = Absent"

fun jf_nullish :: "'a jf \<Rightarrow> 'a jf \<Rightarrow> 'a jf" where
  "jf_nullish Absent d = d"
| "jf_nullish x d = x"

text \<open>The validator's \<^verbatim>\<open>optional(test)\<close>: absent, or a value that passes.\<close>

fun jf_optional :: "('a \<Rightarrow> bool) \<Rightarrow> 'a jf \<Rightarrow> bool" where
  "jf_optional p Absent = True"
| "jf_optional p Wrong = False"
| "jf_optional p (Val v) = p v"

datatype skip_kind = Conflict | Capacity | Resource

text \<open>The fields a record carries besides its owner and count. The last five are read only through their own type tests.\<close>

record skip_body =
  loggedPhase :: "string jf"
  reserved :: "bool jf"
  reservationSeq :: "jsnum jf"
  inScope :: "bool jf"
  behindConflict :: "bool jf"
  deniedAt :: "jsnum jf"
  bBudget :: "jsnum jf"
  bExternalBusy :: "jsnum jf"
  memSnapshot :: "(jsnum \<times> jsnum) option"
  futile :: "string option"
  headCpu :: "jsnum option"
  futileAt :: "jsnum option"
  yields :: "jsnum option"

record skip_raw =
  rHeadId :: "string option"
  rCount :: "jsnum option"
  rBlockedSince :: "jsnum jf"
  rBody :: skip_body

record fair_rec =
  fReason :: "skip_kind option"
  skipsCharged :: "jsnum option"
  fBlockedSince :: "jsnum jf"
  graceStartedAt :: "jsnum jf"
  fBody :: skip_body

definition empty_body :: skip_body where
  "empty_body = \<lparr>loggedPhase = Absent, reserved = Absent, reservationSeq = Absent, inScope = Absent, behindConflict = Absent,
     deniedAt = Absent, bBudget = Absent, bExternalBusy = Absent, memSnapshot = None, futile = None, headCpu = None,
     futileAt = None, yields = None\<rparr>"

definition toRecord :: "skip_kind \<Rightarrow> skip_raw \<Rightarrow> fair_rec" where
  "toRecord kind raw = \<lparr>fReason = Some kind, skipsCharged = rCount raw, fBlockedSince = rBlockedSince raw,
     graceStartedAt = (if kind = Conflict then rBlockedSince raw else Absent), fBody = rBody raw\<rparr>"

definition toRaw :: "skip_kind \<Rightarrow> string \<Rightarrow> fair_rec \<Rightarrow> skip_raw" where
  "toRaw kind headId r = \<lparr>rHeadId = Some headId, rCount = skipsCharged r,
     rBlockedSince = (if kind = Conflict then jf_nullish (graceStartedAt r) (fBlockedSince r) else Absent),
     rBody = fBody r\<rparr>"

section \<open>Validation\<close>

definition field_types :: "skip_kind \<Rightarrow> fair_rec \<Rightarrow> bool" where
  "field_types kind r =
     (case kind of
        Conflict \<Rightarrow> jf_optional (\<lambda>_. True) (fBlockedSince r) \<and> jf_optional (\<lambda>_. True) (graceStartedAt r) \<and>
          jf_optional (\<lambda>_. True) (loggedPhase (fBody r))
      | Capacity \<Rightarrow> jf_optional (\<lambda>_. True) (loggedPhase (fBody r))
      | Resource \<Rightarrow> jf_opt (reserved (fBody r)) \<noteq> None \<and>
          jf_optional (\<lambda>v. is_integer v \<and> 0 \<le> v) (reservationSeq (fBody r)) \<and>
          jf_optional (\<lambda>_. True) (inScope (fBody r)) \<and> jf_optional (\<lambda>_. True) (behindConflict (fBody r)) \<and>
          jf_opt (deniedAt (fBody r)) \<noteq> None \<and> jf_opt (bBudget (fBody r)) \<noteq> None \<and>
          jf_opt (bExternalBusy (fBody r)) \<noteq> None)"

definition validRecord :: "skip_kind \<Rightarrow> fair_rec \<Rightarrow> bool" where
  "validRecord kind r \<longleftrightarrow>
     fReason r = Some kind \<and> (case skipsCharged r of Some n \<Rightarrow> is_integer n \<and> 0 \<le> n | None \<Rightarrow> False) \<and>
     field_types kind r \<and>
     \<not> (kind = Resource \<and> reserved (fBody r) = Val True \<and>
        (case reservationSeq (fBody r) of Val v \<Rightarrow> \<not> is_integer v | _ \<Rightarrow> True))"

type_synonym fair_tickets = "(string \<times> (skip_kind \<times> fair_rec) list) list"

text \<open>
  What \<^verbatim>\<open>fairness-v2.json\<close> can be. \<open>FairTickets\<close> is an object of the right version whose entries are objects keyed by the
  three reasons; every other text is one of the first five.
\<close>

datatype fair_file = FairMissing | FairUnreadable | FairNotJson | FairBadVersion | FairBadShape | FairTickets fair_tickets

datatype fence_file = FenceMissing | FenceUnreadable | FenceNotJson | FenceJson "jsnum option" "jsnum option"

datatype sched_reason =
  FenceAbsent | FenceIsUnreadable | FenceIsNotJson | FenceBadSchema | FenceBadVersion |
  FairnessMissing | FairnessUnreadable | FairnessNotJson | FairnessBadVersion | FairnessBadSchema

datatype fence_status = StatusMissing | StatusValid | StatusInvalid sched_reason

text \<open>\<^verbatim>\<open>FenceJson migratedAt version\<close>: an object with those fields where they are finite numbers; anything else has neither.\<close>

definition readSchedulerFence :: "fence_file \<Rightarrow> fence_status" where
  "readSchedulerFence f =
     (case f of
        FenceMissing \<Rightarrow> StatusMissing
      | FenceUnreadable \<Rightarrow> StatusInvalid FenceIsUnreadable
      | FenceNotJson \<Rightarrow> StatusInvalid FenceIsNotJson
      | FenceJson migratedAt version \<Rightarrow>
          if migratedAt = None then StatusInvalid FenceBadSchema
          else if version \<noteq> Some 2 then StatusInvalid FenceBadVersion else StatusValid)"

definition validFairness :: "fair_tickets \<Rightarrow> bool" where
  "validFairness ts \<longleftrightarrow> list_all (\<lambda>(_, per). list_all (\<lambda>(kind, r). validRecord kind r) per) ts"

definition loadFairness :: "fair_file \<Rightarrow> sched_reason + fair_tickets" where
  "loadFairness f =
     (case f of
        FairMissing \<Rightarrow> Inl FairnessMissing
      | FairUnreadable \<Rightarrow> Inl FairnessUnreadable
      | FairNotJson \<Rightarrow> Inl FairnessNotJson
      | FairBadVersion \<Rightarrow> Inl FairnessBadVersion
      | FairBadShape \<Rightarrow> Inl FairnessBadSchema
      | FairTickets ts \<Rightarrow> if validFairness ts then Inr ts else Inl FairnessBadSchema)"

text \<open>\<^verbatim>\<open>resolveSchedulerDetailed\<close>: \<open>Inr\<close> is the priority scheduler with its records, \<open>Inl\<close> why the legacy one runs.\<close>

definition resolveScheduler :: "fence_file \<Rightarrow> fair_file \<Rightarrow> sched_reason + fair_tickets" where
  "resolveScheduler fence fair =
     (case readSchedulerFence fence of
        StatusMissing \<Rightarrow> Inl FenceAbsent
      | StatusInvalid r \<Rightarrow> Inl r
      | StatusValid \<Rightarrow> loadFairness fair)"

section \<open>The two stores\<close>

type_synonym legacy_files = "skip_kind \<Rightarrow> skip_raw option"

definition legacy_read :: "legacy_files \<Rightarrow> skip_kind \<Rightarrow> string \<Rightarrow> skip_raw option" where
  "legacy_read files kind headId = files kind"

definition legacy_write :: "bool \<Rightarrow> legacy_files \<Rightarrow> skip_kind \<Rightarrow> string \<Rightarrow> skip_raw \<Rightarrow> legacy_files option" where
  "legacy_write wok files kind headId raw = (if wok then Some (files(kind := Some raw)) else None)"

definition fair_read :: "fair_tickets \<Rightarrow> skip_kind \<Rightarrow> string \<Rightarrow> skip_raw option" where
  "fair_read ts kind headId =
     (case map_of ts headId of None \<Rightarrow> None | Some per \<Rightarrow> map_option (toRaw kind headId) (map_of per kind))"

definition per_of :: "fair_tickets \<Rightarrow> string \<Rightarrow> (skip_kind \<times> fair_rec) list" where
  "per_of ts i = nullish (map_of ts i) []"

definition fair_write :: "bool \<Rightarrow> fair_tickets \<Rightarrow> skip_kind \<Rightarrow> string \<Rightarrow> skip_raw \<Rightarrow> fair_tickets option" where
  "fair_write wok ts kind headId raw =
     (if wok then Some (AList.update headId (AList.update kind (toRecord kind raw) (per_of ts headId)) ts) else None)"

datatype store = LegacyStore legacy_files | FairStore fair_tickets

fun store_v2 :: "store \<Rightarrow> bool" where
  "store_v2 (LegacyStore _) = False"
| "store_v2 (FairStore _) = True"

fun store_read :: "store \<Rightarrow> skip_kind \<Rightarrow> string \<Rightarrow> skip_raw option" where
  "store_read (LegacyStore f) kind headId = legacy_read f kind headId"
| "store_read (FairStore ts) kind headId = fair_read ts kind headId"

fun store_write :: "bool \<Rightarrow> store \<Rightarrow> skip_kind \<Rightarrow> string \<Rightarrow> skip_raw \<Rightarrow> store option" where
  "store_write wok (LegacyStore f) kind headId raw = map_option LegacyStore (legacy_write wok f kind headId raw)"
| "store_write wok (FairStore ts) kind headId raw = map_option FairStore (fair_write wok ts kind headId raw)"

text \<open>A best-effort write: on failure the store is unchanged.\<close>

definition store_try :: "bool \<Rightarrow> store \<Rightarrow> skip_kind \<Rightarrow> string \<Rightarrow> skip_raw \<Rightarrow> store" where
  "store_try wok st kind headId raw = nullish (store_write wok st kind headId raw) st"

fun dropResourceRecord :: "bool \<Rightarrow> store \<Rightarrow> string \<Rightarrow> store" where
  "dropResourceRecord wok (LegacyStore f) headId = LegacyStore (if wok then f(Resource := None) else f)"
| "dropResourceRecord wok (FairStore ts) headId = FairStore
     (case map_of (per_of ts headId) Resource of
        None \<Rightarrow> ts
      | Some r \<Rightarrow> if wok then AList.update headId (AList.update Resource
          (r\<lparr>fBody := (fBody r)\<lparr>behindConflict := Val False, inScope := Val False\<rparr>\<rparr>) (per_of ts headId)) ts else ts)"

fun depart :: "bool \<Rightarrow> store \<Rightarrow> string \<Rightarrow> store" where
  "depart wok (LegacyStore f) i = LegacyStore f"
| "depart wok (FairStore ts) i = FairStore (if wok then AList.delete i ts else ts)"

fun prune :: "bool \<Rightarrow> store \<Rightarrow> ticket rqueue \<Rightarrow> string list \<Rightarrow> store" where
  "prune wok (LegacyStore f) q provisional = LegacyStore f"
| "prune wok (FairStore ts) q provisional = FairStore
     (if None \<in> set q \<or> \<not> wok then ts
      else filter (\<lambda>(i, _). i \<in> set (map eid (readable q)) \<or> i \<in> set provisional) ts)"

definition latched :: "(skip_kind \<times> fair_rec) list \<Rightarrow> bool" where
  "latched per = (case map_of per Resource of Some r \<Rightarrow> reserved (fBody r) = Val True | None \<Rightarrow> False)"

fun releaseReservations :: "bool \<Rightarrow> store \<Rightarrow> store" where
  "releaseReservations wok (LegacyStore f) = LegacyStore f"
| "releaseReservations wok (FairStore ts) = FairStore
     (if wok then map (\<lambda>(i, per). (i, if latched per then AList.delete Resource per else per)) ts else ts)"

fun reservations :: "store \<Rightarrow> reservation list" where
  "reservations (LegacyStore f) = []"
| "reservations (FairStore ts) = List.map_filter (\<lambda>(i, per).
     case map_of per Resource of
       Some r \<Rightarrow> (case reservationSeq (fBody r) of
                    Val s \<Rightarrow> if reserved (fBody r) = Val True \<and> is_integer s then Some (i, s) else None
                  | _ \<Rightarrow> None)
     | None \<Rightarrow> None) ts"

section \<open>The view every selector walks\<close>

definition effectiveView ::
  "ticket rqueue \<Rightarrow> jsnum \<Rightarrow> cfg \<Rightarrow> store \<Rightarrow> (ticket \<Rightarrow> bool) \<Rightarrow> bool \<Rightarrow> ticket rqueue \<times> string option" where
  "effectiveView raw nowEff c st eligible sat =
     (let ordered = orderQueue raw nowEff c sat;
          reservable = (schedulerMode c = Active \<and> resourceSkipLimit c > 0);
          live = (if reservable
                  then filter (\<lambda>(i, _). list_ex (\<lambda>u. case u of Some t \<Rightarrow> eid t = i \<and> eligible t | None \<Rightarrow> False) raw) (reservations st)
                  else [])
      in promoteReservationOwner ordered live)"

section \<open>The contract of a store\<close>

text \<open>A record as the skip logic writes it: owned by the head it is written for, with a block time only for a conflict.\<close>

definition owned :: "skip_kind \<Rightarrow> string \<Rightarrow> skip_raw \<Rightarrow> bool" where
  "owned k h r \<longleftrightarrow> rHeadId r = Some h \<and> (k \<noteq> Conflict \<longrightarrow> rBlockedSince r = Absent)"

locale skip_store =
  fixes rd :: "'s \<Rightarrow> skip_kind \<Rightarrow> string \<Rightarrow> skip_raw option"
    and wr :: "bool \<Rightarrow> 's \<Rightarrow> skip_kind \<Rightarrow> string \<Rightarrow> skip_raw \<Rightarrow> 's option"
  assumes wr_fails: "wr False s k h r = None"
    and wr_succeeds: "\<exists>s'. wr True s k h r = Some s'"
    and rd_wr: "wr w s k h r = Some s' \<Longrightarrow> owned k h r \<Longrightarrow> rd s' k h = Some r"
    and rd_wr_kind: "wr w s k h r = Some s' \<Longrightarrow> k' \<noteq> k \<Longrightarrow> rd s' k' h' = rd s k' h'"
begin

lemma wr_SomeD: "wr w s k h r = Some s' \<Longrightarrow> w"
  using wr_fails by (cases w) auto

lemma wr_iff: "(wr w s k h r = None) = (\<not> w)"
  using wr_fails wr_succeeds by (metis (full_types) option.distinct(1))

end

text \<open>The per-ticket store also keeps other tickets' records, and every record it returns belongs to the ticket asked for.\<close>

locale per_ticket_store = skip_store +
  assumes rd_wr_head: "wr w s k h r = Some s' \<Longrightarrow> h' \<noteq> h \<Longrightarrow> rd s' k' h' = rd s k' h'"
    and rd_owner: "rd s k h = Some r \<Longrightarrow> rHeadId r = Some h"

lemma toRaw_toRecord: "owned k h r \<Longrightarrow> toRaw k h (toRecord k r) = r"
  by (cases "rBlockedSince r") (auto simp: toRaw_def toRecord_def owned_def)

lemma per_of_update [simp]: "per_of (AList.update h per ts) i = (if i = h then per else per_of ts i)"
  by (simp add: per_of_def update_conv)

lemma fair_read_per: "fair_read ts k h = map_option (toRaw k h) (map_of (per_of ts h) k)"
  by (simp add: fair_read_def per_of_def nullish_def split: option.splits)

interpretation legacy_store: skip_store legacy_read legacy_write
  by unfold_locales (auto simp: legacy_read_def legacy_write_def split: if_splits)

lemma rHeadId_toRaw [simp]: "rHeadId (toRaw k h r) = Some h"
  by (simp add: toRaw_def)

interpretation fair_store: per_ticket_store fair_read fair_write
  by unfold_locales
    (auto simp: fair_read_per fair_write_def update_conv toRaw_toRecord split: if_splits)

interpretation any_store: skip_store store_read store_write
proof unfold_locales
  fix s k h r s' w k' h'
  show "store_write False s k h r = None"
    using legacy_store.wr_fails fair_store.wr_fails by (cases s) auto
  show "\<exists>s'. store_write True s k h r = Some s'"
    using legacy_store.wr_succeeds fair_store.wr_succeeds by (cases s) auto
  assume w: "store_write w s k h r = Some s'"
  show "store_read s' k h = Some r" if "owned k h r"
    using w that legacy_store.rd_wr fair_store.rd_wr by (cases s) auto
  show "store_read s' k' h' = store_read s k' h'" if "k' \<noteq> k"
    using w that legacy_store.rd_wr_kind fair_store.rd_wr_kind by (cases s) auto
qed

lemma store_write_v2 [simp]: "store_write w s k h r = Some s' \<Longrightarrow> store_v2 s' = store_v2 s"
  by (cases s) auto

section \<open>Validity is kept\<close>

text \<open>Every record of the store is one the validator accepts (always true of the legacy singletons, which are not validated).\<close>

fun valid_store :: "store \<Rightarrow> bool" where
  "valid_store (LegacyStore _) = True"
| "valid_store (FairStore ts) = validFairness ts"

lemma validFairness_iff: "validFairness ts \<longleftrightarrow> (\<forall>(i, per) \<in> set ts. \<forall>(k, r) \<in> set per. validRecord k r)"
  by (fastforce simp: validFairness_def list_all_iff)

lemma set_AList_update: "set (AList.update k v xs) \<subseteq> insert (k, v) (set xs)"
  by (induction xs) auto

lemma per_of_valid:
  assumes "validFairness ts" "(k, r) \<in> set (per_of ts i)"
  shows "validRecord k r"
proof (cases "map_of ts i")
  case None
  then show ?thesis using assms by (simp add: per_of_def)
next
  case (Some per)
  then have "(i, per) \<in> set ts" "(k, r) \<in> set per" using assms map_of_SomeD by (force simp: per_of_def)+
  then show ?thesis using assms(1) by (fastforce simp: validFairness_iff)
qed

lemma validFairness_update:
  assumes "validFairness ts" "validRecord k r"
  shows "validFairness (AList.update h (AList.update k r (per_of ts h)) ts)"
  unfolding validFairness_iff
proof (intro ballI, clarify)
  fix i per k' r'
  assume i: "(i, per) \<in> set (AList.update h (AList.update k r (per_of ts h)) ts)" and r': "(k', r') \<in> set per"
  show "validRecord k' r'"
  proof (cases "per = AList.update k r (per_of ts h)")
    case True
    then show ?thesis using r' set_AList_update[of k r "per_of ts h"] assms per_of_valid by blast
  next
    case False
    then have "(i, per) \<in> set ts" using i set_AList_update by fastforce
    then show ?thesis using r' assms(1) by (fastforce simp: validFairness_iff)
  qed
qed

lemma store_write_valid:
  assumes "valid_store st" "store_write w st k h raw = Some st'" "validRecord k (toRecord k raw)"
  shows "valid_store st'"
  using assms by (cases st) (auto simp: fair_write_def validFairness_update split: if_splits)

lemma dropResourceRecord_valid: "valid_store st \<Longrightarrow> valid_store (dropResourceRecord w st h)"
proof (induction w st h rule: dropResourceRecord.induct)
  case (2 w ts h)
  have "validRecord Resource (r\<lparr>fBody := (fBody r)\<lparr>behindConflict := Val False, inScope := Val False\<rparr>\<rparr>)"
    if "map_of (per_of ts h) Resource = Some r" for r
    using per_of_valid[of ts Resource r h] 2 map_of_SomeD[OF that] by (simp add: validRecord_def field_types_def)
  then show ?case using 2 by (auto simp: validFairness_update split: option.splits)
qed simp

lemma depart_valid: "valid_store st \<Longrightarrow> valid_store (depart w st i)"
  by (induction w st i rule: depart.induct) (auto simp: validFairness_iff AList.delete_eq)

lemma prune_valid: "valid_store st \<Longrightarrow> valid_store (prune w st q ids)"
  by (induction w st q ids rule: prune.induct) (auto simp: validFairness_iff)

lemma releaseReservations_valid: "valid_store st \<Longrightarrow> valid_store (releaseReservations w st)"
proof (induction w st rule: releaseReservations.induct)
  case (2 w ts)
  have "set (AList.delete Resource per) \<subseteq> set per" for per :: "(skip_kind \<times> fair_rec) list"
    by (auto simp: AList.delete_eq)
  then show ?case using 2 by (fastforce simp: validFairness_iff split: if_splits)
qed simp

section \<open>Properties\<close>

text \<open>
  The record conversion loses nothing: a record the skip logic writes for a head is read back from the per-ticket store
  exactly as written, whatever else the file holds, and no other ticket's record and no other kind of record of the same
  ticket changes. This is what lets one skip logic serve both stores, and what makes a head that was displaced and comes
  back find its counters.
\<close>

theorem fairness_round_trip:
  assumes "fair_write wok ts k h raw = Some ts'" and "owned k h raw"
  shows "fair_read ts' k h = Some raw \<and> (\<forall>k' h'. (k', h') \<noteq> (k, h) \<longrightarrow> fair_read ts' k' h' = fair_read ts k' h')"
proof -
  have "fair_read ts' k' h' = fair_read ts k' h'" if "(k', h') \<noteq> (k, h)" for k' h'
    using fair_store.rd_wr_kind[OF assms(1)] fair_store.rd_wr_head[OF assms(1)] that by (cases "k' = k") auto
  then show ?thesis using fair_store.rd_wr[OF assms] by blast
qed

definition example_raw :: skip_raw where
  "example_raw = \<lparr>rHeadId = Some ''t1'', rCount = Some 2, rBlockedSince = Val 5, rBody = empty_body\<lparr>loggedPhase := Val ''blocked''\<rparr>\<rparr>"

theorem fairness_round_trip_witness:
  "\<exists>ts'. fair_write True [(''t2'', [(Capacity, toRecord Capacity example_raw)])] Conflict ''t1'' example_raw = Some ts' \<and>
     fair_read ts' Conflict ''t1'' = Some example_raw"
proof -
  obtain ts' where w: "fair_write True [(''t2'', [(Capacity, toRecord Capacity example_raw)])] Conflict ''t1'' example_raw = Some ts'"
    using fair_store.wr_succeeds by blast
  have "owned Conflict ''t1'' example_raw" by (simp add: owned_def example_raw_def)
  from fairness_round_trip[OF w this] w show ?thesis by blast
qed

end
