(* ===== verification/Resources.thy ===== *)
theory Resources
  imports Lane_Data
begin

text \<open>
  Resource claims and budgets (src/resources.js): resolving what a ticket claims, the elastic range an
  elastic lane may be admitted at, the host's CPU and memory budgets, the preflight refusal, and memory
  admission. A lemma group per function gives its bounds; the last section relates the preflight check,
  the elastic cap and the below-floor denial, which must agree for an accepted elastic ticket to start.
\<close>

section \<open>Claims\<close>

definition GIB :: jsnum where
  "GIB = 1073741824"

definition resolveTicketResources ::
  "jsnum option \<Rightarrow> jsnum option \<Rightarrow> jsnum option \<Rightarrow> jsnum option \<Rightarrow> jsnum \<Rightarrow> claim" where
  "resolveTicketResources wt cpu mn mem perWeight =
     (let c = nullish_opt cpu wt;
          m = nullish mem (max 1 (num_or wt 1) * perWeight);
          elastic = (case (mn, c) of (Some x, Some y) \<Rightarrow> 0 < x \<and> x < y | _ \<Rightarrow> False)
      in \<lparr>cpuCores = c, minCpuCores = (if elastic then mn else None), memoryBytes = Some (js_round m)\<rparr>)"

text \<open>The two shapes callers use: a ticket's claim without its floor, and a lease's charge.\<close>

definition ticket_claim :: "ticket \<Rightarrow> cfg \<Rightarrow> claim" where
  "ticket_claim t c =
     resolveTicketResources (Some (weight t)) (res_cpu t) None (res_mem t) (defaultMemoryBytesPerWeight c)"

definition ticket_cpu :: "ticket \<Rightarrow> jsnum" where
  "ticket_cpu t = nullish (res_cpu t) (weight t)"

definition ticket_mem :: "ticket \<Rightarrow> cfg \<Rightarrow> jsnum" where
  "ticket_mem t c = nullish (memoryBytes (ticket_claim t c)) 0"

definition capUnapprovedCpu ::
  "jsnum \<Rightarrow> jsnum option \<Rightarrow> jsnum option \<Rightarrow> jsnum \<Rightarrow> jsnum \<times> jsnum option \<times> bool" where
  "capUnapprovedCpu cpu mn approvedCeiling maxUnapproved =
     (let limit = max (nullish approvedCeiling 0) maxUnapproved
      in if \<not> cpu > limit then (cpu, mn, False)
         else (limit, map_option (\<lambda>m. min m limit) mn, True))"

definition leaseCpuCores :: "lease \<Rightarrow> jsnum option" where
  "leaseCpuCores l = nullish_opt (grantedCpuCores l) (res_cpu l)"

text \<open>\<^verbatim>\<open>terminalRowDefaults\<close> of a lease: what a terminal history row records as granted (exit and signal start as null).\<close>

definition terminalRowDefaults :: "lease option \<Rightarrow> jsnum option \<times> jsnum option" where
  "terminalRowDefaults src =
     (case src of None \<Rightarrow> (None, None) | Some l \<Rightarrow> (leaseCpuCores l, res_mem l))"

definition leaseResources :: "lease \<Rightarrow> cfg \<Rightarrow> claim" where
  "leaseResources l c =
     resolveTicketResources (leaseWeight l) (leaseCpuCores l) None (res_mem l) (defaultMemoryBytesPerWeight c)"

definition lease_mem :: "lease \<Rightarrow> cfg \<Rightarrow> jsnum" where
  "lease_mem l c = nullish (memoryBytes (leaseResources l c)) 0"

section \<open>Elastic claims\<close>

definition elasticClaimRange :: "jsnum option \<Rightarrow> jsnum option \<Rightarrow> jsnum option \<Rightarrow> (int \<times> int) option" where
  "elasticClaimRange cpu mn headroom =
     (case (cpu, mn, headroom) of
        (Some c, Some m, Some h) \<Rightarrow>
          if \<not> m < c then None
          else (let hi = min (\<lceil>c\<rceil> - 1) \<lfloor>h\<rfloor>; lo = \<lceil>m\<rceil> in if hi \<ge> lo then Some (hi, lo) else None)
      | _ \<Rightarrow> None)"

section \<open>Budgets\<close>

definition effectiveWeightCapacity :: "cfg \<Rightarrow> jsnum \<Rightarrow> jsnum" where
  "effectiveWeightCapacity c cores' =
     (case capacity c of
        FixedCapacity n \<Rightarrow> n
      | AutoCapacity \<Rightarrow> max 1 (js_floor (max 0 (cores' - cpuReserveCores c))))"

definition cpuBudgetCores :: "host \<Rightarrow> cfg \<Rightarrow> jsnum" where
  "cpuBudgetCores h c =
     max 0 (min (hostCores h - cpuReserveCores c) ((cpuAdmissionPercent c / 100) * hostCores h))"

definition exclusiveBudget :: "host \<Rightarrow> cfg \<Rightarrow> jsnum \<times> jsnum" where
  "exclusiveBudget h c = (cpuBudgetCores h c, max 0 (hostMemoryBytes h - memoryReserveBytes c))"

definition capElasticClaim :: "ticket \<Rightarrow> cfg \<Rightarrow> host \<Rightarrow> ticket" where
  "capElasticClaim t c h =
     (case (schedulerMode c, resources t) of
        (Active, Some r) \<Rightarrow>
          (case minCpuCores r of
             None \<Rightarrow> t
           | Some m \<Rightarrow>
               (let cap = js_floor (cpuBudgetCores h c)
                in case cpuCores r of
                     None \<Rightarrow> t
                   | Some cpu \<Rightarrow>
                       if \<not> cpu > cap then t
                       else if cap < 1 \<or> cap < js_ceil m then t
                       else t\<lparr>resources := Some (r\<lparr>cpuCores := Some cap,
                              minCpuCores := (if m < cap then Some m else None)\<rparr>)\<rparr>))
      | _ \<Rightarrow> t)"

definition elasticBelowFloor :: "ticket \<Rightarrow> cfg \<Rightarrow> host \<Rightarrow> bool" where
  "elasticBelowFloor t c h =
     (case (schedulerMode c, res_min t) of
        (Active, Some m) \<Rightarrow>
          (let cap = js_floor (cpuBudgetCores h c) in cap < 1 \<or> cap < js_ceil m)
      | _ \<Rightarrow> False)"

text \<open>
  \<^verbatim>\<open>checkResourceBudget\<close>: the preflight refusal (exit 64), \<open>True\<close> for \<^verbatim>\<open>ok\<close>. The claim is an already resolved
  one, so its CPU and memory are present.
\<close>

definition checkResourceBudget :: "claim \<Rightarrow> cfg \<Rightarrow> host \<Rightarrow> bool" where
  "checkResourceBudget r c h =
     (let cpuBudget = cpuBudgetCores h c;
          memoryBudget = max 0 (hostMemoryBytes h - memoryReserveBytes c);
          smallest = (case minCpuCores r of Some m \<Rightarrow> js_ceil m | None \<Rightarrow> nullish (cpuCores r) 0);
          grantable = (if minCpuCores r \<noteq> None then js_floor cpuBudget else cpuBudget)
      in \<not> (schedulerMode c = Active \<and> (smallest > grantable \<or> nullish (memoryBytes r) 0 > memoryBudget)))"

section \<open>Refusals\<close>

definition LOCAL_REFUSED_EXIT_CODE :: int where
  "LOCAL_REFUSED_EXIT_CODE = 69"

definition NO_RUNNER_EXIT_CODE :: int where
  "NO_RUNNER_EXIT_CODE = 76"

text \<open>The exit codes of the local refusals: a policy refusal is final, a fleet that is busy is retryable.\<close>

definition dispatchOnlyRefusal :: "bool \<Rightarrow> int" where
  "dispatchOnlyRefusal retryable = (if retryable then NO_RUNNER_EXIT_CODE else LOCAL_REFUSED_EXIT_CODE)"

section \<open>Memory admission\<close>

datatype mem_reason = MemOk | MemUnavailable | MemReservations | MemHeadroom | MemNotSampled

record mem_verdict =
  memAdmit :: bool
  memReason :: mem_reason
  projectedAvailableBytes :: "jsnum option"
  memoryBudgetBytes :: "jsnum option"

definition fresh_at :: "jsnum option \<Rightarrow> jsnum \<Rightarrow> bool" where
  "fresh_at observed now = (case observed of Some a \<Rightarrow> now - a \<le> 30000 | None \<Rightarrow> False)"

definition observed_mem :: "lease \<Rightarrow> jsnum \<Rightarrow> jsnum" where
  "observed_mem l now = (if fresh_at (observedAt l) now then nullish (observedMemoryBytes l) 0 else 0)"

definition growthReserve :: "lease list \<Rightarrow> cfg \<Rightarrow> jsnum \<Rightarrow> jsnum" where
  "growthReserve held c now = (\<Sum>l \<leftarrow> held. max 0 (lease_mem l c - observed_mem l now))"

text \<open>
  \<^verbatim>\<open>evaluateMemoryAdmission\<close>. An absent total is an unbounded reservation budget (\<^verbatim>\<open>Infinity\<close>), written as
  \<open>None\<close> in \<open>memoryBudgetBytes\<close>.
\<close>

definition evaluateMemoryAdmission :: "mem_info option \<Rightarrow> lease list \<Rightarrow> jsnum \<Rightarrow> cfg \<Rightarrow> jsnum \<Rightarrow> mem_verdict" where
  "evaluateMemoryAdmission mi held candMem c now =
     (case Option.bind mi availableBytes of
        None \<Rightarrow> \<lparr>memAdmit = False, memReason = MemUnavailable, projectedAvailableBytes = None, memoryBudgetBytes = None\<rparr>
      | Some available \<Rightarrow>
          (let projected = available - growthReserve held c now - candMem;
               budget = map_option (\<lambda>total. max 0 (total - memoryReserveBytes c)) (Option.bind mi totalBytes);
               reserved = (\<Sum>l \<leftarrow> held. lease_mem l c)
           in if (case budget of Some b \<Rightarrow> reserved + candMem > b | None \<Rightarrow> False)
              then \<lparr>memAdmit = False, memReason = MemReservations, projectedAvailableBytes = Some projected, memoryBudgetBytes = budget\<rparr>
              else if projected < memoryReserveBytes c
              then \<lparr>memAdmit = False, memReason = MemHeadroom, projectedAvailableBytes = Some projected, memoryBudgetBytes = budget\<rparr>
              else \<lparr>memAdmit = True, memReason = MemOk, projectedAvailableBytes = Some projected, memoryBudgetBytes = budget\<rparr>))"

section \<open>What the configuration guarantees\<close>

text \<open>The bounds \<^verbatim>\<open>assertGlobalConfigShape\<close> (src/config.js) puts on the budget keys.\<close>

definition valid_budget_cfg :: "cfg \<Rightarrow> bool" where
  "valid_budget_cfg c \<longleftrightarrow>
     0 < cpuAdmissionPercent c \<and> cpuAdmissionPercent c \<le> 100 \<and> 0 \<le> cpuReserveCores c \<and>
     0 \<le> memoryReserveBytes c \<and> 0 < defaultMemoryBytesPerWeight c \<and>
     (case capacity c of FixedCapacity n \<Rightarrow> 0 < n | AutoCapacity \<Rightarrow> True) \<and>
     is_integer (maxLaneWeight c) \<and> 1 \<le> maxLaneWeight c"

lemma valid_budget_default: "valid_budget_cfg default_cfg"
  by (simp add: valid_budget_cfg_def default_cfg_def is_integer_def)

section \<open>Lemmas\<close>

lemma ticket_claim_simps [simp]:
  "cpuCores (ticket_claim t c) = Some (ticket_cpu t)"
  "memoryBytes (ticket_claim t c) = Some (ticket_mem t c)"
  "minCpuCores (ticket_claim t c) = None"
  by (auto simp: ticket_claim_def ticket_cpu_def ticket_mem_def resolveTicketResources_def Let_def
      nullish_opt_def nullish_def split: option.splits)

lemma elasticClaimRange_SomeD:
  assumes "elasticClaimRange (Some c) (Some m) (Some h) = Some (hi, lo)"
  shows "lo \<le> hi" "m \<le> of_int lo" "of_int hi < c" "of_int hi \<le> h" "lo = \<lceil>m\<rceil>"
proof -
  have *: "m < c" "hi = min (\<lceil>c\<rceil> - 1) \<lfloor>h\<rfloor>" "lo = \<lceil>m\<rceil>" "lo \<le> hi"
    using assms by (auto simp: elasticClaimRange_def Let_def split: if_splits)
  show "lo \<le> hi" "lo = \<lceil>m\<rceil>" using * by auto
  show "m \<le> of_int lo" using * by simp
  show "of_int hi \<le> h" using * by (metis le_floor_iff min.cobounded2)
  have "hi < \<lceil>c\<rceil>" using * by linarith
  then show "of_int hi < c" by (simp add: less_ceiling_iff)
qed

lemma cpuBudgetCores_nonneg [simp]: "0 \<le> cpuBudgetCores h c"
  by (simp add: cpuBudgetCores_def)

lemma cpuBudgetCores_le_host:
  assumes "valid_budget_cfg c" "0 \<le> hostCores h"
  shows "cpuBudgetCores h c \<le> hostCores h"
proof -
  have "hostCores h - cpuReserveCores c \<le> hostCores h"
    using assms by (simp add: valid_budget_cfg_def)
  then show ?thesis
    using assms(2) by (auto simp: cpuBudgetCores_def min_le_iff_disj)
qed

lemma effectiveWeightCapacity_pos:
  "valid_budget_cfg c \<Longrightarrow> 0 < effectiveWeightCapacity c n"
  by (auto simp: effectiveWeightCapacity_def valid_budget_cfg_def split: weight_capacity.splits)

lemma capElasticClaim_fields [simp]:
  "eid (capElasticClaim t c h) = eid t" "key (capElasticClaim t c h) = key t"
  "weight (capElasticClaim t c h) = weight t" "conflicts (capElasticClaim t c h) = conflicts t"
  "maxConcurrent (capElasticClaim t c h) = maxConcurrent t" "klass (capElasticClaim t c h) = klass t"
  "exclusive (capElasticClaim t c h) = exclusive t" "seq (capElasticClaim t c h) = seq t"
  "priorityAdmitted (capElasticClaim t c h) = priorityAdmitted t" "pushGate (capElasticClaim t c h) = pushGate t"
  "prioOriginAt (capElasticClaim t c h) = prioOriginAt t" "schedVersion (capElasticClaim t c h) = schedVersion t"
  "startDeadline (capElasticClaim t c h) = startDeadline t"
  "enforcementRequired (capElasticClaim t c h) = enforcementRequired t"
  by (auto simp: capElasticClaim_def Let_def split: scheduler_mode.splits option.splits)

lemma capElasticClaim_cases:
  obtains "capElasticClaim t c h = t"
  | r m cap cpu where "resources t = Some r" "minCpuCores r = Some m" "cpuCores r = Some cpu"
      "cap = js_floor (cpuBudgetCores h c)" "cap < cpu" "1 \<le> cap" "js_ceil m \<le> cap" "schedulerMode c = Active"
      "capElasticClaim t c h = t\<lparr>resources := Some (r\<lparr>cpuCores := Some cap,
         minCpuCores := (if m < cap then Some m else None)\<rparr>)\<rparr>"
proof (cases "capElasticClaim t c h = t")
  case False
  then obtain r m cpu where *: "resources t = Some r" "minCpuCores r = Some m" "cpuCores r = Some cpu"
      "schedulerMode c = Active"
    by (auto simp: capElasticClaim_def Let_def split: scheduler_mode.splits option.splits)
  with False have "js_floor (cpuBudgetCores h c) < cpu" "1 \<le> js_floor (cpuBudgetCores h c)"
      "js_ceil m \<le> js_floor (cpuBudgetCores h c)"
    by (auto simp: capElasticClaim_def Let_def split: if_splits)
  with * False that(2)[of r m cpu "js_floor (cpuBudgetCores h c)"] show thesis
    by (simp add: capElasticClaim_def Let_def)
qed (use that in blast)

lemma capElasticClaim_cpu_le: "ticket_cpu (capElasticClaim t c h) \<le> ticket_cpu t"
  by (rule capElasticClaim_cases[of t c h]) (auto simp: ticket_cpu_def res_cpu_def)

lemma evaluateMemoryAdmission_admitD:
  assumes "memAdmit (evaluateMemoryAdmission mi held cand c now)"
  shows "\<exists>i a. mi = Some i \<and> availableBytes i = Some a \<and>
    memoryReserveBytes c \<le> a - growthReserve held c now - cand \<and>
    (\<forall>tot. totalBytes i = Some tot \<longrightarrow>
      (\<Sum>l \<leftarrow> held. lease_mem l c) + cand \<le> max 0 (tot - memoryReserveBytes c))"
  using assms
  by (cases mi) (auto simp: evaluateMemoryAdmission_def Let_def split: option.splits if_splits)

lemma memReason_ok_iff: "memReason (evaluateMemoryAdmission mi held cand c now) = MemOk \<longleftrightarrow>
    memAdmit (evaluateMemoryAdmission mi held cand c now)"
  by (auto simp: evaluateMemoryAdmission_def Let_def split: option.splits)

section \<open>Properties\<close>

text \<open>
  An elastic grant is a whole number of cores inside the lane's own limits: whenever
  \<^verbatim>\<open>elasticClaimRange\<close> offers a range, every integer claim in it is at least the declared floor, strictly
  below the declared claim and within the headroom it was computed from.
\<close>

theorem elastic_range_sound:
  assumes "elasticClaimRange (Some c) (Some m) (Some h) = Some (hi, lo)" and "lo \<le> g" and "g \<le> hi"
  shows "m \<le> of_int g \<and> of_int g < c \<and> of_int g \<le> h"
proof -
  note r = elasticClaimRange_SomeD[OF assms(1)]
  have "(of_int lo :: rat) \<le> of_int g" "(of_int g :: rat) \<le> of_int hi"
    using assms(2,3) by simp_all
  with r show ?thesis by linarith
qed

theorem elastic_range_sound_witness:
  "elasticClaimRange (Some 8) (Some (5 / 2)) (Some (11 / 2)) = Some (5, 3) \<and> (5 / 2 :: rat) \<le> of_int 4"
proof -
  have h: "elasticClaimRange (Some 8) (Some (5 / 2)) (Some (11 / 2)) = Some (5, 3)"
    by code_simp
  show ?thesis using h elastic_range_sound[OF h, of 4] by simp
qed

text \<open>
  Preflight, cap and floor agree. In active mode, if \<^verbatim>\<open>checkResourceBudget\<close> accepts an elastic claim (a
  positive floor not above the claim), then on the same host the ticket is not below its floor, and the claim
  \<^verbatim>\<open>capElasticClaim\<close> leaves is at least the declared floor and at most the CPU budget: a ticket accepted at
  submission can always be granted something it asked for.
\<close>

theorem elastic_preflight_consistent:
  assumes ok: "checkResourceBudget r c h" and act: "schedulerMode c = Active"
    and el: "resources t = Some r" "minCpuCores r = Some m" "cpuCores r = Some cpu" "0 < m" "m \<le> cpu"
  shows "\<not> elasticBelowFloor t c h \<and> m \<le> ticket_cpu (capElasticClaim t c h) \<and>
    ticket_cpu (capElasticClaim t c h) \<le> cpuBudgetCores h c"
proof -
  let ?B = "js_floor (cpuBudgetCores h c)"
  have fl: "js_ceil m \<le> ?B"
    using ok act el by (simp add: checkResourceBudget_def Let_def)
  have one: "1 \<le> js_ceil m"
    using el(4) by (simp add: js_ceil_def)
  have nb: "\<not> elasticBelowFloor t c h"
    using fl one act el by (simp add: elasticBelowFloor_def res_min_def Let_def)
  have m: "m \<le> ?B"
    using fl le_js_ceil[of m] by linarith
  have cpu: "ticket_cpu (capElasticClaim t c h) = (if ?B < cpu then ?B else cpu)"
    using fl one act el by (simp add: capElasticClaim_def ticket_cpu_def res_cpu_def Let_def)
  have "(if ?B < cpu then ?B else cpu) \<le> cpuBudgetCores h c"
    by (auto simp: not_less intro: order_trans[OF _ js_floor_le])
  with nb m cpu el(5) show ?thesis by simp
qed

definition example_host :: host where
  "example_host = \<lparr>hostCores = 8, hostMemoryBytes = 17179869184\<rparr>"

definition elastic_example :: claim where
  "elastic_example = \<lparr>cpuCores = Some 12, minCpuCores = Some (5 / 2), memoryBytes = Some 1073741824\<rparr>"

theorem elastic_preflight_consistent_witness:
  "checkResourceBudget elastic_example default_cfg example_host \<and>
   \<not> elasticBelowFloor (example_ticket\<lparr>resources := Some elastic_example\<rparr>) default_cfg example_host \<and>
   ticket_cpu (capElasticClaim (example_ticket\<lparr>resources := Some elastic_example\<rparr>) default_cfg example_host) \<le> 6"
proof -
  have h: "checkResourceBudget elastic_example default_cfg example_host"
    by code_simp
  have b: "cpuBudgetCores example_host default_cfg = 6"
    by (simp add: cpuBudgetCores_def example_host_def default_cfg_def)
  show ?thesis
    using h b elastic_preflight_consistent[OF h, of "example_ticket\<lparr>resources := Some elastic_example\<rparr>" "5 / 2" 12]
    by (simp add: elastic_example_def default_cfg_def)
qed

lemma example_budget: "cpuBudgetCores example_host default_cfg = 6"
  by (simp add: cpuBudgetCores_def example_host_def default_cfg_def)

end
