(* ===== verification/Estimates.thy ===== *)
theory Estimates
  imports Resources
begin

text \<open>
  CPU estimates from history (src/cpu-estimates.js, with \<^verbatim>\<open>percentile\<close> of src/estimates-history.js): the p90 of the
  peak cores of compatible finished runs, keyed by workload. Admission charges a new claim by it. The string
  ids of the code (fields joined with NUL) are kept as tuples of the same fields.
\<close>

section \<open>Workload ids\<close>

datatype est_level = ExactLevel | ConfigLaneLevel

type_synonym est_id = "est_level \<times> string \<times> string \<times> jsnum"
type_synonym estimates = "est_id \<Rightarrow> jsnum option"

text \<open>\<^verbatim>\<open>sanitizeKey\<close> (src/config.js): every character outside letters, digits, underscore, dot and dash becomes an underscore.\<close>

definition key_char :: "char \<Rightarrow> bool" where
  "key_char ch \<longleftrightarrow>
     (CHR ''A'' \<le> ch \<and> ch \<le> CHR ''Z'') \<or> (CHR ''a'' \<le> ch \<and> ch \<le> CHR ''z'') \<or>
     (CHR ''0'' \<le> ch \<and> ch \<le> CHR ''9'') \<or> ch = CHR ''_'' \<or> ch = CHR ''.'' \<or> ch = CHR ''-''"

definition sanitizeKey :: "string \<Rightarrow> string" where
  "sanitizeKey raw =
     (let s = map (\<lambda>ch. if key_char ch then ch else CHR ''_'') raw in if s \<noteq> [] then s else ''_'')"

text \<open>
  \<^verbatim>\<open>key.slice(0, key.lastIndexOf(':'))\<close>. Without a colon \<^verbatim>\<open>lastIndexOf\<close> is -1, and slicing to -1 drops the last character.
\<close>

definition repoOfKey :: "string \<Rightarrow> string" where
  "repoOfKey k =
     (if CHR '':'' \<in> set k then rev (tl (dropWhile (\<lambda>ch. ch \<noteq> CHR '':'') (rev k))) else butlast k)"

definition estimateIds :: "string \<Rightarrow> string option \<Rightarrow> string \<Rightarrow> jsnum \<Rightarrow> est_id list" where
  "estimateIds k cl fp n =
     (let repo = repoOfKey k
      in [(ExactLevel, k, fp, n),
          (ConfigLaneLevel, repo @ '':'' @ sanitizeKey (nullish cl (drop (length repo + 1) k)), fp, n)])"

section \<open>Looking an estimate up\<close>

text \<open>What a lookup reads of a ticket or lease: its key, declared lane and command fingerprint.\<close>

type_synonym est_ref = "string \<times> string option \<times> string option"

definition est_ref :: "'a entry_scheme \<Rightarrow> est_ref" where
  "est_ref e = (key e, configLane e, cmdFingerprint e)"

definition lookupEstimate :: "estimates \<Rightarrow> est_ref option \<Rightarrow> jsnum \<Rightarrow> (jsnum \<times> est_level) option" where
  "lookupEstimate est ref n =
     (case ref of
        Some (k, cl, Some fp) \<Rightarrow>
          if k = [] then None
          else (case estimateIds k cl fp n of
                  [i1, i2] \<Rightarrow> (case est i1 of Some p \<Rightarrow> Some (p, ExactLevel)
                              | None \<Rightarrow> map_option (\<lambda>p. (p, ConfigLaneLevel)) (est i2))
                | _ \<Rightarrow> None)
      | _ \<Rightarrow> None)"

definition MIN_ESTIMATE_CORES :: jsnum where
  "MIN_ESTIMATE_CORES = 1 / 2"

definition clampEstimate :: "jsnum \<Rightarrow> jsnum \<Rightarrow> jsnum" where
  "clampEstimate p90 declared = min declared (max MIN_ESTIMATE_CORES p90)"

definition raiseEstimate :: "jsnum \<Rightarrow> jsnum \<Rightarrow> jsnum" where
  "raiseEstimate p90 limit = min limit (max MIN_ESTIMATE_CORES p90)"

section \<open>Computing the table\<close>

definition percentile :: "jsnum list \<Rightarrow> jsnum \<Rightarrow> jsnum option" where
  "percentile xs q =
     (let i = max 0 (\<lceil>q * of_nat (length xs)\<rceil> - 1)
      in if nat i < length xs then Some (xs ! nat i) else None)"

text \<open>
  A history row as the fold reads it. \<open>rowCompleted\<close> is \<^verbatim>\<open>classifyRow(row).kind === 'completed'\<close>, \<open>rowLocal\<close> is
  \<^verbatim>\<open>(row.executor ?? 'local') === 'local'\<close>; \<open>rowKey\<close> is \<^verbatim>\<open>row.key\<close>, else repo and lane joined.
\<close>

record hist_row =
  rowCompleted :: bool
  rowLocal :: bool
  rowEndedAt :: "jsnum option"
  rowKey :: string
  rowConfigLane :: "string option"
  rowFingerprint :: "string option"
  rowDeclared :: "jsnum option"
  rowGranted :: "jsnum option"
  rowPeak :: "jsnum option"

definition runPeakCores :: "hist_row \<Rightarrow> jsnum option" where
  "runPeakCores r =
     (if \<not> rowCompleted r \<or> \<not> rowLocal r then None
      else case rowDeclared r of
          None \<Rightarrow> None
        | Some d \<Rightarrow> if nullish (rowGranted r) d \<noteq> d then None
            else (case rowPeak r of Some p \<Rightarrow> if 0 \<le> p then Some p else None | None \<Rightarrow> None))"

definition WINDOW_RUNS :: nat where "WINDOW_RUNS = 50"
definition WINDOW_MS :: jsnum where "WINDOW_MS = 1209600000"

text \<open>The runs of one workload inside the time window, as (end time, peak), in file order.\<close>

definition run_entry :: "jsnum \<Rightarrow> est_id \<Rightarrow> hist_row \<Rightarrow> (jsnum \<times> jsnum) option" where
  "run_entry now i r =
     (case (rowEndedAt r, runPeakCores r, rowFingerprint r, rowDeclared r) of
         (Some e, Some p, Some fp, Some d) \<Rightarrow>
           if \<not> now - e > WINDOW_MS \<and> i \<in> set (estimateIds (rowKey r) (rowConfigLane r) fp d)
           then Some (e, p) else None
       | _ \<Rightarrow> None)"

definition usable_runs :: "hist_row list \<Rightarrow> jsnum \<Rightarrow> est_id \<Rightarrow> (jsnum \<times> jsnum) list" where
  "usable_runs rows now i = List.map_filter (run_entry now i) rows"

definition last_n :: "nat \<Rightarrow> 'a list \<Rightarrow> 'a list" where
  "last_n n xs = drop (length xs - n) xs"

definition computeCpuEstimates :: "hist_row list \<Rightarrow> jsnum \<Rightarrow> nat \<Rightarrow> estimates" where
  "computeCpuEstimates rows now minRuns i =
     (let recent = last_n WINDOW_RUNS (sort_key fst (usable_runs rows now i))
      in if recent = [] \<or> length recent < minRuns then None
         else percentile (sort (map snd recent)) (9 / 10))"

section \<open>The in-process snapshot\<close>

text \<open>
  The last fold of the history file, with the time and minimum-runs setting it was built under.
  \<open>rows = None\<close> is a history file that could not be read: the fold is then empty.
\<close>

record est_snapshot =
  snapAt :: jsnum
  snapMinRuns :: nat
  snapMap :: estimates

definition REFRESH_MS :: jsnum where "REFRESH_MS = 60000"
definition SNAPSHOT_MAX_AGE_MS :: jsnum where "SNAPSHOT_MAX_AGE_MS = 300000"

definition refreshCpuEstimates ::
  "cfg \<Rightarrow> nat \<Rightarrow> jsnum \<Rightarrow> hist_row list option \<Rightarrow> est_snapshot option \<Rightarrow> est_snapshot option" where
  "refreshCpuEstimates c minRuns now rows hit =
     (if \<not> historyDemandEnabled c then hit
      else if (case hit of Some s \<Rightarrow> snapMinRuns s = minRuns \<and> snapAt s \<le> now \<and> now - snapAt s < REFRESH_MS | None \<Rightarrow> False)
      then hit
      else Some \<lparr>snapAt = now, snapMinRuns = minRuns,
             snapMap = (case rows of Some rs \<Rightarrow> computeCpuEstimates rs now minRuns | None \<Rightarrow> (\<lambda>_. None))\<rparr>)"

definition peekCpuEstimates :: "cfg \<Rightarrow> nat \<Rightarrow> jsnum \<Rightarrow> est_snapshot option \<Rightarrow> estimates" where
  "peekCpuEstimates c minRuns now snap =
     (case snap of
        Some s \<Rightarrow> if historyDemandEnabled c \<and> snapMinRuns s = minRuns \<and> snapAt s \<le> now \<and>
                     now - snapAt s < SNAPSHOT_MAX_AGE_MS
                  then snapMap s else (\<lambda>_. None)
      | None \<Rightarrow> (\<lambda>_. None))"

section \<open>Lemmas\<close>

lemma clampEstimate_le [simp]: "clampEstimate p d \<le> d"
  by (simp add: clampEstimate_def)

lemma raiseEstimate_le [simp]: "raiseEstimate p b \<le> b"
  by (simp add: raiseEstimate_def)

lemma clampEstimate_nonneg: "0 \<le> d \<Longrightarrow> 0 \<le> clampEstimate p d"
  by (simp add: clampEstimate_def MIN_ESTIMATE_CORES_def le_max_iff_disj)

lemma raiseEstimate_nonneg: "0 \<le> b \<Longrightarrow> 0 \<le> raiseEstimate p b"
  by (simp add: raiseEstimate_def MIN_ESTIMATE_CORES_def le_max_iff_disj)

lemma percentile_mem: "percentile xs q = Some p \<Longrightarrow> p \<in> set xs"
  by (auto simp: percentile_def Let_def split: if_splits)

lemma last_n_subset: "set (last_n n xs) \<subseteq> set xs"
  by (simp add: last_n_def set_drop_subset)

lemma length_last_n: "length (last_n n xs) = min n (length xs)"
  by (simp add: last_n_def)

lemma runPeakCores_nonneg: "runPeakCores r = Some p \<Longrightarrow> 0 \<le> p"
  by (auto simp: runPeakCores_def split: if_splits option.splits)

lemma runPeakCores_counts: "runPeakCores r = Some p \<Longrightarrow> rowCompleted r \<and> rowLocal r"
  by (auto simp: runPeakCores_def split: if_splits)

lemma run_entry_SomeD:
  "run_entry now i r = Some (e, p) \<Longrightarrow> rowEndedAt r = Some e \<and> runPeakCores r = Some p \<and> now - e \<le> WINDOW_MS"
  by (simp add: run_entry_def split: option.splits if_splits)

lemma usable_runs_source:
  assumes "(e, p) \<in> set (usable_runs rows now i)"
  shows "\<exists>r \<in> set rows. rowCompleted r \<and> rowLocal r \<and> rowEndedAt r = Some e \<and> runPeakCores r = Some p \<and> now - e \<le> WINDOW_MS"
proof -
  from assms obtain r where "r \<in> set rows" "run_entry now i r = Some (e, p)"
    by (auto simp: usable_runs_def List.map_filter_def)
  then show ?thesis
    using run_entry_SomeD runPeakCores_counts by blast
qed

section \<open>Properties\<close>

text \<open>
  An estimate is evidence: whatever figure the table holds for a workload is the observed peak of one of its own
  completed local runs inside the fourteen-day window, and it rests on at least \<^verbatim>\<open>minRuns\<close> such runs.
\<close>

theorem estimate_from_history:
  assumes "computeCpuEstimates rows now minRuns i = Some p"
  shows "minRuns \<le> length (usable_runs rows now i) \<and>
    (\<exists>r \<in> set rows. rowCompleted r \<and> rowLocal r \<and> runPeakCores r = Some p \<and> 0 \<le> p \<and>
       (\<exists>e. rowEndedAt r = Some e \<and> now - e \<le> WINDOW_MS))"
proof -
  let ?recent = "last_n WINDOW_RUNS (sort_key fst (usable_runs rows now i))"
  from assms have n: "minRuns \<le> length ?recent" and p: "percentile (sort (map snd ?recent)) (9 / 10) = Some p"
    by (auto simp: computeCpuEstimates_def Let_def split: if_splits)
  from percentile_mem[OF p] obtain e where "(e, p) \<in> set ?recent" by auto
  then have "(e, p) \<in> set (usable_runs rows now i)"
    using last_n_subset[of WINDOW_RUNS "sort_key fst (usable_runs rows now i)"] by auto
  with n usable_runs_source[OF this] show ?thesis
    by (auto simp: length_last_n dest: runPeakCores_nonneg)
qed

definition example_row :: "jsnum \<Rightarrow> hist_row" where
  "example_row p = \<lparr>rowCompleted = True, rowLocal = True, rowEndedAt = Some 1000, rowKey = ''r:test'',
     rowConfigLane = None, rowFingerprint = Some ''f'', rowDeclared = Some 4, rowGranted = None, rowPeak = Some p\<rparr>"

theorem estimate_from_history_witness:
  "computeCpuEstimates (map example_row [1, 2, 3, 3, 2]) 2000 5 (ExactLevel, ''r:test'', ''f'', 4) = Some 3 \<and>
   (\<exists>r \<in> set (map example_row [1, 2, 3, 3, 2]). runPeakCores r = Some 3)"
proof -
  have h: "computeCpuEstimates (map example_row [1, 2, 3, 3, 2]) 2000 5 (ExactLevel, ''r:test'', ''f'', 4) = Some 3"
    by code_simp
  show ?thesis using h estimate_from_history[OF h] by blast
qed

end
