(* ===== verification/Gates.thy ===== *)
theory Gates
  imports Lane_Data
begin

text \<open>
  The two hysteresis gates: the load gate (src/load.js) and the CPU gate's transition (src/admission.js,
  \<^verbatim>\<open>updateCpuGateState\<close> and \<^verbatim>\<open>sanitizeGateState\<close>). Both close on one high reading and reopen only after a run of
  low ones; both restart the count when the thresholds change. The shared behaviour is proved once, in the
  locale \<open>hysteresis\<close>, and both transitions are interpretations of it.
\<close>

section \<open>Gate state\<close>

text \<open>
  A fingerprint is \<^verbatim>\<open>fingerprintOf(close, open, samples)\<close>, an injective rendering of the three thresholds, kept as the
  triple itself. \<open>None\<close> is a missing or malformed fingerprint.
\<close>

record gate =
  gateClosed :: bool
  consecutiveUnder :: jsnum
  fingerprint :: "(jsnum \<times> jsnum \<times> jsnum) option"
  lastReading :: "jsnum option"
  lastSampleAt :: "jsnum option"

definition fresh_gate :: gate where
  "fresh_gate = \<lparr>gateClosed = False, consecutiveUnder = 0, fingerprint = None, lastReading = None, lastSampleAt = None\<rparr>"

section \<open>The two transitions\<close>

definition updateGateState :: "gate option \<Rightarrow> jsnum \<Rightarrow> cfg \<Rightarrow> jsnum \<Rightarrow> gate" where
  "updateGateState prev load c now =
     (let fp = (loadClose c, loadOpen c, loadOpenSamples c);
          s0 = nullish prev fresh_gate;
          s1 = (if fingerprint s0 \<noteq> Some fp then s0\<lparr>consecutiveUnder := 0, fingerprint := Some fp\<rparr> else s0);
          s2 = (if load > loadClose c then s1\<lparr>gateClosed := True, consecutiveUnder := 0\<rparr>
                else if gateClosed s1 then
                  (if load < loadOpen c then
                     (let k = consecutiveUnder s1 + 1
                      in if k \<ge> loadOpenSamples c then s1\<lparr>gateClosed := False, consecutiveUnder := 0\<rparr>
                         else s1\<lparr>consecutiveUnder := k\<rparr>)
                   else s1\<lparr>consecutiveUnder := 0\<rparr>)
                else s1)
      in s2\<lparr>lastReading := Some load, lastSampleAt := Some now\<rparr>)"

definition updateCpuGateState :: "gate option \<Rightarrow> jsnum \<Rightarrow> cfg \<Rightarrow> jsnum \<Rightarrow> gate" where
  "updateCpuGateState prev busyPercent c now =
     (let fp = (cpuClosePercent c, cpuOpenPercent c, cpuOpenSamples c);
          s0 = nullish prev fresh_gate;
          s1 = (if fingerprint s0 \<noteq> Some fp then s0\<lparr>consecutiveUnder := 0, fingerprint := Some fp\<rparr> else s0);
          s2 = (if busyPercent \<ge> cpuClosePercent c then s1\<lparr>gateClosed := True, consecutiveUnder := 0\<rparr>
                else if gateClosed s1 then
                  (if busyPercent < cpuOpenPercent c then
                     (let k = consecutiveUnder s1 + 1
                      in if k \<ge> cpuOpenSamples c then s1\<lparr>gateClosed := False, consecutiveUnder := 0\<rparr>
                         else s1\<lparr>consecutiveUnder := k\<rparr>)
                   else s1\<lparr>consecutiveUnder := 0\<rparr>)
                else s1)
      in s2\<lparr>lastReading := Some busyPercent, lastSampleAt := Some now\<rparr>)"

text \<open>A persisted CPU gate as it may be on disk: each field only if it has the right type.\<close>

record raw_gate =
  rawClosed :: "bool option"
  rawUnder :: "jsnum option"
  rawFingerprint :: "(jsnum \<times> jsnum \<times> jsnum) option"

definition sanitizeGateState :: "raw_gate option \<Rightarrow> gate" where
  "sanitizeGateState raw =
     (case raw of
        None \<Rightarrow> fresh_gate
      | Some r \<Rightarrow> fresh_gate\<lparr>gateClosed := (rawClosed r = Some True),
          consecutiveUnder := (case rawUnder r of Some k \<Rightarrow> if 0 \<le> k then k else 0 | None \<Rightarrow> 0),
          fingerprint := rawFingerprint r\<rparr>)"

text \<open>Sampling the load gate: the returned state is also the one persisted.\<close>

definition sampleAndUpdateGate :: "gate option \<Rightarrow> cfg \<Rightarrow> jsnum \<Rightarrow> jsnum \<Rightarrow> gate" where
  "sampleAndUpdateGate file c load now = updateGateState file load c now"

definition readGateState :: "gate option \<Rightarrow> gate" where
  "readGateState file = nullish file fresh_gate"

section \<open>The shared contract\<close>

text \<open>
  \<open>hi\<close> is a reading that closes the gate, \<open>lo\<close> one that counts towards reopening, \<open>n\<close> the number of consecutive
  low readings wanted, \<open>fp\<close> the thresholds' fingerprint. \<open>carried\<close> is the count a step starts from: the stored
  one, or zero when the stored fingerprint is another configuration's.
\<close>

definition carried :: "(jsnum \<times> jsnum \<times> jsnum) \<Rightarrow> gate \<Rightarrow> jsnum" where
  "carried fp g = (if fingerprint g = Some fp then consecutiveUnder g else 0)"

locale hysteresis =
  fixes step :: "gate \<Rightarrow> jsnum \<Rightarrow> gate"
    and hi :: "jsnum \<Rightarrow> bool" and lo :: "jsnum \<Rightarrow> bool"
    and n :: jsnum and fp :: "jsnum \<times> jsnum \<times> jsnum"
  assumes hi_not_lo: "hi r \<Longrightarrow> \<not> lo r"
    and step_closed: "gateClosed (step g r) = (hi r \<or> gateClosed g \<and> \<not> (lo r \<and> carried fp g + 1 \<ge> n))"
    and step_count: "consecutiveUnder (step g r) =
      (if hi r then 0 else if \<not> gateClosed g then carried fp g
       else if lo r \<and> carried fp g + 1 < n then carried fp g + 1 else 0)"
    and step_fp: "fingerprint (step g r) = Some fp"
begin

definition run :: "gate \<Rightarrow> jsnum list \<Rightarrow> gate" where
  "run g rs = fold (\<lambda>r s. step s r) rs g"

lemma run_simps [simp]: "run g [] = g" "run g (rs @ [r]) = step (run g rs) r"
  by (simp_all add: run_def)

lemma run_fp: "rs \<noteq> [] \<Longrightarrow> fingerprint (run g rs) = Some fp"
  by (induction rs rule: rev_induct) (auto simp: step_fp)

lemma closes_at_once: "hi r \<Longrightarrow> gateClosed (step g r)"
  by (simp add: step_closed)

lemma open_stays_open: "\<not> gateClosed g \<Longrightarrow> \<not> hi r \<Longrightarrow> \<not> gateClosed (step g r)"
  by (simp add: step_closed)

text \<open>While the gate has been closed throughout, the count is at most the length of the low tail of the readings.\<close>

lemma count_is_low_tail:
  assumes "gateClosed g" "carried fp g = 0" "\<And>k. k \<le> length rs \<Longrightarrow> gateClosed (run g (take k rs))"
  shows "\<exists>ys zs. rs = ys @ zs \<and> (\<forall>r \<in> set zs. lo r) \<and> carried fp (run g rs) \<le> of_nat (length zs)"
  using assms(3)
proof (induction rs rule: rev_induct)
  case Nil
  show ?case using assms(2) by simp
next
  case (snoc r rs)
  have closed: "gateClosed (run g rs)"
    using snoc.prems[of "length rs"] by simp
  have "\<And>k. k \<le> length rs \<Longrightarrow> gateClosed (run g (take k rs))"
    using snoc.prems by (metis diff_is_0_eq' le_SucI length_append_singleton append_Nil2 take0 take_append)
  from snoc.IH[OF this] obtain ys zs where
    *: "rs = ys @ zs" "\<forall>r \<in> set zs. lo r" "carried fp (run g rs) \<le> of_nat (length zs)"
    by blast
  have c: "carried fp (run g (rs @ [r])) = consecutiveUnder (step (run g rs) r)"
    by (simp add: carried_def step_fp)
  show ?case
  proof (cases "lo r")
    case True
    then have "carried fp (run g (rs @ [r])) \<le> of_nat (length (zs @ [r]))"
      using * closed hi_not_lo[of r] unfolding c by (auto simp: step_count)
    with True * show ?thesis by (intro exI[of _ ys] exI[of _ "zs @ [r]"]) auto
  next
    case False
    then have "carried fp (run g (rs @ [r])) = 0"
      unfolding c using closed by (simp add: step_count)
    then show ?thesis by (intro exI[of _ "rs @ [r]"] exI[of _ "[]"]) auto
  qed
qed

text \<open>So the step that opens it ends a block of at least \<open>n\<close> consecutive low readings.\<close>

lemma reopens_after_low_block:
  assumes "gateClosed g" "carried fp g = 0" "\<And>k. k \<le> length rs \<Longrightarrow> gateClosed (run g (take k rs))"
    and "\<not> gateClosed (run g (rs @ [r]))"
  shows "\<exists>ys zs. rs @ [r] = ys @ zs \<and> (\<forall>x \<in> set zs. lo x) \<and> n \<le> of_nat (length zs)"
proof -
  obtain ys zs where *: "rs = ys @ zs" "\<forall>x \<in> set zs. lo x" "carried fp (run g rs) \<le> of_nat (length zs)"
    using count_is_low_tail[OF assms(1-3)] by blast
  have "gateClosed (run g rs)" using assms(3)[of "length rs"] by simp
  with assms(4) have "lo r" "n \<le> carried fp (run g rs) + 1"
    by (auto simp: step_closed)
  with * show ?thesis by (intro exI[of _ ys] exI[of _ "zs @ [r]"]) auto
qed

text \<open>Conversely a long enough low run opens it.\<close>

lemma low_run_counts:
  assumes "gateClosed g" "0 \<le> carried fp g" "\<forall>r \<in> set rs. lo r" "of_nat (length rs) + carried fp g < n"
  shows "gateClosed (run g rs) \<and> carried fp (run g rs) = carried fp g + of_nat (length rs)"
  using assms(3,4)
proof (induction rs rule: rev_induct)
  case (snoc r rs)
  then have "gateClosed (run g rs)" "carried fp (run g rs) = carried fp g + of_nat (length rs)" "lo r" "\<not> hi r"
    using hi_not_lo by auto
  with snoc.prems show ?case
    by (auto simp: step_closed step_count carried_def step_fp)
qed (simp add: assms)

lemma low_run_opens:
  assumes "gateClosed g" "0 \<le> carried fp g" "\<forall>r \<in> set (rs @ [r]). lo r"
    and "of_nat (length rs) + carried fp g < n" "n \<le> of_nat (length rs) + carried fp g + 1"
  shows "\<not> gateClosed (run g (rs @ [r]))"
proof -
  have "carried fp (run g rs) = carried fp g + of_nat (length rs)"
    using low_run_counts[OF assms(1,2), of rs] assms(3,4) by simp
  moreover have "\<not> hi r"
    using assms(3) hi_not_lo[of r] by auto
  ultimately show ?thesis
    using assms by (simp add: step_closed)
qed

end

section \<open>Interpretations\<close>

text \<open>Both transitions meet the contract for every configuration whose open threshold is below its close threshold.\<close>

definition valid_gate_cfg :: "cfg \<Rightarrow> bool" where
  "valid_gate_cfg c \<longleftrightarrow> loadOpen c < loadClose c \<and> cpuOpenPercent c < cpuClosePercent c \<and>
     is_integer (loadOpenSamples c) \<and> 1 \<le> loadOpenSamples c \<and> is_integer (cpuOpenSamples c) \<and> 1 \<le> cpuOpenSamples c"

lemma valid_gate_default: "valid_gate_cfg default_cfg"
  by (simp add: valid_gate_cfg_def default_cfg_def is_integer_def)

lemma load_hysteresis:
  assumes "valid_gate_cfg c"
  shows "hysteresis (\<lambda>g r. updateGateState (Some g) r c now) (\<lambda>r. r > loadClose c) (\<lambda>r. r < loadOpen c)
    (loadOpenSamples c) (loadClose c, loadOpen c, loadOpenSamples c)"
  using assms by unfold_locales (auto simp: updateGateState_def valid_gate_cfg_def carried_def Let_def)

lemma cpu_hysteresis:
  assumes "valid_gate_cfg c"
  shows "hysteresis (\<lambda>g r. updateCpuGateState (Some g) r c now) (\<lambda>r. r \<ge> cpuClosePercent c) (\<lambda>r. r < cpuOpenPercent c)
    (cpuOpenSamples c) (cpuClosePercent c, cpuOpenPercent c, cpuOpenSamples c)"
  using assms by unfold_locales (auto simp: updateCpuGateState_def valid_gate_cfg_def carried_def Let_def)

interpretation load_gate: hysteresis "\<lambda>g r. updateGateState (Some g) r default_cfg now"
  "\<lambda>r. r > loadClose default_cfg" "\<lambda>r. r < loadOpen default_cfg" "loadOpenSamples default_cfg"
  "(loadClose default_cfg, loadOpen default_cfg, loadOpenSamples default_cfg)" for now
  by (rule load_hysteresis[OF valid_gate_default])

interpretation cpu_gate: hysteresis "\<lambda>g r. updateCpuGateState (Some g) r default_cfg now"
  "\<lambda>r. r \<ge> cpuClosePercent default_cfg" "\<lambda>r. r < cpuOpenPercent default_cfg" "cpuOpenSamples default_cfg"
  "(cpuClosePercent default_cfg, cpuOpenPercent default_cfg, cpuOpenSamples default_cfg)" for now
  by (rule cpu_hysteresis[OF valid_gate_default])

section \<open>Runs of readings\<close>

definition load_gate_run :: "cfg \<Rightarrow> jsnum \<Rightarrow> gate \<Rightarrow> jsnum list \<Rightarrow> gate" where
  "load_gate_run c now g rs = fold (\<lambda>r s. updateGateState (Some s) r c now) rs g"

definition cpu_gate_run :: "cfg \<Rightarrow> jsnum \<Rightarrow> gate \<Rightarrow> jsnum list \<Rightarrow> gate" where
  "cpu_gate_run c now g rs = fold (\<lambda>r s. updateCpuGateState (Some s) r c now) rs g"

section \<open>Properties\<close>

text \<open>
  The load gate's hysteresis. For a validated configuration and a gate that has just closed (nothing counted
  yet): the gate opens on a reading only as the end of a block of at least \<^verbatim>\<open>loadOpenSamples\<close> consecutive
  readings below \<^verbatim>\<open>loadOpen\<close>.
\<close>

theorem load_gate_reopens_only_after_block:
  assumes v: "valid_gate_cfg c" and g: "gateClosed g" "consecutiveUnder g = 0"
    and cl: "\<And>k. k \<le> length rs \<Longrightarrow> gateClosed (load_gate_run c now g (take k rs))"
    and op: "\<not> gateClosed (load_gate_run c now g (rs @ [r]))"
  shows "\<exists>ys zs. rs @ [r] = ys @ zs \<and> (\<forall>x \<in> set zs. x < loadOpen c) \<and> loadOpenSamples c \<le> of_nat (length zs)"
proof -
  have "carried (loadClose c, loadOpen c, loadOpenSamples c) g = 0"
    using g by (simp add: carried_def)
  moreover have "load_gate_run c now g xs = hysteresis.run (\<lambda>g r. updateGateState (Some g) r c now) g xs" for xs
    by (simp add: load_gate_run_def hysteresis.run_def[OF load_hysteresis[OF v, of now]])
  ultimately show ?thesis
    using hysteresis.reopens_after_low_block[OF load_hysteresis[OF v, of now] g(1), of rs r] cl op by simp
qed

theorem load_gate_reopens_witness:
  "\<exists>ys zs. [12, 10, 9] @ [8] = ys @ zs \<and> list_all (\<lambda>x. x < loadOpen default_cfg) zs \<and>
     loadOpenSamples default_cfg \<le> of_nat (length zs)"
proof -
  let ?g = "fresh_gate\<lparr>gateClosed := True\<rparr>"
  have g: "gateClosed ?g" "consecutiveUnder ?g = 0" by (simp_all add: fresh_gate_def)
  have cl: "gateClosed (load_gate_run default_cfg 0 ?g (take k [12, 10, 9]))" if "k \<le> length [12, 10, 9 :: rat]" for k
  proof -
    have "k = 0 \<or> k = 1 \<or> k = 2 \<or> k = 3" using that by (simp add: le_Suc_eq eval_nat_numeral)
    then show ?thesis
      by (auto simp: load_gate_run_def updateGateState_def fresh_gate_def default_cfg_def Let_def)
  qed
  have op: "\<not> gateClosed (load_gate_run default_cfg 0 ?g ([12, 10, 9] @ [8]))"
    by (simp add: load_gate_run_def updateGateState_def fresh_gate_def default_cfg_def Let_def)
  show ?thesis
    using load_gate_reopens_only_after_block[OF valid_gate_default g cl op] unfolding list_all_iff by simp
qed

end
