(* ===== verification/Admission.thy ===== *)
theory Admission
  imports Estimates Gates Priority
begin

text \<open>
  The admission predicate (src/admission.js): what a held lease and a candidate are charged, the projection against
  the CPU budget, the CPU gate and the cooldown, the combined CPU and memory decision, and the elastic walk that
  re-runs the whole decision at smaller claims. \<open>est\<close> is the estimate table the in-process snapshot offers
  (\<^verbatim>\<open>peekCpuEstimates\<close>). \<open>now\<close> is the clock reading of one evaluation.
\<close>

section \<open>Charges\<close>

definition coldStartEstimate :: "jsnum option \<Rightarrow> jsnum" where
  "coldStartEstimate w = max 0 (num_or w 0)"

datatype est_source = Declared | HistoryRaised | History est_level

definition cpuEstimateBasis ::
  "estimates \<Rightarrow> est_ref option \<Rightarrow> jsnum option \<Rightarrow> cfg \<Rightarrow> jsnum option \<Rightarrow> jsnum \<times> est_source" where
  "cpuEstimateBasis est ref declared c limit =
     (let cold = coldStartEstimate declared
      in if \<not> historyDemandEnabled c then (cold, Declared)
         else case lookupEstimate est ref cold of
             None \<Rightarrow> (cold, Declared)
           | Some (p90, level) \<Rightarrow>
               (case limit of
                  Some b \<Rightarrow> if historyDemandRaise c \<and> p90 > cold then (raiseEstimate p90 b, HistoryRaised)
                            else (clampEstimate p90 cold, History level)
                | None \<Rightarrow> (clampEstimate p90 cold, History level)))"

definition OBSERVATION_TTL_MS :: jsnum where
  "OBSERVATION_TTL_MS = 30000"

definition freshObservedCores :: "lease \<Rightarrow> jsnum \<Rightarrow> jsnum option" where
  "freshObservedCores l now =
     (case (observedAt l, observedCpuCores l) of
        (Some a, Some x) \<Rightarrow> if now - a \<le> OBSERVATION_TTL_MS \<and> 0 \<le> x then Some x else None
      | _ \<Rightarrow> None)"

definition in_window :: "jsnum \<Rightarrow> jsnum \<Rightarrow> observation \<Rightarrow> bool" where
  "in_window now windowMs h =
     (case (obsAt h, obsCores h) of (Some a, Some x) \<Rightarrow> 0 \<le> x \<and> now - a \<le> windowMs | _ \<Rightarrow> False)"

definition recentObservedCores :: "lease \<Rightarrow> jsnum \<Rightarrow> jsnum \<Rightarrow> jsnum \<Rightarrow> nat \<times> jsnum" where
  "recentObservedCores l now windowMs current =
     (let w = filter (in_window now windowMs) (observedCpuHistory l)
      in (length w, foldl max current (map (\<lambda>h. nullish (obsCores h) 0) w)))"

datatype demand_basis = Cold | Settled

definition leaseDemandBasis :: "estimates \<Rightarrow> lease \<Rightarrow> jsnum \<Rightarrow> cfg \<Rightarrow> jsnum option \<Rightarrow> jsnum \<times> demand_basis" where
  "leaseDemandBasis est l now c limit =
     (let cold = coldStartEstimate (nullish_opt (leaseCpuCores l) (leaseWeight l));
          estimated = min (fst (cpuEstimateBasis est (Some (est_ref l)) (Some cold) c limit)) cold
      in case freshObservedCores l now of
           None \<Rightarrow> (estimated, Cold)
         | Some observed \<Rightarrow>
             (let unsettled = (max observed estimated, Cold)
              in if \<not> settledDemandEnabled c then unsettled
                 else if (case admittedAt l of None \<Rightarrow> True | Some a \<Rightarrow> now - a < settledDemandSettleMs c) then unsettled
                 else (let (count, peak) = recentObservedCores l now (settledDemandWindowMs c) observed
                       in if count < 2 then unsettled
                          else (max observed (min cold (max (cold * settledDemandFloorFraction c)
                                 (peak * settledDemandHeadroom c))), Settled))))"

definition leaseDemand :: "estimates \<Rightarrow> lease \<Rightarrow> jsnum \<Rightarrow> cfg \<Rightarrow> jsnum option \<Rightarrow> jsnum" where
  "leaseDemand est l now c limit = fst (leaseDemandBasis est l now c limit)"

section \<open>Host load, gate and cooldown\<close>

definition nonPreemptibleBusy :: "jsnum \<Rightarrow> cpu_sample \<Rightarrow> cfg \<Rightarrow> jsnum" where
  "nonPreemptibleBusy busy s c =
     (let preemptible = min (max 0 (nullish (preemptibleBusyCores s) 0)) busy;
          share = (if preemptibleNiceMin c > 0 then preemptibleShare c else 0)
      in max 0 (busy - share * preemptible))"

text \<open>
  \<^verbatim>\<open>sampleAndUpdateCpuGate\<close>: the gate the decision uses and the gate left on disk. \<open>wok\<close> says whether the
  best-effort write succeeds.
\<close>

definition sampleAndUpdateCpuGate ::
  "bool \<Rightarrow> raw_gate option \<Rightarrow> cfg \<Rightarrow> cpu_sample option \<Rightarrow> jsnum \<Rightarrow> gate \<times> raw_gate option" where
  "sampleAndUpdateCpuGate wok file c sample now =
     (let prev = sanitizeGateState file
      in case sample of
           None \<Rightarrow> (prev, file)
         | Some s \<Rightarrow>
             if reused s then
               (case hostBusyCores s of
                  Some b \<Rightarrow> if sampleCores s > 0 \<and> nonPreemptibleBusy b s c / sampleCores s * 100 \<ge> cpuClosePercent c
                            then (prev\<lparr>gateClosed := True\<rparr>, file) else (prev, file)
                | None \<Rightarrow> (prev, file))
             else if stale s \<or> hostBusyCores s = None \<or> sampleCores s \<le> 0 then (prev, file)
             else (let next = updateCpuGateState (Some prev)
                         (nonPreemptibleBusy (nullish (hostBusyCores s) 0) s c / sampleCores s * 100) c now
                   in (next, if wok then Some \<lparr>rawClosed = Some (gateClosed next),
                                   rawUnder = Some (consecutiveUnder next), rawFingerprint = fingerprint next\<rparr>
                             else file)))"

definition cooldownActive :: "lease list \<Rightarrow> cfg \<Rightarrow> jsnum \<Rightarrow> bool" where
  "cooldownActive held c now =
     list_ex (\<lambda>l. queueBypass l = None \<and>
       (case admittedAt l of Some a \<Rightarrow> now - a < admissionCooldownMs c | None \<Rightarrow> False)) held"

definition cpuBudget :: "cpu_sample \<Rightarrow> cfg \<Rightarrow> jsnum" where
  "cpuBudget s c = min ((cpuAdmissionPercent c / 100) * sampleCores s) (max 0 (sampleCores s - cpuReserveCores c))"

text \<open>\<^verbatim>\<open>hostCpuLoad\<close> of a usable sample whose busy reading is \<open>busy\<close>: external load and budget.\<close>

definition hostCpuLoad :: "jsnum \<Rightarrow> cpu_sample \<Rightarrow> lease list \<Rightarrow> cfg \<Rightarrow> jsnum \<Rightarrow> jsnum \<times> jsnum" where
  "hostCpuLoad busy s held c now =
     (let brokerObserved = (\<Sum>l \<leftarrow> held. nullish (freshObservedCores l now) 0)
      in (max 0 (nonPreemptibleBusy busy s c - brokerObserved), cpuBudget s c))"

definition leaseCharge :: "lease \<Rightarrow> jsnum \<Rightarrow> (jsnum \<times> tier) option \<Rightarrow> cfg \<Rightarrow> jsnum" where
  "leaseCharge l demand candidate c =
     (case candidate of
        None \<Rightarrow> demand
      | Some (cnice, ctier) \<Rightarrow>
          if \<not> preemptibleNiceMin c > 0 then demand
          else if (case nice l of
                     Some n \<Rightarrow> is_integer n \<and> n > cnice \<and> n \<ge> preemptibleNiceMin c \<and>
                       tierRank (Some (priorityOf l)) < tierRank (Some ctier)
                   | None \<Rightarrow> False)
          then demand * (1 - preemptibleShare c) else demand)"

definition projectBusy ::
  "estimates \<Rightarrow> jsnum \<Rightarrow> lease list \<Rightarrow> jsnum \<Rightarrow> jsnum \<Rightarrow> cfg \<Rightarrow> jsnum option \<Rightarrow> (jsnum \<times> tier) option \<Rightarrow> jsnum" where
  "projectBusy est external held candEst now c limit candidate =
     external + (\<Sum>l \<leftarrow> held. leaseCharge l (leaseDemand est l now c limit) candidate c) + candEst"

definition candidatePriorityOf :: "'a entry_scheme \<Rightarrow> (jsnum \<times> tier) option" where
  "candidatePriorityOf e =
     (case (nice e, priorityAdmitted e) of
        (Some n, Some t) \<Rightarrow> if is_integer n then Some (n, t) else None
      | _ \<Rightarrow> None)"

definition headClearWithoutBypass ::
  "estimates \<Rightarrow> jsnum \<Rightarrow> lease list \<Rightarrow> jsnum \<Rightarrow> cpu_sample \<Rightarrow> bool \<Rightarrow> cfg \<Rightarrow> jsnum \<Rightarrow> bool" where
  "headClearWithoutBypass est headFloorCores held busy s shut c now =
     (let bypass = filter (\<lambda>l. queueBypass l \<noteq> None) held;
          (external, bud) = hostCpuLoad busy s held c now;
          attributed = (\<Sum>l \<leftarrow> bypass. nullish (freshObservedCores l now) (leaseDemand est l now c (Some bud)));
          drainedBusy = max 0 (nonPreemptibleBusy busy s c - attributed);
          gateClear = drainedBusy / sampleCores s * 100 < (if shut then cpuOpenPercent c else cpuClosePercent c);
          rest = filter (\<lambda>l. queueBypass l = None) held;
          unobserved = (\<Sum>l \<leftarrow> bypass. if freshObservedCores l now = None then leaseDemand est l now c (Some bud) else 0)
      in gateClear \<and> \<not> cooldownActive rest c now \<and>
         projectBusy est (max 0 (external - unobserved)) rest headFloorCores now c (Some bud) None \<le> bud)"

definition cpuHeadroomCores :: "estimates \<Rightarrow> jsnum \<Rightarrow> cpu_sample \<Rightarrow> lease list \<Rightarrow> cfg \<Rightarrow> jsnum \<Rightarrow> jsnum" where
  "cpuHeadroomCores est busy s held c now =
     (let (external, bud) = hostCpuLoad busy s held c now
      in max 0 (bud - projectBusy est external held 0 now c (Some bud) None))"

definition ticketCpuEstimateBasis :: "estimates \<Rightarrow> ticket \<Rightarrow> cfg \<Rightarrow> jsnum option \<Rightarrow> jsnum \<times> est_source" where
  "ticketCpuEstimateBasis est t c limit =
     cpuEstimateBasis est (Some (est_ref t)) (cpuCores (ticket_claim t c)) c limit"

definition ticketCpuEstimate :: "estimates \<Rightarrow> ticket \<Rightarrow> cfg \<Rightarrow> jsnum option \<Rightarrow> jsnum" where
  "ticketCpuEstimate est t c limit = fst (ticketCpuEstimateBasis est t c limit)"

section \<open>The decision\<close>

datatype cpu_reason =
  CpuOk | SampleUnavailableEmpty | SampleUnavailableHeld | CpuGateClosed | Cooldown | ProjectedOverBudget

record cpu_verdict =
  cpuAdmit :: bool
  cpuReason :: cpu_reason
  externalBusy :: "jsnum option"
  projectedBusy :: "jsnum option"
  budget :: "jsnum option"
  candidateEstimate :: "jsnum option"
  leaseCharges :: "(string \<times> jsnum \<times> demand_basis) list"

text \<open>
  The candidate side of an evaluation: the reference its estimate is looked up by (absent for a hypothetical claim), its
  nice and tier (absent: held leases are charged in full), and the cores it claims (\<^verbatim>\<open>candidateResources?.cpuCores ?? candidateWeight\<close>).
\<close>

record candidate =
  candRef :: "est_ref option"
  candPriority :: "(jsnum \<times> tier) option"
  candCores :: jsnum

definition candidate_of :: "ticket \<Rightarrow> candidate" where
  "candidate_of t = \<lparr>candRef = Some (est_ref t), candPriority = candidatePriorityOf t, candCores = ticket_cpu t\<rparr>"

definition evaluateCpuAdmission ::
  "estimates \<Rightarrow> cpu_sample option \<Rightarrow> lease list \<Rightarrow> candidate \<Rightarrow> bool \<Rightarrow> bool \<Rightarrow> cfg \<Rightarrow> jsnum \<Rightarrow> cpu_verdict" where
  "evaluateCpuAdmission est sample held cand shut cooldownBlocked c now =
     (case Option.bind sample (\<lambda>s. if stale s then None else map_option (\<lambda>b. (s, b)) (hostBusyCores s)) of
        None \<Rightarrow> \<lparr>cpuAdmit = (held = []),
                 cpuReason = (if held = [] then SampleUnavailableEmpty else SampleUnavailableHeld),
                 externalBusy = None, projectedBusy = None, budget = None, candidateEstimate = None, leaseCharges = []\<rparr>
      | Some (s, busy) \<Rightarrow>
          (let (external, bud) = hostCpuLoad busy s held c now;
               charge = fst (cpuEstimateBasis est (candRef cand) (Some (candCores cand)) c (if held \<noteq> [] then Some bud else None));
               projected = projectBusy est external held charge now c (Some bud) (candPriority cand);
               verdict = (\<lambda>ok r. \<lparr>cpuAdmit = ok, cpuReason = r, externalBusy = Some external, projectedBusy = Some projected,
                 budget = Some bud, candidateEstimate = Some charge,
                 leaseCharges = map (\<lambda>l. (eid l, leaseDemandBasis est l now c (Some bud))) held\<rparr>)
           in if shut then verdict False CpuGateClosed
              else if cooldownBlocked then verdict False Cooldown
              else if projected > bud then verdict False ProjectedOverBudget
              else verdict True CpuOk))"

text \<open>
  The merged decision. \<open>dCpuReason\<close> and \<open>dMemoryReason\<close> are absent in the fallback of an evaluation that threw,
  whose object has neither field.
\<close>

datatype decision_reason = CpuSays cpu_reason | MemSays mem_reason | AdmissionError

record decision =
  admit :: bool
  reason :: decision_reason
  dCpuReason :: "cpu_reason option"
  dMemoryReason :: "mem_reason option"
  dExternalBusy :: "jsnum option"
  dProjectedBusy :: "jsnum option"
  dBudget :: "jsnum option"
  dCandidateEstimate :: "jsnum option"
  dCandidateCpuCores :: "jsnum option"
  dCandidateMemoryBytes :: "jsnum option"
  dProjectedAvailableBytes :: "jsnum option"
  dMemoryBudgetBytes :: "jsnum option"
  dHostBusyCores :: "jsnum option"
  dCores :: "jsnum option"
  dSampleStale :: bool
  dCpuGateClosed :: bool
  dCooldownBlocked :: bool
  dLeaseCharges :: "(string \<times> jsnum \<times> demand_basis) list"

definition unavailableDecision :: "lease list \<Rightarrow> decision_reason \<Rightarrow> decision" where
  "unavailableDecision held r = \<lparr>admit = (held = []), reason = r, dCpuReason = None, dMemoryReason = None,
     dExternalBusy = None, dProjectedBusy = None, dBudget = None, dCandidateEstimate = None, dCandidateCpuCores = None,
     dCandidateMemoryBytes = None, dProjectedAvailableBytes = None, dMemoryBudgetBytes = None, dHostBusyCores = None,
     dCores = None, dSampleStale = True, dCpuGateClosed = False, dCooldownBlocked = False, dLeaseCharges = []\<rparr>"

definition decideAdmission ::
  "estimates \<Rightarrow> cfg \<Rightarrow> ticket \<Rightarrow> lease list \<Rightarrow> cpu_sample option \<Rightarrow> mem_info option \<Rightarrow> bool \<Rightarrow> bool \<Rightarrow> jsnum \<Rightarrow> decision" where
  "decideAdmission est c t held sample mi shut blocked now =
     (let cand = ticket_claim t c;
          cpu = evaluateCpuAdmission est sample held (candidate_of t) shut blocked c now;
          mem = (case mi of
                   Some _ \<Rightarrow> evaluateMemoryAdmission mi held (nullish (memoryBytes cand) 0) c now
                 | None \<Rightarrow> \<lparr>memAdmit = True, memReason = MemNotSampled, projectedAvailableBytes = None, memoryBudgetBytes = None\<rparr>)
      in \<lparr>admit = (cpuAdmit cpu \<and> memAdmit mem),
          reason = (if \<not> cpuAdmit cpu then CpuSays (cpuReason cpu)
                    else if \<not> memAdmit mem then MemSays (memReason mem) else CpuSays (cpuReason cpu)),
          dCpuReason = Some (cpuReason cpu), dMemoryReason = Some (memReason mem),
          dExternalBusy = externalBusy cpu, dProjectedBusy = projectedBusy cpu, dBudget = budget cpu,
          dCandidateEstimate = candidateEstimate cpu, dCandidateCpuCores = cpuCores cand,
          dCandidateMemoryBytes = memoryBytes cand, dProjectedAvailableBytes = projectedAvailableBytes mem,
          dMemoryBudgetBytes = memoryBudgetBytes mem, dHostBusyCores = Option.bind sample hostBusyCores,
          dCores = map_option sampleCores sample,
          dSampleStale = (case sample of Some s \<Rightarrow> stale s | None \<Rightarrow> True),
          dCpuGateClosed = shut, dCooldownBlocked = blocked, dLeaseCharges = leaseCharges cpu\<rparr>)"

text \<open>
  \<^verbatim>\<open>evaluateNewAdmission\<close>: gate update, cooldown, decision. \<open>throws\<close> is an exception anywhere inside, which the code
  turns into the fail-safe decision; the gate on disk is then whatever the failed call left.
\<close>

definition evaluateNewAdmission ::
  "estimates \<Rightarrow> bool \<Rightarrow> bool \<Rightarrow> raw_gate option \<Rightarrow> cfg \<Rightarrow> ticket \<Rightarrow> lease list \<Rightarrow> cpu_sample option \<Rightarrow> mem_info option \<Rightarrow>
   jsnum \<Rightarrow> decision \<times> raw_gate option" where
  "evaluateNewAdmission est throws wok gfile c t held sample mi now =
     (if throws then (unavailableDecision held AdmissionError, gfile)
      else (let (g, gfile') = sampleAndUpdateCpuGate wok gfile c sample now
            in (decideAdmission est c t held sample mi (gateClosed g) (cooldownActive held c now) now, gfile')))"

definition isCpuOnlyDenial :: "decision \<Rightarrow> bool" where
  "isCpuOnlyDenial d \<longleftrightarrow> \<not> admit d \<and> dCpuReason d = Some ProjectedOverBudget \<and> dMemoryReason d = Some MemOk"

text \<open>The ticket re-claimed at a whole number of cores, memory and floor unchanged.\<close>

definition resized :: "ticket \<Rightarrow> int \<Rightarrow> ticket" where
  "resized t n = t\<lparr>resources := Some (case resources t of
     Some r \<Rightarrow> r\<lparr>cpuCores := Some (of_int n)\<rparr>
   | None \<Rightarrow> \<lparr>cpuCores = Some (of_int n), minCpuCores = None, memoryBytes = None\<rparr>)\<rparr>"

text \<open>The walk from \<open>hi\<close> down to \<open>lo\<close>, stopping at the first claim that is admitted.\<close>

function elastic_walk :: "(int \<Rightarrow> decision) \<Rightarrow> int \<Rightarrow> int \<Rightarrow> (decision \<times> int) option" where
  "elastic_walk dec n lo =
     (if n < lo then None else if admit (dec n) then Some (dec n, n) else elastic_walk dec (n - 1) lo)"
  by auto
termination
  by (relation "measure (\<lambda>(dec, n, lo). nat (n + 1 - lo))") auto

declare elastic_walk.simps [simp del]

definition evaluateElasticAdmission ::
  "estimates \<Rightarrow> cfg \<Rightarrow> ticket \<Rightarrow> lease list \<Rightarrow> cpu_sample option \<Rightarrow> mem_info option \<Rightarrow> decision \<Rightarrow> jsnum \<Rightarrow>
   (decision \<times> int) option" where
  "evaluateElasticAdmission est c t held sample mi full now =
     (if \<not> isCpuOnlyDenial full then None
      else case (dBudget full, dProjectedBusy full, dCandidateEstimate full) of
          (Some b, Some p, Some e) \<Rightarrow>
            (case elasticClaimRange (Some (ticket_cpu t)) (res_min t) (Some (b - (p - e))) of
               None \<Rightarrow> None
             | Some (hi, lo) \<Rightarrow>
                 elastic_walk (\<lambda>n. decideAdmission est c (resized t n) held sample mi (dCpuGateClosed full)
                   (dCooldownBlocked full) now) hi lo)
        | _ \<Rightarrow> None)"

section \<open>Lemmas: charges\<close>

lemma coldStartEstimate_nonneg [simp]: "0 \<le> coldStartEstimate w"
  by (simp add: coldStartEstimate_def)

lemma coldStartEstimate_id [simp]: "0 \<le> x \<Longrightarrow> coldStartEstimate (Some x) = x"
  by (simp add: coldStartEstimate_def num_or_def)

lemma cpuEstimateBasis_nonneg:
  assumes "\<And>b. limit = Some b \<Longrightarrow> 0 \<le> b"
  shows "0 \<le> fst (cpuEstimateBasis est ref d c limit)"
  using assms
  by (auto simp: cpuEstimateBasis_def Let_def clampEstimate_nonneg raiseEstimate_nonneg split: option.splits)

lemma cpuEstimateBasis_no_limit: "fst (cpuEstimateBasis est ref d c None) \<le> coldStartEstimate d"
  by (auto simp: cpuEstimateBasis_def Let_def split: option.splits)

lemma freshObservedCores_nonneg: "freshObservedCores l now = Some x \<Longrightarrow> 0 \<le> x"
  by (auto simp: freshObservedCores_def split: option.splits if_splits)

lemma foldl_max_ge: "x \<le> foldl max x ys" for x :: jsnum
proof (induction ys arbitrary: x)
  case (Cons y ys)
  show ?case using Cons[of "max x y"] by simp
qed simp

lemma leaseDemand_observed:
  assumes "freshObservedCores l now = Some x"
  shows "x \<le> leaseDemand est l now c limit"
  using assms by (simp add: leaseDemand_def leaseDemandBasis_def Let_def case_prod_beta)

lemma leaseDemand_upper:
  "leaseDemand est l now c limit \<le>
     max (nullish (freshObservedCores l now) 0) (coldStartEstimate (nullish_opt (leaseCpuCores l) (leaseWeight l)))"
proof (cases "freshObservedCores l now")
  case None
  then show ?thesis by (simp add: leaseDemand_def leaseDemandBasis_def Let_def max.coboundedI2)
next
  case (Some x)
  let ?cold = "coldStartEstimate (nullish_opt (leaseCpuCores l) (leaseWeight l))"
  have "max x (min ?cold y) \<le> max x ?cold" "max x (min y ?cold) \<le> max x ?cold" for y
    by simp_all
  then show ?thesis
    using Some by (simp add: leaseDemand_def leaseDemandBasis_def Let_def case_prod_beta)
qed

lemma leaseDemand_nonneg:
  assumes "\<And>b. limit = Some b \<Longrightarrow> 0 \<le> b"
  shows "0 \<le> leaseDemand est l now c limit"
proof (cases "freshObservedCores l now")
  case None
  then show ?thesis
    using assms by (simp add: leaseDemand_def leaseDemandBasis_def Let_def cpuEstimateBasis_nonneg)
next
  case (Some x)
  then show ?thesis
    using leaseDemand_observed[OF Some] freshObservedCores_nonneg[OF Some] by (metis order_trans)
qed

text \<open>The bounds \<^verbatim>\<open>assertGlobalConfigShape\<close> puts on the preemption share.\<close>

definition valid_share_cfg :: "cfg \<Rightarrow> bool" where
  "valid_share_cfg c \<longleftrightarrow> 0 \<le> preemptibleShare c \<and> preemptibleShare c \<le> 1"

lemma leaseCharge_le: "valid_share_cfg c \<Longrightarrow> 0 \<le> d \<Longrightarrow> leaseCharge l d cand c \<le> d"
  by (auto simp: leaseCharge_def valid_share_cfg_def mult_left_le split: option.splits)

lemma leaseCharge_nonneg: "valid_share_cfg c \<Longrightarrow> 0 \<le> d \<Longrightarrow> 0 \<le> leaseCharge l d cand c"
  by (auto simp: leaseCharge_def valid_share_cfg_def split: option.splits)

lemma projectBusy_shift: "projectBusy est x held e now c bud cand = projectBusy est x held 0 now c bud cand + e"
  by (simp add: projectBusy_def)

lemma nonPreemptibleBusy_nonneg [simp]: "0 \<le> nonPreemptibleBusy b s c"
  by (simp add: nonPreemptibleBusy_def Let_def)

lemma cpuBudget_eq_cpuBudgetCores:
  assumes "valid_budget_cfg c" "0 \<le> sampleCores s" "hostCores h = sampleCores s"
  shows "cpuBudget s c = cpuBudgetCores h c"
proof -
  have "0 \<le> (cpuAdmissionPercent c / 100) * sampleCores s"
    using assms by (simp add: valid_budget_cfg_def)
  then show ?thesis
    using assms(3) by (simp add: cpuBudget_def cpuBudgetCores_def min_def max_def)
qed

section \<open>Lemmas: the decision\<close>

lemma candidate_of_simps [simp]:
  "candRef (candidate_of t) = Some (est_ref t)" "candPriority (candidate_of t) = candidatePriorityOf t"
  "candCores (candidate_of t) = ticket_cpu t"
  by (simp_all add: candidate_of_def)

definition usable_sample :: "cpu_sample option \<Rightarrow> (cpu_sample \<times> jsnum) option" where
  "usable_sample sample = Option.bind sample (\<lambda>s. if stale s then None else map_option (\<lambda>b. (s, b)) (hostBusyCores s))"

lemma evaluateCpuAdmission_unusable:
  assumes "usable_sample sample = None"
  shows "cpuAdmit (evaluateCpuAdmission est sample held k cl bl c now) = (held = [])"
  using assms by (simp add: evaluateCpuAdmission_def usable_sample_def)

lemma evaluateCpuAdmission_usable:
  assumes "usable_sample sample = Some (s, b)"
  shows "cpuAdmit (evaluateCpuAdmission est sample held k cl bl c now) \<longleftrightarrow>
    \<not> cl \<and> \<not> bl \<and>
    projectBusy est (fst (hostCpuLoad b s held c now)) held
      (fst (cpuEstimateBasis est (candRef k) (Some (candCores k)) c (if held \<noteq> [] then Some (cpuBudget s c) else None)))
      now c (Some (cpuBudget s c)) (candPriority k) \<le> cpuBudget s c"
  using assms by (auto simp: evaluateCpuAdmission_def usable_sample_def hostCpuLoad_def Let_def)

lemma evaluateCpuAdmission_figures:
  assumes "usable_sample sample = Some (s, b)"
    and "v = evaluateCpuAdmission est sample held k cl bl c now"
  shows "budget v = Some (cpuBudget s c)"
    "externalBusy v = Some (fst (hostCpuLoad b s held c now))"
    "candidateEstimate v = Some (fst (cpuEstimateBasis est (candRef k) (Some (candCores k)) c (if held \<noteq> [] then Some (cpuBudget s c) else None)))"
    "projectedBusy v = Some (projectBusy est (fst (hostCpuLoad b s held c now)) held (the (candidateEstimate v))
       now c (Some (cpuBudget s c)) (candPriority k))"
  using assms by (auto simp: evaluateCpuAdmission_def usable_sample_def hostCpuLoad_def Let_def)

lemma evaluateCpuAdmission_reason:
  "cpuReason (evaluateCpuAdmission est sample held k cl bl c now) = ProjectedOverBudget \<Longrightarrow>
   usable_sample sample \<noteq> None \<and> \<not> cl \<and> \<not> bl"
  by (auto simp: evaluateCpuAdmission_def usable_sample_def Let_def split: option.splits if_splits prod.splits)

lemma decideAdmission_simps [simp]:
  "dCpuGateClosed (decideAdmission est c t held s mi cl bl now) = cl"
  "dCooldownBlocked (decideAdmission est c t held s mi cl bl now) = bl"
  "dBudget (decideAdmission est c t held s mi cl bl now) = budget (evaluateCpuAdmission est s held (candidate_of t) cl bl c now)"
  "dProjectedBusy (decideAdmission est c t held s mi cl bl now) = projectedBusy (evaluateCpuAdmission est s held (candidate_of t) cl bl c now)"
  "dExternalBusy (decideAdmission est c t held s mi cl bl now) = externalBusy (evaluateCpuAdmission est s held (candidate_of t) cl bl c now)"
  "dCandidateEstimate (decideAdmission est c t held s mi cl bl now) = candidateEstimate (evaluateCpuAdmission est s held (candidate_of t) cl bl c now)"
  "dCpuReason (decideAdmission est c t held s mi cl bl now) = Some (cpuReason (evaluateCpuAdmission est s held (candidate_of t) cl bl c now))"
  by (simp_all add: decideAdmission_def Let_def)

lemma decideAdmission_admit:
  "admit (decideAdmission est c t held s mi cl bl now) \<longleftrightarrow>
     cpuAdmit (evaluateCpuAdmission est s held (candidate_of t) cl bl c now) \<and>
     (mi \<noteq> None \<longrightarrow> memAdmit (evaluateMemoryAdmission mi held (ticket_mem t c) c now))"
  by (auto simp: decideAdmission_def Let_def split: option.splits)

lemma evaluateNewAdmission_fst:
  "fst (evaluateNewAdmission est throws wok g c t held s mi now) =
     (if throws then unavailableDecision held AdmissionError
      else decideAdmission est c t held s mi (gateClosed (fst (sampleAndUpdateCpuGate wok g c s now))) (cooldownActive held c now) now)"
  by (simp add: evaluateNewAdmission_def split: prod.splits)

section \<open>Lemmas: the elastic walk\<close>

lemma elastic_walk_sound:
  "elastic_walk dec n lo = Some (d, g) \<Longrightarrow>
     lo \<le> g \<and> g \<le> n \<and> d = dec g \<and> admit d \<and> (\<forall>k. g < k \<and> k \<le> n \<longrightarrow> \<not> admit (dec k))"
proof (induction dec n lo rule: elastic_walk.induct)
  case (1 dec n lo)
  show ?case
  proof (cases "n < lo \<or> admit (dec n)")
    case True
    then show ?thesis using 1(2) elastic_walk.simps[of dec n lo] by (auto split: if_splits)
  next
    case False
    then have step: "elastic_walk dec n lo = elastic_walk dec (n - 1) lo"
      by (subst elastic_walk.simps) simp
    have "lo \<le> g \<and> g \<le> n - 1 \<and> d = dec g \<and> admit d \<and> (\<forall>k. g < k \<and> k \<le> n - 1 \<longrightarrow> \<not> admit (dec k))"
      using 1 False step by auto
    moreover have "\<not> admit (dec k)" if "g < k" "k \<le> n" for k
      using calculation False that by (cases "k = n") auto
    ultimately show ?thesis by auto
  qed
qed

lemma elastic_walk_complete:
  "elastic_walk dec n lo = None \<Longrightarrow> lo \<le> k \<Longrightarrow> k \<le> n \<Longrightarrow> \<not> admit (dec k)"
proof (induction dec n lo arbitrary: k rule: elastic_walk.induct)
  case (1 dec n lo)
  then show ?case
    using elastic_walk.simps[of dec n lo] by (cases "k = n") (auto split: if_splits)
qed

lemma resized_fields [simp]:
  "eid (resized t n) = eid t" "key (resized t n) = key t" "weight (resized t n) = weight t"
  "res_cpu (resized t n) = Some (of_int n)" "ticket_cpu (resized t n) = of_int n"
  "res_mem (resized t n) = res_mem t" "klass (resized t n) = klass t" "exclusive (resized t n) = exclusive t"
  by (auto simp: resized_def res_cpu_def res_mem_def ticket_cpu_def split: option.splits)

lemma resized_mem [simp]: "ticket_mem (resized t n) c = ticket_mem t c"
  by (simp add: ticket_mem_def ticket_claim_def resolveTicketResources_def Let_def)

lemma admitted_within_budget:
  assumes "cpuAdmit (evaluateCpuAdmission est sample held k cl bl c now)"
  shows "(usable_sample sample = None \<and> held = []) \<or>
    (\<not> cl \<and> \<not> bl \<and> (\<exists>p b. projectedBusy (evaluateCpuAdmission est sample held k cl bl c now) = Some p \<and>
       budget (evaluateCpuAdmission est sample held k cl bl c now) = Some b \<and> p \<le> b))"
proof (cases "usable_sample sample")
  case None
  then show ?thesis using assms evaluateCpuAdmission_unusable by blast
next
  case (Some sb)
  obtain s b where sb: "usable_sample sample = Some (s, b)" using Some by (cases sb) auto
  show ?thesis
    using assms evaluateCpuAdmission_usable[OF sb] evaluateCpuAdmission_figures[OF sb refl, of est held k cl bl c now]
    by auto
qed

lemma cpuOnlyDenial_usable:
  assumes "isCpuOnlyDenial (decideAdmission est c t held sample mi cl bl now)"
  shows "usable_sample sample \<noteq> None \<and> \<not> cl \<and> \<not> bl"
  using assms evaluateCpuAdmission_reason[of est sample held "candidate_of t" cl bl c now]
  by (simp add: isCpuOnlyDenial_def)

section \<open>Properties\<close>

text \<open>
  What an admitted decision guarantees. When \<^verbatim>\<open>evaluateNewAdmission\<close> admits a ticket, either nothing is held and
  there was no usable CPU reading (or the evaluation failed), or the CPU gate is open, no held lease is inside its
  cooldown, and external load plus what every held lease is charged plus the ticket's own estimate is within the CPU
  budget of the sample. If memory was sampled, the reservations and the projected headroom also hold.
\<close>

theorem admission_sound:
  assumes "admit (fst (evaluateNewAdmission est throws wok g c t held sample mi now))"
  shows "(held = [] \<and> (throws \<or> usable_sample sample = None) \<or>
     (\<exists>s b e. usable_sample sample = Some (s, b) \<and> \<not> gateClosed (fst (sampleAndUpdateCpuGate wok g c sample now)) \<and>
        \<not> cooldownActive held c now \<and>
        projectBusy est (fst (hostCpuLoad b s held c now)) held e now c (Some (cpuBudget s c)) (candidatePriorityOf t)
          \<le> cpuBudget s c \<and>
        e = fst (cpuEstimateBasis est (Some (est_ref t)) (Some (ticket_cpu t)) c
              (if held \<noteq> [] then Some (cpuBudget s c) else None)))) \<and>
    (\<not> throws \<and> mi \<noteq> None \<longrightarrow> memAdmit (evaluateMemoryAdmission mi held (ticket_mem t c) c now))"
proof (cases throws)
  case True
  then show ?thesis using assms by (simp add: evaluateNewAdmission_fst unavailableDecision_def)
next
  case False
  let ?cl = "gateClosed (fst (sampleAndUpdateCpuGate wok g c sample now))"
  have cpu: "cpuAdmit (evaluateCpuAdmission est sample held (candidate_of t) ?cl (cooldownActive held c now) c now)"
    and mem: "mi \<noteq> None \<longrightarrow> memAdmit (evaluateMemoryAdmission mi held (ticket_mem t c) c now)"
    using assms False by (auto simp: evaluateNewAdmission_fst decideAdmission_admit)
  show ?thesis
  proof (cases "usable_sample sample")
    case None
    then show ?thesis using cpu mem evaluateCpuAdmission_unusable by blast
  next
    case (Some sb)
    obtain s b where sb: "usable_sample sample = Some (s, b)" using Some by (cases sb) auto
    show ?thesis using cpu mem evaluateCpuAdmission_usable[OF sb] sb by auto
  qed
qed

text \<open>
  The elastic grant is the largest that fits. If the full claim was denied on CPU alone and
  \<^verbatim>\<open>evaluateElasticAdmission\<close> grants \<open>n\<close> cores, then \<open>n\<close> is at least the lane's floor and strictly below its declared
  claim, the complete predicate admits the ticket re-claimed at \<open>n\<close> with the same memory, and it refuses every
  larger whole claim up to the one where the walk starts (the smaller of the declared claim and the headroom).
\<close>

theorem elastic_grant_maximal:
  assumes deny: "full = decideAdmission est c t held sample mi cl bl now"
    and grant: "evaluateElasticAdmission est c t held sample mi full now = Some (d, n)"
  shows "(\<exists>m. res_min t = Some m \<and> m \<le> of_int n) \<and> of_int n < ticket_cpu t \<and> admit d \<and>
    d = decideAdmission est c (resized t n) held sample mi cl bl now \<and>
    (\<forall>k b p e. n < k \<and> of_int k < ticket_cpu t \<and> dBudget full = Some b \<and> dProjectedBusy full = Some p \<and>
       dCandidateEstimate full = Some e \<and> of_int k \<le> b - (p - e) \<longrightarrow>
       \<not> admit (decideAdmission est c (resized t k) held sample mi cl bl now))"
proof -
  obtain b p e hi lo where
      fig: "dBudget full = Some b" "dProjectedBusy full = Some p" "dCandidateEstimate full = Some e" and
      r: "elasticClaimRange (Some (ticket_cpu t)) (res_min t) (Some (b - (p - e))) = Some (hi, lo)" and
      w: "elastic_walk (\<lambda>n. decideAdmission est c (resized t n) held sample mi (dCpuGateClosed full)
                   (dCooldownBlocked full) now) hi lo = Some (d, n)"
    using grant by (auto simp: evaluateElasticAdmission_def split: if_splits option.splits)
  obtain m where m: "res_min t = Some m"
    using r by (auto simp: elasticClaimRange_def split: option.splits)
  note rng = elasticClaimRange_SomeD[OF r[unfolded m]]
  note walk = elastic_walk_sound[OF w]
  have hi: "hi = min (\<lceil>ticket_cpu t\<rceil> - 1) \<lfloor>b - (p - e)\<rfloor>"
    using r m by (auto simp: elasticClaimRange_def Let_def split: if_splits)
  have "(of_int lo :: rat) \<le> of_int n" "(of_int n :: rat) \<le> of_int hi" using walk by auto
  then have lo_hi: "m \<le> of_int n" "of_int n < ticket_cpu t" using rng by linarith+
  have "\<not> admit (decideAdmission est c (resized t k) held sample mi cl bl now)"
    if "n < k" "of_int k < ticket_cpu t" "of_int k \<le> b - (p - e)" for k
  proof -
    have "k \<le> hi" using that hi by (simp add: le_floor_iff less_ceiling_iff)
    then show ?thesis using walk that(1) deny by auto
  qed
  with m lo_hi walk deny fig show ?thesis by auto
qed

text \<open>
  Preflight and admission use one CPU budget: on a host whose capacity is what the sampler reports, the budget
  \<^verbatim>\<open>evaluateCpuAdmission\<close> compares against is the budget \<^verbatim>\<open>checkResourceBudget\<close> refused oversized claims by, so a claim that
  passed preflight fits an idle host: with nothing held and no external load the projection admits it.
\<close>

theorem preflight_claim_fits_idle_host:
  assumes cfg: "valid_budget_cfg c" and act: "schedulerMode c = Active"
    and host: "0 \<le> sampleCores s" "hostCores h = sampleCores s"
    and ok: "checkResourceBudget r c h" and t: "resources t = Some r" "cpuCores r = Some x" "minCpuCores r = None" "0 \<le> x"
    and sample: "stale s = False" "hostBusyCores s = Some 0"
  shows "cpuAdmit (evaluateCpuAdmission est (Some s) [] (candidate_of t) False False c now)"
proof -
  have us: "usable_sample (Some s) = Some (s, 0)" using sample by (simp add: usable_sample_def)
  have x: "x \<le> cpuBudget s c"
    using ok act t cpuBudget_eq_cpuBudgetCores[OF cfg host] by (simp add: checkResourceBudget_def Let_def)
  have "fst (cpuEstimateBasis est (Some (est_ref t)) (Some (ticket_cpu t)) c None) \<le> x"
    using cpuEstimateBasis_no_limit[of est "Some (est_ref t)" "Some (ticket_cpu t)" c] t
    by (simp add: ticket_cpu_def res_cpu_def)
  moreover have "nonPreemptibleBusy 0 s c = 0" by (simp add: nonPreemptibleBusy_def Let_def)
  ultimately show ?thesis
    using x evaluateCpuAdmission_usable[OF us, of est "[]" "candidate_of t" False False c now]
    by (simp add: projectBusy_def hostCpuLoad_def)
qed

section \<open>Witnesses\<close>

definition example_sample :: cpu_sample where
  "example_sample = \<lparr>hostBusyCores = Some 0, sampleCores = 8, preemptibleBusyCores = None, stale = False, reused = False,
     sampledAt = Some 1000000\<rparr>"

definition example_mem :: mem_info where
  "example_mem = \<lparr>availableBytes = Some 12884901888, totalBytes = Some 17179869184, macCritical = False\<rparr>"

definition no_estimates :: estimates where
  "no_estimates = (\<lambda>_. None)"

theorem admission_sound_witness:
  "admit (fst (evaluateNewAdmission no_estimates False True None default_cfg example_ticket [example_lease]
     (Some example_sample) (Some example_mem) 1000000)) \<and>
   \<not> cooldownActive [example_lease] default_cfg 1000000"
proof -
  have h: "admit (fst (evaluateNewAdmission no_estimates False True None default_cfg example_ticket [example_lease]
     (Some example_sample) (Some example_mem) 1000000))"
    by code_simp
  show ?thesis using h admission_sound[OF h] by auto
qed

definition elastic_example_ticket :: ticket where
  "elastic_example_ticket = example_ticket\<lparr>resources := Some \<lparr>cpuCores = Some 6, minCpuCores = Some 2, memoryBytes = Some 1073741824\<rparr>\<rparr>"

theorem elastic_grant_maximal_witness:
  "\<exists>d. evaluateElasticAdmission no_estimates default_cfg elastic_example_ticket [example_lease] (Some example_sample) (Some example_mem)
      (decideAdmission no_estimates default_cfg elastic_example_ticket [example_lease] (Some example_sample) (Some example_mem) False False 1000000)
      1000000 = Some (d, 4) \<and> admit d"
proof -
  let ?full = "decideAdmission no_estimates default_cfg elastic_example_ticket [example_lease] (Some example_sample) (Some example_mem) False False 1000000"
  have "map_option snd (evaluateElasticAdmission no_estimates default_cfg elastic_example_ticket [example_lease]
      (Some example_sample) (Some example_mem) ?full 1000000) = Some 4"
    by code_simp
  then obtain d where d: "evaluateElasticAdmission no_estimates default_cfg elastic_example_ticket [example_lease]
      (Some example_sample) (Some example_mem) ?full 1000000 = Some (d, 4)"
    by auto
  show ?thesis using d elastic_grant_maximal[OF refl d] by blast
qed

theorem preflight_claim_fits_witness:
  "cpuAdmit (evaluateCpuAdmission no_estimates (Some example_sample) [] (candidate_of (example_ticket\<lparr>resources := Some
     \<lparr>cpuCores = Some 6, minCpuCores = None, memoryBytes = Some 1073741824\<rparr>\<rparr>)) False False default_cfg 0)"
proof -
  have ok: "checkResourceBudget \<lparr>cpuCores = Some 6, minCpuCores = None, memoryBytes = Some 1073741824\<rparr> default_cfg example_host"
    by code_simp
  show ?thesis
    by (rule preflight_claim_fits_idle_host[OF valid_budget_default _ _ _ ok, where x = 6])
      (simp_all add: example_sample_def example_host_def default_cfg_def)
qed

end
