(* ===== verification/Skips.thy ===== *)
theory Skips
  imports Fairness Admission
begin

text \<open>
  The skip logic of src/scheduler.js: how often a head that cannot start has been passed, per kind of block, and the
  resource record that opens backfill past a head denied on CPU or memory and then reserves for it. Every function reads
  and writes through a store (theory Fairness). Counting a skip is fail-closed: a failed write refuses the skip, so the
  result is an option. Log lines, which nothing reads back, are omitted.
\<close>

section \<open>The conflict record\<close>

record skip_state =
  sHead :: "string option"
  sCount :: jsnum
  sBlockedSince :: "jsnum option"
  sPhase :: "string option"

definition no_skip_state :: skip_state where
  "no_skip_state = \<lparr>sHead = None, sCount = 0, sBlockedSince = None, sPhase = None\<rparr>"

definition skip_state_of :: "skip_raw option \<Rightarrow> skip_state" where
  "skip_state_of raw =
     (case raw of
        None \<Rightarrow> no_skip_state
      | Some r \<Rightarrow>
          (case (rHeadId r, rCount r) of
             (Some h, Some n) \<Rightarrow>
               if n < 0 then no_skip_state
               else \<lparr>sHead = Some h, sCount = n, sBlockedSince = jf_opt (rBlockedSince r),
                      sPhase = jf_opt (loggedPhase (rBody r))\<rparr>
           | _ \<Rightarrow> no_skip_state))"

definition readSkipState :: "store \<Rightarrow> string \<Rightarrow> skip_state" where
  "readSkipState st headId = skip_state_of (store_read st Conflict headId)"

definition conflict_raw :: "string \<Rightarrow> jsnum \<Rightarrow> jsnum \<Rightarrow> string option \<Rightarrow> skip_raw" where
  "conflict_raw headId n since phase = \<lparr>rHeadId = Some headId, rCount = Some n, rBlockedSince = Val since,
     rBody = empty_body\<lparr>loggedPhase := jf_of phase\<rparr>\<rparr>"

definition next_skip :: "skip_state \<Rightarrow> string \<Rightarrow> jsnum \<Rightarrow> skip_raw" where
  "next_skip prev headId now =
     (let sameHead = (sHead prev = Some headId)
      in conflict_raw headId (if sameHead then sCount prev + 1 else 1)
           (if sameHead then nullish (sBlockedSince prev) now else now)
           (if sameHead then sPhase prev else None))"

definition recordSkip :: "bool \<Rightarrow> store \<Rightarrow> string \<Rightarrow> jsnum \<Rightarrow> store option" where
  "recordSkip wok st headId now = store_write wok st Conflict headId (next_skip (readSkipState st headId) headId now)"

datatype head_phase = Blocked | Exhausted | Resumed

fun phase_name :: "head_phase \<Rightarrow> string" where
  "phase_name Blocked = ''blocked''"
| "phase_name Exhausted = ''exhausted''"
| "phase_name Resumed = ''resumed''"

definition resolveHeadBlock ::
  "bool \<Rightarrow> store \<Rightarrow> cfg \<Rightarrow> string \<Rightarrow> skip_state \<Rightarrow> jsnum \<Rightarrow> head_phase \<times> store" where
  "resolveHeadBlock wok st c headId skipState now =
     (let sameHead = (sHead skipState = Some headId);
          skipCount = (if sameHead then sCount skipState else 0);
          known = sameHead \<and> sBlockedSince skipState \<noteq> None;
          since = (if known then nullish (sBlockedSince skipState) now else now);
          phase = (if skipCount < conflictSkipLimit c then Blocked
                   else if now - since < headBlockGraceMs c then Exhausted else Resumed);
          prevPhase = (if sameHead then sPhase skipState else None)
      in (phase, if \<not> known \<or> Some (phase_name phase) \<noteq> prevPhase
                 then store_try wok st Conflict headId (conflict_raw headId skipCount since (Some (phase_name phase)))
                 else st))"

section \<open>The capacity record\<close>

definition readCapacitySkipState :: "store \<Rightarrow> string \<Rightarrow> skip_state" where
  "readCapacitySkipState st headId = (skip_state_of (store_read st Capacity headId))\<lparr>sBlockedSince := None\<rparr>"

definition capacity_raw :: "string \<Rightarrow> jsnum \<Rightarrow> string option \<Rightarrow> skip_raw" where
  "capacity_raw headId n phase = \<lparr>rHeadId = Some headId, rCount = Some n, rBlockedSince = Absent,
     rBody = empty_body\<lparr>loggedPhase := jf_of phase\<rparr>\<rparr>"

definition next_capacity_skip :: "skip_state \<Rightarrow> string \<Rightarrow> skip_raw" where
  "next_capacity_skip prev headId =
     (let sameHead = (sHead prev = Some headId)
      in capacity_raw headId (if sameHead then sCount prev + 1 else 1) (if sameHead then sPhase prev else None))"

definition recordCapacitySkip :: "bool \<Rightarrow> store \<Rightarrow> string \<Rightarrow> store option" where
  "recordCapacitySkip wok st headId =
     store_write wok st Capacity headId (next_capacity_skip (readCapacitySkipState st headId) headId)"

definition resolveCapacityBlock :: "bool \<Rightarrow> store \<Rightarrow> cfg \<Rightarrow> string \<Rightarrow> jsnum \<Rightarrow> head_phase \<times> store" where
  "resolveCapacityBlock wok st c headId skipCount =
     (let phase = (if skipCount < conflictSkipLimit c then Blocked else Exhausted);
          s = readCapacitySkipState st headId;
          prevPhase = (if sHead s = Some headId then sPhase s else None)
      in (phase, if Some (phase_name phase) \<noteq> prevPhase
                 then store_try wok st Capacity headId (capacity_raw headId skipCount (Some (phase_name phase))) else st))"

section \<open>The resource record\<close>

text \<open>The sanitized record. \<open>rrFutile\<close> is the cause, the head's claim and when the verdict was sampled.\<close>

record resource_rec =
  rrHead :: string
  rrCount :: jsnum
  rrReserved :: bool
  rrInScope :: bool
  rrBehindConflict :: bool
  rrDeniedAt :: jsnum
  rrBudget :: jsnum
  rrExternal :: jsnum
  rrMem :: "(jsnum \<times> jsnum) option"
  rrFutile :: "(string \<times> jsnum option \<times> jsnum) option"
  rrSeq :: "jsnum option"
  rrYields :: "jsnum option"

definition resource_rec_of :: "skip_raw option \<Rightarrow> resource_rec option" where
  "resource_rec_of raw =
     Option.bind raw (\<lambda>r.
     case (rHeadId r, rCount r, jf_opt (reserved (rBody r)), jf_opt (bBudget (rBody r)), jf_opt (bExternalBusy (rBody r)), jf_opt (deniedAt (rBody r))) of
       (Some h, Some n, Some res, Some b, Some e, Some d) \<Rightarrow>
         if \<not> is_integer n \<or> n < 0 then None
         else Some \<lparr>rrHead = h, rrCount = n, rrReserved = res, rrInScope = (inScope (rBody r) = Val True),
           rrBehindConflict = (behindConflict (rBody r) = Val True), rrDeniedAt = d, rrBudget = b, rrExternal = e,
           rrMem = memSnapshot (rBody r),
           rrFutile = map_option (\<lambda>cause. (cause, headCpu (rBody r), nullish (futileAt (rBody r)) 0)) (futile (rBody r)),
           rrSeq = (case reservationSeq (rBody r) of Val s \<Rightarrow> if is_integer s then Some s else None | _ \<Rightarrow> None),
           rrYields = (case yields (rBody r) of Some y \<Rightarrow> if is_integer y \<and> y > 0 then Some y else None | None \<Rightarrow> None)\<rparr>
     | _ \<Rightarrow> None)"

definition readResourceSkipState :: "store \<Rightarrow> string \<Rightarrow> resource_rec option" where
  "readResourceSkipState st headId = resource_rec_of (store_read st Resource headId)"

text \<open>Writing a sanitized record back (\<^verbatim>\<open>{ ...record }\<close>).\<close>

definition resource_raw :: "resource_rec \<Rightarrow> skip_raw" where
  "resource_raw r = \<lparr>rHeadId = Some (rrHead r), rCount = Some (rrCount r), rBlockedSince = Absent,
     rBody = \<lparr>loggedPhase = Absent, reserved = Val (rrReserved r), reservationSeq = jf_of (rrSeq r), inScope = Val (rrInScope r),
       behindConflict = Val (rrBehindConflict r), deniedAt = Val (rrDeniedAt r), bBudget = Val (rrBudget r),
       bExternalBusy = Val (rrExternal r), memSnapshot = rrMem r, futile = map_option fst (rrFutile r),
       headCpu = Option.bind (rrFutile r) (fst \<circ> snd), futileAt = map_option (snd \<circ> snd) (rrFutile r), yields = rrYields r\<rparr>\<rparr>"

definition resourceRecordFor :: "store \<Rightarrow> cfg \<Rightarrow> string \<Rightarrow> bool \<Rightarrow> resource_rec option" where
  "resourceRecordFor st c headId behind =
     (if schedulerMode c \<noteq> Active \<or> \<not> resourceSkipLimit c > 0 then None
      else case readResourceSkipState st headId of
          Some r \<Rightarrow> if rrHead r = headId \<and> rrBehindConflict r = behind then Some r else None
        | None \<Rightarrow> None)"

definition futileFresh :: "resource_rec option \<Rightarrow> cfg \<Rightarrow> jsnum \<Rightarrow> bool" where
  "futileFresh r c now =
     (case r of
        Some x \<Rightarrow> rrInScope x \<and> (case rrFutile x of Some (_, _, a) \<Rightarrow> now - a \<le> 2 * sampleMs c | None \<Rightarrow> False)
      | None \<Rightarrow> False)"

definition resourceBackfillOpen :: "resource_rec option \<Rightarrow> cfg \<Rightarrow> jsnum \<Rightarrow> bool" where
  "resourceBackfillOpen r c now =
     (case r of
        Some x \<Rightarrow> rrInScope x \<and> (futileFresh r c now \<or> (\<not> rrReserved x \<and> rrCount x < resourceSkipLimit c))
      | None \<Rightarrow> False)"

definition resourceReserved :: "resource_rec option \<Rightarrow> cfg \<Rightarrow> jsnum \<Rightarrow> bool" where
  "resourceReserved r c now = (case r of Some x \<Rightarrow> rrReserved x \<and> \<not> futileFresh r c now | None \<Rightarrow> False)"

text \<open>
  \<^verbatim>\<open>recordResourceDenial\<close>. \<open>futility\<close> is the cause, the head's claim and the sample time. The budget and the external load are
  written as the decision has them, which is null when there was no usable sample.
\<close>

definition denial_raw ::
  "resource_rec option \<Rightarrow> string \<Rightarrow> decision \<Rightarrow> jsnum \<Rightarrow> bool \<Rightarrow> (string \<times> jsnum \<times> jsnum) option \<Rightarrow> mem_info option \<Rightarrow> skip_raw" where
  "denial_raw prev headId d now behind futility mi =
     (let keep = (case prev of Some p \<Rightarrow> if rrHead p = headId \<and> futility = None then Some p else None | None \<Rightarrow> None)
      in \<lparr>rHeadId = Some headId, rCount = Some (case keep of Some p \<Rightarrow> rrCount p | None \<Rightarrow> 0), rBlockedSince = Absent,
          rBody = \<lparr>loggedPhase = Absent,
            reserved = Val (case keep of Some p \<Rightarrow> rrReserved p | None \<Rightarrow> False),
            reservationSeq = jf_of (Option.bind keep rrSeq), inScope = Val True,
            behindConflict = (if behind then Val True else Absent), deniedAt = Val now,
            bBudget = jf_of (dBudget d), bExternalBusy = jf_of (dExternalBusy d),
            memSnapshot = (case mi of
               Some i \<Rightarrow> (case (availableBytes i, totalBytes i) of (Some a, Some t) \<Rightarrow> Some (a, t) | _ \<Rightarrow> None)
             | None \<Rightarrow> None),
            futile = map_option fst futility, headCpu = map_option (fst \<circ> snd) futility,
            futileAt = map_option (snd \<circ> snd) futility, yields = Option.bind keep rrYields\<rparr>\<rparr>)"

definition recordResourceDenial ::
  "bool \<Rightarrow> store \<Rightarrow> cfg \<Rightarrow> string \<Rightarrow> decision \<Rightarrow> jsnum \<Rightarrow> bool \<Rightarrow> (string \<times> jsnum \<times> jsnum) option \<Rightarrow> mem_info option \<Rightarrow> store" where
  "recordResourceDenial wok st c headId d now behind futility mi =
     (if \<not> resourceSkipLimit c > 0 then st
      else store_try wok st Resource headId (denial_raw (readResourceSkipState st headId) headId d now behind futility mi))"

definition markResourceOutOfScope :: "bool \<Rightarrow> store \<Rightarrow> string \<Rightarrow> jsnum \<Rightarrow> store" where
  "markResourceOutOfScope wok st headId now =
     (case readResourceSkipState st headId of
        Some p \<Rightarrow> if rrHead p \<noteq> headId \<or> \<not> rrInScope p then st
                  else store_try wok st Resource headId (resource_raw (p\<lparr>rrInScope := False, rrDeniedAt := now\<rparr>))
      | None \<Rightarrow> st)"

text \<open>\<^verbatim>\<open>nextSeq\<close>: the queue counter; \<open>None\<close> is a counter that could not be written.\<close>

definition nextSeq :: "bool \<Rightarrow> jsnum option \<Rightarrow> jsnum option" where
  "nextSeq wok file = (if wok then Some (nullish file 0 + 1) else None)"

text \<open>
  \<^verbatim>\<open>recordResourceBackfill\<close>: the store with the backfill counted, or \<open>None\<close> (refuse it), and the counter file. Behind the
  fence the backfill that uses up the allowance draws a sequence number for the reservation it latches.
\<close>

definition recordResourceBackfill ::
  "bool \<Rightarrow> bool \<Rightarrow> store \<Rightarrow> jsnum option \<Rightarrow> cfg \<Rightarrow> resource_rec \<Rightarrow> store option \<times> jsnum option" where
  "recordResourceBackfill seqok wok st seqfile c r =
     (let count = rrCount r + 1;
          res = (count \<ge> resourceSkipLimit c);
          next = r\<lparr>rrCount := count, rrReserved := res\<rparr>
      in if store_v2 st \<and> res \<and> \<not> rrReserved r
         then (case nextSeq seqok seqfile of
                 None \<Rightarrow> (None, seqfile)
               | Some n \<Rightarrow> (store_write wok st Resource (rrHead r) (resource_raw (next\<lparr>rrSeq := Some n\<rparr>)), Some n))
         else (store_write wok st Resource (rrHead r) (resource_raw next), seqfile))"

definition recordPriorityYield :: "bool \<Rightarrow> store \<Rightarrow> resource_rec \<Rightarrow> store option" where
  "recordPriorityYield wok st r =
     store_write wok st Resource (rrHead r) (resource_raw (r\<lparr>rrYields := Some (nullish (rrYields r) 0 + 1)\<rparr>))"

section \<open>Counting, over any store\<close>

text \<open>The skips charged to a head: zero when the record is another head's.\<close>

definition charged :: "skip_state \<Rightarrow> string \<Rightarrow> jsnum" where
  "charged s headId = (if sHead s = Some headId then sCount s else 0)"

lemma jf_opt_of [simp]: "jf_opt (jf_of x) = x"
  by (cases x) auto

lemma skip_state_count_nonneg [simp]: "0 \<le> sCount (skip_state_of raw)"
  by (auto simp: skip_state_of_def no_skip_state_def split: option.splits)

lemma charged_nonneg [simp]: "0 \<le> charged (skip_state_of raw) h"
  by (simp add: charged_def)

lemma skip_state_of_conflict [simp]:
  "0 \<le> n \<Longrightarrow> skip_state_of (Some (conflict_raw h n since ph)) = \<lparr>sHead = Some h, sCount = n, sBlockedSince = Some since, sPhase = ph\<rparr>"
  by (simp add: skip_state_of_def conflict_raw_def)

lemma skip_state_of_capacity [simp]:
  "0 \<le> n \<Longrightarrow> skip_state_of (Some (capacity_raw h n ph)) = \<lparr>sHead = Some h, sCount = n, sBlockedSince = None, sPhase = ph\<rparr>"
  by (simp add: skip_state_of_def capacity_raw_def)

lemma owned_raws [simp]:
  "owned Conflict h (conflict_raw h n since ph)" "owned Capacity h (capacity_raw h n ph)"
  "owned Resource (rrHead r) (resource_raw r)"
  by (simp_all add: owned_def conflict_raw_def capacity_raw_def resource_raw_def)

lemma owned_denial [simp]: "owned Resource h (denial_raw prev h d now b f mi)"
  by (simp add: owned_def denial_raw_def Let_def)

lemma next_skip_eq:
  "next_skip s h now = conflict_raw h (charged s h + 1)
     (if sHead s = Some h then nullish (sBlockedSince s) now else now) (if sHead s = Some h then sPhase s else None)"
  by (simp add: next_skip_def charged_def)

lemma next_capacity_skip_eq:
  "next_capacity_skip s h = capacity_raw h (charged s h + 1) (if sHead s = Some h then sPhase s else None)"
  by (simp add: next_capacity_skip_def charged_def)

lemma resource_rec_of_raw:
  assumes "is_integer (rrCount r)" "0 \<le> rrCount r" "\<And>s. rrSeq r = Some s \<Longrightarrow> is_integer s"
    "\<And>y. rrYields r = Some y \<Longrightarrow> is_integer y \<and> y > 0"
  shows "resource_rec_of (Some (resource_raw r)) = Some r"
  using assms
  by (cases "rrFutile r"; cases "rrSeq r"; cases "rrYields r") (auto simp: resource_rec_of_def resource_raw_def)

context skip_store
begin

lemma skip_is_counted:
  assumes "wr w s Conflict h (next_skip (skip_state_of (rd s Conflict h)) h now) = Some s'"
  shows "charged (skip_state_of (rd s' Conflict h)) h = charged (skip_state_of (rd s Conflict h)) h + 1"
proof -
  have "rd s' Conflict h = Some (next_skip (skip_state_of (rd s Conflict h)) h now)"
    using rd_wr[OF assms] by (simp add: next_skip_eq)
  moreover have "0 \<le> charged (skip_state_of (rd s Conflict h)) h + 1"
    by (simp add: add_nonneg_nonneg)
  ultimately show ?thesis
    by (simp add: next_skip_eq) (simp add: charged_def[of "\<lparr>sHead = _, sCount = _, sBlockedSince = _, sPhase = _\<rparr>"])
qed

lemma capacity_skip_is_counted:
  assumes "wr w s Capacity h (next_capacity_skip (skip_state_of (rd s Capacity h)) h) = Some s'"
  shows "charged (skip_state_of (rd s' Capacity h)) h = charged (skip_state_of (rd s Capacity h)) h + 1"
proof -
  have "rd s' Capacity h = Some (next_capacity_skip (skip_state_of (rd s Capacity h)) h)"
    using rd_wr[OF assms] by (simp add: next_capacity_skip_eq)
  moreover have "0 \<le> charged (skip_state_of (rd s Capacity h)) h + 1"
    by (simp add: add_nonneg_nonneg)
  ultimately show ?thesis
    by (simp add: next_capacity_skip_eq) (simp add: charged_def[of "\<lparr>sHead = _, sCount = _, sBlockedSince = _, sPhase = _\<rparr>"])
qed

end

context per_ticket_store
begin

lemma other_heads_keep_their_count:
  assumes "wr w s k h r = Some s'" "h' \<noteq> h"
  shows "charged (skip_state_of (rd s' Conflict h')) h' = charged (skip_state_of (rd s Conflict h')) h'"
  using rd_wr_head[OF assms] by simp

end

section \<open>Lemmas\<close>

lemma recordSkip_counts:
  assumes "recordSkip wok st h now = Some st'"
  shows "charged (readSkipState st' h) h = charged (readSkipState st h) h + 1"
  using any_store.skip_is_counted assms unfolding recordSkip_def readSkipState_def by blast

lemma recordSkip_fail_closed: "recordSkip False st h now = None"
  by (simp add: recordSkip_def any_store.wr_fails)

lemma charged_capacity [simp]: "charged (s\<lparr>sBlockedSince := x\<rparr>) h = charged s h"
  by (simp add: charged_def)

lemma next_capacity_skip_since [simp]: "next_capacity_skip (s\<lparr>sBlockedSince := x\<rparr>) h = next_capacity_skip s h"
  by (simp add: next_capacity_skip_def Let_def)

lemma recordCapacitySkip_counts:
  assumes "recordCapacitySkip wok st h = Some st'"
  shows "charged (readCapacitySkipState st' h) h = charged (readCapacitySkipState st h) h + 1"
  using any_store.capacity_skip_is_counted[of wok st h st'] assms
  by (simp add: recordCapacitySkip_def readCapacitySkipState_def)

lemma store_try_read:
  assumes "owned k h raw"
  shows "store_read (store_try wok st k h raw) k h = (if wok then Some raw else store_read st k h)"
  using any_store.rd_wr[OF _ assms, of wok st] any_store.wr_succeeds[of st k h raw] any_store.wr_fails[of st k h raw]
  by (cases wok) (auto simp: store_try_def)

lemma store_try_other: "k' \<noteq> k \<Longrightarrow> store_read (store_try wok st k h raw) k' h' = store_read st k' h'"
  using any_store.rd_wr_kind[of wok st k h raw] by (cases "store_write wok st k h raw") (auto simp: store_try_def)

lemma store_try_v2 [simp]: "store_v2 (store_try wok st k h raw) = store_v2 st"
  by (cases "store_write wok st k h raw") (auto simp: store_try_def)

text \<open>Resolving the block never loses or gains a skip, and never makes the block older than it is.\<close>

lemma resolveHeadBlock_charged:
  "charged (readSkipState (snd (resolveHeadBlock wok st c h (readSkipState st h) now)) h) h = charged (readSkipState st h) h"
  by (simp add: resolveHeadBlock_def Let_def readSkipState_def store_try_read)
    (simp add: charged_def)

lemma resolveHeadBlock_phase:
  "fst (resolveHeadBlock wok st c h s now) = Exhausted \<longleftrightarrow>
     conflictSkipLimit c \<le> charged s h \<and>
     now - (if sHead s = Some h then nullish (sBlockedSince s) now else now) < headBlockGraceMs c"
  by (auto simp: resolveHeadBlock_def Let_def charged_def nullish_def split: option.splits)

lemma resolveCapacityBlock_phase:
  "fst (resolveCapacityBlock wok st c h n) = Exhausted \<longleftrightarrow> conflictSkipLimit c \<le> n"
  by (simp add: resolveCapacityBlock_def Let_def)

section \<open>Validity of what the skip logic writes\<close>

definition valid_resource :: "resource_rec \<Rightarrow> bool" where
  "valid_resource r \<longleftrightarrow> is_integer (rrCount r) \<and> 0 \<le> rrCount r \<and> (rrReserved r \<longrightarrow> rrSeq r \<noteq> None) \<and>
     (\<forall>s. rrSeq r = Some s \<longrightarrow> is_integer s \<and> 0 \<le> s)"

lemma resource_raw_valid:
  assumes "valid_resource r"
  shows "validRecord Resource (toRecord Resource (resource_raw r))"
  using assms
  by (cases "rrSeq r") (auto simp: valid_resource_def validRecord_def field_types_def toRecord_def resource_raw_def)

lemma conflict_raw_valid:
  "is_integer n \<Longrightarrow> 0 \<le> n \<Longrightarrow> validRecord Conflict (toRecord Conflict (conflict_raw h n since ph))"
  by (cases ph) (auto simp: validRecord_def field_types_def toRecord_def conflict_raw_def empty_body_def)

lemma capacity_raw_valid:
  "is_integer n \<Longrightarrow> 0 \<le> n \<Longrightarrow> validRecord Capacity (toRecord Capacity (capacity_raw h n ph))"
  by (cases ph) (auto simp: validRecord_def field_types_def toRecord_def capacity_raw_def empty_body_def)

lemma fair_read_valid:
  assumes "validFairness ts" "fair_read ts k h = Some raw"
  shows "\<exists>r. validRecord k r \<and> raw = toRaw k h r"
  using assms per_of_valid by (force simp: fair_read_per dest: map_of_SomeD)

lemma readResource_valid:
  assumes "validFairness ts" "readResourceSkipState (FairStore ts) h = Some r"
  shows "valid_resource r \<and> rrHead r = h"
proof -
  obtain raw where raw: "fair_read ts Resource h = Some raw" "resource_rec_of (Some raw) = Some r"
    using assms(2) by (cases "fair_read ts Resource h") (auto simp: readResourceSkipState_def resource_rec_of_def)
  obtain f where f: "validRecord Resource f" "raw = toRaw Resource h f"
    using fair_read_valid[OF assms(1) raw(1)] by blast
  have "reserved (fBody f) = Val True" if "jf_opt (reserved (fBody f)) = Some True"
    using that by (cases "reserved (fBody f)") auto
  then show ?thesis
    using raw(2) f
    by (cases "reservationSeq (fBody f)")
      (auto simp: resource_rec_of_def toRaw_def validRecord_def field_types_def valid_resource_def
        split: option.splits if_splits)
qed

lemma store_try_valid:
  assumes "valid_store st" "store_v2 st \<Longrightarrow> validRecord k (toRecord k raw)"
  shows "valid_store (store_try wok st k h raw)"
proof (cases "store_write wok st k h raw")
  case None
  then show ?thesis using assms(1) by (simp add: store_try_def)
next
  case (Some st')
  then show ?thesis
    using assms store_write_valid[OF assms(1) Some] by (cases st; cases st') (auto simp: store_try_def)
qed

section \<open>Properties\<close>

text \<open>
  Counting a skip is exact and fail-closed, on either store. If \<^verbatim>\<open>recordSkip\<close> reports success the head's charge read back
  is exactly one more than before and the capacity and resource records are untouched; if the write fails nothing is
  returned and the caller refuses the start. The same holds of \<^verbatim>\<open>recordCapacitySkip\<close>.
\<close>

theorem skips_counted_fail_closed:
  "(recordSkip wok st h now = None \<longleftrightarrow> \<not> wok) \<and> (recordCapacitySkip wok st h = None \<longleftrightarrow> \<not> wok) \<and>
   (\<forall>st'. recordSkip wok st h now = Some st' \<longrightarrow>
      charged (readSkipState st' h) h = charged (readSkipState st h) h + 1 \<and>
      readCapacitySkipState st' h = readCapacitySkipState st h \<and> readResourceSkipState st' h = readResourceSkipState st h) \<and>
   (\<forall>st'. recordCapacitySkip wok st h = Some st' \<longrightarrow>
      charged (readCapacitySkipState st' h) h = charged (readCapacitySkipState st h) h + 1 \<and>
      readSkipState st' h = readSkipState st h \<and> readResourceSkipState st' h = readResourceSkipState st h)"
proof -
  have fail: "(recordSkip wok st h now = None) = (\<not> wok)" "(recordCapacitySkip wok st h = None) = (\<not> wok)"
    by (simp_all add: recordSkip_def recordCapacitySkip_def any_store.wr_iff)
  have "readCapacitySkipState st' h = readCapacitySkipState st h \<and> readResourceSkipState st' h = readResourceSkipState st h"
    if "recordSkip wok st h now = Some st'" for st'
    using any_store.rd_wr_kind[OF that[unfolded recordSkip_def]]
    by (simp add: readCapacitySkipState_def readResourceSkipState_def)
  moreover have "readSkipState st' h = readSkipState st h \<and> readResourceSkipState st' h = readResourceSkipState st h"
    if "recordCapacitySkip wok st h = Some st'" for st'
    using any_store.rd_wr_kind[OF that[unfolded recordCapacitySkip_def]]
    by (simp add: readSkipState_def readResourceSkipState_def)
  ultimately show ?thesis
    using fail recordSkip_counts recordCapacitySkip_counts by blast
qed

theorem skips_counted_witness:
  "\<exists>st'. recordSkip True (FairStore []) ''t1'' 7 = Some st' \<and> charged (readSkipState st' ''t1'') ''t1'' = 1"
proof -
  obtain st' where st': "recordSkip True (FairStore []) ''t1'' 7 = Some st'"
    using skips_counted_fail_closed[of True "FairStore []" "''t1''" 7] by auto
  moreover have "charged (readSkipState (FairStore []) ''t1'') ''t1'' = 0" by code_simp
  ultimately show ?thesis using skips_counted_fail_closed[of True "FairStore []" "''t1''" 7] by auto
qed

text \<open>
  C37. A denial recorded without a CPU sample destroys the fairness file. \<^verbatim>\<open>recordResourceDenial\<close> writes the decision's budget as it
  is, and the elastic-below-floor denial calls it also when the sample was unavailable and the budget is null. The
  validator requires a finite budget in every resource record, so the next evaluation rejects the whole file as
  \<^verbatim>\<open>fairness-bad-schema\<close> and, with a valid fence, runs the legacy scheduler: every ticket's counters and reservations are lost.
\<close>

theorem denial_without_sample_poisons_fairness:
  assumes "resourceSkipLimit c > 0" and "dBudget d = None"
  shows "\<exists>ts'. recordResourceDenial True (FairStore ts) c h d now b f mi = FairStore ts' \<and>
    resolveScheduler (FenceJson (Some m) (Some 2)) (FairTickets ts') = Inl FairnessBadSchema"
proof -
  let ?raw = "denial_raw (readResourceSkipState (FairStore ts) h) h d now b f mi"
  let ?ts = "AList.update h (AList.update Resource (toRecord Resource ?raw) (per_of ts h)) ts"
  have bad: "\<not> validRecord Resource (toRecord Resource ?raw)"
    using assms(2) by (simp add: validRecord_def field_types_def toRecord_def denial_raw_def Let_def)
  have "(Resource, toRecord Resource ?raw) \<in> set (AList.update Resource (toRecord Resource ?raw) (per_of ts h))"
    by (metis map_of_SomeD update_Some_unfold)
  moreover have "(h, AList.update Resource (toRecord Resource ?raw) (per_of ts h)) \<in> set ?ts"
    by (metis map_of_SomeD update_Some_unfold)
  ultimately have "\<not> validFairness ?ts"
    using bad unfolding validFairness_iff by blast
  then show ?thesis
    using assms(1)
    by (simp add: recordResourceDenial_def store_try_def fair_write_def resolveScheduler_def readSchedulerFence_def loadFairness_def)
qed

theorem denial_poisons_witness:
  "validFairness [(''t2'', [(Conflict, toRecord Conflict example_raw)])] \<and>
   (\<exists>ts'. recordResourceDenial True (FairStore [(''t2'', [(Conflict, toRecord Conflict example_raw)])]) default_cfg ''t1''
        (decideAdmission no_estimates default_cfg elastic_example_ticket [] None None False False 0) 0 False
        (Some (''elastic-below-floor'', 2, 0)) None = FairStore ts' \<and>
      resolveScheduler (FenceJson (Some 0) (Some 2)) (FairTickets ts') = Inl FairnessBadSchema)"
proof -
  have v: "validFairness [(''t2'', [(Conflict, toRecord Conflict example_raw)])]" by code_simp
  have b: "dBudget (decideAdmission no_estimates default_cfg elastic_example_ticket [] None None False False 0) = None"
    by (simp add: evaluateCpuAdmission_def)
  have l: "resourceSkipLimit default_cfg > 0" by (simp add: default_cfg_def)
  show ?thesis using v denial_without_sample_poisons_fairness[OF l b] by blast
qed

end
