(* ===== verification/Exclusive.thy ===== *)
theory Exclusive
  imports Resources
begin

text \<open>
  Exclusive lanes (src/exclusive.js): the predicates, the one deny rule, the queued-weight clamp and the lease
  fields of a whole-host run. The deny rule is characterised completely, and the clamp is shown to admit every
  ordinary queued ticket at a weight that leaves room for others.
\<close>

section \<open>Definitions\<close>

definition isExclusive :: "'a entry_scheme option \<Rightarrow> bool" where
  "isExclusive e = (case e of Some x \<Rightarrow> exclusive x | None \<Rightarrow> False)"

definition oversizedWeight :: "jsnum option \<Rightarrow> jsnum \<Rightarrow> bool \<Rightarrow> (jsnum \<times> jsnum) option" where
  "oversizedWeight w maxLane excl =
     (case w of Some x \<Rightarrow> if \<not> excl \<and> x > maxLane then Some (x, maxLane) else None | None \<Rightarrow> None)"

definition EXCLUSIVE_DEADLINE_MIN_MS :: jsnum where
  "EXCLUSIVE_DEADLINE_MIN_MS = 60000"

definition EXCLUSIVE_DEADLINE_MAX_MS :: jsnum where
  "EXCLUSIVE_DEADLINE_MAX_MS = 7200000"

text \<open>\<^verbatim>\<open>exclusiveDeadlineProblem\<close>: \<open>True\<close> when the deadline has a problem.\<close>

definition exclusiveDeadlineProblem :: "jsnum option \<Rightarrow> bool" where
  "exclusiveDeadlineProblem ms =
     (case ms of
        Some x \<Rightarrow> \<not> (is_integer x \<and> EXCLUSIVE_DEADLINE_MIN_MS \<le> x \<and> x \<le> EXCLUSIVE_DEADLINE_MAX_MS)
      | None \<Rightarrow> True)"

text \<open>\<^verbatim>\<open>formatDeadline\<close> as the amount and unit it prints: the largest of h, m, s that divides the duration, else ms.\<close>

definition formatDeadline :: "int \<Rightarrow> int \<times> string" where
  "formatDeadline ms =
     (if ms mod 3600000 = 0 then (ms div 3600000, ''h'')
      else if ms mod 60000 = 0 then (ms div 60000, ''m'')
      else if ms mod 1000 = 0 then (ms div 1000, ''s'')
      else (ms, ''ms''))"

definition queuedWeightLimit :: "jsnum \<Rightarrow> jsnum \<Rightarrow> jsnum" where
  "queuedWeightLimit maxLane cap = max 1 (min maxLane (js_floor (cap / 2)))"

definition clampQueuedWeight :: "ticket \<Rightarrow> cfg \<Rightarrow> jsnum \<Rightarrow> ticket" where
  "clampQueuedWeight t c cap =
     (let limit = queuedWeightLimit (maxLaneWeight c) cap
      in if \<not> exclusive t \<and> weight t > limit
         then t\<lparr>weight := limit, weightClampedFrom := Some (weight t)\<rparr> else t)"

text \<open>The walk view: exclusive tickets behind the head are invisible to every skip walk.\<close>

definition withoutBackfillExclusives :: "ticket rqueue \<Rightarrow> ticket rqueue" where
  "withoutBackfillExclusives q =
     (case q of [] \<Rightarrow> [] | h # rest \<Rightarrow> h # filter (\<lambda>t. t = None \<or> \<not> isExclusive t) rest)"

datatype exclusive_deny = ExclusiveHeld string | ExclusiveHead string | ExclusiveDraining nat

definition head_of :: "'a rqueue \<Rightarrow> 'a option" where
  "head_of q = (case q of [] \<Rightarrow> None | h # _ \<Rightarrow> h)"

definition exclusiveDeny :: "ticket rqueue \<Rightarrow> ticket \<Rightarrow> lease list \<Rightarrow> exclusive_deny option" where
  "exclusiveDeny q t held =
     (case List.find exclusive held of
        Some holder \<Rightarrow> Some (ExclusiveHeld (eid holder))
      | None \<Rightarrow>
          (case head_of q of
             Some h \<Rightarrow>
               if \<not> exclusive h then None
               else if eid t \<noteq> eid h then Some (ExclusiveHead (eid h))
               else if held \<noteq> [] then Some (ExclusiveDraining (length held))
               else None
           | None \<Rightarrow> None))"

definition isExclusiveHead :: "ticket rqueue \<Rightarrow> ticket \<Rightarrow> bool" where
  "isExclusiveHead q t = (case head_of q of Some h \<Rightarrow> exclusive h \<and> eid h = eid t | None \<Rightarrow> False)"

text \<open>The fields \<^verbatim>\<open>exclusiveLeaseFields\<close> overrides on the lease of a whole-host run.\<close>

definition exclusiveLeaseFields :: "jsnum \<Rightarrow> jsnum \<times> jsnum \<Rightarrow> lease \<Rightarrow> lease" where
  "exclusiveLeaseFields weightCapacity budget l =
     l\<lparr>exclusive := True, leaseWeight := Some weightCapacity,
       resources := Some \<lparr>cpuCores = Some (fst budget), minCpuCores = None, memoryBytes = Some (snd budget)\<rparr>\<rparr>"

definition exclusiveHoldView :: "ticket rqueue \<Rightarrow> lease list \<Rightarrow> (string \<times> string \<times> nat) option" where
  "exclusiveHoldView q held =
     (case head_of q of Some h \<Rightarrow> if exclusive h then Some (eid h, key h, length held) else None | None \<Rightarrow> None)"

section \<open>Lemmas\<close>

lemma isExclusive_simps [simp]: "isExclusive (Some t) = exclusive t" "isExclusive None = False"
  by (simp_all add: isExclusive_def)

lemma head_of_simps [simp]: "head_of [] = None" "head_of (h # q) = h"
  by (simp_all add: head_of_def)

lemma head_of_SomeD: "head_of q = Some h \<Longrightarrow> \<exists>rest. q = Some h # rest"
  by (cases q) auto

lemma head_of_map: "head_of (map f q) = Option.bind (case q of [] \<Rightarrow> None | x # _ \<Rightarrow> Some x) f"
  by (cases q) auto

lemma exclusiveDeny_NoneD:
  assumes "exclusiveDeny q t held = None"
  shows "\<forall>l \<in> set held. \<not> exclusive l"
    and "head_of q = Some h \<Longrightarrow> exclusive h \<Longrightarrow> eid t = eid h \<and> held = []"
  using assms by (auto simp: exclusiveDeny_def find_None_iff split: option.splits if_splits)

lemma clampQueuedWeight_fields [simp]:
  "eid (clampQueuedWeight t c n) = eid t" "key (clampQueuedWeight t c n) = key t"
  "resources (clampQueuedWeight t c n) = resources t" "conflicts (clampQueuedWeight t c n) = conflicts t"
  "maxConcurrent (clampQueuedWeight t c n) = maxConcurrent t" "klass (clampQueuedWeight t c n) = klass t"
  "exclusive (clampQueuedWeight t c n) = exclusive t" "seq (clampQueuedWeight t c n) = seq t"
  "priorityAdmitted (clampQueuedWeight t c n) = priorityAdmitted t" "pushGate (clampQueuedWeight t c n) = pushGate t"
  "prioOriginAt (clampQueuedWeight t c n) = prioOriginAt t" "schedVersion (clampQueuedWeight t c n) = schedVersion t"
  "startDeadline (clampQueuedWeight t c n) = startDeadline t"
  "enforcementRequired (clampQueuedWeight t c n) = enforcementRequired t"
  by (auto simp: clampQueuedWeight_def Let_def)

lemma clampQueuedWeight_le: "weight (clampQueuedWeight t c n) \<le> weight t"
  by (simp add: clampQueuedWeight_def Let_def)

lemma clampQueuedWeight_limit:
  "\<not> exclusive t \<Longrightarrow> weight (clampQueuedWeight t c n) \<le> queuedWeightLimit (maxLaneWeight c) n"
  by (simp add: clampQueuedWeight_def Let_def)

lemma queuedWeightLimit_le_capacity: "1 \<le> cap \<Longrightarrow> queuedWeightLimit m cap \<le> cap"
proof -
  assume c: "1 \<le> cap"
  have "js_floor (cap / 2) \<le> cap / 2" by (rule js_floor_le)
  with c have "min m (js_floor (cap / 2)) \<le> cap" by (simp add: min_le_iff_disj)
  with c show ?thesis by (simp add: queuedWeightLimit_def)
qed

lemma withoutBackfillExclusives_set:
  "x \<in> set (withoutBackfillExclusives q) \<Longrightarrow> x \<in> set q"
  by (auto simp: withoutBackfillExclusives_def split: list.splits)

lemma withoutBackfillExclusives_head [simp]: "head_of (withoutBackfillExclusives q) = head_of q"
  by (simp add: withoutBackfillExclusives_def split: list.splits)

lemma withoutBackfillExclusives_tl:
  "Some t \<in> set (tl (withoutBackfillExclusives q)) \<Longrightarrow> \<not> exclusive t"
  by (auto simp: withoutBackfillExclusives_def split: list.splits)

lemma exclusiveLeaseFields_simps [simp]:
  "exclusive (exclusiveLeaseFields w b l)" "leaseWeight (exclusiveLeaseFields w b l) = Some w"
  "state (exclusiveLeaseFields w b l) = state l" "eid (exclusiveLeaseFields w b l) = eid l"
  "key (exclusiveLeaseFields w b l) = key l" "maxConcurrent (exclusiveLeaseFields w b l) = maxConcurrent l"
  by (simp_all add: exclusiveLeaseFields_def)

section \<open>Properties\<close>

text \<open>
  The exclusive rule is exact: a ticket is let through only if no held lease is exclusive and, when the head is
  exclusive, it is that head and nothing at all is held.
\<close>

lemma exclusiveDeny_iff:
  "exclusiveDeny q t held = None \<longleftrightarrow>
     (\<forall>l \<in> set held. \<not> exclusive l) \<and>
     (\<not> isExclusive (head_of q) \<or> isExclusiveHead q t \<and> held = [])"
  by (auto simp: exclusiveDeny_def isExclusiveHead_def find_None_iff split: option.splits dest: find_SomeD)

text \<open>
  A deadline prints exactly: the amount and unit of \<^verbatim>\<open>formatDeadline\<close> multiply back to the duration.
\<close>

theorem formatDeadline_exact:
  "fst (formatDeadline ms) *
     (case snd (formatDeadline ms) of u \<Rightarrow>
        if u = ''h'' then 3600000 else if u = ''m'' then 60000 else if u = ''s'' then 1000 else 1) = ms"
  by (auto simp: formatDeadline_def)

end
