(* ===== verification/Classes.thy ===== *)
theory Classes
  imports Exclusive "HOL-Library.AList"
begin

text \<open>
  Per-class reservation caps (src/classes.js): resolving the configured block, what the live sims have booked, the cap
  verdict for one grant, the queued tickets the policy bars, and the elastic sim claim lowered to what the caps leave.
  The configuration hash and the scheduler generation recorded on a granted sim are omitted: they are digests
  nothing reads back.
\<close>

section \<open>Definitions\<close>

record sim_caps =
  capCores :: jsnum
  maxTickets :: jsnum
  capMemoryBytes :: jsnum

record class_policy =
  classMode :: class_mode
  classValid :: bool
  reserveCores :: jsnum
  simCaps :: sim_caps

definition resolveClasses :: "cfg \<Rightarrow> class_policy" where
  "resolveClasses c =
     (if classesInvalid c then \<lparr>classMode = ClassesOff, classValid = False, reserveCores = 0,
        simCaps = \<lparr>capCores = 0, maxTickets = 0, capMemoryBytes = 0\<rparr>\<rparr>
      else case classesBlock c of
          None \<Rightarrow> \<lparr>classMode = ClassesOff, classValid = True, reserveCores = 0,
            simCaps = \<lparr>capCores = 0, maxTickets = 0, capMemoryBytes = 0\<rparr>\<rparr>
        | Some b \<Rightarrow> \<lparr>classMode = blockMode b, classValid = True, reserveCores = nullish (blockReserveCores b) 0,
            simCaps = \<lparr>capCores = nullish (blockCapCores b) 0, maxTickets = nullish (blockMaxTickets b) 0,
              capMemoryBytes = nullish (blockCapMemoryBytes b) 0\<rparr>\<rparr>)"

definition classEnforcementOf :: "class_policy \<Rightarrow> bool" where
  "classEnforcementOf p \<longleftrightarrow> classMode p = ClassesActive \<and> classValid p"

record booked =
  bookedCores :: jsnum
  bookedMemory :: jsnum
  bookedCount :: jsnum

text \<open>
  \<^verbatim>\<open>bookedSims\<close>: a lease without weight and claim contributes a NaN in JavaScript; every lease the broker writes has a
  weight, and here such a lease counts zero cores.
\<close>

definition bookedSims :: "lease list \<Rightarrow> cfg \<Rightarrow> booked" where
  "bookedSims held c =
     (let sims = filter (\<lambda>l. classOf l = SimClass) held
      in \<lparr>bookedCores = (\<Sum>l \<leftarrow> sims. nullish (cpuCores (leaseResources l c)) 0),
          bookedMemory = (\<Sum>l \<leftarrow> sims. lease_mem l c),
          bookedCount = of_nat (length sims)\<rparr>)"

definition simCoreCeiling :: "class_policy \<Rightarrow> booked \<Rightarrow> host \<Rightarrow> cfg \<Rightarrow> jsnum" where
  "simCoreCeiling p b h c = min (capCores (simCaps p)) (cpuBudgetCores h c - reserveCores p) - bookedCores b"

datatype cap_reason =
  MaxTickets | CapCores | CapMemory | TestReserve | ConfigInvalid | EnforcementUnavailable

definition simCapReason :: "class_policy \<Rightarrow> booked \<Rightarrow> jsnum \<times> jsnum \<Rightarrow> host \<Rightarrow> cfg \<Rightarrow> cap_reason option" where
  "simCapReason p b grant h c =
     (if bookedCount b \<ge> maxTickets (simCaps p) then Some MaxTickets
      else if bookedCores b + fst grant > capCores (simCaps p) then Some CapCores
      else if bookedMemory b + snd grant > capMemoryBytes (simCaps p) then Some CapMemory
      else if fst grant > simCoreCeiling p b h c then Some TestReserve
      else None)"

definition smallestSimGrant :: "ticket \<Rightarrow> cfg \<Rightarrow> host \<Rightarrow> jsnum \<times> jsnum" where
  "smallestSimGrant t c h =
     (if exclusive t then exclusiveBudget h c
      else (case res_min t of Some m \<Rightarrow> min (ticket_cpu t) (js_ceil m) | None \<Rightarrow> ticket_cpu t, ticket_mem t c))"

text \<open>\<^verbatim>\<open>classTransport\<close>: the class and the enforcement requirement a dispatch carries (\<open>None\<close>: left out).\<close>

definition classTransport :: "ticket \<Rightarrow> class_policy \<Rightarrow> lane_class option \<times> bool" where
  "classTransport t p =
     (if classMode p = ClassesActive \<and> classValid p \<and> klass t = Some SimClass then Some SimClass
      else if enforcementRequired t then Some (if klass t = Some SimClass then SimClass else TestClass)
      else None, enforcementRequired t)"

text \<open>Whether the runner's own resolution of a lane is laxer than what the submitter sent.\<close>

definition classTransportMismatch :: "lane_class option \<times> bool \<Rightarrow> lane_class option \<times> bool \<Rightarrow> bool" where
  "classTransportMismatch expected resolved \<longleftrightarrow>
     (snd expected \<and> \<not> snd resolved) \<or> (fst expected = Some SimClass \<and> fst resolved \<noteq> Some SimClass)"

definition enforcementAvailable :: "class_policy \<Rightarrow> bool" where
  "enforcementAvailable p \<longleftrightarrow> classMode p = ClassesActive \<and> classValid p"

definition always_enforced :: "cap_reason \<Rightarrow> bool" where
  "always_enforced r \<longleftrightarrow> r = ConfigInvalid \<or> r = EnforcementUnavailable"

definition cap_verdict :: "class_policy \<Rightarrow> lease list \<Rightarrow> host \<Rightarrow> cfg \<Rightarrow> ticket \<Rightarrow> cap_reason option" where
  "cap_verdict p held h c t =
     (if enforcementRequired t \<and> \<not> enforcementAvailable p then Some EnforcementUnavailable
      else if classOf t \<noteq> SimClass then None
      else if \<not> classValid p then Some ConfigInvalid
      else if classMode p \<noteq> ClassesOff then simCapReason p (bookedSims held c) (smallestSimGrant t c h) h c
      else None)"

fun capDeniedSims ::
  "ticket rqueue \<Rightarrow> class_policy \<Rightarrow> lease list \<Rightarrow> host \<Rightarrow> cfg \<Rightarrow> (string \<times> cap_reason) list \<Rightarrow> (string \<times> cap_reason) list" where
  "capDeniedSims [] p held h c acc = acc"
| "capDeniedSims (None # q) p held h c acc = capDeniedSims q p held h c acc"
| "capDeniedSims (Some t # q) p held h c acc =
     capDeniedSims q p held h c
       (case cap_verdict p held h c t of None \<Rightarrow> acc | Some r \<Rightarrow> AList.update (eid t) r acc)"

definition capSimClaim :: "ticket \<Rightarrow> class_policy \<Rightarrow> booked \<Rightarrow> host \<Rightarrow> cfg \<Rightarrow> ticket" where
  "capSimClaim t p b h c =
     (case resources t of
        None \<Rightarrow> t
      | Some r \<Rightarrow>
          (case minCpuCores r of
             None \<Rightarrow> t
           | Some m \<Rightarrow>
               if classOf t \<noteq> SimClass \<or> \<not> classValid p \<or> classMode p \<noteq> ClassesActive then t
               else (let ceiling = js_floor (simCoreCeiling p b h c)
                     in case cpuCores r of
                          None \<Rightarrow> t
                        | Some cpu \<Rightarrow>
                            if \<not> cpu > ceiling \<or> ceiling < js_ceil m then t
                            else t\<lparr>resources := Some (r\<lparr>cpuCores := Some ceiling,
                                   minCpuCores := (if m < ceiling then Some m else None)\<rparr>)\<rparr>)))"

record queue_policy =
  capEnforced :: "(string \<times> cap_reason) list"
  simsAfterTests :: bool

definition classQueuePolicy :: "ticket rqueue \<Rightarrow> class_policy \<Rightarrow> lease list \<Rightarrow> host \<Rightarrow> cfg \<Rightarrow> queue_policy" where
  "classQueuePolicy q p held h c =
     \<lparr>capEnforced = filter (\<lambda>(_, r). classMode p = ClassesActive \<or> always_enforced r) (capDeniedSims q p held h c []),
      simsAfterTests = (classValid p \<and> classMode p = ClassesActive)\<rparr>"

definition cap_enforced :: "queue_policy \<Rightarrow> string \<Rightarrow> cap_reason option" where
  "cap_enforced qp i = map_of (capEnforced qp) i"

section \<open>Lemmas\<close>

lemma capSimClaim_fields [simp]:
  "eid (capSimClaim t p b h c) = eid t" "key (capSimClaim t p b h c) = key t"
  "weight (capSimClaim t p b h c) = weight t" "conflicts (capSimClaim t p b h c) = conflicts t"
  "maxConcurrent (capSimClaim t p b h c) = maxConcurrent t" "klass (capSimClaim t p b h c) = klass t"
  "exclusive (capSimClaim t p b h c) = exclusive t" "seq (capSimClaim t p b h c) = seq t"
  "pushGate (capSimClaim t p b h c) = pushGate t" "startDeadline (capSimClaim t p b h c) = startDeadline t"
  "enforcementRequired (capSimClaim t p b h c) = enforcementRequired t"
  by (auto simp: capSimClaim_def Let_def split: option.splits)

lemma capSimClaim_test [simp]: "classOf t \<noteq> SimClass \<Longrightarrow> capSimClaim t p b h c = t"
  by (auto simp: capSimClaim_def split: option.splits)

lemma classOf_capSimClaim [simp]: "classOf (capSimClaim t p b h c) = classOf t"
  by (simp add: classOf_def)

lemma simCapReason_None:
  assumes "simCapReason p b grant h c = None"
  shows "bookedCount b < maxTickets (simCaps p) \<and> bookedCores b + fst grant \<le> capCores (simCaps p) \<and>
    bookedMemory b + snd grant \<le> capMemoryBytes (simCaps p) \<and>
    bookedCores b + fst grant \<le> cpuBudgetCores h c - reserveCores p"
  using assms by (auto simp: simCapReason_def simCoreCeiling_def split: if_splits)

lemma capDeniedSims_lookup:
  "map_of (capDeniedSims q p held h c acc) i =
     (case List.find (\<lambda>t. eid t = i \<and> cap_verdict p held h c t \<noteq> None) (rev (readable q)) of
        Some t \<Rightarrow> cap_verdict p held h c t
      | None \<Rightarrow> map_of acc i)"
proof (induction q p held h c acc rule: capDeniedSims.induct)
  case (3 t q p held h c acc)
  have app: "List.find P (xs @ [y]) = (case List.find P xs of None \<Rightarrow> if P y then Some y else None | Some x \<Rightarrow> Some x)"
    for P and xs :: "ticket list" and y
    by (induction xs) auto
  show ?case
    using 3 by (auto simp: app update_conv split: option.splits)
qed simp_all

lemma bookedSims_append:
  "bookedSims (held @ [l]) c =
     (if classOf l = SimClass then
        \<lparr>bookedCores = bookedCores (bookedSims held c) + nullish (cpuCores (leaseResources l c)) 0,
         bookedMemory = bookedMemory (bookedSims held c) + lease_mem l c,
         bookedCount = bookedCount (bookedSims held c) + 1\<rparr>
      else bookedSims held c)"
  by (simp add: bookedSims_def Let_def)

section \<open>Properties\<close>

text \<open>
  A sim granted under the caps keeps every cap. If \<^verbatim>\<open>simCapReason\<close> raises no objection to granting a sim the cores
  and memory its lease is charged, then with that lease added the live sims are still within the ticket count, the
  core cap, the memory cap, and leave the test class its reserved cores out of the CPU budget.
\<close>

theorem sim_caps_preserved:
  assumes ok: "simCapReason p (bookedSims held c) (nullish (cpuCores (leaseResources l c)) 0, lease_mem l c) h c = None"
    and sim: "classOf l = SimClass"
  shows "bookedCount (bookedSims (held @ [l]) c) < maxTickets (simCaps p) + 1 \<and>
    bookedCores (bookedSims (held @ [l]) c) \<le> capCores (simCaps p) \<and>
    bookedMemory (bookedSims (held @ [l]) c) \<le> capMemoryBytes (simCaps p) \<and>
    bookedCores (bookedSims (held @ [l]) c) + reserveCores p \<le> cpuBudgetCores h c"
  using simCapReason_None[OF ok] sim by (simp add: bookedSims_append)

text \<open>
  A lowered sim claim fits. When \<^verbatim>\<open>capSimClaim\<close> changes the claim of an elastic sim, the new claim is a whole number
  of cores, at least the lane's floor, below the declared claim, and no more than the caps leave.
\<close>

theorem capSimClaim_fits:
  assumes "capSimClaim t p b h c \<noteq> t" and "res_min t = Some m"
  shows "is_integer (ticket_cpu (capSimClaim t p b h c)) \<and> m \<le> ticket_cpu (capSimClaim t p b h c) \<and>
    ticket_cpu (capSimClaim t p b h c) < ticket_cpu t \<and>
    ticket_cpu (capSimClaim t p b h c) \<le> simCoreCeiling p b h c \<and>
    res_mem (capSimClaim t p b h c) = res_mem t"
proof -
  obtain r cpu where r: "resources t = Some r" "minCpuCores r = Some m" "cpuCores r = Some cpu"
    using assms by (auto simp: capSimClaim_def res_min_def Let_def split: option.splits if_splits)
  let ?k = "js_floor (simCoreCeiling p b h c)"
  have k: "cpu > ?k" "js_ceil m \<le> ?k"
    "capSimClaim t p b h c = t\<lparr>resources := Some (r\<lparr>cpuCores := Some ?k, minCpuCores := (if m < ?k then Some m else None)\<rparr>)\<rparr>"
    using assms r by (auto simp: capSimClaim_def Let_def split: if_splits)
  have "m \<le> ?k" using k(2) le_js_ceil[of m] by linarith
  then show ?thesis
    using k r by (simp add: ticket_cpu_def res_cpu_def res_mem_def)
qed

definition sim_policy :: class_policy where
  "sim_policy = \<lparr>classMode = ClassesActive, classValid = True, reserveCores = 2,
     simCaps = \<lparr>capCores = 4, maxTickets = 2, capMemoryBytes = 8589934592\<rparr>\<rparr>"

definition sim_example :: ticket where
  "sim_example = example_ticket\<lparr>klass := Some SimClass, resources := Some \<lparr>cpuCores = Some 8, minCpuCores = Some 2, memoryBytes = Some 1073741824\<rparr>\<rparr>"

theorem capSimClaim_fits_witness:
  "ticket_cpu (capSimClaim sim_example sim_policy (bookedSims [] default_cfg) example_host default_cfg) = 4 \<and>
   ticket_cpu (capSimClaim sim_example sim_policy (bookedSims [] default_cfg) example_host default_cfg) < ticket_cpu sim_example"
proof -
  have v: "ticket_cpu (capSimClaim sim_example sim_policy (bookedSims [] default_cfg) example_host default_cfg) = 4"
    by code_simp
  have "ticket_cpu sim_example = 8" by code_simp
  then have ne: "capSimClaim sim_example sim_policy (bookedSims [] default_cfg) example_host default_cfg \<noteq> sim_example"
    using v by auto
  have m: "res_min sim_example = Some 2" by (simp add: sim_example_def res_min_def)
  show ?thesis using v capSimClaim_fits[OF ne m] by blast
qed

definition sim_lease :: lease where
  "sim_lease = example_lease\<lparr>klass := Some SimClass, resources := Some \<lparr>cpuCores = Some 3, minCpuCores = None, memoryBytes = Some 1073741824\<rparr>\<rparr>"

theorem sim_caps_preserved_witness:
  "simCapReason sim_policy (bookedSims [] default_cfg) (3, 1073741824) example_host default_cfg = None \<and>
   bookedCores (bookedSims [sim_lease] default_cfg) \<le> 4"
proof -
  have ch: "(nullish (cpuCores (leaseResources sim_lease default_cfg)) 0, lease_mem sim_lease default_cfg) = (3, 1073741824)"
    by code_simp
  have ok: "simCapReason sim_policy (bookedSims [] default_cfg) (3, 1073741824) example_host default_cfg = None"
    by code_simp
  have sim: "classOf sim_lease = SimClass" by (simp add: sim_lease_def classOf_def)
  have "bookedCores (bookedSims ([] @ [sim_lease]) default_cfg) \<le> capCores (simCaps sim_policy)"
    using sim_caps_preserved[OF ok[folded ch] sim] by blast
  with ok show ?thesis by (simp add: sim_policy_def)
qed

end
