(* ===== verification/Express.thy ===== *)
theory Express
  imports Estimates
begin

text \<open>
  Express admission (src/express.js): how long a command is expected to run, and how many express starts a host may make
  per minute. The lane and command tables of \<^verbatim>\<open>buildExpressTable\<close> are a parameter here (their medians come from a log-normal
  estimator over floating-point logarithms); the bypass table is computed from history rows. The rate window is
  proved to be a true sliding-window limit.
\<close>

section \<open>Command families\<close>

definition EXPRESS_MIN_SAMPLES :: nat where "EXPRESS_MIN_SAMPLES = 3"
definition RATE_WINDOW_MS :: jsnum where "RATE_WINDOW_MS = 60000"
definition BYPASS_WINDOW_RUNS :: nat where "BYPASS_WINDOW_RUNS = 20"
definition BYPASS_MAX_STRIKES :: nat where "BYPASS_MAX_STRIKES = 3"
definition FAMILY_TOKENS :: nat where "FAMILY_TOKENS = 3"
definition WRAPPER_DEPTH :: nat where "WRAPPER_DEPTH = 4"

definition NL :: char where "NL = CHR 0x0A"
definition QUOTE :: char where "QUOTE = CHR 0x27"
definition BACKTICK :: char where "BACKTICK = CHR 0x60"

text \<open>\<^verbatim>\<open>\s\<close> on ASCII: tab, newline, vertical tab, form feed, carriage return, space.\<close>

definition is_space :: "char \<Rightarrow> bool" where
  "is_space ch \<longleftrightarrow> ch \<in> {CHR 0x09, CHR 0x0A, CHR 0x0B, CHR 0x0C, CHR 0x0D, CHR '' ''}"

definition is_word_start :: "char \<Rightarrow> bool" where
  "is_word_start ch \<longleftrightarrow>
     (CHR ''A'' \<le> ch \<and> ch \<le> CHR ''Z'') \<or> (CHR ''a'' \<le> ch \<and> ch \<le> CHR ''z'') \<or> ch = CHR ''_''"

definition is_word :: "char \<Rightarrow> bool" where
  "is_word ch \<longleftrightarrow> is_word_start ch \<or> (CHR ''0'' \<le> ch \<and> ch \<le> CHR ''9'')"

text \<open>\<^verbatim>\<open>SHELL_SYNTAX\<close>: a double ampersand, any of \<^verbatim>\<open>; | < > `\<close> and newline, or a dollar followed by a parenthesis.\<close>

fun shell_syntax :: "string \<Rightarrow> bool" where
  "shell_syntax [] = False"
| "shell_syntax (a # s) =
     (a \<in> {CHR '';'', CHR ''|'', CHR ''<'', CHR ''>'', BACKTICK, NL} \<or>
      (a = CHR ''&'' \<and> s \<noteq> [] \<and> hd s = CHR ''&'') \<or>
      (a = CHR ''$'' \<and> s \<noteq> [] \<and> hd s = CHR ''('') \<or> shell_syntax s)"

text \<open>\<^verbatim>\<open>text.split(/\s+/).filter(Boolean)\<close>\<close>

fun split_words :: "string \<Rightarrow> string \<Rightarrow> string list" where
  "split_words acc [] = (if acc = [] then [] else [acc])"
| "split_words acc (ch # s) =
     (if is_space ch then (if acc = [] then split_words [] s else acc # split_words [] s)
      else split_words (acc @ [ch]) s)"

definition is_quote :: "char \<Rightarrow> bool" where
  "is_quote ch \<longleftrightarrow> ch = QUOTE \<or> ch = CHR 0x22"

definition unquote :: "string \<Rightarrow> string" where
  "unquote token = rev (dropWhile is_quote (rev (dropWhile is_quote token)))"

text \<open>The test \<^verbatim>\<open>/^[A-Za-z_]\w*=/\<close>.\<close>

definition is_assignment :: "string \<Rightarrow> bool" where
  "is_assignment s =
     (case s of [] \<Rightarrow> False
      | a # r \<Rightarrow> is_word_start a \<and> (case dropWhile is_word r of [] \<Rightarrow> False | x # _ \<Rightarrow> x = CHR ''=''))"

definition starts_dash :: "string \<Rightarrow> bool" where
  "starts_dash s = (case s of [] \<Rightarrow> False | a # _ \<Rightarrow> a = CHR ''-'')"

definition shells :: "string list" where
  "shells = [''sh'', ''bash'', ''zsh'', ''dash'']"

text \<open>The flag-and-assignment scan of a leading \<^verbatim>\<open>env\<close>; \<^verbatim>\<open>-u\<close> and \<^verbatim>\<open>-C\<close> take a value.\<close>

fun skip_env :: "string list \<Rightarrow> string list" where
  "skip_env [] = []"
| "skip_env (tok # toks) =
     (if starts_dash tok \<or> is_assignment tok
      then (if tok = ''-u'' \<or> tok = ''-C'' then (case toks of [] \<Rightarrow> [] | _ # rest \<Rightarrow> skip_env rest) else skip_env toks)
      else tok # toks)"

definition unwrapOnce :: "string list \<Rightarrow> string list option" where
  "unwrapOnce tokens =
     (case tokens of
        t0 # rest \<Rightarrow>
          if t0 = ''env'' then Some (skip_env rest)
          else (case rest of t1 # rest' \<Rightarrow> if t1 = ''-c'' \<or> t1 = ''-lc'' then Some rest' else None | [] \<Rightarrow> None)
      | [] \<Rightarrow> None)"

text \<open>The wrapper loop: \<open>fuel\<close> is what is left of \<^verbatim>\<open>WRAPPER_DEPTH\<close>; \<open>None\<close> is the early return of the empty family.\<close>

fun unwrap :: "nat \<Rightarrow> string list \<Rightarrow> string list option" where
  "unwrap fuel tokens =
     (case tokens of
        [] \<Rightarrow> Some []
      | t0 # _ \<Rightarrow>
          if t0 = ''env'' \<or> t0 \<in> set shells then
            (case fuel of
               0 \<Rightarrow> None
             | Suc n \<Rightarrow> (case unwrapOnce tokens of
                          None \<Rightarrow> None
                        | Some [] \<Rightarrow> None
                        | Some ts \<Rightarrow> unwrap n ts))
          else Some tokens)"

declare unwrap.simps [simp del]

definition family_word :: "string \<Rightarrow> bool" where
  "family_word token \<longleftrightarrow> token \<noteq> [] \<and> \<not> is_assignment token \<and> \<not> starts_dash token \<and>
     CHR ''/'' \<notin> set token \<and> CHR ''.'' \<notin> set token"

text \<open>The family as its list of words; the code joins them with a space, and the empty list is the empty family.\<close>

definition commandFamily :: "string option \<Rightarrow> string list" where
  "commandFamily cmd =
     (let txt = nullish cmd []
      in if shell_syntax txt then []
         else case unwrap WRAPPER_DEPTH (map unquote (split_words [] txt)) of
             None \<Rightarrow> []
           | Some tokens \<Rightarrow> take FAMILY_TOKENS (filter family_word tokens))"

section \<open>The bypass table\<close>

datatype bypass_key = ByCommand string | ByFamily "string list"

type_synonym bypass_id = "string \<times> string \<times> bypass_key"

record bypass_row =
  bRepo :: string
  bLane :: string
  bLocal :: bool
  bCompleted :: bool
  bStartedAt :: "jsnum option"
  bEndedAt :: "jsnum option"
  bRunMs :: "jsnum option"
  bFingerprint :: "string option"
  bCommand :: "string option"

record bypass_entry =
  entryN :: nat
  medianMs :: jsnum
  strikes :: nat

text \<open>\<^verbatim>\<open>runMsOf\<close>; \<open>None\<close> is the NaN of a missing end or start.\<close>

definition runMsOf :: "bypass_row \<Rightarrow> jsnum option" where
  "runMsOf r =
     (case bRunMs r of
        Some m \<Rightarrow> if m > 0 then Some m else
          (case (bEndedAt r, bStartedAt r) of (Some e, Some s) \<Rightarrow> Some (e - s) | _ \<Rightarrow> None)
      | None \<Rightarrow> (case (bEndedAt r, bStartedAt r) of (Some e, Some s) \<Rightarrow> Some (e - s) | _ \<Rightarrow> None))"

definition started_row :: "bypass_row \<Rightarrow> bool" where
  "started_row r \<longleftrightarrow> bRepo r \<noteq> [] \<and> bLane r \<noteq> [] \<and> bLocal r \<and> bStartedAt r \<noteq> None \<and>
     (case runMsOf r of Some m \<Rightarrow> m > 0 | None \<Rightarrow> False)"

definition row_ids :: "bypass_row \<Rightarrow> bypass_id list" where
  "row_ids r =
     (case bFingerprint r of Some f \<Rightarrow> if f \<noteq> [] then [(bRepo r, bLane r, ByCommand f)] else [] | None \<Rightarrow> []) @
     (let fam = commandFamily (bCommand r) in if fam \<noteq> [] then [(bRepo r, bLane r, ByFamily fam)] else [])"

definition group_rows :: "bypass_row list \<Rightarrow> bypass_id \<Rightarrow> bypass_row list" where
  "group_rows rows i =
     filter (\<lambda>r. i \<in> set (row_ids r)) (sort_key (\<lambda>r. nullish (bEndedAt r) 0) (filter started_row rows))"

definition buildBypassTable :: "bypass_row list \<Rightarrow> jsnum \<Rightarrow> bypass_id \<Rightarrow> bypass_entry option" where
  "buildBypassTable rows maxMs i =
     (let members = group_rows rows i;
          successes = sort (map (\<lambda>r. nullish (runMsOf r) 0) (last_n BYPASS_WINDOW_RUNS (filter bCompleted members)))
      in if length successes < EXPRESS_MIN_SAMPLES then None
         else map_option (\<lambda>m. \<lparr>entryN = length successes, medianMs = js_round m,
                strikes = length (filter (\<lambda>r. nullish (runMsOf r) 0 > maxMs) (last_n BYPASS_WINDOW_RUNS members))\<rparr>)
              (percentile successes (1 / 2)))"

section \<open>Verdicts\<close>

record express_table =
  laneMs :: "string option \<times> string option \<Rightarrow> jsnum option"
  commandMs :: "string option \<times> string option \<times> string \<Rightarrow> jsnum option"
  bypassEntries :: "string option \<times> string option \<times> bypass_key \<Rightarrow> bypass_entry option"

datatype express_source = FromCommand | FromLane | FromFamily

definition expressEstimate :: "express_table \<Rightarrow> ticket \<Rightarrow> (jsnum \<times> express_source) option" where
  "expressEstimate tb t =
     (case (case cmdFingerprint t of Some f \<Rightarrow> if f \<noteq> [] then commandMs tb (repoId t, lane t, f) else None | None \<Rightarrow> None) of
        Some ms \<Rightarrow> Some (ms, FromCommand)
      | None \<Rightarrow> map_option (\<lambda>ms. (ms, FromLane)) (laneMs tb (repoId t, lane t)))"

definition expressVerdict :: "express_table \<Rightarrow> ticket \<Rightarrow> cfg \<Rightarrow> (jsnum \<times> express_source) option" where
  "expressVerdict tb t c =
     (case expressEstimate tb t of Some (ms, src) \<Rightarrow> if ms < expressMaxMs c then Some (ms, src) else None | None \<Rightarrow> None)"

datatype bypass_refusal =
  NotActive | CapFull | ExclusiveTicket | ExcludedLane | SimTicket | ExclusiveAhead | BypassConflict | BypassCapacity |
  ElasticFloor | NoHistory | MedianOverMax | TooManyStrikes

definition bypassVerdict :: "express_table \<Rightarrow> ticket \<Rightarrow> cfg \<Rightarrow> bypass_refusal + jsnum \<times> express_source" where
  "bypassVerdict tb t c =
     (let byCommand = (case cmdFingerprint t of
                         Some f \<Rightarrow> if f \<noteq> [] then bypassEntries tb (repoId t, lane t, ByCommand f) else None | None \<Rightarrow> None);
          family = (if byCommand \<noteq> None then None else bypassEntries tb (repoId t, lane t, ByFamily (commandFamily (command t))))
      in case nullish_opt byCommand family of
           None \<Rightarrow> Inl NoHistory
         | Some e \<Rightarrow>
             if \<not> medianMs e < queueBypassMaxMs c then Inl MedianOverMax
             else if strikes e > BYPASS_MAX_STRIKES then Inl TooManyStrikes
             else Inr (medianMs e, if byCommand \<noteq> None then FromCommand else FromFamily))"

section \<open>The rate window\<close>

definition recentAdmissions :: "jsnum list \<Rightarrow> jsnum \<Rightarrow> jsnum list" where
  "recentAdmissions stored now = filter (\<lambda>a. 0 \<le> now - a \<and> now - a < RATE_WINDOW_MS) stored"

definition expressAdmissionsLastMinute :: "jsnum list \<Rightarrow> jsnum \<Rightarrow> nat" where
  "expressAdmissionsLastMinute stored now = length (recentAdmissions stored now)"

text \<open>The new file, or \<open>None\<close> when the write failed and the start must be refused.\<close>

definition recordExpressAdmission :: "bool \<Rightarrow> jsnum list \<Rightarrow> jsnum \<Rightarrow> jsnum list option" where
  "recordExpressAdmission wok stored now = (if wok then Some (recentAdmissions stored now @ [now]) else None)"

text \<open>
  A host that tries to make an express start at each of the given times, as the scheduler does: only under the limit,
  and only if the record is written. The second component is the list of all starts made.
\<close>

fun express_run :: "jsnum \<Rightarrow> jsnum list \<Rightarrow> jsnum list \<Rightarrow> (jsnum \<times> bool) list \<Rightarrow> jsnum list \<times> jsnum list" where
  "express_run limit stored made [] = (stored, made)"
| "express_run limit stored made ((now, wok) # ts) =
     (if of_nat (expressAdmissionsLastMinute stored now) < limit
      then (case recordExpressAdmission wok stored now of
              Some stored' \<Rightarrow> express_run limit stored' (made @ [now]) ts
            | None \<Rightarrow> express_run limit stored made ts)
      else express_run limit stored made ts)"

section \<open>Lemmas\<close>

lemma commandFamily_words: "w \<in> set (commandFamily cmd) \<Longrightarrow> family_word w"
  by (auto simp: commandFamily_def Let_def split: option.splits if_splits dest: in_set_takeD)

lemma commandFamily_length: "length (commandFamily cmd) \<le> 3"
  by (auto simp: commandFamily_def FAMILY_TOKENS_def Let_def split: option.splits)

definition window :: "jsnum \<Rightarrow> jsnum list \<Rightarrow> jsnum list" where
  "window w xs = filter (\<lambda>a. w - RATE_WINDOW_MS < a \<and> a \<le> w) xs"

lemma recentAdmissions_window: "recentAdmissions xs now = window now xs"
  by (auto simp: recentAdmissions_def window_def algebra_simps intro: filter_cong)

lemma window_append [simp]: "window w (xs @ ys) = window w xs @ window w ys"
  by (simp add: window_def)

text \<open>What the run keeps: the file holds every start of the last minute, and each start's window was within the limit.\<close>

definition rate_inv :: "jsnum \<Rightarrow> jsnum \<Rightarrow> jsnum list \<Rightarrow> jsnum list \<Rightarrow> bool" where
  "rate_inv limit t stored made \<longleftrightarrow>
     (\<forall>w \<ge> t. window w stored = window w made) \<and> (\<forall>a \<in> set made. a \<le> t) \<and>
     (\<forall>w. window w made \<noteq> [] \<longrightarrow> of_nat (length (window w made)) < limit + 1)"

lemma window_window: "t \<le> w \<Longrightarrow> window w (window t xs) = window w (filter (\<lambda>a. a \<le> t) xs)"
  by (auto simp: window_def intro: filter_cong)

lemma rate_inv_step:
  assumes inv: "rate_inv limit t stored made" and t: "t \<le> now" and lt: "of_nat (length (window now stored)) < limit"
  shows "rate_inv limit now (window now stored @ [now]) (made @ [now])"
proof -
  have same: "window w stored = window w made" if "t \<le> w" for w
    using inv that by (auto simp: rate_inv_def)
  have le: "\<forall>a \<in> set made. a \<le> now"
    using inv t by (auto simp: rate_inv_def)
  then have id: "filter (\<lambda>a. a \<le> now) made = made"
    by (simp add: filter_id_conv)
  have stored': "window w (window now stored @ [now]) = window w (made @ [now])" if "now \<le> w" for w
    using window_window[OF that, of made] same[of now] t id by simp
  have bound: "of_nat (length (window w (made @ [now]))) < limit + 1" if "window w (made @ [now]) \<noteq> []" for w
  proof (cases "window w [now] = []")
    case True
    then show ?thesis using inv that by (simp add: rate_inv_def)
  next
    case False
    then have "w - RATE_WINDOW_MS < now" "now \<le> w" by (auto simp: window_def split: if_splits)
    then have "length (window w made) \<le> length (window now made)"
      using le unfolding window_def by (induction made) auto
    moreover have "length (window now made) = length (window now stored)"
      using same[OF t] by simp
    ultimately have "(of_nat (length (window w made)) :: jsnum) \<le> of_nat (length (window now stored))"
      by simp
    then have "(of_nat (length (window w made)) :: jsnum) < limit"
      using lt by linarith
    then show ?thesis by (simp add: window_def)
  qed
  show ?thesis
    unfolding rate_inv_def using stored' bound le by auto
qed

lemma rate_inv_later: "rate_inv limit t stored made \<Longrightarrow> t \<le> u \<Longrightarrow> rate_inv limit u stored made"
  by (fastforce simp: rate_inv_def)

lemma express_run_inv:
  assumes "rate_inv limit t stored made" "sorted (t # map fst ts)"
  shows "\<exists>u. rate_inv limit u (fst (express_run limit stored made ts)) (snd (express_run limit stored made ts))"
  using assms
proof (induction limit stored made ts arbitrary: t rule: express_run.induct)
  case (1 limit stored made)
  then show ?case by auto
next
  case (2 limit stored made now wok ts)
  have t: "t \<le> now" "sorted (now # map fst ts)" using 2(5) by auto
  note later = rate_inv_later[OF 2(4) t(1)]
  show ?case
  proof (cases "of_nat (expressAdmissionsLastMinute stored now) < limit \<and> wok")
    case True
    then have lt: "of_nat (length (window now stored)) < limit"
      by (simp add: expressAdmissionsLastMinute_def recentAdmissions_window)
    show ?thesis
      using 2(2)[of "window now stored @ [now]" now] rate_inv_step[OF 2(4) t(1) lt] t(2) True
      by (simp add: recordExpressAdmission_def recentAdmissions_window)
  next
    case False
    then show ?thesis
      using 2(1)[OF _ _ later t(2)] 2(3)[OF _ later t(2)]
      by (auto simp: recordExpressAdmission_def)
  qed
qed

section \<open>Properties\<close>

text \<open>
  The express rate is a sliding-window limit. However the polls fall in time and whichever record writes fail, as long
  as the clock does not run backwards, every sixty-second window contains fewer than \<^verbatim>\<open>expressPerMinute\<close> + 1 express starts
  (at most \<^verbatim>\<open>expressPerMinute\<close> for a whole-number limit).
\<close>

theorem express_rate_limited:
  assumes "sorted (map fst polls)" and "0 \<le> limit"
  shows "of_nat (length (filter (\<lambda>a. w - RATE_WINDOW_MS < a \<and> a \<le> w) (snd (express_run limit [] [] polls)))) < limit + 1"
proof -
  have "rate_inv limit (case polls of [] \<Rightarrow> 0 | p # _ \<Rightarrow> fst p) [] []"
    by (simp add: rate_inv_def window_def)
  moreover have "sorted ((case polls of [] \<Rightarrow> 0 | p # _ \<Rightarrow> fst p) # map fst polls)"
    using assms(1) by (cases polls) auto
  ultimately obtain u where "rate_inv limit u (fst (express_run limit [] [] polls)) (snd (express_run limit [] [] polls))"
    using express_run_inv by blast
  then have "window w (snd (express_run limit [] [] polls)) \<noteq> [] \<Longrightarrow>
      of_nat (length (window w (snd (express_run limit [] [] polls)))) < limit + 1"
    unfolding rate_inv_def by blast
  then show ?thesis using assms(2) by (cases "window w (snd (express_run limit [] [] polls)) = []") (auto simp: window_def)
qed

theorem express_rate_limited_witness:
  "snd (express_run 2 [] [] [(0, True), (10, True), (20, True), (70000, True)]) = [0, 10, 70000] \<and>
   of_nat (length (filter (\<lambda>a. 50 - RATE_WINDOW_MS < a \<and> a \<le> 50) (snd (express_run 2 [] [] [(0, True), (10, True), (20, True), (70000, True)])))) < (2 :: rat) + 1"
proof -
  have h: "sorted (map fst [(0 :: rat, True), (10, True), (20, True), (70000, True)])" by simp
  have v: "snd (express_run 2 [] [] [(0, True), (10, True), (20, True), (70000, True)]) = [0, 10, 70000]"
    by code_simp
  show ?thesis using v express_rate_limited[OF h, of 2 50] by simp
qed

text \<open>
  A shell family can form. The comment on \<^verbatim>\<open>commandFamily\<close> says that a shell running a script has no family, so that a
  bare \<^verbatim>\<open>sh\<close> family never forms. It holds when the shell is the first word, but a leading assignment, which the
  wrapper loop does not look through and the final filter drops, leaves the shell itself as the family.
\<close>

theorem commandFamily_bare_shell:
  "commandFamily (Some ''sh build.sh'') = [] \<and> commandFamily (Some ''FOO=1 sh build.sh'') = [''sh'']"
  by code_simp

end
