(* ===== verification/Selectors.thy ===== *)
theory Selectors
  imports Skips Classes Express
begin

text \<open>
  Who may start: the conflict predicate and the queue walks of src/scheduler.js (conflict, capacity and resource backfill),
  the floor slot, the queue-bypass trial, and the futility verdict on a head. All are pure functions of the queue view,
  the held leases and one poll's samples.
\<close>

section \<open>Conflicts\<close>

text \<open>What the conflict predicate reads of a holder: its id and its key.\<close>

type_synonym holder = "string \<times> string"

definition holders :: "lease list \<Rightarrow> holder list" where
  "holders held = map (\<lambda>l. (eid l, key l)) held"

definition key_ceiling :: "ticket \<Rightarrow> jsnum" where
  "key_ceiling t = (case maxConcurrent t of Some n \<Rightarrow> if is_integer n \<and> n \<ge> 1 then n else 1 | None \<Rightarrow> 1)"

definition blockedBy :: "holder list \<Rightarrow> ticket \<Rightarrow> holder option" where
  "blockedBy hs t =
     (case List.find (\<lambda>(_, k). k \<noteq> key t \<and> k \<in> set (conflicts t)) hs of
        Some h \<Rightarrow> Some h
      | None \<Rightarrow> (let same = filter (\<lambda>(_, k). k = key t) hs
                in if of_nat (length same) \<ge> key_ceiling t then Some (last same) else None))"

definition sameKeyHolder :: "lease list \<Rightarrow> ticket \<Rightarrow> holder option" where
  "sameKeyHolder held t = blockedBy (holders (filter (\<lambda>l. key l = key t) held)) (t\<lparr>conflicts := []\<rparr>)"

definition lease_weight :: "lease \<Rightarrow> jsnum" where
  "lease_weight l = num_or (leaseWeight l) 0"

definition running_weight :: "lease list \<Rightarrow> jsnum" where
  "running_weight held = (\<Sum>l \<leftarrow> held. lease_weight l)"

section \<open>The queue walks\<close>

fun selectCandidate :: "ticket rqueue \<Rightarrow> lease list \<Rightarrow> ticket option" where
  "selectCandidate [] held = None"
| "selectCandidate (None # q) held = None"
| "selectCandidate (Some t # q) held = (if blockedBy (holders held) t = None then Some t else selectCandidate q held)"

fun selectCapacityCandidate :: "ticket rqueue \<Rightarrow> lease list \<Rightarrow> jsnum \<Rightarrow> jsnum \<Rightarrow> ticket option" where
  "selectCapacityCandidate [] held rw cap = None"
| "selectCapacityCandidate (None # q) held rw cap = None"
| "selectCapacityCandidate (Some t # q) held rw cap =
     (if blockedBy (holders held) t = None \<and> rw + weight t \<le> cap then Some t
      else selectCapacityCandidate q held rw cap)"

text \<open>The cheapest of the estimates for the whole grants \<open>lo..hi\<close> (the loop of \<^verbatim>\<open>ticketCpuFloor\<close>).\<close>

definition grant_floor :: "estimates \<Rightarrow> ticket \<Rightarrow> cfg \<Rightarrow> jsnum option \<Rightarrow> int \<Rightarrow> int \<Rightarrow> jsnum \<Rightarrow> jsnum" where
  "grant_floor est t c limit lo hi start =
     foldl (\<lambda>acc n. min acc (ticketCpuEstimate est (resized t n) c limit)) start [lo..hi]"

definition ticketCpuFloor :: "estimates \<Rightarrow> ticket \<Rightarrow> cfg \<Rightarrow> jsnum option \<Rightarrow> lease list \<Rightarrow> jsnum option \<Rightarrow> jsnum" where
  "ticketCpuFloor est t c bud held headroom =
     (let raiseBudget = (if held \<noteq> [] then bud else None);
          estimate = ticketCpuEstimate est t c raiseBudget
      in case res_min t of
           None \<Rightarrow> estimate
         | Some m \<Rightarrow>
             if raiseBudget = None \<or> headroom = None then min estimate (js_ceil m)
             else (case elasticClaimRange (res_cpu t) (Some m) headroom of
                     None \<Rightarrow> estimate
                   | Some (hi, lo) \<Rightarrow> grant_floor est t c raiseBudget lo hi estimate))"

text \<open>The synthetic reservation of a head: its claim counted as if it held a lease.\<close>

definition head_reservation :: "ticket \<Rightarrow> lease" where
  "head_reservation t = \<lparr>eid = eid t, key = key t, resources = resources t, configLane = configLane t,
     cmdFingerprint = cmdFingerprint t, klass = None, exclusive = False, nice = None, priorityRequested = None,
     priorityAdmitted = None, priorityDemoted = False, maxConcurrent = None, pushGate = None, repoId = None,
     supervisorPid = None, supervisorStart = None, bypassRefused = None, leaseWeight = Some (weight t), state = RUNNING,
     leaseBootId = None, childPgid = None, heartbeatAt = None, admittedAt = None, observedAt = None,
     observedCpuCores = None, observedMemoryBytes = None, observedCpuHistory = [], cpuIntervalCores = None,
     cpuIdleSince = None, cpuIdleLastAt = None, grantedCpuCores = None, queueBypass = None, floorSlot = False,
     classEnforced = False, effectiveRankAtStart = 0, scoreAtStart = 0, leaseRetieredAt = None, leaseDeclaredCpu = None,
     orphanReap = None\<rparr>"

definition snapshot_mem :: "jsnum \<times> jsnum \<Rightarrow> mem_info" where
  "snapshot_mem m = \<lparr>availableBytes = Some (fst m), totalBytes = Some (snd m), macCritical = False\<rparr>"

text \<open>Whether a queued ticket may be backfilled past the head, and the claim it is ranked by.\<close>

definition resource_fit ::
  "estimates \<Rightarrow> ticket \<Rightarrow> lease list \<Rightarrow> jsnum \<Rightarrow> jsnum \<Rightarrow> resource_rec \<Rightarrow> cfg \<Rightarrow> jsnum \<Rightarrow> bool \<Rightarrow> ticket \<Rightarrow> jsnum option" where
  "resource_fit est head held rw cap rc c now headReserved t =
     (let view = (if headReserved then held @ [head_reservation head] else held);
          viewWeight = (if headReserved then rw + weight head else rw);
          bud = Some (rrBudget rc)
      in if blockedBy (holders held) t \<noteq> None then None
         else if viewWeight + weight t > cap then None
         else if (if headReserved then blockedBy [(eid t, key t)] head \<noteq> None \<or> blockedBy [(eid head, key head)] t \<noteq> None
                  else blockedBy (holders held @ [(eid t, key t)]) head \<noteq> None) then None
         else (let claim = ticketCpuFloor est t c bud held
                     (Some (rrBudget rc - projectBusy est (rrExternal rc) view 0 now c bud None))
               in if projectBusy est (rrExternal rc) view claim now c bud None > rrBudget rc then None
                  else if (case rrMem rc of
                             Some m \<Rightarrow> \<not> memAdmit (evaluateMemoryAdmission (Some (snapshot_mem m)) view (ticket_mem t c) c now)
                           | None \<Rightarrow> False) then None
                  else Some claim))"

fun best_fit :: "(ticket \<Rightarrow> jsnum option) \<Rightarrow> ticket rqueue \<Rightarrow> (ticket \<times> jsnum) option \<Rightarrow> ticket option" where
  "best_fit fit [] best = map_option fst best"
| "best_fit fit (None # q) best = map_option fst best"
| "best_fit fit (Some t # q) best =
     best_fit fit q
       (case fit t of
          None \<Rightarrow> best
        | Some claim \<Rightarrow> (case best of
            None \<Rightarrow> Some (t, claim)
          | Some (_, bc) \<Rightarrow> if claim < bc then Some (t, claim) else best))"

definition selectResourceCandidate ::
  "estimates \<Rightarrow> ticket rqueue \<Rightarrow> lease list \<Rightarrow> jsnum \<Rightarrow> jsnum \<Rightarrow> resource_rec \<Rightarrow> cfg \<Rightarrow> jsnum \<Rightarrow> bool \<Rightarrow> ticket option" where
  "selectResourceCandidate est q held rw cap rc c now headReserved =
     (case head_of q of
        None \<Rightarrow> None
      | Some head \<Rightarrow> best_fit (resource_fit est head held rw cap rc c now headReserved) (tl q) None)"

section \<open>The floor slot\<close>

definition isFloorTicket :: "ticket \<Rightarrow> bool" where
  "isFloorTicket t \<longleftrightarrow> pushGate t \<noteq> None \<and> \<not> remote t \<and> localReason t = None \<and> classOf t \<noteq> SimClass \<and> \<not> exclusive t"

definition within_overshoot :: "cfg \<Rightarrow> decision \<Rightarrow> bool" where
  "within_overshoot c d \<longleftrightarrow> dMemoryReason d = Some MemOk \<and> dCpuReason d \<noteq> Some Cooldown \<and>
     (admit d \<or> (case (dProjectedBusy d, dBudget d) of (Some p, Some b) \<Rightarrow> p - b \<le> floorOvershootCores c | _ \<Rightarrow> False))"

definition runnable :: "cfg \<Rightarrow> host \<Rightarrow> lease list \<Rightarrow> jsnum \<Rightarrow> ticket \<Rightarrow> bool" where
  "runnable c h held cap t \<longleftrightarrow>
     blockedBy (holders held) t = None \<and> running_weight held + weight t \<le> cap \<and> \<not> elasticBelowFloor t c h"

fun floor_walk :: "(ticket \<Rightarrow> bool) \<Rightarrow> ticket rqueue \<Rightarrow> ticket option" where
  "floor_walk ok [] = None"
| "floor_walk ok (None # q) = None"
| "floor_walk ok (Some t # q) = (if exclusive t then None else if isFloorTicket t \<and> ok t then Some t else floor_walk ok q)"

definition floorWinner ::
  "estimates \<Rightarrow> cfg \<Rightarrow> host \<Rightarrow> ticket rqueue \<Rightarrow> lease list \<Rightarrow> cpu_sample option \<Rightarrow> mem_info option \<Rightarrow> bool \<Rightarrow> bool \<Rightarrow> jsnum \<Rightarrow>
   jsnum \<Rightarrow> ticket option" where
  "floorWinner est c h q held sample mi shut loadShut cap now =
     (if (case mi of Some i \<Rightarrow> macCritical i | None \<Rightarrow> False) \<or> (admissionLoadGate c \<and> loadShut \<and> held \<noteq> []) then None
      else case head_of q of
          None \<Rightarrow> None
        | Some head \<Rightarrow>
            (let cooldown = cooldownActive held c now;
                 decide = (\<lambda>t cl. decideAdmission est c t held sample mi cl cooldown now);
                 hd' = decide head shut;
                 headStarts = runnable c h held cap head \<and>
                   (admit hd' \<or> evaluateElasticAdmission est c head held sample mi hd' now \<noteq> None \<or>
                    (held = [] \<and> dCpuReason hd' = Some ProjectedOverBudget \<and> within_overshoot c hd'))
             in if headStarts then None
                else floor_walk (\<lambda>t. runnable c h held cap t \<and> within_overshoot c (decide t False)) q))"

section \<open>The queue bypass\<close>

definition bypass_held :: "lease list \<Rightarrow> lease list" where
  "bypass_held held = filter (\<lambda>l. queueBypass l \<noteq> None) held"

definition bypass_in_window :: "cfg \<Rightarrow> lease list \<Rightarrow> jsnum \<Rightarrow> nat" where
  "bypass_in_window c held now =
     length (filter (\<lambda>l. case admittedAt l of Some a \<Rightarrow> now - a < queueBypassMaxMs c | None \<Rightarrow> False) (bypass_held held))"

text \<open>The test \<^verbatim>\<open>/^(train|release)([-_:.]|$)/\<close>.\<close>

definition excluded_lane :: "string \<Rightarrow> bool" where
  "excluded_lane s =
     list_ex (\<lambda>p. take (length p) s = p \<and>
       (case drop (length p) s of [] \<Rightarrow> True | ch # _ \<Rightarrow> ch \<in> {CHR ''-'', CHR ''_'', CHR '':'', CHR ''.''}))
       [''train'', ''release'']"

definition bypassTrialVerdict ::
  "express_table \<Rightarrow> cfg \<Rightarrow> host \<Rightarrow> ticket \<Rightarrow> lease list \<Rightarrow> ticket rqueue \<Rightarrow> jsnum \<Rightarrow> jsnum \<Rightarrow> bypass_refusal + jsnum \<times> express_source" where
  "bypassTrialVerdict tb c h t held ahead cap now =
     (let inWindow = bypass_in_window c held now; total = length (bypass_held held)
      in if schedulerMode c \<noteq> Active then Inl NotActive
         else if \<not> (of_nat inWindow < queueBypassCap c \<and> of_nat (total - inWindow) < queueBypassCap c) then Inl CapFull
         else if exclusive t then Inl ExclusiveTicket
         else if excluded_lane (nullish (nullish_opt (configLane t) (lane t)) []) then Inl ExcludedLane
         else if classOf t = SimClass then Inl SimTicket
         else if \<not> list_all (\<lambda>u. case u of Some v \<Rightarrow> \<not> exclusive v | None \<Rightarrow> False) ahead then Inl ExclusiveAhead
         else if blockedBy (holders held) t \<noteq> None then Inl BypassConflict
         else if \<not> running_weight held + weight t \<le> cap then Inl BypassCapacity
         else if elasticBelowFloor t c h then Inl ElasticFloor
         else bypassVerdict tb t c)"

section \<open>Futility\<close>

definition occupied_mem :: "lease list \<Rightarrow> cfg \<Rightarrow> jsnum \<Rightarrow> jsnum" where
  "occupied_mem held c now =
     (\<Sum>l \<leftarrow> held. if fresh_at (observedAt l) now \<and> observedMemoryBytes l \<noteq> None
                  then nullish (observedMemoryBytes l) 0 else lease_mem l c)"

definition headFutility ::
  "estimates \<Rightarrow> cfg \<Rightarrow> ticket \<Rightarrow> lease list \<Rightarrow> cpu_sample option \<Rightarrow> decision \<Rightarrow> mem_info option \<Rightarrow> jsnum \<Rightarrow>
   (string \<times> jsnum \<times> jsnum) option" where
  "headFutility est c t held sample d mi now =
     (if list_ex (\<lambda>l. freshObservedCores l now = None) held then None
      else (let headCpu = ticketCpuFloor est t c None [] None;
                sampledAt' = nullish (Option.bind sample sampledAt) now;
                memFutile = (case mi of
                   Some i \<Rightarrow> (case availableBytes i of
                      Some a \<Rightarrow> \<not> memAdmit (evaluateMemoryAdmission (Some (i\<lparr>availableBytes := Some (a + occupied_mem held c now)\<rparr>))
                                  [] (ticket_mem t c) c now)
                    | None \<Rightarrow> False)
                 | None \<Rightarrow> False);
                cpuFutile = (case (sample, dExternalBusy d) of
                   (Some s, Some e) \<Rightarrow>
                     (let v = evaluateCpuAdmission est (Some (s\<lparr>hostBusyCores := Some e, preemptibleBusyCores := Some 0\<rparr>)) []
                            \<lparr>candRef = None, candPriority = None, candCores = headCpu\<rparr> False False c now;
                          over = (case (projectedBusy v, budget v) of (Some p, Some b) \<Rightarrow> p - b \<le> resourceIdleOvershootCores c | _ \<Rightarrow> False);
                          idleExempt = resourceIdleOvershootCores c > 0 \<and> over
                      in cpuReason v = ProjectedOverBudget \<and> \<not> idleExempt)
                 | _ \<Rightarrow> False)
            in if memFutile then Some (''memory'', headCpu, sampledAt')
               else if cpuFutile then Some (''cpu'', headCpu, sampledAt') else None))"

section \<open>Lemmas\<close>

lemma key_ceiling_ge_1: "1 \<le> key_ceiling t"
  by (auto simp: key_ceiling_def split: option.splits)

lemma holders_append [simp]: "holders (xs @ ys) = holders xs @ holders ys"
  by (simp add: holders_def)

lemma holders_simps [simp]: "holders [] = []" "holders (l # ls) = (eid l, key l) # holders ls"
  by (simp_all add: holders_def)

text \<open>No holder in conflict, and fewer holders of the ticket's own key than its key_ceiling.\<close>

lemma blockedBy_None_iff:
  "blockedBy hs t = None \<longleftrightarrow>
     (\<forall>(i, k) \<in> set hs. k = key t \<or> k \<notin> set (conflicts t)) \<and>
     of_nat (length (filter (\<lambda>(_, k). k = key t) hs)) < key_ceiling t"
  by (auto simp: blockedBy_def Let_def find_None_iff split: option.splits dest!: find_SomeD)

lemma blockedBy_holders_None:
  "blockedBy (holders ls) t = None \<longleftrightarrow>
     (\<forall>l \<in> set ls. key l \<noteq> key t \<longrightarrow> key l \<notin> set (conflicts t)) \<and>
     of_nat (length (filter (\<lambda>l. key l = key t) ls)) < key_ceiling t"
proof -
  have "length (filter (\<lambda>(_, k). k = key t) (holders ls)) = length (filter (\<lambda>l. key l = key t) ls)"
    by (induction ls) auto
  moreover have "(\<forall>(i, k) \<in> set (holders ls). k = key t \<or> k \<notin> set (conflicts t)) =
      (\<forall>l \<in> set ls. key l \<noteq> key t \<longrightarrow> key l \<notin> set (conflicts t))"
    by (auto simp: holders_def)
  ultimately show ?thesis by (simp add: blockedBy_None_iff)
qed

lemma blockedBy_mono:
  assumes "blockedBy hs t = None" "\<And>P. length (filter P hs') \<le> length (filter P hs)" "set hs' \<subseteq> set hs"
  shows "blockedBy hs' t = None"
proof -
  have "(of_nat (length (filter (\<lambda>(_, k). k = key t) hs')) :: jsnum) \<le> of_nat (length (filter (\<lambda>(_, k). k = key t) hs))"
    using assms(2) by (simp only: of_nat_le_iff)
  then show ?thesis
    using assms(1,3) unfolding blockedBy_None_iff by (meson le_less_trans subsetD)
qed

lemma blockedBy_empty [simp]: "blockedBy [] t = None"
  using key_ceiling_ge_1[of t] by (simp add: blockedBy_None_iff)

lemma blockedBy_cong:
  assumes "key t = key u" "conflicts t = conflicts u" "maxConcurrent t = maxConcurrent u"
  shows "blockedBy hs t = blockedBy hs u"
  unfolding blockedBy_def key_ceiling_def assms ..

lemma selectCandidate_SomeD:
  "selectCandidate q held = Some t \<Longrightarrow> Some t \<in> set q \<and> blockedBy (holders held) t = None"
  by (induction q held rule: selectCandidate.induct) (auto split: if_splits)

lemma selectCapacityCandidate_SomeD:
  "selectCapacityCandidate q held rw cap = Some t \<Longrightarrow>
     Some t \<in> set q \<and> blockedBy (holders held) t = None \<and> rw + weight t \<le> cap"
  by (induction q held rw cap rule: selectCapacityCandidate.induct) (auto split: if_splits)

text \<open>The first eligible ticket of the readable prefix, and nothing behind an unreadable record.\<close>

lemma selectCandidate_first:
  assumes "selectCandidate q held = Some t"
  shows "\<exists>pre post. q = map Some pre @ Some t # post \<and> (\<forall>u \<in> set pre. blockedBy (holders held) u \<noteq> None)"
  using assms
proof (induction q held rule: selectCandidate.induct)
  case (3 u q held)
  show ?case
  proof (cases "blockedBy (holders held) u = None")
    case True
    then show ?thesis using 3 by (intro exI[of _ "[]"] exI[of _ q]) auto
  next
    case False
    then obtain pre post where "q = map Some pre @ Some t # post" "\<forall>u \<in> set pre. blockedBy (holders held) u \<noteq> None"
      using 3 by auto
    then show ?thesis using False by (intro exI[of _ "u # pre"]) auto
  qed
qed simp_all

lemma best_fit_sound:
  assumes "best_fit fit q best = Some t" "\<And>b bc. best = Some (b, bc) \<Longrightarrow> fit b = Some bc"
  shows "(Some t \<in> set q \<or> (\<exists>bc. best = Some (t, bc))) \<and> fit t \<noteq> None"
  using assms
proof (induction fit q best rule: best_fit.induct)
  case (3 fit u q best)
  show ?case
  proof (cases "fit u")
    case None
    then show ?thesis using 3 by auto
  next
    case (Some cl)
    then show ?thesis using 3 by (cases best) (auto split: if_splits)
  qed
qed (auto split: option.splits)

lemma best_fit_least:
  assumes "best_fit fit q best = Some t" "fit t = Some ct" "\<And>b bc. best = Some (b, bc) \<Longrightarrow> fit b = Some bc"
  shows "(\<forall>b bc. best = Some (b, bc) \<longrightarrow> ct \<le> bc) \<and>
    (\<forall>u cu. u \<in> set (readable (takeWhile (\<lambda>x. x \<noteq> None) q)) \<and> fit u = Some cu \<longrightarrow> ct \<le> cu)"
  using assms
proof (induction fit q best rule: best_fit.induct)
  case (3 fit u q best)
  show ?case
  proof (cases "fit u")
    case None
    then show ?thesis using 3 by auto
  next
    case (Some cl)
    show ?thesis
    proof (cases best)
      case None
      have "best_fit fit q (Some (u, cl)) = Some t" using 3(2) Some None by simp
      then have "ct \<le> cl \<and> (\<forall>v cv. v \<in> set (readable (takeWhile (\<lambda>x. x \<noteq> None) q)) \<and> fit v = Some cv \<longrightarrow> ct \<le> cv)"
        using 3(1)[of ] 3(3) Some None by auto
      then show ?thesis using None Some by auto
    next
      case (Some b)
      obtain b0 bc where b: "best = Some (b0, bc)" using Some by (cases b) auto
      define nb where "nb = (if cl < bc then Some (u, cl) else best)"
      have "best_fit fit q nb = Some t" using 3(2) \<open>fit u = Some cl\<close> b by (auto simp: nb_def)
      then have "(\<forall>b bc. nb = Some (b, bc) \<longrightarrow> ct \<le> bc) \<and>
          (\<forall>v cv. v \<in> set (readable (takeWhile (\<lambda>x. x \<noteq> None) q)) \<and> fit v = Some cv \<longrightarrow> ct \<le> cv)"
        using 3(1) 3(3,4) \<open>fit u = Some cl\<close> b by (auto simp: nb_def split: if_splits)
      then show ?thesis using b \<open>fit u = Some cl\<close> by (auto simp: nb_def split: if_splits)
    qed
  qed
qed (auto split: option.splits)

lemma resource_fit_SomeD:
  assumes "resource_fit est head held rw cap rc c now hr t = Some claim"
  shows "blockedBy (holders held) t = None \<and> rw + (if hr then weight head else 0) + weight t \<le> cap \<and>
    projectBusy est (rrExternal rc) (if hr then held @ [head_reservation head] else held) claim now c (Some (rrBudget rc)) None \<le> rrBudget rc"
  using assms by (auto simp: resource_fit_def Let_def split: if_splits)

lemma resource_fit_head_stays_free:
  assumes "resource_fit est head held rw cap rc c now False t = Some claim"
  shows "blockedBy (holders held @ [(eid t, key t)]) head = None"
  using assms by (auto simp: resource_fit_def Let_def split: if_splits)

lemma selectResourceCandidate_SomeD:
  assumes "selectResourceCandidate est q held rw cap rc c now hr = Some t"
  shows "Some t \<in> set (tl q) \<and> blockedBy (holders held) t = None \<and>
    (\<exists>head claim. head_of q = Some head \<and> resource_fit est head held rw cap rc c now hr t = Some claim)"
proof -
  obtain head where h: "head_of q = Some head" "best_fit (resource_fit est head held rw cap rc c now hr) (tl q) None = Some t"
    using assms by (auto simp: selectResourceCandidate_def split: option.splits)
  then have "Some t \<in> set (tl q)" "resource_fit est head held rw cap rc c now hr t \<noteq> None"
    using best_fit_sound by fastforce+
  then show ?thesis using h resource_fit_SomeD by blast
qed

lemma floor_walk_SomeD: "floor_walk ok q = Some t \<Longrightarrow> Some t \<in> set q \<and> isFloorTicket t \<and> ok t"
  by (induction ok q rule: floor_walk.induct) (auto split: if_splits)

lemma floorWinner_SomeD:
  assumes "floorWinner est c h q held sample mi shut loadShut cap now = Some t"
  shows "Some t \<in> set q \<and> isFloorTicket t \<and> runnable c h held cap t \<and>
    within_overshoot c (decideAdmission est c t held sample mi False (cooldownActive held c now) now)"
  using assms by (auto simp: floorWinner_def Let_def split: option.splits if_splits dest!: floor_walk_SomeD)

lemma bypassTrialVerdict_InrD:
  assumes "bypassTrialVerdict tb c h t held ahead cap now = Inr v"
  shows "schedulerMode c = Active \<and> \<not> exclusive t \<and> classOf t \<noteq> SimClass \<and> blockedBy (holders held) t = None \<and>
    running_weight held + weight t \<le> cap \<and> \<not> elasticBelowFloor t c h \<and>
    of_nat (bypass_in_window c held now) < queueBypassCap c \<and>
    of_nat (length (bypass_held held) - bypass_in_window c held now) < queueBypassCap c \<and>
    list_all (\<lambda>u. case u of Some v \<Rightarrow> \<not> exclusive v | None \<Rightarrow> False) ahead"
  using assms by (auto simp: bypassTrialVerdict_def Let_def split: if_splits)

end
