(* ===== verification/Broker.thy ===== *)
theory Broker
  imports Leases Attempts Push_Gate Selectors Gates
begin

text \<open>
  The broker's shared state under its state root, and the queue operations of src/scheduler.js that run under the global lock:
  intake (enqueue), the per-repository high cap, withdrawal and restore, re-tiering, dequeue and the reaping that
  starts every admission. A directory is a list of files; a queue file is its name (sequence number and ticket id)
  with its record, or \<open>None\<close> when it cannot be read. Probes of processes and the success of writes are inputs.
\<close>

section \<open>State\<close>

type_synonym qfile = "jsnum \<times> string \<times> ticket option"

record parked_file =
  pkSeq :: jsnum
  pkId :: string
  pkRecord :: "ticket option"
  pkLegacy :: "(skip_kind \<times> skip_raw) list"

record result =
  resExit :: int
  resCancelled :: bool
  resReason :: "string option"
  resSupersededBy :: "string option"

text \<open>\<^verbatim>\<open>external-starved.json\<close>: since when admission has been denied mostly because of load outside the leases.\<close>

record starved =
  starvedSince :: jsnum
  starvedLastAt :: jsnum
  starvedExternal :: jsnum
  starvedBudget :: jsnum

record broker =
  queueDir :: "qfile list"
  parkedDir :: "parked_file list"
  quarantineDir :: "qfile list"
  legacyQueueNames :: "string list"
  migrating :: bool
  leaseDir :: "lease list"
  attemptDir :: attempts
  resultDir :: "(string \<times> result) list"
  seqFile :: "jsnum option"
  hwmFile :: "jsnum option"
  loadGateFile :: "gate option"
  cpuGateFile :: "raw_gate option"
  fenceFile :: fence_file
  fairnessFile :: fair_file
  legacyFiles :: legacy_files
  pauseFile :: "string option"
  cancelMarkers :: "string list"
  expireMarkers :: "string list"
  withdrawMarkers :: "string list"
  supersededMarkers :: "(string \<times> string) list"
  expressFile :: "jsnum list"
  simArmFile :: "jsnum option"
  starvedFile :: "starved option"
  historyRows :: "(string \<times> bool) list"

text \<open>What a call observes of the host: two clocks (wall and admission), the boot id, process probes, capacity.\<close>

record probes =
  pNow :: jsnum
  pBoot :: "string option"
  pAlive :: "jsnum option \<Rightarrow> string option \<Rightarrow> bool"
  pLease :: "lease \<Rightarrow> lease_probe"
  pPublishOk :: "string \<Rightarrow> bool"
  pUnlinkOk :: "string \<Rightarrow> bool"

section \<open>Files and markers\<close>

definition listQueue :: "broker \<Rightarrow> ticket rqueue" where
  "listQueue b = map (\<lambda>(_, _, t). t) (queueDir b)"

definition listQueueCapped :: "broker \<Rightarrow> cfg \<Rightarrow> host \<Rightarrow> ticket rqueue" where
  "listQueueCapped b c h = map (map_option (\<lambda>t. capElasticClaim t c h)) (listQueue b)"

definition findQueueFile :: "broker \<Rightarrow> string \<Rightarrow> qfile option" where
  "findQueueFile b i = List.find (\<lambda>(_, j, _). j = i) (queueDir b)"

definition isCancelled :: "broker \<Rightarrow> string \<Rightarrow> bool" where
  "isCancelled b i \<longleftrightarrow> i \<in> set (cancelMarkers b)"

definition readSupersededBy :: "broker \<Rightarrow> string \<Rightarrow> string option" where
  "readSupersededBy b i = map_of (supersededMarkers b) i"

definition is_live :: "broker \<Rightarrow> string \<Rightarrow> bool" where
  "is_live b i \<longleftrightarrow> \<not> isCancelled b i \<and> readSupersededBy b i = None"

definition listRebindingIds :: "broker \<Rightarrow> string list" where
  "listRebindingIds b = map pkId (parkedDir b)"

definition held :: "broker \<Rightarrow> lease list" where
  "held b = held_leases (leaseDir b)"

definition store_of :: "broker \<Rightarrow> store" where
  "store_of b = (case resolveScheduler (fenceFile b) (fairnessFile b) of
     Inr ts \<Rightarrow> FairStore ts | Inl _ \<Rightarrow> LegacyStore (legacyFiles b))"

definition put_store :: "broker \<Rightarrow> store \<Rightarrow> broker" where
  "put_store b st = (case st of FairStore ts \<Rightarrow> b\<lparr>fairnessFile := FairTickets ts\<rparr> | LegacyStore f \<Rightarrow> b\<lparr>legacyFiles := f\<rparr>)"

definition assertQueueLayout :: "broker \<Rightarrow> bool" where
  "assertQueueLayout b \<longleftrightarrow> \<not> (readSchedulerFence (fenceFile b) = StatusValid \<and> legacyQueueNames b \<noteq> [])"

definition fenceLegacy :: "ticket rqueue \<Rightarrow> ticket rqueue" where
  "fenceLegacy q = map (\<lambda>t. case t of Some u \<Rightarrow> if schedVersion u \<noteq> Some 2 then None else t | None \<Rightarrow> None) q"

text \<open>\<^verbatim>\<open>quarantineLegacyRecords\<close>: every readable record without version 2 is moved aside, if its rename succeeds.\<close>

definition quarantined :: "(string \<Rightarrow> bool) \<Rightarrow> qfile \<Rightarrow> bool" where
  "quarantined ok f = (case f of (_, i, Some t) \<Rightarrow> schedVersion t \<noteq> Some 2 \<and> ok i | _ \<Rightarrow> False)"

definition quarantineLegacyRecords :: "(string \<Rightarrow> bool) \<Rightarrow> broker \<Rightarrow> broker" where
  "quarantineLegacyRecords ok b = b\<lparr>queueDir := filter (\<lambda>f. \<not> quarantined ok f) (queueDir b),
     quarantineDir := quarantineDir b @ filter (quarantined ok) (queueDir b)\<rparr>"

fun remove_file :: "string \<Rightarrow> qfile list \<Rightarrow> qfile list" where
  "remove_file i [] = []"
| "remove_file i (f # fs) = (if fst (snd f) = i then fs else f # remove_file i fs)"

definition dequeueSync :: "bool \<Rightarrow> broker \<Rightarrow> string \<Rightarrow> bool \<times> broker" where
  "dequeueSync ok b i =
     (case findQueueFile b i of
        None \<Rightarrow> (True, b)
      | Some _ \<Rightarrow> if ok then (True, b\<lparr>queueDir := remove_file i (queueDir b)\<rparr>) else (False, b))"

definition file_key :: "qfile \<Rightarrow> jsnum \<times> string" where
  "file_key f = (fst f, fst (snd f))"

definition write_queue :: "qfile \<Rightarrow> broker \<Rightarrow> broker" where
  "write_queue f b = b\<lparr>queueDir := insort_key file_key f (filter (\<lambda>g. file_key g \<noteq> file_key f) (queueDir b))\<rparr>"

section \<open>The sim-arm stamp\<close>

text \<open>\<^verbatim>\<open>touchSimArm\<close> (src/sim-arm.js): monotone; skipped when its own small lock cannot be had.\<close>

definition touchSimArm :: "bool \<Rightarrow> jsnum option \<Rightarrow> jsnum \<Rightarrow> jsnum option" where
  "touchSimArm lockOk stamp now =
     (if \<not> lockOk then stamp else (case stamp of Some s \<Rightarrow> if s < now then Some now else stamp | None \<Rightarrow> Some now))"

definition touchSimArmFor :: "bool \<Rightarrow> 'a entry_scheme \<Rightarrow> jsnum \<Rightarrow> broker \<Rightarrow> broker" where
  "touchSimArmFor lockOk e now b =
     (if klass e = Some SimClass then b\<lparr>simArmFile := touchSimArm lockOk (simArmFile b) now\<rparr> else b)"

definition reconcileSimArm :: "bool \<Rightarrow> ticket rqueue \<Rightarrow> lease list \<Rightarrow> jsnum \<Rightarrow> jsnum \<Rightarrow> broker \<Rightarrow> broker" where
  "reconcileSimArm lockOk q hl now windowMs b =
     (let demand = list_ex (\<lambda>t. case t of Some u \<Rightarrow> klass u = Some SimClass | None \<Rightarrow> False) q \<or> list_ex (\<lambda>l. klass l = Some SimClass) hl
      in if demand \<and> (case simArmFile b of Some s \<Rightarrow> now - s > windowMs * (1 / 10) | None \<Rightarrow> True)
         then b\<lparr>simArmFile := touchSimArm lockOk (simArmFile b) now\<rparr> else b)"

section \<open>Starvation by external load\<close>

definition STARVED_BUSY_SHARE :: jsnum where
  "STARVED_BUSY_SHARE = 1 / 4"

definition starvedStaleMs :: "cfg \<Rightarrow> jsnum" where
  "starvedStaleMs c = max 30000 (6 * sampleMs c)"

definition recordExternalDenial :: "bool \<Rightarrow> cfg \<Rightarrow> decision \<Rightarrow> jsnum \<Rightarrow> starved option \<Rightarrow> starved option" where
  "recordExternalDenial wok c d now prev =
     (if \<not> wok then prev
      else case (dBudget d, dExternalBusy d) of
          (Some bud, Some ext) \<Rightarrow>
            if \<not> bud > 0 \<or> ext < STARVED_BUSY_SHARE * bud then None
            else (case prev of
                    Some s \<Rightarrow>
                      if now - starvedLastAt s \<le> starvedStaleMs c
                      then if now - starvedLastAt s < sampleMs c then prev
                           else Some (s\<lparr>starvedLastAt := now, starvedExternal := ext, starvedBudget := bud\<rparr>)
                      else Some \<lparr>starvedSince = now, starvedLastAt = now, starvedExternal = ext, starvedBudget = bud\<rparr>
                  | None \<Rightarrow> Some \<lparr>starvedSince = now, starvedLastAt = now, starvedExternal = ext, starvedBudget = bud\<rparr>)
        | _ \<Rightarrow> None)"

definition clearExternalStarved :: "bool \<Rightarrow> broker \<Rightarrow> broker" where
  "clearExternalStarved wok b = (if wok then b\<lparr>starvedFile := None\<rparr> else b)"

section \<open>Intake\<close>

datatype ticket_place = PlaceQueued | PlaceRebinding | PlaceLeased | PlaceFinished | PlaceAttempt

definition existingTicket :: "broker \<Rightarrow> string \<Rightarrow> int option \<Rightarrow> ticket_place option" where
  "existingTicket b i owner =
     (if findQueueFile b i \<noteq> None then Some PlaceQueued
      else if i \<in> set (listRebindingIds b) then Some PlaceRebinding
      else if readLease (leaseDir b) i \<noteq> None then Some PlaceLeased
      else if map_of (resultDir b) i \<noteq> None then Some PlaceFinished
      else case readAttempt (attemptDir b) i of
          Some a \<Rightarrow> if owner = Some (generation a) then None else Some PlaceAttempt
        | None \<Rightarrow> None)"

definition counts_high :: "(jsnum option \<Rightarrow> string option \<Rightarrow> bool) \<Rightarrow> string option \<Rightarrow> string option \<Rightarrow> ticket \<Rightarrow> bool" where
  "counts_high alive repo exclude t \<longleftrightarrow>
     Some (eid t) \<noteq> exclude \<and> repoId t = repo \<and> priorityRequested t = Some High \<and> priorityAdmitted t = Some High \<and>
     alive (supervisorPid t) (supervisorStart t)"

definition queued_high :: "(jsnum option \<Rightarrow> string option \<Rightarrow> bool) \<Rightarrow> ticket rqueue \<Rightarrow> string option \<Rightarrow> string option \<Rightarrow> nat" where
  "queued_high alive q repo exclude = length (filter (counts_high alive repo exclude) (readable q))"

definition admitTier ::
  "(jsnum option \<Rightarrow> string option \<Rightarrow> bool) \<Rightarrow> ticket rqueue \<Rightarrow> string option \<Rightarrow> tier \<Rightarrow> cfg \<Rightarrow> string option \<Rightarrow> tier \<times> bool" where
  "admitTier alive q repo requested c exclude =
     (let demoted = (requested = High \<and> of_nat (queued_high alive q repo exclude) \<ge> maxQueuedHighPerRepo c)
      in (if demoted then Medium else requested, demoted))"

text \<open>One repeat of the incoming push: the older of the two is superseded by the newer and cancelled.\<close>

definition supersede_one :: "ticket \<Rightarrow> string \<times> push_gate option \<times> string option \<Rightarrow> broker \<times> string list \<Rightarrow> broker \<times> string list" where
  "supersede_one incoming oth st =
     (let (i, gate, repo) = oth; (b, targets) = st
      in case (gate, pushGate incoming) of
           (Some g, Some g0) \<Rightarrow>
             if i = eid incoming \<or> isCancelled b i \<or> readSupersededBy b i \<noteq> None \<or> repo \<noteq> repoId incoming \<or> \<not> isRepeatOfPush g g0
             then st
             else (let newer = pushOrder g g0 < 0;
                       loser = (if newer then i else eid incoming);
                       winner = (if newer then eid incoming else i)
                   in (b\<lparr>supersededMarkers := AList.update loser winner (supersededMarkers b),
                         cancelMarkers := List.insert loser (cancelMarkers b)\<rparr>,
                       if newer then targets @ [i] else targets))
         | _ \<Rightarrow> st)"

definition supersedeRepeatedPushes :: "ticket \<Rightarrow> broker \<Rightarrow> broker \<times> string list" where
  "supersedeRepeatedPushes incoming b =
     foldl (\<lambda>st o'. supersede_one incoming o' st) (b, [])
       (map (\<lambda>l. (eid l, pushGate l, repoId l)) (leaseDir b) @ map (\<lambda>t. (eid t, pushGate t, repoId t)) (readable (listQueue b)))"

datatype intake_error = MigrationInProgress | LegacyQueueAfterFence | WriteFailed

datatype enqueue_outcome = Refused intake_error | Existing ticket_place | Enqueued ticket "string list"

record enqueue_io =
  hwmOk :: bool
  seqOk :: bool
  queueOk :: bool
  armOk :: bool

definition queue_record :: "ticket \<Rightarrow> jsnum \<Rightarrow> jsnum \<Rightarrow> jsnum \<Rightarrow> tier \<Rightarrow> tier \<times> bool \<Rightarrow> ticket" where
  "queue_record t s now nowEff requested admitted =
     t\<lparr>seq := Some s, createdAt := Some (num_or (createdAt t) now), localSince := Some now,
       priorityRequested := Some requested, priorityAdmitted := Some (fst admitted), priorityDemoted := snd admitted,
       prioOriginAt := Some (originOrNow (prioOriginAt t) nowEff), schedVersion := Some 2\<rparr>"

definition enqueue :: "probes \<Rightarrow> enqueue_io \<Rightarrow> cfg \<Rightarrow> ticket \<Rightarrow> int option \<Rightarrow> broker \<Rightarrow> enqueue_outcome \<times> broker" where
  "enqueue pr io c t owner b =
     (case existingTicket b (eid t) owner of
        Some p \<Rightarrow> (Existing p, b)
      | None \<Rightarrow>
          if migrating b then (Refused MigrationInProgress, b)
          else if \<not> assertQueueLayout b then (Refused LegacyQueueAfterFence, b)
          else (let (nowEff, hwm) = advanceHwm (hwmOk io) (hwmFile b) (pNow pr);
                    b1 = b\<lparr>hwmFile := hwm\<rparr>;
                    requested = nullish (priorityRequested t) DEFAULT_PRIORITY;
                    admitted = admitTier (pAlive pr) (listQueue b1) (repoId t) requested c None
                in case nextSeq (seqOk io) (seqFile b1) of
                     None \<Rightarrow> (Refused WriteFailed, b1)
                   | Some s \<Rightarrow>
                       (let r = queue_record t s (pNow pr) nowEff requested admitted;
                            b2 = b1\<lparr>seqFile := Some s\<rparr>
                        in if \<not> queueOk io then (Refused WriteFailed, b2)
                           else (let b3 = touchSimArmFor (armOk io) r (pNow pr) (write_queue (s, eid t, Some r) b2);
                                     (b4, targets) = supersedeRepeatedPushes r b3
                                 in (Enqueued r targets, b4)))))"

section \<open>Withdrawal for a rebind\<close>

definition legacyFairnessOf :: "broker \<Rightarrow> string \<Rightarrow> (skip_kind \<times> skip_raw) list" where
  "legacyFairnessOf b i =
     (case store_of b of
        FairStore _ \<Rightarrow> []
      | LegacyStore files \<Rightarrow> List.map_filter (\<lambda>k. case files k of
          Some raw \<Rightarrow> if rHeadId raw = Some i then Some (k, raw) else None | None \<Rightarrow> None) [Conflict, Capacity, Resource])"

definition withdrawQueued :: "bool \<Rightarrow> bool \<Rightarrow> string \<Rightarrow> broker \<Rightarrow> ticket option \<times> broker" where
  "withdrawQueued renameOk snapshotOk i b =
     (if migrating b \<or> isCancelled b i then (None, b)
      else case findQueueFile b i of
          Some (s, _, Some r) \<Rightarrow>
            (let snapshot = legacyFairnessOf b i
             in if eid r \<noteq> i \<or> \<not> renameOk \<or> (snapshot \<noteq> [] \<and> \<not> snapshotOk) then (None, b)
                else (Some r, b\<lparr>queueDir := remove_file i (queueDir b),
                        parkedDir := parkedDir b @ [\<lparr>pkSeq = s, pkId = i, pkRecord = Some r, pkLegacy = snapshot\<rparr>],
                        attemptDir := patchAttemptLocked (attemptDir b) i (\<lambda>a. a\<lparr>rebinding := True\<rparr>)\<rparr>))
        | _ \<Rightarrow> (None, b))"

definition discardRebinding :: "string \<Rightarrow> broker \<Rightarrow> broker" where
  "discardRebinding i b = b\<lparr>parkedDir := filter (\<lambda>p. pkId p \<noteq> i) (parkedDir b)\<rparr>"

definition restoreLocked :: "jsnum \<Rightarrow> ticket \<Rightarrow> broker \<Rightarrow> broker" where
  "restoreLocked now r b =
     (let (b1, snapshot) =
        (if findQueueFile b (eid r) \<noteq> None then (b, [])
         else case List.find (\<lambda>p. pkId p = eid r) (parkedDir b) of
             Some p \<Rightarrow> (discardRebinding (eid r) (write_queue (pkSeq p, pkId p, Some ((nullish (pkRecord p) r)\<lparr>localSince := Some now\<rparr>)) b),
                        pkLegacy p)
           | None \<Rightarrow> (write_queue (nullish (seq r) 0, eid r, Some (r\<lparr>localSince := Some now\<rparr>)) b, []));
          b2 = b1\<lparr>attemptDir := patchAttemptLocked (attemptDir b1) (eid r) (\<lambda>a. a\<lparr>rebinding := False\<rparr>)\<rparr>
      in if snapshot \<noteq> [] \<and> (case head_of (listQueue b2) of Some h \<Rightarrow> eid h = eid r | None \<Rightarrow> False) \<and> \<not> store_v2 (store_of b2)
         then b2\<lparr>legacyFiles := (\<lambda>k. case map_of snapshot k of Some raw \<Rightarrow> Some raw | None \<Rightarrow> legacyFiles b2 k)\<rparr>
         else b2)"

definition recover_one :: "probes \<Rightarrow> parked_file \<Rightarrow> broker \<Rightarrow> broker" where
  "recover_one pr p b =
     (case pkRecord p of
        None \<Rightarrow> b
      | Some r \<Rightarrow>
          if pAlive pr (supervisorPid r) (supervisorStart r) then b
          else (let att = readAttempt (attemptDir b) (eid r);
                    dispatched = (case att of Some a \<Rightarrow> executor a = RemoteExec \<and> phase a = RunningPhase | None \<Rightarrow> False);
                    settled = (att = None \<and> map_of (resultDir b) (eid r) \<noteq> None)
                in if dispatched \<or> settled then discardRebinding (eid r) b else restoreLocked (pNow pr) r b))"

definition recoverRebinding :: "probes \<Rightarrow> broker \<Rightarrow> broker" where
  "recoverRebinding pr b = foldl (\<lambda>b' p. recover_one pr p b') b (parkedDir b)"

section \<open>Reaping\<close>

definition isQueuedSupervisorGone :: "probes \<Rightarrow> ticket \<Rightarrow> bool" where
  "isQueuedSupervisorGone pr t =
     (case supervisorPid t of
        None \<Rightarrow> False
      | Some p \<Rightarrow> is_integer p \<and>
          ((tBootId t \<noteq> None \<and> pBoot pr \<noteq> None \<and> tBootId t \<noteq> pBoot pr) \<or> \<not> pAlive pr (Some p) (supervisorStart t)))"

definition dead_result :: "broker \<Rightarrow> string \<Rightarrow> result" where
  "dead_result b i =
     (case readSupersededBy b i of
        Some by' \<Rightarrow> \<lparr>resExit = 130, resCancelled = True, resReason = Some ''superseded'', resSupersededBy = Some by'\<rparr>
      | None \<Rightarrow> \<lparr>resExit = 75, resCancelled = False, resReason = Some ''supervisor-died-while-queued'', resSupersededBy = None\<rparr>)"

definition reap_queued :: "probes \<Rightarrow> ticket \<Rightarrow> broker \<Rightarrow> broker" where
  "reap_queued pr t b =
     (if \<not> pPublishOk pr (eid t) then b
      else (let b1 = b\<lparr>resultDir := AList.update (eid t) (dead_result b (eid t)) (resultDir b)\<rparr>
            in case dequeueSync (pUnlinkOk pr (eid t)) b1 (eid t) of
                 (False, b2) \<Rightarrow> b2
               | (True, b2) \<Rightarrow>
                   (let b3 = touchSimArmFor True t (pNow pr) b2
                    in b3\<lparr>historyRows := historyRows b3 @ [(eid t, readSupersededBy b3 (eid t) \<noteq> None)],
                         supersededMarkers := AList.delete (eid t) (supersededMarkers b3)\<rparr>)))"

definition reapOrphanedQueue :: "probes \<Rightarrow> string \<Rightarrow> broker \<Rightarrow> broker" where
  "reapOrphanedQueue pr keep b =
     foldl (\<lambda>b' t. if eid t = keep \<or> \<not> isQueuedSupervisorGone pr t then b' else reap_queued pr t b') b (readable (listQueue b))"

definition reap_leases :: "probes \<Rightarrow> broker \<Rightarrow> broker" where
  "reap_leases pr b =
     (let ls = reapAll (leaseDir b) (pBoot pr) (pLease pr) (pNow pr);
          touched = list_ex (\<lambda>l. klass l = Some SimClass \<and> fst (reapIfStale l (pBoot pr) (pLease pr l) (pNow pr)) \<noteq> Kept) (leaseDir b)
      in b\<lparr>leaseDir := ls, simArmFile := (if touched then touchSimArm True (simArmFile b) (pNow pr) else simArmFile b)\<rparr>)"

definition reapStale :: "probes \<Rightarrow> string \<Rightarrow> broker \<Rightarrow> broker" where
  "reapStale pr keep b = reapOrphanedQueue pr keep (recoverRebinding pr (reap_leases pr b))"

section \<open>Re-tiering a queued ticket\<close>

datatype retier_refusal =
  LegacyScheduler sched_reason | UnknownTicket | AlreadyRunning | FinishedResult | FinishedCancelled | FinishedExpired |
  FinishedWithdrawn | RebindingTicket | RemoteTicket | RemoteOwned string | SupervisorGone | UnreadableRecord |
  RecordMismatch | LegacyRecord

datatype retier_outcome = RetierThrew intake_error | RetierRefused retier_refusal | RetierUnchanged | Retiered ticket

definition retier_file :: "string \<Rightarrow> ticket \<Rightarrow> qfile \<Rightarrow> qfile" where
  "retier_file i r f = (if fst (snd f) = i then (fst f, i, Some r) else f)"

definition retierQueued :: "probes \<Rightarrow> string \<Rightarrow> tier \<Rightarrow> cfg \<Rightarrow> (string \<Rightarrow> string option) \<Rightarrow> broker \<Rightarrow> retier_outcome \<times> broker" where
  "retierQueued pr i tr c remoteOwnerOf b =
     (if migrating b then (RetierThrew MigrationInProgress, b)
      else case resolveScheduler (fenceFile b) (fairnessFile b) of
          Inl why \<Rightarrow> (RetierRefused (LegacyScheduler why), b)
        | Inr _ \<Rightarrow>
            if \<not> assertQueueLayout b then (RetierThrew LegacyQueueAfterFence, b)
            else if readLease (leaseDir b) i \<noteq> None then (RetierRefused AlreadyRunning, b)
            else if map_of (resultDir b) i \<noteq> None then (RetierRefused FinishedResult, b)
            else if i \<in> set (listRebindingIds b) then (RetierRefused RebindingTicket, b)
            else case findQueueFile b i of
                None \<Rightarrow> (RetierRefused
                  (if readAttempt (attemptDir b) i \<noteq> None then RemoteTicket
                   else if isCancelled b i then FinishedCancelled else if i \<in> set (expireMarkers b) then FinishedExpired
                   else if i \<in> set (withdrawMarkers b) then FinishedWithdrawn else UnknownTicket), b)
              | Some (_, _, None) \<Rightarrow> (RetierRefused UnreadableRecord, b)
              | Some (_, _, Some r) \<Rightarrow>
                  if eid r \<noteq> i then (RetierRefused RecordMismatch, b)
                  else if schedVersion r \<noteq> Some 2 then (RetierRefused LegacyRecord, b)
                  else if isCancelled b i then (RetierRefused FinishedCancelled, b)
                  else if i \<in> set (expireMarkers b) then (RetierRefused FinishedExpired, b)
                  else if i \<in> set (withdrawMarkers b) then (RetierRefused FinishedWithdrawn, b)
                  else case remoteOwnerOf i of
                      Some o' \<Rightarrow> (RetierRefused (RemoteOwned o'), b)
                    | None \<Rightarrow>
                        if isQueuedSupervisorGone pr r then (RetierRefused SupervisorGone, b)
                        else (let adm = admitTier (pAlive pr) (listQueue b) (repoId r) tr c (Some i);
                                  r' = r\<lparr>priorityRequested := Some tr, priorityAdmitted := Some (fst adm),
                                         priorityDemoted := snd adm, priorityRetieredAt := Some (pNow pr)\<rparr>
                              in if priorityRequested r = Some tr \<and> priorityAdmitted r = Some (fst adm) \<and> priorityDemoted r = snd adm
                                 then (RetierUnchanged, b)
                                 else (Retiered r', b\<lparr>queueDir := map (retier_file i r') (queueDir b)\<rparr>)))"

section \<open>What each operation leaves alone\<close>

text \<open>
  The files that no queue maintenance touches: the pause flag, the operator's markers and the express record. Reaping
  changes the leases only through \<^verbatim>\<open>reapAll\<close>.
\<close>

definition fixed_files :: "broker \<Rightarrow> string option \<times> string list \<times> string list \<times> jsnum list" where
  "fixed_files b = (pauseFile b, cancelMarkers b, withdrawMarkers b, expressFile b)"

lemma write_queue_frame [simp]: "leaseDir (write_queue f b) = leaseDir b" "fixed_files (write_queue f b) = fixed_files b"
  by (simp_all add: write_queue_def fixed_files_def)

lemma touchSimArmFor_frame [simp]:
  "leaseDir (touchSimArmFor w x n b) = leaseDir b" "fixed_files (touchSimArmFor w x n b) = fixed_files b"
  "queueDir (touchSimArmFor w x n b) = queueDir b"
  by (simp_all add: touchSimArmFor_def fixed_files_def)

lemma reconcileSimArm_frame [simp]:
  "leaseDir (reconcileSimArm w q hl n m b) = leaseDir b" "fixed_files (reconcileSimArm w q hl n m b) = fixed_files b"
  "queueDir (reconcileSimArm w q hl n m b) = queueDir b"
  by (simp_all add: reconcileSimArm_def fixed_files_def Let_def)

lemma clearExternalStarved_frame [simp]:
  "leaseDir (clearExternalStarved w b) = leaseDir b" "fixed_files (clearExternalStarved w b) = fixed_files b"
  "queueDir (clearExternalStarved w b) = queueDir b"
  by (simp_all add: clearExternalStarved_def fixed_files_def)

lemma put_store_frame [simp]:
  "leaseDir (put_store b st) = leaseDir b" "fixed_files (put_store b st) = fixed_files b" "queueDir (put_store b st) = queueDir b"
  by (cases st; simp add: put_store_def fixed_files_def)+

lemma quarantine_frame [simp]:
  "leaseDir (quarantineLegacyRecords ok b) = leaseDir b" "fixed_files (quarantineLegacyRecords ok b) = fixed_files b"
  by (simp_all add: quarantineLegacyRecords_def fixed_files_def)

lemma discardRebinding_frame [simp]:
  "leaseDir (discardRebinding i b) = leaseDir b" "fixed_files (discardRebinding i b) = fixed_files b"
  by (simp_all add: discardRebinding_def fixed_files_def)

lemma fixed_files_updates [simp]:
  "fixed_files (b\<lparr>attemptDir := x1\<rparr>) = fixed_files b" "fixed_files (b\<lparr>legacyFiles := x2\<rparr>) = fixed_files b"
  "fixed_files (b\<lparr>resultDir := x3\<rparr>) = fixed_files b" "fixed_files (b\<lparr>historyRows := x4, supersededMarkers := x5\<rparr>) = fixed_files b"
  "fixed_files (b\<lparr>leaseDir := x6\<rparr>) = fixed_files b" "fixed_files (b\<lparr>hwmFile := x7\<rparr>) = fixed_files b"
  "fixed_files (b\<lparr>leaseDir := x6, simArmFile := x8\<rparr>) = fixed_files b" "fixed_files (b\<lparr>queueDir := x9\<rparr>) = fixed_files b"
  "fixed_files (b\<lparr>loadGateFile := x10, cpuGateFile := x11\<rparr>) = fixed_files b" "fixed_files (b\<lparr>seqFile := x12\<rparr>) = fixed_files b"
  "fixed_files (b\<lparr>starvedFile := x13\<rparr>) = fixed_files b"
  by (simp_all add: fixed_files_def)

lemma restoreLocked_frame [simp]: "leaseDir (restoreLocked n r b) = leaseDir b" "fixed_files (restoreLocked n r b) = fixed_files b"
  by (simp_all add: restoreLocked_def Let_def case_prod_beta split: option.splits)

lemma recover_one_frame [simp]: "leaseDir (recover_one pr p b) = leaseDir b" "fixed_files (recover_one pr p b) = fixed_files b"
  by (simp_all add: recover_one_def Let_def split: option.splits)

lemma foldl_frame:
  assumes "\<And>b x. F (f b x) = F b"
  shows "F (foldl f b xs) = F b"
  by (induction xs arbitrary: b) (simp_all add: assms)

lemma recoverRebinding_frame [simp]:
  "leaseDir (recoverRebinding pr b) = leaseDir b" "fixed_files (recoverRebinding pr b) = fixed_files b"
  by (simp_all add: recoverRebinding_def foldl_frame[where F = leaseDir] foldl_frame[where F = fixed_files])

lemma dequeueSync_frame [simp]:
  "leaseDir (snd (dequeueSync ok b i)) = leaseDir b" "fixed_files (snd (dequeueSync ok b i)) = fixed_files b"
  by (simp_all add: dequeueSync_def split: option.splits)

lemma reap_queued_frame [simp]: "leaseDir (reap_queued pr t b) = leaseDir b" "fixed_files (reap_queued pr t b) = fixed_files b"
proof -
  define b1 where "b1 = b\<lparr>resultDir := AList.update (eid t) (dead_result b (eid t)) (resultDir b)\<rparr>"
  obtain d b2 where d: "dequeueSync (pUnlinkOk pr (eid t)) b1 (eid t) = (d, b2)" by fastforce
  have "leaseDir b2 = leaseDir b1" "fixed_files b2 = fixed_files b1"
    using dequeueSync_frame[of "pUnlinkOk pr (eid t)" b1 "eid t"] unfolding d by (simp_all only: snd_conv)
  then have "leaseDir b2 = leaseDir b" "fixed_files b2 = fixed_files b" by (simp_all add: b1_def)
  then show "leaseDir (reap_queued pr t b) = leaseDir b" "fixed_files (reap_queued pr t b) = fixed_files b"
    by (cases d; simp add: reap_queued_def b1_def[symmetric] d Let_def)+
qed

lemma reapOrphanedQueue_frame [simp]:
  "leaseDir (reapOrphanedQueue pr k b) = leaseDir b" "fixed_files (reapOrphanedQueue pr k b) = fixed_files b"
  by (simp_all add: reapOrphanedQueue_def foldl_frame[where F = leaseDir] foldl_frame[where F = fixed_files])

lemma reapStale_frame [simp]:
  "leaseDir (reapStale pr k b) = reapAll (leaseDir b) (pBoot pr) (pLease pr) (pNow pr)"
  "fixed_files (reapStale pr k b) = fixed_files b"
  by (simp_all add: reapStale_def reap_leases_def Let_def)

section \<open>A small broker\<close>

text \<open>One queued ticket beside one running lease, on disks and processes that answer; the start of the examples.\<close>

definition example_probes :: probes where
  "example_probes = \<lparr>pNow = 1000000, pBoot = None, pAlive = (\<lambda>_ _. True),
     pLease = (\<lambda>_. \<lparr>supervisorUp = True, groupUp = True, tableScan = None\<rparr>), pPublishOk = (\<lambda>_. True), pUnlinkOk = (\<lambda>_. True)\<rparr>"

definition example_broker :: broker where
  "example_broker = \<lparr>queueDir = [(1, ''t1'', Some example_ticket)], parkedDir = [], quarantineDir = [], legacyQueueNames = [],
     migrating = False, leaseDir = [example_lease], attemptDir = [], resultDir = [], seqFile = Some 1, hwmFile = None,
     loadGateFile = None, cpuGateFile = None, fenceFile = FenceJson (Some 0) (Some 2), fairnessFile = FairTickets [],
     legacyFiles = (\<lambda>_. None), pauseFile = None, cancelMarkers = [], expireMarkers = [], withdrawMarkers = [],
     supersededMarkers = [], expressFile = [], simArmFile = None, starvedFile = None, historyRows = []\<rparr>"

end
