(* ===== verification/Try_Start.thy ===== *)
theory Try_Start
  imports Broker
begin

text \<open>
  The admission transaction (\<^verbatim>\<open>tryStart\<close> in src/scheduler.js), the one place where a queued ticket becomes a lease. It runs
  under the global lock, so it is a function from the broker's state to an outcome and a state. It is staged as the source
  is: open the queue, build the view, judge the head, decide which passes are open, gate the candidate, evaluate
  admission, refuse, count the skip, commit. Everything it observes (clocks, samplers, probes, which writes succeed)
  is in the record \<open>poll\<close>. Log lines and the shadow recorders, which no decision reads back, are omitted.
\<close>

section \<open>What one poll observes\<close>

record poll_io =
  okHwm :: bool
  okRelease :: bool
  okPrune :: bool
  okExpire :: bool
  okHeadBlock :: bool
  okCapacityBlock :: bool
  okLoadGate :: bool
  okCpuGate :: bool
  okDenial :: bool
  okScope :: bool
  okDrop :: bool
  okSkip :: bool
  okBackfillSeq :: bool
  okBackfill :: bool
  okYield :: bool
  okExpress :: bool
  okDequeue :: bool
  okLease :: bool
  okArm :: bool
  okDepart :: bool
  okStarved :: bool
  okTrace :: bool
  okQuarantine :: "string \<Rightarrow> bool"

text \<open>
  \<open>wallNow\<close> is the reading of \<^verbatim>\<open>Date.now()\<close> the transaction takes first, \<open>admissionNow\<close> the one the admission functions take
  themselves. The CPU sampler is told the nice the ticket would run at and the held leases.
\<close>

record poll =
  cfgOf :: cfg
  hostOf :: host
  probesOf :: probes
  wallNow :: jsnum
  admissionNow :: jsnum
  currentNice :: jsnum
  loadReading :: jsnum
  sampler :: "jsnum \<Rightarrow> lease list \<Rightarrow> cpu_sample option"
  memoryReading :: "mem_info option"
  estimateTable :: estimates
  expressTable :: express_table
  admissionThrows :: bool
  io :: poll_io

section \<open>Outcomes\<close>

datatype deny_reason =
  PushHold string "string option"
| NotHead "nat option" nat
| WithdrawnTicket
| QueueTimeout
| ClassCapDenied cap_reason
| ExclusiveDenied exclusive_deny
| ConflictDenied holder
| PausedDenied string
| ElasticBelowFloor
| GrantCapDenied cap_reason
| LoadGateDenied "jsnum option"
| CapacityDenied jsnum jsnum
| MemoryCritical
| AdmissionDenied "cpu_reason option" "mem_reason option"
| CancelledTicket

datatype start_result = Started lease bool | Denied deny_reason | Threw intake_error

fun is_admission_denial :: "deny_reason \<Rightarrow> bool" where
  "is_admission_denial (AdmissionDenied cr mr) = True"
| "is_admission_denial _ = False"

fun started :: "start_result \<Rightarrow> bool" where
  "started (Started l f) = True"
| "started _ = False"

fun threw :: "start_result \<Rightarrow> bool" where
  "threw (Threw x) = True"
| "threw _ = False"

text \<open>Why a ticket did not take the queue bypass, as it is recorded on its queue record.\<close>

fun refusal_name :: "bypass_refusal \<Rightarrow> string" where
  "refusal_name NotActive = ''not-active''"
| "refusal_name CapFull = ''cap-full''"
| "refusal_name ExclusiveTicket = ''exclusive''"
| "refusal_name ExcludedLane = ''excluded-lane''"
| "refusal_name SimTicket = ''sim''"
| "refusal_name ExclusiveAhead = ''exclusive-ahead''"
| "refusal_name BypassConflict = ''conflict''"
| "refusal_name BypassCapacity = ''capacity''"
| "refusal_name ElasticFloor = ''elastic-floor''"
| "refusal_name NoHistory = ''no-history''"
| "refusal_name MedianOverMax = ''median-over-max''"
| "refusal_name TooManyStrikes = ''too-many-strikes''"

definition refuse_bypass :: "cfg \<Rightarrow> string \<Rightarrow> string option \<Rightarrow> string option" where
  "refuse_bypass c why trace = (if queueBypassCap c > 0 then Some why else trace)"

section \<open>Opening the queue\<close>

definition weight_cap :: "poll \<Rightarrow> jsnum" where
  "weight_cap e = effectiveWeightCapacity (cfgOf e) (hostCores (hostOf e))"

definition budget_capped :: "poll \<Rightarrow> ticket \<Rightarrow> ticket" where
  "budget_capped e sub = clampQueuedWeight (capElasticClaim sub (cfgOf e) (hostOf e)) (cfgOf e) (weight_cap e)"

text \<open>The state after the clock has advanced and the stale records are reaped: what the decision is taken on.\<close>

definition reaped :: "poll \<Rightarrow> ticket \<Rightarrow> broker \<Rightarrow> broker" where
  "reaped e sub b = reapStale (probesOf e) (eid sub) (b\<lparr>hwmFile := snd (advanceHwm (okHwm (io e)) (hwmFile b) (wallNow e))\<rparr>)"

definition open_queue :: "poll \<Rightarrow> ticket \<Rightarrow> broker \<Rightarrow> (ticket rqueue \<times> store \<times> jsnum) option \<times> broker" where
  "open_queue e sub b =
     (let c = cfgOf e; nowEff = fst (advanceHwm (okHwm (io e)) (hwmFile b) (wallNow e)); b1 = reaped e sub b
      in if \<not> assertQueueLayout b1 then (None, b1)
         else (let st = store_of b1;
                   b2 = (if store_v2 st then quarantineLegacyRecords (okQuarantine (io e)) b1 else b1);
                   listed = listQueueCapped b2 c (hostOf e);
                   raw = map (map_option (\<lambda>t. clampQueuedWeight t c (weight_cap e))) (if store_v2 st then fenceLegacy listed else listed);
                   st1 = (if store_v2 st \<and> \<not> (schedulerMode c = Active \<and> resourceSkipLimit c > 0)
                          then releaseReservations (okRelease (io e)) st else st)
               in (Some (raw, prune (okPrune (io e)) st1 raw (listRebindingIds b2), nowEff), b2)))"

section \<open>The view\<close>

text \<open>
  What the rest of the transaction works on: the queue view without the tickets that may not start, the held leases, the
  submitted ticket as it is judged, its place and its queue record, the active reservation's owner, and the store.
\<close>

record prep =
  pQueue :: "ticket rqueue"
  pHeld :: "lease list"
  pTicket :: ticket
  pPos :: nat
  pQueued :: ticket
  pOwner :: "string option"
  pNowEff :: jsnum
  pStore :: store
  pClasses :: class_policy
  pBooked :: booked

definition has_id :: "string \<Rightarrow> ticket option \<Rightarrow> bool" where
  "has_id i t = (case t of Some u \<Rightarrow> eid u = i | None \<Rightarrow> False)"

definition not_head :: "prep \<Rightarrow> start_result" where
  "not_head p = Denied (NotHead (Some (pPos p + 1)) (length (pQueue p)))"

definition repo_behind :: "ticket rqueue \<Rightarrow> lease list \<Rightarrow> string \<Rightarrow> string option" where
  "repo_behind raw hl i =
     (case List.find (\<lambda>t. eid t = i) (readable raw) of
        Some t \<Rightarrow> repoId t
      | None \<Rightarrow> Option.bind (List.find (\<lambda>l. eid l = i) hl) repoId)"

text \<open>The class policy and the push holds of this poll, and the tickets that neither bars.\<close>

definition class_policy_of :: "poll \<Rightarrow> ticket rqueue \<Rightarrow> broker \<Rightarrow> queue_policy" where
  "class_policy_of e raw b = classQueuePolicy raw (resolveClasses (cfgOf e)) (held b) (hostOf e) (cfgOf e)"

definition push_holds_of :: "ticket rqueue \<Rightarrow> broker \<Rightarrow> (string \<times> string) list" where
  "push_holds_of raw b = pushHolds (is_live b) raw (held b)"

definition may_start :: "poll \<Rightarrow> ticket rqueue \<Rightarrow> broker \<Rightarrow> ticket \<Rightarrow> bool" where
  "may_start e raw b t \<longleftrightarrow> cap_enforced (class_policy_of e raw b) (eid t) = None \<and> map_of (push_holds_of raw b) (eid t) = None"

definition full_view :: "poll \<Rightarrow> ticket rqueue \<Rightarrow> store \<Rightarrow> jsnum \<Rightarrow> broker \<Rightarrow> ticket rqueue \<times> string option" where
  "full_view e raw st nowEff b =
     (if store_v2 st then effectiveView raw nowEff (cfgOf e) st (may_start e raw b) (simsAfterTests (class_policy_of e raw b)) else (raw, None))"

definition start_queue :: "poll \<Rightarrow> ticket rqueue \<Rightarrow> store \<Rightarrow> jsnum \<Rightarrow> broker \<Rightarrow> ticket rqueue" where
  "start_queue e raw st nowEff b =
     filter (\<lambda>t. case t of Some u \<Rightarrow> may_start e raw b u | None \<Rightarrow> True) (fst (full_view e raw st nowEff b))"

definition judged_ticket :: "poll \<Rightarrow> ticket \<Rightarrow> broker \<Rightarrow> ticket" where
  "judged_ticket e sub b =
     (let p = resolveClasses (cfgOf e)
      in if classValid p \<and> classMode p = ClassesActive
         then capSimClaim (budget_capped e sub) p (bookedSims (held b) (cfgOf e)) (hostOf e) (cfgOf e) else budget_capped e sub)"

definition past_deadline :: "poll \<Rightarrow> ticket \<Rightarrow> broker \<Rightarrow> bool" where
  "past_deadline e t b \<longleftrightarrow> (case startDeadline t of Some d \<Rightarrow> wallNow e \<ge> d | None \<Rightarrow> False) \<and> \<not> isCancelled b (eid t)"

definition prepare :: "poll \<Rightarrow> ticket \<Rightarrow> ticket rqueue \<Rightarrow> store \<Rightarrow> jsnum \<Rightarrow> broker \<Rightarrow> (start_result + prep) \<times> broker" where
  "prepare e sub raw st nowEff b =
     (case map_of (push_holds_of raw b) (eid sub) of
        Some behind \<Rightarrow> (Inl (Denied (PushHold behind (repo_behind raw (held b) behind))), b)
      | None \<Rightarrow>
          (let (full, owner) = full_view e raw st nowEff b; q = start_queue e raw st nowEff b; t = judged_ticket e sub b
           in if \<not> list_ex (has_id (eid sub)) full then (Inl (Denied (NotHead None (length full))), b)
              else if eid t \<in> set (withdrawMarkers b) then (Inl (Denied WithdrawnTicket), b)
              else if past_deadline e t b
              then (if okExpire (io e) then (Inl (Denied QueueTimeout), b\<lparr>expireMarkers := List.insert (eid t) (expireMarkers b)\<rparr>)
                    else (Inl (Threw WriteFailed), b))
              else (case cap_enforced (class_policy_of e raw b) (eid t) of
                      Some r \<Rightarrow> (Inl (Denied (ClassCapDenied r)), b)
                    | None \<Rightarrow>
                        (case find_index (has_id (eid t)) q of
                           None \<Rightarrow> (Inl (Denied (NotHead (Some 0) (length q))), b)
                         | Some i \<Rightarrow> (Inr \<lparr>pQueue = q, pHeld = held b, pTicket = t, pPos = i, pQueued = nullish (q ! i) t,
                             pOwner = owner, pNowEff = nowEff, pStore = st, pClasses = resolveClasses (cfgOf e),
                             pBooked = bookedSims (held b) (cfgOf e)\<rparr>, b)))))"

section \<open>The head\<close>

record head_view =
  hTicket :: ticket
  hExclusive :: bool
  hRunning :: jsnum
  hBlocker :: "holder option"
  hSkipExhausted :: bool
  hCapacityBlocked :: bool
  hCapacityExhausted :: bool
  hRecord :: "resource_rec option"

definition active_record :: "store \<Rightarrow> string option \<Rightarrow> string \<Rightarrow> resource_rec option \<Rightarrow> resource_rec option" where
  "active_record st owner headId r =
     map_option (\<lambda>x. if store_v2 st \<and> rrReserved x \<and> Some headId \<noteq> owner then x\<lparr>rrReserved := False\<rparr> else x) r"

definition head_state :: "poll \<Rightarrow> prep \<Rightarrow> broker \<Rightarrow> (start_result + head_view \<times> store) \<times> broker" where
  "head_state e p b =
     (let c = cfgOf e; q = pQueue p; hl = pHeld p; now = wallNow e;
          b1 = reconcileSimArm (okArm (io e)) q hl now (simArmWindowMs c) b
      in case head_of q of
           None \<Rightarrow> (Inl (not_head p), b1)
         | Some ht \<Rightarrow>
             (case exclusiveDeny q (pTicket p) hl of
                Some d \<Rightarrow> (Inl (Denied (ExclusiveDenied d)), b1)
              | None \<Rightarrow>
                  (let st = pStore p; i = eid ht; rw = running_weight hl; blocker = blockedBy (holders hl) ht;
                       excl = isExclusiveHead q (pTicket p);
                       (phase, st1) = (if blocker \<noteq> None then resolveHeadBlock (okHeadBlock (io e)) st c i (readSkipState st i) now
                                       else (Blocked, st));
                       capBlocked = (blocker = None \<and> \<not> excl \<and> rw + weight ht > weight_cap e);
                       (cphase, st2) = (if capBlocked then resolveCapacityBlock (okCapacityBlock (io e)) st1 c i
                                          (charged (readCapacitySkipState st1 i) i)
                                        else (Blocked, st1))
                   in (Inr (\<lparr>hTicket = ht, hExclusive = excl, hRunning = rw, hBlocker = blocker,
                         hSkipExhausted = (blocker \<noteq> None \<and> phase = Exhausted), hCapacityBlocked = capBlocked,
                         hCapacityExhausted = (capBlocked \<and> cphase = Exhausted),
                         hRecord = (if blocker \<noteq> None then None else active_record st2 (pOwner p) i (resourceRecordFor st2 c i False))\<rparr>,
                        st2), b1))))"

section \<open>The passes past the head\<close>

text \<open>BRAIN-355: a ticket that provably cannot delay the head, whenever the head's block clears.\<close>

definition cannotDelayHead :: "lease list \<Rightarrow> jsnum \<Rightarrow> jsnum \<Rightarrow> ticket \<Rightarrow> ticket \<Rightarrow> bool" where
  "cannotDelayHead hl rw cap ht t \<longleftrightarrow>
     \<not> exclusive t \<and> blockedBy (holders hl) t = None \<and> blockedBy [(eid t, key t)] ht = None \<and>
     blockedBy [(eid ht, key ht)] t = None \<and> rw + weight ht + weight t \<le> cap"

record passes =
  aSafe :: bool
  aProtected :: bool
  aExpress :: bool
  aYield :: bool
  aYieldProtects :: bool
  aPick :: "ticket option"
  aCandidate :: "ticket option"

definition sim_holds_back :: "head_view \<Rightarrow> bool" where
  "sim_holds_back h \<longleftrightarrow> classOf (hTicket h) \<noteq> SimClass"

definition readable_ahead :: "prep \<Rightarrow> bool" where
  "readable_ahead p \<longleftrightarrow> list_all (\<lambda>t. t \<noteq> None) (take (pPos p) (pQueue p))"

definition walk_queue :: "prep \<Rightarrow> head_view \<Rightarrow> ticket rqueue" where
  "walk_queue p h =
     withoutBackfillExclusives
       (if sim_holds_back h
        then (case pQueue p of [] \<Rightarrow> [] | x # q \<Rightarrow> x # filter (\<lambda>t. case t of Some u \<Rightarrow> classOf u \<noteq> SimClass | None \<Rightarrow> True) q)
        else pQueue p)"

definition safe_backfill :: "poll \<Rightarrow> prep \<Rightarrow> head_view \<Rightarrow> bool" where
  "safe_backfill e p h \<longleftrightarrow>
     (hSkipExhausted h \<and> conflictSafeBackfill (cfgOf e) \<or>
      sim_holds_back h \<and> conflictSafeBackfill (cfgOf e) \<and> classOf (pTicket p) = SimClass) \<and>
     eid (pTicket p) \<noteq> eid (hTicket h) \<and> readable_ahead p \<and>
     cannotDelayHead (pHeld p) (hRunning h) (weight_cap e) (hTicket h) (pTicket p)"

definition express_protected :: "poll \<Rightarrow> prep \<Rightarrow> head_view \<Rightarrow> bool" where
  "express_protected e p h \<longleftrightarrow>
     waitedMs (hTicket h) (pNowEff p) > expressHeadMaxWaitMs (cfgOf e) \<and> \<not> futileFresh (hRecord h) (cfgOf e) (wallNow e)"

definition under_express_rate :: "poll \<Rightarrow> broker \<Rightarrow> bool" where
  "under_express_rate e b \<longleftrightarrow> of_nat (expressAdmissionsLastMinute (expressFile b) (wallNow e)) < expressPerMinute (cfgOf e)"

definition express_eligible :: "poll \<Rightarrow> prep \<Rightarrow> head_view \<Rightarrow> broker \<Rightarrow> bool" where
  "express_eligible e p h b \<longleftrightarrow>
     expressMaxMs (cfgOf e) > 0 \<and> \<not> safe_backfill e p h \<and> eid (pTicket p) \<noteq> eid (hTicket h) \<and> \<not> exclusive (pTicket p) \<and>
     \<not> (sim_holds_back h \<and> classOf (pTicket p) = SimClass) \<and> readable_ahead p \<and> blockedBy (holders (pHeld p)) (pTicket p) = None \<and>
     hRunning h + weight (pTicket p) \<le> weight_cap e \<and>
     (\<not> express_protected e p h \<or> cannotDelayHead (pHeld p) (hRunning h) (weight_cap e) (hTicket h) (pTicket p)) \<and>
     under_express_rate e b"

definition yield_eligible :: "poll \<Rightarrow> prep \<Rightarrow> head_view \<Rightarrow> broker \<Rightarrow> bool" where
  "yield_eligible e p h b \<longleftrightarrow>
     \<not> safe_backfill e p h \<and> eid (pTicket p) \<noteq> eid (hTicket h) \<and> resourceReserved (hRecord h) (cfgOf e) (wallNow e) \<and>
     tierRank (Some (priorityOf (pQueued p))) > tierRank (Some (priorityOf (hTicket h))) \<and> \<not> exclusive (pTicket p) \<and>
     \<not> (sim_holds_back h \<and> classOf (pTicket p) = SimClass) \<and> readable_ahead p \<and>
     cannotDelayHead (pHeld p) (hRunning h) (weight_cap e) (hTicket h) (pTicket p) \<and> under_express_rate e b"

definition conflict_pick :: "poll \<Rightarrow> prep \<Rightarrow> head_view \<Rightarrow> store \<Rightarrow> ticket option" where
  "conflict_pick e p h st =
     (if hBlocker h \<noteq> None \<and> \<not> hSkipExhausted h
      then (case resourceRecordFor st (cfgOf e) (eid (hTicket h)) True of
              Some r \<Rightarrow> selectResourceCandidate (estimateTable e) (walk_queue p h) (pHeld p) (hRunning h) (weight_cap e) r (cfgOf e)
                          (wallNow e) True
            | None \<Rightarrow> None)
      else None)"

text \<open>The ordinary selection, when no pass applies.\<close>

definition walk_candidate :: "poll \<Rightarrow> prep \<Rightarrow> head_view \<Rightarrow> store \<Rightarrow> ticket option" where
  "walk_candidate e p h st =
     (let c = cfgOf e; wq = walk_queue p h
      in if hBlocker h \<noteq> None
         then (if hSkipExhausted h then None else nullish_opt (conflict_pick e p h st) (selectCandidate wq (pHeld p)))
         else if hCapacityBlocked h
         then (if hCapacityExhausted h \<or> resourceReserved (hRecord h) c (wallNow e) then None
               else selectCapacityCandidate wq (pHeld p) (hRunning h) (weight_cap e))
         else (case hRecord h of
                 Some r \<Rightarrow>
                   if resourceBackfillOpen (hRecord h) c (wallNow e) \<and> eid (pTicket p) \<noteq> eid (hTicket h)
                   then selectResourceCandidate (estimateTable e) wq (pHeld p) (hRunning h) (weight_cap e) r c (wallNow e) False
                   else Some (hTicket h)
               | None \<Rightarrow> Some (hTicket h)))"

definition passes_of :: "poll \<Rightarrow> prep \<Rightarrow> head_view \<Rightarrow> store \<Rightarrow> broker \<Rightarrow> passes" where
  "passes_of e p h st b =
     (let prot = express_protected e p h;
          yield = yield_eligible e p h b;
          express = (express_eligible e p h b \<and> \<not> (prot \<and> yield) \<and> expressVerdict (expressTable e) (pTicket p) (cfgOf e) \<noteq> None);
          yields = (yield \<and> \<not> express)
      in \<lparr>aSafe = safe_backfill e p h, aProtected = prot, aExpress = express, aYield = yields,
          aYieldProtects = (yields \<and> (case hRecord h of Some r \<Rightarrow> nullish (rrYields r) 0 \<ge> resourceSkipLimit (cfgOf e) | None \<Rightarrow> False)),
          aPick = conflict_pick e p h st,
          aCandidate = (if safe_backfill e p h \<or> express \<or> yields then Some (pTicket p) else walk_candidate e p h st)\<rparr>)"

section \<open>Floor slot and queue bypass\<close>

record trial =
  tFloor :: bool
  tBypass :: "bypass_refusal + jsnum \<times> express_source"
  tTrace :: "string option"

definition trial_of :: "poll \<Rightarrow> prep \<Rightarrow> trial" where
  "trial_of e p =
     (let c = cfgOf e; ahead = take (pPos p) (pQueue p);
          bypass = bypassTrialVerdict (expressTable e) c (hostOf e) (pTicket p) (pHeld p) ahead (weight_cap e) (wallNow e)
      in \<lparr>tFloor = (schedulerMode c = Active \<and> \<not> list_ex floorSlot (pHeld p) \<and> floorOvershootCores c > 0 \<and>
            isFloorTicket (pQueued p) \<and> list_all (\<lambda>t. case t of Some u \<Rightarrow> \<not> exclusive u | None \<Rightarrow> False) ahead),
          tBypass = bypass,
          tTrace = (case bypass of Inl r \<Rightarrow> refuse_bypass c (refusal_name r) None | Inr _ \<Rightarrow> None)\<rparr>)"

fun bypass_trial :: "trial \<Rightarrow> bool" where
  "bypass_trial tr = (case tBypass tr of Inl _ \<Rightarrow> False | Inr _ \<Rightarrow> True)"

definition lift_trial :: "trial \<Rightarrow> bool" where
  "lift_trial tr \<longleftrightarrow> tFloor tr \<or> bypass_trial tr"

text \<open>Whether this poll's ticket is the one that may go on, and the pause flag.\<close>

definition candidate_gate :: "poll \<Rightarrow> prep \<Rightarrow> head_view \<Rightarrow> passes \<Rightarrow> trial \<Rightarrow> broker \<Rightarrow> (start_result \<times> string option) option" where
  "candidate_gate e p h a tr b =
     (let other = (eid (pTicket p) \<noteq> eid (hTicket h)); lift = lift_trial tr;
          turned = (case aCandidate a of
             None \<Rightarrow> if other \<and> \<not> lift then Some (not_head p)
                     else (case hBlocker h of
                             Some bl \<Rightarrow> if \<not> (lift \<and> other) then Some (Denied (ConflictDenied bl)) else None
                           | None \<Rightarrow> None)
           | Some cd \<Rightarrow> if eid cd \<noteq> eid (pTicket p) \<and> \<not> lift then Some (not_head p) else None)
      in case turned of
           Some r \<Rightarrow> Some (r, tTrace tr)
         | None \<Rightarrow>
             (case pauseFile b of
                Some why \<Rightarrow> Some (Denied (PausedDenied why), if bypass_trial tr then refuse_bypass (cfgOf e) ''paused'' (tTrace tr) else tTrace tr)
              | None \<Rightarrow> None))"

section \<open>Admission and the lifts\<close>

record judged =
  jNice :: jsnum
  jTier :: tier
  jSample :: "cpu_sample option"
  jFull :: decision
  jElastic :: "(decision \<times> int) option"
  jDecision :: decision
  jLoadClosed :: bool
  jLastLoad :: "jsnum option"
  jFloor :: bool
  jBypass :: bool
  jTrace :: "string option"

definition admission_held :: "prep \<Rightarrow> head_view \<Rightarrow> passes \<Rightarrow> lease list" where
  "admission_held p h a =
     (if aSafe a \<or> aPick a \<noteq> None \<or> (aExpress a \<and> aProtected a) \<or> aYieldProtects a
      then pHeld p @ [head_reservation (hTicket h)] else pHeld p)"

definition protecting_head :: "prep \<Rightarrow> head_view \<Rightarrow> passes \<Rightarrow> bool" where
  "protecting_head p h a \<longleftrightarrow>
     (aSafe a \<or> aPick a \<noteq> None \<or> (aExpress a \<and> aProtected a) \<or> aYieldProtects a) \<and> eid (pTicket p) \<noteq> eid (hTicket h)"

definition start_nice :: "poll \<Rightarrow> prep \<Rightarrow> jsnum" where
  "start_nice e p = effectiveNice (resolveLaneNice (pTicket p) (priorityOf (pQueued p)) (cfgOf e)) (currentNice e)"

definition admission_ticket :: "poll \<Rightarrow> prep \<Rightarrow> head_view \<Rightarrow> passes \<Rightarrow> ticket" where
  "admission_ticket e p h a = (pTicket p)\<lparr>nice := Some (start_nice e p),
     priorityAdmitted := (if protecting_head p h a then priorityAdmitted (pTicket p) else Some (priorityOf (pQueued p)))\<rparr>"

text \<open>Why a bypass gives way although its trial passed: a waiting push gate, or an aged head that only bypass leases hold back.\<close>

definition bypass_yields :: "poll \<Rightarrow> prep \<Rightarrow> head_view \<Rightarrow> passes \<Rightarrow> cpu_sample option \<Rightarrow> decision \<Rightarrow> bool \<Rightarrow> string option" where
  "bypass_yields e p h a sample full loadShut =
     (let c = cfgOf e; t = pTicket p; ht = hTicket h;
          winner = (if floorOvershootCores c > 0
                    then floorWinner (estimateTable e) c (hostOf e) (pQueue p) (pHeld p) sample (memoryReading e) (dCpuGateClosed full)
                           loadShut (weight_cap e) (admissionNow e)
                    else None)
      in if (case winner of Some w \<Rightarrow> eid w \<noteq> eid t | None \<Rightarrow> False) then Some ''yields-push-gate''
         else if eid t = eid ht \<or> \<not> aProtected a then None
         else if key t = key ht \<or> key t \<in> set (conflicts ht) then Some ''yields-aged-head''
         else if hBlocker h = None \<and> bypass_held (pHeld p) \<noteq> [] \<and>
           (case usable_sample sample of
              Some (s, busy) \<Rightarrow> headClearWithoutBypass (estimateTable e) (ticketCpuFloor (estimateTable e) ht c None [] None) (pHeld p) busy s
                                 (dCpuGateClosed full) c (wallNow e)
            | None \<Rightarrow> False)
         then Some ''yields-aged-head'' else None)"

definition bypass_block :: "poll \<Rightarrow> prep \<Rightarrow> head_view \<Rightarrow> passes \<Rightarrow> cpu_sample option \<Rightarrow> decision \<Rightarrow> decision \<Rightarrow> bool \<Rightarrow> string option" where
  "bypass_block e p h a sample full d loadShut =
     (if dMemoryReason d \<noteq> Some MemOk then Some ''memory''
      else if dCpuReason d \<notin> {Some CpuGateClosed, Some Cooldown, Some ProjectedOverBudget} then Some ''reason-not-lifted''
      else bypass_yields e p h a sample full loadShut)"

text \<open>
  The full-claim evaluation with the CPU gate it leaves, the elastic retry, the decision that counts, and the two lifts. A
  ticket that is selected and admitted is ordinary and takes neither lift.
\<close>

definition load_gate_now :: "poll \<Rightarrow> broker \<Rightarrow> gate" where
  "load_gate_now e b = sampleAndUpdateGate (loadGateFile b) (cfgOf e) (loadReading e) (wallNow e)"

definition poll_sample :: "poll \<Rightarrow> prep \<Rightarrow> cpu_sample option" where
  "poll_sample e p = sampler e (start_nice e p) (pHeld p)"

definition full_decision :: "poll \<Rightarrow> prep \<Rightarrow> head_view \<Rightarrow> passes \<Rightarrow> broker \<Rightarrow> decision \<times> raw_gate option" where
  "full_decision e p h a b =
     evaluateNewAdmission (estimateTable e) (admissionThrows e) (okCpuGate (io e)) (cpuGateFile b) (cfgOf e)
       (admission_ticket e p h a) (admission_held p h a) (poll_sample e p) (memoryReading e) (admissionNow e)"

definition elastic_decision :: "poll \<Rightarrow> prep \<Rightarrow> head_view \<Rightarrow> passes \<Rightarrow> decision \<Rightarrow> (decision \<times> int) option" where
  "elastic_decision e p h a full =
     (if schedulerMode (cfgOf e) = Active
      then evaluateElasticAdmission (estimateTable e) (cfgOf e) (admission_ticket e p h a) (admission_held p h a) (poll_sample e p)
             (memoryReading e) full (admissionNow e)
      else None)"

definition selected :: "prep \<Rightarrow> passes \<Rightarrow> bool" where
  "selected p a = (case aCandidate a of Some cd \<Rightarrow> eid cd = eid (pTicket p) | None \<Rightarrow> False)"

definition wins_floor :: "poll \<Rightarrow> prep \<Rightarrow> decision \<Rightarrow> bool \<Rightarrow> bool" where
  "wins_floor e p full loadShut =
     (case floorWinner (estimateTable e) (cfgOf e) (hostOf e) (pQueue p) (pHeld p) (poll_sample e p) (memoryReading e)
             (dCpuGateClosed full) loadShut (weight_cap e) (admissionNow e) of
        Some w \<Rightarrow> eid w = eid (pTicket p) | None \<Rightarrow> False)"

definition judged_of :: "poll \<Rightarrow> prep \<Rightarrow> head_view \<Rightarrow> passes \<Rightarrow> trial \<Rightarrow> broker \<Rightarrow> judged" where
  "judged_of e p h a tr b =
     (let gate = load_gate_now e b; full = fst (full_decision e p h a b);
          elastic = elastic_decision e p h a full;
          d = (case elastic of Some (d', _) \<Rightarrow> d' | None \<Rightarrow> full);
          ordinary = (selected p a \<and> admit d);
          floorAdmit = (tFloor tr \<and> \<not> ordinary \<and> wins_floor e p full (gateClosed gate));
          block = (if \<not> bypass_trial tr \<or> ordinary \<or> floorAdmit then None
                   else bypass_block e p h a (poll_sample e p) full d (gateClosed gate))
      in \<lparr>jNice = start_nice e p, jTier = priorityOf (pQueued p), jSample = poll_sample e p, jFull = full, jElastic = elastic,
          jDecision = d, jLoadClosed = gateClosed gate, jLastLoad = lastReading gate, jFloor = floorAdmit,
          jBypass = (bypass_trial tr \<and> \<not> ordinary \<and> \<not> floorAdmit \<and> block = None),
          jTrace = (case block of Some why \<Rightarrow> refuse_bypass (cfgOf e) why (tTrace tr) | None \<Rightarrow> tTrace tr)\<rparr>)"

definition lifted :: "judged \<Rightarrow> bool" where
  "lifted j \<longleftrightarrow> jFloor j \<or> jBypass j"

definition judge :: "poll \<Rightarrow> prep \<Rightarrow> head_view \<Rightarrow> passes \<Rightarrow> trial \<Rightarrow> broker \<Rightarrow> (start_result \<times> string option + judged) \<times> broker" where
  "judge e p h a tr b =
     (if \<not> okLoadGate (io e) then (Inl (Threw WriteFailed, tTrace tr), b)
      else (let j = judged_of e p h a tr b;
                b1 = b\<lparr>loadGateFile := Some (load_gate_now e b), cpuGateFile := snd (full_decision e p h a b)\<rparr>
            in if lift_trial tr \<and> \<not> lifted j \<and> \<not> selected p a then (Inl (not_head p, jTrace j), b1) else (Inr j, b1)))"

section \<open>Refusals\<close>

definition polling_head :: "prep \<Rightarrow> head_view \<Rightarrow> bool" where
  "polling_head p h \<longleftrightarrow> eid (pTicket p) = eid (hTicket h)"

definition head_futile :: "poll \<Rightarrow> prep \<Rightarrow> head_view \<Rightarrow> judged \<Rightarrow> (string \<times> jsnum \<times> jsnum) option" where
  "head_futile e p h j =
     (if schedulerMode (cfgOf e) = Active \<and> polling_head p h \<and> hBlocker h = None \<and> \<not> admit (jDecision j) \<and>
         dCpuReason (jDecision j) \<in> {Some ProjectedOverBudget, Some CpuOk}
      then headFutility (estimateTable e) (cfgOf e) (hTicket h) (pHeld p) (jSample j) (jDecision j) (memoryReading e) (wallNow e)
      else None)"

definition granted_cores :: "prep \<Rightarrow> judged \<Rightarrow> jsnum" where
  "granted_cores p j =
     (case jElastic j of Some (_, n) \<Rightarrow> of_int n | None \<Rightarrow> nullish (dCandidateCpuCores (jFull j)) (ticket_cpu (pTicket p)))"

definition grant_cap_reason :: "poll \<Rightarrow> prep \<Rightarrow> head_view \<Rightarrow> judged \<Rightarrow> cap_reason option" where
  "grant_cap_reason e p h j =
     (if classOf (pTicket p) = SimClass \<and> classValid (pClasses p) \<and> classMode (pClasses p) \<noteq> ClassesOff
      then simCapReason (pClasses p) (pBooked p)
             (if hExclusive h then exclusiveBudget (hostOf e) (cfgOf e) else (granted_cores p j, ticket_mem (pTicket p) (cfgOf e)))
             (hostOf e) (cfgOf e)
      else None)"

definition enforced_cap_reason :: "poll \<Rightarrow> prep \<Rightarrow> head_view \<Rightarrow> judged \<Rightarrow> cap_reason option" where
  "enforced_cap_reason e p h j = (if classMode (pClasses p) = ClassesActive then grant_cap_reason e p h j else None)"

definition resource_denied :: "poll \<Rightarrow> judged \<Rightarrow> bool" where
  "resource_denied e j \<longleftrightarrow> schedulerMode (cfgOf e) = Active \<and> \<not> admit (jDecision j) \<and>
     dCpuReason (jDecision j) = Some ProjectedOverBudget \<and> dMemoryReason (jDecision j) = Some MemOk"

definition memory_denied :: "poll \<Rightarrow> judged \<Rightarrow> bool" where
  "memory_denied e j \<longleftrightarrow> schedulerMode (cfgOf e) = Active \<and> \<not> admit (jDecision j) \<and>
     dMemoryReason (jDecision j) \<in> {Some MemHeadroom, Some MemReservations} \<and>
     dCpuReason (jDecision j) \<in> {Some CpuOk, Some ProjectedOverBudget}"

definition idle_exempt :: "poll \<Rightarrow> prep \<Rightarrow> head_view \<Rightarrow> judged \<Rightarrow> bool" where
  "idle_exempt e p h j \<longleftrightarrow> resource_denied e j \<and> polling_head p h \<and> pHeld p = [] \<and> resourceIdleOvershootCores (cfgOf e) > 0 \<and>
     (case (dProjectedBusy (jDecision j), dBudget (jDecision j)) of
        (Some x, Some y) \<Rightarrow> x - y \<le> resourceIdleOvershootCores (cfgOf e) | _ \<Rightarrow> False)"

text \<open>A denial outside the resource scope: pause the head's backfill, and drop the record a denied pick was chosen from.\<close>

definition drop_pick :: "poll \<Rightarrow> prep \<Rightarrow> head_view \<Rightarrow> passes \<Rightarrow> store \<Rightarrow> store" where
  "drop_pick e p h a st =
     (case aPick a of
        Some cp \<Rightarrow> if eid cp = eid (pTicket p) then dropResourceRecord (okDrop (io e)) st (eid (hTicket h)) else st
      | None \<Rightarrow> st)"

definition leave_scope :: "poll \<Rightarrow> prep \<Rightarrow> head_view \<Rightarrow> passes \<Rightarrow> store \<Rightarrow> store" where
  "leave_scope e p h a st =
     drop_pick e p h a (if polling_head p h then markResourceOutOfScope (okScope (io e)) st (eid (hTicket h)) (wallNow e) else st)"

definition denial_store :: "poll \<Rightarrow> prep \<Rightarrow> head_view \<Rightarrow> passes \<Rightarrow> judged \<Rightarrow> store \<Rightarrow> store" where
  "denial_store e p h a j st =
     (let c = cfgOf e; i = eid (hTicket h); now = wallNow e; d = jDecision j; wok = okDenial (io e)
      in if polling_head p h
         then (if head_futile e p h j \<noteq> None then recordResourceDenial wok st c i d now False (head_futile e p h j) (memoryReading e)
               else if resource_denied e j \<or> memory_denied e j then recordResourceDenial wok st c i d now False None (memoryReading e)
               else if dCpuReason d \<noteq> Some Cooldown then markResourceOutOfScope (okScope (io e)) st i now else st)
         else if hBlocker h \<noteq> None \<and> \<not> hSkipExhausted h \<and> resource_denied e j \<and> \<not> aSafe a \<and> \<not> aExpress a \<and> \<not> aYield a
         then recordResourceDenial wok st c i d now True None None
         else if dCpuReason d \<noteq> Some Cooldown then drop_pick e p h a st else st)"

text \<open>The refusal of a selected ticket, with the bypass trace and the store it leaves, or \<open>None\<close>: it may start.\<close>

definition refusal :: "poll \<Rightarrow> prep \<Rightarrow> head_view \<Rightarrow> passes \<Rightarrow> trial \<Rightarrow> judged \<Rightarrow> store \<Rightarrow> (deny_reason \<times> string option \<times> store) option" where
  "refusal e p h a tr j st =
     (let c = cfgOf e; t = pTicket p; d = jDecision j; trace = jTrace j;
          traced = (\<lambda>why. if bypass_trial tr then refuse_bypass c why trace else trace)
      in if \<not> hExclusive h \<and> elasticBelowFloor t c (hostOf e)
         then Some (ElasticBelowFloor, trace,
                if polling_head p h
                then recordResourceDenial (okDenial (io e)) st c (eid (hTicket h)) d (wallNow e) False
                       (Some (''elastic-below-floor'', ticketCpuFloor (estimateTable e) (hTicket h) c None [] None, wallNow e)) None
                else drop_pick e p h a st)
         else case enforced_cap_reason e p h j of
           Some why \<Rightarrow> Some (GrantCapDenied why, trace, leave_scope e p h a st)
         | None \<Rightarrow>
         if admissionLoadGate c \<and> jLoadClosed j \<and> pHeld p \<noteq> [] \<and> \<not> hExclusive h
         then Some (LoadGateDenied (jLastLoad j), traced ''load-gate'', leave_scope e p h a st)
         else if \<not> hExclusive h \<and> hRunning h + weight t > weight_cap e
         then Some (CapacityDenied (hRunning h) (weight_cap e), trace, leave_scope e p h a st)
         else if (case memoryReading e of Some mi \<Rightarrow> macCritical mi | None \<Rightarrow> False)
         then Some (MemoryCritical, traced ''memory'', leave_scope e p h a st)
         else if schedulerMode c = Active \<and> \<not> admit d \<and> \<not> idle_exempt e p h j \<and> \<not> lifted j \<and> \<not> hExclusive h
         then Some (AdmissionDenied (dCpuReason d) (dMemoryReason d), trace, denial_store e p h a j st)
         else None)"

section \<open>Counting the skip\<close>

text \<open>The store and the sequence counter with this start counted against the head, or \<open>None\<close> when it could not be counted.\<close>

definition count_skip :: "poll \<Rightarrow> prep \<Rightarrow> head_view \<Rightarrow> passes \<Rightarrow> judged \<Rightarrow> store \<Rightarrow> jsnum option \<Rightarrow> store option \<times> jsnum option" where
  "count_skip e p h a j st sq =
     (let c = cfgOf e; i = eid (hTicket h); other = \<not> polling_head p h; bypass = (aExpress a \<or> aYield a)
      in if other \<and> hBlocker h \<noteq> None \<and> \<not> aSafe a \<and> \<not> bypass \<and> \<not> lifted j then (recordSkip (okSkip (io e)) st i (wallNow e), sq)
         else if other \<and> hCapacityBlocked h \<and> \<not> bypass \<and> \<not> lifted j then (recordCapacitySkip (okSkip (io e)) st i, sq)
         else (case hRecord h of
                 Some r \<Rightarrow>
                   if other \<and> \<not> aSafe a \<and> \<not> bypass \<and> \<not> lifted j \<and> hBlocker h = None \<and> \<not> hCapacityBlocked h \<and>
                      resourceBackfillOpen (hRecord h) c (wallNow e) \<and> \<not> futileFresh (hRecord h) c (wallNow e)
                   then recordResourceBackfill (okBackfillSeq (io e)) (okBackfill (io e)) st sq c r
                   else (Some st, sq)
               | None \<Rightarrow> (Some st, sq)))"

section \<open>The lease\<close>

definition lease_of :: "poll \<Rightarrow> ticket \<Rightarrow> prep \<Rightarrow> head_view \<Rightarrow> trial \<Rightarrow> judged \<Rightarrow> lease" where
  "lease_of e sub p h tr j =
     (let c = cfgOf e; t = pTicket p; u = pQueued p;
          l = \<lparr>eid = eid t, key = key t, resources = resources sub, configLane = configLane t, cmdFingerprint = cmdFingerprint t,
            klass = klass t, exclusive = False, nice = Some (jNice j),
            priorityRequested = Some (nullish (priorityRequested u) DEFAULT_PRIORITY), priorityAdmitted = Some (priorityOf u),
            priorityDemoted = priorityDemoted u, maxConcurrent = maxConcurrent t, pushGate = pushGate t,
            repoId = (if pushGate t \<noteq> None then repoId t else None), supervisorPid = supervisorPid t,
            supervisorStart = supervisorStart t, bypassRefused = (if jBypass j then None else bypassRefused u),
            leaseWeight = Some (weight t), state = RUNNING, leaseBootId = pBoot (probesOf e), childPgid = None,
            heartbeatAt = Some (wallNow e), admittedAt = Some (wallNow e), observedAt = None, observedCpuCores = None,
            observedMemoryBytes = None, observedCpuHistory = [], cpuIntervalCores = None, cpuIdleSince = None, cpuIdleLastAt = None,
            grantedCpuCores = (if res_min sub \<noteq> None then Some (granted_cores p j) else None),
            queueBypass = (case tBypass tr of
               Inr (ms, src) \<Rightarrow> if jBypass j then Some \<lparr>expectedMs = ms, bypassSource = (case src of FromCommand \<Rightarrow> ''command''
                 | FromLane \<Rightarrow> ''lane'' | FromFamily \<Rightarrow> ''family'')\<rparr> else None
             | Inl _ \<Rightarrow> None),
            floorSlot = jFloor j,
            classEnforced = ((classOf t = SimClass \<or> enforcementRequired t) \<and> classEnforcementOf (pClasses p)),
            effectiveRankAtStart = effectiveRank u (pNowEff p) c, scoreAtStart = score u (pNowEff p) c,
            leaseRetieredAt = priorityRetieredAt u, leaseDeclaredCpu = declaredCpuCores sub, orphanReap = None\<rparr>
      in if hExclusive h then exclusiveLeaseFields (weight_cap e) (exclusiveBudget (hostOf e) c) l else l)"

section \<open>The commit\<close>

definition record_lifts :: "poll \<Rightarrow> head_view \<Rightarrow> passes \<Rightarrow> judged \<Rightarrow> store \<Rightarrow> jsnum list \<Rightarrow> (store \<times> bool) \<times> jsnum list" where
  "record_lifts e h a j st ex =
     (let yielded = (if aYield a \<and> \<not> lifted j
                     then (case hRecord h of Some r \<Rightarrow> recordPriorityYield (okYield (io e)) st r | None \<Rightarrow> None) else Some st)
      in case yielded of
           None \<Rightarrow> ((st, False), ex)
         | Some st1 \<Rightarrow>
             if (aExpress a \<or> aYield a) \<and> \<not> lifted j
             then (case recordExpressAdmission (okExpress (io e)) ex (wallNow e) of
                     Some ex' \<Rightarrow> ((st1, True), ex') | None \<Rightarrow> ((st1, False), ex))
             else ((st1, True), ex))"

definition commit :: "poll \<Rightarrow> ticket \<Rightarrow> prep \<Rightarrow> head_view \<Rightarrow> passes \<Rightarrow> trial \<Rightarrow> judged \<Rightarrow> store \<Rightarrow> broker \<Rightarrow> start_result \<times> store \<times> broker" where
  "commit e sub p h a tr j st b =
     (case record_lifts e h a j st (expressFile b) of
        ((st1, False), ex) \<Rightarrow> (not_head p, st1, b\<lparr>expressFile := ex\<rparr>)
      | ((st1, True), ex) \<Rightarrow>
          (case dequeueSync (okDequeue (io e)) (b\<lparr>expressFile := ex\<rparr>) (eid (pTicket p)) of
             (False, b1) \<Rightarrow> (not_head p, st1, b1)
           | (True, b1) \<Rightarrow>
               if \<not> okLease (io e) then (Threw WriteFailed, st1, b1)
               else (let l = lease_of e sub p h tr j;
                         b2 = clearExternalStarved (okStarved (io e)) (touchSimArmFor (okArm (io e)) l (wallNow e)
                                (b1\<lparr>leaseDir := writeLease (leaseDir b1) l\<rparr>));
                         st2 = (if store_v2 st1 then depart (okDepart (io e)) st1 (eid (pTicket p))
                                else if polling_head p h then dropResourceRecord (okDrop (io e)) st1 (eid (hTicket h)) else st1)
                     in (Started l (jFloor j), st2, b2))))"

section \<open>The transaction\<close>

text \<open>From the refusals on, for a ticket that is up.\<close>

definition finish :: "poll \<Rightarrow> ticket \<Rightarrow> prep \<Rightarrow> head_view \<Rightarrow> passes \<Rightarrow> trial \<Rightarrow> judged \<Rightarrow> store \<Rightarrow> broker \<Rightarrow> (start_result \<times> string option) \<times> store \<times> broker" where
  "finish e sub p h a tr j st b =
     (case refusal e p h a tr j st of
        Some (r, trace, st') \<Rightarrow>
          ((Denied r, trace), st',
           if is_admission_denial r \<and> resource_denied e j
           then b\<lparr>starvedFile := recordExternalDenial (okStarved (io e)) (cfgOf e) (jDecision j) (wallNow e) (starvedFile b)\<rparr> else b)
      | None \<Rightarrow>
          (case count_skip e p h a j st (seqFile b) of
             (None, sq) \<Rightarrow> ((not_head p, jTrace j), st, b\<lparr>seqFile := sq\<rparr>)
           | (Some st1, sq) \<Rightarrow>
               (let b1 = b\<lparr>seqFile := sq\<rparr>
                in if isCancelled b1 (eid (pTicket p)) then ((Denied CancelledTicket, jTrace j), st1, b1)
                   else (let (r, st2, b2) = commit e sub p h a tr j st1 b1 in ((r, jTrace j), st2, b2)))))"

text \<open>From the head on.\<close>

definition select_and_start :: "poll \<Rightarrow> ticket \<Rightarrow> prep \<Rightarrow> broker \<Rightarrow> (start_result \<times> string option) \<times> store \<times> broker" where
  "select_and_start e sub p b =
     (case head_state e p b of
        (Inl r, b1) \<Rightarrow> ((r, None), pStore p, b1)
      | (Inr (h, st), b1) \<Rightarrow>
          (let a = passes_of e p h st b1; tr = trial_of e p
           in case candidate_gate e p h a tr b1 of
                Some r \<Rightarrow> (r, st, b1)
              | None \<Rightarrow>
                  (case judge e p h a tr b1 of
                     (Inl r, b2) \<Rightarrow> (r, st, b2)
                   | (Inr j, b2) \<Rightarrow> finish e sub p h a tr j st b2)))"

definition decideTicket :: "poll \<Rightarrow> ticket \<Rightarrow> broker \<Rightarrow> (start_result \<times> string option \<times> string option) \<times> broker" where
  "decideTicket e sub b =
     (case open_queue e sub b of
        (None, b1) \<Rightarrow> ((Threw LegacyQueueAfterFence, None, None), b1)
      | (Some (raw, st, nowEff), b1) \<Rightarrow>
          (case prepare e sub raw st nowEff b1 of
             (Inl r, b2) \<Rightarrow> ((r, None, None), put_store b2 st)
           | (Inr p, b2) \<Rightarrow>
               (let ((r, trace), st', b3) = select_and_start e sub p b2
                in ((r, trace, bypassRefused (pQueued p)), put_store b3 st'))))"

text \<open>The wrapper: a changed bypass refusal is written back to the queue record, unless the ticket started.\<close>

definition recordBypassRefused :: "bool \<Rightarrow> string \<Rightarrow> string \<Rightarrow> broker \<Rightarrow> broker" where
  "recordBypassRefused wok i why b =
     (case findQueueFile b i of
        Some (s, _, Some r) \<Rightarrow> if wok then b\<lparr>queueDir := map (retier_file i (r\<lparr>bypassRefused := Some why\<rparr>)) (queueDir b)\<rparr> else b
      | _ \<Rightarrow> b)"

definition tryStart :: "poll \<Rightarrow> ticket \<Rightarrow> broker \<Rightarrow> start_result \<times> broker" where
  "tryStart e sub b =
     (let ((r, trace, previous), b1) = decideTicket e sub b
      in (r, case trace of
               Some why \<Rightarrow> if trace \<noteq> previous \<and> \<not> started r \<and> \<not> threw r then recordBypassRefused (okTrace (io e)) (eid sub) why b1 else b1
             | None \<Rightarrow> b1))"

section \<open>The placement probes\<close>

datatype gate_answer =
  GateOk | GateBypass | GateNoBypass | GateQueueAhead | GatePaused | GateExclusiveHeld | GateConflict | GateCapacity |
  GateLoadClosed | GateMemoryCritical | GateCooldown | GateMemory mem_reason

definition localGates :: "poll \<Rightarrow> ticket \<Rightarrow> lease list \<Rightarrow> bool \<Rightarrow> broker \<Rightarrow> gate_answer" where
  "localGates e t hl cooldown b =
     (let c = cfgOf e
      in if pauseFile b \<noteq> None then GatePaused
         else if list_ex exclusive hl then GateExclusiveHeld
         else if blockedBy (holders hl) t \<noteq> None then GateConflict
         else if running_weight hl + weight t > weight_cap e then GateCapacity
         else if admissionLoadGate c \<and> hl \<noteq> [] \<and> gateClosed (readGateState (loadGateFile b)) then GateLoadClosed
         else if (case memoryReading e of Some mi \<Rightarrow> macCritical mi | None \<Rightarrow> False) then GateMemoryCritical
         else if schedulerMode c = Active \<and> cooldown \<and> cooldownActive hl c (admissionNow e) then GateCooldown
         else if schedulerMode c = Active \<and> memoryReading e \<noteq> None
         then (let m = evaluateMemoryAdmission (memoryReading e) hl (ticket_mem t c) c (admissionNow e)
               in if memAdmit m then GateOk else GateMemory (memReason m))
         else GateOk)"

definition couldAdmitLocked :: "poll \<Rightarrow> ticket \<Rightarrow> broker \<Rightarrow> gate_answer \<times> string option" where
  "couldAdmitLocked e t b =
     (let hl = held b; q = listQueue b; holds = pushHolds (is_live b) q hl
      in (if list_ex (\<lambda>x. case x of None \<Rightarrow> True | Some u \<Rightarrow> map_of holds (eid u) = None) q then GateQueueAhead
          else localGates e t hl True b, map_option fst (sameKeyHolder hl t)))"

definition couldAdmitNow :: "poll \<Rightarrow> ticket \<Rightarrow> broker \<Rightarrow> (gate_answer \<times> string option) \<times> broker" where
  "couldAdmitNow e t b = (let b1 = reaped e t b in (couldAdmitLocked e t b1, b1))"

definition couldBypassNow :: "poll \<Rightarrow> ticket \<Rightarrow> broker \<Rightarrow> gate_answer \<times> broker" where
  "couldBypassNow e t b =
     (let b1 = reaped e t b; hl = held b1; g = localGates e t hl False b1
      in (if g \<noteq> GateOk then g
          else case bypassTrialVerdict (expressTable e) (cfgOf e) (hostOf e) t hl (listQueue b1) (weight_cap e) (wallNow e) of
              Inr _ \<Rightarrow> GateBypass | Inl _ \<Rightarrow> GateNoBypass, b1))"

end
