(* ===== verification/Start_Safety.thy ===== *)
theory Start_Safety
  imports Try_Start
begin

text \<open>
  What a start establishes. The first part says, stage by stage, what holds when a stage of \<^verbatim>\<open>tryStart\<close> lets a ticket through;
  the second collects the stages into one fact about a start; the rest are the safety properties of the transaction:
  conflicts, weight, exclusivity, stop flags, resources, and which tickets may pass the head.
\<close>

section \<open>What each stage establishes\<close>

lemma reaped_frame [simp]:
  "leaseDir (reaped e sub b) = reapAll (leaseDir b) (pBoot (probesOf e)) (pLease (probesOf e)) (pNow (probesOf e))"
  "fixed_files (reaped e sub b) = fixed_files b"
  by (simp_all add: reaped_def)

lemma open_queue_SomeD:
  assumes "open_queue e sub b = (Some (raw, st, n), b1)"
  shows "leaseDir b1 = leaseDir (reaped e sub b)" "fixed_files b1 = fixed_files b"
    "\<And>t. Some t \<in> set raw \<Longrightarrow> \<exists>u. Some u \<in> set (listQueue (reaped e sub b)) \<and>
       t = clampQueuedWeight (capElasticClaim u (cfgOf e) (hostOf e)) (cfgOf e) (weight_cap e)"
proof -
  let ?r = "reaped e sub b"
  have b1: "b1 = (if store_v2 (store_of ?r) then quarantineLegacyRecords (okQuarantine (io e)) ?r else ?r)"
    using assms by (simp add: open_queue_def Let_def split: if_splits)
  then show "leaseDir b1 = leaseDir ?r" "fixed_files b1 = fixed_files b" by simp_all
  have "set (queueDir b1) \<subseteq> set (queueDir ?r)"
    unfolding b1 by (simp add: quarantineLegacyRecords_def)
  then have sub: "set (listQueue b1) \<subseteq> set (listQueue ?r)"
    unfolding listQueue_def set_map by (rule image_mono)
  have raw: "raw = map (map_option (\<lambda>t. clampQueuedWeight t (cfgOf e) (weight_cap e)))
      (if store_v2 (store_of ?r) then fenceLegacy (listQueueCapped b1 (cfgOf e) (hostOf e)) else listQueueCapped b1 (cfgOf e) (hostOf e))"
    using assms b1 by (simp add: open_queue_def Let_def split: if_splits)
  have fence: "Some t \<in> set (fenceLegacy q) \<Longrightarrow> Some t \<in> set q" for t q
    by (auto simp: fenceLegacy_def split: option.splits if_splits)
  show "\<exists>u. Some u \<in> set (listQueue ?r) \<and> t = clampQueuedWeight (capElasticClaim u (cfgOf e) (hostOf e)) (cfgOf e) (weight_cap e)"
    if mem: "Some t \<in> set raw" for t
  proof -
    obtain v where v: "Some v \<in> set (listQueueCapped b1 (cfgOf e) (hostOf e))" "t = clampQueuedWeight v (cfgOf e) (weight_cap e)"
      using mem fence unfolding raw by (auto simp: Some_in_map_option split: if_splits)
    then obtain u where "Some u \<in> set (listQueue b1)" "v = capElasticClaim u (cfgOf e) (hostOf e)"
      unfolding listQueueCapped_def by (auto simp: Some_in_map_option)
    then show ?thesis using v(2) sub by blast
  qed
qed

text \<open>The judged ticket differs from the submitted one only in its weight and its claim.\<close>

definition same_lane :: "ticket \<Rightarrow> ticket \<Rightarrow> bool" where
  "same_lane t u \<longleftrightarrow> eid t = eid u \<and> key t = key u \<and> conflicts t = conflicts u \<and> maxConcurrent t = maxConcurrent u \<and>
     klass t = klass u \<and> exclusive t = exclusive u \<and> pushGate t = pushGate u \<and> startDeadline t = startDeadline u"

lemma same_lane_refl [simp]: "same_lane t t"
  by (simp add: same_lane_def)

lemma same_lane_capElastic [simp]: "same_lane (capElasticClaim t c h) t"
  by (simp add: same_lane_def capElasticClaim_def Let_def split: option.splits scheduler_mode.splits)

lemma same_lane_clamp [simp]: "same_lane (clampQueuedWeight t c cap) t"
  by (simp add: same_lane_def clampQueuedWeight_def Let_def)

lemma same_lane_capSim [simp]: "same_lane (capSimClaim t p b h c) t"
  by (simp add: same_lane_def)

lemma same_lane_trans: "same_lane t u \<Longrightarrow> same_lane u v \<Longrightarrow> same_lane t v"
  by (simp add: same_lane_def)

lemma same_lane_budget_capped [simp]: "same_lane (budget_capped e sub) sub"
  unfolding budget_capped_def by (rule same_lane_trans[OF same_lane_clamp same_lane_capElastic])

lemma same_lane_blocked: "same_lane t u \<Longrightarrow> blockedBy hs t = blockedBy hs u"
  by (rule blockedBy_cong) (simp_all add: same_lane_def)

lemma effectiveView_set: "set (fst (effectiveView raw n c st el sat)) = set raw"
proof -
  have "mset (fst (effectiveView raw n c st el sat)) = mset raw"
    by (simp add: effectiveView_def Let_def promoteReservationOwner_def promote_first_mset orderQueue_def order_runs_mset)
  then show ?thesis by (metis set_mset_mset)
qed

lemma same_lane_judged [simp]: "same_lane (judged_ticket e sub b) sub"
  unfolding judged_ticket_def Let_def
  by (simp add: same_lane_trans[OF same_lane_capSim same_lane_budget_capped])

lemma weight_judged [simp]: "weight (judged_ticket e sub b) = weight (budget_capped e sub)"
  by (simp add: judged_ticket_def Let_def)

lemma same_laneD: "same_lane t u \<Longrightarrow> eid t = eid u" "same_lane t u \<Longrightarrow> key t = key u" "same_lane t u \<Longrightarrow> exclusive t = exclusive u"
    "same_lane t u \<Longrightarrow> classOf t = classOf u" "same_lane t u \<Longrightarrow> startDeadline t = startDeadline u" "same_lane t u \<Longrightarrow> pushGate t = pushGate u"
  by (simp_all add: same_lane_def classOf_def)

lemmas judged_fields [simp] = same_laneD[OF same_lane_judged]

lemma full_view_set: "set (fst (full_view e raw st n b)) = set raw"
  by (simp add: full_view_def effectiveView_set)

lemma start_queue_set: "Some t \<in> set (start_queue e raw st n b) \<longleftrightarrow> Some t \<in> set raw \<and> may_start e raw b t"
  by (simp add: start_queue_def full_view_set)

lemma has_id_simps [simp]: "has_id i (Some t) = (eid t = i)" "has_id i None = False"
  by (simp_all add: has_id_def)

lemma prepare_InrD:
  assumes "prepare e sub raw st n b = (Inr p, b')"
  shows "b' = b" "pQueue p = start_queue e raw st n b" "pHeld p = held b" "pTicket p = judged_ticket e sub b" "pStore p = st"
    "pQueue p ! pPos p = Some (pQueued p)" "pPos p < length (pQueue p)" "eid (pQueued p) = eid sub"
    "eid sub \<notin> set (withdrawMarkers b)" "\<not> past_deadline e sub b" "map_of (push_holds_of raw b) (eid sub) = None"
    "cap_enforced (class_policy_of e raw b) (eid sub) = None"
    "pClasses p = resolveClasses (cfgOf e)" "pBooked p = bookedSims (held b) (cfgOf e)" "pNowEff p = n"
    "pOwner p = snd (full_view e raw st n b)"
proof -
  have pd: "past_deadline e (judged_ticket e sub b) b = past_deadline e sub b"
    by (simp add: past_deadline_def)
  have hold: "map_of (push_holds_of raw b) (eid sub) = None"
    using assms by (simp add: prepare_def split: option.splits)
  have ng: "eid sub \<notin> set (withdrawMarkers b)" "\<not> past_deadline e sub b" "cap_enforced (class_policy_of e raw b) (eid sub) = None"
    using assms hold by (simp_all add: prepare_def case_prod_beta Let_def pd split: if_splits option.splits)
  then obtain i where i: "find_index (has_id (eid sub)) (start_queue e raw st n b) = Some i"
    and p: "b' = b" "p = \<lparr>pQueue = start_queue e raw st n b, pHeld = held b, pTicket = judged_ticket e sub b, pPos = i,
        pQueued = nullish (start_queue e raw st n b ! i) (judged_ticket e sub b), pOwner = snd (full_view e raw st n b),
        pNowEff = n, pStore = st, pClasses = resolveClasses (cfgOf e), pBooked = bookedSims (held b) (cfgOf e)\<rparr>"
    using assms hold by (auto simp: prepare_def case_prod_beta Let_def pd split: if_splits option.splits)
  obtain u where u: "start_queue e raw st n b ! i = Some u" "eid u = eid sub" "i < length (start_queue e raw st n b)"
    using find_index_Some[OF i] by (cases "start_queue e raw st n b ! i") auto
  show "b' = b" "pQueue p = start_queue e raw st n b" "pHeld p = held b" "pTicket p = judged_ticket e sub b" "pStore p = st"
    "pQueue p ! pPos p = Some (pQueued p)" "pPos p < length (pQueue p)" "eid (pQueued p) = eid sub"
    "pClasses p = resolveClasses (cfgOf e)" "pBooked p = bookedSims (held b) (cfgOf e)" "pNowEff p = n"
    "pOwner p = snd (full_view e raw st n b)"
    using p u by simp_all
  show "eid sub \<notin> set (withdrawMarkers b)" "\<not> past_deadline e sub b" "map_of (push_holds_of raw b) (eid sub) = None"
    "cap_enforced (class_policy_of e raw b) (eid sub) = None" using ng hold by simp_all
qed

lemma head_state_InrD:
  assumes "head_state e p b = (Inr (h, st), b')"
  shows "head_of (pQueue p) = Some (hTicket h)" "exclusiveDeny (pQueue p) (pTicket p) (pHeld p) = None"
    "hExclusive h = isExclusiveHead (pQueue p) (pTicket p)" "hRunning h = running_weight (pHeld p)"
    "hBlocker h = blockedBy (holders (pHeld p)) (hTicket h)"
    "b' = reconcileSimArm (okArm (io e)) (pQueue p) (pHeld p) (wallNow e) (simArmWindowMs (cfgOf e)) b"
    "hCapacityBlocked h = (hBlocker h = None \<and> \<not> hExclusive h \<and> hRunning h + weight (hTicket h) > weight_cap e)"
  using assms unfolding head_state_def Let_def case_prod_beta by (simp_all split: option.splits) auto

lemma head_exclusive_alone:
  assumes "head_state e p b = (Inr (h, st), b')"
  shows "hExclusive h \<Longrightarrow> pHeld p = []" "l \<in> set (pHeld p) \<Longrightarrow> \<not> exclusive l"
  using exclusiveDeny_iff[of "pQueue p" "pTicket p" "pHeld p"] head_state_InrD(2,3)[OF assms]
  by (auto simp: isExclusiveHead_def split: option.splits)

lemma candidate_gate_NoneD:
  assumes "candidate_gate e p h a tr b = None"
  shows "pauseFile b = None"
    "lift_trial tr \<or> (\<exists>cd. aCandidate a = Some cd \<and> eid cd = eid (pTicket p)) \<or>
     (aCandidate a = None \<and> polling_head p h \<and> hBlocker h = None)"
  using assms by (auto simp: candidate_gate_def Let_def polling_head_def split: option.splits if_splits)

lemma judge_InrD:
  assumes "judge e p h a tr b = (Inr j, b')"
  shows "j = judged_of e p h a tr b" "leaseDir b' = leaseDir b" "fixed_files b' = fixed_files b" "queueDir b' = queueDir b"
    "seqFile b' = seqFile b" "lift_trial tr \<Longrightarrow> lifted j \<or> selected p a" "okLoadGate (io e)"
  using assms unfolding judge_def Let_def by (simp_all split: if_splits) auto

lemma judged_ofD:
  "jFloor (judged_of e p h a tr b) \<Longrightarrow> tFloor tr \<and> wins_floor e p (fst (full_decision e p h a b)) (gateClosed (load_gate_now e b))"
  "jBypass (judged_of e p h a tr b) \<Longrightarrow> bypass_trial tr \<and> bypass_block e p h a (poll_sample e p) (fst (full_decision e p h a b))
     (jDecision (judged_of e p h a tr b)) (gateClosed (load_gate_now e b)) = None"
  by (auto simp: judged_of_def Let_def split: if_splits)

lemma refusal_NoneD:
  assumes "refusal e p h a tr j st = None"
  shows "\<not> hExclusive h \<Longrightarrow> \<not> elasticBelowFloor (pTicket p) (cfgOf e) (hostOf e)"
    "enforced_cap_reason e p h j = None"
    "admissionLoadGate (cfgOf e) \<Longrightarrow> jLoadClosed j \<Longrightarrow> pHeld p = [] \<or> hExclusive h"
    "\<not> hExclusive h \<Longrightarrow> hRunning h + weight (pTicket p) \<le> weight_cap e"
    "memoryReading e = Some mi \<Longrightarrow> \<not> macCritical mi"
    "schedulerMode (cfgOf e) = Active \<Longrightarrow> admit (jDecision j) \<or> idle_exempt e p h j \<or> lifted j \<or> hExclusive h"
  using assms by (auto simp: refusal_def Let_def split: if_splits option.splits)

lemma commit_StartedD:
  assumes "commit e sub p h a tr j st b = (Started l f, st', b')"
  shows "l = lease_of e sub p h tr j" "f = jFloor j" "leaseDir b' = writeLease (leaseDir b) l"
    "queueDir b' = (if findQueueFile b (eid (pTicket p)) = None then queueDir b else remove_file (eid (pTicket p)) (queueDir b))"
    "snd (fst (record_lifts e h a j st (expressFile b)))"
proof -
  obtain st1 ok ex where rl: "record_lifts e h a j st (expressFile b) = ((st1, ok), ex)" by (metis prod.collapse)
  obtain d b1 where d: "dequeueSync (okDequeue (io e)) (b\<lparr>expressFile := ex\<rparr>) (eid (pTicket p)) = (d, b1)" by fastforce
  have ok: "ok" "d" "okLease (io e)"
    using assms by (auto simp: commit_def rl d not_head_def split: bool.splits if_splits)
  have b1: "leaseDir b1 = leaseDir b"
    "queueDir b1 = (if findQueueFile b (eid (pTicket p)) = None then queueDir b else remove_file (eid (pTicket p)) (queueDir b))"
    using d ok(2) by (auto simp: dequeueSync_def findQueueFile_def split: option.splits if_splits)
  show "l = lease_of e sub p h tr j" "f = jFloor j" "leaseDir b' = writeLease (leaseDir b) l"
    "queueDir b' = (if findQueueFile b (eid (pTicket p)) = None then queueDir b else remove_file (eid (pTicket p)) (queueDir b))"
    "snd (fst (record_lifts e h a j st (expressFile b)))"
    using assms ok b1 by (auto simp: commit_def rl d Let_def)
qed

section \<open>What a start went through\<close>

text \<open>Every early return is a refusal.\<close>

lemma not_head_not_started [simp]: "\<not> started (not_head p)"
  by (simp add: not_head_def)

lemma prepare_Inl: "prepare e sub raw st n b = (Inl r, b') \<Longrightarrow> \<not> started r"
  unfolding prepare_def Let_def case_prod_beta by (auto split: option.splits if_splits)

lemma head_state_Inl: "head_state e p b = (Inl r, b') \<Longrightarrow> \<not> started r"
  unfolding head_state_def Let_def case_prod_beta by (auto split: option.splits)

lemma candidate_gate_Some: "candidate_gate e p h a tr b = Some (r, t) \<Longrightarrow> \<not> started r"
  unfolding candidate_gate_def Let_def by (auto split: option.splits if_splits)

lemma judge_Inl: "judge e p h a tr b = (Inl (r, t), b') \<Longrightarrow> \<not> started r"
  unfolding judge_def Let_def by (auto split: if_splits)

lemma finish_StartedD:
  assumes "finish e sub p h a tr j st b = ((r, t), st3, b4)" and "started r"
  shows "\<exists>st2 sq. refusal e p h a tr j st = None \<and> count_skip e p h a j st (seqFile b) = (Some st2, sq) \<and>
    \<not> isCancelled b (eid (pTicket p)) \<and> commit e sub p h a tr j st2 (b\<lparr>seqFile := sq\<rparr>) = (r, st3, b4)"
proof -
  have ref: "refusal e p h a tr j st = None"
    using assms by (auto simp: finish_def split: option.splits)
  obtain c sq where c: "count_skip e p h a j st (seqFile b) = (c, sq)" by fastforce
  then obtain st2 where st2: "c = Some st2" using assms ref by (cases c) (auto simp: finish_def)
  have ic: "isCancelled (b\<lparr>seqFile := sq\<rparr>) i = isCancelled b i" for i by (simp add: isCancelled_def)
  then show ?thesis
    using assms ref c st2 by (cases "commit e sub p h a tr j st2 (b\<lparr>seqFile := sq\<rparr>)") (auto simp: finish_def Let_def split: if_splits)
qed

lemma select_and_start_StartedD:
  assumes "select_and_start e sub p b = ((r, t), st3, b4)" and "started r"
  shows "\<exists>h st b1 j b2. head_state e p b = (Inr (h, st), b1) \<and> candidate_gate e p h (passes_of e p h st b1) (trial_of e p) b1 = None \<and>
    judge e p h (passes_of e p h st b1) (trial_of e p) b1 = (Inr j, b2) \<and>
    finish e sub p h (passes_of e p h st b1) (trial_of e p) j st b2 = ((r, t), st3, b4)"
proof -
  obtain hs b1 where hs: "head_state e p b = (hs, b1)" by fastforce
  then obtain h st where h: "hs = Inr (h, st)"
    using assms head_state_Inl[of e p b] by (cases hs) (auto simp: select_and_start_def)
  let ?a = "passes_of e p h st b1"
  have g: "candidate_gate e p h ?a (trial_of e p) b1 = None"
    using assms hs h candidate_gate_Some[of e p h ?a "trial_of e p" b1 r t]
    by (auto simp: select_and_start_def Let_def split: option.splits)
  obtain js b2 where js: "judge e p h ?a (trial_of e p) b1 = (js, b2)" by fastforce
  then obtain j where "js = Inr j"
    using assms hs h g judge_Inl[of e p h ?a "trial_of e p" b1 r t b2] by (cases js) (auto simp: select_and_start_def Let_def)
  then show ?thesis using assms hs h g js by (simp add: select_and_start_def Let_def)
qed

lemma tryStart_result: "fst (tryStart e sub b) = fst (fst (decideTicket e sub b))"
  by (simp add: tryStart_def case_prod_beta Let_def)

lemma tryStart_started: "started (fst (tryStart e sub b)) \<Longrightarrow> snd (tryStart e sub b) = snd (decideTicket e sub b)"
  by (simp add: tryStart_def case_prod_beta Let_def split: option.splits)

text \<open>The stages of a start, with the values they passed on.\<close>

lemma tryStart_StartedE:
  assumes "tryStart e sub b = (Started l f, b')"
  obtains raw st n b1 p h st1 b2 a j b3 st2 sq st3 b4 where
    "open_queue e sub b = (Some (raw, st, n), b1)" "prepare e sub raw st n b1 = (Inr p, b1)" "head_state e p b1 = (Inr (h, st1), b2)"
    "a = passes_of e p h st1 b2" "candidate_gate e p h a (trial_of e p) b2 = None"
    "judge e p h a (trial_of e p) b2 = (Inr j, b3)" "refusal e p h a (trial_of e p) j st1 = None"
    "count_skip e p h a j st1 (seqFile b3) = (Some st2, sq)" "\<not> isCancelled b3 (eid (pTicket p))"
    "commit e sub p h a (trial_of e p) j st2 (b3\<lparr>seqFile := sq\<rparr>) = (Started l f, st3, b4)" "b' = put_store b4 st3"
proof -
  obtain tr pv where d: "decideTicket e sub b = ((Started l f, tr, pv), b')"
    using tryStart_result[of e sub b] tryStart_started[of e sub b] assms by (metis fst_conv snd_conv prod.collapse started.simps(1))
  obtain oq b1 where o: "open_queue e sub b = (oq, b1)" by fastforce
  then obtain raw st n where oq: "oq = Some (raw, st, n)" using d by (cases oq) (auto simp: decideTicket_def)
  obtain pp b1' where pr: "prepare e sub raw st n b1 = (pp, b1')" by fastforce
  then obtain p where pp: "pp = Inr p"
    using d o oq prepare_Inl[of e sub raw st n b1] by (cases pp) (auto simp: decideTicket_def)
  have b1': "b1' = b1" using prepare_InrD(1) pr pp by blast
  obtain r t st3 b4 where ss: "select_and_start e sub p b1 = ((r, t), st3, b4)" by (metis prod.collapse)
  have r: "r = Started l f" "b' = put_store b4 st3"
    using d o oq pr pp b1' ss by (auto simp: decideTicket_def Let_def)
  show thesis
    using select_and_start_StartedD[OF ss] finish_StartedD that[OF _ _ _ refl] o oq pr pp b1' r
    by (metis started.simps(1))
qed

section \<open>Conflicts\<close>

lemma walk_queue_subset: "set (walk_queue p h) \<subseteq> set (pQueue p)"
  unfolding walk_queue_def withoutBackfillExclusives_def by (auto split: list.splits if_splits)

lemma selectResourceCandidate_unblocked:
  assumes "selectResourceCandidate est q hl rw cap r c now hr = Some t"
  shows "Some t \<in> set q" "blockedBy (holders hl) t = None"
  using selectResourceCandidate_SomeD[OF assms] by (cases q; auto)+

lemma conflict_pick_unblocked:
  assumes "conflict_pick e p h st = Some t"
  shows "Some t \<in> set (walk_queue p h)" "blockedBy (holders (pHeld p)) t = None"
  using assms selectResourceCandidate_unblocked unfolding conflict_pick_def by (auto split: if_splits option.splits)

lemma walk_candidate_cases:
  assumes "walk_candidate e p h st = Some cd"
  obtains "conflict_pick e p h st = Some cd" | "selectCandidate (walk_queue p h) (pHeld p) = Some cd"
  | "selectCapacityCandidate (walk_queue p h) (pHeld p) (hRunning h) (weight_cap e) = Some cd"
  | r where "selectResourceCandidate (estimateTable e) (walk_queue p h) (pHeld p) (hRunning h) (weight_cap e) r (cfgOf e) (wallNow e) False = Some cd"
  | "hBlocker h = None" "cd = hTicket h"
proof (cases "hBlocker h = None")
  case True
  show thesis
  proof (cases "hCapacityBlocked h")
    case cap: True
    have "selectCapacityCandidate (walk_queue p h) (pHeld p) (hRunning h) (weight_cap e) = Some cd"
      using assms True cap by (simp add: walk_candidate_def Let_def split: if_splits)
    then show thesis by (rule that(3))
  next
    case cap: False
    show thesis
    proof (cases "cd = hTicket h")
      case same: True
      show thesis by (rule that(5)[OF True same])
    next
      case other: False
      obtain r where "hRecord h = Some r" using assms True cap other by (cases "hRecord h") (simp_all add: walk_candidate_def Let_def)
      then have "selectResourceCandidate (estimateTable e) (walk_queue p h) (pHeld p) (hRunning h) (weight_cap e) r (cfgOf e) (wallNow e) False = Some cd"
        using assms True cap other by (simp add: walk_candidate_def Let_def split: if_splits)
      then show thesis by (rule that(4))
    qed
  qed
next
  case False
  show thesis
  proof (cases "conflict_pick e p h st")
    case None
    have "selectCandidate (walk_queue p h) (pHeld p) = Some cd"
      using assms False None by (simp add: walk_candidate_def Let_def split: if_splits)
    then show thesis by (rule that(2))
  next
    case (Some x)
    have "conflict_pick e p h st = Some cd"
      using assms False Some by (simp add: walk_candidate_def Let_def split: if_splits)
    then show thesis by (rule that(1))
  qed
qed

lemma walk_candidate_unblocked:
  assumes "walk_candidate e p h st = Some cd" and "head_of (pQueue p) = Some (hTicket h)"
    and "hBlocker h = blockedBy (holders (pHeld p)) (hTicket h)"
  shows "Some cd \<in> set (pQueue p) \<and> blockedBy (holders (pHeld p)) cd = None"
  using assms(1)
proof (cases rule: walk_candidate_cases)
  case 1
  show ?thesis using conflict_pick_unblocked[OF 1] walk_queue_subset[of p h] by auto
next
  case 2
  show ?thesis using selectCandidate_SomeD[OF 2] walk_queue_subset[of p h] by auto
next
  case 3
  show ?thesis using selectCapacityCandidate_SomeD[OF 3] walk_queue_subset[of p h] by auto
next
  case (4 r)
  show ?thesis using selectResourceCandidate_unblocked[OF 4] walk_queue_subset[of p h] by auto
next
  case 5
  have "Some (hTicket h) \<in> set (pQueue p)" using head_of_SomeD[OF assms(2)] by auto
  then show ?thesis using 5 assms(3) by simp
qed

text \<open>The copies of a ticket a poll may judge: the submitted one, or its record in the queue.\<close>

definition copy_of :: "prep \<Rightarrow> ticket \<Rightarrow> bool" where
  "copy_of p u \<longleftrightarrow> eid u = eid (pTicket p) \<and> (u = pTicket p \<or> Some u \<in> set (pQueue p))"

lemma selected_unblocked:
  assumes "head_state e p b = (Inr (h, st), b')" and "selected p (passes_of e p h st b'')"
  shows "\<exists>u. copy_of p u \<and> blockedBy (holders (pHeld p)) u = None"
proof (cases "aSafe (passes_of e p h st b'') \<or> aExpress (passes_of e p h st b'') \<or> aYield (passes_of e p h st b'')")
  case True
  then have "blockedBy (holders (pHeld p)) (pTicket p) = None"
    by (auto simp: passes_of_def Let_def safe_backfill_def express_eligible_def yield_eligible_def cannotDelayHead_def split: if_splits)
  then show ?thesis by (auto simp: copy_of_def)
next
  case False
  then obtain cd where "walk_candidate e p h st = Some cd" "eid cd = eid (pTicket p)"
    using assms(2) by (auto simp: selected_def passes_of_def Let_def split: option.splits)
  then show ?thesis
    using walk_candidate_unblocked head_state_InrD(1,5)[OF assms(1)] by (auto simp: copy_of_def)
qed

lemma start_unblocked:
  assumes h: "head_state e p b = (Inr (h, st), b1)" and a: "a = passes_of e p h st b1"
    and g: "candidate_gate e p h a (trial_of e p) b1 = None" and j: "judge e p h a (trial_of e p) b1 = (Inr j, b2)"
  shows "\<exists>u. copy_of p u \<and> blockedBy (holders (pHeld p)) u = None"
proof -
  consider "jFloor j" | "jBypass j" | "selected p a" | "polling_head p h" "hBlocker h = None"
    using candidate_gate_NoneD(2)[OF g] judge_InrD(6)[OF j] by (auto simp: lifted_def selected_def)
  then show ?thesis
  proof cases
    case 1
    then have "wins_floor e p (fst (full_decision e p h a b1)) (gateClosed (load_gate_now e b1))"
      using judged_ofD(1) judge_InrD(1)[OF j] by blast
    then obtain w where "eid w = eid (pTicket p)" "Some w \<in> set (pQueue p)" "blockedBy (holders (pHeld p)) w = None"
      by (auto simp: wins_floor_def runnable_def split: option.splits dest!: floorWinner_SomeD)
    then show ?thesis by (auto simp: copy_of_def)
  next
    case 2
    then have "bypass_trial (trial_of e p)" using judged_ofD(2) judge_InrD(1)[OF j] by blast
    then have "blockedBy (holders (pHeld p)) (pTicket p) = None"
      by (auto simp: trial_of_def Let_def split: sum.splits dest!: bypassTrialVerdict_InrD)
    then show ?thesis by (auto simp: copy_of_def)
  next
    case 3
    then show ?thesis using selected_unblocked[OF h] a by blast
  next
    case 4
    then have "copy_of p (hTicket h)"
      using head_of_SomeD[OF head_state_InrD(1)[OF h]] by (auto simp: copy_of_def polling_head_def)
    then show ?thesis using 4 head_state_InrD(5)[OF h] by metis
  qed
qed

text \<open>
  The supervisor keeps its own copy of the ticket, written before the queue record. The consistency the code relies on: the queue
  record with the ticket's id is for the same key and class, with the same conflicts, ceiling and exclusivity.
\<close>

definition copies_agree :: "ticket \<Rightarrow> broker \<Rightarrow> bool" where
  "copies_agree sub b \<longleftrightarrow> list_all (\<lambda>t. eid t = eid sub \<longrightarrow> same_lane t sub) (readable (listQueue b))"

lemma copies_agreeD: "copies_agree sub b \<Longrightarrow> Some t \<in> set (listQueue b) \<Longrightarrow> eid t = eid sub \<Longrightarrow> same_lane t sub"
  by (simp add: copies_agree_def list_all_iff)

lemma queue_record_origin:
  assumes o: "open_queue e sub b = (Some (raw, st, n), b1)" and p: "prepare e sub raw st n b1 = (Inr p, b1)" and u: "Some u \<in> set (pQueue p)"
  shows "\<exists>v. Some v \<in> set (listQueue (reaped e sub b)) \<and> same_lane u v"
proof -
  have "Some u \<in> set raw" using u prepare_InrD(2)[OF p] by (simp add: start_queue_set)
  then obtain v where "Some v \<in> set (listQueue (reaped e sub b))" "u = clampQueuedWeight (capElasticClaim v (cfgOf e) (hostOf e)) (cfgOf e) (weight_cap e)"
    using open_queue_SomeD(3)[OF o] by blast
  then show ?thesis using same_lane_trans[OF same_lane_clamp same_lane_capElastic] by blast
qed

text \<open>
  C2. A started ticket conflicts with nothing that is held. If \<^verbatim>\<open>tryStart\<close> starts a ticket and its queue record agrees with the
  submitted copy, then among the leases held after the reaping (running or orphaned) none holds a key the ticket conflicts
  with, and fewer leases hold its own key than its \<^verbatim>\<open>maxConcurrent\<close>; the new lease holds that key. This covers every way past
  the head: conflict, capacity and resource backfill, safe backfill, express, priority yield, floor slot and queue bypass.
\<close>

theorem start_respects_conflicts:
  assumes "tryStart e sub b = (Started l f, b')" and "copies_agree sub (reaped e sub b)"
  shows "(\<forall>x \<in> set (held (reaped e sub b)). key x \<noteq> key sub \<longrightarrow> key x \<notin> set (conflicts sub)) \<and>
    of_nat (length (filter (\<lambda>x. key x = key sub) (held (reaped e sub b)))) < key_ceiling sub \<and> key l = key sub \<and> eid l = eid sub"
proof -
  obtain raw st n b1 p h st1 b2 a j b3 st2 sq st3 b4 where
      o: "open_queue e sub b = (Some (raw, st, n), b1)" and p: "prepare e sub raw st n b1 = (Inr p, b1)" and
      h: "head_state e p b1 = (Inr (h, st1), b2)" and a: "a = passes_of e p h st1 b2" and
      g: "candidate_gate e p h a (trial_of e p) b2 = None" and j: "judge e p h a (trial_of e p) b2 = (Inr j, b3)" and
      c: "commit e sub p h a (trial_of e p) j st2 (b3\<lparr>seqFile := sq\<rparr>) = (Started l f, st3, b4)"
    by (rule tryStart_StartedE[OF assms(1)])
  have held: "pHeld p = held (reaped e sub b)"
    using prepare_InrD(3)[OF p] open_queue_SomeD(1)[OF o] by (simp add: held_def)
  have sl: "same_lane (pTicket p) sub" using prepare_InrD(4)[OF p] by simp
  obtain u where u: "copy_of p u" "blockedBy (holders (pHeld p)) u = None" using start_unblocked[OF h a g j] by blast
  have "blockedBy (holders (pHeld p)) sub = None"
  proof (cases "u = pTicket p")
    case True
    then show ?thesis using u(2) same_lane_blocked[OF sl] by simp
  next
    case False
    then obtain v where v: "Some v \<in> set (listQueue (reaped e sub b))" "same_lane u v"
      using u(1) queue_record_origin[OF o p] by (auto simp: copy_of_def)
    have "eid v = eid sub" using u(1) v(2) sl by (simp add: copy_of_def same_lane_def)
    then show ?thesis using u(2) same_lane_blocked[OF v(2)] same_lane_blocked[OF copies_agreeD[OF assms(2) v(1)]] by simp
  qed
  moreover have "key l = key sub \<and> eid l = eid sub"
    using commit_StartedD(1)[OF c] sl by (simp add: lease_of_def Let_def same_lane_def)
  ultimately show ?thesis using held by (simp add: blockedBy_holders_None)
qed

section \<open>The lease table\<close>

fun after_result :: "lease list \<Rightarrow> start_result \<Rightarrow> lease list" where
  "after_result ls (Started l f) = writeLease ls l"
| "after_result ls (Denied r) = ls"
| "after_result ls (Threw x) = ls"

lemma after_result_not_started [simp]: "\<not> started r \<Longrightarrow> after_result ls r = ls"
  by (cases r) auto

lemma prepare_leaseDir: "prepare e sub raw st n b = (r, b') \<Longrightarrow> leaseDir b' = leaseDir b"
  unfolding prepare_def Let_def case_prod_beta by (auto split: option.splits if_splits)

lemma head_state_leaseDir: "head_state e p b = (r, b') \<Longrightarrow> leaseDir b' = leaseDir b"
  unfolding head_state_def Let_def case_prod_beta by (auto split: option.splits)

lemma judge_leaseDir: "judge e p h a tr b = (r, b') \<Longrightarrow> leaseDir b' = leaseDir b"
  unfolding judge_def Let_def by (auto split: if_splits)

lemma dequeueSync_leaseDir: "dequeueSync ok b i = (d, b') \<Longrightarrow> leaseDir b' = leaseDir b"
  by (metis dequeueSync_frame(1) snd_conv)

lemma commit_leaseDir:
  assumes "commit e sub p h a tr j st b = (r, st', b')"
  shows "leaseDir b' = after_result (leaseDir b) r"
proof -
  obtain st1 ok ex where rl: "record_lifts e h a j st (expressFile b) = ((st1, ok), ex)" by (metis prod.collapse)
  obtain d b1 where d: "dequeueSync (okDequeue (io e)) (b\<lparr>expressFile := ex\<rparr>) (eid (pTicket p)) = (d, b1)" by fastforce
  have "leaseDir b1 = leaseDir b" using dequeueSync_leaseDir[OF d] by simp
  then show ?thesis
    using assms by (cases ok; cases d) (auto simp: commit_def rl d Let_def not_head_def split: if_splits)
qed

lemma finish_leaseDir:
  assumes "finish e sub p h a tr j st b = ((r, t), st', b')"
  shows "leaseDir b' = after_result (leaseDir b) r"
proof (cases "refusal e p h a tr j st")
  case None
  obtain c sq where c: "count_skip e p h a j st (seqFile b) = (c, sq)" by fastforce
  show ?thesis
  proof (cases c)
    case (Some st2)
    obtain r' st3 b4 where cm: "commit e sub p h a tr j st2 (b\<lparr>seqFile := sq\<rparr>) = (r', st3, b4)" by (metis prod.collapse)
    then have "leaseDir b4 = after_result (leaseDir b) r'"
      using commit_leaseDir[OF cm] by simp
    then show ?thesis
      using assms None c Some cm by (auto simp: finish_def Let_def split: if_splits)
  qed (use assms None c in \<open>auto simp: finish_def not_head_def\<close>)
next
  case (Some x)
  then show ?thesis using assms by (cases x) (auto simp: finish_def)
qed

lemma select_and_start_leaseDir:
  assumes "select_and_start e sub p b = ((r, t), st', b')"
  shows "leaseDir b' = after_result (leaseDir b) r"
proof -
  obtain hs b1 where hs: "head_state e p b = (hs, b1)" by fastforce
  note l1 = head_state_leaseDir[OF hs]
  show ?thesis
  proof (cases hs)
    case (Inl x)
    then show ?thesis using assms hs l1 head_state_Inl[of e p b x b1] by (cases x) (auto simp: select_and_start_def)
  next
    case (Inr hp)
    obtain h st where h: "hp = (h, st)" by fastforce
    let ?a = "passes_of e p h st b1"
    show ?thesis
    proof (cases "candidate_gate e p h ?a (trial_of e p) b1")
      case (Some x)
      then have "\<not> started r" "leaseDir b' = leaseDir b"
        using assms hs Inr h l1 candidate_gate_Some[of e p h ?a "trial_of e p" b1 r t] by (auto simp: select_and_start_def Let_def)
      then show ?thesis by (cases r) auto
    next
      case None
      obtain js b2 where js: "judge e p h ?a (trial_of e p) b1 = (js, b2)" by fastforce
      show ?thesis
      proof (cases js)
        case (Inl x)
        then have "\<not> started r" "leaseDir b' = leaseDir b"
          using assms hs Inr h None js l1 judge_leaseDir[OF js] judge_Inl[of e p h ?a "trial_of e p" b1 r t b2]
          by (auto simp: select_and_start_def Let_def)
        then show ?thesis by (cases r) auto
      next
        case (Inr j)
        then have "finish e sub p h ?a (trial_of e p) j st b2 = ((r, t), st', b')"
          using assms hs \<open>hs = Inr hp\<close> h None js by (simp add: select_and_start_def Let_def)
        then show ?thesis using finish_leaseDir judge_leaseDir[OF js] l1 by simp
      qed
    qed
  qed
qed

lemma recordBypassRefused_leaseDir [simp]: "leaseDir (recordBypassRefused w i why b) = leaseDir b"
  by (simp add: recordBypassRefused_def split: option.splits)

text \<open>A poll changes the lease table by reaping it and, if it starts the ticket, by writing one lease; in no other way.\<close>

lemma decideTicket_leaseDir:
  assumes "decideTicket e sub b = ((r, t, pv), b')"
  shows "leaseDir b' = after_result (leaseDir (reaped e sub b)) r"
proof -
  obtain oq b1 where o: "open_queue e sub b = (oq, b1)" by fastforce
  show ?thesis
  proof (cases oq)
    case None
    then show ?thesis using assms o by (auto simp: decideTicket_def open_queue_def Let_def split: if_splits)
  next
    case (Some x)
    obtain raw st n where x: "x = (raw, st, n)" by (metis prod.collapse)
    have l1: "leaseDir b1 = leaseDir (reaped e sub b)" using open_queue_SomeD(1) o Some x by blast
    obtain pp b2 where p: "prepare e sub raw st n b1 = (pp, b2)" by fastforce
    note l2 = prepare_leaseDir[OF p]
    show ?thesis
    proof (cases pp)
      case (Inl q)
      then have "\<not> started r" "leaseDir b' = leaseDir b1"
        using assms o Some x p l2 prepare_Inl[of e sub raw st n b1] by (auto simp: decideTicket_def)
      then show ?thesis using l1 by (cases r) auto
    next
      case (Inr q)
      obtain r' t' st' b3 where ss: "select_and_start e sub q b2 = ((r', t'), st', b3)" by (metis prod.collapse)
      then have "r' = r" "leaseDir b' = leaseDir b3"
        using assms o Some x p Inr by (auto simp: decideTicket_def Let_def)
      then show ?thesis using select_and_start_leaseDir[OF ss] l1 l2 by simp
    qed
  qed
qed

lemma tryStart_leaseDir:
  assumes "tryStart e sub b = (r, b')"
  shows "leaseDir b' = after_result (leaseDir (reaped e sub b)) r"
proof -
  obtain r' t pv b1 where d: "decideTicket e sub b = ((r', t, pv), b1)" by (metis prod.collapse)
  then have "r' = r" "leaseDir b' = leaseDir b1"
    using assms by (auto simp: tryStart_def Let_def split: option.splits if_splits)
  then show ?thesis using decideTicket_leaseDir[OF d] by simp
qed

section \<open>Weight and exclusivity\<close>

text \<open>
  The invariant of the lease table: one lease per id, every lease held (the state DONE is never written), weights not
  negative and within the capacity, and an exclusive lease alone.
\<close>

definition leases_ok :: "jsnum \<Rightarrow> lease list \<Rightarrow> bool" where
  "leases_ok cap ls \<longleftrightarrow> distinct (map eid ls) \<and> list_all (\<lambda>l. is_held l \<and> 0 \<le> lease_weight l) ls \<and>
     running_weight ls \<le> cap \<and> (list_ex exclusive ls \<longrightarrow> length ls = 1)"

lemma held_all: "list_all (\<lambda>l. is_held l \<and> P l) (leaseDir b) \<Longrightarrow> held b = leaseDir b"
  unfolding held_def held_leases_def list_all_iff by (rule filter_True) simp

lemma reapAll_simps [simp]:
  "reapAll [] boot pr now = []"
  "reapAll (l # ls) boot pr now =
     (case snd (reapIfStale l boot (pr l) now) of None \<Rightarrow> reapAll ls boot pr now | Some l' \<Rightarrow> l' # reapAll ls boot pr now)"
  unfolding reapAll_def map_filter_simps by (rule refl)+

lemma reapAll_origin:
  assumes "l' \<in> set (reapAll ls boot pr now)"
  shows "\<exists>l \<in> set ls. eid l' = eid l \<and> leaseWeight l' = leaseWeight l \<and> exclusive l' = exclusive l \<and>
    (state l' = state l \<or> state l' = ORPHANED)"
  using assms
proof (induction ls)
  case (Cons l ls)
  show ?case
  proof (cases "snd (reapIfStale l boot (pr l) now)")
    case None
    then show ?thesis using Cons by auto
  next
    case (Some l'')
    show ?thesis
    proof (cases "l' = l''")
      case True
      then show ?thesis using reapIfStale_fields[OF Some] by simp
    next
      case False
      then show ?thesis using Cons Some by auto
    qed
  qed
qed simp

lemma reapAll_length: "length (reapAll ls boot pr now) \<le> length ls"
  by (induction ls) (auto split: option.splits)

lemma reapAll_distinct: "distinct (map eid ls) \<Longrightarrow> distinct (map eid (reapAll ls boot pr now))"
proof (induction ls)
  case (Cons l ls)
  have "eid l \<notin> eid ` set (reapAll ls boot pr now)"
  proof
    assume "eid l \<in> eid ` set (reapAll ls boot pr now)"
    then obtain x where x: "x \<in> set (reapAll ls boot pr now)" "eid x = eid l" by auto
    obtain y where "y \<in> set ls" "eid x = eid y" using reapAll_origin[OF x(1)] by (elim bexE conjE)
    then have "eid l \<in> eid ` set ls" using x(2) by (metis imageI)
    then show False using Cons.prems by simp
  qed
  then show ?case
  proof (cases "snd (reapIfStale l boot (pr l) now)")
    case None
    then show ?thesis using Cons by simp
  next
    case (Some l')
    then have "eid l' = eid l" using reapIfStale_fields[OF Some] by simp
    then show ?thesis using Some Cons \<open>eid l \<notin> eid ` set (reapAll ls boot pr now)\<close> by simp
  qed
qed simp

lemma reapAll_weight:
  "list_all (\<lambda>l. 0 \<le> lease_weight l) ls \<Longrightarrow> running_weight (reapAll ls boot pr now) \<le> running_weight ls"
proof (induction ls)
  case (Cons l ls)
  show ?case
  proof (cases "snd (reapIfStale l boot (pr l) now)")
    case None
    then show ?thesis using Cons by (simp add: running_weight_def)
  next
    case (Some l')
    then have "lease_weight l' = lease_weight l" using reapIfStale_fields[OF Some] by (simp add: lease_weight_def)
    then show ?thesis using Cons Some by (simp add: running_weight_def)
  qed
qed simp

lemma leases_ok_reapAll:
  assumes "leases_ok cap ls"
  shows "leases_ok cap (reapAll ls boot pr now)"
proof -
  have all: "list_all (\<lambda>l. is_held l \<and> 0 \<le> lease_weight l) (reapAll ls boot pr now)"
    using assms reapAll_origin[of _ ls boot pr now]
    by (fastforce simp: leases_ok_def list_all_iff is_held_def lease_weight_def)
  have "length (reapAll ls boot pr now) = 1" if ex: "list_ex exclusive (reapAll ls boot pr now)"
  proof -
    obtain l' where "l' \<in> set (reapAll ls boot pr now)" "exclusive l'" using ex by (auto simp: list_ex_iff)
    then have "list_ex exclusive ls" using reapAll_origin[of l' ls boot pr now] by (auto simp: list_ex_iff)
    then have "length ls = 1" using assms by (simp add: leases_ok_def)
    moreover have "reapAll ls boot pr now \<noteq> []" using ex by auto
    ultimately show ?thesis using reapAll_length[of ls boot pr now] by (cases "reapAll ls boot pr now") auto
  qed
  moreover have "running_weight (reapAll ls boot pr now) \<le> cap"
    using assms reapAll_weight[of ls boot pr now] by (auto simp: leases_ok_def list_all_iff)
  ultimately show ?thesis
    using all assms reapAll_distinct[of ls boot pr now] by (simp add: leases_ok_def)
qed

lemma running_weight_replace:
  assumes "distinct (map eid ls)" "list_all (\<lambda>x. 0 \<le> lease_weight x) ls" "0 \<le> lease_weight l"
  shows "running_weight (map (\<lambda>x. if eid x = eid l then l else x) ls) \<le> running_weight ls + lease_weight l"
  using assms
proof (induction ls)
  case (Cons x ls)
  show ?case
  proof (cases "eid x = eid l")
    case True
    then have "map (\<lambda>x. if eid x = eid l then l else x) ls = ls"
      using Cons.prems(1) by (intro map_idI) (auto simp: image_iff)
    then show ?thesis using True Cons.prems by (simp add: running_weight_def)
  next
    case False
    then show ?thesis using Cons by (simp add: running_weight_def)
  qed
qed (simp add: running_weight_def)

lemma writeLease_ids: "distinct (map eid ls) \<Longrightarrow> distinct (map eid (writeLease ls l))"
proof -
  assume d: "distinct (map eid ls)"
  have "map eid (map (\<lambda>x. if eid x = eid l then l else x) ls) = map eid ls" by simp
  then show ?thesis using d by (auto simp: writeLease_def list_ex_iff image_iff simp del: map_map)
qed

lemma writeLease_set: "x \<in> set (writeLease ls l) \<Longrightarrow> x = l \<or> x \<in> set ls"
  by (auto simp: writeLease_def split: if_splits)

lemma leases_ok_write:
  assumes ok: "leases_ok cap ls" and l: "is_held l" "0 \<le> lease_weight l" "\<not> exclusive l"
    and fit: "running_weight ls + lease_weight l \<le> cap" and none: "\<forall>x \<in> set ls. \<not> exclusive x"
  shows "leases_ok cap (writeLease ls l)"
proof -
  have "running_weight (writeLease ls l) \<le> running_weight ls + lease_weight l"
    using running_weight_replace[of ls l] ok l(2) by (auto simp: writeLease_def leases_ok_def list_all_iff running_weight_def)
  moreover have "\<not> list_ex exclusive (writeLease ls l)"
    using l(3) none writeLease_set by (fastforce simp: list_ex_iff)
  moreover have "list_all (\<lambda>x. is_held x \<and> 0 \<le> lease_weight x) (writeLease ls l)"
    using ok l writeLease_set by (fastforce simp: list_all_iff leases_ok_def)
  ultimately show ?thesis using ok writeLease_ids[of ls l] fit by (simp add: leases_ok_def)
qed

lemma weight_budget_capped: "0 \<le> weight sub \<Longrightarrow> 0 \<le> weight (budget_capped e sub)"
  by (auto simp: budget_capped_def clampQueuedWeight_def queuedWeightLimit_def capElasticClaim_def Let_def
      split: option.splits scheduler_mode.splits)

lemma weight_cap_nonneg: "valid_budget_cfg (cfgOf e) \<Longrightarrow> 0 \<le> weight_cap e"
  by (auto simp: weight_cap_def effectiveWeightCapacity_def valid_budget_cfg_def split: weight_capacity.splits)

text \<open>
  C1. The admission transaction keeps the lease table sound. If the table has one lease per id, every lease is held, the
  weights are within the capacity and an exclusive lease is alone, then after \<^verbatim>\<open>tryStart\<close>, whatever its outcome, all of that
  still holds. In particular no start takes the running weight over the capacity, an exclusive run starts only on an empty
  host, and nothing starts beside it.
\<close>

theorem tryStart_keeps_leases_ok:
  assumes "leases_ok (weight_cap e) (leaseDir b)" and "valid_budget_cfg (cfgOf e)" and "0 \<le> weight sub"
    and "tryStart e sub b = (r, b')"
  shows "leases_ok (weight_cap e) (leaseDir b')"
proof -
  let ?ls = "leaseDir (reaped e sub b)"
  have ok: "leases_ok (weight_cap e) ?ls" using leases_ok_reapAll[OF assms(1)] by simp
  show ?thesis
  proof (cases r)
    case (Started l f)
    have ts: "tryStart e sub b = (Started l f, b')" using assms(4) Started by simp
    obtain raw st n b1 p h st1 b2 a j b3 st2 sq st3 b4 where
        o: "open_queue e sub b = (Some (raw, st, n), b1)" and p: "prepare e sub raw st n b1 = (Inr p, b1)" and
        h: "head_state e p b1 = (Inr (h, st1), b2)" and ref: "refusal e p h a (trial_of e p) j st1 = None" and
        c: "commit e sub p h a (trial_of e p) j st2 (b3\<lparr>seqFile := sq\<rparr>) = (Started l f, st3, b4)"
      by (rule tryStart_StartedE[OF ts])
    have held: "pHeld p = ?ls"
      using prepare_InrD(3)[OF p] open_queue_SomeD(1)[OF o] ok held_all[of _ b1] by (auto simp: leases_ok_def)
    have w: "weight (pTicket p) = weight (budget_capped e sub)" using prepare_InrD(4)[OF p] by simp
    note l = commit_StartedD(1)[OF c]
    have dir: "leaseDir b' = writeLease ?ls l" using tryStart_leaseDir[OF ts] by simp
    show ?thesis
    proof (cases "hExclusive h")
      case True
      then have "?ls = []" using head_exclusive_alone(1)[OF h] held by simp
      moreover have "leaseWeight l = Some (weight_cap e)" "state l = RUNNING"
        using l True by (simp_all add: lease_of_def Let_def)
      moreover have "lease_weight l = weight_cap e" using calculation by (simp add: lease_weight_def num_or_def)
      ultimately show ?thesis
        using dir weight_cap_nonneg[OF assms(2)] by (simp add: writeLease_def leases_ok_def is_held_def running_weight_def)
    next
      case False
      have lw: "leaseWeight l = Some (weight (pTicket p))" "state l = RUNNING" "\<not> exclusive l"
        using l False by (simp_all add: lease_of_def Let_def)
      then have lw': "lease_weight l = weight (pTicket p)" by (simp add: lease_weight_def num_or_def)
      have "running_weight ?ls + lease_weight l \<le> weight_cap e"
        using refusal_NoneD(4)[OF ref False] head_state_InrD(4)[OF h] held lw' by simp
      moreover have "\<forall>x \<in> set ?ls. \<not> exclusive x" using head_exclusive_alone(2)[OF h] held by metis
      moreover have "0 \<le> lease_weight l" using lw' w weight_budget_capped[OF assms(3)] by simp
      ultimately show ?thesis using leases_ok_write[OF ok] lw(2,3) dir by (simp add: is_held_def)
    qed
  qed (use tryStart_leaseDir[OF assms(4)] ok in simp_all)
qed

section \<open>Stop flags\<close>

lemma fixed_filesD:
  assumes "fixed_files b = fixed_files b'"
  shows "pauseFile b = pauseFile b'" "cancelMarkers b = cancelMarkers b'" "withdrawMarkers b = withdrawMarkers b'" "expressFile b = expressFile b'"
  using assms by (simp_all add: fixed_files_def)

text \<open>
  C6. Every stop flag stops a start. If \<^verbatim>\<open>tryStart\<close> starts a ticket then the broker was not paused, the ticket was neither
  cancelled nor withdrawn, its start deadline had not passed, and the host did not report critical memory pressure.
\<close>

theorem start_respects_stop_flags:
  assumes "tryStart e sub b = (Started l f, b')"
  shows "pauseFile b = None \<and> \<not> isCancelled b (eid sub) \<and> eid sub \<notin> set (withdrawMarkers b) \<and>
    (case startDeadline sub of Some d \<Rightarrow> wallNow e < d | None \<Rightarrow> True) \<and>
    (case memoryReading e of Some mi \<Rightarrow> \<not> macCritical mi | None \<Rightarrow> True)"
proof -
  obtain raw st n b1 p h st1 b2 a j b3 st2 sq st3 b4 where
      o: "open_queue e sub b = (Some (raw, st, n), b1)" and p: "prepare e sub raw st n b1 = (Inr p, b1)" and
      h: "head_state e p b1 = (Inr (h, st1), b2)" and g: "candidate_gate e p h a (trial_of e p) b2 = None" and
      j: "judge e p h a (trial_of e p) b2 = (Inr j, b3)" and ref: "refusal e p h a (trial_of e p) j st1 = None" and
      nc: "\<not> isCancelled b3 (eid (pTicket p))"
    by (rule tryStart_StartedE[OF assms])
  have f1: "fixed_files b1 = fixed_files b" using open_queue_SomeD(2)[OF o] .
  have f2: "fixed_files b2 = fixed_files b" using head_state_InrD(6)[OF h] f1 by simp
  have f3: "fixed_files b3 = fixed_files b" using judge_InrD(3)[OF j] f2 by simp
  have i: "eid (pTicket p) = eid sub" using prepare_InrD(4)[OF p] by simp
  have c: "\<not> isCancelled b (eid sub)" using nc i fixed_filesD(2)[OF f3] by (simp add: isCancelled_def)
  then have c1: "\<not> isCancelled b1 (eid sub)" using fixed_filesD(2)[OF f1] by (simp add: isCancelled_def)
  have "pauseFile b = None" using candidate_gate_NoneD(1)[OF g] fixed_filesD(1)[OF f2] by simp
  moreover have "eid sub \<notin> set (withdrawMarkers b)" using prepare_InrD(9)[OF p] fixed_filesD(3)[OF f1] by simp
  moreover have "case startDeadline sub of Some d \<Rightarrow> wallNow e < d | None \<Rightarrow> True"
    using prepare_InrD(10)[OF p] c1 by (auto simp: past_deadline_def split: option.splits)
  moreover have "case memoryReading e of Some mi \<Rightarrow> \<not> macCritical mi | None \<Rightarrow> True"
    using refusal_NoneD(5)[OF ref] by (simp split: option.splits)
  ultimately show ?thesis using c by blast
qed

section \<open>Resources\<close>

text \<open>
  \<open>decided e t hl d\<close>: \<open>d\<close> is the admission decision this poll's samples give for the ticket \<open>t\<close> beside the leases \<open>hl\<close>, with the
  CPU gate open or closed; or the fallback of an evaluation that threw.
\<close>

definition decided :: "poll \<Rightarrow> cpu_sample option \<Rightarrow> ticket \<Rightarrow> lease list \<Rightarrow> decision \<Rightarrow> bool" where
  "decided e sample t hl d \<longleftrightarrow>
     admissionThrows e \<and> d = unavailableDecision hl AdmissionError \<or>
     (\<exists>shut. d = decideAdmission (estimateTable e) (cfgOf e) t hl sample (memoryReading e) shut
        (cooldownActive hl (cfgOf e) (admissionNow e)) (admissionNow e))"

lemma full_decision_decided: "decided e (poll_sample e p) (admission_ticket e p h a) (admission_held p h a) (fst (full_decision e p h a b))"
  by (auto simp: decided_def full_decision_def evaluateNewAdmission_def Let_def case_prod_beta)

lemma same_lane_updates [simp]:
  "same_lane (t\<lparr>nice := x\<rparr>) u = same_lane t u" "same_lane (t\<lparr>nice := x, priorityAdmitted := y\<rparr>) u = same_lane t u"
  "same_lane (resized t k) u = same_lane t u"
  by (simp_all add: same_lane_def resized_def split: option.splits)

lemma admission_held_prefix: "\<exists>xs. admission_held p h a = pHeld p @ xs"
proof (cases "admission_held p h a = pHeld p")
  case False
  then have "admission_held p h a = pHeld p @ [head_reservation (hTicket h)]" by (simp add: admission_held_def split: if_splits)
  then show ?thesis by blast
qed simp

lemma judged_decided:
  assumes "j = judged_of e p h a tr b"
  shows "\<exists>t'. same_lane t' (pTicket p) \<and> decided e (poll_sample e p) t' (admission_held p h a) (jDecision j)"
proof (cases "elastic_decision e p h a (fst (full_decision e p h a b))")
  case None
  then have "jDecision j = fst (full_decision e p h a b)" using assms by (simp add: judged_of_def Let_def)
  moreover have "same_lane (admission_ticket e p h a) (pTicket p)" by (simp add: admission_ticket_def)
  ultimately show ?thesis using full_decision_decided[of e p h a b] by auto
next
  case (Some x)
  obtain d k where x: "x = (d, k)" by fastforce
  let ?full = "fst (full_decision e p h a b)" and ?t = "admission_ticket e p h a" and ?hl = "admission_held p h a"
  have el: "evaluateElasticAdmission (estimateTable e) (cfgOf e) ?t ?hl (poll_sample e p) (memoryReading e) ?full (admissionNow e) = Some (d, k)"
    using Some x by (simp add: elastic_decision_def split: if_splits)
  have nt: "\<not> admissionThrows e"
    using el by (auto simp: full_decision_def evaluateNewAdmission_fst evaluateElasticAdmission_def isCpuOnlyDenial_def unavailableDecision_def split: if_splits)
  obtain shut where full: "?full = decideAdmission (estimateTable e) (cfgOf e) ?t ?hl (poll_sample e p) (memoryReading e) shut
      (cooldownActive ?hl (cfgOf e) (admissionNow e)) (admissionNow e)"
    using nt by (simp add: full_decision_def evaluateNewAdmission_fst)
  have "d = decideAdmission (estimateTable e) (cfgOf e) (resized ?t k) ?hl (poll_sample e p) (memoryReading e) shut
      (cooldownActive ?hl (cfgOf e) (admissionNow e)) (admissionNow e)"
    using el unfolding full by (auto simp: evaluateElasticAdmission_def split: if_splits option.splits dest!: elastic_walk_sound)
  moreover have "jDecision j = d" using assms Some x by (simp add: judged_of_def Let_def)
  moreover have "same_lane (resized ?t k) (pTicket p)" by (simp add: admission_ticket_def)
  ultimately show ?thesis unfolding decided_def by (intro exI[of _ "resized ?t k"]) auto
qed

lemma lease_of_lifts:
  "floorSlot (lease_of e sub p h tr j) = jFloor j"
  "jBypass j \<Longrightarrow> bypass_trial tr \<Longrightarrow> queueBypass (lease_of e sub p h tr j) \<noteq> None"
  "queueBypass (lease_of e sub p h tr j) \<noteq> None \<Longrightarrow> jBypass j"
  "exclusive (lease_of e sub p h tr j) = hExclusive h"
  by (auto simp: lease_of_def Let_def exclusiveLeaseFields_def split: sum.splits if_splits)


end
