(* ===== verification/Start_Fairness.thy ===== *)
theory Start_Fairness
  imports Start_Safety
begin

text \<open>
  Who may pass a waiting head, and at what price. A start past a head that is blocked by a conflict or by weight is counted
  against it, within the skip limit; the ways past it that are not counted are the ones that provably cannot delay it, the
  rate-limited ones, and the two lifts, whose number is bounded. A sim never passes a test except by the proof that it
  cannot delay it. A poll never loses a ticket.
\<close>

section \<open>The view of a poll\<close>

definition poll_view :: "poll \<Rightarrow> ticket \<Rightarrow> broker \<Rightarrow> ticket rqueue" where
  "poll_view e sub b = (case open_queue e sub b of (Some (raw, st, n), b1) \<Rightarrow> start_queue e raw st n b1 | (None, _) \<Rightarrow> [])"

definition poll_store :: "poll \<Rightarrow> ticket \<Rightarrow> broker \<Rightarrow> store" where
  "poll_store e sub b = (case open_queue e sub b of (Some (raw, st, n), b1) \<Rightarrow> st | (None, _) \<Rightarrow> LegacyStore (\<lambda>_. None))"

text \<open>The records on disk after the poll, read with the store the poll used.\<close>

definition stored :: "store \<Rightarrow> broker \<Rightarrow> store" where
  "stored st b = (if store_v2 st then (case fairnessFile b of FairTickets ts \<Rightarrow> FairStore ts | _ \<Rightarrow> FairStore []) else LegacyStore (legacyFiles b))"

lemma stored_put: "store_v2 st' = store_v2 st \<Longrightarrow> stored st (put_store b st') = st'"
  by (cases st') (auto simp: stored_def put_store_def)

text \<open>One fact per stage of a start, over the poll's own view.\<close>

lemma tryStart_viewE:
  assumes "tryStart e sub b = (Started l f, b')"
  obtains p h st1 b2 a j b3 st2 sq st3 b4 where
    "pQueue p = poll_view e sub b" "pStore p = poll_store e sub b" "pHeld p = held (reaped e sub b)"
    "same_lane (pTicket p) sub" "weight (pTicket p) = weight (budget_capped e sub)"
    "\<And>u. Some u \<in> set (pQueue p) \<Longrightarrow> \<exists>v. Some v \<in> set (listQueue (reaped e sub b)) \<and> same_lane u v"
    "\<exists>b1. head_state e p b1 = (Inr (h, st1), b2)" "a = passes_of e p h st1 b2" "candidate_gate e p h a (trial_of e p) b2 = None"
    "judge e p h a (trial_of e p) b2 = (Inr j, b3)" "refusal e p h a (trial_of e p) j st1 = None"
    "count_skip e p h a j st1 (seqFile b3) = (Some st2, sq)" "expressFile b3 = expressFile b" "expressFile b2 = expressFile b"
    "commit e sub p h a (trial_of e p) j st2 (b3\<lparr>seqFile := sq\<rparr>) = (Started l f, st3, b4)" "b' = put_store b4 st3"
proof -
  obtain raw st n b1 p h st1 b2 a j b3 st2 sq st3 b4 where
      o: "open_queue e sub b = (Some (raw, st, n), b1)" and p: "prepare e sub raw st n b1 = (Inr p, b1)" and
      h: "head_state e p b1 = (Inr (h, st1), b2)" and rest: "a = passes_of e p h st1 b2" "candidate_gate e p h a (trial_of e p) b2 = None"
        "judge e p h a (trial_of e p) b2 = (Inr j, b3)" "refusal e p h a (trial_of e p) j st1 = None"
        "count_skip e p h a j st1 (seqFile b3) = (Some st2, sq)"
        "commit e sub p h a (trial_of e p) j st2 (b3\<lparr>seqFile := sq\<rparr>) = (Started l f, st3, b4)" "b' = put_store b4 st3"
    by (rule tryStart_StartedE[OF assms])
  have f2: "fixed_files b2 = fixed_files b" using head_state_InrD(6)[OF h] open_queue_SomeD(2)[OF o] by simp
  have f3: "fixed_files b3 = fixed_files b" using judge_InrD(3)[OF rest(3)] f2 by simp
  have "pHeld p = held (reaped e sub b)"
    using prepare_InrD(3)[OF p] open_queue_SomeD(1)[OF o] by (simp add: held_def)
  then show thesis
    using that[of p h st1 b2 a j b3 st2 sq st3 b4] prepare_InrD(2,4,5)[OF p] queue_record_origin[OF o p] o h rest fixed_filesD(4)[OF f2] fixed_filesD(4)[OF f3]
    by (auto simp: poll_view_def poll_store_def)
qed

section \<open>Sims and tests\<close>

lemma walk_queue_no_sim:
  assumes "Some u \<in> set (walk_queue p h)" "sim_holds_back h" "head_of (pQueue p) = Some (hTicket h)"
  shows "u = hTicket h \<or> classOf u \<noteq> SimClass"
  using assms head_of_SomeD[OF assms(3)] by (auto simp: walk_queue_def withoutBackfillExclusives_def split: list.splits)

lemma isFloorTicket_class: "isFloorTicket t \<Longrightarrow> classOf t \<noteq> SimClass"
  by (simp add: isFloorTicket_def)

lemma walk_candidate_mem:
  assumes "walk_candidate e p h st = Some cd"
  shows "cd = hTicket h \<or> Some cd \<in> set (walk_queue p h)"
  using assms
proof (cases rule: walk_candidate_cases)
  case 1
  then show ?thesis using conflict_pick_unblocked(1)[OF 1] by simp
next
  case 2
  then show ?thesis using selectCandidate_SomeD[OF 2] by simp
next
  case 3
  then show ?thesis using selectCapacityCandidate_SomeD[OF 3] by simp
next
  case (4 r)
  then show ?thesis using selectResourceCandidate_unblocked(1)[OF 4] by simp
qed simp

text \<open>The four ways a start gets past the candidate gate.\<close>

lemma start_waysE:
  assumes "candidate_gate e p h a tr b = None" and "judge e p h a tr b = (Inr j, b')"
  obtains "jFloor j" | "jBypass j" | "\<not> lifted j" "selected p a" | "\<not> lifted j" "polling_head p h" "hBlocker h = None"
  using candidate_gate_NoneD(2)[OF assms(1)] judge_InrD(6)[OF assms(2)]
  by (cases "jFloor j"; cases "jBypass j") (auto simp: lifted_def selected_def)

lemma jFloorD:
  assumes "judge e p h a tr b = (Inr j, b')" "jFloor j"
  obtains w where "Some w \<in> set (pQueue p)" "eid w = eid (pTicket p)" "isFloorTicket w" "runnable (cfgOf e) (hostOf e) (pHeld p) (weight_cap e) w"
    "within_overshoot (cfgOf e) (decideAdmission (estimateTable e) (cfgOf e) w (pHeld p) (poll_sample e p) (memoryReading e) False
       (cooldownActive (pHeld p) (cfgOf e) (admissionNow e)) (admissionNow e))" "tFloor tr"
proof -
  have j: "j = judged_of e p h a tr b" using judge_InrD(1)[OF assms(1)] .
  then have w: "tFloor tr" "wins_floor e p (fst (full_decision e p h a b)) (gateClosed (load_gate_now e b))"
    using judged_ofD(1) assms(2) by blast+
  show thesis
    using w(2) that[OF _ _ _ _ _ w(1)] unfolding wins_floor_def by (auto split: option.splits dest!: floorWinner_SomeD)
qed

lemma jBypassD:
  assumes "judge e p h a (trial_of e p) b = (Inr j, b')" "jBypass j"
  obtains v where "bypassTrialVerdict (expressTable e) (cfgOf e) (hostOf e) (pTicket p) (pHeld p) (take (pPos p) (pQueue p)) (weight_cap e) (wallNow e) = Inr v"
proof -
  have "bypass_trial (trial_of e p)" using judged_ofD(2) judge_InrD(1)[OF assms(1)] assms(2) by blast
  then show thesis using that by (auto simp: trial_of_def Let_def split: sum.splits)
qed

text \<open>
  C5. A sim never delays a test. If a sim ticket starts while a test is the head of the view, safe backfill is on and the sim
  passed the whole proof that it cannot delay the head: neither conflicts with the other, and the running weight, the
  head's weight and the sim's weight fit the capacity together. None of the counted skips, the express lane, the priority
  yield, the floor slot and the queue bypass lets a sim past a test.
\<close>

theorem sim_never_delays_test:
  assumes "tryStart e sub b = (Started l f, b')" and "copies_agree sub (reaped e sub b)"
    and "head_of (poll_view e sub b) = Some ht" and "eid ht \<noteq> eid sub" and "classOf sub = SimClass" and "classOf ht \<noteq> SimClass"
  shows "conflictSafeBackfill (cfgOf e) \<and> blockedBy [(eid sub, key sub)] ht = None \<and> blockedBy [(eid ht, key ht)] sub = None \<and>
    running_weight (held (reaped e sub b)) + weight ht + weight (budget_capped e sub) \<le> weight_cap e"
proof -
  obtain p h st1 b1 b2 a j b3 where
      q: "pQueue p = poll_view e sub b" and hl: "pHeld p = held (reaped e sub b)" and sl: "same_lane (pTicket p) sub" and
      wt: "weight (pTicket p) = weight (budget_capped e sub)" and
      org: "\<And>u. Some u \<in> set (pQueue p) \<Longrightarrow> \<exists>v. Some v \<in> set (listQueue (reaped e sub b)) \<and> same_lane u v" and
      h: "head_state e p b1 = (Inr (h, st1), b2)" and a: "a = passes_of e p h st1 b2" and
      g: "candidate_gate e p h a (trial_of e p) b2 = None" and j: "judge e p h a (trial_of e p) b2 = (Inr j, b3)"
    by (rule tryStart_viewE[OF assms(1)]) blast
  have ht: "hTicket h = ht" using head_state_InrD(1)[OF h] q assms(3) by simp
  have i: "eid (pTicket p) = eid sub" and cl: "classOf (pTicket p) = SimClass" using sl assms(5) by (simp_all add: same_laneD)
  have sim: "classOf u = SimClass" if "Some u \<in> set (pQueue p)" "eid u = eid sub" for u
    using org[OF that(1)] copies_agreeD[OF assms(2)] that(2) assms(5) by (metis same_laneD(1,4))
  have holdsBack: "sim_holds_back h" using ht assms(6) by (simp add: sim_holds_back_def)
  have safe: "safe_backfill e p h"
    using g j
  proof (cases rule: start_waysE)
    case 1
    then show ?thesis using jFloorD[OF j] sim i isFloorTicket_class by metis
  next
    case 2
    then show ?thesis using jBypassD[OF j] bypassTrialVerdict_InrD cl by metis
  next
    case 3
    show ?thesis
    proof (rule ccontr)
      assume ns: "\<not> safe_backfill e p h"
      then obtain cd where cd: "walk_candidate e p h st1 = Some cd" "eid cd = eid sub"
        using 3(2) a holdsBack cl i
        by (auto simp: selected_def passes_of_def Let_def express_eligible_def yield_eligible_def split: option.splits if_splits)
      then have "Some cd \<in> set (walk_queue p h)" using walk_candidate_mem[OF cd(1)] ht assms(4) by auto
      then show False
        using walk_queue_no_sim[OF _ holdsBack head_state_InrD(1)[OF h]] walk_queue_subset[of p h] sim cd(2) ht assms(4) by blast
    qed
  next
    case 4
    then show ?thesis using i ht assms(4) by (simp add: polling_head_def)
  qed
  then have "cannotDelayHead (pHeld p) (hRunning h) (weight_cap e) ht (pTicket p)" "conflictSafeBackfill (cfgOf e)"
    using ht by (auto simp: safe_backfill_def)
  then show ?thesis
    using hl wt head_state_InrD(4)[OF h] same_lane_blocked[OF sl] i same_laneD(2)[OF sl] by (simp add: cannotDelayHead_def)
qed

section \<open>Counted skips\<close>

lemma head_state_store:
  assumes "head_state e p b = (Inr (h, st1), b')"
  shows "st1 = (if hBlocker h \<noteq> None
      then snd (resolveHeadBlock (okHeadBlock (io e)) (pStore p) (cfgOf e) (eid (hTicket h)) (readSkipState (pStore p) (eid (hTicket h))) (wallNow e))
      else if hCapacityBlocked h then snd (resolveCapacityBlock (okCapacityBlock (io e)) (pStore p) (cfgOf e) (eid (hTicket h))
        (charged (readCapacitySkipState (pStore p) (eid (hTicket h))) (eid (hTicket h)))) else pStore p)"
    "hSkipExhausted h = (hBlocker h \<noteq> None \<and> fst (resolveHeadBlock (okHeadBlock (io e)) (pStore p) (cfgOf e) (eid (hTicket h))
        (readSkipState (pStore p) (eid (hTicket h))) (wallNow e)) = Exhausted)"
    "hCapacityExhausted h = (hCapacityBlocked h \<and> fst (resolveCapacityBlock (okCapacityBlock (io e)) (pStore p) (cfgOf e) (eid (hTicket h))
        (charged (readCapacitySkipState (pStore p) (eid (hTicket h))) (eid (hTicket h)))) = Exhausted)"
  using assms unfolding head_state_def Let_def case_prod_beta by (auto split: option.splits)

lemma resolve_v2:
  "store_v2 (snd (resolveHeadBlock w st c i s now)) = store_v2 st" "store_v2 (snd (resolveCapacityBlock w st c i n)) = store_v2 st"
  by (simp_all add: resolveHeadBlock_def resolveCapacityBlock_def Let_def)

lemma head_state_v2:
  assumes "head_state e p b = (Inr (h, st1), b')"
  shows "store_v2 st1 = store_v2 (pStore p)"
  using head_state_store(1)[OF assms] by (simp add: resolve_v2)

lemma resolveCapacityBlock_charged:
  "charged (readCapacitySkipState (snd (resolveCapacityBlock w st c h (charged (readCapacitySkipState st h) h))) h) h = charged (readCapacitySkipState st h) h"
  by (simp add: resolveCapacityBlock_def Let_def readCapacitySkipState_def store_try_read) (simp add: charged_def)

lemma readSkip_depart: "h \<noteq> i \<Longrightarrow> readSkipState (depart w st i) h = readSkipState st h"
    "h \<noteq> i \<Longrightarrow> readCapacitySkipState (depart w st i) h = readCapacitySkipState st h"
  by (cases st; simp add: readSkipState_def readCapacitySkipState_def fair_read_def delete_conv')+

lemma count_skip_v2:
  assumes "count_skip e p h a j st sq = (Some st2, sq')"
  shows "store_v2 st2 = store_v2 st"
  using assms
  by (auto simp: count_skip_def Let_def recordSkip_def recordCapacitySkip_def recordResourceBackfill_def split: if_splits option.splits)

lemma commit_store:
  assumes "commit e sub p h a tr j st b = (Started l f, st', b')"
  shows "\<not> (aYield a \<and> \<not> lifted j) \<Longrightarrow> \<not> polling_head p h \<Longrightarrow> st' = (if store_v2 st then depart (okDepart (io e)) st (eid (pTicket p)) else st)"
    "(aExpress a \<or> aYield a) \<and> \<not> lifted j \<Longrightarrow> wallNow e \<in> set (expressFile b')"
proof -
  obtain st1 ok ex where rl: "record_lifts e h a j st (expressFile b) = ((st1, ok), ex)" by (metis prod.collapse)
  obtain d b1 where d: "dequeueSync (okDequeue (io e)) (b\<lparr>expressFile := ex\<rparr>) (eid (pTicket p)) = (d, b1)" by fastforce
  have ok: "ok" "d" "okLease (io e)"
    using assms by (auto simp: commit_def rl d not_head_def split: bool.splits if_splits)
  have "fixed_files b1 = fixed_files (b\<lparr>expressFile := ex\<rparr>)" by (metis d dequeueSync_frame(2) snd_conv)
  then have ex: "expressFile b1 = ex" by (simp add: fixed_files_def)
  have b': "b' = clearExternalStarved (okStarved (io e)) (touchSimArmFor (okArm (io e)) l (wallNow e) (b1\<lparr>leaseDir := writeLease (leaseDir b1) l\<rparr>))"
    and st': "st' = (if store_v2 st1 then depart (okDepart (io e)) st1 (eid (pTicket p))
      else if polling_head p h then dropResourceRecord (okDrop (io e)) st1 (eid (hTicket h)) else st1)"
    using assms ok by (auto simp: commit_def rl d Let_def)
  have fx: "fixed_files b' = fixed_files b1" unfolding b' by simp
  show "st' = (if store_v2 st then depart (okDepart (io e)) st (eid (pTicket p)) else st)"
    if "\<not> (aYield a \<and> \<not> lifted j)" "\<not> polling_head p h"
  proof -
    have "st1 = st" using rl that(1) by (auto simp: record_lifts_def Let_def split: if_splits option.splits)
    then show ?thesis using st' that(2) by simp
  qed
  show "wallNow e \<in> set (expressFile b')" if "(aExpress a \<or> aYield a) \<and> \<not> lifted j"
  proof -
    have "wallNow e \<in> set ex"
      using rl ok(1) that by (auto simp: record_lifts_def Let_def recordExpressAdmission_def split: if_splits option.splits)
    then show ?thesis using ex fixed_filesD(4)[OF fx] by simp
  qed
qed

text \<open>
  The ways past the head that are not counted against it: the floor slot, the queue bypass, a start recorded against the express
  rate (express and priority yield), and a ticket that provably cannot delay the head.
\<close>

definition uncounted_pass :: "poll \<Rightarrow> ticket \<Rightarrow> broker \<Rightarrow> lease \<Rightarrow> broker \<Rightarrow> ticket \<Rightarrow> bool" where
  "uncounted_pass e sub b l b' ht \<longleftrightarrow>
     floorSlot l \<or> queueBypass l \<noteq> None \<or> (under_express_rate e b \<and> wallNow e \<in> set (expressFile b')) \<or>
     cannotDelayHead (held (reaped e sub b)) (running_weight (held (reaped e sub b))) (weight_cap e) ht (budget_capped e sub)"

lemma cannotDelayHead_cong:
  "same_lane t u \<Longrightarrow> weight t = weight u \<Longrightarrow> cannotDelayHead hl rw cap ht t = cannotDelayHead hl rw cap ht u"
  by (simp add: cannotDelayHead_def same_lane_blocked same_laneD)

lemma counted_start:
  assumes st: "tryStart e sub b = (Started l f, b')" and ht: "head_of (poll_view e sub b) = Some ht" and ne: "eid ht \<noteq> eid sub"
    and np: "\<not> uncounted_pass e sub b l b' ht"
  obtains p h st1 a j st2 b1 b2 sq sq' where
    "head_state e p b1 = (Inr (h, st1), b2)" "hTicket h = ht" "pStore p = poll_store e sub b" "pHeld p = held (reaped e sub b)"
    "\<not> aSafe a" "\<not> aExpress a" "\<not> aYield a" "\<not> lifted j" "\<not> polling_head p h" "\<exists>cd. walk_candidate e p h st1 = Some cd"
    "count_skip e p h a j st1 sq = (Some st2, sq')"
    "stored (poll_store e sub b) b' = (if store_v2 (poll_store e sub b) then depart (okDepart (io e)) st2 (eid sub) else st2)"
proof -
  obtain p h st1 b1 b2 a j b3 st2 sq st3 b4 where
      q: "pQueue p = poll_view e sub b" and ps: "pStore p = poll_store e sub b" and hl: "pHeld p = held (reaped e sub b)" and
      sl: "same_lane (pTicket p) sub" and wt: "weight (pTicket p) = weight (budget_capped e sub)" and
      h: "head_state e p b1 = (Inr (h, st1), b2)" and a: "a = passes_of e p h st1 b2" and
      g: "candidate_gate e p h a (trial_of e p) b2 = None" and j: "judge e p h a (trial_of e p) b2 = (Inr j, b3)" and
      cs: "count_skip e p h a j st1 (seqFile b3) = (Some st2, sq)" and ex: "expressFile b2 = expressFile b" and
      c: "commit e sub p h a (trial_of e p) j st2 (b3\<lparr>seqFile := sq\<rparr>) = (Started l f, st3, b4)" and b': "b' = put_store b4 st3"
    by (rule tryStart_viewE[OF st]) blast
  have hh: "hTicket h = ht" using head_state_InrD(1)[OF h] q ht by simp
  have other: "\<not> polling_head p h" using hh ne sl by (simp add: polling_head_def same_laneD)
  note l = commit_StartedD(1)[OF c]
  have nl: "\<not> lifted j"
    using np l lease_of_lifts(1,2) judged_ofD(2) judge_InrD(1)[OF j] unfolding uncounted_pass_def lifted_def by metis
  have fb: "fixed_files b' = fixed_files b4" using b' by simp
  have rate: "under_express_rate e b" if "aExpress a \<or> aYield a"
    using that a ex by (auto simp: passes_of_def Let_def express_eligible_def yield_eligible_def under_express_rate_def)
  have nb: "\<not> aExpress a" "\<not> aYield a"
    using np commit_store(2)[OF c] rate nl fixed_filesD(4)[OF fb] unfolding uncounted_pass_def by auto
  have sl': "same_lane (pTicket p) (budget_capped e sub)"
    using sl same_lane_budget_capped[of e sub] by (simp add: same_lane_def)
  have ns: "\<not> aSafe a"
    using np a hh hl head_state_InrD(4)[OF h] cannotDelayHead_cong[OF sl' wt]
    by (auto simp: passes_of_def Let_def safe_backfill_def uncounted_pass_def)
  have wc: "\<exists>cd. walk_candidate e p h st1 = Some cd"
    using g j
  proof (cases rule: start_waysE)
    case 3
    then show ?thesis using a ns nb by (auto simp: selected_def passes_of_def Let_def split: option.splits)
  qed (use nl other in \<open>auto simp: lifted_def\<close>)
  have v2: "store_v2 st2 = store_v2 (poll_store e sub b)"
    using count_skip_v2[OF cs] head_state_v2[OF h] ps by simp
  have s3: "st3 = (if store_v2 st2 then depart (okDepart (io e)) st2 (eid sub) else st2)"
    using commit_store(1)[OF c] nb other same_laneD(1)[OF sl] by simp
  have "store_v2 (depart w x i) = store_v2 x" for w x i by (cases x) auto
  then have "stored (poll_store e sub b) b' = st3" using b' s3 v2 by (simp add: stored_put)
  then show thesis using that[OF h hh ps hl ns nb nl other wc cs] s3 v2 by simp
qed

text \<open>
  C4. Overtaking a conflicted head is counted and bounded. If a ticket starts past a head of the view whose key conflicts with a held
  lease, then either the pass is one of the uncounted ones, or the head had been skipped fewer than \<^verbatim>\<open>conflictSkipLimit\<close> times
  or had already been blocked for \<^verbatim>\<open>headBlockGraceMs\<close>, and the records left on disk charge it exactly one more skip.
\<close>

theorem conflict_skip_is_charged:
  assumes "tryStart e sub b = (Started l f, b')" and "head_of (poll_view e sub b) = Some ht" and "eid ht \<noteq> eid sub"
    and "blockedBy (holders (held (reaped e sub b))) ht \<noteq> None"
  shows "uncounted_pass e sub b l b' ht \<or>
    charged (readSkipState (stored (poll_store e sub b) b') (eid ht)) (eid ht) = charged (readSkipState (poll_store e sub b) (eid ht)) (eid ht) + 1 \<and>
    (charged (readSkipState (poll_store e sub b) (eid ht)) (eid ht) < conflictSkipLimit (cfgOf e) \<or>
     (\<exists>since. sBlockedSince (readSkipState (poll_store e sub b) (eid ht)) = Some since \<and> headBlockGraceMs (cfgOf e) \<le> wallNow e - since) \<or>
     headBlockGraceMs (cfgOf e) \<le> 0)"
proof (cases "uncounted_pass e sub b l b' ht")
  case False
  let ?i = "eid ht" and ?st = "poll_store e sub b"
  obtain p h st1 a j st2 b1 b2 sq sq' where
      h: "head_state e p b1 = (Inr (h, st1), b2)" and hh: "hTicket h = ht" and ps: "pStore p = ?st" and hl: "pHeld p = held (reaped e sub b)" and
      n: "\<not> aSafe a" "\<not> aExpress a" "\<not> aYield a" "\<not> lifted j" "\<not> polling_head p h" and wc: "\<exists>cd. walk_candidate e p h st1 = Some cd" and
      cs: "count_skip e p h a j st1 sq = (Some st2, sq')" and
      fin: "stored ?st b' = (if store_v2 ?st then depart (okDepart (io e)) st2 (eid sub) else st2)"
    by (rule counted_start[OF assms(1-3) False])
  have bl: "hBlocker h \<noteq> None" using head_state_InrD(5)[OF h] hh hl assms(4) by simp
  have "recordSkip (okSkip (io e)) st1 ?i (wallNow e) = Some st2" using cs n bl hh by (simp add: count_skip_def Let_def)
  then have "charged (readSkipState st2 ?i) ?i = charged (readSkipState st1 ?i) ?i + 1" by (rule recordSkip_counts)
  moreover have "charged (readSkipState st1 ?i) ?i = charged (readSkipState ?st ?i) ?i"
    using head_state_store(1)[OF h] bl hh ps resolveHeadBlock_charged by simp
  moreover have "readSkipState (stored ?st b') ?i = readSkipState st2 ?i" using fin readSkip_depart(1)[OF assms(3)] by simp
  ultimately have c: "charged (readSkipState (stored ?st b') ?i) ?i = charged (readSkipState ?st ?i) ?i + 1" by simp
  have "\<not> hSkipExhausted h" using wc bl by (auto simp: walk_candidate_def Let_def)
  then have "\<not> (conflictSkipLimit (cfgOf e) \<le> charged (readSkipState ?st ?i) ?i \<and>
      wallNow e - (if sHead (readSkipState ?st ?i) = Some ?i then nullish (sBlockedSince (readSkipState ?st ?i)) (wallNow e) else wallNow e)
        < headBlockGraceMs (cfgOf e))"
    using head_state_store(2)[OF h] bl hh ps resolveHeadBlock_phase by simp
  then have "charged (readSkipState ?st ?i) ?i < conflictSkipLimit (cfgOf e) \<or>
     (\<exists>since. sBlockedSince (readSkipState ?st ?i) = Some since \<and> headBlockGraceMs (cfgOf e) \<le> wallNow e - since) \<or> headBlockGraceMs (cfgOf e) \<le> 0"
    by (cases "sBlockedSince (readSkipState ?st ?i)") (auto split: if_splits)
  then show ?thesis using c by blast
qed simp

text \<open>
  Overtaking a head that does not fit is counted and bounded. If a ticket starts past a head that conflicts with nothing but is too heavy
  for the weight left, then either the pass is one of the uncounted ones, or the head had been skipped fewer than
  \<^verbatim>\<open>conflictSkipLimit\<close> times for capacity and the records left on disk charge it exactly one more. There is no grace period.
\<close>

theorem capacity_skip_is_charged:
  assumes "tryStart e sub b = (Started l f, b')" and "head_of (poll_view e sub b) = Some ht" and "eid ht \<noteq> eid sub"
    and "blockedBy (holders (held (reaped e sub b))) ht = None"
    and "running_weight (held (reaped e sub b)) + weight ht > weight_cap e"
  shows "uncounted_pass e sub b l b' ht \<or>
    charged (readCapacitySkipState (poll_store e sub b) (eid ht)) (eid ht) < conflictSkipLimit (cfgOf e) \<and>
    charged (readCapacitySkipState (stored (poll_store e sub b) b') (eid ht)) (eid ht) =
      charged (readCapacitySkipState (poll_store e sub b) (eid ht)) (eid ht) + 1"
proof (cases "uncounted_pass e sub b l b' ht")
  case False
  let ?i = "eid ht" and ?st = "poll_store e sub b"
  obtain p h st1 a j st2 b1 b2 sq sq' where
      h: "head_state e p b1 = (Inr (h, st1), b2)" and hh: "hTicket h = ht" and ps: "pStore p = ?st" and hl: "pHeld p = held (reaped e sub b)" and
      n: "\<not> aSafe a" "\<not> aExpress a" "\<not> aYield a" "\<not> lifted j" "\<not> polling_head p h" and wc: "\<exists>cd. walk_candidate e p h st1 = Some cd" and
      cs: "count_skip e p h a j st1 sq = (Some st2, sq')" and
      fin: "stored ?st b' = (if store_v2 ?st then depart (okDepart (io e)) st2 (eid sub) else st2)"
    by (rule counted_start[OF assms(1-3) False])
  have bl: "hBlocker h = None" using head_state_InrD(5)[OF h] hh hl assms(4) by simp
  have "\<not> hExclusive h" using n(5) head_state_InrD(1,3)[OF h] by (auto simp: isExclusiveHead_def polling_head_def)
  then have cb: "hCapacityBlocked h" using head_state_InrD(4,7)[OF h] bl hh hl assms(5) by simp
  have "recordCapacitySkip (okSkip (io e)) st1 ?i = Some st2" using cs n bl cb hh by (simp add: count_skip_def Let_def)
  then have "charged (readCapacitySkipState st2 ?i) ?i = charged (readCapacitySkipState st1 ?i) ?i + 1" by (rule recordCapacitySkip_counts)
  moreover have "charged (readCapacitySkipState st1 ?i) ?i = charged (readCapacitySkipState ?st ?i) ?i"
    using head_state_store(1)[OF h] bl cb hh ps resolveCapacityBlock_charged by simp
  moreover have "readCapacitySkipState (stored ?st b') ?i = readCapacitySkipState st2 ?i" using fin readSkip_depart(2)[OF assms(3)] by simp
  moreover have "\<not> hCapacityExhausted h" using wc bl cb by (auto simp: walk_candidate_def Let_def)
  then have "charged (readCapacitySkipState ?st ?i) ?i < conflictSkipLimit (cfgOf e)"
    using head_state_store(3)[OF h] cb hh ps by (simp add: resolveCapacityBlock_phase not_le)
  ultimately show ?thesis by simp
qed simp

section \<open>The lifts\<close>

text \<open>
  The two lifts are bounded. A floor start is a stamped push gate, happens only while no held lease has the floor slot, in active
  mode, and overshoots the CPU budget by at most \<^verbatim>\<open>floorOvershootCores\<close> with memory admitted. A bypass start happens only while
  fewer than \<^verbatim>\<open>queueBypassCap\<close> bypass leases are inside the window and fewer than that have outrun it.
\<close>

theorem lifts_are_bounded:
  assumes "tryStart e sub b = (Started l f, b')"
  shows "(floorSlot l \<longrightarrow> schedulerMode (cfgOf e) = Active \<and> (\<forall>x \<in> set (held (reaped e sub b)). \<not> floorSlot x) \<and>
      (\<exists>w sample. eid w = eid sub \<and> isFloorTicket w \<and> within_overshoot (cfgOf e) (decideAdmission (estimateTable e) (cfgOf e) w
         (held (reaped e sub b)) sample (memoryReading e) False (cooldownActive (held (reaped e sub b)) (cfgOf e) (admissionNow e)) (admissionNow e)))) \<and>
    (queueBypass l \<noteq> None \<longrightarrow> schedulerMode (cfgOf e) = Active \<and>
      of_nat (bypass_in_window (cfgOf e) (held (reaped e sub b)) (wallNow e)) < queueBypassCap (cfgOf e) \<and>
      of_nat (length (bypass_held (held (reaped e sub b))) - bypass_in_window (cfgOf e) (held (reaped e sub b)) (wallNow e)) < queueBypassCap (cfgOf e))"
proof -
  obtain p h st1 b2 a j b3 st2 sq st3 b4 where
      hl: "pHeld p = held (reaped e sub b)" and sl: "same_lane (pTicket p) sub" and
      j: "judge e p h a (trial_of e p) b2 = (Inr j, b3)" and
      c: "commit e sub p h a (trial_of e p) j st2 (b3\<lparr>seqFile := sq\<rparr>) = (Started l f, st3, b4)"
    by (rule tryStart_viewE[OF assms])
  note l = commit_StartedD(1)[OF c]
  have "schedulerMode (cfgOf e) = Active \<and> (\<forall>x \<in> set (held (reaped e sub b)). \<not> floorSlot x) \<and>
      (\<exists>w sample. eid w = eid sub \<and> isFloorTicket w \<and> within_overshoot (cfgOf e) (decideAdmission (estimateTable e) (cfgOf e) w
         (held (reaped e sub b)) sample (memoryReading e) False (cooldownActive (held (reaped e sub b)) (cfgOf e) (admissionNow e)) (admissionNow e)))"
    if "floorSlot l"
  proof -
    have "jFloor j" using that l by (simp add: lease_of_lifts(1))
    then obtain w where "eid w = eid (pTicket p)" "isFloorTicket w" "tFloor (trial_of e p)"
        "within_overshoot (cfgOf e) (decideAdmission (estimateTable e) (cfgOf e) w (pHeld p) (poll_sample e p) (memoryReading e) False
           (cooldownActive (pHeld p) (cfgOf e) (admissionNow e)) (admissionNow e))"
      using jFloorD[OF j] by metis
    then show ?thesis using hl same_laneD(1)[OF sl] by (auto simp: trial_of_def Let_def list_ex_iff)
  qed
  moreover have "schedulerMode (cfgOf e) = Active \<and>
      of_nat (bypass_in_window (cfgOf e) (held (reaped e sub b)) (wallNow e)) < queueBypassCap (cfgOf e) \<and>
      of_nat (length (bypass_held (held (reaped e sub b))) - bypass_in_window (cfgOf e) (held (reaped e sub b)) (wallNow e)) < queueBypassCap (cfgOf e)"
    if "queueBypass l \<noteq> None"
  proof -
    have "jBypass j" using that l lease_of_lifts(3) by metis
    then show ?thesis using jBypassD[OF j] bypassTrialVerdict_InrD hl by metis
  qed
  ultimately show ?thesis by blast
qed

end
