(* ===== verification/Start_Progress.thy ===== *)
theory Start_Progress
  imports Start_Fairness
begin

text \<open>
  What a poll does to the queue, and when it must start a ticket: a refused ticket stays queued, a started one leaves the queue
  for exactly one lease, and the head of an idle broker starts even when no sample is available.
\<close>

section \<open>The queue side\<close>

definition opened :: "poll \<Rightarrow> ticket \<Rightarrow> broker \<Rightarrow> broker" where
  "opened e sub b = snd (open_queue e sub b)"

fun denied :: "start_result \<Rightarrow> bool" where
  "denied (Denied r) = True"
| "denied _ = False"

lemma prepare_queueDir: "prepare e sub raw st n b = (r, b') \<Longrightarrow> queueDir b' = queueDir b"
  unfolding prepare_def Let_def case_prod_beta by (auto split: option.splits if_splits)

lemma head_state_queueDir: "head_state e p b = (r, b') \<Longrightarrow> queueDir b' = queueDir b"
  unfolding head_state_def Let_def case_prod_beta by (auto split: option.splits)

lemma judge_queueDir: "judge e p h a tr b = (r, b') \<Longrightarrow> queueDir b' = queueDir b"
  unfolding judge_def Let_def by (auto split: if_splits)

lemma commit_queueDir:
  assumes "commit e sub p h a tr j st b = (r, st', b')" "denied r"
  shows "queueDir b' = queueDir b"
proof -
  obtain st1 ok ex where rl: "record_lifts e h a j st (expressFile b) = ((st1, ok), ex)" by (metis prod.collapse)
  obtain d b1 where d: "dequeueSync (okDequeue (io e)) (b\<lparr>expressFile := ex\<rparr>) (eid (pTicket p)) = (d, b1)" by fastforce
  have "queueDir b1 = queueDir b" if "\<not> d"
    using d that by (auto simp: dequeueSync_def split: option.splits if_splits)
  then show ?thesis using assms by (cases ok; cases d) (auto simp: commit_def rl d Let_def split: if_splits)
qed

lemma finish_queueDir:
  assumes "finish e sub p h a tr j st b = ((r, t), st', b')" "denied r"
  shows "queueDir b' = queueDir b"
proof (cases "refusal e p h a tr j st")
  case None
  obtain c sq where c: "count_skip e p h a j st (seqFile b) = (c, sq)" by fastforce
  show ?thesis
  proof (cases c)
    case (Some st2)
    obtain r' st3 b4 where cm: "commit e sub p h a tr j st2 (b\<lparr>seqFile := sq\<rparr>) = (r', st3, b4)" by (metis prod.collapse)
    then show ?thesis
      using assms None c Some commit_queueDir[OF cm] by (auto simp: finish_def Let_def split: if_splits)
  qed (use assms None c in \<open>auto simp: finish_def\<close>)
next
  case (Some x)
  then show ?thesis using assms by (cases x) (auto simp: finish_def)
qed

lemma select_and_start_queueDir:
  assumes "select_and_start e sub p b = ((r, t), st', b')" "denied r"
  shows "queueDir b' = queueDir b"
proof -
  obtain hs b1 where hs: "head_state e p b = (hs, b1)" by fastforce
  note l1 = head_state_queueDir[OF hs]
  show ?thesis
  proof (cases hs)
    case (Inl x)
    then show ?thesis using assms hs l1 by (auto simp: select_and_start_def)
  next
    case (Inr hp)
    obtain h st where h: "hp = (h, st)" by fastforce
    let ?a = "passes_of e p h st b1"
    show ?thesis
    proof (cases "candidate_gate e p h ?a (trial_of e p) b1")
      case (Some x)
      then show ?thesis using assms hs Inr h l1 by (auto simp: select_and_start_def Let_def)
    next
      case None
      obtain js b2 where js: "judge e p h ?a (trial_of e p) b1 = (js, b2)" by fastforce
      show ?thesis
      proof (cases js)
        case (Inl x)
        then show ?thesis using assms hs Inr h None js l1 judge_queueDir[OF js] by (auto simp: select_and_start_def Let_def)
      next
        case (Inr j)
        then have "finish e sub p h ?a (trial_of e p) j st b2 = ((r, t), st', b')"
          using assms hs \<open>hs = Inr hp\<close> h None js by (simp add: select_and_start_def Let_def)
        then show ?thesis using finish_queueDir assms(2) judge_queueDir[OF js] l1 by simp
      qed
    qed
  qed
qed

lemma decideTicket_queueDir:
  assumes "decideTicket e sub b = ((r, t, pv), b')" "denied r"
  shows "queueDir b' = queueDir (opened e sub b)"
proof -
  obtain oq b1 where o: "open_queue e sub b = (oq, b1)" by fastforce
  show ?thesis
  proof (cases oq)
    case None
    then show ?thesis using assms o by (auto simp: decideTicket_def opened_def)
  next
    case (Some x)
    obtain raw st n where x: "x = (raw, st, n)" by (metis prod.collapse)
    obtain pp b2 where p: "prepare e sub raw st n b1 = (pp, b2)" by fastforce
    note l2 = prepare_queueDir[OF p]
    show ?thesis
    proof (cases pp)
      case (Inl q)
      then show ?thesis using assms o Some x p l2 by (auto simp: decideTicket_def opened_def)
    next
      case (Inr q)
      obtain r' t' st' b3 where ss: "select_and_start e sub q b2 = ((r', t'), st', b3)" by (metis prod.collapse)
      then have "r' = r" "queueDir b' = queueDir b3"
        using assms o Some x p Inr by (auto simp: decideTicket_def Let_def)
      then show ?thesis using select_and_start_queueDir[OF ss] assms(2) l2 o by (simp add: opened_def)
    qed
  qed
qed

lemma retier_file_key [simp]: "file_key (retier_file i r f) = file_key f"
  by (simp add: retier_file_def file_key_def)

lemma recordBypassRefused_keys: "map file_key (queueDir (recordBypassRefused w i why b)) = map file_key (queueDir b)"
  by (simp add: recordBypassRefused_def comp_def split: option.splits)

lemma remove_file_absent: "i \<notin> (fst \<circ> snd) ` set fs \<Longrightarrow> remove_file i fs = fs"
  by (induction fs) auto

lemma remove_file_removes:
  assumes "distinct (map (fst \<circ> snd) fs)"
  shows "set (remove_file i fs) = {f \<in> set fs. fst (snd f) \<noteq> i}"
  using assms
proof (induction fs)
  case (Cons f fs)
  then show ?case by (cases "fst (snd f) = i") (auto simp: image_iff)
qed simp

lemma findQueueFile_None: "findQueueFile b i = None \<longleftrightarrow> i \<notin> (fst \<circ> snd) ` set (queueDir b)"
  by (force simp: findQueueFile_def find_None_iff image_iff)

lemma readLease_write: "readLease (writeLease ls l) (eid l) = Some l"
proof (cases "list_ex (\<lambda>x. eid x = eid l) ls")
  case True
  then have "List.find (\<lambda>x. eid x = eid l) (map (\<lambda>x. if eid x = eid l then l else x) ls) = Some l"
    by (induction ls) auto
  then show ?thesis using True by (simp add: readLease_def writeLease_def)
next
  case False
  then have "List.find (\<lambda>x. eid x = eid l) (ls @ [l]) = Some l"
    by (induction ls) auto
  then show ?thesis using False by (simp add: readLease_def writeLease_def)
qed


section \<open>Progress\<close>

lemma clamp_le_cap:
  assumes "1 \<le> cap" "\<not> exclusive t"
  shows "weight (clampQueuedWeight t c cap) \<le> cap"
proof -
  have "js_floor (cap / 2) \<le> cap" using js_floor_le[of "cap / 2"] assms(1) by linarith
  then show ?thesis using assms by (auto simp: clampQueuedWeight_def queuedWeightLimit_def Let_def)
qed

lemma exclusive_capElastic [simp]: "exclusive (capElasticClaim t c h) = exclusive t"
  using same_laneD(3)[OF same_lane_capElastic] .

lemma view_weight_fits:
  assumes "Some t \<in> set (poll_view e sub b)" "1 \<le> weight_cap e" "\<not> exclusive t"
  shows "weight t \<le> weight_cap e"
proof -
  obtain raw st n b1 where o: "open_queue e sub b = (Some (raw, st, n), b1)"
    using assms(1) by (cases "open_queue e sub b"; cases "fst (open_queue e sub b)") (auto simp: poll_view_def)
  then have "Some t \<in> set raw" using assms(1) by (simp add: poll_view_def start_queue_set)
  then obtain u where "t = clampQueuedWeight (capElasticClaim u (cfgOf e) (hostOf e)) (cfgOf e) (weight_cap e)"
    using open_queue_SomeD(3)[OF o] by blast
  then show ?thesis using clamp_le_cap assms(2,3) same_laneD(3)[OF same_lane_clamp] by metis
qed

lemma capElasticClaim_rigid: "res_min t = None \<Longrightarrow> capElasticClaim t c h = t"
  by (auto simp: capElasticClaim_def res_min_def split: option.splits scheduler_mode.splits)

lemma capSimClaim_rigid: "res_min t = None \<Longrightarrow> capSimClaim t p b h c = t"
  by (auto simp: capSimClaim_def res_min_def split: option.splits)

lemma res_min_clamp [simp]: "res_min (clampQueuedWeight t c cap) = res_min t"
  by (simp add: clampQueuedWeight_def res_min_def Let_def)

lemma res_min_judged: "res_min sub = None \<Longrightarrow> res_min (judged_ticket e sub b) = None"
  by (simp add: judged_ticket_def budget_capped_def capElasticClaim_rigid capSimClaim_rigid Let_def)

lemma no_floor_not_below: "res_min t = None \<Longrightarrow> \<not> elasticBelowFloor t c h"
  by (simp add: elasticBelowFloor_def split: scheduler_mode.splits)

text \<open>An idle broker's head is prepared and selected: none of the refusals before the admission evaluation applies.\<close>

lemma idle_head_prepared:
  assumes o: "open_queue e sub b = (Some (raw, st, n), b1)" and hd: "head_of (poll_view e sub b) = Some ht" and i: "eid ht = eid sub"
    and w: "eid sub \<notin> set (withdrawMarkers b)" and d: "startDeadline sub = None"
  obtains p where "prepare e sub raw st n b1 = (Inr p, b1)" "pPos p = 0"
proof -
  have q: "poll_view e sub b = start_queue e raw st n b1" using o by (simp add: poll_view_def)
  obtain rest where r: "start_queue e raw st n b1 = Some ht # rest" using head_of_SomeD[OF hd] q by metis
  then have m: "Some ht \<in> set raw" "may_start e raw b1 ht"
    using start_queue_set[of ht e raw st n b1] by auto
  then have ms: "cap_enforced (class_policy_of e raw b1) (eid sub) = None" "map_of (push_holds_of raw b1) (eid sub) = None"
    using i by (auto simp: may_start_def)
  have full: "list_ex (has_id (eid sub)) (fst (full_view e raw st n b1))"
    using m(1) i full_view_set[of e raw st n b1] by (force simp: list_ex_iff)
  have fi: "find_index (has_id (eid sub)) (start_queue e raw st n b1) = Some 0" using r i by simp
  have "withdrawMarkers b1 = withdrawMarkers b" using fixed_filesD(3) open_queue_SomeD(2)[OF o] by blast
  moreover have "\<not> past_deadline e (judged_ticket e sub b1) b1" using d by (simp add: past_deadline_def)
  ultimately show thesis
    using that ms full fi w unfolding prepare_def by (simp add: Let_def case_prod_beta)
qed

lemma idle_head_state:
  assumes "head_of (pQueue p) = Some ht" "eid ht = eid (pTicket p)" "pHeld p = []"
  obtains h st b2 where "head_state e p b1 = (Inr (h, st), b2)"
proof -
  have "exclusiveDeny (pQueue p) (pTicket p) (pHeld p) = None"
    using assms by (simp add: exclusiveDeny_iff isExclusiveHead_def)
  then show thesis
    using assms(1) that unfolding head_state_def Let_def case_prod_beta by auto
qed

lemma idle_head_candidate:
  assumes h: "head_state e p b1 = (Inr (h, st), b2)" and i: "eid (hTicket h) = eid (pTicket p)" and "pHeld p = []"
    and fit: "hExclusive h \<or> weight (hTicket h) \<le> weight_cap e"
  shows "hBlocker h = None" "polling_head p h"
    "aCandidate (passes_of e p h st b2) = Some (hTicket h)" "\<not> aExpress (passes_of e p h st b2)" "\<not> aYield (passes_of e p h st b2)"
    "admission_held p h (passes_of e p h st b2) = []"
proof -
  show bl: "hBlocker h = None" using head_state_InrD(5)[OF h] assms(3) by simp
  show "polling_head p h" using i by (simp add: polling_head_def)
  have "\<not> hCapacityBlocked h" using head_state_InrD(4,7)[OF h] fit assms(3) by (auto simp: running_weight_def)
  then have wc: "walk_candidate e p h st = Some (hTicket h)"
    using bl i by (simp add: walk_candidate_def Let_def split: option.splits)
  have ns: "\<not> safe_backfill e p h" "\<not> express_eligible e p h b2" "\<not> yield_eligible e p h b2"
    using i by (simp_all add: safe_backfill_def express_eligible_def yield_eligible_def)
  show "aCandidate (passes_of e p h st b2) = Some (hTicket h)" "\<not> aExpress (passes_of e p h st b2)" "\<not> aYield (passes_of e p h st b2)"
    using ns wc by (simp_all add: passes_of_def Let_def)
  show "admission_held p h (passes_of e p h st b2) = []"
    using ns bl assms(3) by (simp add: admission_held_def passes_of_def Let_def conflict_pick_def)
qed

lemma admits_without_sample:
  assumes "usable_sample s = None"
  shows "admit (fst (evaluateNewAdmission est throws wok g c t [] s None now))"
  using assms
  by (simp add: evaluateNewAdmission_fst unavailableDecision_def decideAdmission_admit evaluateCpuAdmission_unusable)

text \<open>Once the head is not refused, nothing but a cancel marker or a failed write keeps it from starting.\<close>

lemma head_finish_starts:
  assumes ref: "refusal e p h a tr j st = None" and ph: "polling_head p h" and np: "\<not> aExpress a" "\<not> aYield a"
    and nc: "\<not> isCancelled b (eid (pTicket p))" and io: "okDequeue (io e)" "okLease (io e)"
  shows "\<exists>l st' b'. finish e sub p h a tr j st b = ((Started l (jFloor j), jTrace j), st', b')"
proof -
  have cs: "count_skip e p h a j st sq = (Some st, sq)" for sq
    using ph by (simp add: count_skip_def Let_def split: option.splits)
  have nc': "\<not> isCancelled (b\<lparr>seqFile := seqFile b\<rparr>) (eid (pTicket p))" using nc by (simp add: isCancelled_def)
  have rl: "record_lifts e h a j st x = ((st, True), x)" for x using np by (simp add: record_lifts_def)
  have "\<exists>b'. dequeueSync (okDequeue (io e)) x y = (True, b')" for x y
    using io(1) by (auto simp: dequeueSync_def split: option.splits)
  then obtain b1 where "dequeueSync (okDequeue (io e)) (b\<lparr>seqFile := seqFile b, expressFile := expressFile b\<rparr>) (eid (pTicket p)) = (True, b1)"
    by blast
  then obtain l st' b' where "commit e sub p h a tr j st (b\<lparr>seqFile := seqFile b\<rparr>) = (Started l (jFloor j), st', b')"
    using io(2) by (auto simp: commit_def rl Let_def)
  then show ?thesis using nc' by (simp add: finish_def ref cs Let_def)
qed


end
