(* ===== verification/Start_Examples.thy ===== *)
theory Start_Examples
  imports Try_Start
begin

text \<open>
  Concrete brokers and polls, and what \<^verbatim>\<open>tryStart\<close> does on them by evaluation. They are the inputs of the witnesses of the
  theorems on the admission transaction: a start beside a running lease, a start past a conflicted head, past a head that
  is too heavy, a sim beside a waiting test, a floor start over the CPU budget, and an idle broker that cannot measure the host.
\<close>

section \<open>One ticket beside one lease\<close>

definition example_io :: poll_io where
  "example_io = \<lparr>okHwm = True, okRelease = True, okPrune = True, okExpire = True, okHeadBlock = True, okCapacityBlock = True,
     okLoadGate = True, okCpuGate = True, okDenial = True, okScope = True, okDrop = True, okSkip = True, okBackfillSeq = True,
     okBackfill = True, okYield = True, okExpress = True, okDequeue = True, okLease = True, okArm = True, okDepart = True,
     okStarved = True, okTrace = True, okQuarantine = (\<lambda>_. True)\<rparr>"

definition example_poll :: poll where
  "example_poll = \<lparr>cfgOf = default_cfg, hostOf = example_host, probesOf = example_probes, wallNow = 1000000, admissionNow = 1000000,
     currentNice = 0, loadReading = 1, sampler = (\<lambda>_ _. Some example_sample), memoryReading = Some example_mem,
     estimateTable = no_estimates, expressTable = \<lparr>laneMs = (\<lambda>_. None), commandMs = (\<lambda>_. None), bypassEntries = (\<lambda>_. None)\<rparr>,
     admissionThrows = False, io = example_io\<rparr>"

section \<open>The other scenarios\<close>

text \<open>A head on the running lease's key, and a later ticket too heavy to be harmless to it.\<close>

definition conflicted_head :: ticket where
  "conflicted_head = example_ticket\<lparr>eid := ''h1'', key := ''repo:build'', weight := 3\<rparr>"

definition later_ticket :: ticket where
  "later_ticket = example_ticket\<lparr>weight := 3, seq := Some 2\<rparr>"

definition conflict_broker :: broker where
  "conflict_broker = example_broker\<lparr>queueDir := [(1, ''h1'', Some conflicted_head), (2, ''t1'', Some later_ticket)], seqFile := Some 2\<rparr>"

text \<open>A head of weight 3 beside a lease of weight 5 on a host of weight capacity 7, and a ticket of weight 1.\<close>

definition heavy_head :: ticket where
  "heavy_head = example_ticket\<lparr>eid := ''h1'', key := ''repo:e2e'', weight := 3\<rparr>"

definition light_ticket :: ticket where
  "light_ticket = example_ticket\<lparr>weight := 1, seq := Some 2\<rparr>"

definition capacity_broker :: broker where
  "capacity_broker = example_broker\<lparr>queueDir := [(1, ''h1'', Some heavy_head), (2, ''t1'', Some light_ticket)], seqFile := Some 2,
     leaseDir := [example_lease\<lparr>leaseWeight := Some 5\<rparr>]\<rparr>"

text \<open>A sim that fits beside a conflicted test.\<close>

definition light_head :: ticket where
  "light_head = conflicted_head\<lparr>weight := 2\<rparr>"

definition sim_ticket :: ticket where
  "sim_ticket = example_ticket\<lparr>klass := Some SimClass, seq := Some 2\<rparr>"

definition sim_broker :: broker where
  "sim_broker = example_broker\<lparr>queueDir := [(1, ''h1'', Some light_head), (2, ''t1'', Some sim_ticket)], seqFile := Some 2\<rparr>"

text \<open>A stamped push gate on a host with five busy cores.\<close>

definition push_ticket :: ticket where
  "push_ticket = example_ticket\<lparr>pushGate := Some gate_a\<rparr>"

definition busy_poll :: poll where
  "busy_poll = example_poll\<lparr>sampler := (\<lambda>_ _. Some (example_sample\<lparr>hostBusyCores := Some 5\<rparr>))\<rparr>"

definition push_broker :: broker where
  "push_broker = example_broker\<lparr>queueDir := [(1, ''t1'', Some push_ticket)]\<rparr>"

text \<open>Nothing held, and neither a CPU sample nor a memory reading.\<close>

definition blind_poll :: poll where
  "blind_poll = example_poll\<lparr>sampler := (\<lambda>_ _. None), memoryReading := None\<rparr>"

definition idle_broker :: broker where
  "idle_broker = example_broker\<lparr>leaseDir := []\<rparr>"

section \<open>What the polls do\<close>

fun floor_started :: "start_result \<Rightarrow> bool" where
  "floor_started (Started l f) \<longleftrightarrow> floorSlot l"
| "floor_started _ \<longleftrightarrow> False"

fun plain_started :: "start_result \<Rightarrow> bool" where
  "plain_started (Started l f) \<longleftrightarrow> \<not> exclusive l \<and> \<not> floorSlot l \<and> queueBypass l = None"
| "plain_started _ \<longleftrightarrow> False"

lemma started_ex:
  assumes "started (fst (tryStart e t b))"
  obtains l f b' where "tryStart e t b = (Started l f, b')"
proof -
  obtain r b' where r: "tryStart e t b = (r, b')" by (cases "tryStart e t b") auto
  with assms have "started r" by simp
  with r show thesis by (cases r) (auto intro: that)
qed

lemma floor_started_ex:
  assumes "floor_started (fst (tryStart e t b))"
  obtains l f b' where "tryStart e t b = (Started l f, b')" "floorSlot l"
proof -
  obtain r b' where r: "tryStart e t b = (r, b')" by (cases "tryStart e t b") auto
  with assms have "floor_started r" by simp
  with r show thesis by (cases r) (auto intro: that)
qed

lemma plain_started_ex:
  assumes "plain_started (fst (tryStart e t b))"
  obtains l f b' where "tryStart e t b = (Started l f, b')" "\<not> exclusive l" "\<not> floorSlot l" "queueBypass l = None"
proof -
  obtain r b' where r: "tryStart e t b = (r, b')" by (cases "tryStart e t b") auto
  with assms have "plain_started r" by simp
  with r show thesis by (cases r) (auto intro: that)
qed

lemma example_starts_plain: "plain_started (fst (tryStart example_poll example_ticket example_broker))"
  by code_simp

lemma example_starts: "started (fst (tryStart example_poll example_ticket example_broker))"
  using plain_started_ex[OF example_starts_plain] by (metis fst_conv started.simps(1))

lemma conflict_starts: "started (fst (tryStart example_poll later_ticket conflict_broker))"
  by code_simp

lemma capacity_starts: "started (fst (tryStart example_poll light_ticket capacity_broker))"
  by code_simp

lemma sim_starts: "started (fst (tryStart example_poll sim_ticket sim_broker))"
  by code_simp

lemma push_starts: "floor_started (fst (tryStart busy_poll push_ticket push_broker))"
  by code_simp

end
