(* ===== verification/Start_Witnesses.thy ===== *)
theory Start_Witnesses
  imports Start_Progress Start_Examples
begin

text \<open>
  The theorems on \<^verbatim>\<open>tryStart\<close> applied to the polls of \<^verbatim>\<open>Start_Examples\<close>: every hypothesis is met by a poll that starts
  a ticket, and each conclusion is read off there.
\<close>

section \<open>Hypotheses on the examples\<close>

lemma example_copies: "copies_agree example_ticket (reaped example_poll example_ticket example_broker)"
  by code_simp

lemma sim_copies: "copies_agree sim_ticket (reaped example_poll sim_ticket sim_broker)"
  by code_simp

lemma example_leases_ok: "leases_ok (weight_cap example_poll) (leaseDir example_broker)"
  by code_simp

lemma conflict_head: "head_of (poll_view example_poll later_ticket conflict_broker) = Some conflicted_head"
  by code_simp

lemma conflict_blocked: "blockedBy (holders (held (reaped example_poll later_ticket conflict_broker))) conflicted_head \<noteq> None"
  by code_simp

lemma capacity_head: "head_of (poll_view example_poll light_ticket capacity_broker) = Some heavy_head"
  by code_simp

lemma capacity_free: "blockedBy (holders (held (reaped example_poll light_ticket capacity_broker))) heavy_head = None"
  by code_simp

lemma capacity_full:
  "running_weight (held (reaped example_poll light_ticket capacity_broker)) + weight heavy_head > weight_cap example_poll"
  by code_simp

lemma sim_head: "head_of (poll_view example_poll sim_ticket sim_broker) = Some light_head"
  by code_simp

lemma idle_head: "head_of (poll_view blind_poll example_ticket idle_broker) = Some example_ticket"
  by code_simp

lemma idle_held: "held (reaped blind_poll example_ticket idle_broker) = []"
  by code_simp

section \<open>The witnesses\<close>

theorem start_respects_conflicts_witness:
  "\<exists>l f b'. tryStart example_poll example_ticket example_broker = (Started l f, b') \<and> key l = ''repo:test'' \<and>
     of_nat (length (filter (\<lambda>x. key x = ''repo:test'') (held (reaped example_poll example_ticket example_broker)))) < key_ceiling example_ticket"
proof -
  obtain l f b' where s: "tryStart example_poll example_ticket example_broker = (Started l f, b')"
    by (rule started_ex[OF example_starts])
  have k: "key example_ticket = ''repo:test''" by (simp add: example_ticket_def)
  show ?thesis using s start_respects_conflicts[OF s example_copies] unfolding k by blast
qed

theorem tryStart_keeps_leases_ok_witness:
  "\<exists>l f b'. tryStart example_poll example_ticket example_broker = (Started l f, b') \<and>
     leases_ok (weight_cap example_poll) (leaseDir example_broker) \<and> leases_ok (weight_cap example_poll) (leaseDir b')"
proof -
  obtain l f b' where s: "tryStart example_poll example_ticket example_broker = (Started l f, b')"
    by (rule started_ex[OF example_starts])
  have v: "valid_budget_cfg (cfgOf example_poll)" by (simp add: example_poll_def valid_budget_default)
  have w: "0 \<le> weight example_ticket" by (simp add: example_ticket_def)
  show ?thesis using s example_leases_ok tryStart_keeps_leases_ok[OF example_leases_ok v w s] by blast
qed

theorem start_respects_stop_flags_witness:
  "\<exists>l f b'. tryStart example_poll example_ticket example_broker = (Started l f, b') \<and> pauseFile example_broker = None"
proof -
  obtain l f b' where s: "tryStart example_poll example_ticket example_broker = (Started l f, b')"
    by (rule started_ex[OF example_starts])
  show ?thesis using s start_respects_stop_flags[OF s] by blast
qed


theorem sim_never_delays_test_witness:
  "\<exists>l f b'. tryStart example_poll sim_ticket sim_broker = (Started l f, b') \<and>
     blockedBy [(eid sim_ticket, key sim_ticket)] light_head = None \<and>
     running_weight (held (reaped example_poll sim_ticket sim_broker)) + weight light_head + weight (budget_capped example_poll sim_ticket)
       \<le> weight_cap example_poll"
proof -
  obtain l f b' where s: "tryStart example_poll sim_ticket sim_broker = (Started l f, b')" by (rule started_ex[OF sim_starts])
  have "eid light_head \<noteq> eid sim_ticket" "classOf sim_ticket = SimClass" "classOf light_head \<noteq> SimClass"
    by code_simp+
  then show ?thesis using s sim_never_delays_test[OF s sim_copies sim_head] by blast
qed

theorem conflict_skip_is_charged_witness:
  "\<exists>l f b'. tryStart example_poll later_ticket conflict_broker = (Started l f, b') \<and>
     (uncounted_pass example_poll later_ticket conflict_broker l b' conflicted_head \<or>
      charged (readSkipState (stored (poll_store example_poll later_ticket conflict_broker) b') ''h1'') ''h1'' =
        charged (readSkipState (poll_store example_poll later_ticket conflict_broker) ''h1'') ''h1'' + 1)"
proof -
  obtain l f b' where s: "tryStart example_poll later_ticket conflict_broker = (Started l f, b')"
    by (rule started_ex[OF conflict_starts])
  have ne: "eid conflicted_head \<noteq> eid later_ticket" and i: "eid conflicted_head = ''h1''"
    by (simp_all add: conflicted_head_def later_ticket_def example_ticket_def)
  show ?thesis using s conflict_skip_is_charged[OF s conflict_head ne conflict_blocked] unfolding i by blast
qed

theorem capacity_skip_is_charged_witness:
  "\<exists>l f b'. tryStart example_poll light_ticket capacity_broker = (Started l f, b') \<and>
     (uncounted_pass example_poll light_ticket capacity_broker l b' heavy_head \<or>
      charged (readCapacitySkipState (stored (poll_store example_poll light_ticket capacity_broker) b') ''h1'') ''h1'' =
        charged (readCapacitySkipState (poll_store example_poll light_ticket capacity_broker) ''h1'') ''h1'' + 1)"
proof -
  obtain l f b' where s: "tryStart example_poll light_ticket capacity_broker = (Started l f, b')"
    by (rule started_ex[OF capacity_starts])
  have ne: "eid heavy_head \<noteq> eid light_ticket" and i: "eid heavy_head = ''h1''"
    by (simp_all add: heavy_head_def light_ticket_def example_ticket_def)
  show ?thesis using s capacity_skip_is_charged[OF s capacity_head ne capacity_free capacity_full] unfolding i by blast
qed

theorem lifts_are_bounded_witness:
  "\<exists>l f b' w sample. tryStart busy_poll push_ticket push_broker = (Started l f, b') \<and> floorSlot l \<and> isFloorTicket w \<and>
     within_overshoot (cfgOf busy_poll) (decideAdmission (estimateTable busy_poll) (cfgOf busy_poll) w
       (held (reaped busy_poll push_ticket push_broker)) sample (memoryReading busy_poll) False
       (cooldownActive (held (reaped busy_poll push_ticket push_broker)) (cfgOf busy_poll) (admissionNow busy_poll)) (admissionNow busy_poll))"
proof -
  obtain l f b' where s: "tryStart busy_poll push_ticket push_broker = (Started l f, b')" "floorSlot l"
    by (rule floor_started_ex[OF push_starts])
  show ?thesis using s(2) s(1) lifts_are_bounded[OF s(1)] by blast
qed



end
