(* ===== verification/Intake.thy ===== *)
theory Intake
  imports Broker
begin

text \<open>
  The queue operations outside the admission transaction: intake, the per-repository cap on queued highs, withdrawal and restore, and
  re-tiering. The queue invariant says that the files are in sequence order with distinct ids, that every readable record is the
  ticket its file name says, and that the sequence counter is ahead of all of them.
\<close>

section \<open>The queue invariant\<close>

definition queue_ok :: "broker \<Rightarrow> bool" where
  "queue_ok b \<longleftrightarrow> sorted (map file_key (queueDir b)) \<and> distinct (map (fst \<circ> snd) (queueDir b)) \<and>
     list_all (\<lambda>(s, i, t). s \<le> nullish (seqFile b) 0 \<and> (case t of Some u \<Rightarrow> eid u = i \<and> seq u = Some s | None \<Rightarrow> True)) (queueDir b)"

lemma insort_key_last:
  assumes "\<And>x. x \<in> set xs \<Longrightarrow> f x < f y"
  shows "insort_key f y xs = xs @ [y]"
  using assms
proof (induction xs)
  case (Cons x xs)
  have "\<not> f y \<le> f x" using Cons.prems[of x] by simp
  then show ?case using Cons by simp
qed simp

lemma write_queue_last:
  assumes "\<And>g. g \<in> set (queueDir b) \<Longrightarrow> fst g < s"
  shows "queueDir (write_queue (s, i, t) b) = queueDir b @ [(s, i, t)]"
proof -
  have lt: "file_key g < file_key (s, i, t)" if "g \<in> set (queueDir b)" for g
    using assms[OF that] by (simp add: file_key_def less_prod_def)
  then have "filter (\<lambda>g. file_key g \<noteq> file_key (s, i, t)) (queueDir b) = queueDir b"
    by (intro filter_True) (metis less_irrefl)
  then show ?thesis using insort_key_last[of "queueDir b" file_key "(s, i, t)"] lt by (simp add: write_queue_def)
qed

lemma supersede_one_frame: "queueDir (fst (supersede_one t x st)) = queueDir (fst st)" "seqFile (fst (supersede_one t x st)) = seqFile (fst st)"
  "leaseDir (fst (supersede_one t x st)) = leaseDir (fst st)"
  by (auto simp: supersede_one_def Let_def case_prod_beta split: option.splits)

lemma supersede_frame:
  "queueDir (fst (supersedeRepeatedPushes t b)) = queueDir b" "seqFile (fst (supersedeRepeatedPushes t b)) = seqFile b"
  "leaseDir (fst (supersedeRepeatedPushes t b)) = leaseDir b"
  unfolding supersedeRepeatedPushes_def
  by (simp_all add: foldl_frame[where F = "\<lambda>st. queueDir (fst st)"] foldl_frame[where F = "\<lambda>st. seqFile (fst st)"]
      foldl_frame[where F = "\<lambda>st. leaseDir (fst st)"] supersede_one_frame)

lemma seqFile_frames [simp]: "seqFile (touchSimArmFor w x n b) = seqFile b" "seqFile (write_queue f b) = seqFile b"
  by (simp_all add: touchSimArmFor_def write_queue_def)

text \<open>The record a successful intake writes, and what it did to get there.\<close>

definition intake_record :: "probes \<Rightarrow> enqueue_io \<Rightarrow> cfg \<Rightarrow> ticket \<Rightarrow> broker \<Rightarrow> ticket" where
  "intake_record pr io c t b =
     (let requested = nullish (priorityRequested t) DEFAULT_PRIORITY
      in queue_record t (nullish (seqFile b) 0 + 1) (pNow pr) (fst (advanceHwm (hwmOk io) (hwmFile b) (pNow pr))) requested
           (admitTier (pAlive pr) (listQueue b) (repoId t) requested c None))"

lemma enqueue_EnqueuedD:
  assumes "enqueue pr io c t owner b = (Enqueued r targets, b')"
  shows "existingTicket b (eid t) owner = None" "\<not> migrating b" "assertQueueLayout b" "seqFile b' = Some (nullish (seqFile b) 0 + 1)"
    "queueDir b' = queueDir (write_queue (nullish (seqFile b) 0 + 1, eid t, Some r) b)" "leaseDir b' = leaseDir b"
    "r = intake_record pr io c t b"
proof -
  show ex: "existingTicket b (eid t) owner = None"
    using assms by (auto simp: enqueue_def split: option.splits)
  show mg: "\<not> migrating b" using assms ex by (auto simp: enqueue_def)
  show ly: "assertQueueLayout b" using assms ex mg by (auto simp: enqueue_def split: if_splits)
  let ?b1 = "b\<lparr>hwmFile := snd (advanceHwm (hwmOk io) (hwmFile b) (pNow pr))\<rparr>"
  have ok: "seqOk io" "queueOk io"
    using assms ex mg ly by (auto simp: enqueue_def nextSeq_def Let_def case_prod_beta split: if_splits)
  let ?s = "nullish (seqFile b) 0 + 1"
  let ?b3 = "touchSimArmFor (armOk io) (intake_record pr io c t b) (pNow pr) (write_queue (?s, eid t, Some (intake_record pr io c t b)) (?b1\<lparr>seqFile := Some ?s\<rparr>))"
  have eq: "(Enqueued (intake_record pr io c t b) (snd (supersedeRepeatedPushes (intake_record pr io c t b) ?b3)),
      fst (supersedeRepeatedPushes (intake_record pr io c t b) ?b3)) = (Enqueued r targets, b')"
    using assms ex mg ly ok by (auto simp: enqueue_def nextSeq_def Let_def case_prod_beta intake_record_def listQueue_def)
  then show r: "r = intake_record pr io c t b" by simp
  have b': "b' = fst (supersedeRepeatedPushes r ?b3)" using eq r by simp
  show "seqFile b' = Some ?s" using b' by (simp add: supersede_frame)
  show "queueDir b' = queueDir (write_queue (?s, eid t, Some r) b)" using b' r by (simp add: supersede_frame write_queue_def)
  show "leaseDir b' = leaseDir b" using b' by (simp add: supersede_frame)
qed

lemma intake_record_simps [simp]:
  "eid (intake_record pr io c t b) = eid t" "seq (intake_record pr io c t b) = Some (nullish (seqFile b) 0 + 1)"
  "repoId (intake_record pr io c t b) = repoId t" "schedVersion (intake_record pr io c t b) = Some 2"
  "priorityRequested (intake_record pr io c t b) = Some (nullish (priorityRequested t) DEFAULT_PRIORITY)"
  "priorityAdmitted (intake_record pr io c t b) =
     Some (fst (admitTier (pAlive pr) (listQueue b) (repoId t) (nullish (priorityRequested t) DEFAULT_PRIORITY) c None))"
  by (simp_all add: intake_record_def queue_record_def Let_def)

lemma queue_okD: "queue_ok b \<Longrightarrow> f \<in> set (queueDir b) \<Longrightarrow> fst f < nullish (seqFile b) 0 + 1"
  unfolding queue_ok_def list_all_iff by (cases f) fastforce

lemma existingTicket_None: "existingTicket b i owner = None \<Longrightarrow> i \<notin> (fst \<circ> snd) ` set (queueDir b)"
  by (auto simp: existingTicket_def findQueueFile_def find_None_iff split: if_splits)

lemma retier_file_simps: "retier_file i r (s, i, u) = (s, i, Some r)" "k \<noteq> i \<Longrightarrow> retier_file i r (s, k, u) = (s, k, u)"
  by (simp_all add: retier_file_def)

lemma findQueueFile_SomeD: "findQueueFile b i = Some (s, j, t) \<Longrightarrow> j = i \<and> (s, i, t) \<in> set (queueDir b)"
  using find_SomeD unfolding findQueueFile_def by fastforce

lemma retierQueued_RetieredD:
  assumes "retierQueued pr i tr c ownerOf b = (Retiered r', b')"
  obtains s r where "(s, i, Some r) \<in> set (queueDir b)" "eid r = i"
    "b' = b\<lparr>queueDir := map (retier_file i r') (queueDir b)\<rparr>"
    "r' = r\<lparr>priorityRequested := Some tr, priorityAdmitted := Some (fst (admitTier (pAlive pr) (listQueue b) (repoId r) tr c (Some i))),
      priorityDemoted := snd (admitTier (pAlive pr) (listQueue b) (repoId r) tr c (Some i)), priorityRetieredAt := Some (pNow pr)\<rparr>"
    "isQueuedSupervisorGone pr r = False" "ownerOf i = None" "\<not> isCancelled b i"
proof -
  have mg: "\<not> migrating b" using assms by (auto simp: retierQueued_def split: if_splits)
  obtain ts where rs: "resolveScheduler (fenceFile b) (fairnessFile b) = Inr ts"
    using assms mg by (cases "resolveScheduler (fenceFile b) (fairnessFile b)") (auto simp: retierQueued_def)
  obtain s r where f: "findQueueFile b i = Some (s, i, Some r)"
  proof (cases "findQueueFile b i")
    case None
    then show thesis using assms mg rs by (auto simp: retierQueued_def split: if_splits)
  next
    case (Some x)
    obtain s j u where x: "x = (s, j, u)" by (cases x) auto
    then have "j = i" using findQueueFile_SomeD Some by blast
    then show thesis using that assms mg rs Some x by (cases u) (auto simp: retierQueued_def split: if_splits)
  qed
  let ?adm = "admitTier (pAlive pr) (listQueue b) (repoId r) tr c (Some i)"
  have g: "eid r = i" "\<not> isCancelled b i" "ownerOf i = None" "\<not> isQueuedSupervisorGone pr r"
    using assms mg rs f by (auto simp: retierQueued_def split: if_splits option.splits)
  have "r' = r\<lparr>priorityRequested := Some tr, priorityAdmitted := Some (fst ?adm), priorityDemoted := snd ?adm, priorityRetieredAt := Some (pNow pr)\<rparr>"
    and "b' = b\<lparr>queueDir := map (retier_file i r') (queueDir b)\<rparr>"
    using assms mg rs f g by (auto simp: retierQueued_def Let_def split: if_splits)
  then show thesis using that findQueueFile_SomeD[OF f] g by blast
qed

section \<open>Properties\<close>

text \<open>
  C14. Intake is first in, first out and loses nothing. From a queue in order, a ticket that is accepted is appended behind every queued
  one with a fresh sequence number, the queue stays in order with distinct ids, and a second submission of the same id, by anyone,
  finds it and changes nothing.
\<close>

theorem enqueue_appends_once:
  assumes "queue_ok b" and "enqueue pr io c t owner b = (Enqueued r targets, b')"
  shows "queueDir b' = queueDir b @ [(nullish (seqFile b) 0 + 1, eid t, Some r)] \<and> queue_ok b' \<and> eid r = eid t \<and>
    enqueue pr2 io2 c2 (t2\<lparr>eid := eid t\<rparr>) owner2 b' = (Existing PlaceQueued, b')"
proof -
  let ?s = "nullish (seqFile b) 0 + 1"
  note d = enqueue_EnqueuedD[OF assms(2)]
  have lt: "fst g < ?s" if "g \<in> set (queueDir b)" for g using queue_okD[OF assms(1) that] .
  have q: "queueDir b' = queueDir b @ [(?s, eid t, Some r)]" using d(5) write_queue_last[OF lt] by simp
  have new: "eid t \<notin> (fst \<circ> snd) ` set (queueDir b)" using existingTicket_None[OF d(1)] .
  have srt: "sorted (map file_key (queueDir b'))"
    using assms(1) lt unfolding q by (fastforce simp: queue_ok_def sorted_append file_key_def less_eq_prod_def)
  have dst: "distinct (map (fst \<circ> snd) (queueDir b'))" using assms(1) new unfolding q by (auto simp: queue_ok_def)
  have each: "s \<le> ?s \<and> (case u of Some v \<Rightarrow> eid v = i \<and> seq v = Some s | None \<Rightarrow> True)" if "(s, i, u) \<in> set (queueDir b)" for s i u
    using assms(1) that lt[OF that] by (auto simp: queue_ok_def list_all_iff)
  have "list_all (\<lambda>(s, i, t). s \<le> nullish (seqFile b') 0 \<and> (case t of Some u \<Rightarrow> eid u = i \<and> seq u = Some s | None \<Rightarrow> True)) (queueDir b')"
    unfolding q d(4) d(7) list_all_iff using each by auto
  then have ok: "queue_ok b'" using srt dst by (simp add: queue_ok_def)
  have "findQueueFile b' (eid t) \<noteq> None" unfolding findQueueFile_def q by (auto simp: find_None_iff)
  then have "enqueue pr2 io2 c2 (t2\<lparr>eid := eid t\<rparr>) owner2 b' = (Existing PlaceQueued, b')"
    by (simp add: enqueue_def existingTicket_def)
  then show ?thesis using q ok d(7) by simp
qed

text \<open>The queued highs of a repository whose supervisors are alive, at most the cap (a cap that is not whole rounds up).\<close>

definition high_cap_ok :: "(jsnum option \<Rightarrow> string option \<Rightarrow> bool) \<Rightarrow> cfg \<Rightarrow> broker \<Rightarrow> string option \<Rightarrow> bool" where
  "high_cap_ok alive c b repo \<longleftrightarrow> of_nat (queued_high alive (listQueue b) repo None) < maxQueuedHighPerRepo c + 1"

lemma queued_high_append:
  "queued_high alive (q @ [Some t]) repo x = queued_high alive q repo x + (if counts_high alive repo x t then 1 else 0)"
  by (simp add: queued_high_def)

lemma filter_length_mono: "(\<And>x. P x \<Longrightarrow> Q x) \<Longrightarrow> length (filter P xs) \<le> length (filter Q xs)"
  by (induction xs) auto

lemma admitTier_High:
  assumes "fst (admitTier alive q repo requested c x) = High"
  shows "requested = High" "of_nat (queued_high alive q repo x) < maxQueuedHighPerRepo c"
  using assms by (auto simp: admitTier_def Let_def split: if_splits)

text \<open>Counting highs over files, with one ticket left out, and with its record replaced.\<close>

fun high_count :: "(jsnum option \<Rightarrow> string option \<Rightarrow> bool) \<Rightarrow> string option \<Rightarrow> string option \<Rightarrow> qfile list \<Rightarrow> nat" where
  "high_count alive repo x [] = 0"
| "high_count alive repo x ((s, i, None) # fs) = high_count alive repo x fs"
| "high_count alive repo x ((s, i, Some t) # fs) = (if counts_high alive repo x t then 1 else 0) + high_count alive repo x fs"

lemma queued_high_count: "queued_high alive (listQueue b) repo x = high_count alive repo x (queueDir b)"
proof -
  have "length (filter (counts_high alive repo x) (readable (map (\<lambda>(_, _, t). t) fs))) = high_count alive repo x fs" for fs
    by (induction alive repo x fs rule: high_count.induct) auto
  then show ?thesis by (simp add: queued_high_def listQueue_def)
qed

definition named :: "qfile list \<Rightarrow> bool" where
  "named fs \<longleftrightarrow> (\<forall>s i t. (s, i, Some t) \<in> set fs \<longrightarrow> eid t = i)"

lemma named_Cons: "named ((s, i, u) # fs) \<longleftrightarrow> (\<forall>t. u = Some t \<longrightarrow> eid t = i) \<and> named fs"
  by (auto simp: named_def)

lemma queue_ok_named: "queue_ok b \<Longrightarrow> named (queueDir b)"
  by (auto simp: queue_ok_def named_def list_all_iff)

lemma counts_high_other: "eid t \<noteq> i \<Longrightarrow> counts_high alive repo (Some i) t = counts_high alive repo None t"
  by (simp add: counts_high_def)

lemma counts_high_self: "\<not> counts_high alive repo (Some (eid t)) t"
  by (simp add: counts_high_def)

lemma high_count_absent:
  "named fs \<Longrightarrow> i \<notin> (fst \<circ> snd) ` set fs \<Longrightarrow> high_count alive repo (Some i) fs = high_count alive repo None fs"
  by (induction alive repo "None :: string option" fs rule: high_count.induct) (auto simp: named_Cons counts_high_def)

lemma retier_absent: "i \<notin> (fst \<circ> snd) ` set fs \<Longrightarrow> map (retier_file i r) fs = fs"
  by (induction fs) (auto simp: retier_file_def)

lemma high_count_retier:
  assumes "named fs" "distinct (map (fst \<circ> snd) fs)"
  shows "high_count alive repo None (map (retier_file i r') fs) \<le>
    high_count alive repo (Some i) fs + (if counts_high alive repo None r' then 1 else 0)"
  using assms
proof (induction fs)
  case (Cons f fs)
  obtain s k u where f: "f = (s, k, u)" by (cases f) auto
  have nm: "named fs" "\<And>t. u = Some t \<Longrightarrow> eid t = k" and ds: "distinct (map (fst \<circ> snd) fs)" "k \<notin> (fst \<circ> snd) ` set fs"
    using Cons.prems f by (auto simp: named_Cons comp_def)
  show ?case
  proof (cases "k = i")
    case True
    have "map (retier_file i r') fs = fs" using retier_absent ds(2) True by blast
    moreover have "high_count alive repo (Some i) fs = high_count alive repo None fs" using high_count_absent nm(1) ds(2) True by blast
    ultimately show ?thesis using f True nm(2) by (cases u) (auto simp: retier_file_simps)
  next
    case False
    have "high_count alive repo None (map (retier_file i r') fs) \<le> high_count alive repo (Some i) fs + (if counts_high alive repo None r' then 1 else 0)"
      using Cons.IH nm(1) ds(1) by blast
    then show ?thesis using f False nm(2) counts_high_other[of _ i alive repo] by (cases u) (auto simp: retier_file_simps)
  qed
qed simp

text \<open>
  The cap on queued highs is kept by both ways a ticket becomes high. If the live queued highs of a repository are within
  \<^verbatim>\<open>maxQueuedHighPerRepo\<close> before, they are within it after an accepted intake and after a re-tier, whatever tier was asked for:
  the ticket over the cap is admitted as medium.
\<close>

theorem high_cap_is_kept:
  assumes "queue_ok b" and "high_cap_ok (pAlive pr) c b repo"
  shows "(enqueue pr io c t owner b = (Enqueued r targets, b') \<longrightarrow> high_cap_ok (pAlive pr) c b' repo) \<and>
    (retierQueued pr i tr c ownerOf b = (Retiered r', b'') \<longrightarrow> high_cap_ok (pAlive pr) c b'' repo)"
proof (intro conjI impI)
  assume e: "enqueue pr io c t owner b = (Enqueued r targets, b')"
  note d = enqueue_EnqueuedD[OF e]
  have "queueDir b' = queueDir b @ [(nullish (seqFile b) 0 + 1, eid t, Some r)]"
    using d(5) write_queue_last[of b "nullish (seqFile b) 0 + 1"] queue_okD[OF assms(1)] by simp
  then have q: "listQueue b' = listQueue b @ [Some r]" by (simp add: listQueue_def)
  show "high_cap_ok (pAlive pr) c b' repo"
  proof (cases "counts_high (pAlive pr) repo None r")
    case True
    then have "repo = repoId t" "fst (admitTier (pAlive pr) (listQueue b) (repoId t) (nullish (priorityRequested t) DEFAULT_PRIORITY) c None) = High"
      using d(7) by (auto simp: counts_high_def)
    then show ?thesis using admitTier_High(2) q True by (simp add: high_cap_ok_def queued_high_append)
  next
    case False
    then show ?thesis using assms(2) q by (simp add: high_cap_ok_def queued_high_append)
  qed
next
  assume e: "retierQueued pr i tr c ownerOf b = (Retiered r', b'')"
  obtain s u where u: "(s, i, Some u) \<in> set (queueDir b)" "eid u = i" and
      b'': "b'' = b\<lparr>queueDir := map (retier_file i r') (queueDir b)\<rparr>" and
      r': "r' = u\<lparr>priorityRequested := Some tr, priorityAdmitted := Some (fst (admitTier (pAlive pr) (listQueue b) (repoId u) tr c (Some i))),
        priorityDemoted := snd (admitTier (pAlive pr) (listQueue b) (repoId u) tr c (Some i)), priorityRetieredAt := Some (pNow pr)\<rparr>"
    by (rule retierQueued_RetieredD[OF e])
  have le: "queued_high (pAlive pr) (listQueue b'') repo None \<le>
      queued_high (pAlive pr) (listQueue b) repo (Some i) + (if counts_high (pAlive pr) repo None r' then 1 else 0)"
    using high_count_retier[OF queue_ok_named[OF assms(1)]] assms(1) b'' unfolding queued_high_count by (simp add: queue_ok_def)
  show "high_cap_ok (pAlive pr) c b'' repo"
  proof (cases "counts_high (pAlive pr) repo None r'")
    case True
    then have "of_nat (queued_high (pAlive pr) (listQueue b) repo (Some i)) < maxQueuedHighPerRepo c"
      using r' admitTier_High(2) by (auto simp: counts_high_def)
    moreover have "(of_nat (queued_high (pAlive pr) (listQueue b'') repo None) :: jsnum) \<le> of_nat (queued_high (pAlive pr) (listQueue b) repo (Some i) + 1)"
      using le True by (simp only: of_nat_le_iff) simp
    ultimately show ?thesis by (simp add: high_cap_ok_def)
  next
    case False
    have "queued_high (pAlive pr) (listQueue b) repo (Some i) \<le> queued_high (pAlive pr) (listQueue b) repo None"
      unfolding queued_high_def by (rule filter_length_mono) (simp add: counts_high_def)
    then have "(of_nat (queued_high (pAlive pr) (listQueue b'') repo None) :: jsnum) \<le> of_nat (queued_high (pAlive pr) (listQueue b) repo None)"
      using le False by (simp only: of_nat_le_iff) simp
    then show ?thesis using assms(2) by (simp add: high_cap_ok_def)
  qed
qed

text \<open>
  Re-tiering changes the tier and nothing else. A successful re-tier keeps every file of the queue under its name and in its place, so
  the ticket keeps its sequence number and its wait; of the record only the requested tier, the admitted tier, the demotion flag
  and the re-tier time change, and no other file of the broker is touched.
\<close>

theorem retier_changes_only_the_tier:
  assumes "queue_ok b" and "retierQueued pr i tr c ownerOf b = (Retiered r', b')"
  shows "map file_key (queueDir b') = map file_key (queueDir b) \<and> queue_ok b' \<and> priorityRequested r' = Some tr \<and> b'\<lparr>queueDir := queueDir b\<rparr> = b \<and>
    (\<exists>s r. (s, i, Some r) \<in> set (queueDir b) \<and> (s, i, Some r') \<in> set (queueDir b') \<and>
       r'\<lparr>priorityRequested := priorityRequested r, priorityAdmitted := priorityAdmitted r, priorityDemoted := priorityDemoted r,
          priorityRetieredAt := priorityRetieredAt r\<rparr> = r)"
proof -
  obtain s r where r: "(s, i, Some r) \<in> set (queueDir b)" "eid r = i" and b': "b' = b\<lparr>queueDir := map (retier_file i r') (queueDir b)\<rparr>" and
      r': "r' = r\<lparr>priorityRequested := Some tr, priorityAdmitted := Some (fst (admitTier (pAlive pr) (listQueue b) (repoId r) tr c (Some i))),
        priorityDemoted := snd (admitTier (pAlive pr) (listQueue b) (repoId r) tr c (Some i)), priorityRetieredAt := Some (pNow pr)\<rparr>"
    by (rule retierQueued_RetieredD[OF assms(2)])
  have fk: "file_key (retier_file i r' f) = file_key f" and ids: "fst (snd (retier_file i r' f)) = fst (snd f)" for f
    by (simp_all add: file_key_def retier_file_def)
  have keys: "map file_key (queueDir b') = map file_key (queueDir b)" using b' fk by simp
  have names: "map (fst \<circ> snd) (queueDir b') = map (fst \<circ> snd) (queueDir b)" using b' ids by simp
  have inj: "inj_on (fst \<circ> snd) (set (queueDir b))" using assms(1) by (simp add: queue_ok_def distinct_map)
  have seqs: "x \<le> nullish (seqFile b) 0 \<and> (case u of Some v \<Rightarrow> eid v = k \<and> seq v = Some x | None \<Rightarrow> True)"
    if "(x, k, u) \<in> set (queueDir b')" for x k u
  proof -
    obtain f where f: "f \<in> set (queueDir b)" "(x, k, u) = retier_file i r' f" using \<open>(x, k, u) \<in> set (queueDir b')\<close> b' by auto
    obtain x0 k0 u0 where f0: "f = (x0, k0, u0)" by (cases f) auto
    have old: "x0 \<le> nullish (seqFile b) 0 \<and> (case u0 of Some v \<Rightarrow> eid v = k0 \<and> seq v = Some x0 | None \<Rightarrow> True)"
      using assms(1) f(1) f0 by (auto simp: queue_ok_def list_all_iff)
    show ?thesis
    proof (cases "k0 = i")
      case True
      have "f = (s, i, Some r)"
        using inj_onD[OF inj, of f "(s, i, Some r)"] f(1) f0 True r(1) by simp
      moreover have "seq r = Some s" using assms(1) r(1) by (auto simp: queue_ok_def list_all_iff)
      ultimately show ?thesis using f(2) f0 old r(2) r' by (simp add: retier_file_simps)
    next
      case False
      then have "x = x0" "k = k0" "u = u0" using f(2) f0 by (simp_all add: retier_file_simps)
      then show ?thesis using old by blast
    qed
  qed
  have sq: "seqFile b' = seqFile b" using b' by simp
  have "queue_ok b'"
    using assms(1) seqs sq unfolding queue_ok_def keys names list_all_iff by auto
  moreover have "(s, i, Some r') \<in> set (queueDir b')" using r(1) b' image_eqI[of _ "retier_file i r'" "(s, i, Some r)"] by (simp add: retier_file_simps)
  moreover have "b'\<lparr>queueDir := queueDir b\<rparr> = b" using b' by simp
  moreover have "r'\<lparr>priorityRequested := priorityRequested r, priorityAdmitted := priorityAdmitted r, priorityDemoted := priorityDemoted r,
      priorityRetieredAt := priorityRetieredAt r\<rparr> = r" using r' by simp
  moreover have "priorityRequested r' = Some tr" using r' by simp
  ultimately show ?thesis using keys r(1) by blast
qed

section \<open>Witnesses\<close>

definition second_ticket :: ticket where
  "second_ticket = example_ticket\<lparr>eid := ''t2'', priorityRequested := Some High\<rparr>"

definition all_writes :: enqueue_io where
  "all_writes = \<lparr>hwmOk = True, seqOk = True, queueOk = True, armOk = True\<rparr>"

fun accepted :: "enqueue_outcome \<Rightarrow> bool" where
  "accepted (Enqueued r targets) = True"
| "accepted _ = False"

fun retiered :: "retier_outcome \<Rightarrow> bool" where
  "retiered (Retiered r) = True"
| "retiered _ = False"

lemma accepted_ex:
  assumes "accepted (fst (enqueue pr io c t owner b))"
  obtains r targets b' where "enqueue pr io c t owner b = (Enqueued r targets, b')"
proof -
  obtain x b' where x: "enqueue pr io c t owner b = (x, b')" by (cases "enqueue pr io c t owner b") auto
  with assms have "accepted x" by simp
  with x show thesis by (cases x) (auto intro: that)
qed

lemma retiered_ex:
  assumes "retiered (fst (retierQueued pr i tr c ownerOf b))"
  obtains r b' where "retierQueued pr i tr c ownerOf b = (Retiered r, b')"
proof -
  obtain x b' where x: "retierQueued pr i tr c ownerOf b = (x, b')" by (cases "retierQueued pr i tr c ownerOf b") auto
  with assms have "retiered x" by simp
  with x show thesis by (cases x) (auto intro: that)
qed

lemma example_queue_ok: "queue_ok example_broker"
  by code_simp

lemma example_high_cap: "high_cap_ok (pAlive example_probes) default_cfg example_broker (Some ''repo'')"
  by code_simp

lemma second_accepted: "accepted (fst (enqueue example_probes all_writes default_cfg second_ticket None example_broker))"
  by code_simp

lemma first_retiered: "retiered (fst (retierQueued example_probes ''t1'' High default_cfg (\<lambda>_. None) example_broker))"
  by code_simp

theorem enqueue_appends_once_witness:
  "\<exists>r targets b'. enqueue example_probes all_writes default_cfg second_ticket None example_broker = (Enqueued r targets, b') \<and>
     queueDir b' = [(1, ''t1'', Some example_ticket), (2, ''t2'', Some r)] \<and>
     enqueue example_probes all_writes default_cfg (example_ticket\<lparr>eid := ''t2''\<rparr>) None b' = (Existing PlaceQueued, b')"
proof -
  obtain r targets b' where e: "enqueue example_probes all_writes default_cfg second_ticket None example_broker = (Enqueued r targets, b')"
    by (rule accepted_ex[OF second_accepted])
  have i: "eid second_ticket = ''t2''" "nullish (seqFile example_broker) 0 = 1"
      "queueDir example_broker = [(1, ''t1'', Some example_ticket)]"
    by (simp_all add: second_ticket_def example_broker_def)
  show ?thesis
    using e enqueue_appends_once[OF example_queue_ok e, of example_probes all_writes default_cfg example_ticket None] i by auto
qed

theorem high_cap_is_kept_witness:
  "\<exists>r targets b'. enqueue example_probes all_writes default_cfg second_ticket None example_broker = (Enqueued r targets, b') \<and>
     high_cap_ok (pAlive example_probes) default_cfg b' (Some ''repo'')"
proof -
  obtain r targets b' where e: "enqueue example_probes all_writes default_cfg second_ticket None example_broker = (Enqueued r targets, b')"
    by (rule accepted_ex[OF second_accepted])
  show ?thesis
    using e high_cap_is_kept[OF example_queue_ok example_high_cap, of all_writes second_ticket None r targets b'] by blast
qed

theorem retier_changes_only_the_tier_witness:
  "\<exists>r' b'. retierQueued example_probes ''t1'' High default_cfg (\<lambda>_. None) example_broker = (Retiered r', b') \<and>
     priorityRequested r' = Some High \<and> queue_ok b' \<and> leaseDir b' = leaseDir example_broker"
proof -
  obtain r' b' where e: "retierQueued example_probes ''t1'' High default_cfg (\<lambda>_. None) example_broker = (Retiered r', b')"
    by (rule retiered_ex[OF first_retiered])
  have b: "b'\<lparr>queueDir := queueDir example_broker\<rparr> = example_broker"
    using retier_changes_only_the_tier[OF example_queue_ok e] by blast
  have "leaseDir b' = leaseDir example_broker" using arg_cong[OF b, of leaseDir] by simp
  with e retier_changes_only_the_tier[OF example_queue_ok e] show ?thesis by blast
qed

end
