(* ===== verification/Lock.thy ===== *)
theory Lock
  imports Prelude "HOL-Library.AList"
begin

text \<open>
  The global lock (\<^verbatim>\<open>src/src/state.js\<close>, \<^verbatim>\<open>withLock\<close> and what it calls) and the liveness probes it rests on
  (\<^verbatim>\<open>src/src/process-liveness.js\<close>). The lock is a directory; every file-system call of the protocol is one atomic step, and any
  number of processes interleave them and crash between any two. The operating system (the process table, \<^verbatim>\<open>kill\<close>, \<^verbatim>\<open>ps\<close>) is
  an input that answers truthfully or not at all.
\<close>

section \<open>Liveness probes\<close>

text \<open>The text after the last closing parenthesis, and the state letter that starts it.\<close>

fun after_last_paren :: "string \<Rightarrow> string \<Rightarrow> string" where
  "after_last_paren rest [] = rest"
| "after_last_paren rest (c # cs) = after_last_paren (if c = CHR '')'' then cs else rest) cs"

definition is_blank :: "char \<Rightarrow> bool" where
  "is_blank c \<longleftrightarrow> c \<in> {CHR '' '', CHR 0x09, CHR 0x0A, CHR 0x0B, CHR 0x0C, CHR 0x0D}"

definition procStatState :: "string \<Rightarrow> char option" where
  "procStatState stat =
     (case dropWhile is_blank (after_last_paren stat stat) of
        c # d # _ \<Rightarrow> if d = CHR '' '' then Some c else None
      | _ \<Rightarrow> None)"

text \<open>What one probe of a pid sees: whether \<^verbatim>\<open>kill(pid, 0)\<close> succeeds, and the \<^verbatim>\<open>/proc\<close> line (\<open>None\<close>: not linux, or unreadable).\<close>

record pid_probe =
  killOk :: bool
  procStat :: "string option"

definition isZombie :: "pid_probe \<Rightarrow> bool" where
  "isZombie p = (case procStat p of Some stat \<Rightarrow> procStatState stat = Some CHR ''Z'' | None \<Rightarrow> False)"

definition isPidAlive :: "pid_probe \<Rightarrow> bool" where
  "isPidAlive p \<longleftrightarrow> killOk p \<and> \<not> isZombie p"

text \<open>\<^verbatim>\<open>processStartTime\<close>: the line \<^verbatim>\<open>ps\<close> prints, \<^verbatim>\<open>null\<close> (it ran and found nothing), or \<^verbatim>\<open>undefined\<close> (it could not run).\<close>

datatype start_probe = StartedAt string | NoProcess | ProbeFailed

record ps_run =
  psSpawned :: bool
  psOk :: bool
  psOut :: string

definition trim :: "string \<Rightarrow> string" where
  "trim s = rev (dropWhile is_blank (rev (dropWhile is_blank s)))"

definition processStartTime :: "ps_run \<Rightarrow> start_probe" where
  "processStartTime r =
     (if \<not> psSpawned r then ProbeFailed
      else if \<not> psOk r \<or> trim (psOut r) = [] then NoProcess
      else StartedAt (trim (psOut r)))"

text \<open>
  \<^verbatim>\<open>isProcessAlive\<close>, and \<^verbatim>\<open>isLockOwnerAlive\<close> which asks the same of a lock's owner: the pid is probed, then its start time, then the
  pid again when \<^verbatim>\<open>ps\<close> found nothing.
\<close>

definition isProcessAlive :: "string option \<Rightarrow> pid_probe \<Rightarrow> ps_run \<Rightarrow> pid_probe \<Rightarrow> bool" where
  "isProcessAlive startTime first ps again \<longleftrightarrow>
     isPidAlive first \<and>
     (case startTime of
        None \<Rightarrow> True
      | Some s \<Rightarrow>
          (case processStartTime ps of
             ProbeFailed \<Rightarrow> True
           | NoProcess \<Rightarrow> isPidAlive again
           | StartedAt now \<Rightarrow> now = s))"

record owner =
  ownerPid :: nat
  ownerToken :: nat
  ownerStart :: "string option"

definition isLockOwnerAlive :: "owner option \<Rightarrow> pid_probe \<Rightarrow> ps_run \<Rightarrow> pid_probe \<Rightarrow> bool" where
  "isLockOwnerAlive o' first ps again = (case o' of None \<Rightarrow> False | Some w \<Rightarrow> isProcessAlive (ownerStart w) first ps again)"

text \<open>The process table, and the answers it allows: a probe may fail, but a live process of this user is never reported gone.\<close>

type_synonym ptable = "nat \<Rightarrow> string option"

definition probe_ok :: "ptable \<Rightarrow> nat \<Rightarrow> pid_probe \<Rightarrow> bool" where
  "probe_ok running p pr \<longleftrightarrow> (running p \<noteq> None \<longrightarrow> killOk pr \<and> \<not> isZombie pr)"

definition ps_ok :: "ptable \<Rightarrow> nat \<Rightarrow> ps_run \<Rightarrow> bool" where
  "ps_ok running p r \<longleftrightarrow> (\<forall>s. running p = Some s \<and> processStartTime r \<noteq> ProbeFailed \<and> processStartTime r \<noteq> NoProcess \<longrightarrow> processStartTime r = StartedAt s)"

lemma live_process_seen_alive:
  assumes "running p = Some s" "st = None \<or> st = Some s" "probe_ok running p first" "ps_ok running p ps" "probe_ok running p again"
  shows "isProcessAlive st first ps again"
  using assms by (auto simp: isProcessAlive_def isPidAlive_def probe_ok_def ps_ok_def split: option.splits start_probe.splits)

section \<open>The lock directory\<close>

text \<open>
  A directory holds an owner record (\<open>None\<close>: no readable \<^verbatim>\<open>owner.json\<close>) and the takeover stamp; with neither it is empty. Tombs are named by
  the dead owner's pid and token. Staging and trash directories have fresh random names and are no part of the state.
\<close>

record lock_dir =
  dirOwner :: "owner option"
  dirStamp :: "jsnum option"

definition empty_dir :: lock_dir where
  "empty_dir = \<lparr>dirOwner = None, dirStamp = None\<rparr>"

definition TOMB_TTL_MS :: jsnum where
  "TOMB_TTL_MS = 604800000"

type_synonym tomb_name = "nat \<times> nat"

definition tombPath :: "owner \<Rightarrow> tomb_name" where
  "tombPath w = (ownerPid w, ownerToken w)"

record lock_fs =
  lockDir :: "lock_dir option"
  tombs :: "(tomb_name \<times> lock_dir) list"

text \<open>\<^verbatim>\<open>gcTombs\<close>: a tomb is removed only by its stamp; one without a stamp, or whose removal fails, stays.\<close>

definition gcTombs :: "jsnum \<Rightarrow> (tomb_name \<Rightarrow> bool) \<Rightarrow> lock_fs \<Rightarrow> lock_fs" where
  "gcTombs now rmOk fs =
     fs\<lparr>tombs := filter (\<lambda>(n, d). case dirStamp d of None \<Rightarrow> True | Some s \<Rightarrow> \<not> (now - s > TOMB_TTL_MS \<and> rmOk n)) (tombs fs)\<rparr>"

text \<open>\<^verbatim>\<open>rename(staging, lockDir)\<close>: lands on nothing or on an empty directory.\<close>

definition publish_lock :: "owner \<Rightarrow> lock_fs \<Rightarrow> lock_fs option" where
  "publish_lock w fs =
     (if lockDir fs = None \<or> lockDir fs = Some empty_dir then Some (fs\<lparr>lockDir := Some \<lparr>dirOwner = Some w, dirStamp = None\<rparr>\<rparr>) else None)"

definition read_owner :: "lock_fs \<Rightarrow> owner option" where
  "read_owner fs = (case lockDir fs of Some d \<Rightarrow> dirOwner d | None \<Rightarrow> None)"

definition token_matches :: "owner option \<Rightarrow> nat \<Rightarrow> bool" where
  "token_matches o' tok = (case o' of Some w \<Rightarrow> ownerToken w = tok | None \<Rightarrow> False)"

text \<open>The steps of \<^verbatim>\<open>recoverDeadLock\<close>: stamp, move aside, verify, and put back what should not have moved.\<close>

definition stamp_lock :: "jsnum \<Rightarrow> lock_fs \<Rightarrow> lock_fs option" where
  "stamp_lock at' fs = (case lockDir fs of None \<Rightarrow> None | Some d \<Rightarrow> Some (fs\<lparr>lockDir := Some (d\<lparr>dirStamp := Some at'\<rparr>)\<rparr>))"

definition move_to_tomb :: "owner \<Rightarrow> lock_fs \<Rightarrow> lock_fs option" where
  "move_to_tomb w fs =
     (case lockDir fs of
        None \<Rightarrow> None
      | Some d \<Rightarrow> if map_of (tombs fs) (tombPath w) \<noteq> None then None
                  else Some (fs\<lparr>lockDir := None, tombs := (tombPath w, d) # tombs fs\<rparr>))"

definition tomb_verified :: "owner \<Rightarrow> lock_fs \<Rightarrow> bool" where
  "tomb_verified w fs = (case map_of (tombs fs) (tombPath w) of Some d \<Rightarrow> token_matches (dirOwner d) (ownerToken w) | None \<Rightarrow> False)"

definition restore_tomb :: "owner \<Rightarrow> lock_fs \<Rightarrow> lock_fs option" where
  "restore_tomb w fs =
     (case map_of (tombs fs) (tombPath w) of
        Some d \<Rightarrow> if lockDir fs = None \<or> lockDir fs = Some empty_dir
                  then Some (fs\<lparr>lockDir := Some d, tombs := filter (\<lambda>(n, _). n \<noteq> tombPath w) (tombs fs)\<rparr>) else None
      | None \<Rightarrow> None)"

text \<open>Release: rename the directory away, or, when that fails, unlink its files and then remove it.\<close>

definition release_rename :: "lock_fs \<Rightarrow> lock_fs option" where
  "release_rename fs = (case lockDir fs of None \<Rightarrow> None | Some _ \<Rightarrow> Some (fs\<lparr>lockDir := None\<rparr>))"

definition unlink_files :: "lock_fs \<Rightarrow> lock_fs" where
  "unlink_files fs = (case lockDir fs of None \<Rightarrow> fs | Some _ \<Rightarrow> fs\<lparr>lockDir := Some empty_dir\<rparr>)"

definition remove_dir :: "lock_fs \<Rightarrow> lock_fs" where
  "remove_dir fs = (if lockDir fs = Some empty_dir then fs\<lparr>lockDir := None\<rparr> else fs)"

section \<open>Waiting\<close>

text \<open>What one turn of the acquire loop does after a failed rename, from what it read and the clock.\<close>

datatype wait_step = GiveUp | BackOff | Sleep | Retry

definition UNREADABLE_OWNER_DEADLINES_MAX :: nat where "UNREADABLE_OWNER_DEADLINES_MAX = 3"
definition CONTENTION_BACKOFF_MIN_MS :: jsnum where "CONTENTION_BACKOFF_MIN_MS = 100"
definition CONTENTION_BACKOFF_MAX_MS :: jsnum where "CONTENTION_BACKOFF_MAX_MS = 2000"

definition wait_unreadable :: "bool \<Rightarrow> bool \<Rightarrow> nat \<Rightarrow> wait_step \<times> nat" where
  "wait_unreadable late retry unreadable =
     (if \<not> late then (Sleep, unreadable)
      else if \<not> retry then (GiveUp, unreadable)
      else if unreadable + 1 \<ge> UNREADABLE_OWNER_DEADLINES_MAX then (GiveUp, unreadable + 1) else (BackOff, unreadable + 1))"

definition wait_dead :: "bool \<Rightarrow> bool \<Rightarrow> bool \<Rightarrow> wait_step" where
  "wait_dead won late retry =
     (if won \<and> late \<and> \<not> retry then GiveUp else if won then Retry else if late then GiveUp else Sleep)"

definition wait_live :: "bool \<Rightarrow> bool \<Rightarrow> bool \<Rightarrow> wait_step" where
  "wait_live own late retry = (if \<not> late then Sleep else if \<not> retry \<or> own then GiveUp else BackOff)"

definition next_backoff :: "jsnum \<Rightarrow> jsnum" where
  "next_backoff ceiling' = min (ceiling' * 2) CONTENTION_BACKOFF_MAX_MS"

text \<open>\<^verbatim>\<open>assertLockOrder\<close>: the groups of the locks this context still holds; \<open>False\<close> is the thrown error.\<close>

definition assertLockOrder :: "(string \<times> bool) list \<Rightarrow> string \<Rightarrow> bool" where
  "assertLockOrder handles taken = (List.find (\<lambda>(g, h). h \<and> g \<noteq> taken) handles = None)"

end
