(* ===== verification/Lock_Protocol.thy ===== *)
theory Lock_Protocol
  imports Lock
begin

text \<open>
  The lock as a transition system: any number of \<^verbatim>\<open>withLock\<close> calls (named by their tokens) in any number of processes interleave the
  file-system steps of \<^verbatim>\<open>Lock\<close>, processes crash at any point and pids are reused. The one timing assumption is explicit: a contender that
  has confirmed a dead owner stamps, renames and re-reads the tomb within \<open>delta\<close>, with three times \<open>delta\<close> inside the tomb's lifetime.
\<close>

section \<open>The system\<close>

datatype call_phase =
  Idle | Trying | Looking | Probing owner | Rereading owner | Stamping owner jsnum | Moving owner jsnum | Verifying owner jsnum |
  Restoring owner | Inside | Leaving | Renaming | Falling | Removing | Emptied | Finished | Stranded

record lock_world =
  fsys :: lock_fs
  clock :: jsnum
  running :: ptable
  exited :: "(nat \<times> string) list"
  phase_of :: "nat \<Rightarrow> call_phase"

text \<open>\<open>who\<close> gives the process of a call, \<open>recd\<close> whether it could read its own start time.\<close>

definition owner_rec :: "(nat \<Rightarrow> nat \<times> string) \<Rightarrow> (nat \<Rightarrow> bool) \<Rightarrow> nat \<Rightarrow> owner" where
  "owner_rec who recd t = \<lparr>ownerPid = fst (who t), ownerToken = t, ownerStart = (if recd t then Some (snd (who t)) else None)\<rparr>"

definition alive :: "(nat \<Rightarrow> nat \<times> string) \<Rightarrow> lock_world \<Rightarrow> nat \<Rightarrow> bool" where
  "alive who w t \<longleftrightarrow> running w (fst (who t)) = Some (snd (who t))"

fun after_wait :: "wait_step \<Rightarrow> call_phase" where
  "after_wait GiveUp = Stranded"
| "after_wait _ = Trying"

definition go :: "nat \<Rightarrow> call_phase \<Rightarrow> lock_world \<Rightarrow> lock_world" where
  "go t ph w = w\<lparr>phase_of := (phase_of w)(t := ph)\<rparr>"

text \<open>The turns of a call that touch no shared directory.\<close>

inductive local_turn :: "jsnum \<Rightarrow> lock_world \<Rightarrow> nat \<Rightarrow> call_phase \<Rightarrow> call_phase \<Rightarrow> bool" for delta w t where
  publish_failed: "local_turn delta w t Trying Looking"
| unreadable: "read_owner (fsys w) = None \<Longrightarrow> local_turn delta w t Looking (after_wait (fst (wait_unreadable late retry n)))"
| observe: "read_owner (fsys w) = Some x \<Longrightarrow> local_turn delta w t Looking (Probing x)"
| found_live: "isLockOwnerAlive (Some x) f ps g \<Longrightarrow> local_turn delta w t (Probing x) (after_wait (wait_live own late retry))"
| found_dead: "\<not> isLockOwnerAlive (Some x) f ps g \<Longrightarrow> probe_ok (running w) (ownerPid x) f \<Longrightarrow> ps_ok (running w) (ownerPid x) ps \<Longrightarrow>
    probe_ok (running w) (ownerPid x) g \<Longrightarrow> local_turn delta w t (Probing x) (Rereading x)"
| still_there: "token_matches (read_owner (fsys w)) (ownerToken x) \<Longrightarrow> local_turn delta w t (Rereading x) (Stamping x (clock w))"
| already_gone: "\<not> token_matches (read_owner (fsys w)) (ownerToken x) \<Longrightarrow> local_turn delta w t (Rereading x) (after_wait (wait_dead False late retry))"
| stamp_failed: "local_turn delta w t (Stamping x since) (after_wait (wait_dead False late retry))"
| move_failed: "local_turn delta w t (Moving x since) (after_wait (wait_dead False late retry))"
| verified: "tomb_verified x (fsys w) \<Longrightarrow> local_turn delta w t (Verifying x since) (after_wait (wait_dead True late retry))"
| displaced: "\<not> tomb_verified x (fsys w) \<Longrightarrow> clock w \<le> since + delta \<Longrightarrow> local_turn delta w t (Verifying x since) (Restoring x)"
| restore_failed: "local_turn delta w t (Restoring x) Stranded"
| callback_done: "local_turn delta w t Inside Leaving"
| still_mine: "token_matches (read_owner (fsys w)) t \<Longrightarrow> local_turn delta w t Leaving Renaming"
| not_mine: "\<not> token_matches (read_owner (fsys w)) t \<Longrightarrow> local_turn delta w t Leaving Finished"
| rename_failed: "local_turn delta w t Renaming Falling"
| fall_mine: "token_matches (read_owner (fsys w)) t \<Longrightarrow> local_turn delta w t Falling Removing"
| fall_not_mine: "\<not> token_matches (read_owner (fsys w)) t \<Longrightarrow> local_turn delta w t Falling Finished"
| rmdir_failed: "local_turn delta w t Emptied Finished"

text \<open>The turns that change a directory.\<close>

inductive fs_turn :: "(nat \<Rightarrow> nat \<times> string) \<Rightarrow> (nat \<Rightarrow> bool) \<Rightarrow> jsnum \<Rightarrow> lock_world \<Rightarrow> nat \<Rightarrow> call_phase \<Rightarrow> call_phase \<Rightarrow> lock_fs \<Rightarrow> bool"
  for who recd delta w t where
  collect: "fs_turn who recd delta w t Idle Trying (gcTombs (clock w) rmOk (fsys w))"
| publish: "publish_lock (owner_rec who recd t) (fsys w) = Some fs \<Longrightarrow> fs_turn who recd delta w t Trying Inside fs"
| stamp: "since \<le> s \<Longrightarrow> s \<le> clock w \<Longrightarrow> clock w \<le> since + delta \<Longrightarrow> stamp_lock s (fsys w) = Some fs \<Longrightarrow>
    fs_turn who recd delta w t (Stamping x since) (Moving x since) fs"
| move: "clock w \<le> since + delta \<Longrightarrow> move_to_tomb x (fsys w) = Some fs \<Longrightarrow>
    fs_turn who recd delta w t (Moving x since) (Verifying x since) fs"
| restore: "restore_tomb x (fsys w) = Some fs \<Longrightarrow> fs_turn who recd delta w t (Restoring x) (after_wait (wait_dead False late retry)) fs"
| release: "release_rename (fsys w) = Some fs \<Longrightarrow> fs_turn who recd delta w t Renaming Finished fs"
| unlink: "fs_turn who recd delta w t Removing Emptied (unlink_files (fsys w))"
| rmdir: "fs_turn who recd delta w t Emptied Finished (remove_dir (fsys w))"

inductive lock_step :: "(nat \<Rightarrow> nat \<times> string) \<Rightarrow> (nat \<Rightarrow> bool) \<Rightarrow> jsnum \<Rightarrow> lock_world \<Rightarrow> lock_world \<Rightarrow> bool" for who recd delta where
  tick: "clock w \<le> n \<Longrightarrow> lock_step who recd delta w (w\<lparr>clock := n\<rparr>)"
| crash: "running w p = Some s \<Longrightarrow> lock_step who recd delta w (w\<lparr>running := (running w)(p := None), exited := (p, s) # exited w\<rparr>)"
| spawn: "running w p = None \<Longrightarrow> (p, s) \<notin> set (exited w) \<Longrightarrow> lock_step who recd delta w (w\<lparr>running := (running w)(p \<mapsto> s)\<rparr>)"
| turn: "alive who w t \<Longrightarrow> local_turn delta w t (phase_of w t) ph \<Longrightarrow> lock_step who recd delta w (go t ph w)"
| fs_change: "alive who w t \<Longrightarrow> fs_turn who recd delta w t (phase_of w t) ph fs \<Longrightarrow> lock_step who recd delta w (go t ph (w\<lparr>fsys := fs\<rparr>))"

inductive lock_reach :: "(nat \<Rightarrow> nat \<times> string) \<Rightarrow> (nat \<Rightarrow> bool) \<Rightarrow> jsnum \<Rightarrow> lock_world \<Rightarrow> bool" for who recd delta where
  start: "lock_reach who recd delta \<lparr>fsys = \<lparr>lockDir = None, tombs = []\<rparr>, clock = c, running = r, exited = [], phase_of = (\<lambda>_. Idle)\<rparr>"
| more: "lock_reach who recd delta w \<Longrightarrow> lock_step who recd delta w w' \<Longrightarrow> lock_reach who recd delta w'"

inductive_cases local_turnE: "local_turn delta w t a b"
inductive_cases fs_turnE: "fs_turn who recd delta w t a b fs"

section \<open>The invariant\<close>

fun holds :: "call_phase \<Rightarrow> bool" where
  "holds Inside = True"
| "holds Leaving = True"
| "holds Renaming = True"
| "holds Falling = True"
| "holds Removing = True"
| "holds _ = False"

text \<open>The dead owner a call acts on, and, from the confirmation on, since when.\<close>

fun target :: "call_phase \<Rightarrow> owner option" where
  "target (Rereading x) = Some x"
| "target (Stamping x _) = Some x"
| "target (Moving x _) = Some x"
| "target (Verifying x _) = Some x"
| "target _ = None"

fun window :: "call_phase \<Rightarrow> (owner \<times> jsnum) option" where
  "window (Stamping x s) = Some (x, s)"
| "window (Moving x s) = Some (x, s)"
| "window (Verifying x s) = Some (x, s)"
| "window _ = None"

fun stamped :: "call_phase \<Rightarrow> (owner \<times> jsnum) option" where
  "stamped (Moving x s) = Some (x, s)"
| "stamped _ = None"

fun moved :: "call_phase \<Rightarrow> bool" where
  "moved (Verifying _ _) = True"
| "moved _ = False"

definition dead_owner :: "(nat \<Rightarrow> nat \<times> string) \<Rightarrow> (nat \<Rightarrow> bool) \<Rightarrow> lock_world \<Rightarrow> owner \<Rightarrow> bool" where
  "dead_owner who recd w x \<longleftrightarrow> (\<exists>u. x = owner_rec who recd u \<and> who u \<in> set (exited w))"

definition table_inv :: "(nat \<Rightarrow> nat \<times> string) \<Rightarrow> lock_world \<Rightarrow> bool" where
  "table_inv who w \<longleftrightarrow> (\<forall>p s. running w p = Some s \<longrightarrow> (p, s) \<notin> set (exited w)) \<and>
     (\<forall>t. phase_of w t \<noteq> Idle \<longrightarrow> alive who w t \<or> who t \<in> set (exited w))"

definition holder_inv :: "(nat \<Rightarrow> nat \<times> string) \<Rightarrow> (nat \<Rightarrow> bool) \<Rightarrow> lock_world \<Rightarrow> bool" where
  "holder_inv who recd w \<longleftrightarrow>
     (\<forall>t. alive who w t \<and> holds (phase_of w t) \<longrightarrow> read_owner (fsys w) = Some (owner_rec who recd t)) \<and>
     (\<forall>x. read_owner (fsys w) = Some x \<longrightarrow> (\<exists>t. x = owner_rec who recd t \<and> holds (phase_of w t)))"

definition tomb_inv :: "(nat \<Rightarrow> nat \<times> string) \<Rightarrow> (nat \<Rightarrow> bool) \<Rightarrow> jsnum \<Rightarrow> lock_world \<Rightarrow> bool" where
  "tomb_inv who recd delta w \<longleftrightarrow> distinct (map fst (tombs (fsys w))) \<and>
     (\<forall>n d. map_of (tombs (fsys w)) n = Some d \<longrightarrow> (\<exists>x. dirOwner d = Some x \<and> n = tombPath x \<and> dead_owner who recd w x)) \<and>
     (\<forall>t x since d. window (phase_of w t) = Some (x, since) \<and> map_of (tombs (fsys w)) (tombPath x) = Some d \<longrightarrow>
        (\<exists>s. dirStamp d = Some s \<and> since \<le> s + 2 * delta)) \<and>
     (\<forall>x. read_owner (fsys w) = Some x \<longrightarrow> map_of (tombs (fsys w)) (tombPath x) = None)"

definition recovery_inv :: "(nat \<Rightarrow> nat \<times> string) \<Rightarrow> (nat \<Rightarrow> bool) \<Rightarrow> jsnum \<Rightarrow> lock_world \<Rightarrow> bool" where
  "recovery_inv who recd delta w \<longleftrightarrow>
     (\<forall>t x. target (phase_of w t) = Some x \<longrightarrow> dead_owner who recd w x) \<and>
     (\<forall>t x since. window (phase_of w t) = Some (x, since) \<longrightarrow> since \<le> clock w \<and>
        (clock w \<le> since + delta \<longrightarrow> read_owner (fsys w) = Some x \<and> \<not> moved (phase_of w t) \<or> map_of (tombs (fsys w)) (tombPath x) \<noteq> None)) \<and>
     (\<forall>t x since. stamped (phase_of w t) = Some (x, since) \<and> read_owner (fsys w) = Some x \<longrightarrow>
        (\<exists>d s. lockDir (fsys w) = Some d \<and> dirStamp d = Some s \<and> since \<le> s + delta)) \<and>
     (\<forall>t x. phase_of w t = Probing x \<longrightarrow> (\<exists>u. x = owner_rec who recd u \<and> (alive who w u \<or> who u \<in> set (exited w)))) \<and>
     (\<forall>t x. phase_of w t \<noteq> Restoring x)"

definition lock_inv :: "(nat \<Rightarrow> nat \<times> string) \<Rightarrow> (nat \<Rightarrow> bool) \<Rightarrow> jsnum \<Rightarrow> lock_world \<Rightarrow> bool" where
  "lock_inv who recd delta w \<longleftrightarrow> table_inv who w \<and> holder_inv who recd w \<and> tomb_inv who recd delta w \<and> recovery_inv who recd delta w"

lemma owner_rec_inj [simp]: "owner_rec who recd t = owner_rec who recd u \<longleftrightarrow> t = u"
  by (auto simp: owner_rec_def)

lemma owner_rec_token [simp]: "ownerToken (owner_rec who recd t) = t"
  by (simp add: owner_rec_def)

lemma tombPath_inj: "dead_owner who recd w x \<Longrightarrow> dead_owner who recd w y \<Longrightarrow> tombPath x = tombPath y \<longleftrightarrow> x = y"
  by (auto simp: dead_owner_def tombPath_def)

lemma go_simps [simp]:
  "fsys (go t ph w) = fsys w" "clock (go t ph w) = clock w" "running (go t ph w) = running w" "exited (go t ph w) = exited w"
  "phase_of (go t ph w) = (phase_of w)(t := ph)"
  by (simp_all add: go_def)

lemma after_wait_cases: "after_wait v = Trying \<or> after_wait v = Stranded"
  by (cases v) auto

lemma after_wait_plain [simp]:
  "\<not> holds (after_wait v)" "target (after_wait v) = None" "window (after_wait v) = None" "stamped (after_wait v) = None"
  "\<not> moved (after_wait v)" "after_wait v \<noteq> Restoring x" "Restoring x \<noteq> after_wait v" "after_wait v \<noteq> Probing x" "Probing x \<noteq> after_wait v"
  "after_wait v \<noteq> Idle"
  by (cases v; simp)+

lemma dead_not_alive: "table_inv who w \<Longrightarrow> who u \<in> set (exited w) \<Longrightarrow> \<not> alive who w u"
  by (cases "who u") (auto simp: table_inv_def alive_def)

lemma alive_go [simp]: "alive who (go t ph w) u = alive who w u" "alive who (w\<lparr>fsys := fs\<rparr>) u = alive who w u"
  "alive who (w\<lparr>clock := n\<rparr>) u = alive who w u"
  by (simp_all add: alive_def)

lemma dead_owner_go [simp]: "dead_owner who recd (go t ph w) x = dead_owner who recd w x" "dead_owner who recd (w\<lparr>fsys := fs\<rparr>) x = dead_owner who recd w x"
  "dead_owner who recd (w\<lparr>clock := n\<rparr>) x = dead_owner who recd w x"
  by (simp_all add: dead_owner_def)

text \<open>A truthful probe that finds the owner dead is right: its process has exited.\<close>

lemma found_dead_exited:
  assumes "\<not> isLockOwnerAlive (Some (owner_rec who recd u)) f ps g" "probe_ok (running w) (fst (who u)) f"
    "ps_ok (running w) (fst (who u)) ps" "probe_ok (running w) (fst (who u)) g"
  shows "\<not> alive who w u"
proof
  assume "alive who w u"
  then have "isProcessAlive (ownerStart (owner_rec who recd u)) f ps g"
    using live_process_seen_alive[OF _ _ assms(2,3,4)] by (simp add: alive_def owner_rec_def)
  with assms(1) show False by (simp add: isLockOwnerAlive_def)
qed

lemma recovery_invD:
  assumes "recovery_inv who recd delta w"
  shows "target (phase_of w t) = Some x \<Longrightarrow> dead_owner who recd w x"
    and "window (phase_of w t) = Some (x, since) \<Longrightarrow> since \<le> clock w"
    and "window (phase_of w t) = Some (x, since) \<Longrightarrow> clock w \<le> since + delta \<Longrightarrow>
      read_owner (fsys w) = Some x \<and> \<not> moved (phase_of w t) \<or> map_of (tombs (fsys w)) (tombPath x) \<noteq> None"
    and "stamped (phase_of w t) = Some (x, since) \<Longrightarrow> read_owner (fsys w) = Some x \<Longrightarrow>
      \<exists>d s. lockDir (fsys w) = Some d \<and> dirStamp d = Some s \<and> since \<le> s + delta"
    and "phase_of w t = Probing x \<Longrightarrow> \<exists>u. x = owner_rec who recd u \<and> (alive who w u \<or> who u \<in> set (exited w))"
    and "phase_of w t \<noteq> Restoring x"
  using assms unfolding recovery_inv_def by blast+

lemma recovery_invI:
  assumes "\<And>t x. target (phase_of w t) = Some x \<Longrightarrow> dead_owner who recd w x"
    and "\<And>t x since. window (phase_of w t) = Some (x, since) \<Longrightarrow> since \<le> clock w"
    and "\<And>t x since. window (phase_of w t) = Some (x, since) \<Longrightarrow> clock w \<le> since + delta \<Longrightarrow>
      read_owner (fsys w) = Some x \<and> \<not> moved (phase_of w t) \<or> map_of (tombs (fsys w)) (tombPath x) \<noteq> None"
    and "\<And>t x since. stamped (phase_of w t) = Some (x, since) \<Longrightarrow> read_owner (fsys w) = Some x \<Longrightarrow>
      \<exists>d s. lockDir (fsys w) = Some d \<and> dirStamp d = Some s \<and> since \<le> s + delta"
    and "\<And>t x. phase_of w t = Probing x \<Longrightarrow> \<exists>u. x = owner_rec who recd u \<and> (alive who w u \<or> who u \<in> set (exited w))"
    and "\<And>t x. phase_of w t \<noteq> Restoring x"
  shows "recovery_inv who recd delta w"
  using assms unfolding recovery_inv_def by blast

text \<open>One call changes its phase and perhaps the directories: what is to be shown of that call, and of the directories for the others.\<close>

lemma recovery_go:
  assumes inv: "recovery_inv who recd delta w"
    and own: "\<And>x. target ph = Some x \<Longrightarrow> dead_owner who recd w x"
      "\<And>x since. window ph = Some (x, since) \<Longrightarrow> since \<le> clock w"
      "\<And>x since. window ph = Some (x, since) \<Longrightarrow> clock w \<le> since + delta \<Longrightarrow>
        read_owner fs = Some x \<and> \<not> moved ph \<or> map_of (tombs fs) (tombPath x) \<noteq> None"
      "\<And>x since. stamped ph = Some (x, since) \<Longrightarrow> \<exists>d s. lockDir fs = Some d \<and> dirStamp d = Some s \<and> since \<le> s + delta"
      "\<And>x. ph = Probing x \<Longrightarrow> \<exists>u. x = owner_rec who recd u \<and> (alive who w u \<or> who u \<in> set (exited w))"
      "\<And>x. ph \<noteq> Restoring x"
    and others: "\<And>x. dead_owner who recd w x \<Longrightarrow> read_owner (fsys w) = Some x \<Longrightarrow> read_owner fs = Some x \<or> map_of (tombs fs) (tombPath x) \<noteq> None"
      "\<And>u x since. u \<noteq> t \<Longrightarrow> window (phase_of w u) = Some (x, since) \<Longrightarrow> clock w \<le> since + delta \<Longrightarrow>
        map_of (tombs (fsys w)) (tombPath x) \<noteq> None \<Longrightarrow> map_of (tombs fs) (tombPath x) \<noteq> None"
      "\<And>u x since. u \<noteq> t \<Longrightarrow> stamped (phase_of w u) = Some (x, since) \<Longrightarrow> dead_owner who recd w x \<Longrightarrow> since \<le> clock w \<Longrightarrow>
        read_owner fs = Some x \<Longrightarrow> \<exists>d s. lockDir fs = Some d \<and> dirStamp d = Some s \<and> since \<le> s + delta"
  shows "recovery_inv who recd delta (go t ph (w\<lparr>fsys := fs\<rparr>))"
proof (rule recovery_invI)
  fix u x since
  let ?w = "go t ph (w\<lparr>fsys := fs\<rparr>)"
  note D = recovery_invD[OF inv, where t = u and x = x]
  have dead: "dead_owner who recd w x" if "window (phase_of w u) = Some (x, since) \<or> stamped (phase_of w u) = Some (x, since)"
    using D(1) that by (cases "phase_of w u") auto
  have old: "since \<le> clock w" if "stamped (phase_of w u) = Some (x, since)"
    using D(2) that by (cases "phase_of w u") auto
  show "target (phase_of ?w u) = Some x \<Longrightarrow> dead_owner who recd ?w x" using D(1) own(1) by (cases "u = t") auto
  show "window (phase_of ?w u) = Some (x, since) \<Longrightarrow> since \<le> clock ?w" using D(2) own(2) by (cases "u = t") auto
  show "window (phase_of ?w u) = Some (x, since) \<Longrightarrow> clock ?w \<le> since + delta \<Longrightarrow>
      read_owner (fsys ?w) = Some x \<and> \<not> moved (phase_of ?w u) \<or> map_of (tombs (fsys ?w)) (tombPath x) \<noteq> None"
    using D(3)[of since] own(3)[of x since] others(1)[of x] others(2)[of u x since] dead by (cases "u = t") auto
  show "stamped (phase_of ?w u) = Some (x, since) \<Longrightarrow> read_owner (fsys ?w) = Some x \<Longrightarrow>
      \<exists>d s. lockDir (fsys ?w) = Some d \<and> dirStamp d = Some s \<and> since \<le> s + delta"
    using own(4)[of x since] others(3)[of u x since] dead old by (cases "u = t") auto
  show "phase_of ?w u = Probing x \<Longrightarrow> \<exists>v. x = owner_rec who recd v \<and> (alive who ?w v \<or> who v \<in> set (exited ?w))"
    using D(5) own(5) by (cases "u = t") auto
  show "phase_of ?w u \<noteq> Restoring x" using D(6) own(6) by (cases "u = t") auto
qed

section \<open>Local turns keep the invariant\<close>

text \<open>What a change of one call's phase must satisfy when no directory changes.\<close>

lemma phase_change_inv:
  assumes inv: "lock_inv who recd delta w" and al: "alive who w t"
    and h: "holds ph \<longleftrightarrow> holds (phase_of w t)" and nr: "\<And>x. ph \<noteq> Restoring x"
    and tg: "\<And>x. target ph = Some x \<Longrightarrow> dead_owner who recd w x"
    and wn: "\<And>x s. window ph = Some (x, s) \<Longrightarrow> s = clock w \<and> \<not> moved ph \<and> read_owner (fsys w) = Some x"
    and stp: "stamped ph = None"
    and pb: "\<And>x. ph = Probing x \<Longrightarrow> \<exists>u. x = owner_rec who recd u \<and> (alive who w u \<or> who u \<in> set (exited w))"
  shows "lock_inv who recd delta (go t ph w)"
proof -
  have inv': "table_inv who w" "holder_inv who recd w" "tomb_inv who recd delta w" "recovery_inv who recd delta w"
    using inv by (auto simp: lock_inv_def)
  have "table_inv who (go t ph w)" using inv'(1) al by (auto simp: table_inv_def)
  moreover have "holder_inv who recd (go t ph w)" using inv'(2) h by (auto simp: holder_inv_def)
  moreover have "tomb_inv who recd delta (go t ph w)" using inv'(3) wn by (auto simp: tomb_inv_def)
  moreover have "recovery_inv who recd delta (go t ph (w\<lparr>fsys := fsys w\<rparr>))"
    using recovery_invD(4)[OF inv'(4)] tg wn stp pb nr by (intro recovery_go[OF inv'(4)]) auto
  ultimately show ?thesis by (simp add: lock_inv_def)
qed

lemma holder_go:
  assumes "holder_inv who recd w" "read_owner fs = read_owner (fsys w)" "holds ph \<longleftrightarrow> holds (phase_of w t)"
  shows "holder_inv who recd (go t ph (w\<lparr>fsys := fs\<rparr>))"
proof -
  have "holds (phase_of (go t ph (w\<lparr>fsys := fs\<rparr>)) u) = holds (phase_of w u)" for u using assms(3) by (cases "u = t") auto
  then show ?thesis using assms(1,2) unfolding holder_inv_def by simp
qed

lemma token_owner:
  assumes "holder_inv who recd w" "token_matches (read_owner (fsys w)) u"
  shows "read_owner (fsys w) = Some (owner_rec who recd u)"
  using assms by (auto simp: token_matches_def holder_inv_def split: option.splits)

lemma local_turn_inv:
  assumes inv: "lock_inv who recd delta w" and al: "alive who w t" and tn: "local_turn delta w t (phase_of w t) ph"
  shows "lock_inv who recd delta (go t ph w)"
proof -
  have inv': "table_inv who w" "holder_inv who recd w" "tomb_inv who recd delta w" "recovery_inv who recd delta w"
    using inv by (simp_all add: lock_inv_def)
  have mine: "holds (phase_of w t) \<Longrightarrow> token_matches (read_owner (fsys w)) t"
    using inv'(2) al unfolding holder_inv_def token_matches_def by fastforce
  note D = recovery_invD[OF inv'(4), of t]
  from tn show ?thesis
  proof cases
    case (observe x)
    obtain u where u: "x = owner_rec who recd u" "holds (phase_of w u)"
      using inv'(2) observe(3) unfolding holder_inv_def by blast
    have "phase_of w u \<noteq> Idle" using u(2) by auto
    then have a: "alive who w u \<or> who u \<in> set (exited w)" using inv'(1) unfolding table_inv_def by blast
    show ?thesis using observe(1,2) u(1) a by (intro phase_change_inv[OF inv al]) simp_all
  next
    case (found_dead x f ps g)
    obtain u where u: "x = owner_rec who recd u" "alive who w u \<or> who u \<in> set (exited w)"
      using D(5) found_dead(1) by blast
    have "\<not> alive who w u"
      using found_dead_exited[of who recd u f ps g w] found_dead(3-6) u(1) by (simp add: owner_rec_def)
    then have "dead_owner who recd w x" using u by (auto simp: dead_owner_def)
    then show ?thesis using found_dead(1,2) by (intro phase_change_inv[OF inv al]) simp_all
  next
    case (still_there x)
    have d: "dead_owner who recd w x" using D(1) still_there(1) by simp
    then obtain u where "x = owner_rec who recd u" by (auto simp: dead_owner_def)
    then have "read_owner (fsys w) = Some x" using token_owner[OF inv'(2)] still_there(3) by simp
    then show ?thesis using still_there(1,2) d by (intro phase_change_inv[OF inv al]) simp_all
  next
    case (displaced x since)
    have d: "dead_owner who recd w x" using D(1) displaced(1) by simp
    have "map_of (tombs (fsys w)) (tombPath x) \<noteq> None" using D(3)[of x since] displaced(1,4) by simp
    then obtain td where td: "map_of (tombs (fsys w)) (tombPath x) = Some td" by blast
    obtain y where y: "dirOwner td = Some y" "tombPath x = tombPath y" "dead_owner who recd w y"
      using inv'(3) td unfolding tomb_inv_def by blast
    then have "y = x" using tombPath_inj[OF d y(3)] by simp
    then show ?thesis using td y(1) displaced(3) by (simp add: tomb_verified_def token_matches_def)
  next
    case (restore_failed x)
    then show ?thesis using D(6) by metis
  next
    case not_mine
    then show ?thesis using mine by simp
  next
    case fall_not_mine
    then show ?thesis using mine by simp
  qed (intro phase_change_inv[OF inv al]; simp)+
qed

section \<open>Directory turns keep the invariant\<close>

lemma map_of_filter_distinct:
  "distinct (map fst xs) \<Longrightarrow> map_of (filter P xs) k = (case map_of xs k of Some v \<Rightarrow> if P (k, v) then Some v else None | None \<Rightarrow> None)"
proof (induction xs)
  case (Cons a xs)
  have "map_of xs (fst a) = None" using Cons.prems by (simp add: map_of_eq_None_iff)
  then show ?case using Cons by (auto split: option.splits)
qed simp

lemma lock_invD:
  assumes "lock_inv who recd delta w"
  shows "table_inv who w" "holder_inv who recd w" "tomb_inv who recd delta w" "recovery_inv who recd delta w"
  using assms by (simp_all add: lock_inv_def)

lemma holderD:
  assumes "holder_inv who recd w"
  shows "alive who w t \<Longrightarrow> holds (phase_of w t) \<Longrightarrow> read_owner (fsys w) = Some (owner_rec who recd t)"
    and "read_owner (fsys w) = Some x \<Longrightarrow> \<exists>t. x = owner_rec who recd t \<and> holds (phase_of w t)"
  using assms unfolding holder_inv_def by blast+

lemma tombD:
  assumes "tomb_inv who recd delta w"
  shows "distinct (map fst (tombs (fsys w)))"
    and "map_of (tombs (fsys w)) n = Some d \<Longrightarrow> \<exists>x. dirOwner d = Some x \<and> n = tombPath x \<and> dead_owner who recd w x"
    and "window (phase_of w t) = Some (x, since) \<Longrightarrow> map_of (tombs (fsys w)) (tombPath x) = Some d \<Longrightarrow>
      \<exists>s. dirStamp d = Some s \<and> since \<le> s + 2 * delta"
    and "read_owner (fsys w) = Some x \<Longrightarrow> map_of (tombs (fsys w)) (tombPath x) = None"
  using assms unfolding tomb_inv_def by blast+

lemma tombI:
  assumes "distinct (map fst (tombs (fsys w)))"
    and "\<And>n d. map_of (tombs (fsys w)) n = Some d \<Longrightarrow> \<exists>x. dirOwner d = Some x \<and> n = tombPath x \<and> dead_owner who recd w x"
    and "\<And>t x since d. window (phase_of w t) = Some (x, since) \<Longrightarrow> map_of (tombs (fsys w)) (tombPath x) = Some d \<Longrightarrow>
      \<exists>s. dirStamp d = Some s \<and> since \<le> s + 2 * delta"
    and "\<And>x. read_owner (fsys w) = Some x \<Longrightarrow> map_of (tombs (fsys w)) (tombPath x) = None"
  shows "tomb_inv who recd delta w"
  using assms unfolding tomb_inv_def by blast

lemma alive_not_dead: "table_inv who w \<Longrightarrow> alive who w t \<Longrightarrow> \<not> dead_owner who recd w (owner_rec who recd t)"
  using dead_not_alive by (fastforce simp: dead_owner_def)

text \<open>A plain new phase of a call whose process is alive.\<close>

lemma table_go: "table_inv who w \<Longrightarrow> alive who w t \<Longrightarrow> table_inv who (go t ph (w\<lparr>fsys := fs\<rparr>))"
  by (auto simp: table_inv_def)

text \<open>A holder that lets go: the lock directory has no owner any more.\<close>

lemma let_go_inv:
  assumes inv: "lock_inv who recd delta w" and al: "alive who w t" and h: "holds (phase_of w t)"
    and ph: "ph = Finished \<or> ph = Emptied" and fs: "tombs fs = tombs (fsys w)" "read_owner fs = None"
  shows "lock_inv who recd delta (go t ph (w\<lparr>fsys := fs\<rparr>))"
proof -
  note inv' = lock_invD[OF inv]
  have own: "read_owner (fsys w) = Some (owner_rec who recd t)" by (rule holderD(1)[OF inv'(2) al h])
  have plain: "\<not> holds ph" "target ph = None" "window ph = None" "stamped ph = None" "\<And>x. ph \<noteq> Probing x" "\<And>x. ph \<noteq> Restoring x"
    using ph by auto
  let ?w = "go t ph (w\<lparr>fsys := fs\<rparr>)"
  have "holder_inv who recd ?w"
    using holderD(1)[OF inv'(2)] own plain(1) fs(2) unfolding holder_inv_def by auto
  moreover have "tomb_inv who recd delta ?w"
  proof (rule tombI)
    fix u x since d
    show "window (phase_of ?w u) = Some (x, since) \<Longrightarrow> map_of (tombs (fsys ?w)) (tombPath x) = Some d \<Longrightarrow> \<exists>s. dirStamp d = Some s \<and> since \<le> s + 2 * delta"
      using tombD(3)[OF inv'(3), of u x since d] plain(3) fs(1) by (cases "u = t") auto
  qed (use tombD(1,2)[OF inv'(3)] fs in simp_all)
  moreover have "recovery_inv who recd delta ?w"
    using plain own fs alive_not_dead[OF inv'(1) al, of recd] by (intro recovery_go[OF inv'(4)]) auto
  ultimately show ?thesis using table_go[OF inv'(1) al] by (simp add: lock_inv_def)
qed

lemma publish_inv:
  assumes inv: "lock_inv who recd delta w" and al: "alive who w t" and ph: "phase_of w t = Trying"
    and pub: "publish_lock (owner_rec who recd t) (fsys w) = Some fs"
  shows "lock_inv who recd delta (go t Inside (w\<lparr>fsys := fs\<rparr>))"
proof -
  note inv' = lock_invD[OF inv]
  have no: "read_owner (fsys w) = None" and fs: "read_owner fs = Some (owner_rec who recd t)" "tombs fs = tombs (fsys w)"
    using pub by (auto simp: publish_lock_def read_owner_def empty_dir_def split: if_splits)
  let ?w = "go t Inside (w\<lparr>fsys := fs\<rparr>)"
  have nd: "\<not> dead_owner who recd w (owner_rec who recd t)" by (rule alive_not_dead[OF inv'(1) al])
  have "holder_inv who recd ?w"
    using holderD(1)[OF inv'(2)] no fs(1) unfolding holder_inv_def by auto
  moreover have "tomb_inv who recd delta ?w"
  proof (rule tombI)
    fix u x since d
    show "window (phase_of ?w u) = Some (x, since) \<Longrightarrow> map_of (tombs (fsys ?w)) (tombPath x) = Some d \<Longrightarrow> \<exists>s. dirStamp d = Some s \<and> since \<le> s + 2 * delta"
      using tombD(3)[OF inv'(3), of u x since d] fs(2) by (cases "u = t") auto
    show "map_of (tombs (fsys ?w)) (tombPath x) = None" if "read_owner (fsys ?w) = Some x"
    proof (rule ccontr)
      assume "map_of (tombs (fsys ?w)) (tombPath x) \<noteq> None"
      then obtain td where "map_of (tombs (fsys w)) (tombPath x) = Some td" using fs(2) by auto
      then obtain y where "tombPath x = tombPath y" "dead_owner who recd w y" using tombD(2)[OF inv'(3)] by blast
      then show False using that fs(1) nd by (auto simp: dead_owner_def tombPath_def)
    qed
  qed (use tombD(1,2)[OF inv'(3)] fs in simp_all)
  moreover have "recovery_inv who recd delta ?w"
    using no nd fs by (intro recovery_go[OF inv'(4)]) auto
  ultimately show ?thesis using table_go[OF inv'(1) al] by (simp add: lock_inv_def)
qed

lemma stamp_inv:
  assumes inv: "lock_inv who recd delta w" and al: "alive who w t" and ph: "phase_of w t = Stamping x since"
    and s: "since \<le> s" "s \<le> clock w" "clock w \<le> since + delta" and st: "stamp_lock s (fsys w) = Some fs"
  shows "lock_inv who recd delta (go t (Moving x since) (w\<lparr>fsys := fs\<rparr>))"
proof -
  note inv' = lock_invD[OF inv]
  let ?w = "go t (Moving x since) (w\<lparr>fsys := fs\<rparr>)"
  obtain d where d: "lockDir (fsys w) = Some d" "fs = (fsys w)\<lparr>lockDir := Some (d\<lparr>dirStamp := Some s\<rparr>)\<rparr>"
    using st by (auto simp: stamp_lock_def split: option.splits)
  have fs: "read_owner fs = read_owner (fsys w)" "tombs fs = tombs (fsys w)" using d by (simp_all add: read_owner_def)
  note D = recovery_invD[OF inv'(4), of t x]
  have "holder_inv who recd ?w" using holder_go[OF inv'(2) fs(1)] ph by simp
  moreover have "tomb_inv who recd delta ?w"
    using tombD[OF inv'(3)] tombD(3)[OF inv'(3), of t x since] fs ph by (intro tombI) (auto split: if_splits)
  moreover have "recovery_inv who recd delta ?w"
    using D(1) D(2,3)[of since] ph fs d s by (intro recovery_go[OF inv'(4)]) (auto split: if_splits)
  ultimately show ?thesis using table_go[OF inv'(1) al] by (simp add: lock_inv_def)
qed

lemma move_inv:
  assumes inv: "lock_inv who recd delta w" and al: "alive who w t" and ph: "phase_of w t = Moving x since"
    and prompt: "clock w \<le> since + delta" and mv: "move_to_tomb x (fsys w) = Some fs"
  shows "lock_inv who recd delta (go t (Verifying x since) (w\<lparr>fsys := fs\<rparr>))"
proof -
  note inv' = lock_invD[OF inv]
  let ?w = "go t (Verifying x since) (w\<lparr>fsys := fs\<rparr>)"
  note D = recovery_invD[OF inv'(4)]
  obtain d where d: "lockDir (fsys w) = Some d" "map_of (tombs (fsys w)) (tombPath x) = None"
      and fs: "fs = (fsys w)\<lparr>lockDir := None, tombs := (tombPath x, d) # tombs (fsys w)\<rparr>"
    using mv by (auto simp: move_to_tomb_def split: option.splits if_splits)
  have dead: "dead_owner who recd w x" and own: "read_owner (fsys w) = Some x" and old: "since \<le> clock w"
    using D(1)[of t x] D(2,3)[of t x since] ph prompt d(2) by auto
  have none: "read_owner fs = None" using fs by (simp add: read_owner_def)
  obtain s where s: "dirStamp d = Some s" "since \<le> s + delta" using D(4)[of t x since] ph own d(1) by auto
  have live: "\<not> (alive who w u \<and> holds (phase_of w u))" for u
    using holderD(1)[OF inv'(2), of u] own dead alive_not_dead[OF inv'(1), of u recd] by auto
  have "holder_inv who recd ?w" using live none unfolding holder_inv_def by (auto split: if_splits)
  moreover have "tomb_inv who recd delta ?w"
  proof (rule tombI)
    show "distinct (map fst (tombs (fsys ?w)))" using tombD(1)[OF inv'(3)] d(2) fs by (auto simp: map_of_eq_None_iff)
    show "\<exists>y. dirOwner e = Some y \<and> n = tombPath y \<and> dead_owner who recd ?w y" if "map_of (tombs (fsys ?w)) n = Some e" for n e
      using that tombD(2)[OF inv'(3), of n e] fs dead own d(1) by (auto simp: read_owner_def split: if_splits)
    show "\<exists>s. dirStamp e = Some s \<and> since' \<le> s + 2 * delta"
      if "window (phase_of ?w u) = Some (y, since')" "map_of (tombs (fsys ?w)) (tombPath y) = Some e" for u y since' e
    proof (cases "tombPath y = tombPath x")
      case True
      have "since' \<le> clock w" using that(1) old D(2)[of u y since'] by (cases "u = t") auto
      then show ?thesis using True that(2) fs s prompt by auto
    next
      case False
      then have "u \<noteq> t" "map_of (tombs (fsys w)) (tombPath y) = Some e" using that fs by (auto split: if_splits)
      then show ?thesis using tombD(3)[OF inv'(3), of u y since' e] that(1) by simp
    qed
  qed (use none in simp)
  moreover have "recovery_inv who recd delta ?w"
    using dead old own none fs by (intro recovery_go[OF inv'(4)]) auto
  ultimately show ?thesis using table_go[OF inv'(1) al] by (simp add: lock_inv_def)
qed

lemma collect_inv:
  assumes inv: "lock_inv who recd delta w" and al: "alive who w t" and ph: "phase_of w t = Idle" and ttl: "3 * delta \<le> TOMB_TTL_MS"
  shows "lock_inv who recd delta (go t Trying (w\<lparr>fsys := gcTombs (clock w) rmOk (fsys w)\<rparr>))"
proof -
  note inv' = lock_invD[OF inv]
  let ?fs = "gcTombs (clock w) rmOk (fsys w)"
  let ?w = "go t Trying (w\<lparr>fsys := ?fs\<rparr>)"
  have ro: "read_owner ?fs = read_owner (fsys w)" "lockDir ?fs = lockDir (fsys w)" by (simp_all add: gcTombs_def read_owner_def)
  have tm: "map_of (tombs ?fs) n = (case map_of (tombs (fsys w)) n of
      Some d \<Rightarrow> if (case dirStamp d of None \<Rightarrow> True | Some s \<Rightarrow> \<not> (clock w - s > TOMB_TTL_MS \<and> rmOk n)) then Some d else None | None \<Rightarrow> None)" for n
    using map_of_filter_distinct[OF tombD(1)[OF inv'(3)]] by (simp add: gcTombs_def split: option.splits)
  have sub: "map_of (tombs ?fs) n = Some d \<Longrightarrow> map_of (tombs (fsys w)) n = Some d" for n d
    using tm by (auto split: option.splits if_splits)
  have keep: "map_of (tombs ?fs) (tombPath x) \<noteq> None"
    if a: "window (phase_of w u) = Some (x, since)" "clock w \<le> since + delta" "map_of (tombs (fsys w)) (tombPath x) \<noteq> None" for u x since
  proof -
    obtain d where d: "map_of (tombs (fsys w)) (tombPath x) = Some d" using a(3) by blast
    obtain s where s: "dirStamp d = Some s" "since \<le> s + 2 * delta" using tombD(3)[OF inv'(3) a(1) d] by blast
    have "\<not> clock w - s > TOMB_TTL_MS" using s(2) a(2) ttl by simp
    then show ?thesis using tm d s(1) by simp
  qed
  have "holder_inv who recd ?w" using holder_go[OF inv'(2) ro(1)] ph by simp
  moreover have "tomb_inv who recd delta ?w"
  proof (rule tombI)
    show "distinct (map fst (tombs (fsys ?w)))" using tombD(1)[OF inv'(3)] by (simp add: gcTombs_def distinct_map_filter)
    show "\<exists>x. dirOwner d = Some x \<and> n = tombPath x \<and> dead_owner who recd ?w x" if "map_of (tombs (fsys ?w)) n = Some d" for n d
      using tombD(2)[OF inv'(3) sub] that by simp
    show "\<exists>s. dirStamp d = Some s \<and> since \<le> s + 2 * delta"
      if "window (phase_of ?w u) = Some (x, since)" "map_of (tombs (fsys ?w)) (tombPath x) = Some d" for u x since d
      using tombD(3)[OF inv'(3), of u x since d] sub that by (cases "u = t") auto
    show "map_of (tombs (fsys ?w)) (tombPath x) = None" if "read_owner (fsys ?w) = Some x" for x
      using tombD(4)[OF inv'(3), of x] tm that ro(1) by simp
  qed
  moreover have "recovery_inv who recd delta ?w"
    using keep ro recovery_invD(4)[OF inv'(4)] by (intro recovery_go[OF inv'(4)]) auto
  ultimately show ?thesis using table_go[OF inv'(1) al] by (simp add: lock_inv_def)
qed

lemma rmdir_inv:
  assumes inv: "lock_inv who recd delta w" and al: "alive who w t" and ph: "phase_of w t = Emptied"
  shows "lock_inv who recd delta (go t Finished (w\<lparr>fsys := remove_dir (fsys w)\<rparr>))"
proof -
  note inv' = lock_invD[OF inv]
  let ?w = "go t Finished (w\<lparr>fsys := remove_dir (fsys w)\<rparr>)"
  have ro: "read_owner (remove_dir (fsys w)) = read_owner (fsys w)" "tombs (remove_dir (fsys w)) = tombs (fsys w)"
    and ld: "read_owner (fsys w) \<noteq> None \<Longrightarrow> lockDir (remove_dir (fsys w)) = lockDir (fsys w)"
    by (auto simp: remove_dir_def read_owner_def empty_dir_def split: option.splits)
  have "holder_inv who recd ?w" using holder_go[OF inv'(2) ro(1)] ph by simp
  moreover have "tomb_inv who recd delta ?w"
    using tombD[OF inv'(3)] ro by (intro tombI) (auto split: if_splits)
  moreover have "\<exists>d s. lockDir (remove_dir (fsys w)) = Some d \<and> dirStamp d = Some s \<and> since \<le> s + delta"
    if a: "stamped (phase_of w u) = Some (x, since)" "read_owner (remove_dir (fsys w)) = Some x" for u x since
    using recovery_invD(4)[OF inv'(4) a(1)] a(2) ro(1) ld by simp
  then have "recovery_inv who recd delta ?w" using ro by (intro recovery_go[OF inv'(4)]) auto
  ultimately show ?thesis using table_go[OF inv'(1) al] by (simp add: lock_inv_def)
qed

section \<open>Every step keeps the invariant\<close>

lemma fs_turn_inv:
  assumes inv: "lock_inv who recd delta w" and al: "alive who w t" and tn: "fs_turn who recd delta w t (phase_of w t) ph fs"
    and ttl: "3 * delta \<le> TOMB_TTL_MS"
  shows "lock_inv who recd delta (go t ph (w\<lparr>fsys := fs\<rparr>))"
  using tn
proof cases
  case (collect rmOk)
  then show ?thesis using collect_inv[OF inv al _ ttl] by simp
next
  case publish
  then show ?thesis using publish_inv[OF inv al] by simp
next
  case (stamp since s x)
  then show ?thesis using stamp_inv[OF inv al] by simp
next
  case (move since x)
  then show ?thesis using move_inv[OF inv al] by simp
next
  case (restore x late retry)
  then show ?thesis using recovery_invD(6)[OF lock_invD(4)[OF inv], of t x] by simp
next
  case release
  then show ?thesis by (intro let_go_inv[OF inv al]) (auto simp: release_rename_def read_owner_def split: option.splits)
next
  case unlink
  then show ?thesis by (intro let_go_inv[OF inv al]) (auto simp: unlink_files_def read_owner_def empty_dir_def split: option.splits)
next
  case rmdir
  then show ?thesis using rmdir_inv[OF inv al] by simp
qed

lemma tick_inv:
  assumes inv: "lock_inv who recd delta w" and n: "clock w \<le> n"
  shows "lock_inv who recd delta (w\<lparr>clock := n\<rparr>)"
proof -
  note inv' = lock_invD[OF inv]
  let ?w = "w\<lparr>clock := n\<rparr>"
  have "recovery_inv who recd delta ?w"
  proof (rule recovery_invI)
    fix t x since
    note D = recovery_invD[OF inv'(4), where t = t and x = x]
    show "window (phase_of ?w t) = Some (x, since) \<Longrightarrow> since \<le> clock ?w" using D(2)[of since] n by simp
    show "window (phase_of ?w t) = Some (x, since) \<Longrightarrow> clock ?w \<le> since + delta \<Longrightarrow>
        read_owner (fsys ?w) = Some x \<and> \<not> moved (phase_of ?w t) \<or> map_of (tombs (fsys ?w)) (tombPath x) \<noteq> None"
      using D(3)[of since] n by simp
  qed (use recovery_invD[OF inv'(4)] in simp_all)
  moreover have "table_inv who ?w" "holder_inv who recd ?w" "tomb_inv who recd delta ?w"
    using inv'(1-3) by (simp_all add: table_inv_def holder_inv_def tomb_inv_def)
  ultimately show ?thesis by (simp add: lock_inv_def)
qed

lemma dead_owner_mono: "set (exited w) \<subseteq> set (exited w') \<Longrightarrow> dead_owner who recd w x \<Longrightarrow> dead_owner who recd w' x"
  by (auto simp: dead_owner_def)

text \<open>A change of the process table that kills or starts one process.\<close>

lemma process_inv:
  assumes inv: "lock_inv who recd delta w" and w': "w' = w\<lparr>running := r, exited := ex\<rparr>" and sub: "set (exited w) \<subseteq> set ex"
    and tb: "table_inv who w'" and al: "\<And>t. alive who w' t \<Longrightarrow> phase_of w t \<noteq> Idle \<Longrightarrow> alive who w t"
    and gone: "\<And>t. alive who w t \<Longrightarrow> alive who w' t \<or> who t \<in> set ex"
  shows "lock_inv who recd delta w'"
proof -
  note inv' = lock_invD[OF inv]
  have fw: "fsys w' = fsys w" "clock w' = clock w" "phase_of w' = phase_of w" "exited w' = ex" using w' by simp_all
  have d: "dead_owner who recd w x \<Longrightarrow> dead_owner who recd w' x" for x using dead_owner_mono sub fw(4) by metis
  have hl: "holds (phase_of w t) \<Longrightarrow> phase_of w t \<noteq> Idle" for t by auto
  have "holder_inv who recd w'" using holderD[OF inv'(2)] al hl unfolding holder_inv_def fw by blast
  moreover have "tomb_inv who recd delta w'" using tombD[OF inv'(3)] d by (intro tombI) (simp_all add: fw, blast)
  moreover have "recovery_inv who recd delta w'"
  proof (rule recovery_invI)
    fix t x
    show "\<exists>u. x = owner_rec who recd u \<and> (alive who w' u \<or> who u \<in> set (exited w'))" if "phase_of w' t = Probing x"
      using recovery_invD(5)[OF inv'(4), of t x] that gone sub fw by auto
  qed (use recovery_invD[OF inv'(4)] d fw in simp_all)
  ultimately show ?thesis using tb by (simp add: lock_inv_def)
qed

lemma crash_inv:
  assumes inv: "lock_inv who recd delta w" and p: "running w p = Some s"
  shows "lock_inv who recd delta (w\<lparr>running := (running w)(p := None), exited := (p, s) # exited w\<rparr>)"
proof (rule process_inv[OF inv refl])
  let ?w = "w\<lparr>running := (running w)(p := None), exited := (p, s) # exited w\<rparr>"
  have gone: "alive who ?w t \<or> who t \<in> set ((p, s) # exited w)" if "alive who w t" for t
    using that p by (cases "who t") (auto simp: alive_def)
  then show "alive who w t \<Longrightarrow> alive who ?w t \<or> who t \<in> set ((p, s) # exited w)" for t .
  show "alive who ?w t \<Longrightarrow> phase_of w t \<noteq> Idle \<Longrightarrow> alive who w t" for t by (auto simp: alive_def split: if_splits)
  show "table_inv who ?w" using lock_invD(1)[OF inv] gone p unfolding table_inv_def by (fastforce split: if_splits)
qed auto

lemma spawn_inv:
  assumes inv: "lock_inv who recd delta w" and p: "running w p = None" "(p, s) \<notin> set (exited w)"
  shows "lock_inv who recd delta (w\<lparr>running := (running w)(p \<mapsto> s)\<rparr>)"
proof -
  let ?w = "w\<lparr>running := (running w)(p \<mapsto> s)\<rparr>"
  have old: "alive who ?w t" if "alive who w t" for t using that p(1) by (auto simp: alive_def)
  have new: "alive who w t" if "alive who ?w t" "phase_of w t \<noteq> Idle" for t
  proof -
    have "alive who w t \<or> who t \<in> set (exited w)" using lock_invD(1)[OF inv] that(2) unfolding table_inv_def by blast
    moreover have "who t \<notin> set (exited w)" if "fst (who t) = p"
      using \<open>alive who ?w t\<close> that p(2) by (cases "who t") (auto simp: alive_def)
    ultimately show ?thesis using that(1) by (auto simp: alive_def split: if_splits)
  qed
  have "table_inv who ?w" using lock_invD(1)[OF inv] old p(2) unfolding table_inv_def by (auto split: if_splits)
  then show ?thesis using new old by (intro process_inv[OF inv, where r = "(running w)(p \<mapsto> s)" and ex = "exited w"]) auto
qed

lemma lock_step_inv:
  assumes "lock_step who recd delta w w'" "lock_inv who recd delta w" "3 * delta \<le> TOMB_TTL_MS"
  shows "lock_inv who recd delta w'"
  using assms
  by (cases rule: lock_step.cases) (simp_all add: tick_inv crash_inv spawn_inv local_turn_inv fs_turn_inv)

lemma lock_reach_inv:
  assumes "lock_reach who recd delta w" "3 * delta \<le> TOMB_TTL_MS"
  shows "lock_inv who recd delta w"
  using assms(1)
proof induction
  case (start c r)
  show ?case by (simp add: lock_inv_def table_inv_def holder_inv_def tomb_inv_def recovery_inv_def read_owner_def)
next
  case (more w w')
  then show ?case using lock_step_inv assms(2) by blast
qed

section \<open>Recovery of a dead lock\<close>

abbreviation lock_steps :: "(nat \<Rightarrow> nat \<times> string) \<Rightarrow> (nat \<Rightarrow> bool) \<Rightarrow> jsnum \<Rightarrow> lock_world \<Rightarrow> lock_world \<Rightarrow> bool" where
  "lock_steps who recd delta \<equiv> (lock_step who recd delta)\<^sup>*\<^sup>*"

lemma turns: "alive who w t \<Longrightarrow> phase_of w t = a \<Longrightarrow> local_turn delta w t a ph \<Longrightarrow> lock_steps who recd delta (go t ph w) w' \<Longrightarrow> lock_steps who recd delta w w'"
  by (metis converse_rtranclp_into_rtranclp lock_step.turn)

lemma fs_turns:
  "alive who w t \<Longrightarrow> phase_of w t = a \<Longrightarrow> fs_turn who recd delta w t a ph fs \<Longrightarrow> lock_steps who recd delta (go t ph (w\<lparr>fsys := fs\<rparr>)) w' \<Longrightarrow>
   lock_steps who recd delta w w'"
  by (metis converse_rtranclp_into_rtranclp lock_step.fs_change)

lemma acquire_free:
  assumes "alive who w t" "phase_of w t = Trying" "lockDir (fsys w) = None"
  shows "\<exists>w'. lock_steps who recd delta w w' \<and> phase_of w' t = Inside \<and> read_owner (fsys w') = Some (owner_rec who recd t)"
proof -
  let ?fs = "(fsys w)\<lparr>lockDir := Some \<lparr>dirOwner = Some (owner_rec who recd t), dirStamp = None\<rparr>\<rparr>"
  have "publish_lock (owner_rec who recd t) (fsys w) = Some ?fs" using assms(3) by (simp add: publish_lock_def)
  then have "lock_step who recd delta w (go t Inside (w\<lparr>fsys := ?fs\<rparr>))"
    using lock_step.fs_change[OF assms(1)] fs_turn.publish assms(2) by metis
  then show ?thesis by (intro exI[of _ "go t Inside (w\<lparr>fsys := ?fs\<rparr>)"]) (auto simp: read_owner_def)
qed

text \<open>From the confirmation that the owner is dead: stamp, move, verify, and try again on a free path.\<close>

lemma move_aside:
  assumes al: "alive who w t" and ph: "phase_of w t = Stamping x (clock w)" and d: "lockDir (fsys w) = Some d" "dirOwner d = Some x"
    and free: "map_of (tombs (fsys w)) (tombPath x) = None" and delta: "0 \<le> delta"
  shows "\<exists>w'. lock_steps who recd delta w w' \<and> alive who w' t \<and> phase_of w' t = Trying \<and> lockDir (fsys w') = None"
proof -
  let ?f1 = "(fsys w)\<lparr>lockDir := Some (d\<lparr>dirStamp := Some (clock w)\<rparr>)\<rparr>"
  let ?w1 = "go t (Moving x (clock w)) (w\<lparr>fsys := ?f1\<rparr>)"
  let ?f2 = "?f1\<lparr>lockDir := None, tombs := (tombPath x, d\<lparr>dirStamp := Some (clock w)\<rparr>) # tombs (fsys w)\<rparr>"
  let ?w2 = "go t (Verifying x (clock w)) (?w1\<lparr>fsys := ?f2\<rparr>)"
  let ?w3 = "go t Trying ?w2"
  have 1: "fs_turn who recd delta w t (Stamping x (clock w)) (Moving x (clock w)) ?f1"
    using d(1) delta by (intro fs_turn.stamp[of _ "clock w"]) (simp_all add: stamp_lock_def)
  have 2: "fs_turn who recd delta ?w1 t (Moving x (clock w)) (Verifying x (clock w)) ?f2"
    using free delta by (intro fs_turn.move) (simp_all add: move_to_tomb_def)
  have "tomb_verified x (fsys ?w2)" using d(2) by (simp add: tomb_verified_def token_matches_def)
  then have 3: "local_turn delta ?w2 t (Verifying x (clock w)) Trying"
    using local_turn.verified[of x ?w2 delta t "clock w" False False] by (simp add: wait_dead_def)
  have "lock_steps who recd delta w ?w3"
    using al ph by (intro fs_turns[OF al ph 1] fs_turns[OF _ _ 2] turns[OF _ _ 3]) simp_all
  then show ?thesis using al by (intro exI[of _ ?w3]) simp
qed

section \<open>Properties\<close>

text \<open>
  C3. Mutual exclusion. Whatever the interleaving of \<^verbatim>\<open>withLock\<close> calls, however many processes crash and pids are reused, two live
  calls are never inside their callbacks together, provided no recovery attempt takes more than a third of the tomb lifetime between
  confirming the dead owner and re-reading the tomb it made.
\<close>

theorem lock_mutual_exclusion:
  assumes "lock_reach who recd delta w" and "3 * delta \<le> TOMB_TTL_MS" and "phase_of w t = Inside" and "alive who w t"
    and "phase_of w u = Inside" and "alive who w u"
  shows "t = u"
proof -
  have h: "holder_inv who recd w" using lock_reach_inv[OF assms(1,2)] by (simp add: lock_inv_def)
  show ?thesis using holderD(1)[OF h, of t] holderD(1)[OF h, of u] assms(3-6) by simp
qed

text \<open>
  A live holder is never displaced. In every reachable state the lock directory of a live call, from its acquisition until its release,
  carries that call's own record; no takeover has moved it, and the branch that would have to put a displaced live lock back is never reached.
\<close>

theorem live_holder_keeps_lock:
  assumes "lock_reach who recd delta w" and "3 * delta \<le> TOMB_TTL_MS"
  shows "(alive who w t \<and> holds (phase_of w t) \<longrightarrow> read_owner (fsys w) = Some (owner_rec who recd t)) \<and>
    (\<forall>u x. phase_of w u \<noteq> Restoring x)"
proof -
  note inv = lock_invD[OF lock_reach_inv[OF assms]]
  show ?thesis using holderD(1)[OF inv(2)] recovery_invD(6)[OF inv(4)] by blast
qed


section \<open>Witnesses\<close>

definition example_who :: "nat \<Rightarrow> nat \<times> string" where
  "example_who t = (if t = 0 then (1, ''a'') else (2, ''b''))"

definition example_fs :: lock_fs where
  "example_fs = \<lparr>lockDir = Some \<lparr>dirOwner = Some (owner_rec example_who (\<lambda>_. True) 0), dirStamp = None\<rparr>, tombs = []\<rparr>"

text \<open>Call 0 of process 1 is inside; then process 1 crashes and call 1 of process 2 starts trying.\<close>

definition example_inside :: lock_world where
  "example_inside = \<lparr>fsys = example_fs, clock = 0, running = [1 \<mapsto> ''a'', 2 \<mapsto> ''b''], exited = [], phase_of = (\<lambda>_. Idle)(0 := Inside)\<rparr>"

definition example_crashed :: lock_world where
  "example_crashed = \<lparr>fsys = example_fs, clock = 0, running = [1 \<mapsto> ''a'', 2 \<mapsto> ''b''](1 := None), exited = [(1, ''a'')],
     phase_of = ((\<lambda>_. Idle)(0 := Inside))(1 := Trying)\<rparr>"

lemma example_inside_reached: "lock_reach example_who (\<lambda>_. True) 1000 example_inside"
proof -
  let ?w0 = "\<lparr>fsys = \<lparr>lockDir = None, tombs = []\<rparr>, clock = 0, running = [1 \<mapsto> ''a'', 2 \<mapsto> ''b''], exited = [], phase_of = (\<lambda>_. Idle)\<rparr>"
  let ?w1 = "go 0 Trying (?w0\<lparr>fsys := gcTombs (clock ?w0) (\<lambda>_. True) (fsys ?w0)\<rparr>)"
  have al: "alive example_who ?w0 0" "alive example_who ?w1 0" by (simp_all add: alive_def example_who_def)
  have 0: "lock_reach example_who (\<lambda>_. True) 1000 ?w0" by (rule lock_reach.start)
  have "fs_turn example_who (\<lambda>_. True) 1000 ?w0 0 (phase_of ?w0 0) Trying (gcTombs (clock ?w0) (\<lambda>_. True) (fsys ?w0))"
    using fs_turn.collect[of example_who "\<lambda>_. True" 1000 ?w0 0 "\<lambda>_. True"] by simp
  then have 1: "lock_reach example_who (\<lambda>_. True) 1000 ?w1" using lock_reach.more[OF 0] lock_step.fs_change al(1) by blast
  have p: "publish_lock (owner_rec example_who (\<lambda>_. True) 0) (fsys ?w1) = Some example_fs"
    by (simp add: publish_lock_def example_fs_def gcTombs_def)
  have "fs_turn example_who (\<lambda>_. True) 1000 ?w1 0 (phase_of ?w1 0) Inside example_fs"
    using fs_turn.publish[OF p] by simp
  then have "lock_reach example_who (\<lambda>_. True) 1000 (go 0 Inside (?w1\<lparr>fsys := example_fs\<rparr>))"
    using lock_reach.more[OF 1] lock_step.fs_change al(2) by blast
  then show ?thesis by (simp add: example_inside_def go_def)
qed

lemma example_crashed_reached: "lock_reach example_who (\<lambda>_. True) 1000 example_crashed"
proof -
  let ?w = "example_inside\<lparr>running := (running example_inside)(1 := None), exited := (1, ''a'') # exited example_inside\<rparr>"
  have "running example_inside 1 = Some ''a''" by (simp add: example_inside_def)
  then have 1: "lock_reach example_who (\<lambda>_. True) 1000 ?w"
    using lock_reach.more[OF example_inside_reached] lock_step.crash by blast
  have fs: "gcTombs (clock ?w) (\<lambda>_. True) (fsys ?w) = example_fs" by (simp add: gcTombs_def example_inside_def example_fs_def)
  have "fs_turn example_who (\<lambda>_. True) 1000 ?w 1 (phase_of ?w 1) Trying (gcTombs (clock ?w) (\<lambda>_. True) (fsys ?w))"
    using fs_turn.collect[of example_who "\<lambda>_. True" 1000 ?w 1 "\<lambda>_. True"] by (simp add: example_inside_def)
  moreover have "alive example_who ?w 1" by (simp add: alive_def example_who_def example_inside_def)
  ultimately have "lock_reach example_who (\<lambda>_. True) 1000 (go 1 Trying (?w\<lparr>fsys := example_fs\<rparr>))"
    using lock_reach.more[OF 1] lock_step.fs_change unfolding fs by blast
  then show ?thesis by (simp add: example_crashed_def example_inside_def go_def)
qed

lemma example_ttl: "3 * 1000 \<le> TOMB_TTL_MS"
  by (simp add: TOMB_TTL_MS_def)

theorem lock_mutual_exclusion_witness:
  "phase_of example_inside 0 = Inside \<and> phase_of example_inside 1 \<noteq> Inside"
proof -
  have in0: "phase_of example_inside 0 = Inside" and al: "alive example_who example_inside 0" "alive example_who example_inside 1"
    by (simp_all add: example_inside_def alive_def example_who_def)
  have "phase_of example_inside 1 \<noteq> Inside"
    using lock_mutual_exclusion[OF example_inside_reached example_ttl in0 al(1), of 1] al(2) by auto
  with in0 show ?thesis by blast
qed

theorem live_holder_keeps_lock_witness: "read_owner (fsys example_inside) = Some (owner_rec example_who (\<lambda>_. True) 0)"
  using live_holder_keeps_lock[OF example_inside_reached example_ttl, of 0] by (simp add: example_inside_def alive_def example_who_def)


end
