(* ===== verification/Reader.thy ===== *)
theory Reader
  imports Prelude
begin

text \<open>
  The buffered reader of the snapshot and artifact streams (\<^verbatim>\<open>makeReader\<close> in \<^verbatim>\<open>src/src/remote-stream.js\<close>): chunks arrive in any sizes and are
  queued; lines and bodies are cut out of the queue. The specification is a reader of one flat byte string; the refinement shows that what is
  read never depends on where the chunks were cut. Consuming the queue by index with occasional compaction is an optimisation of
  dropping its first chunks, which is what the model does.
\<close>

definition NEWLINE :: char where "NEWLINE = CHR 0x0A"

text \<open>A read gives a value, meets the end of the stream, or fails (an over-long line, or an error of the underlying stream).\<close>

datatype 'a read = Got 'a | Eof | Failed

section \<open>The reader\<close>

record reader =
  queue :: "string list"
  queued :: nat
  newline :: "nat option"
  source :: "string list"
  sourceFails :: bool

definition makeReader :: "string list \<Rightarrow> bool \<Rightarrow> reader" where
  "makeReader chunks fails = \<lparr>queue = [], queued = 0, newline = None, source = chunks, sourceFails = fails\<rparr>"

text \<open>\<^verbatim>\<open>indexOf(NEWLINE)\<close> in a chunk, and the first newline over the queued chunks.\<close>

fun index_of :: "char \<Rightarrow> string \<Rightarrow> nat option" where
  "index_of c [] = None"
| "index_of c (d # ds) = (if c = d then Some 0 else map_option Suc (index_of c ds))"

fun rescan_from :: "nat \<Rightarrow> string list \<Rightarrow> nat option" where
  "rescan_from pos [] = None"
| "rescan_from pos (chunk # chunks) =
     (case index_of NEWLINE chunk of Some i \<Rightarrow> Some (pos + i) | None \<Rightarrow> rescan_from (pos + length chunk) chunks)"

definition rescan :: "reader \<Rightarrow> reader" where
  "rescan r = r\<lparr>newline := rescan_from 0 (queue r)\<rparr>"

definition fill :: "bool \<Rightarrow> reader \<Rightarrow> unit read \<times> reader" where
  "fill scan r =
     (case source r of
        [] \<Rightarrow> (if sourceFails r then Failed else Eof, r)
      | chunk # rest \<Rightarrow>
         (Got (),
          r\<lparr>queue := queue r @ [chunk], queued := queued r + length chunk, source := rest,
            newline := (if scan \<and> newline r = None then map_option (\<lambda>i. queued r + i) (index_of NEWLINE chunk) else newline r)\<rparr>))"

fun take_chunks :: "nat \<Rightarrow> string list \<Rightarrow> string \<times> string list" where
  "take_chunks need [] = ([], [])"
| "take_chunks need (first # chunks) =
     (if need = 0 then ([], first # chunks)
      else if length first \<le> need then (case take_chunks (need - length first) chunks of (bs, rest) \<Rightarrow> (first @ bs, rest))
      else (take need first, drop need first # chunks))"

definition take_bytes :: "nat \<Rightarrow> reader \<Rightarrow> string \<times> reader" where
  "take_bytes n r = (case take_chunks n (queue r) of (bs, rest) \<Rightarrow> (bs, rescan (r\<lparr>queue := rest, queued := queued r - n\<rparr>)))"

function readLine :: "nat \<Rightarrow> reader \<Rightarrow> string read \<times> reader" where
  "readLine maxLen r =
     (case newline r of
        Some n \<Rightarrow>
          if n > maxLen then (Failed, r)
          else (let (line, r1) = take_bytes n r; (_, r2) = take_bytes 1 r1 in (Got line, r2))
      | None \<Rightarrow>
          if queued r > maxLen then (Failed, r)
          else
            (case fill True r of
               (Got _, r1) \<Rightarrow> readLine maxLen r1
             | (Eof, r1) \<Rightarrow> (Eof, r1)
             | (Failed, r1) \<Rightarrow> (Failed, r1)))"
  by pat_completeness auto
termination
  by (relation "measure (\<lambda>(_, r). length (source r))") (auto simp: fill_def split: list.splits if_splits)

function readBytes :: "nat \<Rightarrow> reader \<Rightarrow> string read \<times> reader" where
  "readBytes n r =
     (if queued r < n
      then
        (case fill False r of
           (Got _, r1) \<Rightarrow> readBytes n r1
         | (Eof, r1) \<Rightarrow> (Eof, r1)
         | (Failed, r1) \<Rightarrow> (Failed, r1))
      else (case take_bytes n r of (bs, r1) \<Rightarrow> (Got bs, r1)))"
  by pat_completeness auto
termination
  by (relation "measure (\<lambda>(_, r). length (source r))") (auto simp: fill_def split: list.splits if_splits)

declare readLine.simps [simp del] readBytes.simps [simp del]

definition hasMore :: "reader \<Rightarrow> bool read \<times> reader" where
  "hasMore r =
     (if queued r > 0 then (Got True, r)
      else case fill False r of (Got _, r1) \<Rightarrow> (Got True, r1) | (Eof, r1) \<Rightarrow> (Got False, r1) | (Failed, r1) \<Rightarrow> (Failed, r1))"

section \<open>The flat specification\<close>

type_synonym flat = "string \<times> bool"

definition flat_line :: "nat \<Rightarrow> flat \<Rightarrow> string read \<times> flat" where
  "flat_line maxLen s =
     (case index_of NEWLINE (fst s) of
        Some i \<Rightarrow> if i > maxLen then (Failed, s) else (Got (take i (fst s)), (drop (Suc i) (fst s), snd s))
      | None \<Rightarrow> if length (fst s) > maxLen \<or> snd s then (Failed, s) else (Eof, s))"

definition flat_bytes :: "nat \<Rightarrow> flat \<Rightarrow> string read \<times> flat" where
  "flat_bytes n s =
     (if n \<le> length (fst s) then (Got (take n (fst s)), (drop n (fst s), snd s)) else (if snd s then Failed else Eof, s))"

definition flat_more :: "flat \<Rightarrow> bool read \<times> flat" where
  "flat_more s = (if fst s \<noteq> [] then (Got True, s) else (if snd s then Failed else Got False, s))"

text \<open>The bytes a reader has still to give, and its invariant: the counters describe the queue, and no chunk is empty.\<close>

definition flat_of :: "reader \<Rightarrow> flat" where
  "flat_of r = (concat (queue r) @ concat (source r), sourceFails r)"

definition reader_ok :: "reader \<Rightarrow> bool" where
  "reader_ok r \<longleftrightarrow> queued r = length (concat (queue r)) \<and> newline r = index_of NEWLINE (concat (queue r)) \<and> [] \<notin> set (source r)"

section \<open>Refinement\<close>

lemma map_option_same [simp]: "map_option ((+) (0 :: nat)) x = x" "map_option (\<lambda>i. i) y = y"
  by (cases x; simp) (cases y; simp)

lemma index_of_append:
  "index_of c (xs @ ys) = (case index_of c xs of Some i \<Rightarrow> Some i | None \<Rightarrow> map_option (\<lambda>i. length xs + i) (index_of c ys))"
proof (induction xs)
  case (Cons x xs)
  show ?case by (cases "index_of c ys") (auto simp: Cons split: option.splits)
qed simp

lemma index_of_less: "index_of c xs = Some i \<Longrightarrow> i < length xs"
  by (induction xs arbitrary: i) (auto split: if_splits)

lemma rescan_from_concat: "rescan_from pos chunks = map_option (\<lambda>i. pos + i) (index_of NEWLINE (concat chunks))"
proof (induction chunks arbitrary: pos)
  case (Cons chunk chunks)
  show ?case by (cases "index_of NEWLINE (concat chunks)") (auto simp: index_of_append Cons split: option.splits)
qed simp

lemma take_chunks_concat:
  "n \<le> length (concat chunks) \<Longrightarrow> fst (take_chunks n chunks) = take n (concat chunks) \<and> concat (snd (take_chunks n chunks)) = drop n (concat chunks)"
  by (induction n chunks rule: take_chunks.induct) (auto split: prod.splits)

lemma take_bytes_ok:
  assumes "reader_ok r" "n \<le> queued r"
  shows "fst (take_bytes n r) = take n (concat (queue r))" "reader_ok (snd (take_bytes n r))"
    "concat (queue (snd (take_bytes n r))) = drop n (concat (queue r))" "source (snd (take_bytes n r)) = source r"
    "sourceFails (snd (take_bytes n r)) = sourceFails r"
  using assms take_chunks_concat[of n "queue r"]
  by (auto simp: take_bytes_def rescan_def reader_ok_def rescan_from_concat split: prod.splits)

lemma fill_Got:
  assumes "reader_ok r" "source r = chunk # rest"
  shows "fst (fill scan r) = Got ()" "flat_of (snd (fill scan r)) = flat_of r" "source (snd (fill scan r)) = rest"
    "queued (snd (fill scan r)) = length (concat (queue (snd (fill scan r))))"
    "scan \<Longrightarrow> reader_ok (snd (fill scan r))"
  using assms by (auto simp: fill_def flat_of_def reader_ok_def index_of_append split: option.splits)

lemma fill_end: "source r = [] \<Longrightarrow> fill scan r = (if sourceFails r then Failed else Eof, r)"
  by (simp add: fill_def)

lemma readLine_known:
  assumes "reader_ok r" "newline r = Some i"
  shows "fst (readLine n r) = fst (flat_line n (flat_of r)) \<and>
    (\<forall>l. fst (readLine n r) = Got l \<longrightarrow> flat_of (snd (readLine n r)) = snd (flat_line n (flat_of r)) \<and> reader_ok (snd (readLine n r)))"
proof -
  have i: "index_of NEWLINE (concat (queue r)) = Some i" "i < queued r" "i < length (concat (queue r))"
    using assms index_of_less[of NEWLINE "concat (queue r)" i] by (auto simp: reader_ok_def)
  have flat: "index_of NEWLINE (fst (flat_of r)) = Some i" using i by (simp add: flat_of_def index_of_append)
  show ?thesis
  proof (cases "i > n")
    case True
    then show ?thesis using assms(2) flat by (simp add: readLine.simps[of n r] flat_line_def)
  next
    case False
    let ?r1 = "snd (take_bytes i r)" let ?r2 = "snd (take_bytes 1 ?r1)"
    have t1: "fst (take_bytes i r) = take i (concat (queue r))" "reader_ok ?r1" "concat (queue ?r1) = drop i (concat (queue r))"
      "source ?r1 = source r" "sourceFails ?r1 = sourceFails r"
      using take_bytes_ok[OF assms(1), of i] i by auto
    have "1 \<le> queued ?r1" using t1(2,3) i(3) by (simp add: reader_ok_def)
    note t2 = take_bytes_ok[OF t1(2) this]
    have res: "readLine n r = (Got (take i (concat (queue r))), ?r2)"
      using assms(2) False t1(1) by (simp add: readLine.simps[of n r] split_beta)
    have "flat_of ?r2 = (drop (Suc i) (concat (queue r)) @ concat (source r), sourceFails r)"
      using t1 t2 by (simp add: flat_of_def)
    then show ?thesis using res flat False i t2(2) by (simp add: flat_line_def flat_of_def)
  qed
qed

lemma readLine_overlong: "reader_ok r \<Longrightarrow> newline r = None \<Longrightarrow> queued r > n \<Longrightarrow> fst (flat_line n (flat_of r)) = Failed"
  by (auto simp: reader_ok_def flat_line_def flat_of_def index_of_append split: option.splits)

lemma readLine_flat:
  assumes "reader_ok r"
  shows "fst (readLine n r) = fst (flat_line n (flat_of r)) \<and>
    (\<forall>l. fst (readLine n r) = Got l \<longrightarrow> flat_of (snd (readLine n r)) = snd (flat_line n (flat_of r)) \<and> reader_ok (snd (readLine n r)))"
  using assms
proof (induction "source r" arbitrary: r)
  case Nil
  show ?case
  proof (cases "newline r")
    case None
    then show ?thesis using Nil readLine_overlong[OF Nil.prems None, of n]
      by (auto simp: readLine.simps[of n r] fill_end flat_line_def flat_of_def reader_ok_def)
  qed (rule readLine_known[OF Nil.prems])
next
  case (Cons chunk rest)
  show ?case
  proof (cases "newline r")
    case None
    note f = fill_Got[OF Cons.prems Cons.hyps(2)[symmetric], of True]
    show ?thesis
    proof (cases "queued r > n")
      case True
      then show ?thesis using None readLine_overlong[OF Cons.prems None True] by (simp add: readLine.simps[of n r])
    next
      case False
      have "fill True r = (Got (), snd (fill True r))" using f(1) by (simp add: prod_eq_iff)
      then have "readLine n r = readLine n (snd (fill True r))"
        using None False Cons.hyps(2)[symmetric] by (subst readLine.simps) (simp add: fill_def)
      then show ?thesis using Cons.hyps(1)[of "snd (fill True r)"] f by simp
    qed
  qed (rule readLine_known[OF Cons.prems])
qed

lemma readBytes_enough:
  assumes "\<not> queued r < n" "queued r = length (concat (queue r))" "[] \<notin> set (source r)"
  shows "fst (readBytes n r) = fst (flat_bytes n (flat_of r)) \<and>
    (\<forall>l. fst (readBytes n r) = Got l \<longrightarrow> flat_of (snd (readBytes n r)) = snd (flat_bytes n (flat_of r)) \<and> reader_ok (snd (readBytes n r)))"
proof -
  let ?r = "snd (take_bytes n r)" and ?c = "concat (queue r)"
  have "n \<le> length ?c" using assms by simp
  note t = take_chunks_concat[OF this]
  have "fst (take_bytes n r) = take n ?c" "concat (queue ?r) = drop n ?c" "source ?r = source r" "sourceFails ?r = sourceFails r" "reader_ok ?r"
    using t assms by (auto simp: take_bytes_def rescan_def rescan_from_concat reader_ok_def split: prod.splits)
  then show ?thesis using assms by (simp add: readBytes.simps[of n r] flat_bytes_def flat_of_def split_beta)
qed

lemma readBytes_flat:
  assumes "queued r = length (concat (queue r))" "[] \<notin> set (source r)"
  shows "fst (readBytes n r) = fst (flat_bytes n (flat_of r)) \<and>
    (\<forall>l. fst (readBytes n r) = Got l \<longrightarrow> flat_of (snd (readBytes n r)) = snd (flat_bytes n (flat_of r)) \<and> reader_ok (snd (readBytes n r)))"
  using assms
proof (induction "length (source r)" arbitrary: r)
  case (0 r)
  show ?case
  proof (cases "queued r < n")
    case True
    then show ?thesis using 0 by (simp add: readBytes.simps[of n r] fill_end flat_bytes_def flat_of_def)
  next
    case False
    then show ?thesis by (rule readBytes_enough[OF _ 0(2,3)])
  qed
next
  case (Suc k r)
  show ?case
  proof (cases "queued r < n")
    case True
    obtain chunk rest where s: "source r = chunk # rest" using Suc.hyps(2) by (cases "source r") auto
    let ?r = "snd (fill False r)"
    have f: "fill False r = (Got (), ?r)" "flat_of ?r = flat_of r" "queued ?r = length (concat (queue ?r))" "[] \<notin> set (source ?r)" "length (source ?r) = k"
      using s Suc by (auto simp: fill_def flat_of_def)
    have "readBytes n r = readBytes n ?r"
      using True s by (subst readBytes.simps) (simp add: fill_def)
    then show ?thesis using Suc.hyps(1)[of ?r] f by simp
  next
    case False
    then show ?thesis by (rule readBytes_enough[OF _ Suc(3,4)])
  qed
qed

lemma hasMore_flat: "reader_ok r \<Longrightarrow> fst (hasMore r) = fst (flat_more (flat_of r))"
  by (auto simp: hasMore_def fill_def flat_more_def flat_of_def reader_ok_def split: list.splits)

lemma makeReader_ok: "[] \<notin> set chunks \<Longrightarrow> reader_ok (makeReader chunks fails) \<and> flat_of (makeReader chunks fails) = (concat chunks, fails)"
  by (simp add: makeReader_def reader_ok_def flat_of_def)

text \<open>
  The interface the stream readers use: lines, bodies and the test for trailing bytes, over some state whose remaining bytes are \<open>bytes_of\<close>.
\<close>

locale byte_reader =
  fixes line :: "nat \<Rightarrow> 'r \<Rightarrow> string read \<times> 'r" and body :: "nat \<Rightarrow> 'r \<Rightarrow> string read \<times> 'r" and more :: "'r \<Rightarrow> bool read \<times> 'r"
    and bytes_of :: "'r \<Rightarrow> flat" and valid :: "'r \<Rightarrow> bool"
  assumes line_result: "valid r \<Longrightarrow> fst (line n r) = fst (flat_line n (bytes_of r))"
    and line_rest: "valid r \<Longrightarrow> fst (line n r) = Got l \<Longrightarrow> valid (snd (line n r)) \<and> bytes_of (snd (line n r)) = snd (flat_line n (bytes_of r))"
    and body_result: "valid r \<Longrightarrow> fst (body n r) = fst (flat_bytes n (bytes_of r))"
    and body_rest: "valid r \<Longrightarrow> fst (body n r) = Got b \<Longrightarrow> valid (snd (body n r)) \<and> bytes_of (snd (body n r)) = snd (flat_bytes n (bytes_of r))"
    and more_result: "valid r \<Longrightarrow> fst (more r) = fst (flat_more (bytes_of r))"
begin

lemma line_shortens: "valid r \<Longrightarrow> fst (line n r) = Got l \<Longrightarrow> length (fst (bytes_of (snd (line n r)))) < length (fst (bytes_of r))"
  using line_rest[of r n l] line_result[of r n] index_of_less[of NEWLINE "fst (bytes_of r)"]
  by (auto simp: flat_line_def split: option.splits if_splits)

lemma body_shortens: "valid r \<Longrightarrow> fst (body n r) = Got b \<Longrightarrow> length (fst (bytes_of (snd (body n r)))) \<le> length (fst (bytes_of r))"
  using body_rest[of r n b] body_result[of r n] by (auto simp: flat_bytes_def split: if_splits)

lemma body_length: "valid r \<Longrightarrow> fst (body n r) = Got b \<Longrightarrow> length b = n"
  using body_result[of r n] by (auto simp: flat_bytes_def split: if_splits)

end

interpretation chunk_reader: byte_reader readLine readBytes hasMore flat_of reader_ok
proof unfold_locales
  fix r n l
  assume ok: "reader_ok r"
  show "fst (readLine n r) = fst (flat_line n (flat_of r))" using readLine_flat[OF ok] by blast
  show "fst (readLine n r) = Got l \<Longrightarrow> reader_ok (snd (readLine n r)) \<and> flat_of (snd (readLine n r)) = snd (flat_line n (flat_of r))"
    using readLine_flat[OF ok] by blast
  have q: "queued r = length (concat (queue r))" "[] \<notin> set (source r)" using ok by (auto simp: reader_ok_def)
  show "fst (readBytes n r) = fst (flat_bytes n (flat_of r))" using readBytes_flat[OF q] by blast
  show "fst (readBytes n r) = Got l \<Longrightarrow> reader_ok (snd (readBytes n r)) \<and> flat_of (snd (readBytes n r)) = snd (flat_bytes n (flat_of r))"
    using readBytes_flat[OF q] by blast
  show "fst (hasMore r) = fst (flat_more (flat_of r))" by (rule hasMore_flat[OF ok])
qed

interpretation flat_reader: byte_reader flat_line flat_bytes flat_more "\<lambda>s. s" "\<lambda>_. True"
  by unfold_locales simp_all

end
