(* ===== verification/Paths.thy ===== *)
theory Paths
  imports Prelude "HOL-Library.Sublist"
begin

text \<open>
  Relative paths and path patterns: the canonical-path predicate of \<^verbatim>\<open>src/src/remote-manifest.js\<close>, the globs of
  \<^verbatim>\<open>src/src/remote-artifacts.js\<close>, the shape rules that \<^verbatim>\<open>src/src/config.js\<close> shares with the runner, and the snapshot exclusions of
  \<^verbatim>\<open>src/src/remote-exclude.js\<close>. A string is a list of characters.
\<close>

section \<open>Splitting and joining\<close>

text \<open>\<^verbatim>\<open>s.split('/')\<close> and \<^verbatim>\<open>segs.join('/')\<close>.\<close>

fun split_slash :: "string \<Rightarrow> string list" where
  "split_slash [] = [[]]"
| "split_slash (c # cs) =
     (if c = CHR ''/'' then [] # split_slash cs
      else case split_slash cs of [] \<Rightarrow> [[c]] | s # ss \<Rightarrow> (c # s) # ss)"

fun join_slash :: "string list \<Rightarrow> string" where
  "join_slash [] = []"
| "join_slash [s] = s"
| "join_slash (s # t # ss) = s @ CHR ''/'' # join_slash (t # ss)"

lemma split_slash_not_Nil [simp]: "split_slash s \<noteq> []"
  by (induction s) (auto split: list.splits)

lemma join_split_slash [simp]: "join_slash (split_slash s) = s"
proof (induction s)
  case (Cons c cs)
  obtain s ss where "split_slash cs = s # ss" by (cases "split_slash cs") auto
  then show ?case using Cons by (cases ss) auto
qed simp

lemma split_slash_no_slash: "seg \<in> set (split_slash s) \<Longrightarrow> CHR ''/'' \<notin> set seg"
proof (induction s arbitrary: seg)
  case (Cons c cs)
  obtain s ss where s: "split_slash cs = s # ss" by (cases "split_slash cs") auto
  show ?case using Cons.prems Cons.IH[of s] Cons.IH[of seg] s by (auto split: if_splits)
qed simp

lemma split_slash_plain: "CHR ''/'' \<notin> set s \<Longrightarrow> split_slash s = [s]"
  by (induction s) auto

lemma split_slash_append: "CHR ''/'' \<notin> set s \<Longrightarrow> split_slash (s @ CHR ''/'' # t) = s # split_slash t"
  by (induction s) auto

lemma split_join_slash: "ss \<noteq> [] \<Longrightarrow> \<forall>s \<in> set ss. CHR ''/'' \<notin> set s \<Longrightarrow> split_slash (join_slash ss) = ss"
  by (induction ss rule: join_slash.induct) (simp_all add: split_slash_plain split_slash_append)

lemma join_slash_append: "ss \<noteq> [] \<Longrightarrow> ts \<noteq> [] \<Longrightarrow> join_slash (ss @ ts) = join_slash ss @ CHR ''/'' # join_slash ts"
proof (induction ss rule: join_slash.induct)
  case (2 s)
  then show ?case by (cases ts) auto
qed simp_all

section \<open>Canonical relative paths\<close>

definition isCanonicalRelPath :: "string \<Rightarrow> bool" where
  "isCanonicalRelPath p \<longleftrightarrow>
     p \<noteq> [] \<and> CHR 0x5C \<notin> set p \<and> CHR 0x00 \<notin> set p \<and>
     hd p \<noteq> CHR ''/'' \<and> last p \<noteq> CHR ''/'' \<and>
     list_all (\<lambda>seg. seg \<noteq> [] \<and> seg \<noteq> ''.'' \<and> seg \<noteq> ''..'') (split_slash p)"

text \<open>\<^verbatim>\<open>path.posix.dirname\<close> and \<^verbatim>\<open>path.posix.basename\<close> of a canonical path, as its segments.\<close>

definition dir_segs :: "string \<Rightarrow> string list" where
  "dir_segs p = butlast (split_slash p)"

definition base_name :: "string \<Rightarrow> string" where
  "base_name p = last (split_slash p)"

definition ends_with :: "string \<Rightarrow> string \<Rightarrow> bool" where
  "ends_with suf s = suffix suf s"

section \<open>Globs\<close>

text \<open>\<^verbatim>\<open>segmentRegex\<close>: every character stands for itself except \<^verbatim>\<open>*\<close>, which is \<^verbatim>\<open>[^/]*\<close>; the expression is anchored at both ends.\<close>

fun segment_matches :: "string \<Rightarrow> string \<Rightarrow> bool" where
  "segment_matches [] s = (s = [])"
| "segment_matches (c # p) [] = (c = CHR ''*'' \<and> segment_matches p [])"
| "segment_matches (c # p) (d # s) =
     (if c = CHR ''*'' then segment_matches p (d # s) \<or> (d \<noteq> CHR ''/'' \<and> segment_matches (c # p) s)
      else c = d \<and> segment_matches p s)"

fun tails :: "'a list \<Rightarrow> 'a list list" where
  "tails [] = [[]]"
| "tails (x # xs) = (x # xs) # tails xs"

fun matchSegments :: "string list \<Rightarrow> string list \<Rightarrow> bool" where
  "matchSegments [] segs = (segs = [])"
| "matchSegments (p # ps) segs =
     (if p = ''**'' then list_ex (matchSegments ps) (tails segs)
      else case segs of [] \<Rightarrow> False | s # ss \<Rightarrow> segment_matches p s \<and> matchSegments ps ss)"

definition artifactMatches :: "string \<Rightarrow> string \<Rightarrow> bool" where
  "artifactMatches pattern relPath = matchSegments (split_slash pattern) (split_slash relPath)"

definition isGlobPattern :: "string \<Rightarrow> bool" where
  "isGlobPattern pattern \<longleftrightarrow> CHR ''*'' \<in> set pattern"

fun has_double_star :: "string \<Rightarrow> bool" where
  "has_double_star (c # d # cs) = (c = CHR ''*'' \<and> d = CHR ''*'' \<or> has_double_star (d # cs))"
| "has_double_star _ = False"

definition isValidArtifactSegment :: "string \<Rightarrow> bool" where
  "isValidArtifactSegment seg \<longleftrightarrow> \<not> has_double_star seg \<or> seg = ''**''"

definition literalDirPrefix :: "string \<Rightarrow> string" where
  "literalDirPrefix pattern = join_slash (takeWhile (\<lambda>seg. CHR ''*'' \<notin> set seg) (butlast (split_slash pattern)))"

lemma set_tails: "ys \<in> set (tails xs) \<longleftrightarrow> (\<exists>zs. xs = zs @ ys)"
proof (induction xs)
  case (Cons x xs)
  show ?case by (auto simp: Cons Cons_eq_append_conv)
qed auto

lemma segment_matches_star: "segment_matches p s \<Longrightarrow> segment_matches (CHR ''*'' # p) s"
  by (cases s) auto

lemma segment_matches_refl [simp]: "segment_matches s s"
  by (induction s) (auto simp: segment_matches_star)

lemma segment_matches_plain: "CHR ''*'' \<notin> set p \<Longrightarrow> segment_matches p s \<longleftrightarrow> p = s"
  by (induction p s rule: segment_matches.induct) auto

text \<open>What a pattern means, independently of the search: which segments each pattern segment may take.\<close>

inductive glob_rel :: "string list \<Rightarrow> string list \<Rightarrow> bool" where
  glob_end: "glob_rel [] []"
| glob_span: "glob_rel ps ss \<Longrightarrow> glob_rel (''**'' # ps) (ts @ ss)"
| glob_one: "p \<noteq> ''**'' \<Longrightarrow> segment_matches p s \<Longrightarrow> glob_rel ps ss \<Longrightarrow> glob_rel (p # ps) (s # ss)"

lemma matchSegments_glob: "matchSegments ps segs \<longleftrightarrow> glob_rel ps segs"
proof
  show "matchSegments ps segs \<Longrightarrow> glob_rel ps segs"
  proof (induction ps arbitrary: segs)
    case (Cons p ps)
    show ?case
    proof (cases "p = ''**''")
      case True
      with Cons.prems obtain zs x where "segs = zs @ x" "matchSegments ps x" by (auto simp: list_ex_iff set_tails)
      then show ?thesis using Cons.IH glob_span True by simp
    next
      case False
      then show ?thesis using Cons by (auto split: list.splits intro: glob_one)
    qed
  qed (auto intro: glob_rel.intros)
  show "glob_rel ps segs \<Longrightarrow> matchSegments ps segs"
    by (induction rule: glob_rel.induct) (auto simp: list_ex_iff set_tails)
qed

lemma literal_segs_match:
  "glob_rel (ps @ qs) segs \<Longrightarrow> \<forall>p \<in> set ps. CHR ''*'' \<notin> set p \<Longrightarrow> \<exists>ss. segs = ps @ ss \<and> glob_rel qs ss"
proof (induction ps arbitrary: segs)
  case (Cons p ps)
  from Cons.prems obtain s ss where "segs = s # ss" "segment_matches p s" "glob_rel (ps @ qs) ss"
    by (auto elim: glob_rel.cases)
  then show ?case using Cons by (auto simp: segment_matches_plain)
qed auto

section \<open>Shape rules\<close>

text \<open>The array rules of \<^verbatim>\<open>.lane-broker.json\<close>, on arrays whose elements are strings.\<close>

definition isValidRemoteDepsShape :: "string list \<Rightarrow> bool" where
  "isValidRemoteDepsShape dirs \<longleftrightarrow> dirs \<noteq> [] \<and> list_all (\<lambda>d. d = ''.'' \<or> isCanonicalRelPath d) dirs \<and> distinct dirs"

definition isValidDepsKeyFilesShape :: "string list \<Rightarrow> bool" where
  "isValidDepsKeyFilesShape files \<longleftrightarrow>
     files \<noteq> [] \<and>
     list_all (\<lambda>f. isCanonicalRelPath f \<and> \<not> list_ex (\<lambda>seg. seg = ''node_modules'' \<or> seg = ''.git'') (split_slash f)) files \<and>
     distinct files"

definition isValidRemoteSetupShape :: "string list list \<Rightarrow> bool" where
  "isValidRemoteSetupShape setup \<longleftrightarrow> setup \<noteq> [] \<and> list_all (\<lambda>argv. argv \<noteq> [] \<and> list_all (\<lambda>a. a \<noteq> []) argv) setup"

definition MAX_REMOTE_ARTIFACT_PATTERNS :: nat where "MAX_REMOTE_ARTIFACT_PATTERNS = 50"

definition isValidRemoteArtifactsShape :: "string list \<Rightarrow> bool" where
  "isValidRemoteArtifactsShape patterns \<longleftrightarrow>
     patterns \<noteq> [] \<and> length patterns \<le> MAX_REMOTE_ARTIFACT_PATTERNS \<and>
     list_all (\<lambda>p. isCanonicalRelPath p \<and> list_all isValidArtifactSegment (split_slash p) \<and> literalDirPrefix p \<noteq> []) patterns \<and>
     distinct patterns"

section \<open>Snapshot exclusions\<close>

definition MAX_REMOTE_EXCLUDE_PATTERNS :: nat where "MAX_REMOTE_EXCLUDE_PATTERNS = 64"
definition MAX_REMOTE_EXCLUDE_PATTERN_LENGTH :: nat where "MAX_REMOTE_EXCLUDE_PATTERN_LENGTH = 256"

definition LOCKFILES :: "string list" where
  "LOCKFILES = [''package-lock.json'', ''npm-shrinkwrap.json'']"

definition isDirPattern :: "string \<Rightarrow> bool" where
  "isDirPattern pattern = ends_with ''/'' pattern"

datatype exclude_problem =
  NotPatterns | TooMany | EmptyPattern | TooLong string | BadCharacter string | Negation string | Absolute string | DotDot string |
  EmptySegment string | PartialDoubleStar string | Duplicated string

definition pattern_segs :: "string \<Rightarrow> string list" where
  "pattern_segs p = split_slash (if isDirPattern p then butlast p else p)"

definition pattern_problem :: "string \<Rightarrow> exclude_problem option" where
  "pattern_problem p =
     (if p = [] then Some EmptyPattern
      else if length p > MAX_REMOTE_EXCLUDE_PATTERN_LENGTH then Some (TooLong p)
      else if CHR 0x00 \<in> set p \<or> CHR 0x5C \<in> set p then Some (BadCharacter p)
      else if hd p = CHR ''!'' then Some (Negation p)
      else if hd p = CHR ''/'' then Some (Absolute p)
      else if ''..'' \<in> set (pattern_segs p) then Some (DotDot p)
      else if list_ex (\<lambda>seg. seg = [] \<or> seg = ''.'') (pattern_segs p) then Some (EmptySegment p)
      else if list_ex (\<lambda>seg. has_double_star seg \<and> seg \<noteq> ''**'') (pattern_segs p) then Some (PartialDoubleStar p)
      else None)"

fun patterns_problem :: "string list \<Rightarrow> string list \<Rightarrow> exclude_problem option" where
  "patterns_problem seen [] = None"
| "patterns_problem seen (p # ps) =
     (case pattern_problem p of
        Some e \<Rightarrow> Some e
      | None \<Rightarrow> if p \<in> set seen then Some (Duplicated p) else patterns_problem (p # seen) ps)"

definition remoteExcludeShapeProblem :: "string list \<Rightarrow> exclude_problem option" where
  "remoteExcludeShapeProblem patterns =
     (if patterns = [] then Some NotPatterns
      else if length patterns > MAX_REMOTE_EXCLUDE_PATTERNS then Some TooMany
      else patterns_problem [] patterns)"

text \<open>A directory pattern matches a file when it matches a proper prefix of the file's segments.\<close>

definition patternMatchesFile :: "string \<Rightarrow> string \<Rightarrow> bool" where
  "patternMatchesFile pattern relPath =
     (if \<not> isDirPattern pattern then artifactMatches pattern relPath
      else list_ex (\<lambda>n. artifactMatches (butlast pattern) (join_slash (take n (split_slash relPath)))) [1..<length (split_slash relPath)])"

definition excludingPattern :: "string list \<Rightarrow> string \<Rightarrow> string option" where
  "excludingPattern patterns relPath = List.find (\<lambda>p. patternMatchesFile p relPath) patterns"

definition required_files :: "string list \<Rightarrow> string list" where
  "required_files remoteDeps =
     ''.lane-broker.json'' #
     concat (map (\<lambda>dir. map (\<lambda>name. (if dir = ''.'' then [] else dir @ ''/'') @ name) (''package.json'' # LOCKFILES)) remoteDeps)"

definition remoteExcludeConflict :: "string list \<Rightarrow> string list \<Rightarrow> (string \<times> string) option" where
  "remoteExcludeConflict patterns remoteDeps =
     (case List.find (\<lambda>f. excludingPattern patterns f \<noteq> None) (required_files remoteDeps) of
        None \<Rightarrow> None
      | Some f \<Rightarrow> (case excludingPattern patterns f of Some hit \<Rightarrow> Some (hit, f) | None \<Rightarrow> None))"

text \<open>\<^verbatim>\<open>protectedConfigPaths\<close>: the configuration files from the invocation directory up to the snapshot root.\<close>

fun config_dirs :: "string list \<Rightarrow> string list" where
  "config_dirs [] = [''.lane-broker.json'']"
| "config_dirs (s # rev_dir) = (join_slash (rev (s # rev_dir)) @ ''/.lane-broker.json'') # config_dirs rev_dir"

definition protectedConfigPaths :: "(string \<Rightarrow> bool) \<Rightarrow> string \<Rightarrow> string list" where
  "protectedConfigPaths onDisk relCwd = filter onDisk (config_dirs (if relCwd = [] then [] else rev (split_slash relCwd)))"

datatype preflight_problem = StaticConflict string string | GoverningConfig string string | NothingLeft

definition remoteExcludePreflight :: "(string \<Rightarrow> bool) \<Rightarrow> string list \<Rightarrow> string list \<Rightarrow> string \<Rightarrow> string list \<Rightarrow> preflight_problem option" where
  "remoteExcludePreflight onDisk filesUnder patterns relCwd remoteDeps =
     (case remoteExcludeConflict patterns remoteDeps of
        Some (hit, f) \<Rightarrow> Some (StaticConflict hit f)
      | None \<Rightarrow>
         (case List.find (\<lambda>f. excludingPattern patterns f \<noteq> None) (protectedConfigPaths onDisk relCwd) of
            Some f \<Rightarrow> Some (GoverningConfig (nullish (excludingPattern patterns f) []) f)
          | None \<Rightarrow>
             if filter (\<lambda>rel. excludingPattern patterns rel = None \<and> onDisk rel) filesUnder = [] then Some NothingLeft else None))"

text \<open>\<^verbatim>\<open>applyRemoteExclude\<close>: the sizes are those of the regular files on disk.\<close>

record excluded_summary =
  exCount :: nat
  exBytes :: nat
  exByPattern :: "(string \<times> nat) list"
  exUnmatched :: "string list"

definition count_hits :: "string list \<Rightarrow> string list \<Rightarrow> string \<Rightarrow> nat" where
  "count_hits patterns candidates p = length (filter (\<lambda>rel. excludingPattern patterns rel = Some p) candidates)"

definition applyRemoteExclude :: "(string \<Rightarrow> nat option) \<Rightarrow> string list \<Rightarrow> string list \<Rightarrow> string list \<times> excluded_summary" where
  "applyRemoteExclude fileSize patterns candidates =
     (let dropped = filter (\<lambda>rel. excludingPattern patterns rel \<noteq> None) candidates
      in (filter (\<lambda>rel. excludingPattern patterns rel = None) candidates,
          \<lparr>exCount = length dropped,
           exBytes = sum_list (map (\<lambda>rel. nullish (fileSize rel) 0) dropped),
           exByPattern = map (\<lambda>p. (p, count_hits patterns candidates p)) patterns,
           exUnmatched = filter (\<lambda>p. count_hits patterns candidates p = 0) patterns\<rparr>))"

end
