(* ===== verification/Manifest.thy ===== *)
theory Manifest
  imports Paths
begin

text \<open>
  The snapshot manifest of a remote run (\<^verbatim>\<open>src/src/remote-manifest.js\<close>): which files of a worktree are sent, which trees are refused, and how
  the runner checks what it received. What git lists and what \<^verbatim>\<open>lstat\<close> sees are inputs; a content hash is an opaque string.
\<close>

section \<open>Entries\<close>

datatype entry_kind = FileEntry (entryExec: bool) (entrySize: nat) (entrySha: string) | LinkEntry (entryTarget: string)

record manifest_entry =
  ePath :: string
  eKind :: entry_kind

text \<open>\<^verbatim>\<open>sortEntries\<close>: a stable sort by the bytes of the path.\<close>

definition sortEntries :: "manifest_entry list \<Rightarrow> manifest_entry list" where
  "sortEntries es = sort_key ePath es"

definition is_link :: "manifest_entry \<Rightarrow> bool" where
  "is_link e = (case eKind e of LinkEntry _ \<Rightarrow> True | FileEntry _ _ _ \<Rightarrow> False)"

section \<open>Refusals\<close>

definition ENV_TEMPLATE_SUFFIXES :: "string list" where
  "ENV_TEMPLATE_SUFFIXES = [''.example'', ''.sample'', ''.template'', ''.dist'']"

text \<open>\<^verbatim>\<open>SSH_KEY_NAME\<close>: all the names its expression accepts.\<close>

definition SSH_KEY_NAME :: "string list" where
  "SSH_KEY_NAME = concat (map (\<lambda>k. concat (map (\<lambda>sk. map (\<lambda>pub. ''id_'' @ k @ sk @ pub) ['''', ''.pub'']) ['''', ''_sk''])) [''rsa'', ''dsa'', ''ecdsa'', ''ed25519''])"

definition isDenylistedPath :: "string \<Rightarrow> bool" where
  "isDenylistedPath relPath =
     (let base = base_name relPath
      in if base = ''.env'' \<or> prefix ''.env.'' base then \<not> list_ex (\<lambda>suf. ends_with suf base) ENV_TEMPLATE_SUFFIXES
         else ends_with ''.pem'' base \<or> base \<in> set SSH_KEY_NAME)"

datatype ineligible =
  InvalidPath string | AncestorSymlink string | AbsoluteTarget string | EscapesRoot string | PassesSymlink string | DirectoryEntry string |
  SpecialFile string | DenylistedPath string | Submodule string | LsFilesFailed

text \<open>\<^verbatim>\<open>validatePathShape\<close> raises under one of two texts; both are the same refusal here.\<close>

definition validatePathShape :: "string \<Rightarrow> ineligible option" where
  "validatePathShape p = (if isCanonicalRelPath p then None else Some (InvalidPath p))"

section \<open>Symbolic links\<close>

fun walk_target :: "string list \<Rightarrow> string \<Rightarrow> string list \<Rightarrow> string list \<Rightarrow> ineligible option" where
  "walk_target links relPath stack [] = None"
| "walk_target links relPath stack (part # parts) =
     (if part = [] \<or> part = ''.'' then walk_target links relPath stack parts
      else if part = ''..'' then
        (if stack = [] then Some (EscapesRoot relPath) else walk_target links relPath (butlast stack) parts)
      else
        (let cur = join_slash (stack @ [part])
         in if cur \<in> set links \<and> cur \<noteq> relPath then Some (PassesSymlink relPath)
            else walk_target links relPath (stack @ [part]) parts))"

definition is_absolute :: "string \<Rightarrow> bool" where
  "is_absolute t \<longleftrightarrow> t \<noteq> [] \<and> hd t = CHR ''/''"

definition checkSymlinkEscape :: "string \<Rightarrow> string \<Rightarrow> string list \<Rightarrow> ineligible option" where
  "checkSymlinkEscape relPath target links =
     (if list_ex (\<lambda>n. join_slash (take n (dir_segs relPath)) \<in> set links) [1..<Suc (length (dir_segs relPath))] then Some (AncestorSymlink relPath)
      else if is_absolute target then Some (AbsoluteTarget relPath)
      else walk_target links relPath (dir_segs relPath) (split_slash target))"

fun omittable :: "ineligible \<Rightarrow> bool" where
  "omittable (AbsoluteTarget _) = True"
| "omittable (EscapesRoot _) = True"
| "omittable _ = False"

section \<open>Building a manifest\<close>

datatype lstat = OnFile bool nat string | OnLink string | OnDirectory | OnSpecial

definition computeEntry :: "string \<Rightarrow> lstat \<Rightarrow> ineligible + manifest_entry" where
  "computeEntry relPath st =
     (case st of
        OnLink t \<Rightarrow> Inr \<lparr>ePath = relPath, eKind = LinkEntry t\<rparr>
      | OnFile x n h \<Rightarrow> Inr \<lparr>ePath = relPath, eKind = FileEntry x n h\<rparr>
      | OnDirectory \<Rightarrow> Inl (SpecialFile relPath)
      | OnSpecial \<Rightarrow> Inl (SpecialFile relPath))"

text \<open>The first pass: every listed path once, in git's order; a path that is not on disk is left out.\<close>

fun raw_entries :: "(string \<Rightarrow> bool) \<Rightarrow> (string \<Rightarrow> lstat option) \<Rightarrow> string list \<Rightarrow> string list \<Rightarrow> ineligible + manifest_entry list" where
  "raw_entries gitlink disk seen [] = Inr []"
| "raw_entries gitlink disk seen (p # ps) =
     (if p \<in> set seen then raw_entries gitlink disk seen ps
      else case validatePathShape p of
        Some e \<Rightarrow> Inl e
      | None \<Rightarrow>
         if isDenylistedPath p then Inl (DenylistedPath p)
         else if gitlink p then Inl (Submodule p)
         else
           (case disk p of
              None \<Rightarrow> raw_entries gitlink disk (p # seen) ps
            | Some st \<Rightarrow>
                if st = OnDirectory then Inl (DirectoryEntry p)
                else
                  (case computeEntry p st of
                     Inl e \<Rightarrow> Inl e
                   | Inr e \<Rightarrow>
                      (case raw_entries gitlink disk (p # seen) ps of Inl x \<Rightarrow> Inl x | Inr es \<Rightarrow> Inr (e # es)))))"

definition link_paths :: "manifest_entry list \<Rightarrow> string list" where
  "link_paths es = map ePath (filter is_link es)"

text \<open>The second pass: every link against all links; an escaping one refuses the tree or is left out.\<close>

definition link_problem :: "string list \<Rightarrow> manifest_entry \<Rightarrow> ineligible option" where
  "link_problem links e = (case eKind e of LinkEntry t \<Rightarrow> checkSymlinkEscape (ePath e) t links | FileEntry _ _ _ \<Rightarrow> None)"

fun checked_entries :: "bool \<Rightarrow> string list \<Rightarrow> manifest_entry list \<Rightarrow> ineligible + manifest_entry list \<times> string list" where
  "checked_entries omit links [] = Inr ([], [])"
| "checked_entries omit links (e # es) =
     (case link_problem links e of
        Some x \<Rightarrow>
          if omit \<and> omittable x
          then (case checked_entries omit links es of Inl y \<Rightarrow> Inl y | Inr (kept, om) \<Rightarrow> Inr (kept, ePath e # om))
          else Inl x
      | None \<Rightarrow> (case checked_entries omit links es of Inl y \<Rightarrow> Inl y | Inr (kept, om) \<Rightarrow> Inr (e # kept, om)))"

record manifest =
  entries :: "manifest_entry list"
  omittedSymlinks :: "string list"
  excludedSummary :: "excluded_summary option"

definition buildManifest ::
  "string list option \<Rightarrow> (string \<Rightarrow> bool) option \<Rightarrow> (string \<Rightarrow> lstat option) \<Rightarrow> bool \<Rightarrow> string list option \<Rightarrow> ineligible + manifest" where
  "buildManifest listing gitlinks disk omit exclude =
     (case listing of None \<Rightarrow> Inl LsFilesFailed
      | Some listed \<Rightarrow>
     (case gitlinks of None \<Rightarrow> Inl LsFilesFailed
      | Some gitlink \<Rightarrow>
         (let size = (\<lambda>p. case disk p of Some (OnFile _ n _) \<Rightarrow> Some n | _ \<Rightarrow> None);
              kept = (case exclude of None \<Rightarrow> (listed, None) | Some ps \<Rightarrow> (let r = applyRemoteExclude size ps listed in (fst r, Some (snd r))))
          in case raw_entries gitlink disk [] (fst kept) of
               Inl e \<Rightarrow> Inl e
             | Inr raw \<Rightarrow>
                (case checked_entries omit (link_paths raw) raw of
                   Inl e \<Rightarrow> Inl e
                 | Inr (es, om) \<Rightarrow> Inr \<lparr>entries = sortEntries es, omittedSymlinks = sort om, excludedSummary = snd kept\<rparr>))))"

section \<open>Checking what arrived\<close>

datatype mismatch = Extra string | Missing string | TypeMismatch string | ExecMismatch string | SizeMismatch string | HashMismatch string | TargetMismatch string

definition kind_mismatch :: "string \<Rightarrow> entry_kind \<Rightarrow> entry_kind \<Rightarrow> mismatch option" where
  "kind_mismatch p e a =
     (case (e, a) of
        (FileEntry x n h, FileEntry x' n' h') \<Rightarrow>
          if x \<noteq> x' then Some (ExecMismatch p) else if n \<noteq> n' then Some (SizeMismatch p) else if h \<noteq> h' then Some (HashMismatch p) else None
      | (LinkEntry t, LinkEntry t') \<Rightarrow> if t \<noteq> t' then Some (TargetMismatch p) else None
      | _ \<Rightarrow> Some (TypeMismatch p))"

fun compare_entries :: "manifest_entry list \<Rightarrow> manifest_entry list \<Rightarrow> mismatch option" where
  "compare_entries [] [] = None"
| "compare_entries [] (a # _) = Some (Extra (ePath a))"
| "compare_entries (e # _) [] = Some (Missing (ePath e))"
| "compare_entries (e # es) (a # as) =
     (if ePath e < ePath a then Some (Missing (ePath e))
      else if ePath e > ePath a then Some (Extra (ePath a))
      else case kind_mismatch (ePath e) (eKind e) (eKind a) of Some m \<Rightarrow> Some m | None \<Rightarrow> compare_entries es as)"

definition verifyManifestNoGit :: "manifest_entry list \<Rightarrow> manifest_entry list \<Rightarrow> mismatch option" where
  "verifyManifestNoGit actual expected = compare_entries (sortEntries expected) (sortEntries actual)"

section \<open>Dependency directories\<close>

definition dirContains :: "string \<Rightarrow> string \<Rightarrow> bool" where
  "dirContains dir p \<longleftrightarrow> dir = ''.'' \<or> p = dir \<or> prefix (dir @ ''/'') p"

datatype deps_problem = Overlap string string | NoLockfile string | Shrinkwrap string | UnderNodeModules string string

definition under_dir :: "string \<Rightarrow> string \<Rightarrow> string" where
  "under_dir dir name = (if dir = ''.'' then name else dir @ ''/'' @ name)"

fun overlap_problem :: "string list \<Rightarrow> deps_problem option" where
  "overlap_problem [] = None"
| "overlap_problem (d # ds) =
     (case List.find (\<lambda>x. dirContains d x \<or> dirContains x d) ds of Some x \<Rightarrow> Some (Overlap d x) | None \<Rightarrow> overlap_problem ds)"

definition dir_problem :: "string list \<Rightarrow> string \<Rightarrow> deps_problem option" where
  "dir_problem paths dir =
     (if under_dir dir ''package-lock.json'' \<notin> set paths then Some (NoLockfile dir)
      else if under_dir dir ''npm-shrinkwrap.json'' \<in> set paths then Some (Shrinkwrap dir)
      else map_option (UnderNodeModules dir)
             (List.find (\<lambda>p. p = under_dir dir ''node_modules'' \<or> prefix (under_dir dir ''node_modules/'') p) paths))"

definition validateRemoteDeps :: "manifest_entry list \<Rightarrow> string list \<Rightarrow> deps_problem option" where
  "validateRemoteDeps es dirs =
     (case overlap_problem dirs of Some x \<Rightarrow> Some x
      | None \<Rightarrow> List.find (\<lambda>_. True) (List.map_filter (dir_problem (map ePath es)) dirs))"

datatype disk_problem = NotOnDisk string | LinkComponent string string | NotDirectory string string

fun walk_disk :: "(string list \<Rightarrow> lstat option) \<Rightarrow> string \<Rightarrow> string list \<Rightarrow> string list \<Rightarrow> disk_problem option" where
  "walk_disk disk dir acc [] = None"
| "walk_disk disk dir acc (seg # segs) =
     (case disk (acc @ [seg]) of
        None \<Rightarrow> Some (NotOnDisk dir)
      | Some (OnLink _) \<Rightarrow> Some (LinkComponent dir seg)
      | Some OnDirectory \<Rightarrow> walk_disk disk dir (acc @ [seg]) segs
      | Some _ \<Rightarrow> Some (NotDirectory dir seg))"

definition checkRemoteDepsDirsOnDisk :: "(string list \<Rightarrow> lstat option) \<Rightarrow> string list \<Rightarrow> disk_problem option" where
  "checkRemoteDepsDirsOnDisk disk dirs =
     List.find (\<lambda>_. True) (List.map_filter (\<lambda>dir. walk_disk disk dir [] (if dir = ''.'' then [] else split_slash dir)) dirs)"

section \<open>Where links lead\<close>

text \<open>
  How the operating system resolves a path inside the snapshot: a link is replaced by its target, \<^verbatim>\<open>..\<close> pops a directory, and \<open>Outside\<close> is
  reached by an absolute target or a \<^verbatim>\<open>..\<close> at the root. A cyclic link never finishes; every number of steps is covered.
\<close>

datatype walk_state = At "string list" "string list" | Outside

fun resolve_step :: "(string list \<Rightarrow> string option) \<Rightarrow> walk_state \<Rightarrow> walk_state" where
  "resolve_step tgt Outside = Outside"
| "resolve_step tgt (At cur []) = At cur []"
| "resolve_step tgt (At cur (part # parts)) =
     (if part = [] \<or> part = ''.'' then At cur parts
      else if part = ''..'' then (if cur = [] then Outside else At (butlast cur) parts)
      else case tgt (cur @ [part]) of
        None \<Rightarrow> At (cur @ [part]) parts
      | Some t \<Rightarrow> if is_absolute t then Outside else At cur (split_slash t @ parts))"

definition link_target :: "manifest_entry list \<Rightarrow> string list \<Rightarrow> string option" where
  "link_target es p = map_option (entryTarget \<circ> eKind) (List.find (\<lambda>e. is_link e \<and> split_slash (ePath e) = p) es)"

text \<open>The walk of a target comes back to the link itself.\<close>

fun hits :: "string list \<Rightarrow> string list \<Rightarrow> string list \<Rightarrow> bool" where
  "hits link stack [] = False"
| "hits link stack (part # parts) =
     (if part = [] \<or> part = ''.'' then hits link stack parts
      else if part = ''..'' then hits link (butlast stack) parts
      else stack @ [part] = link \<or> hits link (stack @ [part]) parts)"

text \<open>
  The contract of both link checks, the submitter's and the runner's: every link of the tree is a known link, relative, and its target was
  walked without leaving the root or passing through another link.
\<close>

locale confined_links =
  fixes tgt :: "string list \<Rightarrow> string option" and links :: "string list"
  assumes known: "tgt p = Some t \<Longrightarrow> join_slash p \<in> set links"
    and segments: "tgt p = Some t \<Longrightarrow> p \<noteq> []"
    and relative: "tgt p = Some t \<Longrightarrow> \<not> is_absolute t"
    and walked: "tgt p = Some t \<Longrightarrow> walk_target links (join_slash p) (butlast p) (split_slash t) = None"
begin

definition inside :: "walk_state \<Rightarrow> bool" where
  "inside st \<longleftrightarrow> (\<exists>cur r1 r2 link. st = At cur (r1 @ r2) \<and> (\<forall>s \<in> set cur \<union> set r1 \<union> set r2 \<union> set link. CHR ''/'' \<notin> set s) \<and> link \<noteq> [] \<and>
     walk_target links (join_slash link) cur r1 = None \<and> (''..'' \<notin> set r2 \<or> hits link cur r1) \<and>
     (hits link cur r1 \<longrightarrow> (\<exists>t. tgt link = Some t \<and> hits link (butlast link) (split_slash t))))"

lemma insideI:
  assumes "st = At cur (r1 @ r2)" "\<forall>s \<in> set cur \<union> set r1 \<union> set r2 \<union> set link. CHR ''/'' \<notin> set s" "link \<noteq> []"
    and "walk_target links (join_slash link) cur r1 = None" "''..'' \<notin> set r2 \<or> hits link cur r1"
    and "hits link cur r1 \<Longrightarrow> \<exists>t. tgt link = Some t \<and> hits link (butlast link) (split_slash t)"
  shows "inside st"
  using assms unfolding inside_def by blast

lemma step_past_target:
  assumes clean: "\<forall>s \<in> set cur \<union> set r2. CHR ''/'' \<notin> set s" and no_up: "''..'' \<notin> set r2"
  shows "inside (resolve_step tgt (At cur r2))"
proof (cases r2)
  case Nil
  then show ?thesis using assms by (intro insideI[of _ cur "[]" "[]" "[[]]"]) auto
next
  case (Cons part parts)
  have stay: "inside (At c parts)" if "\<forall>s \<in> set c. CHR ''/'' \<notin> set s" for c
    using that Cons assms by (intro insideI[of _ c "[]" parts "[[]]"]) auto
  show ?thesis
  proof (cases "part = [] \<or> part = ''.'' \<or> tgt (cur @ [part]) = None")
    case True
    then show ?thesis using stay[of cur] stay[of "cur @ [part]"] Cons assms by auto
  next
    case False
    then obtain t where t: "tgt (cur @ [part]) = Some t" by auto
    have "inside (At cur (split_slash t @ parts))"
      using walked[OF t] t Cons assms
      by (intro insideI[of _ cur "split_slash t" parts "cur @ [part]"]) (auto dest: split_slash_no_slash)
    then show ?thesis using False t relative[OF t] Cons no_up by auto
  qed
qed

lemma inside_step:
  assumes "inside st"
  shows "inside (resolve_step tgt st)"
proof -
  from assms obtain cur r1 r2 link where st: "st = At cur (r1 @ r2)" and clean: "\<forall>s \<in> set cur \<union> set r1 \<union> set r2 \<union> set link. CHR ''/'' \<notin> set s"
    and ne: "link \<noteq> []" and ok: "walk_target links (join_slash link) cur r1 = None" and up: "''..'' \<notin> set r2 \<or> hits link cur r1"
    and loop: "hits link cur r1 \<longrightarrow> (\<exists>t. tgt link = Some t \<and> hits link (butlast link) (split_slash t))"
    unfolding inside_def by blast
  show ?thesis
  proof (cases r1)
    case Nil
    then show ?thesis using step_past_target[of cur r2] clean up st by auto
  next
    case (Cons part parts)
    have shorter: "inside (At c (parts @ r2))" if "\<forall>s \<in> set c. CHR ''/'' \<notin> set s" "walk_target links (join_slash link) c parts = None"
      "hits link c parts = hits link cur r1" for c
      using that Cons clean ne up loop by (intro insideI[of _ c parts r2 link]) auto
    consider "part = [] \<or> part = ''.''" | "part = ''..''" | (name) "part \<noteq> []" "part \<noteq> ''.''" "part \<noteq> ''..''" by blast
    then show ?thesis
    proof cases
      case 1
      then show ?thesis using shorter[of cur] st Cons ok clean by auto
    next
      case 2
      then show ?thesis using shorter[of "butlast cur"] st Cons ok clean by (auto split: if_splits dest: in_set_butlastD)
    next
      case name
      have same: "join_slash (cur @ [part]) = join_slash link \<longleftrightarrow> cur @ [part] = link"
        using split_join_slash[of "cur @ [part]"] split_join_slash[of link] clean ne Cons by (metis UnI1 UnI2 list.set_intros(1) set_append Un_iff empty_set
          append_is_Nil_conv list.distinct(1) set_ConsD empty_iff)
      have ok': "walk_target links (join_slash link) (cur @ [part]) parts = None"
        and thr: "join_slash (cur @ [part]) \<in> set links \<Longrightarrow> cur @ [part] = link"
        using ok Cons name same by (auto simp: Let_def split: if_splits)
      show ?thesis
      proof (cases "tgt (cur @ [part])")
        case None
        have "inside (At (cur @ [part]) (parts @ r2))"
        proof (cases "cur @ [part] = link")
          case True
          then show ?thesis using loop None Cons name by auto
        next
          case False
          then show ?thesis using shorter[of "cur @ [part]"] ok' Cons name clean by auto
        qed
        then show ?thesis using None name st Cons by auto
      next
        case (Some t)
        have self: "cur @ [part] = link" using thr known[OF Some] by blast
        then have "hits link cur (split_slash t)" using loop Cons name Some by auto
        then have "inside (At cur (split_slash t @ (parts @ r2)))"
          using walked[OF Some] self Some clean Cons
          by (intro insideI[of _ cur "split_slash t" "parts @ r2" link]) (auto dest: split_slash_no_slash)
        then show ?thesis using Some name st Cons relative[OF Some] by auto
      qed
    qed
  qed
qed

lemma never_outside:
  assumes "''..'' \<notin> set (split_slash p)"
  shows "(resolve_step tgt ^^ n) (At [] (split_slash p)) \<noteq> Outside"
proof -
  have "inside (At [] (split_slash p))"
    using assms split_slash_no_slash by (intro insideI[of _ "[]" "[]" "split_slash p" "[[]]"]) auto
  then have "inside ((resolve_step tgt ^^ n) (At [] (split_slash p)))"
    by (induction n) (auto simp: inside_step)
  then show ?thesis by (auto simp: inside_def)
qed

end

section \<open>What a manifest holds\<close>

definition from_disk :: "(string \<Rightarrow> lstat option) \<Rightarrow> manifest_entry \<Rightarrow> bool" where
  "from_disk disk e \<longleftrightarrow> (case disk (ePath e) of Some st \<Rightarrow> computeEntry (ePath e) st = Inr e | None \<Rightarrow> False)"

lemma computeEntry_path: "computeEntry p st = Inr e \<Longrightarrow> ePath e = p"
  by (auto simp: computeEntry_def split: lstat.splits)

lemma raw_entries_sound:
  assumes "raw_entries gitlink disk seen ps = Inr es"
  shows "e \<in> set es \<Longrightarrow> isCanonicalRelPath (ePath e) \<and> \<not> isDenylistedPath (ePath e) \<and> \<not> gitlink (ePath e) \<and> from_disk disk e"
    and "distinct (map ePath es)"
    and "p \<in> ePath ` set es \<longleftrightarrow> p \<in> set ps \<and> p \<notin> set seen \<and> disk p \<noteq> None"
proof -
  have "(\<forall>e \<in> set es. isCanonicalRelPath (ePath e) \<and> \<not> isDenylistedPath (ePath e) \<and> \<not> gitlink (ePath e) \<and> from_disk disk e) \<and>
    distinct (map ePath es) \<and> (\<forall>p. p \<in> ePath ` set es \<longleftrightarrow> p \<in> set ps \<and> p \<notin> set seen \<and> disk p \<noteq> None)"
    using assms
  proof (induction gitlink disk seen ps arbitrary: es rule: raw_entries.induct)
    case (2 gitlink disk seen p ps)
    show ?case
    proof (cases "p \<in> set seen")
      case True
      then have "raw_entries gitlink disk seen ps = Inr es" using "2.prems" by simp
      then show ?thesis using "2.IH"(1)[OF True] True by auto
    next
      case False
      then have ok: "validatePathShape p = None" "\<not> isDenylistedPath p" "\<not> gitlink p"
        using "2.prems" by (auto split: option.splits if_splits)
      show ?thesis
      proof (cases "disk p")
        case None
        then have "raw_entries gitlink disk (p # seen) ps = Inr es" using "2.prems" False ok by simp
        then show ?thesis using "2.IH"(2)[OF False ok None] None by auto
      next
        case (Some st)
        then obtain e' es' where e': "computeEntry p st = Inr e'" and es': "raw_entries gitlink disk (p # seen) ps = Inr es'"
          and es: "es = e' # es'" and st: "st \<noteq> OnDirectory"
          using "2.prems" False ok by (auto split: sum.splits if_splits)
        have ih: "(\<forall>e \<in> set es'. isCanonicalRelPath (ePath e) \<and> \<not> isDenylistedPath (ePath e) \<and> \<not> gitlink (ePath e) \<and> from_disk disk e)"
          "distinct (map ePath es')" "\<forall>q. q \<in> ePath ` set es' \<longleftrightarrow> q \<in> set ps \<and> q \<notin> set (p # seen) \<and> disk q \<noteq> None"
          using "2.IH"(3)[OF False ok Some st e' es'] by blast+
        have path: "ePath e' = p" by (rule computeEntry_path[OF e'])
        have "isCanonicalRelPath p" using ok(1) by (simp add: validatePathShape_def split: if_splits)
        moreover have "from_disk disk e'" using Some e' path by (simp add: from_disk_def)
        ultimately show ?thesis using ih ok path Some False es by auto
      qed
    qed
  qed auto
  then show "e \<in> set es \<Longrightarrow> isCanonicalRelPath (ePath e) \<and> \<not> isDenylistedPath (ePath e) \<and> \<not> gitlink (ePath e) \<and> from_disk disk e"
    "distinct (map ePath es)" "p \<in> ePath ` set es \<longleftrightarrow> p \<in> set ps \<and> p \<notin> set seen \<and> disk p \<noteq> None" by blast+
qed

lemma checked_entries_kept:
  assumes "checked_entries omit links es = Inr (kept, om)"
  shows "set kept \<subseteq> set es" "e \<in> set kept \<Longrightarrow> link_problem links e = None" "distinct (map ePath es) \<Longrightarrow> distinct (map ePath kept)"
    and "ePath ` set es = ePath ` set kept \<union> set om" "\<not> omit \<Longrightarrow> om = []"
proof -
  have "set kept \<subseteq> set es \<and> (\<forall>e \<in> set kept. link_problem links e = None) \<and> (distinct (map ePath es) \<longrightarrow> distinct (map ePath kept)) \<and>
    ePath ` set es = ePath ` set kept \<union> set om \<and> (\<not> omit \<longrightarrow> om = [])"
    using assms
  proof (induction es arbitrary: kept om)
    case (Cons e es)
    show ?case
    proof (cases "link_problem links e")
      case None
      with Cons.prems obtain k where "checked_entries omit links es = Inr (k, om)" "kept = e # k"
        by (auto split: sum.splits prod.splits)
      then show ?thesis using Cons.IH[of k om] None by auto
    next
      case (Some x)
      with Cons.prems obtain o' where "checked_entries omit links es = Inr (kept, o')" "om = ePath e # o'" "omit"
        by (auto split: sum.splits prod.splits if_splits)
      then show ?thesis using Cons.IH[of kept o'] by auto
    qed
  qed auto
  then show "set kept \<subseteq> set es" "e \<in> set kept \<Longrightarrow> link_problem links e = None" "distinct (map ePath es) \<Longrightarrow> distinct (map ePath kept)"
    "ePath ` set es = ePath ` set kept \<union> set om" "\<not> omit \<Longrightarrow> om = []" by blast+
qed

lemma link_target_SomeD:
  "link_target es p = Some t \<Longrightarrow> \<exists>e \<in> set es. is_link e \<and> eKind e = LinkEntry t \<and> ePath e = join_slash p \<and> split_slash (join_slash p) = p"
proof -
  assume "link_target es p = Some t"
  then obtain e where "List.find (\<lambda>e. is_link e \<and> split_slash (ePath e) = p) es = Some e" "t = entryTarget (eKind e)"
    by (auto simp: link_target_def)
  then have "e \<in> set es" "is_link e" "split_slash (ePath e) = p" "t = entryTarget (eKind e)" by (auto dest: find_SomeD)
  then show ?thesis by (intro bexI[of _ e]) (auto simp: is_link_def split: entry_kind.splits)
qed

lemma checkSymlinkEscape_NoneD:
  "checkSymlinkEscape p t links = None \<Longrightarrow> \<not> is_absolute t \<and> walk_target links p (dir_segs p) (split_slash t) = None"
  by (simp add: checkSymlinkEscape_def split: if_splits)

text \<open>The entries the second pass lets through; none when it refuses the tree.\<close>

definition accepted_entries :: "bool \<Rightarrow> manifest_entry list \<Rightarrow> manifest_entry list" where
  "accepted_entries omit raw = (case checked_entries omit (link_paths raw) raw of Inr (es, _) \<Rightarrow> sortEntries es | Inl _ \<Rightarrow> [])"

lemma accepted_link:
  assumes "link_target (accepted_entries omit raw) p = Some t"
  shows "join_slash p \<in> set (link_paths raw)" "p \<noteq> []" "\<not> is_absolute t"
    "walk_target (link_paths raw) (join_slash p) (butlast p) (split_slash t) = None"
proof -
  from link_target_SomeD[OF assms] obtain e where e: "e \<in> set (accepted_entries omit raw)" "is_link e" "eKind e = LinkEntry t"
    "ePath e = join_slash p" "split_slash (join_slash p) = p" by blast
  then obtain kept om where c: "checked_entries omit (link_paths raw) raw = Inr (kept, om)" "e \<in> set kept"
    by (cases "checked_entries omit (link_paths raw) raw") (auto simp: accepted_entries_def sortEntries_def)
  note kept = checked_entries_kept[OF c(1)]
  have "checkSymlinkEscape (join_slash p) t (link_paths raw) = None" using kept(2)[OF c(2)] e by (simp add: link_problem_def)
  from checkSymlinkEscape_NoneD[OF this]
  show "\<not> is_absolute t" "walk_target (link_paths raw) (join_slash p) (butlast p) (split_slash t) = None"
    using e(5) by (simp_all add: dir_segs_def)
  show "join_slash p \<in> set (link_paths raw)" using kept(1) c(2) e by (auto simp: link_paths_def intro!: rev_image_eqI[of e])
  show "p \<noteq> []" using e(5) split_slash_not_Nil[of "join_slash p"] by auto
qed

interpretation snapshot_links: confined_links "link_target (accepted_entries omit raw)" "link_paths raw" for omit raw
  by unfold_locales (rule accepted_link; assumption)+

lemma buildManifest_InrE:
  assumes "buildManifest (Some listed) (Some gitlink) disk omit exclude = Inr m"
  obtains raw kept om where
    "raw_entries gitlink disk [] (filter (\<lambda>p. case exclude of None \<Rightarrow> True | Some ps \<Rightarrow> excludingPattern ps p = None) listed) = Inr raw"
    "checked_entries omit (link_paths raw) raw = Inr (kept, om)" "entries m = accepted_entries omit raw" "entries m = sortEntries kept"
    "omittedSymlinks m = sort om"
  using assms that
  by (auto simp: buildManifest_def applyRemoteExclude_def accepted_entries_def Let_def split: option.splits sum.splits)

section \<open>Properties\<close>

text \<open>
  C19. A link of a snapshot never leads out of it. When \<^verbatim>\<open>buildManifest\<close> accepts a tree, resolving any path without \<^verbatim>\<open>..\<close> through the
  links it kept, for any number of steps, stays below the root: no chain of links, self-reference included, ends outside.
\<close>

theorem snapshot_links_stay_inside:
  assumes "buildManifest (Some listed) (Some gitlink) disk omit exclude = Inr m" and "''..'' \<notin> set (split_slash p)"
  shows "(resolve_step (link_target (entries m)) ^^ n) (At [] (split_slash p)) \<noteq> Outside"
  using assms(1)
proof (rule buildManifest_InrE)
  fix raw kept om
  assume "entries m = accepted_entries omit raw"
  then show ?thesis using snapshot_links.never_outside[OF assms(2)] by simp
qed

text \<open>
  The manifest is the tree. Its entries, with the omitted links, are exactly the listed paths that no exclusion drops and that are on
  disk, once each and in path order; every entry has the type, mode, size and hash (or target) found on disk, a canonical path, and is
  neither a secret nor a submodule.
\<close>

theorem manifest_is_the_tree:
  assumes "buildManifest (Some listed) (Some gitlink) disk omit exclude = Inr m"
  shows "sorted (map ePath (entries m)) \<and> distinct (map ePath (entries m)) \<and>
    (p \<in> ePath ` set (entries m) \<union> set (omittedSymlinks m) \<longleftrightarrow>
       p \<in> set listed \<and> (case exclude of None \<Rightarrow> True | Some ps \<Rightarrow> excludingPattern ps p = None) \<and> disk p \<noteq> None) \<and>
    (\<forall>e \<in> set (entries m). isCanonicalRelPath (ePath e) \<and> \<not> isDenylistedPath (ePath e) \<and> \<not> gitlink (ePath e) \<and> from_disk disk e) \<and>
    (\<not> omit \<longrightarrow> omittedSymlinks m = [])"
  using assms
proof (rule buildManifest_InrE)
  fix raw kept om
  let ?listed = "filter (\<lambda>p. case exclude of None \<Rightarrow> True | Some ps \<Rightarrow> excludingPattern ps p = None) listed"
  assume raw: "raw_entries gitlink disk [] ?listed = Inr raw" and c: "checked_entries omit (link_paths raw) raw = Inr (kept, om)"
    and m: "entries m = sortEntries kept" "omittedSymlinks m = sort om"
  note r = raw_entries_sound[OF raw] and k = checked_entries_kept[OF c]
  have "sorted (map ePath (entries m))" "distinct (map ePath (entries m))" "set (entries m) = set kept"
    using k(3)[OF r(2)] m by (simp_all add: sortEntries_def distinct_map)
  moreover have "p \<in> ePath ` set kept \<union> set om \<longleftrightarrow> p \<in> set ?listed \<and> disk p \<noteq> None" using r(3)[of p] k(4) by auto
  moreover have "e \<in> set kept \<Longrightarrow> isCanonicalRelPath (ePath e) \<and> \<not> isDenylistedPath (ePath e) \<and> \<not> gitlink (ePath e) \<and> from_disk disk e" for e
    using r(1) k(1) by blast
  ultimately show ?thesis using m k(5) by auto
qed

lemma kind_mismatch_None: "kind_mismatch p e a = None \<longleftrightarrow> e = a"
  by (cases e; cases a) (auto simp: kind_mismatch_def)

lemma kind_mismatch_refl [simp]: "kind_mismatch p e e = None"
  by (simp add: kind_mismatch_None)

lemma compare_entries_None: "compare_entries es as = None \<longleftrightarrow> es = as"
  by (induction es as rule: compare_entries.induct) 
    (auto simp: kind_mismatch_None split: option.splits if_splits intro: manifest_entry.equality)

text \<open>
  The runner accepts exactly the tree it was sent. Comparing the extracted tree with the manifest finds nothing if and only if they have
  the same entries, for entry lists without repeated paths.
\<close>

theorem verify_accepts_exactly:
  assumes "distinct (map ePath expected)" and "distinct (map ePath actual)"
  shows "verifyManifestNoGit actual expected = None \<longleftrightarrow> set actual = set expected"
proof -
  have "sortEntries expected = sortEntries actual" if "set actual = set expected"
  proof -
    have "mset expected = mset actual" using assms that by (metis distinct_map set_eq_iff_mset_eq_distinct)
    then show ?thesis unfolding sortEntries_def
      using assms(1) by (intro sort_key_inj_key_eq) (simp_all add: distinct_map)
  qed
  moreover have "set actual = set expected" if "sortEntries expected = sortEntries actual"
    using arg_cong[OF that, of set] by (simp add: sortEntries_def)
  ultimately show ?thesis by (auto simp: verifyManifestNoGit_def compare_entries_None)
qed

section \<open>Witnesses\<close>

definition example_disk :: "string \<Rightarrow> lstat option" where
  "example_disk p = map_of [(''a/f'', OnFile True 3 ''h''), (''a/s'', OnLink ''../b/f''), (''b/f'', OnFile False 5 ''k''), (''up'', OnLink ''../x'')] p"

definition example_listing :: "string list" where
  "example_listing = [''b/f'', ''a/s'', ''a/f'', ''gone'', ''up'', ''a/f'']"

definition example_manifest :: manifest where
  "example_manifest = \<lparr>entries = [\<lparr>ePath = ''a/f'', eKind = FileEntry True 3 ''h''\<rparr>, \<lparr>ePath = ''a/s'', eKind = LinkEntry ''../b/f''\<rparr>,
     \<lparr>ePath = ''b/f'', eKind = FileEntry False 5 ''k''\<rparr>], omittedSymlinks = [''up''], excludedSummary = None\<rparr>"

lemma example_built: "buildManifest (Some example_listing) (Some (\<lambda>_. False)) example_disk True None = Inr example_manifest"
  by code_simp

theorem snapshot_links_stay_inside_witness:
  "(resolve_step (link_target (entries example_manifest)) ^^ 9) (At [] (split_slash ''a/s'')) \<noteq> Outside"
  using snapshot_links_stay_inside[OF example_built, of "''a/s''" 9] by (simp add: example_manifest_def)

theorem manifest_is_the_tree_witness:
  "''up'' \<in> ePath ` set (entries example_manifest) \<union> set (omittedSymlinks example_manifest) \<and> sorted (map ePath (entries example_manifest))"
  using manifest_is_the_tree[OF example_built, of "''up''"] by (simp add: example_listing_def example_disk_def)

theorem verify_accepts_exactly_witness:
  "verifyManifestNoGit (rev (entries example_manifest)) (entries example_manifest) = None"
  using verify_accepts_exactly[of "entries example_manifest" "rev (entries example_manifest)"]
  by (simp add: example_manifest_def insert_commute)

end
