(* ===== verification/Blobs.thy ===== *)
theory Blobs
  imports Manifest Lock "HOL-Library.AList"
begin

text \<open>
  The runner's content-addressed blob store (\<^verbatim>\<open>src/src/remote-blobs.js\<close>): a file the runner has seen is copied out of the store instead of
  being sent again. The content hash is a parameter \<open>sha256\<close>; the volume's free space, write failures and the clock are inputs. A blob is
  keyed by its namespace and hash; the shard directory above it is plain, absent, or something else that is never followed.
\<close>

section \<open>The store\<close>

definition MIN_CACHEABLE_BYTES :: nat where "MIN_CACHEABLE_BYTES = 8192"

definition is_hex :: "nat \<Rightarrow> string \<Rightarrow> bool" where
  "is_hex n s \<longleftrightarrow> length s = n \<and> list_all (\<lambda>c. c \<in> set ''0123456789abcdef'') s"

definition isBlobHash :: "string \<Rightarrow> bool" where
  "isBlobHash s = is_hex 64 s"

definition isCacheable :: "manifest_entry \<Rightarrow> bool" where
  "isCacheable e = (case eKind e of FileEntry _ n h \<Rightarrow> n \<ge> MIN_CACHEABLE_BYTES \<and> isBlobHash h | LinkEntry _ \<Rightarrow> False)"

datatype blob_node = RegularBlob string | OtherNode

datatype shard_state = PlainShard | NoShard | BadShard

record blob =
  bNode :: blob_node
  bTime :: jsnum

type_synonym blob_key = "string \<times> string"

record blob_store =
  blobs :: "(blob_key \<times> blob) list"
  shard :: "string \<Rightarrow> string \<Rightarrow> shard_state"

text \<open>\<^verbatim>\<open>blobPath\<close> refuses a namespace or hash that is not hexadecimal; the first two digits name the shard.\<close>

definition aa_of :: "string \<Rightarrow> string" where
  "aa_of h = take 2 h"

definition validatedShardDir :: "blob_store \<Rightarrow> string \<Rightarrow> string \<Rightarrow> shard_state" where
  "validatedShardDir st ns h = shard st ns (aa_of h)"

definition make_shard :: "blob_store \<Rightarrow> string \<Rightarrow> string \<Rightarrow> blob_store option" where
  "make_shard st ns h =
     (case shard st ns (aa_of h) of
        BadShard \<Rightarrow> None
      | PlainShard \<Rightarrow> Some st
      | NoShard \<Rightarrow> Some (st\<lparr>shard := (shard st)(ns := (shard st ns)(aa_of h := PlainShard))\<rparr>))"

datatype blob_status = Hit string | Miss | Corrupt

definition drop_blob :: "blob_key \<Rightarrow> blob_store \<Rightarrow> blob_store" where
  "drop_blob k st = st\<lparr>blobs := AList.delete k (blobs st)\<rparr>"

definition touch :: "jsnum \<Rightarrow> blob_key \<Rightarrow> blob_store \<Rightarrow> blob_store" where
  "touch now k st = (case map_of (blobs st) k of None \<Rightarrow> st | Some b \<Rightarrow> st\<lparr>blobs := AList.update k (b\<lparr>bTime := now\<rparr>) (blobs st)\<rparr>)"

text \<open>\<^verbatim>\<open>readBlobVerified\<close>: size and hash are checked on the bytes that were read; anything else at the path is removed.\<close>

definition readBlobVerified :: "(string \<Rightarrow> string) \<Rightarrow> jsnum \<Rightarrow> blob_store \<Rightarrow> string \<Rightarrow> string \<Rightarrow> nat \<Rightarrow> blob_status \<times> blob_store" where
  "readBlobVerified sha256 now st ns h sz =
     (if \<not> is_hex 32 ns \<or> \<not> isBlobHash h then (Miss, st)
      else if validatedShardDir st ns h \<noteq> PlainShard then (Miss, st)
      else case map_of (blobs st) (ns, h) of
        None \<Rightarrow> (Miss, st)
      | Some b \<Rightarrow>
         (case bNode b of
            OtherNode \<Rightarrow> (Corrupt, drop_blob (ns, h) st)
          | RegularBlob bytes \<Rightarrow>
              if length bytes \<noteq> sz \<or> sha256 bytes \<noteq> h then (Corrupt, drop_blob (ns, h) st)
              else (Hit bytes, touch now (ns, h) st)))"

definition hasBlob :: "(string \<Rightarrow> string) \<Rightarrow> jsnum \<Rightarrow> blob_store \<Rightarrow> string \<Rightarrow> string \<Rightarrow> nat \<Rightarrow> blob_status \<times> blob_store" where
  "hasBlob sha256 now st ns h sz = readBlobVerified sha256 now st ns h sz"

text \<open>\<^verbatim>\<open>haveBlobs\<close>: the indices of the hashes whose blob is intact, the size taken from the blob itself.\<close>

definition blob_size :: "blob_store \<Rightarrow> string \<Rightarrow> string \<Rightarrow> nat option" where
  "blob_size st ns h =
     (if validatedShardDir st ns h \<noteq> PlainShard then None
      else case map_of (blobs st) (ns, h) of
        Some b \<Rightarrow> (case bNode b of RegularBlob bytes \<Rightarrow> Some (length bytes) | OtherNode \<Rightarrow> None)
      | None \<Rightarrow> None)"

fun have_from :: "(string \<Rightarrow> string) \<Rightarrow> jsnum \<Rightarrow> string \<Rightarrow> nat \<Rightarrow> string list \<Rightarrow> blob_store \<Rightarrow> nat list \<times> blob_store" where
  "have_from sha256 now ns i [] st = ([], st)"
| "have_from sha256 now ns i (h # hs) st =
     (case blob_size st ns h of
        None \<Rightarrow> have_from sha256 now ns (Suc i) hs st
      | Some sz \<Rightarrow>
         (case hasBlob sha256 now st ns h sz of
            (Hit _, st1) \<Rightarrow> (case have_from sha256 now ns (Suc i) hs st1 of (js, st2) \<Rightarrow> (i # js, st2))
          | (_, st1) \<Rightarrow> have_from sha256 now ns (Suc i) hs st1))"

definition haveBlobs :: "(string \<Rightarrow> string) \<Rightarrow> jsnum \<Rightarrow> blob_store \<Rightarrow> string \<Rightarrow> string list \<Rightarrow> nat list \<times> blob_store" where
  "haveBlobs sha256 now st ns hashes = have_from sha256 now ns 0 hashes st"

datatype publish_result = Stored | Exists | Skipped | NotCached

definition publishBlob ::
  "(string \<Rightarrow> string) \<Rightarrow> jsnum \<Rightarrow> nat \<Rightarrow> nat \<Rightarrow> bool \<Rightarrow> blob_store \<Rightarrow> string \<Rightarrow> manifest_entry \<Rightarrow> string \<Rightarrow> publish_result \<times> blob_store" where
  "publishBlob sha256 now free headroom writeOk st ns e bytes =
     (case eKind e of
        LinkEntry _ \<Rightarrow> (NotCached, st)
      | FileEntry _ sz h \<Rightarrow>
          if \<not> isCacheable e \<or> length bytes \<noteq> sz then (NotCached, st)
          else if sha256 bytes \<noteq> h then (NotCached, st)
          else case make_shard st ns h of
            None \<Rightarrow> (NotCached, st)
          | Some st1 \<Rightarrow>
              if (case map_of (blobs st1) (ns, h) of Some b \<Rightarrow> (case bNode b of RegularBlob x \<Rightarrow> length x = sz | OtherNode \<Rightarrow> False) | None \<Rightarrow> False)
              then (Exists, st1)
              else if free < headroom + length bytes then (Skipped, st1)
              else if \<not> writeOk then (NotCached, st1)
              else (Stored, st1\<lparr>blobs := AList.update (ns, h) \<lparr>bNode = RegularBlob bytes, bTime = now\<rparr> (blobs st1)\<rparr>))"

section \<open>Leases and eviction\<close>

text \<open>A lease file: unreadable (with its age known or not), malformed, or a holder with the hashes it needs.\<close>

datatype lease_file = NotAFile | Unreadable "jsnum option" | Malformed | LeaseOf "string list" "jsnum option" bool

definition STALE_UNREADABLE_LEASE_MS :: jsnum where "STALE_UNREADABLE_LEASE_MS = 86400000"

definition lease_live :: "jsnum \<Rightarrow> jsnum option \<Rightarrow> bool \<Rightarrow> bool" where
  "lease_live now expiresAt processAlive = (case expiresAt of Some e \<Rightarrow> e > now | None \<Rightarrow> processAlive)"

definition lease_blocks :: "jsnum \<Rightarrow> lease_file \<Rightarrow> bool" where
  "lease_blocks now f =
     (case f of
        NotAFile \<Rightarrow> True
      | Unreadable age \<Rightarrow> (case age of Some mtime \<Rightarrow> \<not> now - mtime > STALE_UNREADABLE_LEASE_MS | None \<Rightarrow> True)
      | Malformed \<Rightarrow> True
      | LeaseOf _ _ _ \<Rightarrow> False)"

definition lease_removed :: "jsnum \<Rightarrow> lease_file \<Rightarrow> bool" where
  "lease_removed now f =
     (case f of
        Unreadable age \<Rightarrow> \<not> lease_blocks now f
      | LeaseOf _ e alive \<Rightarrow> \<not> lease_live now e alive
      | _ \<Rightarrow> False)"

definition lease_hashes :: "jsnum \<Rightarrow> lease_file \<Rightarrow> string list" where
  "lease_hashes now f = (case f of LeaseOf hs e alive \<Rightarrow> if lease_live now e alive then hs else [] | _ \<Rightarrow> [])"

text \<open>\<^verbatim>\<open>leasedHashes\<close>: the held hashes, whether eviction is blocked outright, and the lease files left.\<close>

definition leasedHashes :: "jsnum \<Rightarrow> lease_file list \<Rightarrow> string list \<times> bool \<times> lease_file list" where
  "leasedHashes now fs = (concat (map (lease_hashes now) fs), list_ex (lease_blocks now) fs, filter (\<lambda>f. \<not> lease_removed now f) fs)"

record victim =
  vKey :: blob_key
  vSize :: nat
  vTime :: jsnum

definition expired :: "jsnum \<Rightarrow> jsnum \<Rightarrow> victim \<Rightarrow> bool" where
  "expired now maxAge c \<longleftrightarrow> now - vTime c > maxAge"

fun evict_lru :: "jsnum \<Rightarrow> jsnum \<Rightarrow> victim list \<Rightarrow> victim list" where
  "evict_lru budget kept [] = []"
| "evict_lru budget kept (c # cs) = (if kept \<le> budget then [] else c # evict_lru budget (kept - of_nat (vSize c)) cs)"

text \<open>The choice made outside the lock: the expired candidates, then the least recently used until the sampled bytes fit the scaled budget.\<close>

definition select_victims :: "jsnum \<Rightarrow> jsnum \<Rightarrow> jsnum \<Rightarrow> nat \<Rightarrow> nat \<Rightarrow> victim list \<Rightarrow> victim list" where
  "select_victims now maxAge maxBytes scanned totalShards candidates =
     (let old = filter (expired now maxAge) candidates;
          fresh = filter (\<lambda>c. \<not> expired now maxAge c) candidates;
          fraction = (if totalShards = 0 \<or> scanned = 0 then 1 else of_nat scanned / of_nat totalShards);
          kept = sum_list (map (\<lambda>c. of_nat (vSize c)) fresh)
      in old @ evict_lru (maxBytes * fraction) kept (sort_key vTime fresh))"

text \<open>The move made under the lock: leases, shard and time of last use are checked again for every victim.\<close>

definition evict_one :: "string list \<Rightarrow> (blob_key \<Rightarrow> bool) \<Rightarrow> victim \<Rightarrow> string list \<times> blob_store \<Rightarrow> string list \<times> blob_store" where
  "evict_one held renameOk v acc =
     (let (evicted, st) = acc
      in if snd (vKey v) \<in> set held then acc
         else if validatedShardDir st (fst (vKey v)) (snd (vKey v)) \<noteq> PlainShard then acc
         else case map_of (blobs st) (vKey v) of
           None \<Rightarrow> acc
         | Some b \<Rightarrow>
             if bTime b > vTime v then acc
             else if renameOk (vKey v) then (evicted @ [snd (vKey v)], drop_blob (vKey v) st) else acc)"

definition evictBlobs :: "jsnum \<Rightarrow> (blob_key \<Rightarrow> bool) \<Rightarrow> lease_file list \<Rightarrow> victim list \<Rightarrow> blob_store \<Rightarrow> string list \<times> blob_store" where
  "evictBlobs now renameOk leases victims st =
     (case leasedHashes now leases of (held, blockAll, _) \<Rightarrow> if blockAll then ([], st) else fold (evict_one held renameOk) victims ([], st))"

section \<open>Lemmas\<close>

lemma readBlobVerified_HitD:
  "fst (readBlobVerified sha256 now st ns h sz) = Hit bytes \<Longrightarrow> length bytes = sz \<and> sha256 bytes = h \<and> is_hex 32 ns \<and> isBlobHash h"
  by (auto simp: readBlobVerified_def split: if_splits option.splits blob_node.splits)

lemma drop_blob_lookup [simp]: "map_of (blobs (drop_blob k st)) q = (if q = k then None else map_of (blobs st) q)"
  by (simp add: drop_blob_def delete_conv')

lemma drop_blob_shard [simp]: "shard (drop_blob k st) = shard st"
  by (simp add: drop_blob_def)

lemma evict_one_keeps:
  assumes "snd k \<in> set held \<or> (\<exists>b. map_of (blobs (snd acc)) k = Some b \<and> (\<forall>v \<in> set vs. vKey v = k \<longrightarrow> vTime v < bTime b))"
  shows "v \<in> set vs \<Longrightarrow> map_of (blobs (snd (evict_one held renameOk v acc))) k = map_of (blobs (snd acc)) k"
  using assms by (auto simp: evict_one_def Let_def split: prod.splits option.splits)

lemma fold_evict_keeps:
  assumes "set vs \<subseteq> set ws" and "snd k \<in> set held \<or> (\<exists>b. map_of (blobs (snd acc)) k = Some b \<and> (\<forall>v \<in> set ws. vKey v = k \<longrightarrow> vTime v < bTime b))"
  shows "map_of (blobs (snd (fold (evict_one held renameOk) vs acc))) k = map_of (blobs (snd acc)) k"
  using assms
proof (induction vs arbitrary: acc)
  case (Cons v vs)
  have "map_of (blobs (snd (evict_one held renameOk v acc))) k = map_of (blobs (snd acc)) k"
    using evict_one_keeps[OF Cons.prems(2), of v renameOk] Cons.prems(1) by simp
  then show ?case using Cons by simp
qed simp

section \<open>Properties\<close>

text \<open>
  C34. The store serves only what the manifest names. Whatever bytes, links or half-written files sit in the store, a hit has the size and the
  hash asked for; and a published body is found again under its entry until it is evicted or replaced.
\<close>

theorem blob_store_serves_hash:
  assumes "is_hex 32 ns"
  shows "(\<forall>bytes. fst (readBlobVerified sha256 now st ns h sz) = Hit bytes \<longrightarrow> length bytes = sz \<and> sha256 bytes = h) \<and>
    (fst (publishBlob sha256 now free headroom ok st ns e body) = Stored \<longrightarrow>
       fst (readBlobVerified sha256 later (snd (publishBlob sha256 now free headroom ok st ns e body)) ns (entrySha (eKind e)) (entrySize (eKind e))) = Hit body)"
proof -
  have "fst (readBlobVerified sha256 later (snd (publishBlob sha256 now free headroom ok st ns e body)) ns (entrySha (eKind e)) (entrySize (eKind e))) = Hit body"
    if stored: "fst (publishBlob sha256 now free headroom ok st ns e body) = Stored"
  proof (cases "eKind e")
    case (FileEntry x sz' h')
    with stored obtain st1 where st1: "make_shard st ns h' = Some st1"
      and c: "isCacheable e" "length body = sz'" "sha256 body = h'"
      and r: "snd (publishBlob sha256 now free headroom ok st ns e body) =
        st1\<lparr>blobs := AList.update (ns, h') \<lparr>bNode = RegularBlob body, bTime = now\<rparr> (blobs st1)\<rparr>"
      by (auto simp: publishBlob_def split: if_splits option.splits)
    have "shard st1 ns (aa_of h') = PlainShard" using st1 by (auto simp: make_shard_def split: shard_state.splits)
    then show ?thesis using FileEntry c assms by (simp add: r readBlobVerified_def validatedShardDir_def isCacheable_def update_conv')
  qed (use stored in \<open>simp add: publishBlob_def\<close>)
  then show ?thesis using readBlobVerified_HitD by blast
qed

text \<open>
  Eviction respects leases and use. A blob whose hash a live lease holds, and one that was used after the victims were chosen, is still
  there after the pass; with any unreadable or malformed lease nothing is evicted at all.
\<close>

theorem eviction_respects_leases:
  assumes "snd k \<in> set (fst (leasedHashes now leases)) \<or>
      (\<exists>b. map_of (blobs st) k = Some b \<and> list_all (\<lambda>v. vKey v = k \<longrightarrow> vTime v < bTime b) victims) \<or>
      list_ex (lease_blocks now) leases"
  shows "map_of (blobs (snd (evictBlobs now renameOk leases victims st))) k = map_of (blobs st) k"
proof (cases "list_ex (lease_blocks now) leases")
  case True
  then show ?thesis by (simp add: evictBlobs_def leasedHashes_def)
next
  case False
  then show ?thesis
    using assms fold_evict_keeps[of victims victims k "fst (leasedHashes now leases)" "([], st)" renameOk]
    by (auto simp: evictBlobs_def leasedHashes_def list_all_iff)
qed

section \<open>Witnesses\<close>

definition example_hash :: "string \<Rightarrow> string" where
  "example_hash bytes = replicate 62 CHR ''0'' @ (if length bytes mod 2 = 0 then ''aa'' else ''bb'')"

definition example_body :: string where "example_body = replicate 8192 CHR ''x''"
definition example_ns :: string where "example_ns = replicate 32 CHR ''1''"

definition example_blob_entry :: manifest_entry where
  "example_blob_entry = \<lparr>ePath = ''big'', eKind = FileEntry False 8192 (replicate 62 CHR ''0'' @ ''aa'')\<rparr>"

definition empty_store :: blob_store where
  "empty_store = \<lparr>blobs = [], shard = (\<lambda>_ _. NoShard)\<rparr>"

lemma example_stored: "fst (publishBlob example_hash 5 100000 10 True empty_store example_ns example_blob_entry example_body) = Stored"
  by (simp add: publishBlob_def example_blob_entry_def isCacheable_def MIN_CACHEABLE_BYTES_def isBlobHash_def is_hex_def list_all_iff
      example_body_def example_hash_def make_shard_def empty_store_def)

theorem blob_store_serves_hash_witness:
  "fst (readBlobVerified example_hash 6 (snd (publishBlob example_hash 5 100000 10 True empty_store example_ns example_blob_entry example_body))
     example_ns (entrySha (eKind example_blob_entry)) (entrySize (eKind example_blob_entry))) = Hit example_body"
proof -
  have "is_hex 32 example_ns" by (simp add: is_hex_def example_ns_def list_all_iff)
  from blob_store_serves_hash[OF this] example_stored show ?thesis by blast
qed

theorem eviction_respects_leases_witness:
  "map_of (blobs (snd (evictBlobs 10 (\<lambda>_. True) [LeaseOf [''h''] (Some 20) False] [\<lparr>vKey = (''n'', ''h''), vSize = 1, vTime = 0\<rparr>]
     \<lparr>blobs = [((''n'', ''h''), \<lparr>bNode = RegularBlob ''x'', bTime = 0\<rparr>)], shard = (\<lambda>_ _. PlainShard)\<rparr>))) (''n'', ''h'') \<noteq> None"
  by (subst eviction_respects_leases) (simp_all add: leasedHashes_def lease_hashes_def lease_live_def)

end
