(* ===== verification/Snapshot.thy ===== *)
theory Snapshot
  imports Reader Blobs
begin

text \<open>
  The snapshot stream (\<^verbatim>\<open>src/src/remote-stream.js\<close>): the submitter encodes a manifest and its files as framed bytes, the runner extracts them into
  a fresh directory, checking every frame against the manifest before it writes. The stream is adversarial: nothing below assumes that
  it was produced by \<^verbatim>\<open>encodeSnapshot\<close>. \<^verbatim>\<open>JSON.parse\<close> of a frame line is the parameter \<open>parse\<close>; the content hash is \<open>sha256\<close>.
\<close>

section \<open>Frames\<close>

datatype frame_type = TypeFile | TypeLink | TypeOther
datatype frame_body = NoBody | CachedBody | OtherBody

text \<open>The fields a frame line is read for; \<open>None\<close> for a path or target that is no string and a size that is no natural number.\<close>

record frame =
  fEnd :: bool
  fPath :: "string option"
  fType :: frame_type
  fExec :: bool
  fSize :: "nat option"
  fBody :: frame_body
  fTarget :: "string option"

datatype frame_problem =
  MalformedFrame | InvalidFramePath string | UnlistedPath string | DuplicatePath string | AncestorIsLink string | FrameTypeMismatch string |
  FrameExecMismatch string | InvalidSize string | FrameSizeMismatch string | OversizeFrame string | OversizeTotal string | CacheNotEnabled string |
  CachedTooSmall string | CachedNoHash string | UnknownBody string | FrameTargetMismatch string

record limits =
  maxFileBytes :: "nat option"
  maxTotalBytes :: "nat option"
  maxLineBytes :: nat
  blobNs :: "string option"

definition over :: "nat option \<Rightarrow> nat \<Rightarrow> bool" where
  "over lms n = (case lms of None \<Rightarrow> False | Some m \<Rightarrow> n > m)"

definition expected_entry :: "manifest_entry list \<Rightarrow> string \<Rightarrow> manifest_entry option" where
  "expected_entry es p = List.find (\<lambda>e. ePath e = p) (rev es)"

definition ancestor_link :: "string list \<Rightarrow> string \<Rightarrow> bool" where
  "ancestor_link links p = list_ex (\<lambda>n. join_slash (take n (dir_segs p)) \<in> set links) [1..<Suc (length (dir_segs p))]"

definition file_frame_problem :: "limits \<Rightarrow> nat \<Rightarrow> string \<Rightarrow> frame \<Rightarrow> bool \<Rightarrow> nat \<Rightarrow> string \<Rightarrow> frame_problem option" where
  "file_frame_problem lms used p f x n h =
     (if fExec f \<noteq> x then Some (FrameExecMismatch p)
      else case fSize f of None \<Rightarrow> Some (InvalidSize p)
      | Some m \<Rightarrow>
          if m \<noteq> n then Some (FrameSizeMismatch p)
          else if over (maxFileBytes lms) m then Some (OversizeFrame p)
          else if over (maxTotalBytes lms) (used + m) then Some (OversizeTotal p)
          else if fBody f = CachedBody then
            (if blobNs lms = None then Some (CacheNotEnabled p)
             else if n < MIN_CACHEABLE_BYTES then Some (CachedTooSmall p)
             else if \<not> isBlobHash h then Some (CachedNoHash p) else None)
          else if blobNs lms \<noteq> None \<and> fBody f \<noteq> NoBody then Some (UnknownBody p) else None)"

definition validateFrame :: "limits \<Rightarrow> manifest_entry list \<Rightarrow> string list \<Rightarrow> nat \<Rightarrow> frame \<Rightarrow> frame_problem option" where
  "validateFrame lms es seen used f =
     (case fPath f of None \<Rightarrow> Some MalformedFrame
      | Some p \<Rightarrow>
          if \<not> isCanonicalRelPath p then Some (InvalidFramePath p)
          else case expected_entry es p of None \<Rightarrow> Some (UnlistedPath p)
          | Some e \<Rightarrow>
              if p \<in> set seen then Some (DuplicatePath p)
              else if ancestor_link (link_paths es) p then Some (AncestorIsLink p)
              else case eKind e of
                FileEntry x n h \<Rightarrow> if fType f \<noteq> TypeFile then Some (FrameTypeMismatch p) else file_frame_problem lms used p f x n h
              | LinkEntry t \<Rightarrow>
                  if fType f \<noteq> TypeLink then Some (FrameTypeMismatch p)
                  else if fTarget f \<noteq> Some t then Some (FrameTargetMismatch p) else None)"

text \<open>\<^verbatim>\<open>checkExtractSymlinkTarget\<close>: the runner's own copy of the link walk, with the absolute test first.\<close>

definition checkExtractSymlinkTarget :: "string \<Rightarrow> string \<Rightarrow> string list \<Rightarrow> ineligible option" where
  "checkExtractSymlinkTarget relPath target links =
     (if is_absolute target then Some (AbsoluteTarget relPath)
      else if ancestor_link links relPath then Some (AncestorSymlink relPath)
      else walk_target links relPath (dir_segs relPath) (split_slash target))"

section \<open>The extracted tree\<close>

text \<open>
  The directory tree under the destination, by path segments. Creating the directories above a file fails on a regular file in the way and,
  like \<^verbatim>\<open>mkdir -p\<close>, passes through a link; that it never meets one is proved below.
\<close>

datatype tnode = TFile bool string | TLink string | TDir

type_synonym tree = "(string list \<times> tnode) list"

fun mkdirs :: "string list \<Rightarrow> string list \<Rightarrow> tree \<Rightarrow> tree option" where
  "mkdirs acc [] t = Some t"
| "mkdirs acc (s # ss) t =
     (case map_of t (acc @ [s]) of
        None \<Rightarrow> mkdirs (acc @ [s]) ss ((acc @ [s], TDir) # t)
      | Some (TFile _ _) \<Rightarrow> None
      | Some _ \<Rightarrow> mkdirs (acc @ [s]) ss t)"

definition create :: "string list \<Rightarrow> tnode \<Rightarrow> tree \<Rightarrow> tree option" where
  "create p n t = (if map_of t p = None then Some ((p, n) # t) else None)"

definition node_entry :: "(string \<Rightarrow> string) \<Rightarrow> string list \<times> tnode \<Rightarrow> manifest_entry option" where
  "node_entry sha256 pn =
     (case snd pn of
        TFile x b \<Rightarrow> Some \<lparr>ePath = join_slash (fst pn), eKind = FileEntry x (length b) (sha256 b)\<rparr>
      | TLink t \<Rightarrow> Some \<lparr>ePath = join_slash (fst pn), eKind = LinkEntry t\<rparr>
      | TDir \<Rightarrow> None)"

definition tree_entries :: "(string \<Rightarrow> string) \<Rightarrow> tree \<Rightarrow> manifest_entry list" where
  "tree_entries sha256 t = List.map_filter (node_entry sha256) t"

section \<open>Extraction\<close>

record extraction =
  xTree :: tree
  xSeen :: "string list"
  xBytes :: nat
  xStore :: blob_store
  xHits :: nat
  xMissing :: "string list"
  xCorrupt :: "string list"
  xPublished :: nat

record blob_io =
  ioNow :: jsnum
  ioFree :: nat
  ioHeadroom :: nat
  ioWriteOk :: bool

datatype extract_problem =
  DestExists | FrameHeader | NoTerminator | MalformedJson | BadFrame frame_problem | BodyFailed string | BodyTruncated string | OpenFailed string |
  LinkEscapes ineligible | LinkCreateFailed string | MissingEntry | AfterTerminator | TrailingBytes | CacheCorrupt nat | CacheMiss nat | TreeDiffers mismatch

datatype extract_result = Extracted | Refused extract_problem | Threw | OutOfFuel

definition write_cached :: "(string \<Rightarrow> string) \<Rightarrow> blob_io \<Rightarrow> string \<Rightarrow> string \<Rightarrow> bool \<Rightarrow> nat \<Rightarrow> string \<Rightarrow> extraction \<Rightarrow> extract_problem option \<times> extraction" where
  "write_cached sha256 io ns p x n h st =
     (let st1 = st\<lparr>xBytes := xBytes st + n\<rparr>
      in case readBlobVerified sha256 (ioNow io) (xStore st1) ns h n of
           (Hit bytes, store) \<Rightarrow>
             (case create (split_slash p) (TFile x bytes) (xTree st1) of
                None \<Rightarrow> (Some (OpenFailed p), st1\<lparr>xStore := store\<rparr>)
              | Some t \<Rightarrow> (None, st1\<lparr>xTree := t, xStore := store, xHits := xHits st1 + 1\<rparr>))
         | (Corrupt, store) \<Rightarrow> (None, st1\<lparr>xStore := store, xCorrupt := p # xCorrupt st1\<rparr>)
         | (Miss, store) \<Rightarrow> (None, st1\<lparr>xStore := store, xMissing := p # xMissing st1\<rparr>))"

definition write_body :: "(string \<Rightarrow> string) \<Rightarrow> blob_io \<Rightarrow> limits \<Rightarrow> manifest_entry \<Rightarrow> string \<Rightarrow> bool \<Rightarrow> string \<Rightarrow> extraction \<Rightarrow> extract_problem option \<times> extraction" where
  "write_body sha256 io lms e p x bytes st =
     (case create (split_slash p) (TFile x bytes) (xTree st) of
        None \<Rightarrow> (Some (OpenFailed p), st)
      | Some t \<Rightarrow>
         (let st1 = st\<lparr>xTree := t, xBytes := xBytes st + length bytes\<rparr>
          in case blobNs lms of
               None \<Rightarrow> (None, st1)
             | Some ns \<Rightarrow>
                 if length bytes < MIN_CACHEABLE_BYTES then (None, st1)
                 else (case publishBlob sha256 (ioNow io) (ioFree io) (ioHeadroom io) (ioWriteOk io) (xStore st1) ns e bytes of
                         (r, store) \<Rightarrow> (None, st1\<lparr>xStore := store, xPublished := (if r = Stored then xPublished st1 + 1 else xPublished st1)\<rparr>))))"

definition write_link :: "string list \<Rightarrow> string \<Rightarrow> string \<Rightarrow> extraction \<Rightarrow> extract_problem option \<times> extraction" where
  "write_link links p t st =
     (case checkExtractSymlinkTarget p t links of
        Some x \<Rightarrow> (Some (LinkEscapes x), st)
      | None \<Rightarrow>
         (case create (split_slash p) (TLink t) (xTree st) of
            None \<Rightarrow> (Some (LinkCreateFailed p), st)
          | Some t' \<Rightarrow> (None, st\<lparr>xTree := t'\<rparr>)))"

text \<open>One validated frame: the directories above it, then a cached file, a body read off the stream, or a link.\<close>

definition apply_frame ::
  "(nat \<Rightarrow> 'r \<Rightarrow> string read \<times> 'r) \<Rightarrow> (string \<Rightarrow> string) \<Rightarrow> blob_io \<Rightarrow> limits \<Rightarrow> manifest_entry list \<Rightarrow> frame \<Rightarrow> string \<Rightarrow> manifest_entry \<Rightarrow> 'r \<Rightarrow> extraction \<Rightarrow>
   (extract_result \<times> extraction) + (extraction \<times> 'r)" where
  "apply_frame body sha256 io lms es f p e r st =
     (let st1 = st\<lparr>xSeen := p # xSeen st\<rparr>
      in case mkdirs [] (dir_segs p) (xTree st1) of
           None \<Rightarrow> Inl (Threw, st1)
         | Some t \<Rightarrow>
            (let st2 = st1\<lparr>xTree := t\<rparr>;
                 after = (\<lambda>r' res. case res of (Some x, st3) \<Rightarrow> Inl (Refused x, st3) | (None, st3) \<Rightarrow> Inr (st3, r'))
             in case eKind e of
                  LinkEntry tg \<Rightarrow> after r (write_link (link_paths es) p tg st2)
                | FileEntry x n h \<Rightarrow>
                    (case (fBody f, blobNs lms) of
                       (CachedBody, Some ns) \<Rightarrow> after r (write_cached sha256 io ns p x n h st2)
                     | _ \<Rightarrow>
                         (case body n r of
                            (Failed, _) \<Rightarrow> Inl (Refused (BodyFailed p), st2)
                          | (Eof, _) \<Rightarrow> Inl (Refused (BodyTruncated p), st2)
                          | (Got bytes, r') \<Rightarrow> after r' (write_body sha256 io lms e p x bytes st2)))))"

definition finish_extract ::
  "('r \<Rightarrow> bool read \<times> 'r) \<Rightarrow> (string \<Rightarrow> string) \<Rightarrow> manifest_entry list \<Rightarrow> 'r \<Rightarrow> extraction \<Rightarrow> extract_result" where
  "finish_extract hasm sha256 es r st =
     (if length (remdups (xSeen st)) \<noteq> length es then Refused MissingEntry
      else case fst (hasm r) of
        Got b \<Rightarrow>
          if b then Refused TrailingBytes
          else if xCorrupt st \<noteq> [] then Refused (CacheCorrupt (length (xCorrupt st)))
          else if xMissing st \<noteq> [] then Refused (CacheMiss (length (xMissing st)))
          else (case verifyManifestNoGit (tree_entries sha256 (xTree st)) es of Some m \<Rightarrow> Refused (TreeDiffers m) | None \<Rightarrow> Extracted)
      | _ \<Rightarrow> Refused AfterTerminator)"

fun extract_loop ::
  "(nat \<Rightarrow> 'r \<Rightarrow> string read \<times> 'r) \<Rightarrow> (nat \<Rightarrow> 'r \<Rightarrow> string read \<times> 'r) \<Rightarrow> ('r \<Rightarrow> bool read \<times> 'r) \<Rightarrow> (string \<Rightarrow> frame option) \<Rightarrow> (string \<Rightarrow> string) \<Rightarrow>
   blob_io \<Rightarrow> limits \<Rightarrow> manifest_entry list \<Rightarrow> nat \<Rightarrow> 'r \<Rightarrow> extraction \<Rightarrow> extract_result \<times> extraction" where
  "extract_loop line body hasm parse sha256 io lms es 0 r st = (OutOfFuel, st)"
| "extract_loop line body hasm parse sha256 io lms es (Suc fuel) r st =
     (case line (maxLineBytes lms) r of
        (Failed, _) \<Rightarrow> (Refused FrameHeader, st)
      | (Eof, _) \<Rightarrow> (Refused NoTerminator, st)
      | (Got l, r1) \<Rightarrow>
         (case parse l of
            None \<Rightarrow> (Refused MalformedJson, st)
          | Some f \<Rightarrow>
              if fEnd f then (finish_extract hasm sha256 es r1 st, st)
              else
                (case validateFrame lms es (xSeen st) (xBytes st) f of
                   Some x \<Rightarrow> (Refused (BadFrame x), st)
                 | None \<Rightarrow>
                    (case fPath f of
                       None \<Rightarrow> (Refused (BadFrame MalformedFrame), st)
                     | Some p \<Rightarrow>
                        (case expected_entry es p of
                           None \<Rightarrow> (Refused (BadFrame (UnlistedPath p)), st)
                         | Some e \<Rightarrow>
                            (case apply_frame body sha256 io lms es f p e r1 st of
                               Inl res \<Rightarrow> res
                             | Inr (st1, r2) \<Rightarrow> extract_loop line body hasm parse sha256 io lms es fuel r2 st1))))))"

definition fresh_extraction :: "blob_store \<Rightarrow> extraction" where
  "fresh_extraction store = \<lparr>xTree = [], xSeen = [], xBytes = 0, xStore = store, xHits = 0, xMissing = [], xCorrupt = [], xPublished = 0\<rparr>"

text \<open>\<^verbatim>\<open>extractFrames\<close>; every turn of its loop consumes a line, so one turn more than the stream has bytes is enough.\<close>

definition extractFrames ::
  "(string \<Rightarrow> frame option) \<Rightarrow> (string \<Rightarrow> string) \<Rightarrow> blob_io \<Rightarrow> limits \<Rightarrow> manifest_entry list \<Rightarrow> bool \<Rightarrow> blob_store \<Rightarrow> reader \<Rightarrow> extract_result \<times> extraction" where
  "extractFrames parse sha256 io lms es destExists store r =
     (if destExists then (Refused DestExists, fresh_extraction store)
      else extract_loop readLine readBytes hasMore parse sha256 io lms es (Suc (length (fst (flat_of r)))) r (fresh_extraction store))"

section \<open>Encoding\<close>

text \<open>
  \<^verbatim>\<open>encodeSnapshot\<close> after its header line: per entry a frame line and, for a file the runner does not have, its bytes; a body is read again and
  checked (\<^verbatim>\<open>readVerifiedFile\<close>), and any change since the manifest was built ends the stream in an error.
\<close>

definition frame_of :: "(string \<Rightarrow> bool) \<Rightarrow> manifest_entry \<Rightarrow> frame" where
  "frame_of cached e =
     (case eKind e of
        FileEntry x n _ \<Rightarrow> \<lparr>fEnd = False, fPath = Some (ePath e), fType = TypeFile, fExec = x, fSize = Some n,
          fBody = (if cached (ePath e) then CachedBody else NoBody), fTarget = None\<rparr>
      | LinkEntry t \<Rightarrow> \<lparr>fEnd = False, fPath = Some (ePath e), fType = TypeLink, fExec = False, fSize = None, fBody = NoBody, fTarget = Some t\<rparr>)"

definition end_frame :: frame where
  "end_frame = \<lparr>fEnd = True, fPath = None, fType = TypeOther, fExec = False, fSize = None, fBody = NoBody, fTarget = None\<rparr>"

definition readVerifiedFile :: "(string \<Rightarrow> string) \<Rightarrow> (string \<Rightarrow> string option) \<Rightarrow> manifest_entry \<Rightarrow> string option" where
  "readVerifiedFile sha256 read e =
     (case read (ePath e) of
        None \<Rightarrow> None
      | Some b \<Rightarrow> if length b = entrySize (eKind e) \<and> sha256 b = entrySha (eKind e) then Some b else None)"

fun encode_entries :: "(frame \<Rightarrow> string) \<Rightarrow> (string \<Rightarrow> string) \<Rightarrow> (string \<Rightarrow> string option) \<Rightarrow> (string \<Rightarrow> bool) \<Rightarrow> manifest_entry list \<Rightarrow> string \<times> bool" where
  "encode_entries print sha256 read cached [] = (print end_frame @ [NEWLINE], False)"
| "encode_entries print sha256 read cached (e # es) =
     (let rest = encode_entries print sha256 read cached es; head = print (frame_of cached e) @ [NEWLINE]
      in if is_link e then (head @ fst rest, snd rest)
         else case readVerifiedFile sha256 read e of
           None \<Rightarrow> (head, True)
         | Some b \<Rightarrow> (head @ (if cached (ePath e) then [] else b) @ fst rest, snd rest))"

definition encodeSnapshot :: "(frame \<Rightarrow> string) \<Rightarrow> (string \<Rightarrow> string) \<Rightarrow> (string \<Rightarrow> string option) \<Rightarrow> (string \<Rightarrow> bool) \<Rightarrow> manifest_entry list \<Rightarrow> string \<times> bool" where
  "encodeSnapshot print sha256 read cached es = encode_entries print sha256 read cached (sortEntries es)"

end
