(* ===== verification/Snapshot_Safety.thy ===== *)
theory Snapshot_Safety
  imports Snapshot
begin

text \<open>
  What holds of the extraction whatever bytes arrive: it ends, its outcome depends only on the bytes and not on how they were cut into chunks,
  it never writes through a link or beyond its limits, the links it creates lead nowhere outside, and when it reports success the tree is the manifest.
\<close>

section \<open>Chunking and termination\<close>

text \<open>A frame that needs no body from the stream, and one that does.\<close>

definition no_body :: "limits \<Rightarrow> frame \<Rightarrow> manifest_entry \<Rightarrow> bool" where
  "no_body lms f e \<longleftrightarrow> is_link e \<or> fBody f = CachedBody \<and> blobNs lms \<noteq> None"

definition opened :: "string \<Rightarrow> tree \<Rightarrow> extraction \<Rightarrow> extraction" where
  "opened p t st = st\<lparr>xSeen := p # xSeen st, xTree := t\<rparr>"

definition write_plain :: "(string \<Rightarrow> string) \<Rightarrow> blob_io \<Rightarrow> limits \<Rightarrow> manifest_entry list \<Rightarrow> string \<Rightarrow> manifest_entry \<Rightarrow> extraction \<Rightarrow> extract_problem option \<times> extraction" where
  "write_plain sha256 io lms es p e st =
     (case eKind e of
        LinkEntry tg \<Rightarrow> write_link (link_paths es) p tg st
      | FileEntry x n h \<Rightarrow> write_cached sha256 io (nullish (blobNs lms) []) p x n h st)"

lemma apply_frame_throws: "mkdirs [] (dir_segs p) (xTree st) = None \<Longrightarrow> apply_frame body sha256 io lms es f p e r st = Inl (Threw, st\<lparr>xSeen := p # xSeen st\<rparr>)"
  by (simp add: apply_frame_def)

lemma apply_frame_plain:
  assumes "mkdirs [] (dir_segs p) (xTree st) = Some t" "no_body lms f e"
  shows "apply_frame body sha256 io lms es f p e r st =
    (case write_plain sha256 io lms es p e (opened p t st) of (Some x, st3) \<Rightarrow> Inl (Refused x, st3) | (None, st3) \<Rightarrow> Inr (st3, r))"
  using assms by (cases "eKind e"; cases "blobNs lms"; cases "fBody f") (auto simp: apply_frame_def no_body_def write_plain_def opened_def is_link_def Let_def)

lemma apply_frame_body:
  assumes "mkdirs [] (dir_segs p) (xTree st) = Some t" "\<not> no_body lms f e"
  shows "apply_frame body sha256 io lms es f p e r st =
    (case body (entrySize (eKind e)) r of
       (Failed, _) \<Rightarrow> Inl (Refused (BodyFailed p), opened p t st)
     | (Eof, _) \<Rightarrow> Inl (Refused (BodyTruncated p), opened p t st)
     | (Got bytes, r') \<Rightarrow>
        (case write_body sha256 io lms e p (entryExec (eKind e)) bytes (opened p t st) of (Some x, st3) \<Rightarrow> Inl (Refused x, st3) | (None, st3) \<Rightarrow> Inr (st3, r')))"
  using assms unfolding apply_frame_def opened_def no_body_def is_link_def
  by (cases "eKind e"; cases "blobNs lms"; cases "fBody f") (auto simp: Let_def split: read.splits prod.splits)

lemma finish_not_fuel: "finish_extract m sha256 es r st \<noteq> OutOfFuel"
  by (auto simp: finish_extract_def split: read.splits option.splits)

context byte_reader begin

lemma body_cases:
  assumes "valid r"
  obtains (got) b r' where "body n r = (Got b, r')" "valid r'" "flat_bytes n (bytes_of r) = (Got b, bytes_of r')"
    "length (fst (bytes_of r')) \<le> length (fst (bytes_of r))"
  | (eof) r' s' where "body n r = (Eof, r')" "flat_bytes n (bytes_of r) = (Eof, s')"
  | (failed) r' s' where "body n r = (Failed, r')" "flat_bytes n (bytes_of r) = (Failed, s')"
proof (cases "fst (body n r)")
  case (Got b)
  then have "body n r = (Got b, snd (body n r))" "flat_bytes n (bytes_of r) = (Got b, bytes_of (snd (body n r)))"
    using body_result[OF assms, of n] body_rest[OF assms, of n b] by (auto simp: prod_eq_iff)
  then show ?thesis using got body_rest[OF assms Got] body_shortens[OF assms Got] by blast
next
  case Eof
  then have "body n r = (Eof, snd (body n r))" "flat_bytes n (bytes_of r) = (Eof, snd (flat_bytes n (bytes_of r)))"
    using body_result[OF assms, of n] by (auto simp: prod_eq_iff)
  then show ?thesis using eof by blast
next
  case Failed
  then have "body n r = (Failed, snd (body n r))" "flat_bytes n (bytes_of r) = (Failed, snd (flat_bytes n (bytes_of r)))"
    using body_result[OF assms, of n] by (auto simp: prod_eq_iff)
  then show ?thesis using failed by blast
qed

lemma line_cases:
  assumes "valid r"
  obtains (got) l r' where "line n r = (Got l, r')" "valid r'" "flat_line n (bytes_of r) = (Got l, bytes_of r')"
    "length (fst (bytes_of r')) < length (fst (bytes_of r))"
  | (eof) r' s' where "line n r = (Eof, r')" "flat_line n (bytes_of r) = (Eof, s')"
  | (failed) r' s' where "line n r = (Failed, r')" "flat_line n (bytes_of r) = (Failed, s')"
proof (cases "fst (line n r)")
  case (Got l)
  then have "line n r = (Got l, snd (line n r))" "flat_line n (bytes_of r) = (Got l, bytes_of (snd (line n r)))"
    using line_result[OF assms, of n] line_rest[OF assms, of n l] by (auto simp: prod_eq_iff)
  then show ?thesis using got line_rest[OF assms Got] line_shortens[OF assms Got] by blast
next
  case Eof
  then have "line n r = (Eof, snd (line n r))" "flat_line n (bytes_of r) = (Eof, snd (flat_line n (bytes_of r)))"
    using line_result[OF assms, of n] by (auto simp: prod_eq_iff)
  then show ?thesis using eof by blast
next
  case Failed
  then have "line n r = (Failed, snd (line n r))" "flat_line n (bytes_of r) = (Failed, snd (flat_line n (bytes_of r)))"
    using line_result[OF assms, of n] by (auto simp: prod_eq_iff)
  then show ?thesis using failed by blast
qed

lemma apply_frame_cases:
  assumes "valid r"
  obtains (stop) x where "apply_frame body sha256 io lms es f p e r st = Inl x"
      "apply_frame flat_bytes sha256 io lms es f p e (bytes_of r) st = Inl x" "fst x \<noteq> OutOfFuel"
  | (go_on) st' r' where "apply_frame body sha256 io lms es f p e r st = Inr (st', r')" "valid r'"
      "apply_frame flat_bytes sha256 io lms es f p e (bytes_of r) st = Inr (st', bytes_of r')"
      "length (fst (bytes_of r')) \<le> length (fst (bytes_of r))"
proof (cases "mkdirs [] (dir_segs p) (xTree st)")
  case None
  then show ?thesis using stop[of "(Threw, st\<lparr>xSeen := p # xSeen st\<rparr>)"] by (simp add: apply_frame_throws)
next
  case (Some t)
  show ?thesis
  proof (cases "no_body lms f e")
    case True
    note eq = apply_frame_plain[OF Some True]
    show ?thesis
    proof (cases "write_plain sha256 io lms es p e (opened p t st)")
      case (Pair problem st3)
      then show ?thesis using stop[of "(Refused (the problem), st3)"] go_on[of st3 r] assms by (cases problem) (simp_all add: eq)
    qed
  next
    case False
    note eq = apply_frame_body[OF Some False]
    from assms show ?thesis
    proof (cases r rule: body_cases[of _ "entrySize (eKind e)"])
      case (got b r')
      show ?thesis
      proof (cases "write_body sha256 io lms e p (entryExec (eKind e)) b (opened p t st)")
        case (Pair problem st3)
        then show ?thesis using got stop[of "(Refused (the problem), st3)"] go_on[of st3 r'] by (cases problem) (simp_all add: eq)
      qed
    next
      case (eof r' s')
      then show ?thesis using stop[of "(Refused (BodyTruncated p), opened p t st)"] by (simp add: eq)
    next
      case (failed r' s')
      then show ?thesis using stop[of "(Refused (BodyFailed p), opened p t st)"] by (simp add: eq)
    qed
  qed
qed

lemma finish_flat: "valid r \<Longrightarrow> finish_extract more sha256 es r st = finish_extract flat_more sha256 es (bytes_of r) st"
  by (simp add: finish_extract_def more_result)

lemma extract_loop_flat:
  assumes "valid r"
  shows "extract_loop line body more parse sha256 io lms es fuel r st =
      extract_loop flat_line flat_bytes flat_more parse sha256 io lms es fuel (bytes_of r) st \<and>
    (length (fst (bytes_of r)) < fuel \<longrightarrow> fst (extract_loop line body more parse sha256 io lms es fuel r st) \<noteq> OutOfFuel)"
  using assms
proof (induction fuel arbitrary: r st)
  case (Suc fuel)
  from Suc.prems show ?case
  proof (cases r rule: line_cases[of _ "maxLineBytes lms"])
    case (got l r')
    show ?thesis
    proof (cases "parse l")
      case (Some f)
      show ?thesis
      proof (cases "\<not> fEnd f \<and> validateFrame lms es (xSeen st) (xBytes st) f = None")
        case True
        show ?thesis
        proof (cases "\<exists>p e. fPath f = Some p \<and> expected_entry es p = Some e")
          case pe: True
          then obtain p e where pe: "fPath f = Some p" "expected_entry es p = Some e" by blast
          from got(2) show ?thesis
          proof (cases r' rule: apply_frame_cases[of _ sha256 io lms es f p e st])
            case (stop x)
            then show ?thesis using got Some True pe by simp
          next
            case (go_on st' r2)
            then show ?thesis using got Some True pe Suc.IH[OF go_on(2), of st'] by auto
          qed
        next
          case False
          then show ?thesis using got Some True by (auto split: option.splits)
        qed
      next
        case False
        then show ?thesis using got Some finish_flat[OF got(2)] by (auto simp: finish_not_fuel split: option.splits)
      qed
    qed (use got in simp)
  qed simp_all
qed simp

end

section \<open>What is written\<close>

text \<open>
  Every path of the tree has plain segments and no link above it, every link is a known link whose target was walked, and the files fit in what
  was charged, which never exceeds the total limit.
\<close>

definition clean_path :: "string list \<Rightarrow> string list \<Rightarrow> bool" where
  "clean_path links p \<longleftrightarrow> p \<noteq> [] \<and> (\<forall>s \<in> set p. CHR ''/'' \<notin> set s \<and> s \<noteq> [] \<and> s \<noteq> ''.'' \<and> s \<noteq> ''..'') \<and>
     (\<forall>k. 0 < k \<and> k < length p \<longrightarrow> join_slash (take k p) \<notin> set links)"

definition node_ok :: "string list \<Rightarrow> string list \<times> tnode \<Rightarrow> bool" where
  "node_ok links pn \<longleftrightarrow> clean_path links (fst pn) \<and>
     (case snd pn of TLink t \<Rightarrow> join_slash (fst pn) \<in> set links \<and> checkExtractSymlinkTarget (join_slash (fst pn)) t links = None | _ \<Rightarrow> True)"

definition file_bytes :: "tree \<Rightarrow> nat" where
  "file_bytes t = sum_list (map (\<lambda>pn. case snd pn of TFile _ b \<Rightarrow> length b | _ \<Rightarrow> 0) t)"

definition extraction_ok :: "limits \<Rightarrow> string list \<Rightarrow> extraction \<Rightarrow> bool" where
  "extraction_ok lms links st \<longleftrightarrow>
     list_all (node_ok links) (xTree st) \<and> file_bytes (xTree st) \<le> xBytes st \<and> \<not> over (maxTotalBytes lms) (xBytes st)"

lemma mkdirs_ok:
  assumes "mkdirs acc ss t = Some t'" "list_all (node_ok links) t" "\<forall>k. 0 < k \<and> k \<le> length ss \<longrightarrow> clean_path links (acc @ take k ss)"
  shows "list_all (node_ok links) t' \<and> file_bytes t' = file_bytes t"
  using assms
proof (induction acc ss t rule: mkdirs.induct)
  case (2 acc s ss t)
  have first: "clean_path links (acc @ [s])" using "2.prems"(3) by (auto dest!: spec[of _ 1])
  have rest: "\<forall>k. 0 < k \<and> k \<le> length ss \<longrightarrow> clean_path links ((acc @ [s]) @ take k ss)"
  proof (intro allI impI)
    fix k assume "0 < k \<and> k \<le> length ss"
    then show "clean_path links ((acc @ [s]) @ take k ss)" using "2.prems"(3)[rule_format, of "Suc k"] by simp
  qed
  show ?case
  proof (cases "map_of t (acc @ [s])")
    case None
    have "node_ok links (acc @ [s], TDir)" using first by (simp add: node_ok_def)
    then have "list_all (node_ok links) ((acc @ [s], TDir) # t)" using "2.prems"(2) by simp
    then show ?thesis using "2.IH"(1)[OF None _ _ rest] "2.prems"(1) None by (simp add: file_bytes_def)
  next
    case (Some n)
    then have n: "\<And>x b. n \<noteq> TFile x b" "mkdirs (acc @ [s]) ss t = Some t'" using "2.prems"(1) by (cases n; auto)+
    then show ?thesis using Some "2.IH"(2,3)[OF Some] "2.prems"(2) rest by (cases n) auto
  qed
qed simp

lemma validateFrame_NoneD:
  assumes "validateFrame lms es seen used f = None" "fPath f = Some p" "expected_entry es p = Some e"
  shows "isCanonicalRelPath p" "\<not> ancestor_link (link_paths es) p" "p \<notin> set seen"
    "eKind e = FileEntry x n h \<Longrightarrow> \<not> over (maxTotalBytes lms) (used + n) \<and> \<not> over (maxFileBytes lms) n"
  using assms
  by (auto simp: validateFrame_def file_frame_problem_def split: if_splits entry_kind.splits option.splits)

lemma expected_entryD: "expected_entry es p = Some e \<Longrightarrow> e \<in> set es \<and> ePath e = p"
  by (auto simp: expected_entry_def dest: find_SomeD)

lemma frame_path_clean:
  assumes "isCanonicalRelPath p" "\<not> ancestor_link links p"
  shows "clean_path links (split_slash p)"
proof -
  have "join_slash (take k (split_slash p)) \<notin> set links" if "0 < k" "k < length (split_slash p)" for k
  proof -
    have "take k (split_slash p) = take k (dir_segs p)" using that(2) by (simp add: dir_segs_def take_butlast)
    moreover have "k \<in> set [1..<Suc (length (dir_segs p))]" using that by (auto simp: dir_segs_def)
    ultimately show ?thesis using assms(2) by (auto simp: ancestor_link_def list_ex_iff)
  qed
  then show ?thesis using assms(1) split_slash_no_slash by (auto simp: clean_path_def isCanonicalRelPath_def list_all_iff)
qed

lemma clean_prefix: "clean_path links p \<Longrightarrow> 0 < k \<Longrightarrow> k \<le> length p \<Longrightarrow> clean_path links (take k p)"
  by (auto simp: clean_path_def min_def dest: in_set_takeD)

lemma create_ok:
  assumes "create p n t = Some t'" "list_all (node_ok links) t" "node_ok links (p, n)"
  shows "list_all (node_ok links) t' \<and> file_bytes t' = (case n of TFile _ b \<Rightarrow> length b | _ \<Rightarrow> 0) + file_bytes t"
  using assms by (auto simp: create_def file_bytes_def split: if_splits)

lemma write_link_ok:
  assumes "extraction_ok lms links st" "clean_path links (split_slash p)" "p \<in> set links"
  shows "extraction_ok lms links (snd (write_link links p t st))"
  using assms create_ok[of "split_slash p" "TLink t" "xTree st"]
  by (auto simp: write_link_def extraction_ok_def node_ok_def split: option.splits)

lemma write_cached_ok:
  assumes "extraction_ok lms links st" "clean_path links (split_slash p)" "\<not> over (maxTotalBytes lms) (xBytes st + n)"
  shows "extraction_ok lms links (snd (write_cached sha256 io ns p x n h st))"
proof -
  have "length b = n" if "readBlobVerified sha256 (ioNow io) (xStore st) ns h n = (Hit b, s)" for b s
    using readBlobVerified_HitD[of sha256 "ioNow io" "xStore st" ns h n b] that by simp
  then show ?thesis using assms create_ok[of "split_slash p" _ "xTree st"]
    by (fastforce simp: write_cached_def extraction_ok_def node_ok_def Let_def split: option.splits prod.splits blob_status.splits)
qed

lemma write_body_ok:
  assumes "extraction_ok lms links st" "clean_path links (split_slash p)" "\<not> over (maxTotalBytes lms) (xBytes st + length b)"
  shows "extraction_ok lms links (snd (write_body sha256 io lms e p x b st))"
  using assms create_ok[of "split_slash p" "TFile x b" "xTree st"]
  by (auto simp: write_body_def extraction_ok_def node_ok_def Let_def split: option.splits prod.splits)

lemma opened_ok:
  assumes "extraction_ok lms links st" "mkdirs [] (dir_segs p) (xTree st) = Some t" "clean_path links (split_slash p)"
  shows "extraction_ok lms links (opened p t st)"
proof -
  have "clean_path links ([] @ take k (dir_segs p))" if "0 < k \<and> k \<le> length (dir_segs p)" for k
    using clean_prefix[OF assms(3), of k] that by (auto simp: dir_segs_def take_butlast)
  then have "list_all (node_ok links) t \<and> file_bytes t = file_bytes (xTree st)"
    using assms(1) by (intro mkdirs_ok[OF assms(2)]) (simp_all add: extraction_ok_def)
  then show ?thesis using assms(1) by (simp add: extraction_ok_def opened_def)
qed

definition final_state :: "(extract_result \<times> extraction) + (extraction \<times> 'r) \<Rightarrow> extraction" where
  "final_state res = (case res of Inl x \<Rightarrow> snd x | Inr y \<Rightarrow> fst y)"

lemma apply_frame_ok:
  assumes ok: "extraction_ok lms (link_paths es) st" and v: "validateFrame lms es (xSeen st) (xBytes st) f = None" "fPath f = Some p" "expected_entry es p = Some e"
  shows "extraction_ok lms (link_paths es) (final_state (apply_frame flat_bytes sha256 io lms es f p e s st))"
proof (cases "mkdirs [] (dir_segs p) (xTree st)")
  case None
  then show ?thesis using ok by (simp add: apply_frame_throws final_state_def extraction_ok_def)
next
  case (Some t)
  note vf = validateFrame_NoneD[OF v]
  have clean: "clean_path (link_paths es) (split_slash p)" by (rule frame_path_clean[OF vf(1,2)])
  note op = opened_ok[OF ok Some clean]
  have bytes: "xBytes (opened p t st) = xBytes st" by (simp add: opened_def)
  have e: "e \<in> set es" "ePath e = p" using expected_entryD[OF v(3)] by auto
  show ?thesis
  proof (cases "no_body lms f e")
    case True
    have "extraction_ok lms (link_paths es) (snd (write_plain sha256 io lms es p e (opened p t st)))"
    proof (cases "eKind e")
      case (FileEntry x n h)
      then show ?thesis using write_cached_ok[OF op clean, of n] vf(4)[OF FileEntry] bytes by (simp add: write_plain_def)
    next
      case (LinkEntry tg)
      have "p \<in> set (link_paths es)" using e LinkEntry by (auto simp: link_paths_def is_link_def intro!: rev_image_eqI[of e])
      then show ?thesis using write_link_ok[OF op clean] LinkEntry by (simp add: write_plain_def)
    qed
    then show ?thesis by (auto simp: apply_frame_plain[OF Some True] final_state_def split: prod.splits option.splits)
  next
    case False
    then obtain x n h where k: "eKind e = FileEntry x n h" by (cases "eKind e") (auto simp: no_body_def is_link_def)
    have "extraction_ok lms (link_paths es) (snd (write_body sha256 io lms e p x b (opened p t st)))" if "fst (flat_bytes n s) = Got b" for b
      using write_body_ok[OF op clean, of b] vf(4)[OF k] bytes flat_reader.body_length[OF TrueI that] by simp
    then show ?thesis using op k
      by (auto simp: apply_frame_body[OF Some False] final_state_def split: prod.splits option.splits read.splits)
  qed
qed

lemma extract_loop_ok:
  "extraction_ok lms (link_paths es) st \<Longrightarrow>
   extraction_ok lms (link_paths es) (snd (extract_loop flat_line flat_bytes flat_more parse sha256 io lms es fuel s st))"
proof (induction fuel arbitrary: s st)
  case (Suc fuel)
  show ?case
  proof (cases "\<exists>l r1 f p e. flat_line (maxLineBytes lms) s = (Got l, r1) \<and> parse l = Some f \<and> \<not> fEnd f \<and>
      validateFrame lms es (xSeen st) (xBytes st) f = None \<and> fPath f = Some p \<and> expected_entry es p = Some e")
    case True
    then obtain l r1 f p e where x: "flat_line (maxLineBytes lms) s = (Got l, r1)" "parse l = Some f" "\<not> fEnd f"
      "validateFrame lms es (xSeen st) (xBytes st) f = None" "fPath f = Some p" "expected_entry es p = Some e" by blast
    have "extraction_ok lms (link_paths es) (final_state (apply_frame flat_bytes sha256 io lms es f p e r1 st))"
      by (rule apply_frame_ok[OF Suc.prems x(4-6)])
    then show ?thesis using x Suc.IH by (auto simp: final_state_def split: sum.splits)
  next
    case False
    then show ?thesis using Suc.prems by (auto split: read.splits prod.splits option.splits)
  qed
qed simp

lemma apply_frame_not_Extracted: "apply_frame body sha256 io lms es f p e r st = Inl x \<Longrightarrow> fst x \<noteq> Extracted"
  by (cases "mkdirs [] (dir_segs p) (xTree st)"; cases "no_body lms f e")
    (auto simp: apply_frame_throws apply_frame_plain apply_frame_body split: prod.splits option.splits read.splits)

lemma extract_loop_Extracted:
  assumes "fst (extract_loop line body hasm parse sha256 io lms es fuel r st) = Extracted"
  shows "\<exists>q. finish_extract hasm sha256 es q (snd (extract_loop line body hasm parse sha256 io lms es fuel r st)) = Extracted"
  using assms
proof (induction fuel arbitrary: r st)
  case (Suc fuel)
  then show ?case
    by (auto split: read.splits prod.splits option.splits if_splits sum.splits dest: apply_frame_not_Extracted)
qed simp

lemma finish_Extracted: "finish_extract m sha256 es q st = Extracted \<Longrightarrow> set (tree_entries sha256 (xTree st)) = set es"
proof -
  assume "finish_extract m sha256 es q st = Extracted"
  then have "sortEntries es = sortEntries (tree_entries sha256 (xTree st))"
    by (auto simp: finish_extract_def verifyManifestNoGit_def compare_entries_None split: if_splits read.splits option.splits)
  from arg_cong[OF this, of set] show ?thesis by (simp add: sortEntries_def)
qed

section \<open>Links of the extracted tree\<close>

definition tree_target :: "tree \<Rightarrow> string list \<Rightarrow> string option" where
  "tree_target t p = (case map_of t p of Some (TLink tg) \<Rightarrow> Some tg | _ \<Rightarrow> None)"

lemma extractFrames_flat:
  assumes "reader_ok r"
  shows "extractFrames parse sha256 io lms es dest store r =
      (if dest then (Refused DestExists, fresh_extraction store)
       else extract_loop flat_line flat_bytes flat_more parse sha256 io lms es (Suc (length (fst (flat_of r)))) (flat_of r) (fresh_extraction store))"
    and "fst (extractFrames parse sha256 io lms es dest store r) \<noteq> OutOfFuel"
  using chunk_reader.extract_loop_flat[OF assms, of parse sha256 io lms es "Suc (length (fst (flat_of r)))" "fresh_extraction store"]
  by (auto simp: extractFrames_def simp del: extract_loop.simps)

lemma extractFrames_ok:
  assumes "reader_ok r"
  shows "extraction_ok lms (link_paths es) (snd (extractFrames parse sha256 io lms es dest store r))"
proof -
  have "extraction_ok lms (link_paths es) (fresh_extraction store)"
    by (simp add: extraction_ok_def fresh_extraction_def file_bytes_def over_def split: option.splits)
  then show ?thesis by (simp add: extractFrames_flat(1)[OF assms] extract_loop_ok del: extract_loop.simps)
qed

text \<open>The links of an extraction that kept its invariant, and no links otherwise.\<close>

definition extracted_links :: "limits \<Rightarrow> manifest_entry list \<Rightarrow> extraction \<Rightarrow> string list \<Rightarrow> string option" where
  "extracted_links lms es st = (if extraction_ok lms (link_paths es) st then tree_target (xTree st) else (\<lambda>_. None))"

interpretation extracted: confined_links "extracted_links lms es st" "link_paths es" for lms es st
proof
  fix p t
  assume t: "extracted_links lms es st p = Some t"
  then have "map_of (xTree st) p = Some (TLink t)" "list_all (node_ok (link_paths es)) (xTree st)"
    by (auto simp: extracted_links_def tree_target_def extraction_ok_def split: if_splits option.splits tnode.splits)
  then have n: "node_ok (link_paths es) (p, TLink t)" by (auto simp: list_all_iff dest: map_of_SomeD)
  then have p: "p \<noteq> []" "split_slash (join_slash p) = p" by (auto simp: node_ok_def clean_path_def intro: split_join_slash)
  have c: "checkExtractSymlinkTarget (join_slash p) t (link_paths es) = None" using n by (simp add: node_ok_def)
  show "join_slash p \<in> set (link_paths es)" "p \<noteq> []" using n p by (auto simp: node_ok_def)
  show "\<not> is_absolute t" "walk_target (link_paths es) (join_slash p) (butlast p) (split_slash t) = None"
    using c p(2) by (auto simp: checkExtractSymlinkTarget_def dir_segs_def split: if_splits)
qed

section \<open>Properties\<close>

text \<open>
  C33. The outcome of an extraction depends only on the bytes received. However the stream is cut into chunks, the same bytes give the same
  result and the same tree, and the extraction always comes to an end.
\<close>

theorem extraction_ignores_chunking:
  assumes "concat chunks = concat chunks'" and "[] \<notin> set chunks" and "[] \<notin> set chunks'"
  shows "extractFrames parse sha256 io lms es dest store (makeReader chunks fails) = extractFrames parse sha256 io lms es dest store (makeReader chunks' fails) \<and>
    fst (extractFrames parse sha256 io lms es dest store (makeReader chunks fails)) \<noteq> OutOfFuel"
proof -
  have m: "reader_ok (makeReader chunks fails)" "reader_ok (makeReader chunks' fails)"
    "flat_of (makeReader chunks fails) = flat_of (makeReader chunks' fails)"
    using makeReader_ok[OF assms(2)] makeReader_ok[OF assms(3)] assms(1) by auto
  show ?thesis using extractFrames_flat[OF m(1)] extractFrames_flat[OF m(2)] m(3) by metis
qed

text \<open>
  C10. An adversarial stream is contained. Whatever the bytes, and whether or not the extraction succeeds: every path written has plain
  segments and no link above it, the files written stay within the total limit, and resolving any path without \<^verbatim>\<open>..\<close> through the links
  created never leaves the destination.
\<close>

theorem extraction_is_contained:
  assumes "[] \<notin> set chunks" and out: "out = snd (extractFrames parse sha256 io lms es dest store (makeReader chunks fails))"
  shows "list_all (\<lambda>pn. clean_path (link_paths es) (fst pn)) (xTree out) \<and>
    (\<forall>p k tg. map_of (xTree out) p \<noteq> None \<and> 0 < k \<and> k < length p \<longrightarrow> map_of (xTree out) (take k p) \<noteq> Some (TLink tg)) \<and>
    \<not> over (maxTotalBytes lms) (file_bytes (xTree out)) \<and>
    (\<forall>p n. ''..'' \<notin> set (split_slash p) \<longrightarrow> (resolve_step (tree_target (xTree out)) ^^ n) (At [] (split_slash p)) \<noteq> Outside)"
proof -
  have ok: "extraction_ok lms (link_paths es) out" using extractFrames_ok makeReader_ok[OF assms(1)] by (simp add: out)
  have links: "extracted_links lms es out = tree_target (xTree out)" using ok by (simp add: extracted_links_def)
  have nodes: "node_ok (link_paths es) (p, n)" if "map_of (xTree out) p = Some n" for p n
    using ok that by (auto simp: extraction_ok_def list_all_iff dest: map_of_SomeD)
  have "map_of (xTree out) (take k p) \<noteq> Some (TLink tg)" if "map_of (xTree out) p = Some n" "0 < k" "k < length p" for p k tg n
    using nodes[OF that(1)] nodes[of "take k p" "TLink tg"] that by (auto simp: node_ok_def clean_path_def)
  moreover have "\<not> over (maxTotalBytes lms) (file_bytes (xTree out))" using ok by (auto simp: extraction_ok_def over_def split: option.splits)
  ultimately show ?thesis using extracted.never_outside[where lms = lms and es = es and st = out] ok
    by (auto simp: links extraction_ok_def node_ok_def list_all_iff)
qed

text \<open>
  C11. A successful extraction is the manifest: the files and links of the tree, with their modes, sizes and content hashes, are exactly its
  entries.
\<close>

theorem extracted_tree_is_manifest:
  assumes "fst (extractFrames parse sha256 io lms es dest store r) = Extracted"
  shows "set (tree_entries sha256 (xTree (snd (extractFrames parse sha256 io lms es dest store r)))) = set es"
proof -
  have "\<not> dest" using assms by (auto simp: extractFrames_def)
  then have e: "extractFrames parse sha256 io lms es dest store r =
      extract_loop readLine readBytes hasMore parse sha256 io lms es (Suc (length (fst (flat_of r)))) r (fresh_extraction store)"
    by (simp add: extractFrames_def del: extract_loop.simps)
  from extract_loop_Extracted[OF assms[unfolded e]] show ?thesis unfolding e by (elim exE) (rule finish_Extracted)
qed

section \<open>Witnesses\<close>

definition example_entries :: "manifest_entry list" where
  "example_entries = [\<lparr>ePath = ''d/f'', eKind = FileEntry True 2 ''hh''\<rparr>, \<lparr>ePath = ''l'', eKind = LinkEntry ''d/f''\<rparr>]"

definition example_parse :: "string \<Rightarrow> frame option" where
  "example_parse l = map_of [(''F'', frame_of (\<lambda>_. False) (hd example_entries)), (''L'', frame_of (\<lambda>_. False) (last example_entries)), (''E'', end_frame)] l"

definition example_limits :: limits where
  "example_limits = \<lparr>maxFileBytes = Some 10, maxTotalBytes = Some 10, maxLineBytes = 100, blobNs = None\<rparr>"

definition example_blob_io :: blob_io where
  "example_blob_io = \<lparr>ioNow = 0, ioFree = 0, ioHeadroom = 0, ioWriteOk = True\<rparr>"

abbreviation example_stream :: "string list" where
  "example_stream \<equiv> [[CHR ''F'', NEWLINE, CHR ''o''], [CHR ''k'', CHR ''L'', NEWLINE], [CHR ''E'', NEWLINE]]"

abbreviation example_extract :: "string list \<Rightarrow> extract_result \<times> extraction" where
  "example_extract chunks \<equiv> extractFrames example_parse (\<lambda>b. ''hh'') example_blob_io example_limits example_entries False empty_store (makeReader chunks False)"

lemma example_extracted:
  "fst (example_extract example_stream) = Extracted"
  "xTree (snd (example_extract example_stream)) = [([''l''], TLink ''d/f''), ([''d'', ''f''], TFile True ''ok''), ([''d''], TDir)]"
  by code_simp+

theorem extraction_ignores_chunking_witness: "example_extract example_stream = example_extract [concat example_stream]"
  using extraction_ignores_chunking[of example_stream "[concat example_stream]"] by simp

theorem extraction_is_contained_witness:
  "map_of (xTree (snd (example_extract example_stream))) [''d'', ''f''] = Some (TFile True ''ok'') \<and>
   map_of (xTree (snd (example_extract example_stream))) [''d''] \<noteq> Some (TLink ''x'') \<and>
   (resolve_step (tree_target (xTree (snd (example_extract example_stream)))) ^^ 7) (At [] (split_slash ''l'')) \<noteq> Outside"
proof -
  let ?out = "snd (example_extract example_stream)"
  have f: "map_of (xTree ?out) [''d'', ''f''] = Some (TFile True ''ok'')" by (simp only: example_extracted) simp
  have c: "\<forall>p k tg. map_of (xTree ?out) p \<noteq> None \<and> 0 < k \<and> k < length p \<longrightarrow> map_of (xTree ?out) (take k p) \<noteq> Some (TLink tg)"
    "\<forall>p n. ''..'' \<notin> set (split_slash p) \<longrightarrow> (resolve_step (tree_target (xTree ?out)) ^^ n) (At [] (split_slash p)) \<noteq> Outside"
    using extraction_is_contained[where chunks = example_stream, OF _ refl] by simp_all
  have "(resolve_step (tree_target (xTree ?out)) ^^ 7) (At [] (split_slash ''l'')) \<noteq> Outside" using c(2)[rule_format, of "''l''" 7] by simp
  moreover have "map_of (xTree ?out) (take 1 [''d'', ''f'']) \<noteq> Some (TLink ''x'')" using c(1)[rule_format, of "[''d'', ''f'']" 1] f by simp
  ultimately show ?thesis using f by simp
qed

theorem extracted_tree_is_manifest_witness:
  "set (tree_entries (\<lambda>b. ''hh'') (xTree (snd (example_extract example_stream)))) = set example_entries"
  by (rule extracted_tree_is_manifest) (rule example_extracted(1))

end
