(* ===== verification/Artifacts.thy ===== *)
theory Artifacts
  imports Snapshot
begin

text \<open>
  The files a remote run returns (\<^verbatim>\<open>src/src/remote-artifacts.js\<close>): collected on the runner, streamed, checked by the submitter and installed
  into its worktree. The runner is less trusted than the submitter, so the receiving side repeats every rule. Names are compared after lower-casing
  their ASCII letters. What \<^verbatim>\<open>lstat\<close> and the directory walk see on the runner, the spelling the submitter's file system has for a path and the paths git
  tracks are inputs.
\<close>

section \<open>Protected paths\<close>

definition lower :: "char \<Rightarrow> char" where
  "lower c = (if CHR ''A'' \<le> c \<and> c \<le> CHR ''Z'' then char_of (of_char c + 32 :: nat) else c)"

definition denied_segment :: "string \<Rightarrow> bool" where
  "denied_segment segment =
     (let seg = map lower segment
      in prefix ''.git'' seg \<or> prefix ''.env'' seg \<or> prefix ''.yarnrc'' seg \<or> ends_with ''.lock'' seg \<or>
         seg \<in> {''.npmrc'', ''.lane-broker.json'', ''node_modules'', ''package.json'', ''package-lock.json'', ''npm-shrinkwrap.json''})"

definition isDeniedArtifactPath :: "string \<Rightarrow> bool" where
  "isDeniedArtifactPath relPath = list_ex denied_segment (split_slash relPath)"

definition isUnderDeclaredDir :: "string \<Rightarrow> string list \<Rightarrow> bool" where
  "isUnderDeclaredDir relPath patterns =
     list_ex (\<lambda>p. literalDirPrefix p \<noteq> [] \<and> prefix (literalDirPrefix p @ ''/'') relPath \<and> artifactMatches p relPath) patterns"

record artifact_limits =
  artMaxFile :: nat
  artMaxTotal :: nat
  artMaxCount :: nat

section \<open>Collecting on the runner\<close>

datatype art_stat = StMissing | StError | StLink | StNotFile | StOutside | StFile string

datatype art_refusal =
  TooManyMatches | TooManyScanned string | ProtectedPath string | IsSymlink string | NotRegular string | OutsideWork string | InvalidArtPath string |
  OverFileCap string | OverTotalCap string | CollectError string

definition MAX_SCANNED_ENTRIES :: nat where "MAX_SCANNED_ENTRIES = 100000"

text \<open>\<^verbatim>\<open>walkGlob\<close>: the entries below the literal prefix in the order the walk meets them, directories (\<open>None\<close>) counted but not matched,
  and whether the walk was cut off.\<close>

definition walkGlob :: "(string \<Rightarrow> string option list) \<Rightarrow> string \<Rightarrow> string list \<times> bool" where
  "walkGlob below pattern =
     (let seen = below (literalDirPrefix pattern)
      in (filter (artifactMatches pattern) (List.map_filter (\<lambda>x. x) (take MAX_SCANNED_ENTRIES seen)), length seen > MAX_SCANNED_ENTRIES))"

fun gather :: "(string \<Rightarrow> string option list) \<Rightarrow> nat \<Rightarrow> string list \<Rightarrow> string list \<Rightarrow> art_refusal + string list" where
  "gather below maxCount acc [] = Inr acc"
| "gather below maxCount acc (pattern # ps) =
     (let (found, cut) = (if isGlobPattern pattern then walkGlob below pattern else ([pattern], False));
          acc' = remdups (acc @ found)
      in if length acc' > maxCount then Inl TooManyMatches
         else if cut then Inl (TooManyScanned pattern) else gather below maxCount acc' ps)"

record art_file =
  afPath :: string
  afBytes :: string

text \<open>The per-file loop: what was stored so far, what was missing, and the bytes used.\<close>

fun collect_files :: "(string \<Rightarrow> art_stat) \<Rightarrow> artifact_limits \<Rightarrow> nat \<Rightarrow> string list \<Rightarrow> art_refusal + art_file list \<times> string list" where
  "collect_files stat lms used [] = Inr ([], [])"
| "collect_files stat lms used (rel # rels) =
     (if isDeniedArtifactPath rel then Inl (ProtectedPath rel)
      else case stat rel of
        StMissing \<Rightarrow> (case collect_files stat lms used rels of Inl e \<Rightarrow> Inl e | Inr (fs, ms) \<Rightarrow> Inr (fs, rel # ms))
      | StError \<Rightarrow> Inl (CollectError rel)
      | StLink \<Rightarrow> Inl (IsSymlink rel)
      | StNotFile \<Rightarrow> Inl (NotRegular rel)
      | StOutside \<Rightarrow> Inl (OutsideWork rel)
      | StFile bytes \<Rightarrow>
          if \<not> isCanonicalRelPath rel then Inl (InvalidArtPath rel)
          else if length bytes > min (artMaxFile lms) (artMaxTotal lms - used)
               then Inl (if artMaxFile lms \<le> artMaxTotal lms - used then OverFileCap rel else OverTotalCap rel)
          else (case collect_files stat lms (used + length bytes) rels of
                  Inl e \<Rightarrow> Inl e | Inr (fs, ms) \<Rightarrow> Inr (\<lparr>afPath = rel, afBytes = bytes\<rparr> # fs, ms)))"

definition collectArtifacts ::
  "(string \<Rightarrow> string option list) \<Rightarrow> (string \<Rightarrow> art_stat) \<Rightarrow> artifact_limits \<Rightarrow> string list \<Rightarrow> art_refusal + art_file list \<times> string list" where
  "collectArtifacts below stat lms patterns =
     (case gather below (artMaxCount lms) [] patterns of Inl e \<Rightarrow> Inl e | Inr candidates \<Rightarrow> collect_files stat lms 0 (sort candidates))"

section \<open>Receiving on the submitter\<close>

record art_entry =
  aPath :: "string option"
  aSize :: "nat option"
  aSha :: "string option"

record art_header =
  hProtocolOk :: bool
  hTicket :: "string option"
  hFiles :: "art_entry list option"

datatype receive_refusal =
  BadHeader | WrongProtocol | WrongTicket | OverCount | BadPath | ProtectedArt string | Undeclared string | DuplicateArt string | BadSize string |
  OverFile string | OverTotal string | BadSha string | BadArtFrame | FrameDiffers string | Truncated string | ShaMismatch string | NoTerminatorArt |
  TrailingArt | StreamError

definition MAX_STREAM_HEADER_BYTES :: nat where "MAX_STREAM_HEADER_BYTES = 262144"
definition MAX_FRAME_LINE_BYTES :: nat where "MAX_FRAME_LINE_BYTES = 1000000"

fun check_declared :: "string list \<Rightarrow> artifact_limits \<Rightarrow> string list \<Rightarrow> nat \<Rightarrow> art_entry list \<Rightarrow> receive_refusal option" where
  "check_declared patterns lms seen used [] = None"
| "check_declared patterns lms seen used (e # es) =
     (case aPath e of None \<Rightarrow> Some BadPath
      | Some p \<Rightarrow>
          if \<not> isCanonicalRelPath p then Some BadPath
          else if isDeniedArtifactPath p then Some (ProtectedArt p)
          else if \<not> isUnderDeclaredDir p patterns then Some (Undeclared p)
          else if p \<in> set seen then Some (DuplicateArt p)
          else case aSize e of None \<Rightarrow> Some (BadSize p)
          | Some n \<Rightarrow>
              if n > artMaxFile lms then Some (OverFile p)
              else if used + n > artMaxTotal lms then Some (OverTotal p)
              else if (case aSha e of Some h \<Rightarrow> \<not> isBlobHash h | None \<Rightarrow> True) then Some (BadSha p)
              else check_declared patterns lms (p # seen) (used + n) es)"

fun receive_files ::
  "(nat \<Rightarrow> 'r \<Rightarrow> string read \<times> 'r) \<Rightarrow> (nat \<Rightarrow> 'r \<Rightarrow> string read \<times> 'r) \<Rightarrow> (string \<Rightarrow> art_entry option) \<Rightarrow> (string \<Rightarrow> string) \<Rightarrow> art_entry list \<Rightarrow> 'r \<Rightarrow>
   receive_refusal + art_file list \<times> 'r" where
  "receive_files line body parse sha256 [] r = Inr ([], r)"
| "receive_files line body parse sha256 (e # es) r =
     (case line MAX_FRAME_LINE_BYTES r of
        (Failed, _) \<Rightarrow> Inl StreamError
      | (Eof, _) \<Rightarrow> Inl (FrameDiffers (nullish (aPath e) []))
      | (Got l, r1) \<Rightarrow>
         (case parse l of
            None \<Rightarrow> Inl BadArtFrame
          | Some f \<Rightarrow>
              if f \<noteq> e then Inl (FrameDiffers (nullish (aPath e) []))
              else case body (nullish (aSize e) 0) r1 of
                (Failed, _) \<Rightarrow> Inl StreamError
              | (Eof, _) \<Rightarrow> Inl (Truncated (nullish (aPath e) []))
              | (Got bytes, r2) \<Rightarrow>
                  if Some (sha256 bytes) \<noteq> aSha e then Inl (ShaMismatch (nullish (aPath e) []))
                  else (case receive_files line body parse sha256 es r2 of
                          Inl x \<Rightarrow> Inl x
                        | Inr (fs, r3) \<Rightarrow> Inr (\<lparr>afPath = nullish (aPath e) [], afBytes = bytes\<rparr> # fs, r3))))"

text \<open>
  \<^verbatim>\<open>receiveArtifacts\<close>. A frame line that is missing makes \<^verbatim>\<open>JSON.parse(null)\<close> the value null, which differs from every entry; a missing
  header or an unparsable terminator is a refusal.
\<close>

definition receiveArtifacts ::
  "(string \<Rightarrow> art_header option) \<Rightarrow> (string \<Rightarrow> art_entry option) \<Rightarrow> (string \<Rightarrow> bool option) \<Rightarrow> (string \<Rightarrow> string) \<Rightarrow> string \<Rightarrow> string list \<Rightarrow> artifact_limits \<Rightarrow> reader \<Rightarrow>
   receive_refusal + art_file list" where
  "receiveArtifacts parseHeader parse parseEnd sha256 ticketId patterns lms r =
     (case readLine MAX_STREAM_HEADER_BYTES r of
        (Failed, _) \<Rightarrow> Inl BadHeader
      | (Eof, _) \<Rightarrow> Inl BadHeader
      | (Got l, r1) \<Rightarrow>
         (case parseHeader l of None \<Rightarrow> Inl BadHeader
          | Some h \<Rightarrow>
              if \<not> hProtocolOk h then Inl WrongProtocol
              else if hTicket h \<noteq> Some ticketId then Inl WrongTicket
              else case hFiles h of None \<Rightarrow> Inl WrongTicket
              | Some es \<Rightarrow>
                  if length es > artMaxCount lms then Inl OverCount
                  else case check_declared patterns lms [] 0 es of Some x \<Rightarrow> Inl x
                  | None \<Rightarrow>
                     (case receive_files readLine readBytes parse sha256 es r1 of
                        Inl x \<Rightarrow> Inl x
                      | Inr (files, r2) \<Rightarrow>
                         (case readLine MAX_FRAME_LINE_BYTES r2 of
                            (Failed, _) \<Rightarrow> Inl StreamError
                          | (Eof, _) \<Rightarrow> Inl NoTerminatorArt
                          | (Got endLine, r3) \<Rightarrow>
                             (case parseEnd endLine of
                                None \<Rightarrow> Inl StreamError
                              | Some False \<Rightarrow> Inl NoTerminatorArt
                              | Some True \<Rightarrow>
                                 (case fst (hasMore r3) of
                                    Got True \<Rightarrow> Inl TrailingArt
                                  | Got False \<Rightarrow> Inr files
                                  | _ \<Rightarrow> Inl StreamError))))))"

section \<open>Installing into the worktree\<close>

datatype install_refusal =
  NoWorktree | InstallInvalid | InstallProtected | InstallUndeclared | AncestorLink | AncestorNotDir | DestinationLink | DestinationNotFile |
  GitUnavailable | TrackedByGit | InstallFailed

fun unsafe_walk :: "tree \<Rightarrow> string list \<Rightarrow> string list \<Rightarrow> install_refusal option" where
  "unsafe_walk t acc [] = None"
| "unsafe_walk t acc (seg # segs) =
     (case map_of t (acc @ [seg]) of
        None \<Rightarrow> None
      | Some (TLink _) \<Rightarrow> Some AncestorLink
      | Some (TFile _ _) \<Rightarrow> Some AncestorNotDir
      | Some TDir \<Rightarrow> unsafe_walk t (acc @ [seg]) segs)"

definition unsafeAncestor :: "tree \<Rightarrow> string \<Rightarrow> install_refusal option" where
  "unsafeAncestor t relPath = unsafe_walk t [] (dir_segs relPath)"

definition destination_problem :: "tree \<Rightarrow> string \<Rightarrow> install_refusal option" where
  "destination_problem t relPath =
     (case map_of t (split_slash relPath) of
        None \<Rightarrow> None
      | Some (TFile _ _) \<Rightarrow> None
      | Some (TLink _) \<Rightarrow> Some DestinationLink
      | Some TDir \<Rightarrow> Some DestinationNotFile)"

text \<open>
  \<^verbatim>\<open>writeContained\<close>: the directories above, the same checks again, then the rename of the temporary file onto the destination. With no link above it
  the directory resolves inside the root. \<open>diskOk\<close> tells whether the writes succeed.
\<close>

definition writeContained :: "bool \<Rightarrow> tree \<Rightarrow> string \<Rightarrow> string \<Rightarrow> install_refusal + tree" where
  "writeContained diskOk t relPath bytes =
     (case unsafeAncestor t relPath of Some x \<Rightarrow> Inl x
      | None \<Rightarrow>
         (case mkdirs [] (dir_segs relPath) t of None \<Rightarrow> Inl InstallFailed
          | Some t1 \<Rightarrow>
              if \<not> diskOk then Inl InstallFailed
              else case unsafeAncestor t1 relPath of Some x \<Rightarrow> Inl x
              | None \<Rightarrow>
                 (case destination_problem t1 relPath of Some x \<Rightarrow> Inl x
                  | None \<Rightarrow> Inr (AList.update (split_slash relPath) (TFile False bytes) t1))))"

definition accept_problem :: "tree \<Rightarrow> (string \<Rightarrow> string) \<Rightarrow> string list \<Rightarrow> art_file \<Rightarrow> install_refusal option" where
  "accept_problem t canonicalRel patterns f =
     (let p = afPath f
      in if \<not> isCanonicalRelPath p then Some InstallInvalid
         else if isDeniedArtifactPath p then Some InstallProtected
         else if \<not> isUnderDeclaredDir p patterns then Some InstallUndeclared
         else case unsafeAncestor t p of Some x \<Rightarrow> Some x
         | None \<Rightarrow>
            (case destination_problem t p of Some x \<Rightarrow> Some x
             | None \<Rightarrow> if isDeniedArtifactPath (canonicalRel p) then Some InstallProtected else None))"

record install_result =
  installed :: "string list"
  refused :: "(string \<times> install_refusal) list"
  worktree :: tree

definition install_one :: "(string \<Rightarrow> bool) \<Rightarrow> (string \<Rightarrow> string) \<Rightarrow> (string \<Rightarrow> bool) \<Rightarrow> art_file \<Rightarrow> install_result \<Rightarrow> install_result" where
  "install_one tracked canonicalRel diskOk f res =
     (if tracked (afPath f) \<or> tracked (canonicalRel (afPath f)) then res\<lparr>refused := refused res @ [(afPath f, TrackedByGit)]\<rparr>
      else case writeContained (diskOk (afPath f)) (worktree res) (afPath f) (afBytes f) of
        Inl x \<Rightarrow> res\<lparr>refused := refused res @ [(afPath f, x)]\<rparr>
      | Inr t \<Rightarrow> res\<lparr>installed := installed res @ [afPath f], worktree := t\<rparr>)"

definition installArtifacts ::
  "tree option \<Rightarrow> (string \<Rightarrow> string) \<Rightarrow> (string \<Rightarrow> bool) option \<Rightarrow> (string \<Rightarrow> bool) \<Rightarrow> art_file list \<Rightarrow> string list \<Rightarrow> install_result" where
  "installArtifacts topDir canonicalRel gitTracked diskOk files patterns =
     (case topDir of
        None \<Rightarrow> \<lparr>installed = [], refused = map (\<lambda>f. (afPath f, NoWorktree)) files, worktree = []\<rparr>
      | Some t \<Rightarrow>
         (let accepted = filter (\<lambda>f. accept_problem t canonicalRel patterns f = None) files;
              res = \<lparr>installed = [], refused = List.map_filter (\<lambda>f. map_option (Pair (afPath f)) (accept_problem t canonicalRel patterns f)) files, worktree = t\<rparr>
          in if accepted = [] then res
             else case gitTracked of
               None \<Rightarrow> res\<lparr>refused := refused res @ map (\<lambda>f. (afPath f, GitUnavailable)) accepted\<rparr>
             | Some tracked \<Rightarrow> fold (install_one tracked canonicalRel diskOk) accepted res))"

section \<open>Lemmas\<close>

lemma gather_bound:
  assumes "gather below maxCount acc ps = Inr cs" "length acc \<le> maxCount" "distinct acc"
  shows "length cs \<le> maxCount \<and> distinct cs"
  using assms by (induction ps arbitrary: acc) (auto simp: Let_def split: if_splits prod.splits)

lemma collect_files_sound:
  assumes "collect_files stat lms used rels = Inr (fs, ms)" "used \<le> artMaxTotal lms" "distinct rels"
  shows "length fs \<le> length rels \<and> used + sum_list (map (length \<circ> afBytes) fs) \<le> artMaxTotal lms \<and> distinct (map afPath fs) \<and> afPath ` set fs \<subseteq> set rels \<and>
    (\<forall>f \<in> set fs. length (afBytes f) \<le> artMaxFile lms \<and> isCanonicalRelPath (afPath f) \<and> \<not> isDeniedArtifactPath (afPath f) \<and> stat (afPath f) = StFile (afBytes f))"
  using assms
proof (induction rels arbitrary: used fs ms)
  case (Cons rel rels)
  show ?case
  proof (cases "stat rel")
    case StMissing
    then obtain ms' where "collect_files stat lms used rels = Inr (fs, ms')" using Cons.prems(1) by (auto split: if_splits sum.splits)
    then show ?thesis using Cons.IH[of used fs ms'] Cons.prems by auto
  next
    case (StFile bytes)
    then obtain fs' ms' where fs: "fs = \<lparr>afPath = rel, afBytes = bytes\<rparr> # fs'" "collect_files stat lms (used + length bytes) rels = Inr (fs', ms')"
      and ok: "\<not> isDeniedArtifactPath rel" "isCanonicalRelPath rel" "length bytes \<le> artMaxFile lms" "length bytes \<le> artMaxTotal lms - used"
      using Cons.prems(1) by (auto split: if_splits sum.splits)
    have "used + length bytes \<le> artMaxTotal lms" using ok(4) Cons.prems(2) by simp
    then show ?thesis using Cons.IH[OF fs(2)] Cons.prems(3) fs(1) ok StFile by auto
  qed (use Cons.prems in \<open>auto split: if_splits\<close>)
qed simp

lemma check_declared_sound:
  assumes "check_declared patterns lms seen used es = None" "used \<le> artMaxTotal lms"
  shows "used + sum_list (map (\<lambda>e. nullish (aSize e) 0) es) \<le> artMaxTotal lms \<and> distinct (map aPath es) \<and>
    (\<forall>e \<in> set es. \<exists>p n. aPath e = Some p \<and> aSize e = Some n \<and> n \<le> artMaxFile lms \<and> isCanonicalRelPath p \<and> \<not> isDeniedArtifactPath p \<and>
       isUnderDeclaredDir p patterns \<and> p \<notin> set seen)"
  using assms
proof (induction es arbitrary: seen used)
  case (Cons e es)
  then obtain p n where e: "aPath e = Some p" "aSize e = Some n" "isCanonicalRelPath p" "\<not> isDeniedArtifactPath p" "isUnderDeclaredDir p patterns"
    "p \<notin> set seen" "n \<le> artMaxFile lms" "used + n \<le> artMaxTotal lms" "check_declared patterns lms (p # seen) (used + n) es = None"
    by (auto split: option.splits if_splits)
  then show ?case using Cons.IH[OF e(9) e(8)] by fastforce
qed simp

lemma receive_files_sound:
  assumes "byte_reader line body hasm bytes_of valid" "valid r" "receive_files line body parse sha256 es r = Inr (fs, r')"
  shows "list_all2 (\<lambda>e f. nullish (aPath e) [] = afPath f \<and> nullish (aSize e) 0 = length (afBytes f) \<and> aSha e = Some (sha256 (afBytes f))) es fs"
  using assms(2,3)
proof (induction es arbitrary: r fs)
  case (Cons e es)
  from Cons.prems(2) obtain l r1 b r2 fs' where x: "line MAX_FRAME_LINE_BYTES r = (Got l, r1)" "body (nullish (aSize e) 0) r1 = (Got b, r2)"
    "aSha e = Some (sha256 b)" "receive_files line body parse sha256 es r2 = Inr (fs', r')" "fs = \<lparr>afPath = nullish (aPath e) [], afBytes = b\<rparr> # fs'"
    by (auto split: prod.splits read.splits option.splits if_splits sum.splits)
  have v1: "valid r1" using byte_reader.line_rest[OF assms(1) Cons.prems(1), of MAX_FRAME_LINE_BYTES l] x(1) by simp
  have v2: "valid r2" using byte_reader.body_rest[OF assms(1) v1, of "nullish (aSize e) 0" b] x(2) by simp
  have "length b = nullish (aSize e) 0" using byte_reader.body_length[OF assms(1) v1, of "nullish (aSize e) 0" b] x(2) by simp
  then show ?case using Cons.IH[OF v2 x(4)] x by simp
qed simp

lemma mkdirs_keeps: "mkdirs acc ss t = Some t' \<Longrightarrow> map_of t p = Some n \<Longrightarrow> map_of t' p = Some n"
proof (induction acc ss t rule: mkdirs.induct)
  case (2 acc s ss t)
  then show ?case by (cases "p = acc @ [s]") (auto split: option.splits tnode.splits)
qed simp

lemma mkdirs_adds: "mkdirs acc ss t = Some t' \<Longrightarrow> map_of t p = None \<Longrightarrow> map_of t' p = Some n \<Longrightarrow> n = TDir \<and> (\<exists>k. 0 < k \<and> k \<le> length ss \<and> p = acc @ take k ss)"
proof (induction acc ss t rule: mkdirs.induct)
  case (2 acc s ss t)
  have shift: "\<exists>k. 0 < k \<and> k \<le> length (s # ss) \<and> p = acc @ take k (s # ss)" if "\<exists>k. 0 < k \<and> k \<le> length ss \<and> p = (acc @ [s]) @ take k ss"
    using that by (metis append.assoc append_Cons append_Nil length_Cons not_less_eq_eq take_Suc_Cons zero_less_Suc)
  show ?case
  proof (cases "map_of t (acc @ [s])")
    case None
    show ?thesis
    proof (cases "p = acc @ [s]")
      case True
      have "map_of t' p = Some TDir" using mkdirs_keeps[of "acc @ [s]" ss "(acc @ [s], TDir) # t" t' p TDir] "2.prems"(1) None True by simp
      then show ?thesis using "2.prems"(3) True by (auto intro!: exI[of _ 1])
    next
      case False
      then show ?thesis using "2.IH"(1)[OF None] "2.prems" None shift by simp
    qed
  next
    case (Some m)
    then show ?thesis using "2.IH"(2,3)[OF Some] "2.prems" shift by (cases m) auto
  qed
qed simp

lemma mkdirs_covers: "mkdirs acc ss t = Some t' \<Longrightarrow> 0 < k \<Longrightarrow> k \<le> length ss \<Longrightarrow> map_of t' (acc @ take k ss) \<noteq> None"
proof (induction acc ss t arbitrary: k rule: mkdirs.induct)
  case (2 acc s ss t)
  then obtain j where k: "k = Suc j" by (cases k) auto
  obtain u where u: "mkdirs (acc @ [s]) ss u = Some t'" "map_of u (acc @ [s]) \<noteq> None"
    using "2.prems"(1) by (auto split: option.splits tnode.splits)
  show ?case
  proof (cases "j = 0")
    case True
    then show ?thesis using u mkdirs_keeps[OF u(1), of "acc @ [s]"] k by auto
  next
    case False
    then show ?thesis using "2.IH" "2.prems" k by (auto split: option.splits tnode.splits)
  qed
qed simp

lemma unsafe_walk_None:
  "unsafe_walk t acc ss = None \<Longrightarrow> \<forall>k. 0 < k \<and> k \<le> length ss \<longrightarrow> map_of t (acc @ take k ss) \<noteq> None \<Longrightarrow> 0 < k \<Longrightarrow> k \<le> length ss \<Longrightarrow>
   map_of t (acc @ take k ss) = Some TDir"
proof (induction ss arbitrary: acc k)
  case (Cons s ss)
  have "map_of t (acc @ [s]) = Some TDir" using Cons.prems(1) Cons.prems(2)[rule_format, of 1] by (auto split: option.splits tnode.splits)
  moreover have "map_of t ((acc @ [s]) @ take j ss) = Some TDir" if "0 < j" "j \<le> length ss" for j
  proof (rule Cons.IH[OF _ _ that])
    show "unsafe_walk t (acc @ [s]) ss = None" using Cons.prems(1) calculation by simp
    show "\<forall>k. 0 < k \<and> k \<le> length ss \<longrightarrow> map_of t ((acc @ [s]) @ take k ss) \<noteq> None"
    proof (intro allI impI)
      fix i assume "0 < i \<and> i \<le> length ss"
      then show "map_of t ((acc @ [s]) @ take i ss) \<noteq> None" using Cons.prems(2)[rule_format, of "Suc i"] by simp
    qed
  qed
  ultimately show ?case using Cons.prems(3,4) by (cases k; cases "k - 1") auto
qed simp

lemma writeContained_InrD:
  assumes "writeContained ok t p b = Inr t'"
  shows "map_of t' (split_slash p) = Some (TFile False b)"
    and "0 < k \<Longrightarrow> k < length (split_slash p) \<Longrightarrow> map_of t' (take k (split_slash p)) = Some TDir"
    and "map_of t q = Some n \<Longrightarrow> q \<noteq> split_slash p \<Longrightarrow> map_of t' q = Some n"
    and "map_of t (split_slash p) \<noteq> Some TDir"
    and "map_of t q = None \<Longrightarrow> map_of t' q = Some n \<Longrightarrow> q \<noteq> split_slash p \<Longrightarrow> n = TDir \<and> strict_prefix q (split_slash p)"
proof -
  from assms obtain t1 where t1: "mkdirs [] (dir_segs p) t = Some t1" "unsafeAncestor t1 p = None" "destination_problem t1 p = None"
    and t': "t' = AList.update (split_slash p) (TFile False b) t1"
    by (auto simp: writeContained_def split: option.splits if_splits)
  have dir: "map_of t1 (take k (split_slash p)) = Some TDir" if "0 < k" "k < length (split_slash p)" for k
  proof -
    have "map_of t1 ([] @ take k (dir_segs p)) = Some TDir"
      using t1(2) that mkdirs_covers[OF t1(1)]
      by (intro unsafe_walk_None) (auto simp: unsafeAncestor_def dir_segs_def)
    then show ?thesis using that by (simp add: dir_segs_def take_butlast)
  qed
  show "map_of t' (split_slash p) = Some (TFile False b)" by (simp add: t' update_conv')
  show "map_of t' (take k (split_slash p)) = Some TDir" if "0 < k" "k < length (split_slash p)"
  proof -
    have "take k (split_slash p) \<noteq> split_slash p" using that(2) by (metis length_take min.absorb4 nat_neq_iff)
    then show ?thesis using dir[OF that] by (simp add: t' update_conv')
  qed
  show "map_of t q = Some n \<Longrightarrow> q \<noteq> split_slash p \<Longrightarrow> map_of t' q = Some n" using mkdirs_keeps[OF t1(1)] by (simp add: t' update_conv')
  show "map_of t (split_slash p) \<noteq> Some TDir" using mkdirs_keeps[OF t1(1), of "split_slash p" TDir] t1(3) by (auto simp: destination_problem_def)
  show "map_of t q = None \<Longrightarrow> map_of t' q = Some n \<Longrightarrow> q \<noteq> split_slash p \<Longrightarrow> n = TDir \<and> strict_prefix q (split_slash p)"
  proof -
    assume q: "map_of t q = None" "map_of t' q = Some n" "q \<noteq> split_slash p"
    then obtain k where k: "n = TDir" "q = take k (dir_segs p)" using mkdirs_adds[OF t1(1), of q n] by (auto simp: t' update_conv')
    have "split_slash p = dir_segs p @ [last (split_slash p)]" by (simp add: dir_segs_def)
    then have "strict_prefix (dir_segs p) (split_slash p)" by (metis strict_prefixI')
    then show ?thesis using k take_is_prefix[of k "dir_segs p"] by (auto intro: prefix_order.le_less_trans)
  qed
qed

text \<open>What is true of every installed path, as the files are written one by one.\<close>

definition installed_ok :: "(string \<Rightarrow> bool) \<Rightarrow> (string \<Rightarrow> string) \<Rightarrow> tree \<Rightarrow> install_result \<Rightarrow> bool" where
  "installed_ok tracked canonicalRel t res \<longleftrightarrow>
     (\<forall>p \<in> set (installed res). \<not> tracked p \<and> \<not> tracked (canonicalRel p) \<and>
        (\<forall>k. 0 < k \<and> k < length (split_slash p) \<longrightarrow> map_of (worktree res) (take k (split_slash p)) = Some TDir)) \<and>
     (\<forall>q n. map_of t q = Some n \<and> q \<notin> split_slash ` set (installed res) \<longrightarrow> map_of (worktree res) q = Some n) \<and>
     (\<forall>q. map_of t q = Some TDir \<longrightarrow> map_of (worktree res) q = Some TDir)"

lemma install_one_ok:
  assumes "installed_ok tracked canonicalRel t res"
  shows "installed_ok tracked canonicalRel t (install_one tracked canonicalRel diskOk f res) \<and>
    set (installed (install_one tracked canonicalRel diskOk f res)) \<subseteq> insert (afPath f) (set (installed res))"
proof (cases "tracked (afPath f) \<or> tracked (canonicalRel (afPath f))")
  case False
  show ?thesis
  proof (cases "writeContained (diskOk (afPath f)) (worktree res) (afPath f) (afBytes f)")
    case (Inr t')
    note w = writeContained_InrD[OF Inr]
    have dir: "map_of t' q = Some TDir" if "map_of (worktree res) q = Some TDir" for q
      using w(3)[OF that] w(4) that by metis
    have "installed_ok tracked canonicalRel t (res\<lparr>installed := installed res @ [afPath f], worktree := t'\<rparr>)"
      unfolding installed_ok_def using assms False w(2,3) dir by (auto simp: installed_ok_def)
    then show ?thesis using False Inr by (auto simp: install_one_def)
  qed (use False assms in \<open>auto simp: install_one_def installed_ok_def\<close>)
qed (use assms in \<open>auto simp: install_one_def installed_ok_def\<close>)

lemma fold_install_ok:
  assumes "installed_ok tracked canonicalRel t res"
  shows "installed_ok tracked canonicalRel t (fold (install_one tracked canonicalRel diskOk) fs res) \<and>
    set (installed (fold (install_one tracked canonicalRel diskOk) fs res)) \<subseteq> afPath ` set fs \<union> set (installed res)"
  using assms
proof (induction fs arbitrary: res)
  case (Cons f fs)
  show ?case using Cons.IH[of "install_one tracked canonicalRel diskOk f res"] install_one_ok[OF Cons.prems, of diskOk f] by auto
qed simp

lemma accept_problem_None:
  "accept_problem t canonicalRel patterns f = None \<Longrightarrow> isCanonicalRelPath (afPath f) \<and> \<not> isDeniedArtifactPath (afPath f) \<and>
     isUnderDeclaredDir (afPath f) patterns \<and> \<not> isDeniedArtifactPath (canonicalRel (afPath f))"
  by (auto simp: accept_problem_def Let_def split: if_splits option.splits)

section \<open>Properties\<close>

text \<open>
  What a runner may return. Artifacts the submitter accepts are within the count, per-file and total caps, each at a distinct canonical path
  that is not protected and lies under the literal directory of a declared pattern it matches, and its bytes have the announced hash.
\<close>

theorem received_artifacts_are_declared:
  assumes "receiveArtifacts parseHeader parse parseEnd sha256 ticketId patterns lms r = Inr files" and "reader_ok r"
  shows "length files \<le> artMaxCount lms \<and> sum_list (map (length \<circ> afBytes) files) \<le> artMaxTotal lms \<and> distinct (map afPath files) \<and>
    list_all (\<lambda>f. length (afBytes f) \<le> artMaxFile lms \<and> isCanonicalRelPath (afPath f) \<and> \<not> isDeniedArtifactPath (afPath f) \<and>
      isUnderDeclaredDir (afPath f) patterns) files"
proof -
  from assms(1) obtain l r1 es r2 where x: "readLine MAX_STREAM_HEADER_BYTES r = (Got l, r1)" "\<not> artMaxCount lms < length es"
    "check_declared patterns lms [] 0 es = None" "receive_files readLine readBytes parse sha256 es r1 = Inr (files, r2)"
    by (auto simp: receiveArtifacts_def split: prod.splits read.splits option.splits if_splits sum.splits bool.splits)
  have v: "reader_ok r1" using chunk_reader.line_rest[OF assms(2), of MAX_STREAM_HEADER_BYTES l] x(1) by simp
  note all2 = receive_files_sound[OF chunk_reader.byte_reader_axioms v x(4)] and c = check_declared_sound[OF x(3)]
  have paths: "map afPath files = map (\<lambda>e. nullish (aPath e) []) es" and sizes: "map (length \<circ> afBytes) files = map (\<lambda>e. nullish (aSize e) 0) es"
    using all2 by (induction es files rule: list_all2_induct) auto
  have some: "\<forall>e \<in> set es. aPath e = Some (nullish (aPath e) [])" using c by fastforce
  then have "map aPath es = map Some (map afPath files)" unfolding paths by simp
  then have "distinct (map Some (map afPath files))" using c by (metis le0)
  then have "distinct (map afPath files)" using distinct_map[of Some "map afPath files"] by blast
  moreover have "f \<in> set files \<Longrightarrow> length (afBytes f) \<le> artMaxFile lms \<and> isCanonicalRelPath (afPath f) \<and> \<not> isDeniedArtifactPath (afPath f) \<and>
      isUnderDeclaredDir (afPath f) patterns" for f
  proof -
    have "f \<in> set files \<longrightarrow> (\<exists>e \<in> set es. nullish (aPath e) [] = afPath f \<and> nullish (aSize e) 0 = length (afBytes f))"
      using all2 by (induction es files rule: list_all2_induct) auto
    moreover assume "f \<in> set files"
    ultimately obtain e where e: "e \<in> set es" "nullish (aPath e) [] = afPath f" "nullish (aSize e) 0 = length (afBytes f)" by blast
    from c e(1) obtain p n where "aPath e = Some p" "aSize e = Some n" "n \<le> artMaxFile lms" "isCanonicalRelPath p" "\<not> isDeniedArtifactPath p"
      "isUnderDeclaredDir p patterns" by auto
    with e show ?thesis by simp
  qed
  ultimately show ?thesis using c sizes x(2) list_all2_lengthD[OF all2] by (simp add: list_all_iff)
qed

text \<open>
  C32. Installing never damages the worktree. Every installed path is canonical, declared, unprotected under either spelling and not tracked by
  git, with real directories and no link above it; every other file, link and directory of the worktree is left as it was, and when git cannot be asked nothing is written.
\<close>

theorem install_is_confined:
  assumes "res = installArtifacts (Some t) canonicalRel gitTracked diskOk files patterns"
  shows "list_all (\<lambda>p. isCanonicalRelPath p \<and> \<not> isDeniedArtifactPath p \<and> \<not> isDeniedArtifactPath (canonicalRel p) \<and> isUnderDeclaredDir p patterns \<and>
      (\<exists>tracked. gitTracked = Some tracked \<and> \<not> tracked p \<and> \<not> tracked (canonicalRel p))) (installed res) \<and>
    (\<forall>p k. p \<in> set (installed res) \<and> 0 < k \<and> k < length (split_slash p) \<longrightarrow> map_of (worktree res) (take k (split_slash p)) = Some TDir) \<and>
    (\<forall>q n. map_of t q = Some n \<and> q \<notin> split_slash ` set (installed res) \<longrightarrow> map_of (worktree res) q = Some n)"
proof -
  let ?acc = "filter (\<lambda>f. accept_problem t canonicalRel patterns f = None) files"
  let ?res0 = "\<lparr>installed = [], refused = List.map_filter (\<lambda>f. map_option (Pair (afPath f)) (accept_problem t canonicalRel patterns f)) files, worktree = t\<rparr>"
  show ?thesis
  proof (cases "?acc = [] \<or> gitTracked = None")
    case True
    then have "installed res = []" "worktree res = t" using assms by (auto simp: installArtifacts_def Let_def split: option.splits)
    then show ?thesis by simp
  next
    case False
    then obtain tracked where g: "gitTracked = Some tracked" by auto
    have res: "res = fold (install_one tracked canonicalRel diskOk) ?acc ?res0" using assms False g by (simp add: installArtifacts_def Let_def)
    have "installed_ok tracked canonicalRel t ?res0" by (simp add: installed_ok_def)
    from fold_install_ok[OF this, of diskOk ?acc] have ok: "installed_ok tracked canonicalRel t res" "set (installed res) \<subseteq> afPath ` set ?acc"
      by (simp_all add: res)
    then have "p \<in> set (installed res) \<Longrightarrow> isCanonicalRelPath p \<and> \<not> isDeniedArtifactPath p \<and> \<not> isDeniedArtifactPath (canonicalRel p) \<and> isUnderDeclaredDir p patterns" for p
      by (auto dest!: accept_problem_None)
    then show ?thesis using ok(1) g by (auto simp: installed_ok_def list_all_iff)
  qed
qed

section \<open>Witnesses\<close>

definition example_art :: art_entry where
  "example_art = \<lparr>aPath = Some ''out/r.json'', aSize = Some 2, aSha = Some (replicate 64 CHR ''0'')\<rparr>"

definition example_caps :: artifact_limits where
  "example_caps = \<lparr>artMaxFile = 5, artMaxTotal = 5, artMaxCount = 2\<rparr>"

abbreviation example_received :: "receive_refusal + art_file list" where
  "example_received \<equiv> receiveArtifacts (\<lambda>l. if l = ''H'' then Some \<lparr>hProtocolOk = True, hTicket = Some ''t1'', hFiles = Some [example_art]\<rparr> else None)
     (\<lambda>l. if l = ''F'' then Some example_art else None) (\<lambda>l. if l = ''E'' then Some True else None) (\<lambda>b. replicate 64 CHR ''0'') ''t1'' [''out/*.json''] example_caps
     (makeReader [[CHR ''H'', NEWLINE], [CHR ''F'', NEWLINE, CHR ''o'', CHR ''k'', CHR ''E'', NEWLINE]] False)"

lemma example_declared:
  "isCanonicalRelPath ''out/r.json''" "\<not> isDeniedArtifactPath ''out/r.json''" "isUnderDeclaredDir ''out/r.json'' [''out/*.json'']"
  by code_simp+

lemma example_received_files: "example_received = Inr [\<lparr>afPath = ''out/r.json'', afBytes = ''ok''\<rparr>]"
  by (simp add: receiveArtifacts_def makeReader_def readLine.simps readBytes.simps fill_def take_bytes_def rescan_def hasMore_def NEWLINE_def
      MAX_STREAM_HEADER_BYTES_def MAX_FRAME_LINE_BYTES_def example_art_def example_caps_def example_declared isBlobHash_def is_hex_def list_all_iff)

theorem received_artifacts_are_declared_witness:
  "length [\<lparr>afPath = ''out/r.json'', afBytes = ''ok''\<rparr>] \<le> artMaxCount example_caps \<and> isUnderDeclaredDir ''out/r.json'' [''out/*.json'']"
proof -
  have "reader_ok (makeReader [[CHR ''H'', NEWLINE], [CHR ''F'', NEWLINE, CHR ''o'', CHR ''k'', CHR ''E'', NEWLINE]] False)" using makeReader_ok by simp
  from received_artifacts_are_declared[OF example_received_files this] show ?thesis by simp
qed

abbreviation example_installed :: install_result where
  "example_installed \<equiv> installArtifacts (Some [([''src''], TDir), ([''src'', ''a''], TFile False ''x'')]) (\<lambda>p. p) (Some (\<lambda>p. p = ''src/a'')) (\<lambda>_. True)
     [\<lparr>afPath = ''out/r.json'', afBytes = ''ok''\<rparr>, \<lparr>afPath = ''src/a'', afBytes = ''bad''\<rparr>] [''out/*.json'', ''src/a'']"

lemma example_installed_paths: "installed example_installed = [''out/r.json'']"
  by code_simp

theorem install_is_confined_witness:
  "installed example_installed = [''out/r.json''] \<and> map_of (worktree example_installed) [''out''] = Some TDir \<and>
   map_of (worktree example_installed) [''src'', ''a''] = Some (TFile False ''x'')"
proof -
  have c: "\<forall>p k. p \<in> set (installed example_installed) \<and> 0 < k \<and> k < length (split_slash p) \<longrightarrow> map_of (worktree example_installed) (take k (split_slash p)) = Some TDir"
    "\<forall>q n. map_of [([''src''], TDir), ([''src'', ''a''], TFile False ''x'')] q = Some n \<and> q \<notin> split_slash ` set (installed example_installed) \<longrightarrow>
       map_of (worktree example_installed) q = Some n"
    using install_is_confined[OF refl] by blast+
  have "map_of (worktree example_installed) (take 1 (split_slash ''out/r.json'')) = Some TDir"
    using c(1)[rule_format, of "''out/r.json''" 1] by (simp add: example_installed_paths)
  moreover have "map_of (worktree example_installed) [''src'', ''a''] = Some (TFile False ''x'')"
    using c(2)[rule_format, of "[''src'', ''a'']" "TFile False ''x''"] by (simp add: example_installed_paths)
  ultimately show ?thesis using example_installed_paths by simp
qed

end
