(* ===== verification/Json.thy ===== *)
theory Json
  imports Paths "HOL-Library.AList"
begin

text \<open>
  Parsed JSON values and the tests the configuration code makes on them. An object is an association list in insertion order without repeated
  keys; reading a missing key gives \<open>None\<close>, JavaScript's \<^verbatim>\<open>undefined\<close>. Numbers are finite (a literal too large for a double is not represented).
\<close>

datatype json = JNull | JBool bool | JNum jsnum | JStr string | JArr "json list" | JObj "(string \<times> json) list"

type_synonym jobj = "(string \<times> json) list"

text \<open>\<^verbatim>\<open>v.key\<close> on a value that is an object or not.\<close>

definition field :: "json \<Rightarrow> string \<Rightarrow> json option" where
  "field v k = (case v of JObj kvs \<Rightarrow> map_of kvs k | _ \<Rightarrow> None)"

text \<open>\<^verbatim>\<open>Number.isFinite(v) && P(v)\<close>, \<^verbatim>\<open>Number.isInteger(v) && P(v)\<close> and the \<^verbatim>\<open>typeof\<close> tests.\<close>

definition num_that :: "(jsnum \<Rightarrow> bool) \<Rightarrow> json option \<Rightarrow> bool" where
  "num_that P v = (case v of Some (JNum n) \<Rightarrow> P n | _ \<Rightarrow> False)"

definition int_that :: "(jsnum \<Rightarrow> bool) \<Rightarrow> json option \<Rightarrow> bool" where
  "int_that P v = num_that (\<lambda>n. is_integer n \<and> P n) v"

definition is_bool :: "json option \<Rightarrow> bool" where
  "is_bool v = (case v of Some (JBool _) \<Rightarrow> True | _ \<Rightarrow> False)"

definition str_that :: "(string \<Rightarrow> bool) \<Rightarrow> json option \<Rightarrow> bool" where
  "str_that P v = (case v of Some (JStr s) \<Rightarrow> P s | _ \<Rightarrow> False)"

definition is_object :: "json option \<Rightarrow> bool" where
  "is_object v = (case v of Some (JObj _) \<Rightarrow> True | _ \<Rightarrow> False)"

text \<open>\<^verbatim>\<open>v && typeof v === 'object'\<close> lets an array through.\<close>

definition is_object_or_array :: "json option \<Rightarrow> bool" where
  "is_object_or_array v = (case v of Some (JObj _) \<Rightarrow> True | Some (JArr _) \<Rightarrow> True | _ \<Rightarrow> False)"

definition arr_that :: "(json list \<Rightarrow> bool) \<Rightarrow> json option \<Rightarrow> bool" where
  "arr_that P v = (case v of Some (JArr xs) \<Rightarrow> P xs | _ \<Rightarrow> False)"

definition absent_or :: "(json option \<Rightarrow> bool) \<Rightarrow> json option \<Rightarrow> bool" where
  "absent_or P v \<longleftrightarrow> v = None \<or> P v"

text \<open>The strings of an array all of whose elements are strings.\<close>

fun str_of :: "json \<Rightarrow> string option" where
  "str_of (JStr s) = Some s"
| "str_of _ = None"

fun strings_of :: "json list \<Rightarrow> string list option" where
  "strings_of [] = Some []"
| "strings_of (x # xs) = (case (str_of x, strings_of xs) of (Some s, Some ss) \<Rightarrow> Some (s # ss) | _ \<Rightarrow> None)"

definition strs_that :: "(string list \<Rightarrow> bool) \<Rightarrow> json option \<Rightarrow> bool" where
  "strs_that P v = arr_that (\<lambda>xs. case strings_of xs of Some ss \<Rightarrow> P ss | None \<Rightarrow> False) v"

text \<open>\<^verbatim>\<open>Object.keys\<close>, and the object spread \<open>{...a, ...b}\<close>, which keeps the place of a key it overwrites.\<close>

definition obj_keys :: "jobj \<Rightarrow> string list" where
  "obj_keys kvs = map fst kvs"

definition spread :: "jobj \<Rightarrow> jobj \<Rightarrow> jobj" where
  "spread a b = foldl (\<lambda>m kv. AList.update (fst kv) (snd kv) m) a b"

definition set_key :: "string \<Rightarrow> json \<Rightarrow> jobj \<Rightarrow> jobj" where
  "set_key k v kvs = AList.update k v kvs"

definition del_key :: "string \<Rightarrow> jobj \<Rightarrow> jobj" where
  "del_key k kvs = AList.delete k kvs"

text \<open>The own enumerable properties of a value that is spread: indices for an array or a string, nothing for another primitive.\<close>

definition digit_char :: "nat \<Rightarrow> char" where
  "digit_char d = char_of (48 + d)"

fun decimal :: "nat \<Rightarrow> string" where
  "decimal n = (if n < 10 then [digit_char n] else decimal (n div 10) @ [digit_char (n mod 10)])"

declare decimal.simps [simp del]

definition own_props :: "json \<Rightarrow> jobj" where
  "own_props v =
     (case v of
        JObj kvs \<Rightarrow> kvs
      | JArr xs \<Rightarrow> zip (map decimal [0..<length xs]) xs
      | JStr s \<Rightarrow> zip (map decimal [0..<length s]) (map (\<lambda>c. JStr [c]) s)
      | _ \<Rightarrow> [])"

section \<open>Reading a validated field\<close>

definition num_of :: "json option \<Rightarrow> jsnum" where
  "num_of v = (case v of Some (JNum n) \<Rightarrow> n | _ \<Rightarrow> 0)"

definition bool_of :: "json option \<Rightarrow> bool" where
  "bool_of v = (case v of Some (JBool b) \<Rightarrow> b | _ \<Rightarrow> False)"

definition opt_num :: "json option \<Rightarrow> jsnum option" where
  "opt_num v = (case v of Some (JNum n) \<Rightarrow> Some n | _ \<Rightarrow> None)"

lemma num_that_num_of: "num_that P v \<Longrightarrow> P (num_of v)"
  by (auto simp: num_that_def num_of_def split: option.splits json.splits)

lemma int_that_num_of: "int_that P v \<Longrightarrow> is_integer (num_of v) \<and> P (num_of v)"
  unfolding int_that_def by (rule num_that_num_of)

lemma spread_lookup: "map_of (spread a b) k = (case map_of (rev b) k of Some v \<Rightarrow> Some v | None \<Rightarrow> map_of a k)"
proof (induction b rule: rev_induct)
  case (snoc kv b)
  then show ?case by (cases kv) (simp add: spread_def update_conv')
qed (simp add: spread_def)

lemma distinct_rev_map_of: "distinct (map fst b) \<Longrightarrow> map_of (rev b) = map_of b"
proof
  fix k
  assume d: "distinct (map fst b)"
  then have d': "distinct (map fst (rev b))" by (metis distinct_rev rev_map)
  show "map_of (rev b) k = map_of b k"
  proof (cases "map_of b k")
    case None
    then show ?thesis using map_of_eq_None_iff[of "rev b" k] map_of_eq_None_iff[of b k] by simp
  next
    case (Some v)
    then have "(k, v) \<in> set (rev b)" by (simp add: map_of_SomeD)
    then have "map_of (rev b) k = Some v" using map_of_eq_Some_iff[OF d'] by blast
    then show ?thesis using Some by simp
  qed
qed

end
