(* ===== verification/Schedule.thy ===== *)
theory Schedule
  imports Json
begin

text \<open>
  A runner's power schedule (\<^verbatim>\<open>src/src/runner-schedule.js\<close>): the shape of a schedule and whether an instant lies in one of its windows. Instants are whole
  milliseconds. The time-zone database is a parameter: \<open>known tz\<close> tells whether a zone exists, \<open>off tz ms\<close> is its offset at an instant.
\<close>

section \<open>The shape of a schedule\<close>

definition SCHEDULE_DAYS :: "string list" where
  "SCHEDULE_DAYS = [''mon'', ''tue'', ''wed'', ''thu'', ''fri'', ''sat'', ''sun'']"

definition DAY_MS :: int where "DAY_MS = 86400000"

definition is_digit :: "char \<Rightarrow> bool" where
  "is_digit c \<longleftrightarrow> CHR ''0'' \<le> c \<and> c \<le> CHR ''9''"

definition digit_val :: "char \<Rightarrow> int" where
  "digit_val c = of_char c - 48"

text \<open>\<^verbatim>\<open>TIME_RE\<close>: two digits below 24, a colon, two digits below 60.\<close>

definition TIME_RE :: "string \<Rightarrow> bool" where
  "TIME_RE s = (case s of
      [a, b, c, d, e] \<Rightarrow>
        is_digit a \<and> is_digit b \<and> c = CHR '':'' \<and> is_digit d \<and> is_digit e \<and>
        (a = CHR ''0'' \<or> a = CHR ''1'' \<or> a = CHR ''2'' \<and> b \<le> CHR ''3'') \<and> d \<le> CHR ''5''
    | _ \<Rightarrow> False)"

definition minutesOf :: "string \<Rightarrow> int" where
  "minutesOf s = (case s of
      [a, b, _, d, e] \<Rightarrow> (digit_val a * 10 + digit_val b) * 60 + digit_val d * 10 + digit_val e
    | _ \<Rightarrow> 0)"

datatype schedule_problem =
  NotAnObject | NoTimezone | UnknownTimezone | NoWindows | WindowNotObject nat | NoDays nat | UnknownDay nat | DayTwice nat | BadTime nat string | EmptyWindow nat

definition window_problem :: "nat \<Rightarrow> json \<Rightarrow> schedule_problem option" where
  "window_problem i win =
     (if \<not> is_object (Some win) then Some (WindowNotObject i)
      else case field win ''days'' of
        Some (JArr days) \<Rightarrow>
          if days = [] then Some (NoDays i)
          else if \<not> list_all (\<lambda>d. case d of JStr s \<Rightarrow> s \<in> set SCHEDULE_DAYS | _ \<Rightarrow> False) days then Some (UnknownDay i)
          else if \<not> distinct days then Some (DayTwice i)
          else if \<not> str_that TIME_RE (field win ''from'') then Some (BadTime i ''from'')
          else if \<not> str_that TIME_RE (field win ''to'') then Some (BadTime i ''to'')
          else if field win ''from'' = field win ''to'' then Some (EmptyWindow i)
          else None
      | _ \<Rightarrow> Some (NoDays i))"

fun windows_problem :: "nat \<Rightarrow> json list \<Rightarrow> schedule_problem option" where
  "windows_problem i [] = None"
| "windows_problem i (w # ws) = (case window_problem i w of Some x \<Rightarrow> Some x | None \<Rightarrow> windows_problem (Suc i) ws)"

definition scheduleProblem :: "(string \<Rightarrow> bool) \<Rightarrow> json option \<Rightarrow> schedule_problem option" where
  "scheduleProblem known schedule =
     (case schedule of
        Some (JObj kvs) \<Rightarrow>
          if \<not> str_that (\<lambda>s. s \<noteq> []) (map_of kvs ''timezone'') then Some NoTimezone
          else if \<not> str_that known (map_of kvs ''timezone'') then Some UnknownTimezone
          else (case map_of kvs ''available'' of
                  Some (JArr ws) \<Rightarrow> if ws = [] then Some NoWindows else windows_problem 0 ws
                | _ \<Rightarrow> Some NoWindows)
      | _ \<Rightarrow> Some NotAnObject)"

section \<open>Availability\<close>

record sched_window =
  wDays :: "string list"
  wFrom :: string
  wTo :: string

record schedule =
  timezone :: string
  available :: "sched_window list"

text \<open>The schedule a valid value describes.\<close>

definition window_of :: "json \<Rightarrow> sched_window" where
  "window_of w = \<lparr>wDays = (case field w ''days'' of Some (JArr ds) \<Rightarrow> nullish (strings_of ds) [] | _ \<Rightarrow> []),
     wFrom = nullish (Option.bind (field w ''from'') str_of) [], wTo = nullish (Option.bind (field w ''to'') str_of) []\<rparr>"

definition schedule_of :: "json \<Rightarrow> schedule" where
  "schedule_of s = \<lparr>timezone = nullish (Option.bind (field s ''timezone'') str_of) [],
     available = (case field s ''available'' of Some (JArr ws) \<Rightarrow> map window_of ws | _ \<Rightarrow> [])\<rparr>"

text \<open>\<^verbatim>\<open>wallMs\<close>: the wall clock in whole seconds. \<^verbatim>\<open>instantOf\<close> inverts it by three rounds of correction.\<close>

definition wallMs :: "(int \<Rightarrow> int) \<Rightarrow> int \<Rightarrow> int" where
  "wallMs off ms = (ms + off ms) div 1000 * 1000"

definition instantOf :: "(int \<Rightarrow> int) \<Rightarrow> int \<Rightarrow> int" where
  "instantOf off wall = ((\<lambda>guess. wall - (wallMs off guess - guess)) ^^ 3) wall"

text \<open>The weekday of a UTC day start; day 0 of the epoch was a Thursday.\<close>

definition weekday :: "int \<Rightarrow> string" where
  "weekday dayStart = SCHEDULE_DAYS ! nat ((dayStart div DAY_MS + 3) mod 7)"

definition window_start :: "(int \<Rightarrow> int) \<Rightarrow> sched_window \<Rightarrow> int \<Rightarrow> int" where
  "window_start off w dayStart = instantOf off (dayStart + minutesOf (wFrom w) * 60000)"

definition window_end :: "(int \<Rightarrow> int) \<Rightarrow> sched_window \<Rightarrow> int \<Rightarrow> int" where
  "window_end off w dayStart =
     instantOf off (dayStart + (if minutesOf (wTo w) > minutesOf (wFrom w) then minutesOf (wTo w) else minutesOf (wTo w) + 1440) * 60000)"

definition open_at :: "(int \<Rightarrow> int) \<Rightarrow> int \<Rightarrow> sched_window \<Rightarrow> int \<Rightarrow> bool" where
  "open_at off now w dayStart \<longleftrightarrow> weekday dayStart \<in> set (wDays w) \<and> window_start off w dayStart \<le> now \<and> now < window_end off w dayStart"

definition today :: "(int \<Rightarrow> int) \<Rightarrow> int \<Rightarrow> int" where
  "today off now = wallMs off now - (wallMs off now mod DAY_MS + DAY_MS) mod DAY_MS"

definition later_close :: "int option \<Rightarrow> int \<Rightarrow> int option" where
  "later_close c e = (case c of None \<Rightarrow> Some e | Some x \<Rightarrow> if e > x then Some e else Some x)"

definition close_step :: "(int \<Rightarrow> int) \<Rightarrow> int \<Rightarrow> sched_window \<Rightarrow> int option \<Rightarrow> int \<Rightarrow> int option" where
  "close_step off now w c dayStart = (if open_at off now w dayStart then later_close c (window_end off w dayStart) else c)"

definition closesAt :: "(int \<Rightarrow> int) \<Rightarrow> int \<Rightarrow> sched_window list \<Rightarrow> int option" where
  "closesAt off now ws =
     foldl (\<lambda>c w. foldl (close_step off now w) c [today off now - DAY_MS, today off now]) None ws"

text \<open>\<^verbatim>\<open>runnerAvailability\<close>: \<open>None\<close> for no schedule; otherwise whether a window is open and when the last one closes.\<close>

definition runnerAvailability :: "(string \<Rightarrow> int \<Rightarrow> int) \<Rightarrow> schedule option \<Rightarrow> int \<Rightarrow> bool \<times> int option" where
  "runnerAvailability tz s now =
     (case s of None \<Rightarrow> (True, None)
      | Some sch \<Rightarrow> (let c = closesAt (tz (timezone sch)) now (available sch) in (c \<noteq> None, c)))"

section \<open>Lemmas\<close>

text \<open>The latest end among the open windows, over the pairs the loops visit.\<close>

definition visited :: "(int \<Rightarrow> int) \<Rightarrow> int \<Rightarrow> sched_window list \<Rightarrow> int set" where
  "visited off now ws = {window_end off w d | w d. w \<in> set ws \<and> d \<in> {today off now - DAY_MS, today off now} \<and> open_at off now w d}"

lemma later_close_bound: "\<exists>x. later_close c e = Some x \<and> e \<le> x \<and> (x = e \<or> c = Some x) \<and> (\<forall>y. c = Some y \<longrightarrow> y \<le> x)"
  by (auto simp: later_close_def split: option.splits)

definition is_latest :: "int set \<Rightarrow> int option \<Rightarrow> bool" where
  "is_latest A c \<longleftrightarrow> (case c of None \<Rightarrow> A = {} | Some x \<Rightarrow> x \<in> A \<and> (\<forall>y \<in> A. y \<le> x))"

lemma close_step_latest:
  "is_latest A c \<Longrightarrow> is_latest (A \<union> {e. e = window_end off w d \<and> open_at off now w d}) (close_step off now w c d)"
  by (auto simp: is_latest_def close_step_def later_close_def split: option.splits)

lemma closesAt_latest: "is_latest (visited off now ws) (closesAt off now ws)"
proof (induction ws rule: rev_induct)
  case (snoc w ws)
  let ?d1 = "today off now - DAY_MS" and ?d2 = "today off now"
  have eq: "visited off now (ws @ [w]) = visited off now ws \<union> {e. e = window_end off w ?d1 \<and> open_at off now w ?d1} \<union>
      {e. e = window_end off w ?d2 \<and> open_at off now w ?d2}"
    by (auto simp: visited_def)
  show ?case unfolding eq using close_step_latest[OF close_step_latest[OF snoc]] by (simp add: closesAt_def)
qed (simp add: closesAt_def is_latest_def visited_def)

text \<open>In a zone with a fixed offset of whole seconds the wall clock is a shift, and three rounds of correction are exact.\<close>

lemma wallMs_fixed: "\<forall>ms. off ms = z * 1000 \<Longrightarrow> wallMs off ms = ms div 1000 * 1000 + z * 1000"
  by (simp add: wallMs_def)

lemma instantOf_fixed:
  assumes "\<forall>ms. off ms = z * 1000"
  shows "instantOf off (k * 1000) = k * 1000 - z * 1000"
  using assms by (simp add: instantOf_def wallMs_fixed eval_nat_numeral)

lemma digit_val_range: "is_digit c \<Longrightarrow> 0 \<le> digit_val c \<and> digit_val c \<le> 9"
proof -
  assume "is_digit c"
  then have "48 \<le> (of_char c :: nat) \<and> (of_char c :: nat) \<le> 57" by (simp add: is_digit_def less_eq_char_def)
  then have "48 \<le> int (of_char c) \<and> int (of_char c) \<le> 57" by linarith
  then show ?thesis by (simp add: digit_val_def of_nat_of_char)
qed

lemma minutesOf_range: "TIME_RE s \<Longrightarrow> 0 \<le> minutesOf s \<and> minutesOf s < 1440"
proof -
  assume "TIME_RE s"
  then obtain a b c d e where s: "s = [a, b, c, d, e]" and dig: "is_digit a" "is_digit b" "is_digit d" "is_digit e"
    and h: "a = CHR ''0'' \<or> a = CHR ''1'' \<or> a = CHR ''2'' \<and> b \<le> CHR ''3''" and m: "d \<le> CHR ''5''"
    by (auto simp: TIME_RE_def split: list.splits)
  have "digit_val d \<le> 5" using m digit_val_range[OF dig(3)]
    by (simp add: digit_val_def less_eq_char_def flip: of_nat_of_char[where 'a = int])
  moreover have "digit_val a * 10 + digit_val b \<le> 23"
  proof -
    have "b \<le> CHR ''3'' \<Longrightarrow> digit_val b \<le> 3" by (simp add: digit_val_def less_eq_char_def flip: of_nat_of_char[where 'a = int])
    then show ?thesis using h digit_val_range[OF dig(2)] by (auto simp: digit_val_def)
  qed
  ultimately show ?thesis using digit_val_range[OF dig(1)] digit_val_range[OF dig(2)] digit_val_range[OF dig(3)] digit_val_range[OF dig(4)]
    by (simp add: minutesOf_def s)
qed

text \<open>The reference: a window of day \<open>k\<close> contains the wall-clock reading, whichever day that is.\<close>

definition window_length :: "sched_window \<Rightarrow> int" where
  "window_length w = (if minutesOf (wTo w) > minutesOf (wFrom w) then minutesOf (wTo w) else minutesOf (wTo w) + 1440) * 60000"

definition wall_open :: "int \<Rightarrow> int \<Rightarrow> sched_window \<Rightarrow> int \<Rightarrow> bool" where
  "wall_open z now w k \<longleftrightarrow> weekday (k * DAY_MS) \<in> set (wDays w) \<and>
     k * DAY_MS + minutesOf (wFrom w) * 60000 \<le> now + z * 1000 \<and> now + z * 1000 < k * DAY_MS + window_length w"

lemma open_at_fixed:
  assumes "\<forall>ms. off ms = z * 1000"
  shows "open_at off now w (k * DAY_MS) \<longleftrightarrow> wall_open z now w k" "window_end off w (k * DAY_MS) = k * DAY_MS + window_length w - z * 1000"
proof -
  have inst: "instantOf off (k * DAY_MS + m * 60000) = k * DAY_MS + m * 60000 - z * 1000" for m
    using instantOf_fixed[OF assms, of "k * 86400 + m * 60"] by (simp add: DAY_MS_def algebra_simps)
  then show e: "window_end off w (k * DAY_MS) = k * DAY_MS + window_length w - z * 1000" by (simp add: window_end_def window_length_def)
  show "open_at off now w (k * DAY_MS) \<longleftrightarrow> wall_open z now w k" by (auto simp: open_at_def wall_open_def window_start_def e inst)
qed

lemma div_whole_seconds: "(x :: int) div 1000 * 1000 div 86400000 = x div 86400000"
proof -
  have "x div 1000 * 1000 div (86400 * 1000) = x div 1000 div 86400" by (rule div_mult_mult2) simp
  also have "\<dots> = x div (1000 * 86400)" by (rule zdiv_zmult2_eq[symmetric]) simp
  finally show ?thesis by simp
qed

lemma today_fixed:
  assumes "\<forall>ms. off ms = z * 1000"
  shows "today off now = (now + z * 1000) div DAY_MS * DAY_MS"
proof -
  let ?w = "wallMs off now"
  have w: "?w = (now + z * 1000) div 1000 * 1000" using assms by (simp add: wallMs_def)
  have "?w div DAY_MS = (now + z * 1000) div DAY_MS" unfolding w DAY_MS_def by (rule div_whole_seconds)
  moreover have "(?w mod DAY_MS + DAY_MS) mod DAY_MS = ?w mod DAY_MS" by (simp add: DAY_MS_def)
  ultimately show ?thesis using minus_mod_eq_div_mult[of ?w DAY_MS] by (simp add: today_def)
qed

lemma wall_open_day:
  assumes "wall_open z now w k" "TIME_RE (wFrom w)" "TIME_RE (wTo w)"
  shows "k = (now + z * 1000) div DAY_MS \<or> k = (now + z * 1000) div DAY_MS - 1"
proof -
  let ?x = "now + z * 1000"
  have "window_length w \<le> 2 * DAY_MS" using minutesOf_range[OF assms(2)] minutesOf_range[OF assms(3)] by (simp add: window_length_def DAY_MS_def)
  then have "k * DAY_MS \<le> ?x" "?x < (k + 2) * DAY_MS" using assms(1) minutesOf_range[OF assms(2)] by (auto simp: wall_open_def algebra_simps)
  then have "k \<le> ?x div DAY_MS" "?x div DAY_MS < k + 2" by (auto simp: DAY_MS_def)
  then show ?thesis by linarith
qed

section \<open>Properties\<close>

text \<open>
  C35. Looking at two days is enough. In a zone with a fixed offset, a runner is available exactly when some window of some day contains the
  wall clock, windows across midnight included, and the closing time reported is the latest end among all of them.
\<close>

theorem runner_available_iff_window_open:
  assumes "\<forall>ms. tz (timezone s) ms = z * 1000" and "list_all (\<lambda>w. TIME_RE (wFrom w) \<and> TIME_RE (wTo w)) (available s)"
  shows "fst (runnerAvailability tz (Some s) now) = (\<exists>w k. w \<in> set (available s) \<and> wall_open z now w k) \<and>
    is_latest {k * DAY_MS + window_length w - z * 1000 | w k. w \<in> set (available s) \<and> wall_open z now w k} (snd (runnerAvailability tz (Some s) now))"
proof -
  let ?off = "tz (timezone s)" and ?A = "{k * DAY_MS + window_length w - z * 1000 | w k. w \<in> set (available s) \<and> wall_open z now w k}"
  let ?k = "(now + z * 1000) div DAY_MS"
  have days: "{today ?off now - DAY_MS, today ?off now} = {(?k - 1) * DAY_MS, ?k * DAY_MS}"
    by (simp add: today_fixed[OF assms(1)] algebra_simps)
  have "visited ?off now (available s) = {window_end ?off w (k * DAY_MS) | w k. w \<in> set (available s) \<and> (k = ?k - 1 \<or> k = ?k) \<and> open_at ?off now w (k * DAY_MS)}"
    unfolding visited_def days by auto
  also have "\<dots> = ?A" using assms(2) by (auto simp: open_at_fixed[OF assms(1)] list_all_iff dest: wall_open_day)
  finally have "is_latest ?A (closesAt ?off now (available s))" using closesAt_latest[of ?off now "available s"] by simp
  then show ?thesis by (auto simp: runnerAvailability_def is_latest_def Let_def split: option.splits)
qed

section \<open>Witnesses\<close>

definition night_schedule :: schedule where
  "night_schedule = \<lparr>timezone = ''UTC'', available = [\<lparr>wDays = [''thu''], wFrom = ''22:00'', wTo = ''06:00''\<rparr>]\<rparr>"

theorem runner_available_iff_window_open_witness: "fst (runnerAvailability (\<lambda>_ _. 0) (Some night_schedule) (24 * 3600000 + 5 * 3600000))"
proof -
  have t: "list_all (\<lambda>w. TIME_RE (wFrom w) \<and> TIME_RE (wTo w)) (available night_schedule)" by code_simp
  have "wall_open 0 (24 * 3600000 + 5 * 3600000) (hd (available night_schedule)) 0" by code_simp
  moreover have "hd (available night_schedule) \<in> set (available night_schedule)" by (simp add: night_schedule_def)
  ultimately show ?thesis using runner_available_iff_window_open[of "\<lambda>_ _. 0" night_schedule 0, OF _ t] by auto
qed

end
