(* ===== verification/Config.thy ===== *)
theory Config
  imports Schedule Classes Admission Gates Priority
begin

text \<open>
  The global configuration (\<^verbatim>\<open>src/src/config.js\<close>): its defaults, its validation, how a file is merged over the defaults, and what happens when the file
  is missing, unreadable or wrong. The configuration is a JSON object; \<open>cfg_of\<close> reads off the record of keys the scheduler model uses.
  Messages are not modelled: a failed check is known by the name of its key. The time-zone database is the parameter \<open>known\<close>.
\<close>

section \<open>Defaults\<close>

definition DEFAULT_PRIORITY_WEIGHTS :: jobj where
  "DEFAULT_PRIORITY_WEIGHTS = [(''tier'', JNum 2), (''age'', JNum 2), (''fairshare'', JNum 0)]"

definition DEFAULT_GLOBAL_CONFIG :: jobj where
  "DEFAULT_GLOBAL_CONFIG = [
     (''version'', JNum 1), (''capacity'', JStr ''auto''), (''loadClose'', JNum 15), (''loadOpen'', JNum 11), (''loadOpenSamples'', JNum 3),
     (''sampleMs'', JNum 5000), (''cpuClosePercent'', JNum 90), (''cpuOpenPercent'', JNum 70), (''cpuAdmissionPercent'', JNum 75),
     (''cpuOpenSamples'', JNum 3), (''admissionCooldownMs'', JNum 5000), (''memoryCloseBytes'', JNum 4294967296), (''memoryOpenBytes'', JNum 8589934592),
     (''cpuReserveCores'', JNum 1), (''preemptibleNiceMin'', JNum 1), (''preemptibleShare'', JNum (8 / 10)), (''memoryReserveBytes'', JNum 2147483648),
     (''defaultMemoryBytesPerWeight'', JNum 1073741824), (''schedulerMode'', JStr ''active''), (''settledDemandEnabled'', JBool True),
     (''settledDemandSettleMs'', JNum 120000), (''settledDemandWindowMs'', JNum 180000), (''settledDemandHeadroom'', JNum (125 / 100)),
     (''settledDemandFloorFraction'', JNum (1 / 2)), (''historyDemandEnabled'', JBool True), (''historyDemandMinRuns'', JNum 5),
     (''historyDemandRaise'', JBool True), (''rightSizeFromHistory'', JBool True), (''maxUnapprovedCpuCores'', JNum 4), (''maxLaneWeight'', JNum 4),
     (''conflictSkipLimit'', JNum 3), (''headBlockGraceMs'', JNum 600000), (''conflictSafeBackfill'', JBool True), (''expressMaxMs'', JNum 30000),
     (''expressPerMinute'', JNum 6), (''expressHeadMaxWaitMs'', JNum 900000), (''queueBypassCap'', JNum 0), (''queueBypassMaxMs'', JNum 60000),
     (''resourceSkipLimit'', JNum 3), (''resourceIdleOvershootCores'', JNum 1), (''floorOvershootCores'', JNum 6), (''maxRemoteQueue'', JNum 2),
     (''remoteRebindIntervalMs'', JNum 30000), (''localTreeLockWaitMs'', JNum 21600000), (''localFirstWaitMs'', JNum 90000),
     (''remoteRebindMinLocalWaitMs'', JNum 120000), (''runnerLostAfterMs'', JNum 7200000), (''remoteLostPollMs'', JNum 60000),
     (''runnerVersionFloor'', JNull), (''localWindow'', JNull), (''runnerTags'', JArr []), (''cpuLimit'', JStr ''prefer''), (''memoryLimit'', JStr ''measure''),
     (''runnerDownAfterMs'', JNum 300000), (''remoteProbeDeadlineMs'', JNum 10000), (''remoteRebalanceMinQueuedMs'', JNum 300000),
     (''remoteRebalanceIntervalMs'', JNum 60000), (''remoteRefusedMaxQueuedMs'', JNum 1800000), (''remoteSnapshotGzipLevel'', JNum 3),
     (''remoteBlobCache'', JBool True), (''remoteBlobCacheMaxBytes'', JNum 10737418240), (''remoteBlobCacheMaxAgeMs'', JNum 1209600000),
     (''remoteRebalanceCooldownMs'', JNum 600000), (''remoteRebalanceMaxMoves'', JNum 1), (''admissionLoadGate'', JBool False), (''laneNice'', JNum 10),
     (''localExecution'', JStr ''allowed''), (''priorityNice'', JObj [(''high'', JNum 5)]), (''noProgressTimeoutMs'', JNum 0), (''silenceTimeoutMs'', JNum 0),
     (''hungAfterMs'', JNum 1800000), (''hungCpuCores'', JNum (5 / 100)), (''idleCreditBelowFraction'', JNum (1 / 10)), (''idleCreditAfterMs'', JNum 600000),
     (''idleCreditMode'', JStr ''shadow''), (''resultCacheTtlSec'', JNum 86400), (''knownRedTtlSec'', JNum 21600), (''allocationShadow'', JBool False),
     (''simArmWindowMs'', JNum 300000), (''priorityAgingMs'', JNum 600000), (''priorityAgeMaxMs'', JNum 1200000),
     (''priorityWeights'', JObj DEFAULT_PRIORITY_WEIGHTS), (''maxQueuedHighPerRepo'', JNum 1), (''remoteDepsCache'', JBool True),
     (''remoteDepsCacheMaxBytes'', JNum 10737418240), (''remoteArtifactMaxFileBytes'', JNum 16777216), (''remoteArtifactMaxTotalBytes'', JNum 67108864),
     (''remoteArtifactMaxCount'', JNum 200), (''remoteTicketRetentionMs'', JNum 604800000), (''remoteGcMaxTicketsPerRun'', JNum 10),
     (''remoteGcMaxExaminedPerRun'', JNum 50), (''logRetentionMs'', JNum 1209600000), (''logGcMaxFilesPerRun'', JNum 5000)]"

section \<open>Names and shapes\<close>

definition PRIORITY_TIERS :: "string list" where
  "PRIORITY_TIERS = [''low'', ''medium'', ''high'']"

definition isPriorityTier :: "json option \<Rightarrow> bool" where
  "isPriorityTier v = str_that (\<lambda>s. s \<in> set PRIORITY_TIERS) v"

definition is_lower_alnum :: "char \<Rightarrow> bool" where
  "is_lower_alnum c \<longleftrightarrow> is_digit c \<or> CHR ''a'' \<le> c \<and> c \<le> CHR ''z''"

definition is_alnum :: "char \<Rightarrow> bool" where
  "is_alnum c \<longleftrightarrow> is_lower_alnum c \<or> CHR ''A'' \<le> c \<and> c \<le> CHR ''Z''"

definition RUNNER_NAME_RE :: "string \<Rightarrow> bool" where
  "RUNNER_NAME_RE s \<longleftrightarrow> (case s of [] \<Rightarrow> False | c # cs \<Rightarrow> is_lower_alnum c \<and> length cs \<le> 62 \<and> list_all (\<lambda>d. is_lower_alnum d \<or> d = CHR ''-'') cs)"

definition EXECUTABLE_NAME_RE :: "string \<Rightarrow> bool" where
  "EXECUTABLE_NAME_RE s \<longleftrightarrow> (case s of [] \<Rightarrow> False | c # cs \<Rightarrow> is_alnum c \<and> list_all (\<lambda>d. is_alnum d \<or> d \<in> set ''._+-'') cs)"

definition isValidRequiresShape :: "json option \<Rightarrow> bool" where
  "isValidRequiresShape v = strs_that (list_all EXECUTABLE_NAME_RE) v"

text \<open>\<^verbatim>\<open>VERSION_FLOOR_RE\<close>: three runs of digits between two dots.\<close>

definition digits_then :: "(string \<Rightarrow> bool) \<Rightarrow> string \<Rightarrow> bool" where
  "digits_then P s \<longleftrightarrow> takeWhile is_digit s \<noteq> [] \<and> P (dropWhile is_digit s)"

definition dot_then :: "(string \<Rightarrow> bool) \<Rightarrow> string \<Rightarrow> bool" where
  "dot_then P s = (case s of c # cs \<Rightarrow> c = CHR ''.'' \<and> P cs | [] \<Rightarrow> False)"

definition VERSION_FLOOR_RE :: "string \<Rightarrow> bool" where
  "VERSION_FLOOR_RE = digits_then (dot_then (digits_then (dot_then (digits_then (\<lambda>s. s = [])))))"

definition MAX_TIMER_MS :: jsnum where "MAX_TIMER_MS = 2147483647"
definition MIN_RETENTION_MS :: jsnum where "MIN_RETENTION_MS = 86400000"

section \<open>Validation\<close>

abbreviation positive :: "json option \<Rightarrow> bool" where "positive \<equiv> num_that (\<lambda>n. n > 0)"
abbreviation non_negative :: "json option \<Rightarrow> bool" where "non_negative \<equiv> num_that (\<lambda>n. n \<ge> 0)"
abbreviation positive_int :: "json option \<Rightarrow> bool" where "positive_int \<equiv> int_that (\<lambda>n. n > 0)"
abbreviation non_negative_int :: "json option \<Rightarrow> bool" where "non_negative_int \<equiv> int_that (\<lambda>n. n \<ge> 0)"
abbreviation percent :: "json option \<Rightarrow> bool" where "percent \<equiv> num_that (\<lambda>n. n > 0 \<and> n \<le> 100)"
abbreviation nice_value :: "json option \<Rightarrow> bool" where "nice_value \<equiv> int_that (\<lambda>n. n \<ge> 0 \<and> n \<le> 19)"
abbreviation one_of :: "string list \<Rightarrow> json option \<Rightarrow> bool" where "one_of ss \<equiv> str_that (\<lambda>s. s \<in> set ss)"

text \<open>A check of one key.\<close>

definition on :: "string \<Rightarrow> (json option \<Rightarrow> bool) \<Rightarrow> string \<times> (jobj \<Rightarrow> bool)" where
  "on k P = (k, \<lambda>c. P (map_of c k))"

definition localWindow_ok :: "(string \<Rightarrow> bool) \<Rightarrow> json option \<Rightarrow> bool" where
  "localWindow_ok known v =
     (case v of
        Some JNull \<Rightarrow> True
      | Some (JObj w) \<Rightarrow>
          list_all (\<lambda>k. k \<in> {''schedule'', ''lanes''}) (obj_keys w) \<and> scheduleProblem known (map_of w ''schedule'') = None \<and>
          strs_that (\<lambda>ss. ss \<noteq> [] \<and> list_all (\<lambda>s. s \<noteq> []) ss) (map_of w ''lanes'')
      | _ \<Rightarrow> False)"

definition priorityNice_ok :: "json option \<Rightarrow> bool" where
  "priorityNice_ok v = (case v of Some (JObj kvs) \<Rightarrow> list_all (\<lambda>(t, n). t \<in> set PRIORITY_TIERS \<and> nice_value (Some n)) kvs | _ \<Rightarrow> False)"

definition runner_ok :: "(string \<Rightarrow> bool) \<Rightarrow> json \<Rightarrow> bool" where
  "runner_ok known r \<longleftrightarrow>
     is_object_or_array (Some r) \<and> str_that RUNNER_NAME_RE (field r ''name'') \<and>
     str_that (\<lambda>s. s \<noteq> [] \<and> hd s \<noteq> CHR ''-'') (field r ''ssh'') \<and>
     absent_or (str_that (\<lambda>s. s \<noteq> [])) (field r ''root'') \<and> absent_or (str_that (\<lambda>s. s \<noteq> [])) (field r ''shell'') \<and>
     absent_or is_bool (field r ''rebalanceTarget'') \<and> absent_or positive (field r ''speedFactor'') \<and>
     absent_or (num_that (\<lambda>n. n \<ge> 1)) (field r ''speedRatio'') \<and> absent_or is_bool (field r ''offline'') \<and>
     absent_or (\<lambda>v. scheduleProblem known v = None) (field r ''schedule'')"

definition validateRunners :: "(string \<Rightarrow> bool) \<Rightarrow> json option \<Rightarrow> bool" where
  "validateRunners known v = arr_that (\<lambda>rs. list_all (runner_ok known) rs \<and> distinct (map (\<lambda>r. field r ''name'') rs)) v"

definition priority_checks :: "(string \<times> (jobj \<Rightarrow> bool)) list" where
  "priority_checks =
     [on ''priorityAgingMs'' (int_that (\<lambda>n. 60000 \<le> n \<and> n \<le> 3600000)),
      (''priorityAgeMaxMs'', \<lambda>c. int_that (\<lambda>n. num_of (map_of c ''priorityAgingMs'') \<le> n \<and> n \<le> 86400000) (map_of c ''priorityAgeMaxMs'')),
      on ''priorityWeights'' is_object,
      on ''priorityWeights'' (\<lambda>v. num_that (\<lambda>n. 1 / 100 \<le> n \<and> n \<le> 100) (Option.bind v (\<lambda>w. field w ''tier''))),
      on ''priorityWeights'' (\<lambda>v. num_that (\<lambda>n. 1 / 100 \<le> n \<and> n \<le> 100) (Option.bind v (\<lambda>w. field w ''age''))),
      on ''priorityWeights'' (\<lambda>v. num_of (Option.bind v (\<lambda>w. field w ''age'')) \<ge> num_of (Option.bind v (\<lambda>w. field w ''tier''))),
      on ''priorityWeights'' (\<lambda>v. Option.bind v (\<lambda>w. field w ''fairshare'') = Some (JNum 0)),
      on ''maxQueuedHighPerRepo'' non_negative_int]"

definition scheduling_checks :: "(string \<Rightarrow> bool) \<Rightarrow> (string \<times> (jobj \<Rightarrow> bool)) list" where
  "scheduling_checks known =
     [on ''version'' (int_that (\<lambda>_. True)),
      on ''capacity'' (\<lambda>v. v = Some (JStr ''auto'') \<or> positive v),
      on ''loadClose'' positive, on ''loadOpen'' positive,
      (''loadOpen'', \<lambda>c. num_of (map_of c ''loadOpen'') < num_of (map_of c ''loadClose'')),
      on ''loadOpenSamples'' positive_int, on ''sampleMs'' positive,
      on ''cpuClosePercent'' percent, on ''cpuOpenPercent'' percent,
      (''cpuOpenPercent'', \<lambda>c. num_of (map_of c ''cpuOpenPercent'') < num_of (map_of c ''cpuClosePercent'')),
      on ''cpuAdmissionPercent'' percent, on ''cpuOpenSamples'' positive_int, on ''admissionCooldownMs'' non_negative,
      on ''memoryCloseBytes'' positive, on ''memoryOpenBytes'' positive,
      (''memoryCloseBytes'', \<lambda>c. num_of (map_of c ''memoryCloseBytes'') < num_of (map_of c ''memoryOpenBytes'')),
      on ''cpuReserveCores'' non_negative, on ''preemptibleNiceMin'' nice_value, on ''preemptibleShare'' (num_that (\<lambda>n. 0 \<le> n \<and> n \<le> 1)),
      on ''memoryReserveBytes'' non_negative, on ''defaultMemoryBytesPerWeight'' positive, on ''schedulerMode'' (one_of [''shadow'', ''active'']),
      on ''settledDemandEnabled'' is_bool, on ''settledDemandSettleMs'' non_negative, on ''settledDemandWindowMs'' positive,
      on ''settledDemandHeadroom'' (num_that (\<lambda>n. n \<ge> 1)), on ''settledDemandFloorFraction'' (num_that (\<lambda>n. 0 \<le> n \<and> n \<le> 1)),
      on ''resultCacheTtlSec'' non_negative_int, on ''knownRedTtlSec'' non_negative_int, on ''historyDemandEnabled'' is_bool,
      on ''maxLaneWeight'' (int_that (\<lambda>n. n \<ge> 1)), on ''rightSizeFromHistory'' is_bool, on ''maxUnapprovedCpuCores'' positive,
      on ''historyDemandRaise'' is_bool, on ''historyDemandMinRuns'' (int_that (\<lambda>n. n \<ge> 1)), on ''conflictSkipLimit'' non_negative_int,
      on ''headBlockGraceMs'' non_negative_int, on ''conflictSafeBackfill'' is_bool, on ''expressMaxMs'' non_negative_int,
      on ''expressPerMinute'' non_negative_int, on ''expressHeadMaxWaitMs'' non_negative_int, on ''queueBypassCap'' non_negative_int,
      on ''queueBypassMaxMs'' non_negative_int, on ''resourceSkipLimit'' non_negative_int, on ''resourceIdleOvershootCores'' non_negative,
      on ''floorOvershootCores'' non_negative, on ''maxRemoteQueue'' non_negative_int, on ''localTreeLockWaitMs'' positive_int,
      on ''remoteRebindIntervalMs'' non_negative_int, on ''localFirstWaitMs'' non_negative_int, on ''remoteRebindMinLocalWaitMs'' non_negative_int,
      on ''runnerLostAfterMs'' non_negative_int, on ''remoteLostPollMs'' non_negative_int,
      on ''runnerVersionFloor'' (\<lambda>v. v = Some JNull \<or> str_that VERSION_FLOOR_RE v),
      on ''localWindow'' (localWindow_ok known), on ''runnerTags'' isValidRequiresShape,
      on ''cpuLimit'' (one_of [''off'', ''prefer'', ''require'']), on ''memoryLimit'' (one_of [''off'', ''measure'', ''enforce'']),
      on ''memoryLimit'' (\<lambda>v. v \<noteq> Some (JStr ''enforce'')), on ''runnerDownAfterMs'' non_negative_int,
      on ''remoteProbeDeadlineMs'' (int_that (\<lambda>n. n > 0 \<and> n \<le> MAX_TIMER_MS)), on ''remoteRebalanceMinQueuedMs'' non_negative_int,
      on ''remoteRebalanceCooldownMs'' non_negative_int, on ''remoteRebalanceMaxMoves'' non_negative_int, on ''remoteRefusedMaxQueuedMs'' non_negative_int,
      on ''remoteRebalanceIntervalMs'' positive_int, on ''remoteSnapshotGzipLevel'' (int_that (\<lambda>n. 1 \<le> n \<and> n \<le> 9))]"

definition host_checks :: "(string \<Rightarrow> bool) \<Rightarrow> (string \<times> (jobj \<Rightarrow> bool)) list" where
  "host_checks known =
     [on ''remoteBlobCache'' is_bool,
      on ''remoteBlobCacheMaxBytes'' positive_int, on ''remoteBlobCacheMaxAgeMs'' positive_int, on ''admissionLoadGate'' is_bool,
      on ''allocationShadow'' is_bool, on ''simArmWindowMs'' positive_int, on ''laneNice'' nice_value, on ''priorityNice'' priorityNice_ok,
      on ''noProgressTimeoutMs'' non_negative_int, on ''silenceTimeoutMs'' non_negative_int, on ''hungAfterMs'' positive_int,
      on ''hungCpuCores'' non_negative, on ''idleCreditBelowFraction'' (num_that (\<lambda>n. 0 < n \<and> n \<le> 1)), on ''idleCreditAfterMs'' positive_int,
      on ''idleCreditMode'' (\<lambda>v. v \<noteq> Some (JStr ''active'')), on ''idleCreditMode'' (one_of [''off'', ''shadow'']),
      on ''localExecution'' (one_of [''allowed'', ''refused'']), on ''remoteQueueTimeoutMs'' (absent_or positive_int),
      on ''remoteResultWaitMs'' (absent_or positive_int), on ''remoteChannelGraceMs'' (absent_or non_negative_int), on ''remoteDepsCache'' is_bool,
      on ''remoteDepsCacheMaxBytes'' positive_int, on ''remoteArtifactMaxFileBytes'' positive_int, on ''remoteArtifactMaxTotalBytes'' positive_int,
      on ''remoteArtifactMaxCount'' positive_int, on ''remoteTicketRetentionMs'' (int_that (\<lambda>n. n \<ge> MIN_RETENTION_MS)),
      on ''logRetentionMs'' (int_that (\<lambda>n. n \<ge> MIN_RETENTION_MS)), on ''remoteGcMaxTicketsPerRun'' positive_int,
      on ''remoteGcMaxExaminedPerRun'' positive_int, on ''logGcMaxFilesPerRun'' positive_int, on ''runners'' (absent_or (validateRunners known))]"

definition global_checks :: "(string \<Rightarrow> bool) \<Rightarrow> (string \<times> (jobj \<Rightarrow> bool)) list" where
  "global_checks known = scheduling_checks known @ host_checks known"

definition first_failed :: "(string \<times> (jobj \<Rightarrow> bool)) list \<Rightarrow> jobj \<Rightarrow> string option" where
  "first_failed checks c = map_option fst (List.find (\<lambda>ck. \<not> snd ck c) checks)"

definition validatePriorityConfig :: "jobj \<Rightarrow> string option" where
  "validatePriorityConfig c = first_failed priority_checks c"

definition validateGlobalConfig :: "(string \<Rightarrow> bool) \<Rightarrow> jobj \<Rightarrow> string option" where
  "validateGlobalConfig known c = (case first_failed (global_checks known) c of Some k \<Rightarrow> Some k | None \<Rightarrow> validatePriorityConfig c)"

text \<open>\<^verbatim>\<open>validateClasses\<close>: in \<^verbatim>\<open>off\<close> mode groups and caps may be missing, otherwise every number is spelled out; unknown keys are refused.\<close>

definition group_ok :: "bool \<Rightarrow> (string \<times> (json option \<Rightarrow> bool)) list \<Rightarrow> json option \<Rightarrow> bool" where
  "group_ok needed allowed v =
     (case v of
        None \<Rightarrow> \<not> needed
      | Some (JObj kvs) \<Rightarrow>
          list_all (\<lambda>k. k \<in> fst ` set allowed) (obj_keys kvs) \<and>
          list_all (\<lambda>(k, P). case map_of kvs k of None \<Rightarrow> \<not> needed | Some x \<Rightarrow> P (Some x)) allowed
      | Some _ \<Rightarrow> False)"

definition validateClasses :: "json option \<Rightarrow> bool" where
  "validateClasses v =
     (case v of
        Some (JObj kvs) \<Rightarrow>
          list_all (\<lambda>k. k \<in> {''mode'', ''test'', ''sim''}) (obj_keys kvs) \<and> one_of [''off'', ''shadow'', ''active''] (map_of kvs ''mode'') \<and>
          (let needed = (map_of kvs ''mode'' \<noteq> Some (JStr ''off''))
           in group_ok needed [(''reserveCores'', non_negative)] (map_of kvs ''test'') \<and>
              group_ok needed [(''capCores'', non_negative), (''maxTickets'', non_negative_int), (''capMemoryBytes'', non_negative)] (map_of kvs ''sim''))
      | _ \<Rightarrow> False)"

section \<open>Loading\<close>

datatype config_file = FileAbsent | FileUnreadable | FileText "json option"

datatype config_error = UnreadableFile | InvalidJson | BadKey string

text \<open>A load gives a configuration, a \<^verbatim>\<open>ConfigError\<close>, or (for a file whose text is \<^verbatim>\<open>null\<close>) the \<^verbatim>\<open>TypeError\<close> of reading a property of null.\<close>

datatype load_result = Loaded jobj | ConfigErr config_error | TypeErr

definition merged :: "json \<Rightarrow> jobj" where
  "merged parsed =
     (let c0 = spread DEFAULT_GLOBAL_CONFIG (own_props parsed);
          c1 = (case field parsed ''priorityWeights'' of
                  Some (JObj w) \<Rightarrow> set_key ''priorityWeights'' (JObj (spread DEFAULT_PRIORITY_WEIGHTS w)) c0
                | _ \<Rightarrow> c0)
      in if field parsed ''priorityAgeMaxMs'' = None \<and> int_that (\<lambda>_. True) (map_of c1 ''priorityAgingMs'')
         then set_key ''priorityAgeMaxMs'' (JNum (2 * num_of (map_of c1 ''priorityAgingMs''))) c1 else c1)"

definition settle_classes :: "jobj \<Rightarrow> jobj" where
  "settle_classes c =
     (if map_of c ''classes'' = None \<or> validateClasses (map_of c ''classes'') then c
      else set_key ''classesInvalid'' (JStr ''classes'') (del_key ''classes'' c))"

definition in_force :: "jobj \<Rightarrow> bool" where
  "in_force c \<longleftrightarrow> map_of c ''classes'' \<noteq> None \<or> map_of c ''classesInvalid'' \<noteq> None"

text \<open>\<^verbatim>\<open>setClassesFence\<close>: the durable marker, written only on change; a write that fails leaves it as it was.\<close>

definition setClassesFence :: "bool \<Rightarrow> bool \<Rightarrow> bool \<Rightarrow> bool" where
  "setClassesFence writeOk inForce fence = (if inForce = fence then fence else if writeOk then inForce else fence)"

definition loadGlobalConfig :: "(string \<Rightarrow> bool) \<Rightarrow> bool \<Rightarrow> config_file \<Rightarrow> bool \<Rightarrow> load_result \<times> bool" where
  "loadGlobalConfig known writeOk file fence =
     (case file of
        FileAbsent \<Rightarrow>
          (Loaded (if fence then set_key ''classesInvalid'' (JStr ''gone'') DEFAULT_GLOBAL_CONFIG else DEFAULT_GLOBAL_CONFIG), fence)
      | FileUnreadable \<Rightarrow> (ConfigErr UnreadableFile, fence)
      | FileText None \<Rightarrow> (ConfigErr InvalidJson, fence)
      | FileText (Some JNull) \<Rightarrow> (TypeErr, fence)
      | FileText (Some parsed) \<Rightarrow>
          (case validateGlobalConfig known (merged parsed) of
             Some k \<Rightarrow> (ConfigErr (BadKey k), fence)
           | None \<Rightarrow> (let c = settle_classes (merged parsed) in (Loaded c, setClassesFence writeOk (in_force c) fence))))"

definition withClassPolicyUnknown :: "bool \<Rightarrow> jobj \<Rightarrow> jobj" where
  "withClassPolicyUnknown fence c = (if in_force c \<or> fence then set_key ''classesInvalid'' (JStr ''unknown'') c else c)"

text \<open>The two callers that must not die; \<open>None\<close> is an exception that escapes \<^verbatim>\<open>loadGlobalConfigOrError\<close>.\<close>

definition loadGlobalConfigOrError :: "(string \<Rightarrow> bool) \<Rightarrow> bool \<Rightarrow> config_file \<Rightarrow> bool \<Rightarrow> (jobj \<times> config_error option) option \<times> bool" where
  "loadGlobalConfigOrError known writeOk file fence =
     (case loadGlobalConfig known writeOk file fence of
        (Loaded c, f) \<Rightarrow> (Some (c, None), f)
      | (ConfigErr e, f) \<Rightarrow> (Some (withClassPolicyUnknown f DEFAULT_GLOBAL_CONFIG, Some e), f)
      | (TypeErr, f) \<Rightarrow> (None, f))"

definition reloadGlobalConfig :: "(string \<Rightarrow> bool) \<Rightarrow> bool \<Rightarrow> config_file \<Rightarrow> jobj option \<Rightarrow> bool \<Rightarrow> jobj \<times> bool" where
  "reloadGlobalConfig known writeOk file previous fence =
     (case loadGlobalConfig known writeOk file fence of
        (Loaded c, f) \<Rightarrow> (c, f)
      | (_, f) \<Rightarrow> (withClassPolicyUnknown f (nullish previous DEFAULT_GLOBAL_CONFIG), f))"

definition isDispatchOnly :: "jobj \<Rightarrow> bool \<Rightarrow> bool \<Rightarrow> bool" where
  "isDispatchOnly c envRefused marker \<longleftrightarrow> map_of c ''localExecution'' = Some (JStr ''refused'') \<or> envRefused \<or> marker"

text \<open>\<^verbatim>\<open>resolvePriority\<close>: the flag, the environment, the lane, then the default; \<open>None\<close> is the refusal of a value that applies and is no tier.\<close>

definition resolvePriority :: "string option \<Rightarrow> string option \<Rightarrow> string option \<Rightarrow> bool \<Rightarrow> string option" where
  "resolvePriority cli env configTier exclusive' =
     (case cli of
        Some v \<Rightarrow> if v \<in> set PRIORITY_TIERS then Some v else None
      | None \<Rightarrow>
         (case env of
            Some v \<Rightarrow> if v \<in> set PRIORITY_TIERS then Some v else None
          | None \<Rightarrow> Some (nullish configTier (if exclusive' then ''high'' else ''medium''))))"

section \<open>The keys the scheduler reads\<close>

definition tier_name :: "tier \<Rightarrow> string" where
  "tier_name t = (case t of Low \<Rightarrow> ''low'' | Medium \<Rightarrow> ''medium'' | High \<Rightarrow> ''high'')"

definition class_mode_of :: "json option \<Rightarrow> class_mode" where
  "class_mode_of v = (if v = Some (JStr ''active'') then ClassesActive else if v = Some (JStr ''shadow'') then ClassesShadow else ClassesOff)"

definition class_block_of :: "json \<Rightarrow> class_block" where
  "class_block_of v =
     (let cap = (\<lambda>g k. opt_num (Option.bind (field v g) (\<lambda>w. field w k)))
      in \<lparr>blockMode = class_mode_of (field v ''mode''), blockReserveCores = cap ''test'' ''reserveCores'', blockCapCores = cap ''sim'' ''capCores'',
          blockMaxTickets = cap ''sim'' ''maxTickets'', blockCapMemoryBytes = cap ''sim'' ''capMemoryBytes''\<rparr>)"

definition cfg_of :: "jobj \<Rightarrow> cfg" where
  "cfg_of c =
     (let n = (\<lambda>k. num_of (map_of c k)); b = (\<lambda>k. bool_of (map_of c k)); w = (\<lambda>k. num_of (Option.bind (map_of c ''priorityWeights'') (\<lambda>v. field v k)))
      in \<lparr>capacity = (case map_of c ''capacity'' of Some (JNum x) \<Rightarrow> FixedCapacity x | _ \<Rightarrow> AutoCapacity),
          schedulerMode = (if map_of c ''schedulerMode'' = Some (JStr ''active'') then Active else Shadow),
          loadClose = n ''loadClose'', loadOpen = n ''loadOpen'', loadOpenSamples = n ''loadOpenSamples'', sampleMs = n ''sampleMs'',
          cpuClosePercent = n ''cpuClosePercent'', cpuOpenPercent = n ''cpuOpenPercent'', cpuOpenSamples = n ''cpuOpenSamples'',
          cpuAdmissionPercent = n ''cpuAdmissionPercent'', cpuReserveCores = n ''cpuReserveCores'', admissionCooldownMs = n ''admissionCooldownMs'',
          admissionLoadGate = b ''admissionLoadGate'', preemptibleNiceMin = n ''preemptibleNiceMin'', preemptibleShare = n ''preemptibleShare'',
          memoryReserveBytes = n ''memoryReserveBytes'', defaultMemoryBytesPerWeight = n ''defaultMemoryBytesPerWeight'',
          settledDemandEnabled = b ''settledDemandEnabled'', settledDemandSettleMs = n ''settledDemandSettleMs'',
          settledDemandWindowMs = n ''settledDemandWindowMs'', settledDemandHeadroom = n ''settledDemandHeadroom'',
          settledDemandFloorFraction = n ''settledDemandFloorFraction'', historyDemandEnabled = b ''historyDemandEnabled'',
          historyDemandRaise = b ''historyDemandRaise'', maxLaneWeight = n ''maxLaneWeight'', conflictSkipLimit = n ''conflictSkipLimit'',
          headBlockGraceMs = n ''headBlockGraceMs'', conflictSafeBackfill = b ''conflictSafeBackfill'', expressMaxMs = n ''expressMaxMs'',
          expressPerMinute = n ''expressPerMinute'', expressHeadMaxWaitMs = n ''expressHeadMaxWaitMs'', queueBypassCap = n ''queueBypassCap'',
          queueBypassMaxMs = n ''queueBypassMaxMs'', resourceSkipLimit = n ''resourceSkipLimit'', resourceIdleOvershootCores = n ''resourceIdleOvershootCores'',
          floorOvershootCores = n ''floorOvershootCores'', laneNice = n ''laneNice'',
          priorityNice = (\<lambda>t. opt_num (Option.bind (map_of c ''priorityNice'') (\<lambda>v. field v (tier_name t)))),
          priorityAgeMaxMs = n ''priorityAgeMaxMs'', priorityWeights = \<lparr>w_tier = w ''tier'', w_age = w ''age''\<rparr>,
          maxQueuedHighPerRepo = n ''maxQueuedHighPerRepo'', idleCreditBelowFraction = n ''idleCreditBelowFraction'',
          idleCreditAfterMs = n ''idleCreditAfterMs'', simArmWindowMs = n ''simArmWindowMs'',
          classesInvalid = (map_of c ''classesInvalid'' \<noteq> None), classesBlock = map_option class_block_of (map_of c ''classes'')\<rparr>)"

section \<open>Lemmas\<close>

lemma default_table:
  "list_all (\<lambda>(k, v). map_of DEFAULT_GLOBAL_CONFIG k = Some v)
      [(''loadClose'', JNum 15), (''loadOpen'', JNum 11), (''loadOpenSamples'', JNum 3), (''sampleMs'', JNum 5000),
       (''cpuClosePercent'', JNum 90), (''cpuOpenPercent'', JNum 70), (''cpuOpenSamples'', JNum 3), (''cpuAdmissionPercent'', JNum 75),
       (''cpuReserveCores'', JNum 1), (''admissionCooldownMs'', JNum 5000), (''admissionLoadGate'', JBool False),
       (''preemptibleNiceMin'', JNum 1), (''preemptibleShare'', JNum (8 / 10)), (''memoryReserveBytes'', JNum 2147483648),
       (''defaultMemoryBytesPerWeight'', JNum 1073741824), (''settledDemandEnabled'', JBool True),
       (''settledDemandSettleMs'', JNum 120000), (''settledDemandWindowMs'', JNum 180000), (''settledDemandHeadroom'', JNum (125 / 100)),
       (''settledDemandFloorFraction'', JNum (1 / 2)), (''historyDemandEnabled'', JBool True), (''historyDemandRaise'', JBool True),
       (''maxLaneWeight'', JNum 4), (''conflictSkipLimit'', JNum 3), (''headBlockGraceMs'', JNum 600000),
       (''conflictSafeBackfill'', JBool True), (''expressMaxMs'', JNum 30000), (''expressPerMinute'', JNum 6),
       (''expressHeadMaxWaitMs'', JNum 900000), (''queueBypassCap'', JNum 0), (''queueBypassMaxMs'', JNum 60000),
       (''resourceSkipLimit'', JNum 3), (''resourceIdleOvershootCores'', JNum 1), (''floorOvershootCores'', JNum 6),
       (''laneNice'', JNum 10), (''priorityAgeMaxMs'', JNum 1200000), (''maxQueuedHighPerRepo'', JNum 1),
       (''idleCreditBelowFraction'', JNum (1 / 10)), (''idleCreditAfterMs'', JNum 600000), (''simArmWindowMs'', JNum 300000),
       (''capacity'', JStr ''auto''), (''schedulerMode'', JStr ''active''), (''priorityNice'', JObj [(''high'', JNum 5)]),
       (''priorityWeights'', JObj DEFAULT_PRIORITY_WEIGHTS)]"
  "map_of DEFAULT_GLOBAL_CONFIG ''classes'' = None" "map_of DEFAULT_GLOBAL_CONFIG ''classesInvalid'' = None"
  by code_simp+

lemmas default_lookup = default_table(1)[unfolded list.pred_inject prod.case] default_table(2-)

lemma cfg_of_default: "cfg_of DEFAULT_GLOBAL_CONFIG = default_cfg"
proof -
  have "(\<lambda>t. opt_num (field (JObj [(''high'', JNum 5)]) (tier_name t))) = (\<lambda>t. if t = High then Some 5 else None)"
    by (rule ext) (auto simp: opt_num_def field_def tier_name_def split: tier.splits)
  then show ?thesis
    by (simp add: cfg_of_def default_cfg_def default_lookup DEFAULT_PRIORITY_WEIGHTS_def num_of_def bool_of_def Let_def) (simp add: field_def)
qed

lemma first_failed_None: "first_failed checks c = None \<longleftrightarrow> list_all (\<lambda>ck. snd ck c) checks"
  by (induction checks) (auto simp: first_failed_def)

lemma is_integer_numerals [simp]: "is_integer 0" "is_integer 1" "is_integer (numeral n)"
  by (simp_all add: is_integer_def)


lemma map_of_set_key [simp]: "map_of (set_key k v c) j = (if j = k then Some v else map_of c j)"
  by (simp add: set_key_def update_conv')

lemma map_of_del_key [simp]: "map_of (del_key k c) j = (if j = k then None else map_of c j)"
  by (simp add: del_key_def delete_conv')

text \<open>What the scheduler's theorems assume of a configuration.\<close>

definition valid_cfg :: "cfg \<Rightarrow> bool" where
  "valid_cfg c \<longleftrightarrow> valid_budget_cfg c \<and> valid_gate_cfg c \<and> valid_priority_cfg c \<and> valid_share_cfg c"

text \<open>The fields \<open>valid_cfg\<close> reads do not depend on the class policy.\<close>

definition class_free :: "cfg \<Rightarrow> cfg" where
  "class_free c = c\<lparr>classesInvalid := False, classesBlock := None\<rparr>"

lemma valid_cfg_class_free: "valid_cfg (class_free c) = valid_cfg c"
  by (simp add: valid_cfg_def class_free_def valid_budget_cfg_def valid_gate_cfg_def valid_priority_cfg_def valid_share_cfg_def)

lemma class_free_cong: "(\<And>k. k \<noteq> ''classes'' \<Longrightarrow> k \<noteq> ''classesInvalid'' \<Longrightarrow> map_of a k = map_of b k) \<Longrightarrow> class_free (cfg_of a) = class_free (cfg_of b)"
  by (simp add: class_free_def cfg_of_def)

lemma valid_cfg_cong:
  assumes "\<And>k. k \<noteq> ''classes'' \<Longrightarrow> k \<noteq> ''classesInvalid'' \<Longrightarrow> map_of a k = map_of b k"
  shows "valid_cfg (cfg_of a) = valid_cfg (cfg_of b)"
  using class_free_cong[OF assms] by (metis valid_cfg_class_free)

lemma valid_cfg_default: "valid_cfg (cfg_of DEFAULT_GLOBAL_CONFIG)"
  by (simp add: cfg_of_default valid_cfg_def valid_budget_default valid_gate_default valid_priority_default) (simp add: valid_share_cfg_def default_cfg_def)

lemma valid_cfg_invalid_key: "valid_cfg (cfg_of (set_key ''classesInvalid'' v c)) = valid_cfg (cfg_of c)"
  by (rule valid_cfg_cong) simp

lemma valid_cfg_settled: "valid_cfg (cfg_of (settle_classes c)) = valid_cfg (cfg_of c)"
  by (rule valid_cfg_cong) (simp add: settle_classes_def)

lemma check_passed: "list_all (\<lambda>ck. snd ck c) checks \<Longrightarrow> (k, P) \<in> set checks \<Longrightarrow> P c"
  by (auto simp: list_all_iff)

lemma positive_capacity:
  "v = Some (JStr ''auto'') \<or> positive v \<Longrightarrow>
   (case (case v of Some (JNum x) \<Rightarrow> FixedCapacity x | _ \<Rightarrow> AutoCapacity) of FixedCapacity n \<Rightarrow> 0 < n | AutoCapacity \<Rightarrow> True)"
  by (auto simp: num_that_def split: json.splits option.splits)

lemma int_pos_ge1: "is_integer n \<Longrightarrow> 0 < n \<Longrightarrow> 1 \<le> (n :: jsnum)"
  by (auto simp: is_integer_def elim!: Ints_cases)

end
