(* ===== verification/Config_Safety.thy ===== *)
theory Config_Safety
  imports Config
begin

text \<open>
  What the configuration loader guarantees to the processes that poll it: every configuration the supervisor's polling loop can ever run with
  satisfies the conditions the scheduling theorems assume, and a class policy once in force is never lost by a file that cannot be read.
\<close>

section \<open>The polling loop\<close>

text \<open>
  A process starts without a configuration and calls \<^verbatim>\<open>reloadGlobalConfig\<close> again and again; the file it finds, and whether the marker file can be
  written, differ from call to call. \<open>Some c\<close> is the configuration in use.
\<close>

inductive polled :: "(string \<Rightarrow> bool) \<Rightarrow> jobj option \<Rightarrow> bool \<Rightarrow> bool" for known where
  boot: "polled known None fence"
| poll: "polled known previous fence \<Longrightarrow> reloadGlobalConfig known writeOk doc previous fence = (c, fence') \<Longrightarrow> polled known (Some c) fence'"

inductive_cases polled_SomeE: "polled known (Some c) fence"

section \<open>Validation gives a valid configuration\<close>

lemma validated_passes:
  assumes "validateGlobalConfig known c = None"
  shows "(k, P) \<in> set (global_checks known) \<Longrightarrow> P c" and "(k, P) \<in> set priority_checks \<Longrightarrow> P c"
  using assms check_passed
  by (fastforce simp: validateGlobalConfig_def validatePriorityConfig_def first_failed_None split: option.splits)+

lemma on_checked: "validateGlobalConfig known c = None \<Longrightarrow> on k P \<in> set (global_checks known) \<union> set priority_checks \<Longrightarrow> P (map_of c k)"
  using validated_passes[of known c k "\<lambda>c. P (map_of c k)"] by (auto simp: on_def)

lemmas checks_def = global_checks_def scheduling_checks_def host_checks_def

lemma validated_budget:
  assumes v: "validateGlobalConfig known c = None"
  shows "valid_budget_cfg (cfg_of c)"
proof -
  have "percent (map_of c ''cpuAdmissionPercent'')" "non_negative (map_of c ''cpuReserveCores'')" "non_negative (map_of c ''memoryReserveBytes'')"
    "positive (map_of c ''defaultMemoryBytesPerWeight'')"
    by (rule on_checked[OF v], simp add: checks_def)+
  note nums = this[THEN num_that_num_of]
  have w: "int_that (\<lambda>n. n \<ge> 1) (map_of c ''maxLaneWeight'')"
    by (rule on_checked[OF v], simp add: checks_def)
  have "map_of c ''capacity'' = Some (JStr ''auto'') \<or> positive (map_of c ''capacity'')"
    by (rule on_checked[OF v, of _ "\<lambda>v. v = Some (JStr ''auto'') \<or> positive v"]) (simp add: checks_def)
  then show ?thesis
    using nums int_that_num_of[OF w] by (simp add: valid_budget_cfg_def cfg_of_def Let_def positive_capacity)
qed

lemma validated_gate:
  assumes v: "validateGlobalConfig known c = None"
  shows "valid_gate_cfg (cfg_of c)"
proof -
  have "positive_int (map_of c ''loadOpenSamples'')" "positive_int (map_of c ''cpuOpenSamples'')"
    by (rule on_checked[OF v], simp add: checks_def)+
  note nums = this[THEN int_that_num_of]
  have "num_of (map_of c ''loadOpen'') < num_of (map_of c ''loadClose'')"
    by (rule validated_passes(1)[OF v, where k = "''loadOpen''"]) (simp add: checks_def)
  moreover have "num_of (map_of c ''cpuOpenPercent'') < num_of (map_of c ''cpuClosePercent'')"
    by (rule validated_passes(1)[OF v, where k = "''cpuOpenPercent''"]) (simp add: checks_def)
  ultimately show ?thesis
    using nums by (simp add: valid_gate_cfg_def cfg_of_def Let_def int_pos_ge1)
qed

lemma validated_share:
  assumes v: "validateGlobalConfig known c = None"
  shows "valid_share_cfg (cfg_of c)"
proof -
  have "num_that (\<lambda>n. 0 \<le> n \<and> n \<le> 1) (map_of c ''preemptibleShare'')"
    by (rule on_checked[OF v], simp add: checks_def)
  from num_that_num_of[OF this] show ?thesis by (simp add: valid_share_cfg_def cfg_of_def Let_def)
qed

lemma validated_priority:
  assumes v: "validateGlobalConfig known c = None"
  shows "valid_priority_cfg (cfg_of c)"
proof -
  let ?w = "\<lambda>k. Option.bind (map_of c ''priorityWeights'') (\<lambda>v. field v k)"
  have "num_that (\<lambda>n. 1 / 100 \<le> n \<and> n \<le> 100) (?w ''tier'')"
    by (rule on_checked[OF v, of _ "\<lambda>v. num_that (\<lambda>n. 1 / 100 \<le> n \<and> n \<le> 100) (Option.bind v (\<lambda>w. field w ''tier''))"]) (simp add: priority_checks_def)
  moreover have "num_that (\<lambda>n. 1 / 100 \<le> n \<and> n \<le> 100) (?w ''age'')"
    by (rule on_checked[OF v, of _ "\<lambda>v. num_that (\<lambda>n. 1 / 100 \<le> n \<and> n \<le> 100) (Option.bind v (\<lambda>w. field w ''age''))"]) (simp add: priority_checks_def)
  moreover have "num_of (?w ''tier'') \<le> num_of (?w ''age'')"
    by (rule on_checked[OF v, of _ "\<lambda>v. num_of (Option.bind v (\<lambda>w. field w ''age'')) \<ge> num_of (Option.bind v (\<lambda>w. field w ''tier''))"]) (simp add: priority_checks_def)
  moreover have "int_that (\<lambda>n. 60000 \<le> n \<and> n \<le> 3600000) (map_of c ''priorityAgingMs'')" "non_negative_int (map_of c ''maxQueuedHighPerRepo'')"
    by (rule on_checked[OF v], simp add: priority_checks_def)+
  note ints = this[THEN int_that_num_of]
  moreover have "int_that (\<lambda>n. num_of (map_of c ''priorityAgingMs'') \<le> n \<and> n \<le> 86400000) (map_of c ''priorityAgeMaxMs'')"
    by (rule validated_passes(2)[OF v, where k = "''priorityAgeMaxMs''"]) (simp add: priority_checks_def)
  note age = int_that_num_of[OF this]
  ultimately show ?thesis
    using ints age by (auto simp: valid_priority_cfg_def cfg_of_def Let_def dest!: num_that_num_of)
qed

lemma validated_valid: "validateGlobalConfig known c = None \<Longrightarrow> valid_cfg (cfg_of c)"
  by (simp add: valid_cfg_def validated_budget validated_gate validated_priority validated_share)

lemma loaded_valid: "loadGlobalConfig known w doc fence = (Loaded c, fence') \<Longrightarrow> valid_cfg (cfg_of c)"
  by (auto simp: loadGlobalConfig_def Let_def valid_cfg_default valid_cfg_invalid_key valid_cfg_settled validated_valid
      split: config_file.splits option.splits json.splits if_splits)

lemma policy_unknown_valid: "valid_cfg (cfg_of (withClassPolicyUnknown f c)) = valid_cfg (cfg_of c)"
  by (simp add: withClassPolicyUnknown_def valid_cfg_invalid_key)

lemma reloaded_valid:
  assumes "reloadGlobalConfig known w doc previous fence = (c, fence')" and "\<And>p. previous = Some p \<Longrightarrow> valid_cfg (cfg_of p)"
  shows "valid_cfg (cfg_of c)"
  using assms loaded_valid
  by (cases previous) (auto simp: reloadGlobalConfig_def policy_unknown_valid valid_cfg_default split: load_result.splits prod.splits)

lemma polled_valid: "polled known previous fence \<Longrightarrow> pred_option (\<lambda>c. valid_cfg (cfg_of c)) previous"
proof (induction rule: polled.induct)
  case (poll previous fence writeOk doc c fence')
  have "valid_cfg (cfg_of c)"
    by (rule reloaded_valid[OF poll.hyps(2)]) (use poll.IH in simp)
  then show ?case by simp
qed simp

text \<open>
  C12. Whatever the configuration file holds at each poll (absent, unreadable, not JSON, any JSON value, valid or not), the configuration the
  polling process runs with satisfies every numeric condition the admission, gate and priority theorems assume: budgets and reserves of the
  right sign, close thresholds above open thresholds, sample counts at least one, weights and aging within their ranges.
\<close>

theorem polled_config_valid:
  assumes "polled known (Some c) fence"
  shows "valid_budget_cfg (cfg_of c) \<and> valid_gate_cfg (cfg_of c) \<and> valid_priority_cfg (cfg_of c) \<and> valid_share_cfg (cfg_of c)"
  using polled_valid[OF assms] by (simp add: valid_cfg_def)

theorem polled_config_valid_witness:
  "polled (\<lambda>_. True) (Some (withClassPolicyUnknown False DEFAULT_GLOBAL_CONFIG)) False \<and>
   valid_budget_cfg (cfg_of (withClassPolicyUnknown False DEFAULT_GLOBAL_CONFIG))"
proof -
  have p: "polled (\<lambda>_. True) (Some (withClassPolicyUnknown False DEFAULT_GLOBAL_CONFIG)) False"
    by (rule polled.poll[OF polled.boot[where fence = False], where doc = FileUnreadable and writeOk = True])
      (simp add: reloadGlobalConfig_def loadGlobalConfig_def nullish_def)
  then show ?thesis using polled_config_valid by blast
qed

section \<open>The class policy fails closed\<close>

text \<open>A file from which no configuration can be read now.\<close>

definition gives_config :: "(string \<Rightarrow> bool) \<Rightarrow> config_file \<Rightarrow> bool" where
  "gives_config known doc =
     (case doc of FileText (Some parsed) \<Rightarrow> parsed \<noteq> JNull \<and> validateGlobalConfig known (merged parsed) = None | _ \<Rightarrow> False)"

lemma failed_load_keeps_fence: "\<not> gives_config known doc \<Longrightarrow> snd (loadGlobalConfig known w doc fence) = fence"
  by (auto simp: gives_config_def loadGlobalConfig_def split: config_file.splits option.splits json.splits)

lemma failed_reload:
  assumes "\<not> gives_config known doc" "fence" "reloadGlobalConfig known w doc previous fence = (c, fence')"
  shows "map_of c ''classesInvalid'' \<noteq> None \<and> fence'"
  using assms
  by (auto simp: reloadGlobalConfig_def gives_config_def loadGlobalConfig_def withClassPolicyUnknown_def split: config_file.splits option.splits json.splits)

text \<open>The polls of a list of files, each with whether the marker could be written.\<close>

fun reloads :: "(string \<Rightarrow> bool) \<Rightarrow> (bool \<times> config_file) list \<Rightarrow> jobj \<Rightarrow> bool \<Rightarrow> jobj \<times> bool" where
  "reloads known [] c fence = (c, fence)"
| "reloads known ((w, doc) # rest) c fence = (case reloadGlobalConfig known w doc (Some c) fence of (c', fence') \<Rightarrow> reloads known rest c' fence')"

lemma failed_reloads:
  assumes "list_all (\<lambda>(w, doc). \<not> gives_config known doc) polls" "fence" "map_of c ''classesInvalid'' \<noteq> None"
  shows "map_of (fst (reloads known polls c fence)) ''classesInvalid'' \<noteq> None \<and> snd (reloads known polls c fence)"
  using assms
proof (induction polls arbitrary: c fence)
  case (Cons p polls)
  obtain w doc where p: "p = (w, doc)" by (cases p)
  obtain c' fence' where r: "reloadGlobalConfig known w doc (Some c) fence = (c', fence')" by fastforce
  have "map_of c' ''classesInvalid'' \<noteq> None \<and> fence'" using failed_reload[OF _ _ r] Cons.prems p by simp
  then show ?case using Cons p r by simp
qed simp

lemma invalid_policy_denies_sims:
  "map_of c ''classesInvalid'' \<noteq> None \<Longrightarrow> classOf t = SimClass \<Longrightarrow>
   \<exists>r. cap_verdict (resolveClasses (cfg_of c)) held h g t = Some r \<and> always_enforced r"
  by (auto simp: cap_verdict_def resolveClasses_def cfg_of_def Let_def always_enforced_def)

lemma load_in_force_fenced: "loadGlobalConfig known True doc fence = (Loaded c, fence') \<Longrightarrow> in_force c \<Longrightarrow> fence'"
  by (auto simp: loadGlobalConfig_def setClassesFence_def Let_def in_force_def default_lookup
      split: config_file.splits option.splits json.splits if_splits)

text \<open>
  C18. Class policy fails closed. Once a load has found a class policy in force (a \<^verbatim>\<open>classes\<close> block, valid or not) and could write its marker, every
  later poll that finds no usable configuration (file gone, unreadable, not JSON, null, or failing validation), however many there are, denies
  every sim-class ticket with a reason that is enforced in every mode, and the marker stays.
\<close>

theorem class_policy_fails_closed:
  assumes "loadGlobalConfig known True doc fence = (Loaded c, fence')" and "in_force c"
    and "polls \<noteq> []" and "list_all (\<lambda>(w, d). \<not> gives_config known d) polls" and "classOf t = SimClass"
  shows "snd (reloads known polls c fence') \<and>
    (\<exists>r. cap_verdict (resolveClasses (cfg_of (fst (reloads known polls c fence')))) held h g t = Some r \<and> always_enforced r)"
proof -
  have f: fence' by (rule load_in_force_fenced[OF assms(1,2)])
  obtain w doc' rest where polls: "polls = (w, doc') # rest" using assms(3) by (cases polls) auto
  obtain c1 f1 where r: "reloadGlobalConfig known w doc' (Some c) fence' = (c1, f1)" by fastforce
  have one: "map_of c1 ''classesInvalid'' \<noteq> None" "f1" using failed_reload[OF _ f r] assms(4) polls by auto
  have "map_of (fst (reloads known polls c fence')) ''classesInvalid'' \<noteq> None \<and> snd (reloads known polls c fence')"
    using failed_reloads[OF _ one(2,1), of known rest] assms(4) polls r by simp
  then show ?thesis using invalid_policy_denies_sims assms(5) by blast
qed

theorem class_policy_fails_closed_witness:
  "snd (reloads (\<lambda>_. True) [(True, FileUnreadable), (False, FileText (Some JNull))] (set_key ''classesInvalid'' (JStr ''gone'') DEFAULT_GLOBAL_CONFIG) True) \<and>
   (\<exists>r. cap_verdict (resolveClasses (cfg_of (fst (reloads (\<lambda>_. True) [(True, FileUnreadable), (False, FileText (Some JNull))]
      (set_key ''classesInvalid'' (JStr ''gone'') DEFAULT_GLOBAL_CONFIG) True)))) [] example_host default_cfg sim_example = Some r \<and> always_enforced r)"
proof (rule class_policy_fails_closed[where doc = FileAbsent and fence = True])
  show "loadGlobalConfig (\<lambda>_. True) True FileAbsent True = (Loaded (set_key ''classesInvalid'' (JStr ''gone'') DEFAULT_GLOBAL_CONFIG), True)"
    by (simp add: loadGlobalConfig_def)
  show "classOf sim_example = SimClass" by (simp add: sim_example_def classOf_def)
qed (simp_all add: in_force_def gives_config_def)

text \<open>
  A configuration file whose text is \<^verbatim>\<open>null\<close> makes \<^verbatim>\<open>loadGlobalConfig\<close> read a property of null: the \<^verbatim>\<open>TypeError\<close> is no \<^verbatim>\<open>ConfigError\<close>, so
  \<^verbatim>\<open>loadGlobalConfigOrError\<close>, documented for callers that must not die on an invalid configuration, throws, while every other text is answered.
\<close>

theorem null_config_escapes:
  "fst (loadGlobalConfigOrError known w doc fence) = None \<longleftrightarrow> doc = FileText (Some JNull)"
  by (auto simp: loadGlobalConfigOrError_def loadGlobalConfig_def Let_def split: config_file.splits option.splits json.splits)

end
