(* ===== verification/Repo_Config.thy ===== *)
theory Repo_Config
  imports Config Exclusive Selectors
begin

text \<open>
  The repository configuration \<^verbatim>\<open>.lane-broker.json\<close> (\<^verbatim>\<open>src/src/config.js\<close>): its validation, how it is completed when it is loaded, the expansion of
  conflict pairs, and \<^verbatim>\<open>resolveTicketConfig\<close>, which turns a lane name into the settings a ticket is submitted with. Which file is read (default branch or
  worktree) and the git identity of the directory are inputs. Messages are not modelled: a refusal is known by the lane and the key.
\<close>

section \<open>Names\<close>

definition sanitizeKey :: "string \<Rightarrow> string" where
  "sanitizeKey raw =
     (let s = map (\<lambda>c. if is_alnum c \<or> c = CHR ''_'' \<or> c = CHR ''.'' \<or> c = CHR ''-'' then c else CHR ''_'') raw in if s = [] then ''_'' else s)"

definition DEFAULT_REPO_LANES :: jobj where
  "DEFAULT_REPO_LANES = [(''default'', JObj [(''weight'', JNum 2)])]"

definition MIN_CPU_GRANT_CORES :: jsnum where "MIN_CPU_GRANT_CORES = 1 / 100"
definition MAX_LANE_CPU_CORES :: jsnum where "MAX_LANE_CPU_CORES = 1024"

definition UNSUPPORTED_HOOK_KEYS :: "string list" where
  "UNSUPPORTED_HOOK_KEYS = [''exclusiveHooks'', ''acquire'', ''release'']"

definition unsupportedHookKeys :: "jobj \<Rightarrow> string list" where
  "unsupportedHookKeys c = filter (\<lambda>k. map_of c k \<noteq> None) UNSUPPORTED_HOOK_KEYS"

section \<open>Validation\<close>

text \<open>Arrays of arrays of strings (\<^verbatim>\<open>remoteSetup\<close>).\<close>

fun argvs_of :: "json list \<Rightarrow> string list list option" where
  "argvs_of [] = Some []"
| "argvs_of (JArr xs # rest) = (case (strings_of xs, argvs_of rest) of (Some ss, Some rs) \<Rightarrow> Some (ss # rs) | _ \<Rightarrow> None)"
| "argvs_of (_ # rest) = None"

definition remoteSetup_ok :: "json option \<Rightarrow> bool" where
  "remoteSetup_ok v = arr_that (\<lambda>xs. case argvs_of xs of Some rs \<Rightarrow> isValidRemoteSetupShape rs | None \<Rightarrow> False) v"

definition str_list :: "json option \<Rightarrow> string list" where
  "str_list v = (case v of Some (JArr xs) \<Rightarrow> nullish (strings_of xs) [] | _ \<Rightarrow> [])"

definition cpu_claim_ok :: "json option \<Rightarrow> bool" where
  "cpu_claim_ok = num_that (\<lambda>n. n > 0 \<and> n \<ge> MIN_CPU_GRANT_CORES \<and> n \<le> MAX_LANE_CPU_CORES)"

text \<open>The checks of one lane, in the order the code makes them.\<close>

definition sizing_checks :: "(string \<times> (jobj \<Rightarrow> bool)) list" where
  "sizing_checks =
     [on ''weight'' positive,
      (''weight'', \<lambda>l. map_of l ''cpuCores'' = None \<longrightarrow> num_of (map_of l ''weight'') \<ge> MIN_CPU_GRANT_CORES),
      on ''cpuCores'' (absent_or cpu_claim_ok),
      on ''maxExecutionCpuCores'' (absent_or positive_int),
      on ''minCpuCores'' (absent_or cpu_claim_ok),
      (''minCpuCores'', \<lambda>l. map_of l ''minCpuCores'' = None \<or>
         num_of (map_of l ''minCpuCores'') \<le> (if map_of l ''cpuCores'' = None then num_of (map_of l ''weight'') else num_of (map_of l ''cpuCores''))),
      on ''memoryBytes'' (absent_or positive), on ''localRefused'' (absent_or is_bool), on ''nice'' (absent_or nice_value),
      on ''noProgressTimeoutMs'' (absent_or non_negative_int), on ''silenceTimeoutMs'' (absent_or non_negative_int),
      on ''class'' (absent_or (one_of [''test'', ''sim''])), on ''priority'' (absent_or isPriorityTier), on ''rightSize'' (absent_or is_bool),
      on ''aging'' (absent_or is_bool), on ''exclusive'' (absent_or is_bool), on ''exclusivePurpose'' (absent_or (one_of [''upgrade'', ''calibration''])),
      on ''exclusiveDeadlineMs'' (absent_or (\<lambda>v. \<not> exclusiveDeadlineProblem (opt_num v))), on ''cache'' (absent_or is_bool),
      (''hooks'', \<lambda>l. unsupportedHookKeys l = []),
      on ''classEnforcement'' (absent_or (\<lambda>v. v = Some (JStr ''required''))), on ''maxConcurrent'' (absent_or (int_that (\<lambda>n. n \<ge> 1)))]"

definition remote_checks :: "(string \<times> (jobj \<Rightarrow> bool)) list" where
  "remote_checks =
     [on ''remote'' (absent_or is_bool), on ''requires'' (absent_or isValidRequiresShape), on ''requiresTags'' (absent_or isValidRequiresShape),
      on ''remoteDeps'' (absent_or (strs_that isValidRemoteDepsShape)), on ''remoteSetup'' (absent_or remoteSetup_ok),
      on ''remoteArtifacts'' (absent_or (strs_that isValidRemoteArtifactsShape)),
      (''remoteExclude'', \<lambda>l. absent_or (strs_that (\<lambda>ps. remoteExcludeShapeProblem ps = None \<and> remoteExcludeConflict ps (str_list (map_of l ''remoteDeps'')) = None))
         (map_of l ''remoteExclude'')),
      on ''remoteArtifactsOn'' (absent_or (one_of [''success'', ''always''])),
      on ''remotePolicy'' (absent_or (one_of [''remote-first'', ''local-first'', ''speed-aware''])),
      on ''localFirstWaitMs'' (absent_or non_negative_int), on ''remoteExclusive'' (\<lambda>v. v = None),
      on ''remoteDepsCache'' (absent_or is_bool), on ''remoteDepsCacheRootScriptsSafe'' (absent_or is_bool),
      on ''remoteOmitEscapingSymlinks'' (absent_or is_bool), on ''prewarm'' (absent_or is_bool),
      on ''remoteDepsCacheKeyFiles'' (absent_or (strs_that isValidDepsKeyFilesShape)),
      (''remoteDepsCacheKeyFiles'', \<lambda>l. map_of l ''remoteDepsCacheKeyFiles'' = None \<or> map_of l ''remoteDepsCacheRootScriptsSafe'' = Some (JBool True)),
      (''remoteDepsCacheKeyFiles'', \<lambda>l. map_of l ''remoteExclude'' = None \<or>
         list_all (\<lambda>f. excludingPattern (str_list (map_of l ''remoteExclude'')) f = None) (str_list (map_of l ''remoteDepsCacheKeyFiles'')))]"

datatype repo_problem = RepoKey string | LaneNotObject string | LaneKey string string | RepoJson

fun lanes_problem :: "jobj \<Rightarrow> repo_problem option" where
  "lanes_problem [] = None"
| "lanes_problem ((name, v) # rest) =
     (if \<not> is_object_or_array (Some v) then Some (LaneNotObject name)
      else case first_failed (sizing_checks @ remote_checks) (case v of JObj kvs \<Rightarrow> kvs | _ \<Rightarrow> []) of
             Some k \<Rightarrow> Some (LaneKey name k)
           | None \<Rightarrow> lanes_problem rest)"

definition undeclared_ok :: "jobj \<Rightarrow> json option \<Rightarrow> bool" where
  "undeclared_ok lanes v =
     (case v of
        None \<Rightarrow> True
      | Some (JStr s) \<Rightarrow> s = ''allow'' \<or> s = ''refuse''
      | Some (JObj kvs) \<Rightarrow>
          obj_keys kvs = [''as''] \<and>
          str_that (\<lambda>t. t \<noteq> [] \<and> map_of lanes t \<noteq> None \<and> Option.bind (map_of lanes t) (\<lambda>l. field l ''localRefused'') \<noteq> Some (JBool True)) (map_of kvs ''as'')
      | Some _ \<Rightarrow> False)"

definition conflicts_ok :: "json option \<Rightarrow> bool" where
  "conflicts_ok = absent_or (arr_that (list_all (\<lambda>p. case p of JArr xs \<Rightarrow> length xs = 2 | _ \<Rightarrow> False)))"

definition lanes_of :: "jobj \<Rightarrow> jobj" where
  "lanes_of c = (case map_of c ''lanes'' of Some (JObj ls) \<Rightarrow> ls | _ \<Rightarrow> [])"

definition validateRepoConfig :: "jobj \<Rightarrow> repo_problem option" where
  "validateRepoConfig c =
     (if \<not> int_that (\<lambda>_. True) (map_of c ''version'') then Some (RepoKey ''version'')
      else if \<not> is_object (map_of c ''lanes'') then Some (RepoKey ''lanes'')
      else if unsupportedHookKeys c \<noteq> [] then Some (RepoKey ''hooks'')
      else if \<not> absent_or isValidRequiresShape (map_of c ''requires'') then Some (RepoKey ''requires'')
      else if \<not> absent_or isValidRequiresShape (map_of c ''requiresTags'') then Some (RepoKey ''requiresTags'')
      else case lanes_problem (lanes_of c) of
             Some p \<Rightarrow> Some p
           | None \<Rightarrow>
               if \<not> conflicts_ok (map_of c ''conflicts'') then Some (RepoKey ''conflicts'')
               else if \<not> undeclared_ok (lanes_of c) (map_of c ''undeclaredLanes'') then Some (RepoKey ''undeclaredLanes'')
               else None)"

section \<open>Loading\<close>

record repo_config =
  repoCfg :: jobj
  fileLanes :: "string list"
  declared :: bool

datatype repo_result = RepoLoaded repo_config | RepoErr repo_problem | RepoTypeErr

definition truthy :: "json \<Rightarrow> bool" where
  "truthy v = (case v of JNull \<Rightarrow> False | JBool b \<Rightarrow> b | JNum n \<Rightarrow> n \<noteq> 0 | JStr s \<Rightarrow> s \<noteq> [] | _ \<Rightarrow> True)"

definition own_names :: "json \<Rightarrow> string list" where
  "own_names v = map fst (own_props v) @ (case v of JArr _ \<Rightarrow> [''length''] | JStr _ \<Rightarrow> [''length''] | _ \<Rightarrow> [])"

text \<open>
  \<^verbatim>\<open>loadRepoConfig\<close> of the source text that applies: \<open>None\<close> when the repository has no file, \<open>Some None\<close> for a text that is not JSON. The built-in
  \<^verbatim>\<open>default\<close> lane is merged under the file's lanes; \<open>fileLanes\<close> are the names the file itself has.
\<close>

definition DEFAULT_REPO_CONFIG :: repo_config where
  "DEFAULT_REPO_CONFIG =
     \<lparr>repoCfg = [(''version'', JNum 1), (''lanes'', JObj DEFAULT_REPO_LANES), (''conflicts'', JArr [])], fileLanes = [''default''], declared = False\<rparr>"

definition loadRepoConfig :: "json option option \<Rightarrow> repo_result" where
  "loadRepoConfig source =
     (case source of
        None \<Rightarrow> RepoLoaded DEFAULT_REPO_CONFIG
      | Some None \<Rightarrow> RepoErr RepoJson
      | Some (Some JNull) \<Rightarrow> RepoTypeErr
      | Some (Some parsed) \<Rightarrow>
          (let lanes = (case field parsed ''lanes'' of Some v \<Rightarrow> if truthy v then v else JObj [] | None \<Rightarrow> JObj []);
               c = set_key ''lanes'' (JObj (spread DEFAULT_REPO_LANES (own_props lanes)))
                     (spread [(''version'', JNum 1), (''conflicts'', JArr []), (''undeclaredLanes'', JStr ''refuse'')] (own_props parsed))
           in case validateRepoConfig c of
                Some p \<Rightarrow> RepoErr p
              | None \<Rightarrow> RepoLoaded \<lparr>repoCfg = c, fileLanes = own_names lanes, declared = True\<rparr>))"

section \<open>Conflicts\<close>

text \<open>
  \<^verbatim>\<open>expandConflicts\<close>: a map from lane names to the set of lanes they conflict with, both in insertion order. A pair may hold any JSON value;
  names are JSON strings.
\<close>

definition adj_add :: "json \<Rightarrow> json \<Rightarrow> (json \<times> json list) list \<Rightarrow> (json \<times> json list) list" where
  "adj_add x y adj = (let ys = nullish (map_of adj x) [] in AList.update x (if y \<in> set ys then ys else ys @ [y]) adj)"

definition adj_link :: "(json \<times> json list) list \<Rightarrow> json \<times> json \<Rightarrow> (json \<times> json list) list" where
  "adj_link adj xy = (case xy of (x, y) \<Rightarrow> if x = y then adj else adj_add y x (adj_add x y adj))"

definition ends_of :: "string list \<Rightarrow> json \<Rightarrow> json list" where
  "ends_of laneNames a = (if a = JStr ''*'' then map JStr laneNames else [a])"

definition expandConflicts :: "(json \<times> json) list \<Rightarrow> string list \<Rightarrow> (json \<times> json list) list" where
  "expandConflicts conflicts' laneNames =
     foldl (\<lambda>adj (a, b). foldl adj_link adj (List.product (ends_of laneNames a) (ends_of laneNames b)))
       (map (\<lambda>n. (JStr n, [])) laneNames) conflicts'"

definition pair_of :: "json \<Rightarrow> (json \<times> json) option" where
  "pair_of v = (case v of JArr [a, b] \<Rightarrow> Some (a, b) | _ \<Rightarrow> None)"

definition conflict_pairs :: "json option \<Rightarrow> (json \<times> json) list" where
  "conflict_pairs v = (case v of Some (JArr ps) \<Rightarrow> List.map_filter pair_of ps | _ \<Rightarrow> [])"

section \<open>Resolving a ticket\<close>

text \<open>The text of \<^verbatim>\<open>String(v)\<close>; how a number is printed is the parameter \<open>num_str\<close>.\<close>

fun js_string :: "(jsnum \<Rightarrow> string) \<Rightarrow> json \<Rightarrow> string" where
  "js_string num_str JNull = ''null''"
| "js_string num_str (JBool b) = (if b then ''true'' else ''false'')"
| "js_string num_str (JNum n) = num_str n"
| "js_string num_str (JStr s) = s"
| "js_string num_str (JArr []) = []"
| "js_string num_str (JArr [x]) = (if x = JNull then [] else js_string num_str x)"
| "js_string num_str (JArr (x # y # ys)) = (if x = JNull then [] else js_string num_str x) @ '','' @ js_string num_str (JArr (y # ys))"
| "js_string num_str (JObj kvs) = ''[object Object]''"

record resolved =
  rRepoId :: string
  rLane :: string
  rConfigLane :: "string option"
  rKey :: string
  rWeight :: jsnum
  rCpuCores :: "jsnum option"
  rMinCpuCores :: "jsnum option"
  rMaxExecutionCpuCores :: "jsnum option"
  rMemoryBytes :: "jsnum option"
  rLocalRefused :: bool
  rNice :: "jsnum option"
  rNoProgressTimeoutMs :: "jsnum option"
  rSilenceTimeoutMs :: "jsnum option"
  rMaxConcurrent :: jsnum
  rClass :: lane_class
  rPriority :: "string option"
  rAging :: bool
  rRightSize :: bool
  rExclusive :: bool
  rExclusivePurpose :: "string option"
  rExclusiveDeadlineMs :: "jsnum option"
  rCache :: bool
  rClassEnforcement :: bool
  rConflicts :: "string list"
  rRemote :: bool
  rRemotePolicy :: string
  rLocalFirstWaitMs :: "jsnum option"
  rRequires :: "string list"
  rRequiresTags :: "string list"
  rPrewarm :: bool
  rRemoteDeps :: "string list option"
  rRemoteSetup :: "string list list option"
  rRemoteDepsCache :: bool
  rRootScriptsSafe :: bool
  rDepsKeyFiles :: "string list option"
  rOmitEscapingSymlinks :: bool
  rRemoteExclude :: "string list option"
  rRemoteArtifacts :: "string list option"
  rArtifactsAlways :: bool

datatype resolve_result = Resolved resolved | UnknownLane string | LaneTypeErr

definition TEMPLATE_KEYS :: "string list" where
  "TEMPLATE_KEYS =
     [''weight'', ''cpuCores'', ''minCpuCores'', ''maxExecutionCpuCores'', ''memoryBytes'', ''nice'', ''noProgressTimeoutMs'', ''silenceTimeoutMs'', ''remote'',
      ''requires'', ''requiresTags'', ''remoteDeps'', ''remoteSetup'', ''remoteDepsCache'', ''remotePolicy'', ''localFirstWaitMs'',
      ''remoteDepsCacheRootScriptsSafe'', ''remoteDepsCacheKeyFiles'', ''remoteOmitEscapingSymlinks'', ''remoteExclude'', ''remoteArtifacts'',
      ''remoteArtifactsOn'', ''class'', ''priority'', ''aging'', ''cache'', ''rightSize'', ''classEnforcement'']"

definition template_name :: "repo_config \<Rightarrow> string option" where
  "template_name rc = (case map_of (repoCfg rc) ''undeclaredLanes'' of Some (JObj kvs) \<Rightarrow> (case map_of kvs ''as'' of Some (JStr t) \<Rightarrow> Some t | _ \<Rightarrow> None) | _ \<Rightarrow> None)"

definition undeclared_allowed :: "repo_config \<Rightarrow> bool" where
  "undeclared_allowed rc \<longleftrightarrow> map_of (repoCfg rc) ''undeclaredLanes'' = Some (JStr ''allow'') \<or> template_name rc \<noteq> None"

definition is_declared_lane :: "repo_config \<Rightarrow> string \<Rightarrow> bool" where
  "is_declared_lane rc laneName \<longleftrightarrow>
     laneName \<in> set (fileLanes rc) \<or>
     map_of (lanes_of (repoCfg rc)) laneName \<noteq> None \<and> (template_name rc = None \<or> template_name rc = Some laneName)"

text \<open>The settings of a lane: its own, those a template lane hands down, or the built-in weight; \<open>None\<close> is reading a property of undefined.\<close>

definition lane_settings :: "repo_config \<Rightarrow> string \<Rightarrow> jobj option" where
  "lane_settings rc laneName =
     (let settings = (\<lambda>n. map_option (\<lambda>v. case v of JObj kvs \<Rightarrow> kvs | _ \<Rightarrow> []) (map_of (lanes_of (repoCfg rc)) n))
      in if is_declared_lane rc laneName then settings laneName
         else case template_name rc of
                Some t \<Rightarrow> map_option (filter (\<lambda>(k, _). k \<in> set TEMPLATE_KEYS)) (settings t)
              | None \<Rightarrow> Some [(''weight'', JNum 2)])"

definition lane_universe :: "repo_config \<Rightarrow> string \<Rightarrow> string list" where
  "lane_universe rc laneName = obj_keys (lanes_of (repoCfg rc)) @ (if is_declared_lane rc laneName then [] else [laneName])"

definition lane_conflicts :: "repo_config \<Rightarrow> string \<Rightarrow> json list" where
  "lane_conflicts rc laneName =
     nullish (map_of (expandConflicts (conflict_pairs (map_of (repoCfg rc) ''conflicts'')) (lane_universe rc laneName)) (JStr laneName)) []"

definition int_of :: "json option \<Rightarrow> jsnum option" where
  "int_of v = (if int_that (\<lambda>_. True) v then opt_num v else None)"

definition strs_opt :: "json option \<Rightarrow> string list option" where
  "strs_opt v = (case v of Some (JArr xs) \<Rightarrow> strings_of xs | _ \<Rightarrow> None)"

definition str_in :: "string list \<Rightarrow> json option \<Rightarrow> string option" where
  "str_in ss v = (case v of Some (JStr s) \<Rightarrow> if s \<in> set ss then Some s else None | _ \<Rightarrow> None)"

definition lane_key :: "string \<Rightarrow> string \<Rightarrow> string" where
  "lane_key rid name = rid @ '':'' @ sanitizeKey name"

definition resolve_lane :: "(jsnum \<Rightarrow> string) \<Rightarrow> repo_config \<Rightarrow> string \<Rightarrow> string \<Rightarrow> jobj \<Rightarrow> resolved" where
  "resolve_lane num_str rc rid laneName l =
     (let v = map_of l; repo = map_of (repoCfg rc)
      in \<lparr>rRepoId = rid, rLane = laneName,
          rConfigLane = (if is_declared_lane rc laneName then None else template_name rc),
          rKey = lane_key rid laneName, rWeight = num_of (v ''weight''),
          rCpuCores = opt_num (v ''cpuCores''), rMinCpuCores = opt_num (v ''minCpuCores''), rMaxExecutionCpuCores = opt_num (v ''maxExecutionCpuCores''),
          rMemoryBytes = opt_num (v ''memoryBytes''), rLocalRefused = (case v ''localRefused'' of Some x \<Rightarrow> truthy x | None \<Rightarrow> False),
          rNice = int_of (v ''nice''), rNoProgressTimeoutMs = int_of (v ''noProgressTimeoutMs''), rSilenceTimeoutMs = int_of (v ''silenceTimeoutMs''),
          rMaxConcurrent = nullish (int_of (v ''maxConcurrent'')) 1, rClass = (if v ''class'' = Some (JStr ''sim'') then SimClass else TestClass),
          rPriority = str_in PRIORITY_TIERS (v ''priority''), rAging = (v ''aging'' \<noteq> Some (JBool False)), rRightSize = (v ''rightSize'' \<noteq> Some (JBool False)),
          rExclusive = (v ''exclusive'' = Some (JBool True)), rExclusivePurpose = str_in [''upgrade'', ''calibration''] (v ''exclusivePurpose''),
          rExclusiveDeadlineMs = int_of (v ''exclusiveDeadlineMs''), rCache = (v ''cache'' \<noteq> Some (JBool False)),
          rClassEnforcement = (v ''classEnforcement'' = Some (JStr ''required'')),
          rConflicts = map (\<lambda>n. lane_key rid (js_string num_str n)) (lane_conflicts rc laneName),
          rRemote = (v ''remote'' = Some (JBool True)), rRemotePolicy = nullish (str_in [''local-first'', ''remote-first''] (v ''remotePolicy'')) ''speed-aware'',
          rLocalFirstWaitMs = int_of (v ''localFirstWaitMs''),
          rRequires = rev (remdups (rev (str_list (repo ''requires'') @ str_list (v ''requires'')))),
          rRequiresTags = rev (remdups (rev (str_list (repo ''requiresTags'') @ str_list (v ''requiresTags'')))),
          rPrewarm = (v ''prewarm'' = Some (JBool True)), rRemoteDeps = strs_opt (v ''remoteDeps''),
          rRemoteSetup = (case v ''remoteSetup'' of Some (JArr xs) \<Rightarrow> argvs_of xs | _ \<Rightarrow> None), rRemoteDepsCache = (v ''remoteDepsCache'' \<noteq> Some (JBool False)),
          rRootScriptsSafe = (v ''remoteDepsCacheRootScriptsSafe'' = Some (JBool True)), rDepsKeyFiles = strs_opt (v ''remoteDepsCacheKeyFiles''),
          rOmitEscapingSymlinks = (v ''remoteOmitEscapingSymlinks'' = Some (JBool True)), rRemoteExclude = strs_opt (v ''remoteExclude''),
          rRemoteArtifacts = strs_opt (v ''remoteArtifacts''), rArtifactsAlways = (v ''remoteArtifactsOn'' = Some (JStr ''always''))\<rparr>)"

text \<open>\<^verbatim>\<open>a || b || c\<close> on strings, where the empty string is false.\<close>

definition non_empty :: "string option \<Rightarrow> string option" where
  "non_empty v = (case v of Some s \<Rightarrow> if s = [] then None else Some s | None \<Rightarrow> None)"

definition repo_id :: "string option \<Rightarrow> string option \<Rightarrow> string option \<Rightarrow> string \<Rightarrow> string" where
  "repo_id override commonDir repo cwd = sanitizeKey (nullish (nullish_opt (non_empty override) (nullish_opt (non_empty commonDir) (non_empty repo))) cwd)"

definition resolveTicketConfig :: "(jsnum \<Rightarrow> string) \<Rightarrow> repo_config \<Rightarrow> string \<Rightarrow> string option \<Rightarrow> resolve_result" where
  "resolveTicketConfig num_str rc rid laneArg =
     (let laneName = nullish (non_empty laneArg) ''default''
      in if declared rc \<and> \<not> is_declared_lane rc laneName \<and> \<not> undeclared_allowed rc then UnknownLane laneName
         else case lane_settings rc laneName of
                None \<Rightarrow> LaneTypeErr
              | Some l \<Rightarrow> Resolved (resolve_lane num_str rc rid laneName l))"

section \<open>Conflicts are what the pairs say\<close>

definition neighbours :: "(json \<times> json list) list \<Rightarrow> json \<Rightarrow> json set" where
  "neighbours adj x = set (nullish (map_of adj x) [])"

lemma neighbours_add: "neighbours (adj_add x y adj) z = neighbours adj z \<union> (if z = x then {y} else {})"
  by (auto simp: neighbours_def adj_add_def Let_def update_conv')

lemma neighbours_link: "w \<in> neighbours (adj_link adj (x, y)) z \<longleftrightarrow> w \<in> neighbours adj z \<or> x \<noteq> y \<and> (z = x \<and> w = y \<or> z = y \<and> w = x)"
  by (auto simp: adj_link_def neighbours_add)

lemma neighbours_links:
  "w \<in> neighbours (foldl adj_link adj ps) z \<longleftrightarrow> w \<in> neighbours adj z \<or> w \<noteq> z \<and> ((z, w) \<in> set ps \<or> (w, z) \<in> set ps)"
proof (induction ps arbitrary: adj)
  case (Cons p ps)
  show ?case
    by (cases p) (simp add: Cons neighbours_link, blast)
qed simp

definition pairs_hit :: "string list \<Rightarrow> json \<Rightarrow> json \<Rightarrow> json \<times> json \<Rightarrow> bool" where
  "pairs_hit ns x y p \<longleftrightarrow> x \<in> set (ends_of ns (fst p)) \<and> y \<in> set (ends_of ns (snd p))"

lemma neighbours_init: "neighbours (map (\<lambda>n. (JStr n, [])) ns) x = {}"
  by (induction ns) (auto simp: neighbours_def)

lemma neighbours_fold:
  "w \<in> neighbours (foldl (\<lambda>adj (a, b). foldl adj_link adj (List.product (ends_of ns a) (ends_of ns b))) adj cs) z \<longleftrightarrow>
   w \<in> neighbours adj z \<or> w \<noteq> z \<and> (\<exists>p \<in> set cs. pairs_hit ns z w p \<or> pairs_hit ns w z p)"
proof (induction cs arbitrary: adj)
  case (Cons c cs)
  obtain a b where c: "c = (a, b)" by (cases c)
  have step: "w \<in> neighbours (foldl adj_link adj (List.product (ends_of ns a) (ends_of ns b))) z \<longleftrightarrow>
      w \<in> neighbours adj z \<or> w \<noteq> z \<and> (pairs_hit ns z w c \<or> pairs_hit ns w z c)"
    by (simp add: neighbours_links pairs_hit_def c)
  have "w \<in> neighbours (foldl (\<lambda>adj (a, b). foldl adj_link adj (List.product (ends_of ns a) (ends_of ns b))) adj (c # cs)) z \<longleftrightarrow>
      w \<in> neighbours (foldl adj_link adj (List.product (ends_of ns a) (ends_of ns b))) z \<or> w \<noteq> z \<and> (\<exists>p \<in> set cs. pairs_hit ns z w p \<or> pairs_hit ns w z p)"
    using Cons.IH by (simp add: c)
  then show ?case unfolding step by (simp only: list.set bex_simps insert_iff) blast
qed simp

lemma expandConflicts_iff:
  "w \<in> neighbours (expandConflicts cs ns) z \<longleftrightarrow> w \<noteq> z \<and> (\<exists>p \<in> set cs. pairs_hit ns z w p \<or> pairs_hit ns w z p)"
  by (simp add: expandConflicts_def neighbours_fold neighbours_init)

lemma lane_conflicts_neighbours:
  "set (lane_conflicts rc x) = neighbours (expandConflicts (conflict_pairs (map_of (repoCfg rc) ''conflicts'')) (lane_universe rc x)) (JStr x)"
  by (simp add: lane_conflicts_def neighbours_def)

lemma declared_universe: "is_declared_lane rc x \<Longrightarrow> lane_universe rc x = obj_keys (lanes_of (repoCfg rc))"
  by (simp add: lane_universe_def)

lemma declared_conflicts_symmetric:
  "is_declared_lane rc x \<Longrightarrow> is_declared_lane rc y \<Longrightarrow> JStr y \<in> set (lane_conflicts rc x) \<longleftrightarrow> JStr x \<in> set (lane_conflicts rc y)"
  by (auto simp: lane_conflicts_neighbours expandConflicts_iff declared_universe)

lemma blockedBy_conflict: "(i, k) \<in> set hs \<Longrightarrow> k \<noteq> key t \<Longrightarrow> k \<in> set (conflicts t) \<Longrightarrow> blockedBy hs t \<noteq> None"
  by (auto simp: blockedBy_def find_None_iff split: option.splits)

lemma resolved_name:
  assumes "resolveTicketConfig num_str rc rid (Some x) = Resolved r" and "x \<noteq> []"
  obtains l where "lane_settings rc x = Some l" and "r = resolve_lane num_str rc rid x l"
  using assms by (auto simp: resolveTicketConfig_def non_empty_def Let_def split: if_splits option.splits)

lemma resolve_lane_conflicts:
  "rConflicts (resolve_lane num_str rc rid x l) = map (\<lambda>n. lane_key rid (js_string num_str n)) (lane_conflicts rc x)"
  "rKey (resolve_lane num_str rc rid x l) = lane_key rid x"
  by (simp_all add: resolve_lane_def Let_def)


section \<open>What a resolved lane satisfies\<close>

definition lane_ok :: "jobj \<Rightarrow> bool" where
  "lane_ok l \<longleftrightarrow> list_all (\<lambda>ck. snd ck l) (sizing_checks @ remote_checks)"

lemma lanes_problem_None: "lanes_problem ls = None \<Longrightarrow> (n, v) \<in> set ls \<Longrightarrow> lane_ok (case v of JObj kvs \<Rightarrow> kvs | _ \<Rightarrow> [])"
  by (induction ls rule: lanes_problem.induct) (auto simp: lane_ok_def first_failed_None split: if_splits option.splits)

lemma validated_lane_ok:
  "validateRepoConfig c = None \<Longrightarrow> map_of (lanes_of c) n = Some v \<Longrightarrow> lane_ok (case v of JObj kvs \<Rightarrow> kvs | _ \<Rightarrow> [])"
  by (auto simp: validateRepoConfig_def dest!: map_of_SomeD intro!: lanes_problem_None split: if_splits option.splits)

lemma default_lane_ok: "lane_ok [(''weight'', JNum 2)]"
  by code_simp

lemma loaded_lane_ok:
  assumes "loadRepoConfig source = RepoLoaded rc" and "map_of (lanes_of (repoCfg rc)) n = Some v"
  shows "lane_ok (case v of JObj kvs \<Rightarrow> kvs | _ \<Rightarrow> [])"
proof (cases source)
  case None
  then have "v = JObj [(''weight'', JNum 2)]"
    using assms by (auto simp: loadRepoConfig_def DEFAULT_REPO_CONFIG_def lanes_of_def DEFAULT_REPO_LANES_def split: if_splits)
  then show ?thesis by (simp add: default_lane_ok)
next
  case (Some t)
  then have "validateRepoConfig (repoCfg rc) = None"
    using assms(1) by (auto simp: loadRepoConfig_def Let_def split: option.splits json.splits)
  then show ?thesis using validated_lane_ok assms(2) by blast
qed

lemma map_of_filter_keys: "map_of (filter (\<lambda>(k, _). k \<in> K) l) k = (if k \<in> K then map_of l k else None)"
  by (induction l) auto

text \<open>A lane's settings agree with those of a validated lane on every key a template hands down, and an undeclared lane has no other key.\<close>

lemma settings_from_valid_lane:
  assumes "loadRepoConfig source = RepoLoaded rc" and "lane_settings rc n = Some l"
  shows "\<exists>b. lane_ok b \<and> (\<forall>k \<in> set TEMPLATE_KEYS. map_of l k = map_of b k) \<and> (is_declared_lane rc n \<longrightarrow> l = b) \<and>
    (\<forall>k. \<not> is_declared_lane rc n \<and> k \<notin> set TEMPLATE_KEYS \<longrightarrow> map_of l k = None)"
proof (cases "is_declared_lane rc n")
  case True
  then show ?thesis using assms loaded_lane_ok[OF assms(1)] by (auto simp: lane_settings_def)
next
  case False
  show ?thesis
  proof (cases "template_name rc")
    case None
    then have "l = [(''weight'', JNum 2)]" using False assms(2) by (simp add: lane_settings_def)
    moreover have "''weight'' \<in> set TEMPLATE_KEYS" by (simp add: TEMPLATE_KEYS_def)
    ultimately show ?thesis using False default_lane_ok by (intro exI[of _ l]) auto
  next
    case (Some t)
    then obtain b where b: "lane_ok b" and l: "l = filter (\<lambda>(k, _). k \<in> set TEMPLATE_KEYS) b"
      using False assms(2) loaded_lane_ok[OF assms(1), of t] by (auto simp: lane_settings_def)
    show ?thesis using b False by (intro exI[of _ b]) (simp add: l map_of_filter_keys)
  qed
qed

lemma lane_ok_on: "lane_ok l \<Longrightarrow> on k P \<in> set (sizing_checks @ remote_checks) \<Longrightarrow> P (map_of l k)"
  using check_passed[of l "sizing_checks @ remote_checks" k "\<lambda>c. P (map_of c k)"] by (simp add: lane_ok_def on_def)

lemma lane_ok_weight: "lane_ok l \<Longrightarrow> 0 < num_of (map_of l ''weight'')"
  using lane_ok_on[of l "''weight''" positive] num_that_num_of by (auto simp: sizing_checks_def)

lemma lane_ok_weight_min:
  assumes "lane_ok l" and "map_of l ''cpuCores'' = None"
  shows "MIN_CPU_GRANT_CORES \<le> num_of (map_of l ''weight'')"
proof -
  have "map_of l ''cpuCores'' = None \<longrightarrow> num_of (map_of l ''weight'') \<ge> MIN_CPU_GRANT_CORES"
    by (rule check_passed[OF assms(1)[unfolded lane_ok_def], where k = "''weight''"]) (simp add: sizing_checks_def)
  then show ?thesis using assms(2) by blast
qed

lemma absent_or_opt_num: "absent_or (num_that P) v \<Longrightarrow> opt_num v = Some n \<Longrightarrow> P n"
  by (auto simp: absent_or_def num_that_def opt_num_def split: option.splits json.splits)

lemma lane_ok_cpu: "lane_ok l \<Longrightarrow> opt_num (map_of l ''cpuCores'') = Some n \<Longrightarrow> MIN_CPU_GRANT_CORES \<le> n \<and> n \<le> MAX_LANE_CPU_CORES"
  using lane_ok_on[of l "''cpuCores''" "absent_or cpu_claim_ok"]
    absent_or_opt_num[of "\<lambda>n. n > 0 \<and> n \<ge> MIN_CPU_GRANT_CORES \<and> n \<le> MAX_LANE_CPU_CORES" "map_of l ''cpuCores''" n]
  by (simp add: sizing_checks_def cpu_claim_ok_def)

lemma lane_ok_cpu_number: "lane_ok l \<Longrightarrow> opt_num (map_of l ''cpuCores'') = None \<longleftrightarrow> map_of l ''cpuCores'' = None"
  using lane_ok_on[of l "''cpuCores''" "absent_or cpu_claim_ok"]
  by (auto simp: sizing_checks_def cpu_claim_ok_def absent_or_def num_that_def opt_num_def split: option.splits json.splits)

lemma lane_ok_min:
  assumes l: "lane_ok l" and m: "opt_num (map_of l ''minCpuCores'') = Some m"
  shows "MIN_CPU_GRANT_CORES \<le> m \<and> m \<le> nullish (opt_num (map_of l ''cpuCores'')) (num_of (map_of l ''weight''))"
proof -
  have "map_of l ''minCpuCores'' = None \<or>
      num_of (map_of l ''minCpuCores'') \<le> (if map_of l ''cpuCores'' = None then num_of (map_of l ''weight'') else num_of (map_of l ''cpuCores''))"
    by (rule check_passed[OF l[unfolded lane_ok_def], where k = "''minCpuCores''"]) (simp add: sizing_checks_def)
  moreover have mm: "map_of l ''minCpuCores'' = Some (JNum m)" using m by (auto simp: opt_num_def split: option.splits json.splits)
  moreover have "MIN_CPU_GRANT_CORES \<le> m"
    using lane_ok_on[OF l, of "''minCpuCores''" "absent_or cpu_claim_ok"] mm by (simp add: sizing_checks_def absent_or_def cpu_claim_ok_def num_that_def)
  moreover have "map_of l ''cpuCores'' \<noteq> None \<Longrightarrow> opt_num (map_of l ''cpuCores'') = Some (num_of (map_of l ''cpuCores''))"
    using lane_ok_cpu_number[OF l] by (auto simp: opt_num_def num_of_def split: option.splits json.splits)
  moreover have "map_of l ''cpuCores'' = None \<Longrightarrow> opt_num (map_of l ''cpuCores'') = None" using lane_ok_cpu_number[OF l] by simp
  ultimately show ?thesis by (auto simp: num_of_def split: if_splits)
qed

lemma lane_ok_concurrent: "lane_ok l \<Longrightarrow> is_integer (nullish (int_of (map_of l ''maxConcurrent'')) 1) \<and> 1 \<le> nullish (int_of (map_of l ''maxConcurrent'')) 1"
  using lane_ok_on[of l "''maxConcurrent''" "absent_or (int_that (\<lambda>n. n \<ge> 1))"]
  by (auto simp: sizing_checks_def absent_or_def int_of_def int_that_def num_that_def opt_num_def split: option.splits json.splits)

lemma lane_ok_nice: "lane_ok l \<Longrightarrow> int_of (map_of l ''nice'') = Some n \<Longrightarrow> 0 \<le> n \<and> n \<le> 19"
  using lane_ok_on[of l "''nice''" "absent_or nice_value"]
  by (auto simp: sizing_checks_def absent_or_def int_of_def int_that_def num_that_def opt_num_def split: option.splits json.splits if_splits)

lemma no_conflict_keeps_config: "remoteExcludeConflict ps deps = None \<Longrightarrow> excludingPattern ps ''.lane-broker.json'' = None"
  by (auto simp: remoteExcludeConflict_def required_files_def split: option.splits if_splits)

lemma lane_ok_exclude:
  assumes l: "lane_ok l" and ps: "strs_opt (map_of l ''remoteExclude'') = Some ps"
  shows "excludingPattern ps ''.lane-broker.json'' = None"
proof -
  have "absent_or (strs_that (\<lambda>ps. remoteExcludeShapeProblem ps = None \<and> remoteExcludeConflict ps (str_list (map_of l ''remoteDeps'')) = None)) (map_of l ''remoteExclude'')"
    by (rule check_passed[OF l[unfolded lane_ok_def], where k = "''remoteExclude''"]) (simp add: remote_checks_def)
  then show ?thesis
    using ps no_conflict_keeps_config by (auto simp: absent_or_def strs_that_def arr_that_def strs_opt_def split: option.splits json.splits)
qed

text \<open>
  C26. A resolved ticket is well formed. Whatever the file of a repository holds, if it loads and a lane resolves, then the weight is positive and expressible,
  declared cores lie between the smallest grant and the largest claim, the elastic floor is at most the claim, at least one holder is allowed, the
  niceness is in range, and the snapshot exclusions keep the lane configuration itself. A lane that is not declared is never exclusive, never refused
  locally, and runs one at a time.
\<close>

theorem resolved_ticket_well_formed:
  assumes "loadRepoConfig source = RepoLoaded rc" and "resolveTicketConfig num_str rc rid (Some n) = Resolved r" and "n \<noteq> []"
  shows "0 < rWeight r \<and> (rCpuCores r = None \<longrightarrow> MIN_CPU_GRANT_CORES \<le> rWeight r) \<and>
    pred_option (\<lambda>c. MIN_CPU_GRANT_CORES \<le> c \<and> c \<le> MAX_LANE_CPU_CORES) (rCpuCores r) \<and>
    pred_option (\<lambda>m. MIN_CPU_GRANT_CORES \<le> m \<and> m \<le> nullish (rCpuCores r) (rWeight r)) (rMinCpuCores r) \<and>
    is_integer (rMaxConcurrent r) \<and> 1 \<le> rMaxConcurrent r \<and> pred_option (\<lambda>k. 0 \<le> k \<and> k \<le> 19) (rNice r) \<and>
    pred_option (\<lambda>ps. excludingPattern ps ''.lane-broker.json'' = None) (rRemoteExclude r) \<and>
    (\<not> is_declared_lane rc n \<longrightarrow> \<not> rExclusive r \<and> \<not> rLocalRefused r \<and> rMaxConcurrent r = 1)"
proof -
  obtain l where l: "lane_settings rc n = Some l" and r: "r = resolve_lane num_str rc rid n l" using resolved_name[OF assms(2,3)] .
  obtain b where b: "lane_ok b" and keys: "\<And>k. k \<in> set TEMPLATE_KEYS \<Longrightarrow> map_of l k = map_of b k"
    and own: "is_declared_lane rc n \<Longrightarrow> l = b" and none: "\<And>k. \<not> is_declared_lane rc n \<Longrightarrow> k \<notin> set TEMPLATE_KEYS \<Longrightarrow> map_of l k = None"
    using settings_from_valid_lane[OF assms(1) l] by metis
  have eqs: "map_of l ''weight'' = map_of b ''weight''" "map_of l ''cpuCores'' = map_of b ''cpuCores''" "map_of l ''minCpuCores'' = map_of b ''minCpuCores''"
    "map_of l ''nice'' = map_of b ''nice''" "map_of l ''remoteExclude'' = map_of b ''remoteExclude''"
    by (rule keys, simp add: TEMPLATE_KEYS_def)+
  have outside: "\<not> is_declared_lane rc n \<Longrightarrow> map_of l ''exclusive'' = None" "\<not> is_declared_lane rc n \<Longrightarrow> map_of l ''localRefused'' = None"
    "\<not> is_declared_lane rc n \<Longrightarrow> map_of l ''maxConcurrent'' = None"
    by (rule none, assumption, simp add: TEMPLATE_KEYS_def)+
  have one: "int_of None = None" by (simp add: int_of_def int_that_def num_that_def)
  have mc: "is_integer (nullish (int_of (map_of l ''maxConcurrent'')) 1) \<and> 1 \<le> nullish (int_of (map_of l ''maxConcurrent'')) 1"
    using lane_ok_concurrent[OF b] own outside(3) one by (cases "is_declared_lane rc n") auto
  show ?thesis
    using lane_ok_weight[OF b] lane_ok_weight_min[OF b] lane_ok_cpu[OF b] lane_ok_cpu_number[OF b] lane_ok_min[OF b] lane_ok_nice[OF b] lane_ok_exclude[OF b] mc outside one
    by (simp add: r resolve_lane_def Let_def eqs option.pred_set)
qed

text \<open>The configuration of the examples: one declared sim lane in conflict with every lane, and lanes that are not declared inherit from it.\<close>

definition example_repo_text :: json where
  "example_repo_text =
     JObj [(''lanes'', JObj [(''sim'', JObj [(''weight'', JNum 2), (''class'', JStr ''sim''), (''cpuCores'', JNum 3), (''maxConcurrent'', JNum 2)]),
                             (''unit'', JObj [(''weight'', JNum 1)])]),
           (''conflicts'', JArr [JArr [JStr ''sim'', JStr ''*'']]), (''undeclaredLanes'', JStr ''allow'')]"

definition example_repo :: repo_config where
  "example_repo = (case loadRepoConfig (Some (Some example_repo_text)) of RepoLoaded rc \<Rightarrow> rc | _ \<Rightarrow> DEFAULT_REPO_CONFIG)"

definition example_resolved :: "string \<Rightarrow> resolved" where
  "example_resolved n = resolve_lane (\<lambda>_. []) example_repo ''r'' n (nullish (lane_settings example_repo n) [])"

lemma example_repo_loaded: "loadRepoConfig (Some (Some example_repo_text)) = RepoLoaded example_repo"
proof -
  have "case loadRepoConfig (Some (Some example_repo_text)) of RepoLoaded rc \<Rightarrow> True | _ \<Rightarrow> False" by code_simp
  then show ?thesis by (auto simp: example_repo_def split: repo_result.splits)
qed

lemma example_repo_eq: "repoCfg example_repo = 
     [(''version'', JNum 1), (''conflicts'', JArr [JArr [JStr ''sim'', JStr ''*'']]), (''undeclaredLanes'', JStr ''allow''),
      (''lanes'', JObj [(''default'', JObj [(''weight'', JNum 2)]), 
         (''sim'', JObj [(''weight'', JNum 2), (''class'', JStr ''sim''), (''cpuCores'', JNum 3), (''maxConcurrent'', JNum 2)]), (''unit'', JObj [(''weight'', JNum 1)])])]"
  "fileLanes example_repo = [''sim'', ''unit'']" "declared example_repo"
  by code_simp+

lemma example_lanes:
  "is_declared_lane example_repo ''sim''" "is_declared_lane example_repo ''unit''" "\<not> is_declared_lane example_repo ''adhoc''"
  "lane_conflicts example_repo ''sim'' = [JStr ''default'', JStr ''unit'']" "lane_conflicts example_repo ''unit'' = [JStr ''sim'']"
  "lane_conflicts example_repo ''adhoc'' = [JStr ''sim'']"
  by code_simp+

lemma example_resolves:
  "resolveTicketConfig (\<lambda>_. []) example_repo ''r'' (Some ''sim'') = Resolved (example_resolved ''sim'')"
  "resolveTicketConfig (\<lambda>_. []) example_repo ''r'' (Some ''unit'') = Resolved (example_resolved ''unit'')"
  "resolveTicketConfig (\<lambda>_. []) example_repo ''r'' (Some ''adhoc'') = Resolved (example_resolved ''adhoc'')"
  by (simp_all add: resolveTicketConfig_def example_resolved_def non_empty_def Let_def undeclared_allowed_def lane_settings_def example_lanes
      is_declared_lane_def template_name_def lanes_of_def example_repo_eq)

lemma example_keys:
  "rKey (example_resolved ''sim'') = ''r:sim''" "rKey (example_resolved ''unit'') = ''r:unit''" "rKey (example_resolved ''adhoc'') = ''r:adhoc''"
  "rConflicts (example_resolved ''sim'') = [''r:default'', ''r:unit'']" "rConflicts (example_resolved ''adhoc'') = [''r:sim'']"
  "rMaxConcurrent (example_resolved ''adhoc'') = 1"
  by code_simp+

theorem resolved_ticket_well_formed_witness:
  "0 < rWeight (example_resolved ''adhoc'') \<and> \<not> rExclusive (example_resolved ''adhoc'') \<and> rMaxConcurrent (example_resolved ''adhoc'') = 1"
  using resolved_ticket_well_formed[OF example_repo_loaded example_resolves(3)] example_lanes(3) by simp


text \<open>
  A conflict with \<^verbatim>\<open>*\<close> reaches a lane that is not declared from one side only. The undeclared lane is added to the lane names only while it is itself
  resolved: its ticket is refused while a lease of the declared lane is held, but no ticket of the declared lane names it, so the declared lane starts
  beside a running undeclared one although the configuration says it conflicts with every lane.
\<close>

theorem undeclared_conflict_one_sided:
  assumes "resolveTicketConfig num_str rc rid (Some x) = Resolved rx" and "resolveTicketConfig num_str rc rid (Some y) = Resolved ry" and "x \<noteq> []" and "y \<noteq> []"
    and "\<not> is_declared_lane rc x" and "is_declared_lane rc y" and "x \<notin> set (obj_keys (lanes_of (repoCfg rc)))"
    and "(JStr y, JStr ''*'') \<in> set (conflict_pairs (map_of (repoCfg rc) ''conflicts''))" and "y \<noteq> ''*''"
    and "\<forall>(a, b) \<in> set (conflict_pairs (map_of (repoCfg rc) ''conflicts'')). a \<noteq> JStr x \<and> b \<noteq> JStr x"
  shows "rKey ry \<in> set (rConflicts rx) \<and> JStr x \<notin> set (lane_conflicts rc y)"
proof
  obtain lx where rx: "rx = resolve_lane num_str rc rid x lx" using resolved_name[OF assms(1,3)] by blast
  obtain ly where ry: "ry = resolve_lane num_str rc rid y ly" using resolved_name[OF assms(2,4)] by blast
  have "pairs_hit (lane_universe rc x) (JStr y) (JStr x) (JStr y, JStr ''*'')"
    using assms(5,9) by (simp add: pairs_hit_def ends_of_def lane_universe_def)
  moreover have "x \<noteq> y" using assms(5,6) by blast
  ultimately have "JStr y \<in> set (lane_conflicts rc x)" using assms(8) by (auto simp: lane_conflicts_neighbours expandConflicts_iff)
  then show "rKey ry \<in> set (rConflicts rx)" by (force simp: rx ry resolve_lane_conflicts)
  have "JStr x \<notin> set (ends_of (lane_universe rc y) a)" if "a \<noteq> JStr x" for a
    using that assms(7) declared_universe[OF assms(6)] by (auto simp: ends_of_def)
  then show "JStr x \<notin> set (lane_conflicts rc y)"
    using assms(10) by (fastforce simp: lane_conflicts_neighbours expandConflicts_iff pairs_hit_def)
qed

theorem undeclared_conflict_one_sided_witness:
  "rKey (example_resolved ''sim'') \<in> set (rConflicts (example_resolved ''adhoc'')) \<and> JStr ''adhoc'' \<notin> set (lane_conflicts example_repo ''sim'') \<and>
   blockedBy [(''l1'', ''r:adhoc'')] (example_ticket\<lparr>key := ''r:sim'', conflicts := rConflicts (example_resolved ''sim'')\<rparr>) = None"
proof -
  have "blockedBy [(''l1'', ''r:adhoc'')] (example_ticket\<lparr>key := ''r:sim'', conflicts := [''r:default'', ''r:unit'']\<rparr>) = None"
    by (simp add: blockedBy_def key_ceiling_def example_ticket_def)
  moreover have "conflict_pairs (map_of (repoCfg example_repo) ''conflicts'') = [(JStr ''sim'', JStr ''*'')]"
    by (simp add: example_repo_eq conflict_pairs_def pair_of_def map_filter_simps)
  ultimately show ?thesis
    using undeclared_conflict_one_sided[OF example_resolves(3,1)] example_lanes
    by (simp add: example_keys lanes_of_def example_repo_eq obj_keys_def)
qed

end
