(* ===== verification/Remote_Results.thy ===== *)
theory Remote_Results
  imports Attempts
begin

text \<open>
  What a runner's result record proves (\<^verbatim>\<open>src/src/remote-client.js\<close>): whether it is bound to the ticket that was dispatched, whether it is a
  confirmed outcome and a green one, and whether it is the runner's own statement that the job never started or was stopped.
\<close>

section \<open>Records\<close>

text \<open>A phase field: absent or null, a string, or another JSON value.\<close>

datatype phase_field = NoPhase | PhaseIs string | OddPhase

text \<open>
  A parsed record. A field of the wrong type is \<open>None\<close>; \<open>rrExit\<close> is an integer exit, \<open>rrSignal\<close> whether \<^verbatim>\<open>signal\<close> is truthy, \<open>rrTimed\<close> whether
  \<^verbatim>\<open>queuedMs\<close> or \<^verbatim>\<open>runMs\<close> is present.
\<close>

record remote_record =
  rrProtocol :: "int option"
  rrTicketId :: "string option"
  rrGeneration :: "int option"
  rrManifestHash :: "string option"
  rrKind :: string
  rrExit :: "int option"
  rrSignal :: bool
  rrPhase :: phase_field
  rrReason :: "string option"
  rrTimed :: bool

record expected_ticket =
  exProtocol :: int
  exTicketId :: string
  exGeneration :: int
  exManifestHash :: string

definition matchesTicket :: "remote_record \<Rightarrow> expected_ticket \<Rightarrow> bool" where
  "matchesTicket r ex \<longleftrightarrow>
     rrProtocol r = Some (exProtocol ex) \<and> rrTicketId r = Some (exTicketId ex) \<and> rrGeneration r = Some (exGeneration ex) \<and>
     rrManifestHash r = Some (exManifestHash ex)"

definition PIPELINE_PHASES :: "string list" where
  "PIPELINE_PHASES = [''deps'', ''setup'', ''command'']"

section \<open>Classification\<close>

datatype classified = Unconfirmed | Confirmed (cExit: int) (cGreen: bool)

definition classify_completed :: "remote_record \<Rightarrow> classified" where
  "classify_completed r =
     (case (if rrSignal r then Some 1 else rrExit r) of
        None \<Rightarrow> Unconfirmed
      | Some e \<Rightarrow>
          if rrProtocol r = Some 2
          then (case rrPhase r of
                  PhaseIs p \<Rightarrow>
                    if p \<notin> set PIPELINE_PHASES then Unconfirmed
                    else if e = 0 \<and> p \<noteq> ''command'' then Unconfirmed
                    else Confirmed e (e = 0 \<and> p = ''command'')
                | _ \<Rightarrow> Unconfirmed)
          else Confirmed e (e = 0))"

definition classifyRemoteResult :: "remote_record \<Rightarrow> expected_ticket \<Rightarrow> classified" where
  "classifyRemoteResult r ex =
     (if \<not> matchesTicket r ex then Unconfirmed
      else if rrKind r = ''completed''
      then (if rrProtocol r = Some 2 \<and> rrExit r = Some 0 \<and> rrSignal r then Unconfirmed else classify_completed r)
      else if rrKind r = ''refused'' then (case rrExit r of Some e \<Rightarrow> Confirmed e False | None \<Rightarrow> Unconfirmed)
      else if rrKind r = ''cancelled'' then Confirmed 130 False
      else Unconfirmed)"

definition isGreen :: "remote_record \<Rightarrow> expected_ticket \<Rightarrow> bool" where
  "isGreen r ex = (case classifyRemoteResult r ex of Confirmed _ g \<Rightarrow> g | Unconfirmed \<Rightarrow> False)"

definition isLegacyDeadQueuedRecord :: "remote_record \<Rightarrow> bool" where
  "isLegacyDeadQueuedRecord r \<longleftrightarrow>
     rrProtocol r = Some 2 \<and> rrKind r = ''completed'' \<and> rrExit r = Some 75 \<and> \<not> rrSignal r \<and> rrPhase r = NoPhase \<and> \<not> rrTimed r"

definition RUNNER_SHUTDOWN_REASON :: string where "RUNNER_SHUTDOWN_REASON = ''runner-shutdown''"
definition DEAD_QUEUED_SUPERVISOR_REASON :: string where "DEAD_QUEUED_SUPERVISOR_REASON = ''supervisor-died-while-queued''"

definition provesNeverStarted :: "remote_record \<Rightarrow> expected_ticket \<Rightarrow> bool" where
  "provesNeverStarted r ex \<longleftrightarrow>
     matchesTicket r ex \<and>
     (rrKind r = ''rejected'' \<or>
      rrKind r = ''unfinished'' \<and> rrReason r \<in> {Some ''queue-timeout'', Some ''withdrawn'', Some DEAD_QUEUED_SUPERVISOR_REASON} \<or>
      isLegacyDeadQueuedRecord r)"

definition provesStopped :: "remote_record \<Rightarrow> expected_ticket \<Rightarrow> bool" where
  "provesStopped r ex \<longleftrightarrow> matchesTicket r ex \<and> rrKind r = ''unfinished'' \<and> rrReason r = Some RUNNER_SHUTDOWN_REASON"

definition isWithdrawnRecord :: "remote_record \<Rightarrow> expected_ticket \<Rightarrow> bool" where
  "isWithdrawnRecord r ex \<longleftrightarrow> matchesTicket r ex \<and> rrKind r = ''unfinished'' \<and> rrReason r = Some ''withdrawn''"

section \<open>Verdicts\<close>

lemma green_command:
  "isGreen r ex \<Longrightarrow> matchesTicket r ex \<and> rrKind r = ''completed'' \<and> rrExit r = Some 0 \<and> \<not> rrSignal r \<and> (exProtocol ex = 2 \<longrightarrow> rrPhase r = PhaseIs ''command'')"
  by (auto simp: isGreen_def classifyRemoteResult_def classify_completed_def matchesTicket_def split: if_splits option.splits phase_field.splits)

lemma never_started_unconfirmed: "provesNeverStarted r ex \<Longrightarrow> classifyRemoteResult r ex = Unconfirmed"
  by (auto simp: provesNeverStarted_def classifyRemoteResult_def classify_completed_def isLegacyDeadQueuedRecord_def)

lemma stopped_unconfirmed: "provesStopped r ex \<Longrightarrow> classifyRemoteResult r ex = Unconfirmed"
  by (auto simp: provesStopped_def classifyRemoteResult_def)

lemma stopped_not_never_started: "provesStopped r ex \<Longrightarrow> \<not> provesNeverStarted r ex"
  by (auto simp: provesStopped_def provesNeverStarted_def isLegacyDeadQueuedRecord_def RUNNER_SHUTDOWN_REASON_def DEAD_QUEUED_SUPERVISOR_REASON_def)

text \<open>
  A runner's record has one meaning. Green means bound to this dispatch, completed with exit 0 and no signal, and for protocol 2 in the command phase. A record
  that proves the job never started is never a confirmed result, nor is one that proves it was stopped, and it is not both.
\<close>

theorem record_verdicts_exclusive:
  "(isGreen r ex \<longrightarrow> matchesTicket r ex \<and> rrKind r = ''completed'' \<and> rrExit r = Some 0 \<and> \<not> rrSignal r \<and> (exProtocol ex = 2 \<longrightarrow> rrPhase r = PhaseIs ''command'')) \<and>
   (provesNeverStarted r ex \<longrightarrow> classifyRemoteResult r ex = Unconfirmed) \<and>
   (provesStopped r ex \<longrightarrow> classifyRemoteResult r ex = Unconfirmed \<and> \<not> provesNeverStarted r ex)"
  using green_command never_started_unconfirmed stopped_unconfirmed stopped_not_never_started by blast

definition example_record :: remote_record where
  "example_record = \<lparr>rrProtocol = Some 2, rrTicketId = Some ''t'', rrGeneration = Some 0, rrManifestHash = Some ''m'', rrKind = ''completed'', rrExit = Some 0,
     rrSignal = False, rrPhase = PhaseIs ''command'', rrReason = None, rrTimed = True\<rparr>"

definition example_expected :: expected_ticket where
  "example_expected = \<lparr>exProtocol = 2, exTicketId = ''t'', exGeneration = 0, exManifestHash = ''m''\<rparr>"

theorem record_verdicts_exclusive_witness:
  "isGreen example_record example_expected \<and> rrPhase example_record = PhaseIs ''command'' \<and>
   classifyRemoteResult (example_record\<lparr>rrKind := ''rejected''\<rparr>) example_expected = Unconfirmed"
proof -
  have "isGreen example_record example_expected" "provesNeverStarted (example_record\<lparr>rrKind := ''rejected''\<rparr>) example_expected" "exProtocol example_expected = 2"
    by (simp_all add: example_record_def example_expected_def isGreen_def classifyRemoteResult_def classify_completed_def matchesTicket_def PIPELINE_PHASES_def
        provesNeverStarted_def)
  then show ?thesis using record_verdicts_exclusive[of example_record example_expected] record_verdicts_exclusive[of "example_record\<lparr>rrKind := ''rejected''\<rparr>" example_expected]
    by blast
qed

end
