(* ===== verification/Reach.thy ===== *)
theory Reach
  imports Schedule
begin

text \<open>
  Which runners are reachable (\<^verbatim>\<open>src/src/runner-unreachable.js\<close>): the file with the time of the first failed contact of each runner's current streak,
  the watcher's heartbeat beside it, the readiness gaps, and what placement and status read from it. Each update is one step under the file's own lock.
\<close>

section \<open>The file\<close>

record beat =
  lastOkAt :: "jsnum option"
  lastPingAt :: jsnum

record gap_entry =
  gapCheck :: string
  gapMissing :: "string list"
  gapAt :: jsnum

text \<open>\<open>streaks\<close> are the runner entries, \<open>beatAt\<close> and \<open>beats\<close> the heartbeat, \<open>gaps\<close> the readiness entries, \<open>enforcement\<close> what each runner last reported.\<close>

record 'e reach_file =
  streaks :: "(string \<times> jsnum) list"
  beatAt :: "jsnum option"
  beats :: "(string \<times> beat) list"
  gaps :: "(string \<times> gap_entry) list"
  enforcement :: "(string \<times> 'e option) list"

definition empty_reach :: "'e reach_file" where
  "empty_reach = \<lparr>streaks = [], beatAt = None, beats = [], gaps = [], enforcement = []\<rparr>"

definition HEARTBEAT_FRESH_MS :: jsnum where "HEARTBEAT_FRESH_MS = 300000"
definition READINESS_TTL_MS :: jsnum where "READINESS_TTL_MS = 3600000"

definition readUnreachable :: "'e reach_file \<Rightarrow> string \<Rightarrow> jsnum option" where
  "readUnreachable f = map_of (streaks f)"

definition applyContact :: "string \<Rightarrow> bool \<Rightarrow> jsnum \<Rightarrow> (string \<times> jsnum) list \<Rightarrow> (string \<times> jsnum) list" where
  "applyContact name ok now st = (if ok then AList.delete name st else if map_of st name = None then AList.update name now st else st)"

definition recordContact :: "string \<Rightarrow> bool \<Rightarrow> jsnum \<Rightarrow> 'e reach_file \<Rightarrow> jsnum option \<times> 'e reach_file" where
  "recordContact name ok now f =
     (let st = applyContact name ok now (streaks f) in (if ok then None else map_of st name, f\<lparr>streaks := st\<rparr>))"

definition ping_beat :: "'e reach_file \<Rightarrow> jsnum \<Rightarrow> string \<times> bool \<Rightarrow> string \<times> beat" where
  "ping_beat f now p =
     (fst p, \<lparr>lastOkAt = (if snd p then Some now else Option.bind (map_of (beats f) (fst p)) lastOkAt), lastPingAt = now\<rparr>)"

definition recordPings :: "(string \<times> bool) list \<Rightarrow> jsnum \<Rightarrow> 'e reach_file \<Rightarrow> 'e reach_file" where
  "recordPings pings now f =
     f\<lparr>streaks := foldl (\<lambda>st p. applyContact (fst p) (snd p) now st) (streaks f) pings,
       beatAt := Some now, beats := foldl (\<lambda>bs p. AList.update (fst p) (snd (ping_beat f now p)) bs) [] pings\<rparr>"

definition unexpired :: "jsnum \<Rightarrow> (string \<times> gap_entry) list \<Rightarrow> (string \<times> gap_entry) list" where
  "unexpired now gs = filter (\<lambda>(_, g). now - gapAt g \<le> READINESS_TTL_MS) gs"

definition readReadiness :: "jsnum \<Rightarrow> 'e reach_file \<Rightarrow> (string \<times> gap_entry) list" where
  "readReadiness now f = unexpired now (gaps f)"

definition recordReadiness :: "(string \<times> string \<times> string list) list \<Rightarrow> string list \<Rightarrow> jsnum \<Rightarrow> 'e reach_file \<Rightarrow> 'e reach_file" where
  "recordReadiness found clear now f =
     f\<lparr>gaps := foldl (\<lambda>gs (n, c, m). AList.update n \<lparr>gapCheck = c, gapMissing = m, gapAt = now\<rparr> gs)
        (foldl (\<lambda>gs n. AList.delete n gs) (unexpired now (gaps f)) clear) found\<rparr>"

definition recordEnforcement :: "(string \<times> 'e option) list \<Rightarrow> 'e reach_file \<Rightarrow> 'e reach_file" where
  "recordEnforcement seen f = f\<lparr>enforcement := foldl (\<lambda>es (n, e). AList.update n e es) (enforcement f) seen\<rparr>"

section \<open>What placement reads\<close>

record runner_cfg =
  rnName :: string
  rnOffline :: bool
  rnSchedule :: "schedule option"

definition heartbeatAgeMs :: "'e reach_file \<Rightarrow> jsnum \<Rightarrow> jsnum option" where
  "heartbeatAgeMs f now = map_option (\<lambda>t. max 0 (now - t)) (beatAt f)"

definition heartbeat_fresh :: "'e reach_file \<Rightarrow> jsnum \<Rightarrow> bool" where
  "heartbeat_fresh f now = (case heartbeatAgeMs f now of Some age \<Rightarrow> age \<le> HEARTBEAT_FRESH_MS | None \<Rightarrow> False)"

definition downRunnerReasons :: "'e reach_file \<Rightarrow> runner_cfg list \<Rightarrow> jsnum \<Rightarrow> jsnum \<Rightarrow> (string \<times> jsnum) list" where
  "downRunnerReasons f runners downAfter now =
     (if \<not> downAfter > 0 \<or> \<not> heartbeat_fresh f now then []
      else List.map_filter (\<lambda>r. case readUnreachable f (rnName r) of
               Some since \<Rightarrow> if \<not> rnOffline r \<and> now - since \<ge> downAfter then Some (rnName r, since) else None
             | None \<Rightarrow> None) runners)"

definition heartbeatUpRunners :: "'e reach_file \<Rightarrow> runner_cfg list \<Rightarrow> jsnum \<Rightarrow> string list" where
  "heartbeatUpRunners f runners now =
     (if \<not> heartbeat_fresh f now then []
      else map rnName (filter (\<lambda>r. \<not> rnOffline r \<and> readUnreachable f (rnName r) = None \<and>
             (case Option.bind (map_of (beats f) (rnName r)) lastOkAt of Some t \<Rightarrow> now - t \<le> HEARTBEAT_FRESH_MS | None \<Rightarrow> False)) runners))"

datatype runner_state = RunnerOffline | RunnerDown | RunnerUnreachable | RunnerOffSchedule | RunnerUp

definition runner_state_of :: "(string \<Rightarrow> int \<Rightarrow> int) \<Rightarrow> int \<Rightarrow> 'e reach_file \<Rightarrow> (string \<times> jsnum) list \<Rightarrow> runner_cfg \<Rightarrow> runner_state" where
  "runner_state_of tz nowMs f down r =
     (if rnOffline r then RunnerOffline
      else if map_of down (rnName r) \<noteq> None then RunnerDown
      else if readUnreachable f (rnName r) \<noteq> None then RunnerUnreachable
      else if \<not> fst (runnerAvailability tz (rnSchedule r) nowMs) then RunnerOffSchedule else RunnerUp)"

definition lost_settle_at :: "'e reach_file \<Rightarrow> jsnum \<Rightarrow> runner_cfg \<Rightarrow> jsnum option" where
  "lost_settle_at f lostAfter r =
     (case readUnreachable f (rnName r) of Some since \<Rightarrow> if lostAfter > 0 \<and> \<not> rnOffline r then Some (since + lostAfter) else None | None \<Rightarrow> None)"

section \<open>The clock is the start of the current failing streak\<close>

text \<open>The contacts of one runner in the order they were recorded, and the first failure after the last answer.\<close>

fun streak_start :: "jsnum option \<Rightarrow> (bool \<times> jsnum) list \<Rightarrow> jsnum option" where
  "streak_start s [] = s"
| "streak_start s ((ok, t) # rest) = streak_start (if ok then None else case s of None \<Rightarrow> Some t | Some _ \<Rightarrow> s) rest"

datatype contact = ByReconcile string bool jsnum | ByWatcher "(string \<times> bool) list" jsnum

definition record_contact :: "'e reach_file \<Rightarrow> contact \<Rightarrow> 'e reach_file" where
  "record_contact f c = (case c of ByReconcile n ok t \<Rightarrow> snd (recordContact n ok t f) | ByWatcher ps t \<Rightarrow> recordPings ps t f)"

definition contacts_of :: "string \<Rightarrow> contact \<Rightarrow> (bool \<times> jsnum) list" where
  "contacts_of name c =
     (case c of ByReconcile n ok t \<Rightarrow> if n = name then [(ok, t)] else []
      | ByWatcher ps t \<Rightarrow> map (\<lambda>p. (snd p, t)) (filter (\<lambda>p. fst p = name) ps))"

lemma streak_start_append: "streak_start s (xs @ ys) = streak_start (streak_start s xs) ys"
  by (induction xs arbitrary: s) auto

lemma applyContact_lookup:
  "map_of (applyContact n ok t st) name = (if n = name then streak_start (map_of st name) [(ok, t)] else map_of st name)"
  by (auto simp: applyContact_def delete_conv' update_conv' split: option.splits)

lemma pings_lookup:
  "map_of (foldl (\<lambda>st p. applyContact (fst p) (snd p) t st) st ps) name =
   streak_start (map_of st name) (map (\<lambda>p. (snd p, t)) (filter (\<lambda>p. fst p = name) ps))"
  by (induction ps arbitrary: st) (simp_all add: applyContact_lookup)

lemma record_contact_lookup: "readUnreachable (record_contact f c) name = streak_start (readUnreachable f name) (contacts_of name c)"
  by (cases c) (simp_all add: record_contact_def contacts_of_def readUnreachable_def recordContact_def Let_def applyContact_lookup recordPings_def pings_lookup)

lemma contacts_lookup: "readUnreachable (foldl record_contact f cs) name = streak_start (readUnreachable f name) (concat (map (contacts_of name) cs))"
  by (induction cs arbitrary: f) (simp_all add: record_contact_lookup streak_start_append)

text \<open>The reference definition: the time of the first failure in the run of failures at the end of the history.\<close>

definition first_failure :: "(bool \<times> jsnum) list \<Rightarrow> jsnum option" where
  "first_failure xs = (let failing = takeWhile (\<lambda>c. \<not> fst c) (rev xs) in if failing = [] then None else Some (snd (last failing)))"

lemma streak_start_first_failure: "streak_start None xs = first_failure xs"
proof (induction xs rule: rev_induct)
  case (snoc c xs)
  then show ?case by (cases c) (simp add: streak_start_append first_failure_def Let_def split: if_splits)
qed (simp add: first_failure_def)

text \<open>
  The unreachable clock tells the truth. After any sequence of contacts, whether recorded by a reconcile or by the watcher's pings, a runner's entry is
  absent exactly when its last contact was answered (or there was none), and otherwise holds the time of the first failure since then.
\<close>

theorem unreachable_clock_is_streak:
  "readUnreachable (foldl record_contact (empty_reach :: 'a reach_file) cs) name = first_failure (concat (map (contacts_of name) cs))"
proof -
  have "readUnreachable (empty_reach :: 'a reach_file) name = None" by (simp add: readUnreachable_def empty_reach_def)
  then show ?thesis using contacts_lookup[of "empty_reach :: 'a reach_file" cs name] by (simp add: streak_start_first_failure)
qed

text \<open>
  A dead watcher never keeps a runner out. Placement skips a runner as down only while the watcher's heartbeat is fresh, the runner is not marked offline, and
  it has failed for at least the configured time; a runner the heartbeat vouches for is never among them.
\<close>

theorem down_only_while_watched:
  assumes "(n, since) \<in> set (downRunnerReasons f runners downAfter now)"
  shows "heartbeat_fresh f now \<and> 0 < downAfter \<and> downAfter \<le> now - since \<and> readUnreachable f n = Some since \<and> n \<notin> set (heartbeatUpRunners f runners now)"
proof -
  have fresh: "0 < downAfter" "heartbeat_fresh f now" using assms by (auto simp: downRunnerReasons_def split: if_splits)
  then obtain r where "r \<in> set runners" "rnName r = n" "readUnreachable f n = Some since" "downAfter \<le> now - since"
    using assms by (auto simp: downRunnerReasons_def map_filter_def split: if_splits option.splits)
  then show ?thesis using fresh by (auto simp: heartbeatUpRunners_def)
qed

definition example_reach :: "unit reach_file" where
  "example_reach = record_contact (record_contact empty_reach (ByReconcile ''w'' False 0)) (ByWatcher [(''w'', False)] 400000)"

theorem down_only_while_watched_witness:
  "downRunnerReasons example_reach [\<lparr>rnName = ''w'', rnOffline = False, rnSchedule = None\<rparr>] 300000 500000 = [(''w'', 0)] \<and>
   readUnreachable example_reach ''w'' = Some 0 \<and> heartbeatUpRunners example_reach [\<lparr>rnName = ''w'', rnOffline = False, rnSchedule = None\<rparr>] 500000 = []"
proof -
  have d: "downRunnerReasons example_reach [\<lparr>rnName = ''w'', rnOffline = False, rnSchedule = None\<rparr>] 300000 500000 = [(''w'', 0)]"
    by (simp add: downRunnerReasons_def heartbeat_fresh_def heartbeatAgeMs_def HEARTBEAT_FRESH_MS_def record_contact_def recordContact_def recordPings_def
        applyContact_def empty_reach_def readUnreachable_def map_filter_def example_reach_def)
  then have "(''w'', 0) \<in> set (downRunnerReasons example_reach [\<lparr>rnName = ''w'', rnOffline = False, rnSchedule = None\<rparr>] 300000 500000)" by simp
  from down_only_while_watched[OF this] d show ?thesis by (simp add: heartbeatUpRunners_def)
qed

end
