(* ===== verification/Reconcile.thy ===== *)
theory Reconcile
  imports Remote_Results Reach
begin

text \<open>
  Settling an orphaned remote attempt (\<^verbatim>\<open>src/src/remote-reconcile.js\<close>). The answers of the runners over ssh, the time left for each call and the
  state of the other processes are inputs; the decision is a function of them, and the publication goes through \<^verbatim>\<open>publishTerminal\<close> on the
  attempts as they are at that later moment.
\<close>

section \<open>Answers\<close>

datatype job_state = JobQueued | JobRunning | JobGone | JobUnknown

text \<open>\<^verbatim>\<open>fetchRemoteResult\<close>: no usable answer, no record with the job's state, or the record.\<close>

datatype fetched = NoAnswer | NoRecord job_state | Fetched remote_record

text \<open>The answer of \<^verbatim>\<open>remote-withdraw\<close>: the runner's word and whether it left a tombstone.\<close>

type_synonym withdraw_answer = "string \<times> bool"

record ssh =
  budget :: "nat \<Rightarrow> bool"
  firstFetch :: fetched
  cancelConfirmed :: bool
  lateFetch :: fetched
  sourceWithdraw :: withdraw_answer
  destFetch :: fetched
  destWithdraw :: withdraw_answer
  destFetchAfter :: fetched

record recon_env =
  runnersOf :: "runner_cfg list"
  runnerLostAfterMs :: jsnum
  nowAt :: jsnum
  assumeDown :: bool
  selfMode :: bool
  pinned :: "runner_cfg option"
  ownPid :: jsnum
  supAlive :: "attempt \<Rightarrow> bool"
  kernelNow :: "string option"
  procAlive :: "jsnum \<Rightarrow> string option \<Rightarrow> bool"
  answers :: ssh

definition ownedBySelf :: "recon_env \<Rightarrow> attempt \<Rightarrow> bool" where
  "ownedBySelf env a \<longleftrightarrow> selfMode env \<and> attemptPid a = ownPid env"

definition isStrandedWithdrawingMove :: "recon_env \<Rightarrow> attempt \<Rightarrow> bool" where
  "isStrandedWithdrawingMove env a \<longleftrightarrow>
     executor a = RemoteExec \<and> (case kernelBoot a of Some k \<Rightarrow> k \<noteq> [] \<and> kernelNow env = Some k | None \<Rightarrow> False) \<and>
     \<not> procAlive env (attemptPid a) (attemptStart a) \<and>
     (case moving a of Some m \<Rightarrow> mvPhase m = Withdrawing \<and> runner a = Some (mvFrom m) | None \<Rightarrow> False)"

definition neverDispatched :: "attempt \<Rightarrow> bool" where
  "neverDispatched a \<longleftrightarrow> phase a = ProbePhase \<and> (case runner a of Some r \<Rightarrow> r = [] | None \<Rightarrow> True) \<and> binding a = None \<and> dispatchedRunners a = []"

section \<open>Decision\<close>

datatype keep_state = KSkipped | KUnreachable | KTimedOut | KRunning | KAmbiguous

datatype settle = Adopt int | Lose string | RefuseMove

text \<open>\<open>Settle s bound recheck\<close>: publish \<open>s\<close>; \<open>bound\<close> when only the unreachable bound justifies it, \<open>recheck\<close> when the publish re-tests that nothing was dispatched.\<close>

datatype decision = Keep keep_state | Settle settle bool bool

definition expected_of :: "string \<Rightarrow> binding \<Rightarrow> expected_ticket" where
  "expected_of i b = \<lparr>exProtocol = bProtocol b, exTicketId = nullish (bTicketId b) i, exGeneration = bGeneration b, exManifestHash = bManifestHash b\<rparr>"

definition adoptOrAmbiguous :: "string \<Rightarrow> attempt \<Rightarrow> remote_record \<Rightarrow> decision" where
  "adoptOrAmbiguous i a r =
     (case binding a of
        None \<Rightarrow> Keep KAmbiguous
      | Some b \<Rightarrow>
          (case classifyRemoteResult r (expected_of i b) of
             Confirmed e _ \<Rightarrow> Settle (Adopt e) False False
           | Unconfirmed \<Rightarrow>
               if provesNeverStarted r (expected_of i b) then Settle (Lose ''runner-never-started'') False False
               else if provesStopped r (expected_of i b) then Settle (Lose RUNNER_SHUTDOWN_REASON) False False
               else Keep KAmbiguous))"

definition publish_unreachable :: "recon_env \<Rightarrow> jsnum \<Rightarrow> decision option" where
  "publish_unreachable env since =
     (if \<not> runnerLostAfterMs env > 0 \<or> nowAt env - since \<le> runnerLostAfterMs env then None else Some (Settle (Lose ''runner-lost'') True False))"

definition after_gone :: "recon_env \<Rightarrow> string \<Rightarrow> attempt \<Rightarrow> decision" where
  "after_gone env i a =
     (let s = answers env
      in if \<not> budget s 1 then Keep KTimedOut
         else if \<not> cancelConfirmed s then Keep KUnreachable
         else if \<not> budget s 2 then Keep KTimedOut
         else case lateFetch s of
                Fetched r \<Rightarrow> (case adoptOrAmbiguous i a r of Keep _ \<Rightarrow> Settle (Lose ''runner-lost'') False False | d \<Rightarrow> d)
              | _ \<Rightarrow> Settle (Lose ''runner-lost'') False False)"

definition runner_named :: "recon_env \<Rightarrow> string option \<Rightarrow> runner_cfg option" where
  "runner_named env n = List.find (\<lambda>r. Some (rnName r) = n) (runnersOf env)"

definition ask_runner :: "recon_env \<Rightarrow> string \<Rightarrow> attempt \<Rightarrow> runner_cfg \<Rightarrow> 'e reach_file \<Rightarrow> decision \<times> 'e reach_file" where
  "ask_runner env i a r f =
     (if assumeDown env
      then (nullish (Option.bind (readUnreachable f (rnName r)) (publish_unreachable env)) (Keep KUnreachable), f)
      else if \<not> budget (answers env) 0 then (Keep KTimedOut, f)
      else case firstFetch (answers env) of
             NoAnswer \<Rightarrow>
               (case recordContact (rnName r) False (nowAt env) f of
                  (since, f') \<Rightarrow> (nullish (Option.bind since (publish_unreachable env)) (Keep KUnreachable), f'))
           | Fetched rr \<Rightarrow> (adoptOrAmbiguous i a rr, snd (recordContact (rnName r) True (nowAt env) f))
           | NoRecord st \<Rightarrow>
               ((case st of JobQueued \<Rightarrow> Keep KRunning | JobRunning \<Rightarrow> Keep KRunning | JobUnknown \<Rightarrow> Keep KAmbiguous | JobGone \<Rightarrow> after_gone env i a),
                snd (recordContact (rnName r) True (nowAt env) f)))"

section \<open>A move stranded while withdrawing\<close>

definition held_by_destination :: "bool \<Rightarrow> fetched \<Rightarrow> decision option" where
  "held_by_destination inTime x =
     (if \<not> inTime then Some (Keep KTimedOut)
      else case x of
             NoAnswer \<Rightarrow> Some (Keep KUnreachable)
           | Fetched _ \<Rightarrow> Some (Keep KAmbiguous)
           | NoRecord JobGone \<Rightarrow> None
           | NoRecord JobUnknown \<Rightarrow> Some (Keep KAmbiguous)
           | NoRecord _ \<Rightarrow> Some (Keep KRunning))"

definition ask_destination :: "recon_env \<Rightarrow> move \<Rightarrow> decision" where
  "ask_destination env m =
     (let s = answers env
      in if runner_named env (Some (mvTo m)) = None then Keep KUnreachable
         else case held_by_destination (budget s 1) (destFetch s) of
                Some d \<Rightarrow> d
              | None \<Rightarrow>
                  if \<not> budget s 2 then Keep KTimedOut
                  else if destWithdraw s \<noteq> (''no-such-ticket'', True) then Keep KUnreachable
                  else case held_by_destination (budget s 3) (destFetchAfter s) of
                         Some d \<Rightarrow> d
                       | None \<Rightarrow> Settle (Lose ''runner-never-started'') False False)"

definition source_record :: "recon_env \<Rightarrow> string \<Rightarrow> attempt \<Rightarrow> move \<Rightarrow> remote_record \<Rightarrow> decision" where
  "source_record env i a m r =
     (case binding a of
        None \<Rightarrow> Keep KAmbiguous
      | Some b \<Rightarrow>
          if classifyRemoteResult r (expected_of i b) \<noteq> Unconfirmed \<and> rrKind r = ''completed'' then adoptOrAmbiguous i a r
          else if \<not> provesNeverStarted r (expected_of i b) then Keep KAmbiguous
          else if mvRefuse m then Settle RefuseMove False False
          else ask_destination env m)"

definition settleStrandedWithdraw :: "recon_env \<Rightarrow> string \<Rightarrow> attempt \<Rightarrow> move \<Rightarrow> 'e reach_file \<Rightarrow> decision \<times> 'e reach_file" where
  "settleStrandedWithdraw env i a m f =
     (case runner_named env (Some (mvFrom m)) of
        None \<Rightarrow> (Keep KUnreachable, f)
      | Some src \<Rightarrow>
          if assumeDown env \<or> rnOffline src then (Keep KUnreachable, f)
          else if \<not> budget (answers env) 0 then (Keep KTimedOut, f)
          else case firstFetch (answers env) of
                 NoAnswer \<Rightarrow> (Keep KUnreachable, snd (recordContact (mvFrom m) False (nowAt env) f))
               | x \<Rightarrow>
                   ((case x of
                       Fetched r \<Rightarrow> source_record env i a m r
                     | NoRecord JobQueued \<Rightarrow>
                         if \<not> mvRefuse m then Keep KRunning
                         else if \<not> budget (answers env) 1 then Keep KTimedOut
                         else if fst (sourceWithdraw (answers env)) \<noteq> ''withdrawn'' then Keep KRunning
                         else Settle RefuseMove False False
                     | NoRecord JobRunning \<Rightarrow> Keep KRunning
                     | _ \<Rightarrow> Keep KAmbiguous),
                    snd (recordContact (mvFrom m) True (nowAt env) f)))"

section \<open>The whole reconcile\<close>

definition configured_offline :: "recon_env \<Rightarrow> attempt \<Rightarrow> runner_cfg \<Rightarrow> bool" where
  "configured_offline env a r =
     (if pinned env \<noteq> None then (case runner_named env (runner a) of Some c \<Rightarrow> rnOffline c | None \<Rightarrow> False) else rnOffline r)"

definition reconcile :: "recon_env \<Rightarrow> bool \<Rightarrow> string \<Rightarrow> attempt \<Rightarrow> 'e reach_file \<Rightarrow> decision \<times> 'e reach_file" where
  "reconcile env resultExists i a f =
     (if executor a \<noteq> RemoteExec \<or> supAlive env a \<and> \<not> ownedBySelf env a then (Keep KSkipped, f)
      else let stranded = (\<not> selfMode env \<and> isStrandedWithdrawingMove env a)
           in if moving a \<noteq> None \<and> \<not> stranded \<or> resultExists then (Keep KSkipped, f)
              else case (stranded, moving a) of
                     (True, Some m) \<Rightarrow> settleStrandedWithdraw env i a m f
                   | _ \<Rightarrow>
                       if neverDispatched a then (Settle (Lose ''never-dispatched'') False True, f)
                       else (case nullish_opt (pinned env) (runner_named env (runner a)) of
                               None \<Rightarrow> (Keep KUnreachable, f)
                             | Some r \<Rightarrow>
                                 if configured_offline env a r then (Settle (Lose ''runner-offline'') False False, f)
                                 else ask_runner env i a r f))"

section \<open>Publication\<close>

datatype recon_outcome = Unsettled keep_state | LostToCaller string | AlreadySettled | AttemptChanged | SettledCancelled | SettledAs settle

text \<open>The fence of \<^verbatim>\<open>publishSettled\<close>, on the record read again under the lock.\<close>

definition same_attempt :: "recon_env \<Rightarrow> attempt \<Rightarrow> bool \<Rightarrow> attempt \<Rightarrow> bool" where
  "same_attempt env a recheck cur \<longleftrightarrow>
     executor cur = RemoteExec \<and> runner cur = runner a \<and> generation cur = generation a \<and> attemptStarted cur = attemptStarted a \<and> moving cur = moving a \<and>
     (\<not> supAlive env cur \<or> ownedBySelf env cur) \<and> (moving cur = None \<or> isStrandedWithdrawingMove env cur) \<and> (recheck \<longrightarrow> neverDispatched cur)"

definition publishSettled :: "recon_env \<Rightarrow> bool \<Rightarrow> attempts \<Rightarrow> string \<Rightarrow> attempt \<Rightarrow> decision \<Rightarrow> recon_outcome \<times> attempts" where
  "publishSettled env cancelled as i a d =
     (case d of
        Keep k \<Rightarrow> (Unsettled k, as)
      | Settle s bound recheck \<Rightarrow>
          (case (selfMode env \<and> \<not> bound, s) of
             (True, Lose why) \<Rightarrow> (LostToCaller why, as)
           | _ \<Rightarrow>
               (case publishTerminal cancelled as i (generation a) (Some (same_attempt env a recheck)) of
                  (AlreadyPublished, as') \<Rightarrow> (AlreadySettled, as')
                | (StaleAttempt, as') \<Rightarrow> (AttemptChanged, as')
                | (GenerationMismatch, as') \<Rightarrow> (AttemptChanged, as')
                | (PublishedCancelled, as') \<Rightarrow> (SettledCancelled, as')
                | (Published, as') \<Rightarrow> (SettledAs s, as'))))"

text \<open>
  \<^verbatim>\<open>reconcileRemoteAttempt\<close>: the attempts when it starts are \<open>as0\<close>, when it publishes \<open>as1\<close>; the liveness probes at the publish are those of \<open>env1\<close>, which
  differs from \<open>env\<close> in nothing else.
\<close>

definition reconcileRemoteAttempt ::
  "recon_env \<Rightarrow> recon_env \<Rightarrow> bool \<Rightarrow> bool \<Rightarrow> attempts \<Rightarrow> attempts \<Rightarrow> string \<Rightarrow> 'e reach_file \<Rightarrow> recon_outcome \<times> attempts \<times> 'e reach_file" where
  "reconcileRemoteAttempt env env1 resultExists cancelled as0 as1 i f =
     (case readAttempt as0 i of
        None \<Rightarrow> (Unsettled KSkipped, as1, f)
      | Some a \<Rightarrow> (case reconcile env resultExists i a f of (d, f') \<Rightarrow> (case publishSettled env1 cancelled as1 i a d of (out, as') \<Rightarrow> (out, as', f'))))"

section \<open>What justifies a settlement\<close>

text \<open>
  The evidence each settlement must rest on, from the runners' own answers, the attempt record or the operator. \<open>f\<close> is the reachability file after the reconcile,
  and the last argument tells whether the unreachable bound alone is the reason.
\<close>

inductive proved :: "recon_env \<Rightarrow> string \<Rightarrow> attempt \<Rightarrow> 'e reach_file \<Rightarrow> settle \<Rightarrow> bool \<Rightarrow> bool" for env i a f where
  confirmed: "binding a = Some b \<Longrightarrow> Fetched r \<in> {firstFetch (answers env), lateFetch (answers env)} \<Longrightarrow>
    classifyRemoteResult r (expected_of i b) = Confirmed e g \<Longrightarrow> proved env i a f (Adopt e) False"
| never_started: "binding a = Some b \<Longrightarrow> moving a = None \<Longrightarrow> Fetched r \<in> {firstFetch (answers env), lateFetch (answers env)} \<Longrightarrow>
    provesNeverStarted r (expected_of i b) \<Longrightarrow> proved env i a f (Lose ''runner-never-started'') False"
| stopped: "binding a = Some b \<Longrightarrow> moving a = None \<Longrightarrow> Fetched r \<in> {firstFetch (answers env), lateFetch (answers env)} \<Longrightarrow>
    provesStopped r (expected_of i b) \<Longrightarrow> proved env i a f (Lose RUNNER_SHUTDOWN_REASON) False"
| never_sent: "neverDispatched a \<Longrightarrow> moving a = None \<Longrightarrow> proved env i a f (Lose ''never-dispatched'') False"
| offline: "configured_offline env a r \<Longrightarrow> moving a = None \<Longrightarrow> proved env i a f (Lose ''runner-offline'') False"
| gone: "moving a = None \<Longrightarrow> firstFetch (answers env) = NoRecord JobGone \<Longrightarrow> cancelConfirmed (answers env) \<Longrightarrow> proved env i a f (Lose ''runner-lost'') False"
| silent: "moving a = None \<Longrightarrow> 0 < runnerLostAfterMs env \<Longrightarrow> readUnreachable f n = Some since \<Longrightarrow> nowAt env - since > runnerLostAfterMs env \<Longrightarrow>
    proved env i a f (Lose ''runner-lost'') True"
| moved_nowhere: "binding a = Some b \<Longrightarrow> moving a = Some m \<Longrightarrow> isStrandedWithdrawingMove env a \<Longrightarrow> firstFetch (answers env) = Fetched r \<Longrightarrow>
    provesNeverStarted r (expected_of i b) \<Longrightarrow> destFetch (answers env) = NoRecord JobGone \<Longrightarrow> destWithdraw (answers env) = (''no-such-ticket'', True) \<Longrightarrow>
    destFetchAfter (answers env) = NoRecord JobGone \<Longrightarrow> proved env i a f (Lose ''runner-never-started'') False"
| refused_record: "binding a = Some b \<Longrightarrow> moving a = Some m \<Longrightarrow> mvRefuse m \<Longrightarrow> isStrandedWithdrawingMove env a \<Longrightarrow> firstFetch (answers env) = Fetched r \<Longrightarrow>
    provesNeverStarted r (expected_of i b) \<Longrightarrow> proved env i a f RefuseMove False"
| refused_withdrawn: "moving a = Some m \<Longrightarrow> mvRefuse m \<Longrightarrow> isStrandedWithdrawingMove env a \<Longrightarrow> firstFetch (answers env) = NoRecord JobQueued \<Longrightarrow>
    fst (sourceWithdraw (answers env)) = ''withdrawn'' \<Longrightarrow> proved env i a f RefuseMove False"

lemma adopt_proved:
  assumes "adoptOrAmbiguous i a r = Settle s bound recheck" and "Fetched r \<in> {firstFetch (answers env), lateFetch (answers env)}" and "moving a = None"
  shows "proved env i a f s bound \<and> \<not> bound"
proof -
  obtain b where b: "binding a = Some b" using assms(1) by (auto simp: adoptOrAmbiguous_def split: option.splits)
  show ?thesis
  proof (cases "classifyRemoteResult r (expected_of i b)")
    case (Confirmed e g)
    then show ?thesis using assms(1) b proved.confirmed[OF b assms(2) Confirmed] by (auto simp: adoptOrAmbiguous_def)
  next
    case Unconfirmed
    then have "provesNeverStarted r (expected_of i b) \<and> s = Lose ''runner-never-started'' \<and> \<not> bound \<or>
        provesStopped r (expected_of i b) \<and> s = Lose RUNNER_SHUTDOWN_REASON \<and> \<not> bound"
      using assms(1) b by (auto simp: adoptOrAmbiguous_def split: if_splits)
    then show ?thesis using proved.never_started[OF b assms(3,2), of i f] proved.stopped[OF b assms(3,2), of i f] by auto
  qed
qed

lemma after_gone_proved:
  assumes "after_gone env i a = Settle s bound recheck" and "firstFetch (answers env) = NoRecord JobGone" and m: "moving a = None"
  shows "proved env i a f s bound"
proof (cases "lateFetch (answers env)")
  case (Fetched r)
  then have in_late: "Fetched r \<in> {firstFetch (answers env), lateFetch (answers env)}" by simp
  have c: "cancelConfirmed (answers env)" using assms(1) by (auto simp: after_gone_def Let_def split: if_splits)
  show ?thesis
  proof (cases "adoptOrAmbiguous i a r")
    case (Keep k)
    then have "s = Lose ''runner-lost'' \<and> \<not> bound" using assms(1) Fetched by (auto simp: after_gone_def Let_def split: if_splits)
    then show ?thesis using proved.gone[OF m assms(2) c] by simp
  next
    case (Settle s' b' r')
    then have "adoptOrAmbiguous i a r = Settle s bound recheck" using assms(1) Fetched by (auto simp: after_gone_def Let_def split: if_splits)
    then show ?thesis using adopt_proved[OF _ in_late m] by blast
  qed
qed (use assms in \<open>auto simp: after_gone_def Let_def split: if_splits intro: proved.gone\<close>)

lemma bound_proved:
  assumes "nullish (Option.bind since (publish_unreachable env)) (Keep k) = Settle s bound recheck"
    and "\<And>t. since = Some t \<Longrightarrow> readUnreachable f n = Some t" and "moving a = None"
  shows "proved env i a f s bound"
proof (cases since)
  case (Some t)
  then show ?thesis
    using assms(1) proved.silent[OF assms(3) _ assms(2)[OF Some]] by (auto simp: publish_unreachable_def split: if_splits)
qed (use assms(1) in simp)

lemma recordContact_clock: "fst (recordContact n False t f) = readUnreachable (snd (recordContact n False t f)) n"
  by (simp add: recordContact_def readUnreachable_def Let_def)

lemma ask_runner_proved:
  assumes "ask_runner env i a r f = (Settle s bound recheck, f')" and m: "moving a = None"
  shows "proved env i a f' s bound"
proof (cases "assumeDown env")
  case True
  then have "nullish (Option.bind (readUnreachable f (rnName r)) (publish_unreachable env)) (Keep KUnreachable) = Settle s bound recheck" "f' = f"
    using assms(1) by (auto simp: ask_runner_def)
  then show ?thesis using bound_proved[OF _ _ m] by metis
next
  case False
  then have b: "budget (answers env) 0" using assms(1) by (auto simp: ask_runner_def split: if_splits)
  show ?thesis
  proof (cases "firstFetch (answers env)")
    case NoAnswer
    obtain since f1 where rc: "recordContact (rnName r) False (nowAt env) f = (since, f1)" by fastforce
    then have "nullish (Option.bind since (publish_unreachable env)) (Keep KUnreachable) = Settle s bound recheck" "f' = f1"
      using assms(1) False b NoAnswer by (auto simp: ask_runner_def)
    then show ?thesis using bound_proved[OF _ _ m] recordContact_clock[of "rnName r" "nowAt env" f] rc by (metis fst_conv snd_conv)
  next
    case (NoRecord st)
    then have "after_gone env i a = Settle s bound recheck \<and> st = JobGone"
      using assms(1) False b by (auto simp: ask_runner_def split: job_state.splits)
    then show ?thesis using after_gone_proved m NoRecord by blast
  next
    case (Fetched rr)
    then have "adoptOrAmbiguous i a rr = Settle s bound recheck" using assms(1) False b by (auto simp: ask_runner_def)
    then show ?thesis using adopt_proved m Fetched by (metis insertI1)
  qed
qed

lemma held_by_destination_None: "held_by_destination t x = None \<longleftrightarrow> t \<and> x = NoRecord JobGone"
  by (auto simp: held_by_destination_def split: fetched.splits job_state.splits)

lemma ask_destination_settles:
  assumes "ask_destination env m = Settle s bound recheck"
  shows "s = Lose ''runner-never-started'' \<and> \<not> bound \<and> destFetch (answers env) = NoRecord JobGone \<and>
    destWithdraw (answers env) = (''no-such-ticket'', True) \<and> destFetchAfter (answers env) = NoRecord JobGone"
proof -
  have no: "held_by_destination t x = Some d \<Longrightarrow> \<exists>k. d = Keep k" for t x d
    by (auto simp: held_by_destination_def split: fetched.splits job_state.splits if_splits)
  show ?thesis using assms no held_by_destination_None
    by (fastforce simp: ask_destination_def Let_def split: if_splits option.splits)
qed

lemma stranded_proved:
  assumes "settleStrandedWithdraw env i a m f = (Settle s bound recheck, f')" and m: "moving a = Some m" and st: "isStrandedWithdrawingMove env a"
  shows "proved env i a f' s bound"
proof (cases "firstFetch (answers env)")
  case NoAnswer
  then show ?thesis using assms(1) by (auto simp: settleStrandedWithdraw_def split: option.splits if_splits)
next
  case (NoRecord j)
  then have "j = JobQueued \<and> mvRefuse m \<and> fst (sourceWithdraw (answers env)) = ''withdrawn'' \<and> s = RefuseMove \<and> \<not> bound"
    using assms(1) by (auto simp: settleStrandedWithdraw_def split: option.splits if_splits job_state.splits)
  then show ?thesis using proved.refused_withdrawn[OF m _ st] NoRecord by auto
next
  case (Fetched r)
  then have d: "source_record env i a m r = Settle s bound recheck"
    using assms(1) by (auto simp: settleStrandedWithdraw_def split: option.splits if_splits)
  then obtain b where b: "binding a = Some b" by (auto simp: source_record_def split: option.splits)
  show ?thesis
  proof (cases "classifyRemoteResult r (expected_of i b) \<noteq> Unconfirmed \<and> rrKind r = ''completed''")
    case True
    then obtain e g where "classifyRemoteResult r (expected_of i b) = Confirmed e g" by (cases "classifyRemoteResult r (expected_of i b)") auto
    moreover from this have "s = Adopt e \<and> \<not> bound" using d b True by (auto simp: source_record_def adoptOrAmbiguous_def)
    ultimately show ?thesis using proved.confirmed[OF b] Fetched by (metis insertI1)
  next
    case False
    then have p: "provesNeverStarted r (expected_of i b)" and
      rest: "if mvRefuse m then s = RefuseMove \<and> \<not> bound else ask_destination env m = Settle s bound recheck"
      using d b by (auto simp: source_record_def split: if_splits)
    show ?thesis
    proof (cases "mvRefuse m")
      case True
      then show ?thesis using rest proved.refused_record[OF b m True st Fetched p] by simp
    next
      case False
      then show ?thesis using ask_destination_settles[of env m s bound recheck] rest proved.moved_nowhere[OF b m st Fetched p] by simp
    qed
  qed
qed

lemma reconcile_proved:
  assumes "reconcile env ex i a f = (Settle s bound recheck, f')"
  shows "proved env i a f' s bound \<and> executor a = RemoteExec \<and> \<not> ex \<and> (supAlive env a \<longrightarrow> ownedBySelf env a)"
proof -
  have go: "executor a = RemoteExec" "supAlive env a \<longrightarrow> ownedBySelf env a" "\<not> ex"
    using assms by (auto simp: reconcile_def Let_def split: if_splits)
  have nb: "(executor a \<noteq> RemoteExec \<or> supAlive env a \<and> \<not> ownedBySelf env a) = False" using go by blast
  note body = assms[unfolded reconcile_def nb Let_def if_False]
  show ?thesis
  proof (cases "moving a")
    case (Some m)
    then have st: "\<not> selfMode env \<and> isStrandedWithdrawingMove env a" using body by (auto split: if_splits)
    then have "settleStrandedWithdraw env i a m f = (Settle s bound recheck, f')" using body Some go by simp
    then show ?thesis using stranded_proved[OF _ Some] st go by blast
  next
    case None
    show ?thesis
    proof (cases "neverDispatched a")
      case True
      then have "s = Lose ''never-dispatched'' \<and> \<not> bound" using body None go by (auto simp: isStrandedWithdrawingMove_def split: if_splits)
      then show ?thesis using proved.never_sent[OF True None] go by simp
    next
      case False
      have body': "(case nullish_opt (pinned env) (runner_named env (runner a)) of None \<Rightarrow> (Keep KUnreachable, f)
          | Some r \<Rightarrow> if configured_offline env a r then (Settle (Lose ''runner-offline'') False False, f) else ask_runner env i a r f) = (Settle s bound recheck, f')"
        using body None go False by (simp add: isStrandedWithdrawingMove_def)
      then obtain r where "nullish_opt (pinned env) (runner_named env (runner a)) = Some r"
        by (cases "nullish_opt (pinned env) (runner_named env (runner a))") auto
      with body' have "if configured_offline env a r then s = Lose ''runner-offline'' \<and> \<not> bound else ask_runner env i a r f = (Settle s bound recheck, f')"
        by (simp split: if_splits)
      then show ?thesis using proved.offline[OF _ None] ask_runner_proved[OF _ None] go by (auto split: if_splits)
    qed
  qed
qed

lemma publishSettled_settled:
  assumes "publishSettled env cancelled as i a d = (SettledAs s, as')"
  shows "\<exists>bound recheck cur. d = Settle s bound recheck \<and> \<not> cancelled \<and> as' = removeAttempt as i \<and> readAttempt as i = Some cur \<and>
    same_attempt env a recheck cur \<and> (selfMode env \<and> \<not> bound \<longrightarrow> (\<forall>w. s \<noteq> Lose w))"
  using assms
  by (auto simp: publishSettled_def publishTerminal_def split: decision.splits settle.splits if_splits option.splits bool.splits publish_outcome.splits prod.splits)


definition example_attempt :: attempt where
  "example_attempt = \<lparr>generation = 0, executor = RemoteExec, phase = RunningPhase, runner = Some ''w'', fallbackReason = None, rebinding = False,
     attemptBoot = None, attemptPid = 7, attemptStart = None, kernelBoot = None, attemptStarted = 0,
     binding = Some \<lparr>bProtocol = 2, bTicketId = None, bGeneration = 0, bManifestHash = ''m''\<rparr>, moving = None, dispatchedRunners = [''w'']\<rparr>"

definition example_recon :: recon_env where
  "example_recon = \<lparr>runnersOf = [\<lparr>rnName = ''w'', rnOffline = False, rnSchedule = None\<rparr>], runnerLostAfterMs = 7200000, nowAt = 1000, assumeDown = False,
     selfMode = False, pinned = None, ownPid = 1, supAlive = (\<lambda>_. False), kernelNow = None, procAlive = (\<lambda>_ _. False),
     answers = \<lparr>budget = (\<lambda>_. True), firstFetch = Fetched example_record, cancelConfirmed = False, lateFetch = NoAnswer, sourceWithdraw = ([], False),
       destFetch = NoAnswer, destWithdraw = ([], False), destFetchAfter = NoAnswer\<rparr>\<rparr>"

lemma example_reconciles:
  "reconcileRemoteAttempt example_recon example_recon False False [(''t'', example_attempt)] [(''t'', example_attempt)] ''t'' (empty_reach :: unit reach_file) =
   (SettledAs (Adopt 0), [], empty_reach)"
  by (simp add: reconcileRemoteAttempt_def readAttempt_def reconcile_def ask_runner_def adoptOrAmbiguous_def example_recon_def example_attempt_def ownedBySelf_def
      isStrandedWithdrawingMove_def neverDispatched_def runner_named_def configured_offline_def expected_of_def classifyRemoteResult_def classify_completed_def
      matchesTicket_def example_record_def PIPELINE_PHASES_def publishSettled_def publishTerminal_def same_attempt_def removeAttempt_def recordContact_def
      applyContact_def empty_reach_def Let_def)



definition example_world :: world where
  "example_world = \<lparr>wAttempts = [(''t'', example_attempt)], wCancelled = [], wResults = []\<rparr>"


end
