(* ===== verification/Placement.thy ===== *)
theory Placement
  imports Reach Config
begin

text \<open>
  Choosing a runner for a ticket (\<^verbatim>\<open>src/src/remote-client.js\<close>: \<^verbatim>\<open>selectRunner\<close> and its helpers; \<^verbatim>\<open>src/src/runner-readiness.js\<close>). What each runner's probe
  answers is an input. Reasons are kept as constructors, not texts.
\<close>

section \<open>Probes\<close>

record reservation =
  resWeight :: "jsnum option"
  resCpu :: "jsnum option"
  resMinCpu :: "jsnum option"
  resMemory :: "jsnum option"
  resNice :: "jsnum option"

record headroom =
  hrCpu :: "jsnum option"
  hrCpuUndiscounted :: "jsnum option"
  hrLaneNice :: "jsnum option"
  hrMemory :: "jsnum option"

record capacity_report =
  cpWeight :: "jsnum option"
  cpCpu :: "jsnum option"
  cpMemory :: "jsnum option"
  cpMemoryReserve :: "jsnum option"
  cpMemoryAdmissible :: "jsnum option"

text \<open>A probe payload; \<open>None\<close> is a field that is absent or not of its type. \<open>pbQueued\<close> is a number, \<open>pbTools\<close> and \<open>pbTags\<close> the names answered true.\<close>

record probe =
  pbProtocol1 :: bool
  pbProtocol2 :: bool
  pbCapabilities :: "string list"
  pbTools :: "string list option"
  pbTags :: "string list option"
  pbVersion :: "string option"
  pbZeroLength :: "string list"
  pbConfigError :: bool
  pbRemoteDrain :: bool
  pbDraining :: bool
  pbPaused :: bool
  pbQueued :: "jsnum option"
  pbCapacity :: "capacity_report option"
  pbReservedCpu :: "jsnum option"
  pbHeadroom :: "headroom option"
  pbUnenforced :: bool

datatype probe_answer = ProbeTimedOut | ProbeExited | ProbeMalformed | ProbeNull | Probed probe

section \<open>Readiness\<close>

text \<open>The three numbers of a version; a suffix is ignored.\<close>

definition digits_val :: "string \<Rightarrow> nat" where
  "digits_val s = foldl (\<lambda>n c. 10 * n + nat (digit_val c)) 0 s"

definition version_part :: "string \<Rightarrow> (nat \<times> string) option" where
  "version_part s = (if takeWhile is_digit s = [] then None else Some (digits_val (takeWhile is_digit s), dropWhile is_digit s))"

definition version_dot :: "string \<Rightarrow> string option" where
  "version_dot s = (case s of c # cs \<Rightarrow> if c = CHR ''.'' then Some cs else None | [] \<Rightarrow> None)"

definition parseVersion :: "string \<Rightarrow> (nat \<times> nat \<times> nat) option" where
  "parseVersion s =
     Option.bind (version_part s) (\<lambda>(a, s1). Option.bind (Option.bind (version_dot s1) version_part) (\<lambda>(b, s2).
       Option.bind (Option.bind (version_dot s2) version_part) (\<lambda>(c, _). Some (a, b, c))))"

definition version_less :: "nat \<times> nat \<times> nat \<Rightarrow> nat \<times> nat \<times> nat \<Rightarrow> bool" where
  "version_less x y = (case (x, y) of ((a, b, c), (a', b', c')) \<Rightarrow> if a \<noteq> a' then a < a' else if b \<noteq> b' then b < b' else c < c')"

text \<open>The floor was validated, so it parses.\<close>

definition isBelow :: "string option \<Rightarrow> string \<Rightarrow> bool" where
  "isBelow version floor' =
     (case Option.bind version parseVersion of
        None \<Rightarrow> True
      | Some v \<Rightarrow> (case parseVersion floor' of Some f \<Rightarrow> version_less v f | None \<Rightarrow> False))"

record needs =
  needTools :: "string list"
  needTags :: "string list"
  needVersion :: "string option"

definition readinessNeeds :: "string list \<Rightarrow> string list \<Rightarrow> string option \<Rightarrow> needs" where
  "readinessNeeds tools tags floor' =
     \<lparr>needTools = rev (remdups (rev tools)), needTags = rev (remdups (rev tags)), needVersion = floor'\<rparr>"

datatype gap_check = ToolsGap | TagsGap | VersionGap | IntegrityGap

definition names_gap :: "gap_check \<Rightarrow> string list option \<Rightarrow> string list \<Rightarrow> (gap_check \<times> string list) option" where
  "names_gap k answered names =
     (if names = [] then None
      else case answered of
             None \<Rightarrow> Some (k, names)
           | Some have \<Rightarrow> (let missing = filter (\<lambda>n. n \<notin> set have) names in if missing = [] then None else Some (k, missing)))"

definition version_gap :: "string option \<Rightarrow> string option \<Rightarrow> (gap_check \<times> string list) option" where
  "version_gap version floor' =
     (case floor' of Some fl \<Rightarrow> if fl \<noteq> [] \<and> isBelow version fl then Some (VersionGap, [''lane-broker>='' @ fl]) else None | None \<Rightarrow> None)"

definition integrity_gap :: "string list \<Rightarrow> (gap_check \<times> string list) option" where
  "integrity_gap zs = (if zs = [] then None else Some (IntegrityGap, zs))"

definition readinessGap :: "probe \<Rightarrow> needs \<Rightarrow> (gap_check \<times> string list) option" where
  "readinessGap p nd =
     nullish_opt (names_gap ToolsGap (pbTools p) (needTools nd))
       (nullish_opt (names_gap TagsGap (pbTags p) (needTags nd)) (nullish_opt (version_gap (pbVersion p) (needVersion nd)) (integrity_gap (pbZeroLength p))))"

text \<open>The runner's answer to the names it was asked for.\<close>

definition report_names :: "(string \<Rightarrow> bool) \<Rightarrow> string list \<Rightarrow> string list" where
  "report_names has names = filter has (filter EXECUTABLE_NAME_RE names)"

section \<open>Room\<close>

definition ELASTIC_CLAIMS_CAPABILITY :: string where "ELASTIC_CLAIMS_CAPABILITY = ''elastic-claims/1''"

definition cpuNeedOf :: "reservation \<Rightarrow> probe \<Rightarrow> jsnum option" where
  "cpuNeedOf r p = (if ELASTIC_CLAIMS_CAPABILITY \<in> set (pbCapabilities p) \<and> resMinCpu r \<noteq> None then resMinCpu r else resCpu r)"

text \<open>A comparison of two numbers that is false when one of them is missing.\<close>

definition exceeds :: "jsnum option \<Rightarrow> jsnum option \<Rightarrow> bool" where
  "exceeds a b = (case (a, b) of (Some x, Some y) \<Rightarrow> x > y | _ \<Rightarrow> False)"

definition measured_cpu :: "reservation \<Rightarrow> probe \<Rightarrow> jsnum option" where
  "measured_cpu r p =
     (case pbHeadroom p of
        None \<Rightarrow> None
      | Some h \<Rightarrow>
          if hrCpu h = None then None
          else if hrCpuUndiscounted h \<noteq> None \<and> ((case resNice r of Some n \<Rightarrow> is_integer n | None \<Rightarrow> False) \<and> exceeds (resNice r) (hrLaneNice h) \<or> pbUnenforced p)
          then hrCpuUndiscounted h else hrCpu h)"

definition cpu_free :: "reservation \<Rightarrow> probe \<Rightarrow> jsnum option" where
  "cpu_free r p =
     (case measured_cpu r p of
        Some x \<Rightarrow> Some x
      | None \<Rightarrow> (case (Option.bind (pbCapacity p) cpCpu, pbReservedCpu p) of (Some c, Some used) \<Rightarrow> Some (max 0 (c - used)) | _ \<Rightarrow> None))"

definition runnerRoom :: "reservation \<Rightarrow> probe \<Rightarrow> bool \<times> jsnum option" where
  "runnerRoom r p =
     (\<not> exceeds (cpuNeedOf r p) (cpu_free r p) \<and> \<not> exceeds (resMemory r) (Option.bind (pbHeadroom p) hrMemory), cpu_free r p)"

definition neverFits :: "reservation \<Rightarrow> probe \<Rightarrow> bool" where
  "neverFits r p =
     (case pbCapacity p of
        None \<Rightarrow> False
      | Some c \<Rightarrow>
          exceeds (resWeight r) (cpWeight c) \<or> exceeds (cpuNeedOf r p) (cpCpu c) \<or>
          exceeds (case (resMemory r, cpMemoryReserve c) of (Some m, Some k) \<Rightarrow> Some (m + k) | _ \<Rightarrow> None) (cpMemory c) \<or>
          exceeds (resMemory r) (cpMemoryAdmissible c))"

definition estimatedFinish :: "reservation option \<Rightarrow> probe \<Rightarrow> jsnum option \<Rightarrow> jsnum" where
  "estimatedFinish r p speedFactor =
     (let work = (case Option.bind r resCpu of Some c \<Rightarrow> if c > 0 then c else 1 | None \<Rightarrow> 1);
          queued = (case pbQueued p of Some q \<Rightarrow> if is_integer q \<and> q > 0 then q else 0 | None \<Rightarrow> 0);
          speed = (case speedFactor of Some s \<Rightarrow> if s > 0 then s else 1 | None \<Rightarrow> 1)
      in (queued + 1) * work / speed)"

section \<open>Selection\<close>

record runner_entry = runner_cfg +
  rnSpeed :: "jsnum option"

record select_opts =
  soRequire2 :: bool
  soCapabilities :: "string list"
  soNeeds :: needs
  soReservation :: "reservation option"
  soMaxQueue :: jsnum
  soBusyQueue :: bool
  soDown :: "string list"
  soNow :: int
  soExpectedRunMs :: "jsnum option"

record candidate =
  cRunner :: string
  cFinish :: jsnum
  cFree :: jsnum
  cQueued :: jsnum

datatype skip_reason =
  MarkedOffline | DownRunner | OutsideSchedule | WindowCloses | TimedOutProbe | BadExit | Malformed | BadProtocol | NoProtocol2 | NoCapability | NotReady gap_check "string list" |
  ConfigUnreadable | DrainingRemote | Draining | PausedRunner | QueuedThere | NeverFits | NoRoom

text \<open>What one runner amounts to: skipped, usable now, usable only by queueing there, or short of room; \<open>Crash\<close> is reading a field of a null probe.\<close>

datatype judgement = Skip skip_reason | IdleCand candidate | QueueCand candidate | BusyCand candidate | Crash

definition unprobed :: "(string \<Rightarrow> int \<Rightarrow> int) \<Rightarrow> select_opts \<Rightarrow> runner_entry \<Rightarrow> skip_reason option" where
  "unprobed tz o' r =
     (if rnOffline r then Some MarkedOffline
      else if rnName r \<in> set (soDown o') then Some DownRunner
      else (case runnerAvailability tz (rnSchedule r) (soNow o') of
              (available', closes) \<Rightarrow>
                if \<not> available' then Some OutsideSchedule
                else (case (closes, soExpectedRunMs o') of
                        (Some c, Some ms) \<Rightarrow> if of_int (soNow o') + ms > of_int c then Some WindowCloses else None
                      | _ \<Rightarrow> None)))"

definition probe_problem :: "select_opts \<Rightarrow> probe \<Rightarrow> skip_reason option" where
  "probe_problem o' p =
     (if \<not> pbProtocol1 p then Some BadProtocol
      else if soRequire2 o' \<and> \<not> pbProtocol2 p then Some NoProtocol2
      else if \<not> set (soCapabilities o') \<subseteq> set (pbCapabilities p) then Some NoCapability
      else case readinessGap p (soNeeds o') of
             Some (k, missing) \<Rightarrow> Some (NotReady k missing)
           | None \<Rightarrow>
               if pbConfigError p then Some ConfigUnreadable
               else if pbRemoteDrain p then Some DrainingRemote
               else if pbDraining p then Some Draining
               else if pbPaused p then Some PausedRunner else None)"

definition cand_of :: "select_opts \<Rightarrow> runner_entry \<Rightarrow> probe \<Rightarrow> jsnum \<Rightarrow> candidate" where
  "cand_of o' r p free = \<lparr>cRunner = rnName r, cFinish = estimatedFinish (soReservation o') p (rnSpeed r), cFree = free, cQueued = nullish (pbQueued p) 0\<rparr>"

definition never_fits :: "select_opts \<Rightarrow> probe \<Rightarrow> bool" where
  "never_fits o' p = (case soReservation o' of Some res \<Rightarrow> neverFits res p | None \<Rightarrow> False)"

definition judge_probe :: "select_opts \<Rightarrow> runner_entry \<Rightarrow> probe \<Rightarrow> judgement" where
  "judge_probe o' r p =
     (case probe_problem o' p of
        Some why \<Rightarrow> Skip why
      | None \<Rightarrow>
          if pbQueued p \<noteq> Some 0
          then (if \<not> never_fits o' p \<and> (case pbQueued p of Some q \<Rightarrow> is_integer q \<and> q > 0 \<and> q \<le> soMaxQueue o' | None \<Rightarrow> False)
                then QueueCand (cand_of o' r p 0) else Skip QueuedThere)
          else if never_fits o' p then Skip NeverFits
          else (case (case soReservation o' of Some res \<Rightarrow> runnerRoom res p | None \<Rightarrow> (True, Some 0)) of
                  (room, free) \<Rightarrow> if room then IdleCand (cand_of o' r p (nullish free 0)) else BusyCand (cand_of o' r p (nullish free 0))))"

definition judge_runner :: "(string \<Rightarrow> int \<Rightarrow> int) \<Rightarrow> select_opts \<Rightarrow> runner_entry \<times> probe_answer \<Rightarrow> judgement" where
  "judge_runner tz o' ra =
     (case unprobed tz o' (fst ra) of
        Some why \<Rightarrow> Skip why
      | None \<Rightarrow>
          (case snd ra of
             ProbeTimedOut \<Rightarrow> Skip TimedOutProbe
           | ProbeExited \<Rightarrow> Skip BadExit
           | ProbeMalformed \<Rightarrow> Skip Malformed
           | ProbeNull \<Rightarrow> Crash
           | Probed p \<Rightarrow> judge_probe o' (fst ra) p))"

definition better :: "candidate \<Rightarrow> candidate option \<Rightarrow> bool" where
  "better c best = (case best of None \<Rightarrow> True | Some b \<Rightarrow> cFinish c < cFinish b \<or> cFinish c = cFinish b \<and> cFree c > cFree b)"

definition fewerQueued :: "candidate \<Rightarrow> candidate option \<Rightarrow> bool" where
  "fewerQueued c best = (case best of None \<Rightarrow> True | Some b \<Rightarrow> cQueued c < cQueued b \<or> cQueued c = cQueued b \<and> better c best)"

record bests =
  idleBest :: "candidate option"
  queuedBest :: "candidate option"
  busyBest :: "candidate option"

definition keep_best :: "(candidate \<Rightarrow> candidate option \<Rightarrow> bool) \<Rightarrow> candidate \<Rightarrow> candidate option \<Rightarrow> candidate option" where
  "keep_best cmp c best = (if cmp c best then Some c else best)"

definition take_judgement :: "select_opts \<Rightarrow> bests \<Rightarrow> judgement \<Rightarrow> bests" where
  "take_judgement o' b j =
     (case j of
        IdleCand c \<Rightarrow> b\<lparr>idleBest := keep_best better c (idleBest b)\<rparr>
      | QueueCand c \<Rightarrow> b\<lparr>queuedBest := keep_best fewerQueued c (queuedBest b)\<rparr>
      | BusyCand c \<Rightarrow>
          b\<lparr>busyBest := keep_best better c (busyBest b),
            queuedBest := (if soBusyQueue o' \<and> soMaxQueue o' > 0 then keep_best fewerQueued c (queuedBest b) else queuedBest b)\<rparr>
      | _ \<Rightarrow> b)"

datatype selection = ChosenIdle string | ChosenQueued string | NoneBusy string | NoneAtAll

definition skip_of :: "string \<times> judgement \<Rightarrow> (string \<times> skip_reason) option" where
  "skip_of nj =
     (case snd nj of Skip why \<Rightarrow> Some (fst nj, why) | QueueCand _ \<Rightarrow> Some (fst nj, QueuedThere) | BusyCand _ \<Rightarrow> Some (fst nj, NoRoom) | _ \<Rightarrow> None)"

definition gap_of :: "string \<times> judgement \<Rightarrow> (string \<times> gap_check \<times> string list) option" where
  "gap_of nj = (case snd nj of Skip (NotReady k missing) \<Rightarrow> Some (fst nj, k, missing) | _ \<Rightarrow> None)"

definition met_needs :: "judgement \<Rightarrow> bool" where
  "met_needs j =
     (case j of
        Skip why \<Rightarrow> why = ConfigUnreadable \<or> why = DrainingRemote \<or> why = Draining \<or> why = PausedRunner \<or> why = QueuedThere \<or> why = NeverFits
      | Crash \<Rightarrow> False
      | _ \<Rightarrow> True)"

record select_result =
  selChoice :: selection
  selSkipped :: "(string \<times> skip_reason) list"
  selReady :: "string list"
  selReadiness :: "(string \<times> gap_check \<times> string list) list"

definition no_bests :: bests where
  "no_bests = \<lparr>idleBest = None, queuedBest = None, busyBest = None\<rparr>"

definition choice_of :: "bests \<Rightarrow> selection" where
  "choice_of b =
     (case idleBest b of
        Some c \<Rightarrow> ChosenIdle (cRunner c)
      | None \<Rightarrow> (case queuedBest b of
                  Some c \<Rightarrow> ChosenQueued (cRunner c)
                | None \<Rightarrow> (case busyBest b of Some c \<Rightarrow> NoneBusy (cRunner c) | None \<Rightarrow> NoneAtAll)))"

definition selectRunner :: "(string \<Rightarrow> int \<Rightarrow> int) \<Rightarrow> select_opts \<Rightarrow> (runner_entry \<times> probe_answer) list \<Rightarrow> select_result option" where
  "selectRunner tz o' rs =
     (let js = map (judge_runner tz o') rs;
          named = zip (map (\<lambda>ra. rnName (fst ra)) rs) js
      in if Crash \<in> set js then None
         else Some \<lparr>selChoice = choice_of (foldl (take_judgement o') no_bests js),
                    selSkipped = List.map_filter skip_of named,
                    selReady = map fst (filter (\<lambda>nj. met_needs (snd nj)) named),
                    selReadiness = List.map_filter gap_of named\<rparr>)"

section \<open>Keeping the best candidate\<close>

text \<open>A comparison that prefers anything to nothing and orders candidates as a strict weak order; the first of the equally good is kept.\<close>

locale ranking =
  fixes cmp :: "'c \<Rightarrow> 'c option \<Rightarrow> bool"
  assumes first_kept: "cmp c None"
    and asym: "cmp c (Some d) \<Longrightarrow> \<not> cmp d (Some c)"
    and not_trans: "\<not> cmp c (Some d) \<Longrightarrow> \<not> cmp d (Some e) \<Longrightarrow> \<not> cmp c (Some e)"
begin

definition keep :: "'c option \<Rightarrow> 'c option \<Rightarrow> 'c option" where
  "keep best x = (case x of Some c \<Rightarrow> if cmp c best then Some c else best | None \<Rightarrow> best)"

lemma keep_simps [simp]: "keep best None = best" "keep best (Some c) = (if cmp c best then Some c else best)"
  by (simp_all add: keep_def)

definition first_best :: "'c option list \<Rightarrow> 'c \<Rightarrow> nat \<Rightarrow> bool" where
  "first_best xs b i \<longleftrightarrow>
     i < length xs \<and> xs ! i = Some b \<and> (\<forall>k d. k < length xs \<and> xs ! k = Some d \<longrightarrow> \<not> cmp d (Some b) \<and> (k < i \<longrightarrow> cmp b (Some d)))"

lemma better_than_best:
  assumes "cmp c (Some b)" "\<not> cmp d (Some b)"
  shows "cmp c (Some d)"
  using assms asym not_trans by blast

lemma irrefl: "\<not> cmp c (Some c)"
  using asym by blast

lemma first_best_snoc_keep:
  assumes "first_best xs b i" "\<forall>c. x = Some c \<longrightarrow> \<not> cmp c (Some b)"
  shows "first_best (xs @ [x]) b i"
  using assms unfolding first_best_def by (auto simp: nth_append less_Suc_eq)

lemma first_best_snoc_take:
  assumes "\<forall>k d. k < length xs \<and> xs ! k = Some d \<longrightarrow> cmp c (Some d)"
  shows "first_best (xs @ [Some c]) c (length xs)"
  using assms asym irrefl unfolding first_best_def by (auto simp: nth_append less_Suc_eq)

lemma keep_first_best:
  "case foldl keep None xs of None \<Rightarrow> (\<forall>x \<in> set xs. x = None) | Some b \<Rightarrow> (\<exists>i. first_best xs b i)"
proof (induction xs rule: rev_induct)
  case Nil
  then show ?case by simp
next
  case (snoc x xs)
  show ?case
  proof (cases "foldl keep None xs")
    case None
    with snoc have none: "\<forall>y \<in> set xs. y = None" by simp
    have "first_best (xs @ [Some c]) c (length xs)" for c
      using none nth_mem by (intro first_best_snoc_take) force
    with None none show ?thesis by (cases x) (auto simp: first_kept)
  next
    case (Some b)
    with snoc obtain i where i: "first_best xs b i" by auto
    have "first_best (xs @ [Some c]) c (length xs)" if "cmp c (Some b)" for c
      proof (rule first_best_snoc_take)
      show "\<forall>k d. k < length xs \<and> xs ! k = Some d \<longrightarrow> cmp c (Some d)"
        using that i better_than_best unfolding first_best_def by blast
    qed
    with Some i first_best_snoc_keep[OF i] show ?thesis
      by (cases x) auto
  qed
qed

end

interpretation fin: ranking better
  by unfold_locales (auto simp: better_def)

interpretation que: ranking fewerQueued
  by unfold_locales (auto simp: fewerQueued_def better_def)

definition idle_of :: "judgement \<Rightarrow> candidate option" where
  "idle_of j = (case j of IdleCand c \<Rightarrow> Some c | _ \<Rightarrow> None)"

definition queue_of :: "select_opts \<Rightarrow> judgement \<Rightarrow> candidate option" where
  "queue_of o' j = (case j of QueueCand c \<Rightarrow> Some c | BusyCand c \<Rightarrow> if soBusyQueue o' \<and> soMaxQueue o' > 0 then Some c else None | _ \<Rightarrow> None)"

lemma take_judgement_idle: "idleBest (take_judgement o' b j) = fin.keep (idleBest b) (idle_of j)"
  by (simp add: take_judgement_def fin.keep_def idle_of_def keep_best_def split: judgement.split)

lemma take_judgement_queue: "queuedBest (take_judgement o' b j) = que.keep (queuedBest b) (queue_of o' j)"
  by (cases j) (auto simp: take_judgement_def queue_of_def keep_best_def)

lemma bests_idle: "idleBest (foldl (take_judgement o') b js) = foldl fin.keep (idleBest b) (map idle_of js)"
  by (induction js arbitrary: b) (simp_all add: take_judgement_idle)

lemma bests_queue: "queuedBest (foldl (take_judgement o') b js) = foldl que.keep (queuedBest b) (map (queue_of o') js)"
  by (induction js arbitrary: b) (simp_all add: take_judgement_queue)

section \<open>What is chosen\<close>

lemma idle_of_judge:
  assumes "idle_of (judge_runner tz o' ra) = Some c"
  shows "\<exists>p. snd ra = Probed p \<and> unprobed tz o' (fst ra) = None \<and> probe_problem o' p = None \<and> pbQueued p = Some 0 \<and> \<not> never_fits o' p \<and>
    (case soReservation o' of Some res \<Rightarrow> fst (runnerRoom res p) | None \<Rightarrow> True) \<and>
    c = cand_of o' (fst ra) p (case soReservation o' of Some res \<Rightarrow> nullish (snd (runnerRoom res p)) 0 | None \<Rightarrow> 0)"
  using assms
  by (auto simp: idle_of_def judge_runner_def judge_probe_def split: option.splits probe_answer.splits if_splits prod.splits)

lemma crash_iff:
  "judge_runner tz o' ra = Crash \<longleftrightarrow> unprobed tz o' (fst ra) = None \<and> snd ra = ProbeNull"
  by (auto simp: judge_runner_def judge_probe_def split: option.splits probe_answer.splits prod.splits)

text \<open>What the runners beside the chosen one must not be: an idle candidate that finishes earlier, or as early with more free CPU, or an equal one listed before it.\<close>

definition not_beaten :: "candidate \<Rightarrow> nat \<Rightarrow> candidate \<Rightarrow> nat \<Rightarrow> bool" where
  "not_beaten c i d k \<longleftrightarrow>
     cFinish c < cFinish d \<or> cFinish c = cFinish d \<and> (cFree c > cFree d \<or> cFree c = cFree d \<and> i \<le> k)"

definition not_beaten_queue :: "candidate \<Rightarrow> nat \<Rightarrow> candidate \<Rightarrow> nat \<Rightarrow> bool" where
  "not_beaten_queue c i d k \<longleftrightarrow> cQueued c < cQueued d \<or> cQueued c = cQueued d \<and> not_beaten c i d k"

lemma fin_not_beaten:
  "fin.first_best (map idle_of js) c i \<Longrightarrow> k < length js \<Longrightarrow> idle_of (js ! k) = Some d \<Longrightarrow> not_beaten c i d k"
  unfolding fin.first_best_def not_beaten_def better_def by (force simp: not_less)

lemma que_not_beaten:
  "que.first_best (map (queue_of o') js) c i \<Longrightarrow> k < length js \<Longrightarrow> queue_of o' (js ! k) = Some d \<Longrightarrow> not_beaten_queue c i d k"
  unfolding que.first_best_def not_beaten_queue_def not_beaten_def fewerQueued_def better_def by (force simp: not_less)

lemma idle_best_cases:
  assumes "selectRunner tz o' rs = Some r"
  shows "(\<exists>c i. selChoice r = ChosenIdle (cRunner c) \<and> fin.first_best (map (\<lambda>ra. idle_of (judge_runner tz o' ra)) rs) c i) \<or>
         (\<forall>n. selChoice r \<noteq> ChosenIdle n) \<and> (\<forall>ra \<in> set rs. idle_of (judge_runner tz o' ra) = None)"
proof -
  have r: "selChoice r = choice_of (foldl (take_judgement o') no_bests (map (judge_runner tz o') rs))"
    using assms by (auto simp: selectRunner_def Let_def split: if_splits)
  have ib: "idleBest (foldl (take_judgement o') no_bests (map (judge_runner tz o') rs)) = foldl fin.keep None (map (\<lambda>ra. idle_of (judge_runner tz o' ra)) rs)"
    by (simp add: bests_idle no_bests_def comp_def)
  note best = fin.keep_first_best[of "map (\<lambda>ra. idle_of (judge_runner tz o' ra)) rs"]
  show ?thesis
    using best r ib by (auto simp: choice_of_def split: option.splits)
qed

text \<open>C25. The idle runner \<^verbatim>\<open>selectRunner\<close> returns was available and answered its probe, met every check (protocol, capabilities, readiness, drains,
  pause), has an empty queue, can statically fit the ticket and has room for it now; and no other idle candidate finishes earlier, or as early with more free CPU,
  or ties with it from an earlier place in the configuration.\<close>

theorem chosen_runner_is_best:
  assumes "selectRunner tz o' rs = Some r" "selChoice r = ChosenIdle n"
  shows "\<exists>i p c. i < length rs \<and> rnName (fst (rs ! i)) = n \<and> snd (rs ! i) = Probed p \<and> unprobed tz o' (fst (rs ! i)) = None \<and>
     probe_problem o' p = None \<and> pbQueued p = Some 0 \<and> \<not> never_fits o' p \<and>
     (case soReservation o' of Some res \<Rightarrow> fst (runnerRoom res p) | None \<Rightarrow> True) \<and> judge_runner tz o' (rs ! i) = IdleCand c \<and>
     (\<forall>k d. k < length rs \<and> judge_runner tz o' (rs ! k) = IdleCand d \<longrightarrow> not_beaten c i d k)"
proof -
  from idle_best_cases[OF assms(1)] assms(2) obtain c i where n: "n = cRunner c"
    and fb: "fin.first_best (map (\<lambda>ra. idle_of (judge_runner tz o' ra)) rs) c i" by auto
  then have i: "i < length rs" "idle_of (judge_runner tz o' (rs ! i)) = Some c"
    by (auto simp: fin.first_best_def)
  have nb: "not_beaten c i d k" if "k < length rs" "judge_runner tz o' (rs ! k) = IdleCand d" for k d
    using fin_not_beaten[of "map (judge_runner tz o') rs" c i k d] fb that by (simp add: comp_def idle_of_def)
  have j: "judge_runner tz o' (rs ! i) = IdleCand c"
    using i(2) by (auto simp: idle_of_def split: judgement.splits)
  show ?thesis
    using idle_of_judge[OF i(2)] i(1) j nb n by (auto simp: cand_of_def)
qed

text \<open>Selection is complete: when it returns, it returns an idle runner exactly when some configured runner is an idle candidate; and it fails to return,
  throwing away every other runner's answer with it, exactly when one probed runner answers the JSON text \<^verbatim>\<open>null\<close>.\<close>

theorem selection_complete:
  "(selectRunner tz o' rs = None \<longleftrightarrow> (\<exists>ra \<in> set rs. unprobed tz o' (fst ra) = None \<and> snd ra = ProbeNull)) \<and>
   (case selectRunner tz o' rs of
      None \<Rightarrow> True
    | Some r \<Rightarrow> (\<exists>n. selChoice r = ChosenIdle n) = (\<exists>ra \<in> set rs. \<exists>c. judge_runner tz o' ra = IdleCand c))"
proof (rule conjI)
  show "selectRunner tz o' rs = None \<longleftrightarrow> (\<exists>ra \<in> set rs. unprobed tz o' (fst ra) = None \<and> snd ra = ProbeNull)"
    unfolding crash_iff[symmetric] by (simp add: selectRunner_def Let_def image_iff) metis
  show "case selectRunner tz o' rs of None \<Rightarrow> True
    | Some r \<Rightarrow> (\<exists>n. selChoice r = ChosenIdle n) = (\<exists>ra \<in> set rs. \<exists>c. judge_runner tz o' ra = IdleCand c)"
  proof (cases "selectRunner tz o' rs")
    case (Some r)
    have "idle_of j \<noteq> None \<longleftrightarrow> (\<exists>c. j = IdleCand c)" for j
      by (auto simp: idle_of_def split: judgement.splits)
    then have cand: "(\<exists>ra \<in> set rs. \<exists>c. judge_runner tz o' ra = IdleCand c) \<longleftrightarrow> (\<exists>ra \<in> set rs. idle_of (judge_runner tz o' ra) \<noteq> None)"
      by metis
    have listed: "\<exists>ra \<in> set rs. idle_of (judge_runner tz o' ra) \<noteq> None" if "fin.first_best (map (\<lambda>ra. idle_of (judge_runner tz o' ra)) rs) c i" for c i
      using that nth_mem by (force simp: fin.first_best_def)
    show ?thesis
      unfolding Some option.case cand using idle_best_cases[OF Some]
    proof (elim disjE exE conjE)
      show "(\<exists>n. selChoice r = ChosenIdle n) = (\<exists>ra \<in> set rs. idle_of (judge_runner tz o' ra) \<noteq> None)"
        if "selChoice r = ChosenIdle (cRunner c)" "fin.first_best (map (\<lambda>ra. idle_of (judge_runner tz o' ra)) rs) c i" for c i
        using that(1) listed[OF that(2)] by simp
    qed simp
  qed simp
qed

definition example_probe :: probe where
  "example_probe =
     \<lparr>pbProtocol1 = True, pbProtocol2 = True, pbCapabilities = [''elastic-claims/1''], pbTools = Some [''git''], pbTags = None, pbVersion = Some ''0.50.1'',
      pbZeroLength = [], pbConfigError = False, pbRemoteDrain = False, pbDraining = False, pbPaused = False, pbQueued = Some 0,
      pbCapacity = Some \<lparr>cpWeight = Some 8, cpCpu = Some 8, cpMemory = None, cpMemoryReserve = None, cpMemoryAdmissible = None\<rparr>,
      pbReservedCpu = Some 2, pbHeadroom = None, pbUnenforced = False\<rparr>"

definition example_runner :: "string \<Rightarrow> jsnum option \<Rightarrow> runner_entry" where
  "example_runner n speed = \<lparr>rnName = n, rnOffline = False, rnSchedule = None, rnSpeed = speed\<rparr>"

definition example_select :: select_opts where
  "example_select =
     \<lparr>soRequire2 = True, soCapabilities = [], soNeeds = readinessNeeds [''git''] [] (Some ''0.50.0''),
      soReservation = Some \<lparr>resWeight = Some 1, resCpu = Some 4, resMinCpu = None, resMemory = None, resNice = None\<rparr>,
      soMaxQueue = 2, soBusyQueue = False, soDown = [''down''], soNow = 0, soExpectedRunMs = None\<rparr>"

definition example_answers :: "(runner_entry \<times> probe_answer) list" where
  "example_answers =
     [(example_runner ''down'' None, ProbeNull), (example_runner ''slow'' None, Probed example_probe),
      (example_runner ''fast'' (Some 2), Probed example_probe),
      (example_runner ''full'' (Some 4), Probed (example_probe\<lparr>pbReservedCpu := Some 7\<rparr>))]"

lemma example_selection:
  "selectRunner (\<lambda>_ _. 0) example_select example_answers =
     Some \<lparr>selChoice = ChosenIdle ''fast'', selSkipped = [(''down'', DownRunner), (''full'', NoRoom)], selReady = [''slow'', ''fast'', ''full''], selReadiness = []\<rparr>"
  by code_simp

theorem chosen_runner_is_best_witness:
  "\<exists>i p c. i < length example_answers \<and> rnName (fst (example_answers ! i)) = ''fast'' \<and> snd (example_answers ! i) = Probed p \<and>
     judge_runner (\<lambda>_ _. 0) example_select (example_answers ! i) = IdleCand c \<and> not_beaten c i (cand_of example_select (example_runner ''slow'' None) example_probe 6) 1"
proof -
  have slow: "judge_runner (\<lambda>_ _. 0) example_select (example_answers ! 1) = IdleCand (cand_of example_select (example_runner ''slow'' None) example_probe 6)"
    by code_simp
  have len: "length example_answers = 4"
    by (simp add: example_answers_def)
  obtain i p c where i: "i < length example_answers" "rnName (fst (example_answers ! i)) = ''fast''" "snd (example_answers ! i) = Probed p"
    "judge_runner (\<lambda>_ _. 0) example_select (example_answers ! i) = IdleCand c"
    "\<forall>k d. k < length example_answers \<and> judge_runner (\<lambda>_ _. 0) example_select (example_answers ! k) = IdleCand d \<longrightarrow> not_beaten c i d k"
    using chosen_runner_is_best[OF example_selection] by (auto simp: select_result.simps)
  from i(5) slow len have "not_beaten c i (cand_of example_select (example_runner ''slow'' None) example_probe 6) 1"
    by simp
  with i(1-4) show ?thesis by blast
qed

theorem selection_complete_witness:
  "selectRunner (\<lambda>_ _. 0) (example_select\<lparr>soDown := []\<rparr>) example_answers = None"
  using selection_complete[of "\<lambda>_ _. 0" "example_select\<lparr>soDown := []\<rparr>" example_answers]
  by (simp add: example_answers_def unprobed_def example_runner_def example_select_def runnerAvailability_def)

end
