(* ===== verification/Watchdog.thy ===== *)
theory Watchdog
  imports Prelude "HOL-Library.AList"
begin

text \<open>
  The no-progress and silence watchdogs of a running lease (\<^verbatim>\<open>src/src/no-progress.js\<close>). The monotonic clock, the process table and the tree's
  process ids are inputs of each call; cumulative CPU times are exact rationals. The kill messages are left out.
\<close>

section \<open>Model\<close>

definition NO_PROGRESS_CPU_SECONDS_PER_MINUTE :: jsnum where "NO_PROGRESS_CPU_SECONDS_PER_MINUTE = 5 / 100"

record cpu_row =
  crPid :: int
  crToken :: string
  crCpuSec :: jsnum
  crChildCpuSec :: "jsnum option"

type_synonym cpu_map = "((int \<times> string) \<times> jsnum) list"

definition identity :: "cpu_row \<Rightarrow> int \<times> string" where
  "identity r = (crPid r, crToken r)"

definition cpuOf :: "cpu_row \<Rightarrow> jsnum" where
  "cpuOf r = crCpuSec r + nullish (crChildCpuSec r) 0"

record baseline =
  blAt :: jsnum
  blOutput :: nat
  blCpu :: cpu_map

datatype cores = Cores jsnum | InfiniteCores

fun cpu_delta :: "cpu_map \<Rightarrow> cpu_map \<Rightarrow> jsnum option" where
  "cpu_delta prev [] = Some 0"
| "cpu_delta prev ((k, c) # cur) =
     (case map_of prev k of
        None \<Rightarrow> None
      | Some before \<Rightarrow> map_option (\<lambda>d. max 0 (c - before) + d) (cpu_delta prev cur))"

definition intervalCores :: "baseline \<Rightarrow> cpu_map \<Rightarrow> jsnum \<Rightarrow> cores option" where
  "intervalCores prev cur now =
     (let seconds = (now - blAt prev) / 1000
      in if length (blCpu prev) \<noteq> length cur then None
         else case cpu_delta (blCpu prev) cur of
                None \<Rightarrow> None
              | Some delta \<Rightarrow> Some (if seconds > 0 then Cores (delta / seconds) else if delta > 0 then InfiniteCores else Cores 0))"

record watchdog =
  wdTimeoutMs :: jsnum
  wdSilenceTimeoutMs :: jsnum
  wdOutputBytes :: nat
  wdBaseline :: "baseline option"
  wdIdleSince :: "jsnum option"
  wdMaxIdleMs :: jsnum
  wdLastOutputMono :: "jsnum option"
  wdLastOutputAt :: "jsnum option"
  wdLastIntervalCores :: "cores option"

definition new_watchdog :: "jsnum \<Rightarrow> jsnum \<Rightarrow> watchdog" where
  "new_watchdog timeoutMs silenceTimeoutMs =
     \<lparr>wdTimeoutMs = timeoutMs, wdSilenceTimeoutMs = silenceTimeoutMs, wdOutputBytes = 0, wdBaseline = None, wdIdleSince = None, wdMaxIdleMs = 0,
      wdLastOutputMono = None, wdLastOutputAt = None, wdLastIntervalCores = None\<rparr>"

definition killEnabled :: "watchdog \<Rightarrow> bool" where
  "killEnabled w \<longleftrightarrow> wdTimeoutMs w > 0"

definition noteOutput :: "nat \<Rightarrow> jsnum \<Rightarrow> jsnum \<Rightarrow> watchdog \<Rightarrow> watchdog" where
  "noteOutput byteCount wall clk w =
     w\<lparr>wdOutputBytes := wdOutputBytes w + byteCount, wdLastOutputAt := Some wall, wdLastOutputMono := Some clk\<rparr>"

definition start :: "jsnum \<Rightarrow> watchdog \<Rightarrow> watchdog" where
  "start clk w = w\<lparr>wdLastOutputMono := Some (nullish (wdLastOutputMono w) clk)\<rparr>"

definition silentMs :: "jsnum \<Rightarrow> watchdog \<Rightarrow> jsnum" where
  "silentMs clk w = (case wdLastOutputMono w of None \<Rightarrow> 0 | Some t \<Rightarrow> clk - t)"

definition shouldKillSilent :: "jsnum \<Rightarrow> watchdog \<Rightarrow> bool" where
  "shouldKillSilent clk w \<longleftrightarrow> wdSilenceTimeoutMs w > 0 \<and> silentMs clk w \<ge> wdSilenceTimeoutMs w"

text \<open>The rows keyed by process id, the last of two equal ids winning; \<open>None\<close> for the tree or the rows is a scan that failed.\<close>

fun tree_cpu :: "cpu_row list \<Rightarrow> int list \<Rightarrow> cpu_map \<Rightarrow> cpu_map option" where
  "tree_cpu rows [] acc = Some acc"
| "tree_cpu rows (p # ps) acc =
     (case map_of (rev (map (\<lambda>r. (crPid r, r)) rows)) p of
        None \<Rightarrow> None
      | Some r \<Rightarrow> tree_cpu rows ps (AList.update (identity r) (cpuOf r) acc))"

definition snapshot :: "int list option \<Rightarrow> cpu_row list option \<Rightarrow> cpu_map option" where
  "snapshot treePids rows = Option.bind treePids (\<lambda>ps. Option.bind rows (\<lambda>rs. tree_cpu rs ps []))"

definition idleBetween :: "watchdog \<Rightarrow> baseline \<Rightarrow> cpu_map \<Rightarrow> jsnum \<Rightarrow> bool" where
  "idleBetween w prev cur now \<longleftrightarrow>
     blOutput prev = wdOutputBytes w \<and>
     (case intervalCores prev cur now of Some (Cores c) \<Rightarrow> c \<le> NO_PROGRESS_CPU_SECONDS_PER_MINUTE / 60 | _ \<Rightarrow> False)"

definition observe :: "cpu_map option \<Rightarrow> jsnum \<Rightarrow> watchdog \<Rightarrow> jsnum \<times> watchdog" where
  "observe current now w =
     (let previous = wdBaseline w;
          w1 = w\<lparr>wdBaseline := map_option (\<lambda>c. \<lparr>blAt = now, blOutput = wdOutputBytes w, blCpu = c\<rparr>) current,
                 wdLastIntervalCores := (case (previous, current) of (Some p, Some c) \<Rightarrow> intervalCores p c now | _ \<Rightarrow> None)\<rparr>
      in case (current, previous) of
           (Some c, Some p) \<Rightarrow>
             if idleBetween w p c now
             then (let idleMs = now - nullish (wdIdleSince w) 0 in (idleMs, w1\<lparr>wdMaxIdleMs := max (wdMaxIdleMs w) idleMs\<rparr>))
             else (0, w1\<lparr>wdIdleSince := Some now\<rparr>)
         | _ \<Rightarrow> (0, w1\<lparr>wdIdleSince := Some now\<rparr>))"

definition shouldKill :: "watchdog \<Rightarrow> jsnum \<Rightarrow> bool" where
  "shouldKill w idleMs \<longleftrightarrow> killEnabled w \<and> idleMs \<ge> wdTimeoutMs w"

section \<open>Runs\<close>

text \<open>What happens to a watchdog over a run: the command writes, or the supervisor's heartbeat observes the tree.\<close>

datatype wd_event = Spawned jsnum | Wrote nat jsnum jsnum | Saw "cpu_map option" jsnum

fun wd_step :: "watchdog \<Rightarrow> wd_event \<Rightarrow> watchdog" where
  "wd_step w (Spawned t) = start t w"
| "wd_step w (Wrote n wall t) = noteOutput n wall t w"
| "wd_step w (Saw c t) = snd (observe c t w)"

definition wd_run :: "jsnum \<Rightarrow> jsnum \<Rightarrow> wd_event list \<Rightarrow> watchdog" where
  "wd_run timeoutMs silenceMs es = foldl wd_step (new_watchdog timeoutMs silenceMs) es"

fun event_time :: "wd_event \<Rightarrow> jsnum" where
  "event_time (Spawned t) = t"
| "event_time (Wrote _ _ t) = t"
| "event_time (Saw _ t) = t"

text \<open>
  The reference notion of a stall: a stretch of events in which the tree keeps its members, each observation finds it at most the allowed CPU richer than the one
  before it, and nothing was written. It carries the last observation and whether something was written since.
\<close>

definition cpu_growth :: "cpu_map \<Rightarrow> cpu_map \<Rightarrow> jsnum" where
  "cpu_growth prev cur = (\<Sum>(k, c) \<leftarrow> cur. max 0 (c - the (map_of prev k)))"

definition quiet_interval :: "cpu_map \<Rightarrow> jsnum \<Rightarrow> cpu_map \<Rightarrow> jsnum \<Rightarrow> bool" where
  "quiet_interval prev t cur t' \<longleftrightarrow>
     length prev = length cur \<and> fst ` set cur \<subseteq> fst ` set prev \<and>
     cpu_growth prev cur \<le> NO_PROGRESS_CPU_SECONDS_PER_MINUTE / 60 * ((t' - t) / 1000)"

fun quiet :: "cpu_map \<times> jsnum \<times> bool \<Rightarrow> wd_event list \<Rightarrow> (cpu_map \<times> jsnum \<times> bool) option" where
  "quiet s [] = Some s"
| "quiet s (Spawned _ # es) = quiet s es"
| "quiet (c, t, wrote) (Wrote n _ _ # es) = quiet (c, t, wrote \<or> n > 0) es"
| "quiet (c, t, wrote) (Saw cur t' # es) =
     (case cur of
        None \<Rightarrow> None
      | Some c' \<Rightarrow> if \<not> wrote \<and> quiet_interval c t c' t' then quiet (c', t', False) es else None)"

definition monotone_clock :: "wd_event list \<Rightarrow> bool" where
  "monotone_clock es = sorted (map event_time es)"

section \<open>Idle intervals\<close>

lemma cpu_delta_growth:
  "cpu_delta prev cur = (if fst ` set cur \<subseteq> fst ` set prev then Some (cpu_growth prev cur) else None)"
proof (induction cur)
  case Nil
  then show ?case by (simp add: cpu_growth_def)
next
  case (Cons kc cur)
  obtain k c where kc: "kc = (k, c)" by fastforce
  show ?case
  proof (cases "map_of prev k")
    case None
    then have "k \<notin> fst ` set prev" by (simp add: map_of_eq_None_iff)
    with None show ?thesis by (simp add: kc)
  next
    case (Some b)
    then have "k \<in> fst ` set prev" by (metis map_of_eq_None_iff option.distinct(1))
    with Some Cons show ?thesis by (simp add: kc cpu_growth_def)
  qed
qed

lemma cpu_growth_nonneg: "cpu_growth prev cur \<ge> 0"
  unfolding cpu_growth_def by (rule sum_list_nonneg_rat) (auto split: prod.splits)

lemma idleBetween_quiet:
  assumes "blAt prev \<le> now"
  shows "idleBetween w prev cur now \<longleftrightarrow> blOutput prev = wdOutputBytes w \<and> quiet_interval (blCpu prev) (blAt prev) cur now"
proof -
  define d where "d = cpu_growth (blCpu prev) cur"
  have d0: "d \<ge> 0" by (simp add: d_def cpu_growth_nonneg)
  show ?thesis
  proof (cases "now - blAt prev > 0")
    case True
    then have "(d / ((now - blAt prev) / 1000) \<le> NO_PROGRESS_CPU_SECONDS_PER_MINUTE / 60) = (d \<le> NO_PROGRESS_CPU_SECONDS_PER_MINUTE / 60 * ((now - blAt prev) / 1000))"
      by (intro pos_divide_le_eq) simp
    with True show ?thesis
      unfolding idleBetween_def intervalCores_def quiet_interval_def cpu_delta_growth Let_def d_def by auto
  next
    case False
    with assms have "now = blAt prev" by simp
    with d0 show ?thesis
      unfolding idleBetween_def intervalCores_def quiet_interval_def cpu_delta_growth Let_def d_def
      by (auto simp: NO_PROGRESS_CPU_SECONDS_PER_MINUTE_def)
  qed
qed

section \<open>The streak is the quiet stretch\<close>

lemma quiet_append: "quiet s (xs @ ys) = Option.bind (quiet s xs) (\<lambda>s'. quiet s' ys)"
  by (induction s xs rule: quiet.induct) (auto split: option.splits)

lemma wd_run_snoc [simp]: "wd_run a b (es @ [e]) = wd_step (wd_run a b es) e"
  by (simp add: wd_run_def)

lemma wd_timeout_const: "wdTimeoutMs (wd_run a b es) = a"
proof (induction es rule: rev_induct)
  case Nil
  then show ?case by (simp add: wd_run_def new_watchdog_def)
next
  case (snoc e es)
  then show ?case
    by (cases e) (auto simp: start_def noteOutput_def observe_def Let_def split: option.splits)
qed

text \<open>A state of the watchdog after a quiet stretch that ended in the given observation.\<close>

definition matches :: "watchdog \<Rightarrow> cpu_map \<times> jsnum \<times> bool \<Rightarrow> bool" where
  "matches w s \<longleftrightarrow>
     (case s of (c, t, wrote) \<Rightarrow> \<exists>b. wdBaseline w = Some b \<and> blCpu b = c \<and> blAt b = t \<and> blOutput b \<le> wdOutputBytes w \<and> wrote = (blOutput b < wdOutputBytes w))"

definition baseline_ok :: "watchdog \<Rightarrow> jsnum \<Rightarrow> bool" where
  "baseline_ok w t \<longleftrightarrow> (case wdBaseline w of None \<Rightarrow> True | Some b \<Rightarrow> blAt b \<le> t \<and> blOutput b \<le> wdOutputBytes w \<and> wdIdleSince w \<noteq> None)"

lemma observe_baseline [simp]:
  "wdBaseline (snd (observe c t w)) = map_option (\<lambda>c. \<lparr>blAt = t, blOutput = wdOutputBytes w, blCpu = c\<rparr>) c"
  "wdOutputBytes (snd (observe c t w)) = wdOutputBytes w"
  by (auto simp: observe_def Let_def split: option.splits)

lemma observe_idle:
  assumes "wdBaseline w = Some b" "wdIdleSince w = Some s" "blAt b \<le> t"
  shows "observe (Some c) t w =
    (if blOutput b = wdOutputBytes w \<and> quiet_interval (blCpu b) (blAt b) c t then (t - s, snd (observe (Some c) t w)) else (0, snd (observe (Some c) t w)))"
    and "wdIdleSince (snd (observe (Some c) t w)) =
      Some (if blOutput b = wdOutputBytes w \<and> quiet_interval (blCpu b) (blAt b) c t then s else t)"
  using assms by (auto simp: observe_def Let_def idleBetween_quiet)

lemma observe_fresh:
  assumes "wdBaseline w = None \<or> c = None"
  shows "fst (observe c t w) = 0" "wdIdleSince (snd (observe c t w)) = Some t"
  using assms by (auto simp: observe_def Let_def split: option.splits)

lemma run_baseline_ok:
  assumes "monotone_clock (es @ [e])"
  shows "baseline_ok (wd_run a b es) (event_time e)"
  using assms
proof (induction es arbitrary: e rule: rev_induct)
  case Nil
  then show ?case by (simp add: wd_run_def new_watchdog_def baseline_ok_def)
next
  case (snoc x es)
  let ?w = "wd_run a b es"
  have mono: "monotone_clock (es @ [x])" "event_time x \<le> event_time e"
    using snoc.prems by (auto simp: monotone_clock_def sorted_append)
  note ok = snoc.IH[OF mono(1)]
  show ?case
  proof (cases x)
    case (Saw c t)
    show ?thesis
    proof (cases "wdBaseline ?w = None \<or> c = None")
      case True
      with observe_fresh[OF True, of t] Saw mono(2) show ?thesis by (auto simp: baseline_ok_def split: option.splits)
    next
      case False
      then obtain bl c' where bl: "wdBaseline ?w = Some bl" "c = Some c'" by auto
      with ok Saw obtain s where s: "wdIdleSince ?w = Some s" "blAt bl \<le> t" by (auto simp: baseline_ok_def)
      with observe_idle(2)[OF bl(1) s] bl(2) Saw mono(2) show ?thesis by (simp add: baseline_ok_def)
    qed
  qed (use ok mono(2) in \<open>auto simp: baseline_ok_def start_def noteOutput_def split: option.splits\<close>)
qed

text \<open>Soundness: whenever the watchdog has a baseline, its streak began at an observation from which everything has been quiet.\<close>

lemma streak_is_quiet:
  assumes "monotone_clock es" "wdBaseline (wd_run a b es) = Some bl"
  shows "\<exists>pre c0 t0 suf s. es = pre @ Saw (Some c0) t0 # suf \<and> wdIdleSince (wd_run a b es) = Some t0 \<and>
     quiet (c0, t0, False) suf = Some s \<and> matches (wd_run a b es) s"
  using assms
proof (induction es arbitrary: bl rule: rev_induct)
  case Nil
  then show ?case by (simp add: wd_run_def new_watchdog_def)
next
  case (snoc x es)
  let ?w = "wd_run a b es"
  have mono: "monotone_clock es" using snoc.prems(1) by (simp add: monotone_clock_def sorted_append)
  have ok: "baseline_ok ?w (event_time x)" by (rule run_baseline_ok[OF snoc.prems(1)])
  have extend: "\<exists>pre c0 t0 suf s. es @ [x] = pre @ Saw (Some c0) t0 # suf \<and> wdIdleSince (wd_run a b (es @ [x])) = Some t0 \<and>
      quiet (c0, t0, False) suf = Some s \<and> matches (wd_run a b (es @ [x])) s"
    if "es = pre @ Saw (Some c0) t0 # suf" "wdIdleSince (wd_run a b (es @ [x])) = Some t0"
       "quiet (c0, t0, False) suf = Some s'" "quiet s' [x] = Some s" "matches (wd_run a b (es @ [x])) s" for pre c0 t0 suf s' s
    using that by (intro exI[of _ pre] exI[of _ c0] exI[of _ t0] exI[of _ "suf @ [x]"] exI[of _ s]) (simp add: quiet_append)
  show ?case
  proof (cases x)
    case (Spawned t)
    with snoc.prems(2) have "wdBaseline ?w = Some bl" by (simp add: start_def)
    from snoc.IH[OF mono this] obtain pre c0 t0 suf s where
      h: "es = pre @ Saw (Some c0) t0 # suf" "wdIdleSince ?w = Some t0" "quiet (c0, t0, False) suf = Some s" "matches ?w s" by blast
    show ?thesis by (rule extend[OF h(1) _ h(3)]) (use h(2-4) Spawned in \<open>auto simp: start_def matches_def\<close>)
  next
    case (Wrote n wall t)
    with snoc.prems(2) have "wdBaseline ?w = Some bl" by (simp add: noteOutput_def)
    from snoc.IH[OF mono this] obtain pre c0 t0 suf c1 t1 wr where
      h: "es = pre @ Saw (Some c0) t0 # suf" "wdIdleSince ?w = Some t0" "quiet (c0, t0, False) suf = Some (c1, t1, wr)" "matches ?w (c1, t1, wr)"
      by (metis prod_cases3)
    show ?thesis by (rule extend[OF h(1) _ h(3)]) (use h(2-4) Wrote in \<open>auto simp: noteOutput_def matches_def\<close>)
  next
    case (Saw c t)
    then obtain c' where c': "c = Some c'" using snoc.prems(2) by auto
    have new: "\<exists>pre c0 t0 suf s. es @ [x] = pre @ Saw (Some c0) t0 # suf \<and> wdIdleSince (wd_run a b (es @ [x])) = Some t0 \<and>
        quiet (c0, t0, False) suf = Some s \<and> matches (wd_run a b (es @ [x])) s" if "wdIdleSince (wd_run a b (es @ [x])) = Some t"
      using that Saw c' by (intro exI[of _ es] exI[of _ c'] exI[of _ t] exI[of _ "[]"]) (simp add: matches_def)
    show ?thesis
    proof (cases "wdBaseline ?w")
      case None
      with observe_fresh(2)[of ?w c t] Saw show ?thesis by (intro new) simp
    next
      case (Some bl0)
      with ok Saw obtain t0' where s: "wdIdleSince ?w = Some t0'" "blAt bl0 \<le> t" "blOutput bl0 \<le> wdOutputBytes ?w" by (auto simp: baseline_ok_def)
      from snoc.IH[OF mono Some] obtain pre c0 t0 suf c1 t1 wr where
        h: "es = pre @ Saw (Some c0) t0 # suf" "wdIdleSince ?w = Some t0" "quiet (c0, t0, False) suf = Some (c1, t1, wr)" "matches ?w (c1, t1, wr)"
        by (metis prod_cases3)
      show ?thesis
      proof (cases "blOutput bl0 = wdOutputBytes ?w \<and> quiet_interval (blCpu bl0) (blAt bl0) c' t")
        case True
        with h(2-4) Some have "quiet (c1, t1, wr) [x] = Some (c', t, False)" by (auto simp: matches_def Saw c')
        with observe_idle(2)[OF Some s(1,2), of c'] h(2-4) s True Saw c' show ?thesis
          by (intro extend[OF h(1) _ h(3)]) (auto simp: matches_def)
      next
        case False
        with observe_idle(2)[OF Some s(1,2), of c'] Saw c' show ?thesis by (intro new) auto
      qed
    qed
  qed
qed

text \<open>Completeness: a quiet stretch is never forgotten, so the streak reaches back at least to its start.\<close>

lemma quiet_keeps_streak:
  assumes "monotone_clock (pre @ Saw (Some c0) t0 # suf)" "quiet (c0, t0, False) suf = Some s"
  shows "matches (wd_run a b (pre @ Saw (Some c0) t0 # suf)) s \<and> (\<exists>i. wdIdleSince (wd_run a b (pre @ Saw (Some c0) t0 # suf)) = Some i \<and> i \<le> t0)"
  using assms
proof (induction suf arbitrary: s rule: rev_induct)
  case Nil
  let ?w = "wd_run a b pre"
  have ok: "baseline_ok ?w t0" using run_baseline_ok[of pre "Saw (Some c0) t0"] Nil.prems(1) by simp
  have run: "wd_run a b (pre @ Saw (Some c0) t0 # []) = snd (observe (Some c0) t0 ?w)" by simp
  have sorted: "\<forall>e \<in> set pre. event_time e \<le> t0" using Nil.prems(1) by (auto simp: monotone_clock_def sorted_append)
  have since: "\<exists>i. wdIdleSince (snd (observe (Some c0) t0 ?w)) = Some i \<and> i \<le> t0"
  proof (cases "wdBaseline ?w")
    case None
    with observe_fresh(2)[of ?w "Some c0" t0] show ?thesis by simp
  next
    case (Some bl)
    have "monotone_clock pre" using Nil.prems(1) by (simp add: monotone_clock_def sorted_append)
    from streak_is_quiet[OF this Some] obtain p c1 t1 q where p: "pre = p @ Saw (Some c1) t1 # q" "wdIdleSince ?w = Some t1" by blast
    then have "t1 \<le> t0" using sorted by auto
    moreover have "blAt bl \<le> t0" using ok Some by (simp add: baseline_ok_def)
    ultimately show ?thesis using observe_idle(2)[OF Some p(2), of t0 c0] by simp
  qed
  with Nil.prems(2) show ?case unfolding run by (auto simp: matches_def)
next
  case (snoc x suf)
  let ?w = "wd_run a b (pre @ Saw (Some c0) t0 # suf)"
  from snoc.prems(2) obtain s' where s': "quiet (c0, t0, False) suf = Some s'" "quiet s' [x] = Some s"
    by (auto simp: quiet_append Option.bind_eq_Some_conv)
  obtain c1 t1 wr where s'_eq: "s' = (c1, t1, wr)" by (metis prod_cases3)
  have "monotone_clock (pre @ Saw (Some c0) t0 # suf)" using snoc.prems(1) by (auto simp: monotone_clock_def sorted_append)
  from snoc.IH[OF this s'(1)] obtain i where m: "matches ?w s'" and i: "wdIdleSince ?w = Some i" "i \<le> t0" by blast
  have ok: "baseline_ok ?w (event_time x)" using run_baseline_ok[of "pre @ Saw (Some c0) t0 # suf" x] snoc.prems(1) by simp
  have run: "wd_run a b (pre @ Saw (Some c0) t0 # suf @ [x]) = wd_step ?w x"
    using wd_run_snoc[of a b "pre @ Saw (Some c0) t0 # suf" x] by simp
  show ?case
  proof (cases x)
    case (Spawned t)
    with s'(2) m i show ?thesis unfolding run by (auto simp: start_def matches_def)
  next
    case (Wrote n wall t)
    with s'(2) m i show ?thesis unfolding run by (auto simp: s'_eq noteOutput_def matches_def)
  next
    case (Saw c t)
    with s'(2) obtain c' where c': "c = Some c'" "\<not> wr" "quiet_interval c1 t1 c' t" "s = (c', t, False)"
      by (auto simp: s'_eq split: option.splits if_splits)
    from m obtain bl where bl: "wdBaseline ?w = Some bl" "blCpu bl = c1" "blAt bl = t1" "blOutput bl = wdOutputBytes ?w"
      using c'(2) by (auto simp: s'_eq matches_def)
    have "blAt bl \<le> t" using ok bl(1) Saw by (simp add: baseline_ok_def)
    from observe_idle(2)[OF bl(1) i(1) this, of c'] c' bl i(2) Saw show ?thesis
      unfolding run by (simp add: matches_def)
  qed
qed

text \<open>C24. On a monotonic clock the no-progress watchdog kills at an observation exactly when the kill is enabled and a stretch of at least the timeout ends there in
  which every observation was complete, the tree kept its members, nothing was written and each interval used at most the allowed CPU: it never kills a run that made
  progress or could not be observed, and never misses a stalled one.\<close>

theorem no_progress_kill_iff_stalled:
  assumes "monotone_clock (es @ [Saw cur now])"
  shows "shouldKill (wd_run timeoutMs silenceMs (es @ [Saw cur now])) (fst (observe cur now (wd_run timeoutMs silenceMs es))) \<longleftrightarrow>
    timeoutMs > 0 \<and> (\<exists>pre c0 t0 suf. es = pre @ Saw (Some c0) t0 # suf \<and> quiet (c0, t0, False) (suf @ [Saw cur now]) \<noteq> None \<and> now - t0 \<ge> timeoutMs)"
    (is "?kill \<longleftrightarrow> timeoutMs > 0 \<and> ?stalled")
proof -
  let ?w = "wd_run timeoutMs silenceMs es"
  have clock: "monotone_clock es" using assms by (simp add: monotone_clock_def sorted_append)
  have ok: "baseline_ok ?w now" using run_baseline_ok[OF assms] by simp
  have kill: "?kill \<longleftrightarrow> timeoutMs > 0 \<and> fst (observe cur now ?w) \<ge> timeoutMs"
    unfolding shouldKill_def killEnabled_def wd_timeout_const ..
  have "?stalled" if pos: "timeoutMs > 0" and idle: "fst (observe cur now ?w) \<ge> timeoutMs"
  proof -
    obtain bl c where bl: "wdBaseline ?w = Some bl" "cur = Some c"
      using idle pos observe_fresh(1)[of ?w cur now] by (cases "wdBaseline ?w"; cases cur) auto
    with ok obtain s where s: "wdIdleSince ?w = Some s" "blAt bl \<le> now" by (auto simp: baseline_ok_def)
    have q: "blOutput bl = wdOutputBytes ?w" "quiet_interval (blCpu bl) (blAt bl) c now" "now - s \<ge> timeoutMs"
      using observe_idle(1)[OF bl(1) s, of c] idle pos bl(2) by (auto split: if_splits simp: prod_eq_iff)
    from streak_is_quiet[OF clock bl(1)] obtain pre c0 t0 suf c1 t1 wr where
      h: "es = pre @ Saw (Some c0) t0 # suf" "wdIdleSince ?w = Some t0" "quiet (c0, t0, False) suf = Some (c1, t1, wr)" "matches ?w (c1, t1, wr)"
      by (metis prod_cases3)
    have "quiet (c0, t0, False) (suf @ [Saw cur now]) \<noteq> None"
      using h(3,4) bl q by (auto simp: quiet_append matches_def)
    moreover have "now - t0 \<ge> timeoutMs" using h(2) q(3) s(1) by simp
    ultimately show ?thesis using h(1) by blast
  qed
  moreover have "fst (observe cur now ?w) \<ge> timeoutMs" if st: "?stalled"
  proof -
    from st obtain pre c0 t0 suf c1 t1 wr where h: "es = pre @ Saw (Some c0) t0 # suf" "quiet (c0, t0, False) suf = Some (c1, t1, wr)"
      "quiet (c1, t1, wr) [Saw cur now] \<noteq> None" "now - t0 \<ge> timeoutMs"
      by (auto simp: quiet_append Option.bind_eq_Some_conv)
    from quiet_keeps_streak[of pre c0 t0 suf "(c1, t1, wr)" timeoutMs silenceMs] clock h(1,2) obtain i
      where m: "matches ?w (c1, t1, wr)" and i: "wdIdleSince ?w = Some i" "i \<le> t0" by auto
    from h(3) obtain c where c: "cur = Some c" "\<not> wr" "quiet_interval c1 t1 c now" by (auto split: option.splits if_splits)
    from m c(2) obtain bl where bl: "wdBaseline ?w = Some bl" "blCpu bl = c1" "blAt bl = t1" "blOutput bl = wdOutputBytes ?w" by (auto simp: matches_def)
    have "blAt bl \<le> now" using ok bl(1) by (simp add: baseline_ok_def)
    from observe_idle(1)[OF bl(1) i(1) this, of c] bl c h(4) i(2) show ?thesis by (auto simp: prod_eq_iff)
  qed
  ultimately show ?thesis unfolding kill by blast
qed

definition example_tree :: "jsnum \<Rightarrow> cpu_map" where
  "example_tree c = [((10, ''a''), c), ((11, ''b''), 2)]"

definition example_stall :: "wd_event list" where
  "example_stall = [Spawned 0, Wrote 5 0 500, Saw (Some (example_tree 1)) 1000, Spawned 1500, Saw (Some (example_tree 1)) 31000]"

lemma example_stall_kills:
  "shouldKill (wd_run 60000 0 (example_stall @ [Saw (Some (example_tree 1)) 61000])) (fst (observe (Some (example_tree 1)) 61000 (wd_run 60000 0 example_stall)))"
  by code_simp

theorem no_progress_kill_iff_stalled_witness:
  "\<exists>pre c0 t0 suf. example_stall = pre @ Saw (Some c0) t0 # suf \<and>
     quiet (c0, t0, False) (suf @ [Saw (Some (example_tree 1)) 61000]) \<noteq> None \<and> 61000 - t0 \<ge> 60000"
  using no_progress_kill_iff_stalled[of example_stall "Some (example_tree 1)" 61000 60000 0] example_stall_kills
  by (simp add: example_stall_def monotone_clock_def)

end
