(* ===== verification/Result_Cache.thy ===== *)
theory Result_Cache
  imports Json
begin

text \<open>
  The result cache (\<^verbatim>\<open>src/src/result-cache.js\<close>): the content key of a worktree, the rows of the history that may answer a run, and the choice between serving,
  refusing and running. What git answers about a worktree is an input, strings are byte strings, and the hash is the parameter \<open>sha\<close>.
\<close>

section \<open>The content key\<close>

definition KEY_VERSION :: string where "KEY_VERSION = ''lane-result-cache/1''"
definition MAX_UNTRACKED_FILES :: nat where "MAX_UNTRACKED_FILES = 2000"
definition MAX_UNTRACKED_BYTES :: nat where "MAX_UNTRACKED_BYTES = 67108864"

definition NUL :: char where "NUL = char_of (0 :: nat)"
definition NL :: char where "NL = char_of (10 :: nat)"

text \<open>The text that is hashed: every part behind its length.\<close>

definition framed :: "string list \<Rightarrow> string" where
  "framed parts = concat (map (\<lambda>p. decimal (length p) @ CHR '':'' # p) parts)"

definition digest :: "(string \<Rightarrow> string) \<Rightarrow> string list \<Rightarrow> string" where
  "digest sha parts = sha (framed parts)"

text \<open>An untracked path as \<^verbatim>\<open>lstat\<close> sees it; \<open>Odd\<close> is a nested repository, a special file or one that has gone.\<close>

datatype untracked = SymLink string | Plain bool string | Odd

record worktree =
  wtHeadTree :: string
  wtModules :: bool
  wtTags :: "char list"
  wtDiff :: string
  wtUntracked :: "(string \<times> untracked) list"

definition bool_text :: "bool \<Rightarrow> string" where
  "bool_text b = (if b then ''true'' else ''false'')"

definition entry_line :: "(string \<Rightarrow> string) \<Rightarrow> string \<Rightarrow> untracked \<Rightarrow> string" where
  "entry_line sha rel u =
     (case u of
        SymLink t \<Rightarrow> rel @ NUL # ''symlink'' @ NUL # '''' @ NUL # t
      | Plain x c \<Rightarrow> rel @ NUL # ''file'' @ NUL # bool_text x @ NUL # sha c
      | Odd \<Rightarrow> [])"

fun untracked_lines :: "(string \<Rightarrow> string) \<Rightarrow> nat \<Rightarrow> (string \<times> untracked) list \<Rightarrow> string list option" where
  "untracked_lines sha bytes [] = Some []"
| "untracked_lines sha bytes ((rel, u) # us) =
     (case u of
        SymLink t \<Rightarrow> map_option ((#) (entry_line sha rel u)) (untracked_lines sha bytes us)
      | Plain x c \<Rightarrow>
          if bytes + length c > MAX_UNTRACKED_BYTES then None
          else map_option ((#) (entry_line sha rel u)) (untracked_lines sha (bytes + length c) us)
      | Odd \<Rightarrow> None)"

fun join_lines :: "string list \<Rightarrow> string" where
  "join_lines [] = []"
| "join_lines [l] = l"
| "join_lines (l # ls) = l @ NL # join_lines ls"

definition untrackedFingerprint :: "(string \<Rightarrow> string) \<Rightarrow> worktree \<Rightarrow> string option" where
  "untrackedFingerprint sha w =
     (if length (wtUntracked w) > MAX_UNTRACKED_FILES then None
      else map_option join_lines (untracked_lines sha 0 (sort_key fst (wtUntracked w))))"

text \<open>Where the repository configuration of a run came from.\<close>

datatype config_from = FromDefaultBranch string | FromOverride | FromWorktree

definition configIdentityOf :: "config_from \<Rightarrow> string option" where
  "configIdentityOf c =
     (case c of FromDefaultBranch blob \<Rightarrow> Some (''default-branch:'' @ blob) | FromOverride \<Rightarrow> Some ''worktree-override'' | FromWorktree \<Rightarrow> None)"

definition key_parts :: "string \<Rightarrow> string \<Rightarrow> config_from \<Rightarrow> worktree \<Rightarrow> string \<Rightarrow> string list" where
  "key_parts key cmd cf w u =
     [KEY_VERSION, key, cmd, wtHeadTree w, wtDiff w, u] @ (case configIdentityOf cf of Some i \<Rightarrow> [i] | None \<Rightarrow> [])"

text \<open>\<open>None\<close> for the worktree is a git command that failed or printed too much.\<close>

definition computeContentKey :: "(string \<Rightarrow> string) \<Rightarrow> string \<Rightarrow> string \<Rightarrow> config_from \<Rightarrow> worktree option \<Rightarrow> string option" where
  "computeContentKey sha key cmd cf wt =
     (if key = [] \<or> cmd = [] then None
      else case wt of
             None \<Rightarrow> None
           | Some w \<Rightarrow>
               if wtHeadTree w = [] \<or> wtModules w \<or> (\<exists>c \<in> set (wtTags w). c \<noteq> CHR ''H'') then None
               else map_option (\<lambda>u. digest sha (key_parts key cmd cf w u)) (untrackedFingerprint sha w))"

section \<open>Reuse\<close>

text \<open>A history row. A field that is not a number is \<open>None\<close>; a flag is whether the field is truthy, \<open>hyVerified\<close> whether it is \<^verbatim>\<open>true\<close>.\<close>

record history_row =
  hyId :: string
  hyContentKey :: "string option"
  hyVerified :: bool
  hyCachedFrom :: bool
  hyRefusedFrom :: bool
  hyStartedAt :: "jsnum option"
  hyEndedAt :: "jsnum option"
  hyExit :: "jsnum option"
  hySignal :: bool
  hyCancelled :: bool
  hyError :: bool
  hyReason :: bool
  hyRemote :: bool
  hyRemoteCompleted :: bool
  hyRemoteCommand :: bool
  hyRemoteSignal :: bool

definition NON_VERDICT_EXITS :: "jsnum list" where
  "NON_VERDICT_EXITS = [64, 69, 75, 76, 77, 79, 124, 126, 127, 130]"

definition isNewestRowCandidate :: "history_row \<Rightarrow> string \<Rightarrow> jsnum \<Rightarrow> bool" where
  "isNewestRowCandidate r ck now \<longleftrightarrow>
     hyContentKey r = Some ck \<and> \<not> hyCachedFrom r \<and> \<not> hyRefusedFrom r \<and> hyStartedAt r \<noteq> None \<and>
     (case hyEndedAt r of Some t \<Rightarrow> t \<le> now | None \<Rightarrow> False)"

definition isServablePass :: "history_row \<Rightarrow> bool" where
  "isServablePass r \<longleftrightarrow> hyExit r = Some 0 \<and> \<not> hySignal r \<and> \<not> hyCancelled r \<and> \<not> hyError r \<and> \<not> hyReason r"

definition isQualifyingRed :: "history_row \<Rightarrow> bool" where
  "isQualifyingRed r \<longleftrightarrow>
     hyVerified r \<and>
     (case hyExit r of Some x \<Rightarrow> is_integer x \<and> x \<noteq> 0 \<and> x < 128 \<and> x \<notin> set NON_VERDICT_EXITS | None \<Rightarrow> False) \<and>
     \<not> (hySignal r \<or> hyCancelled r \<or> hyError r \<or> hyReason r) \<and>
     \<not> (hyRemote r \<and> (\<not> hyRemoteCompleted r \<or> \<not> hyRemoteCommand r \<or> hyRemoteSignal r))"

definition ended :: "history_row \<Rightarrow> jsnum" where
  "ended r = nullish (hyEndedAt r) 0"

definition newer :: "string \<Rightarrow> jsnum \<Rightarrow> history_row option \<Rightarrow> history_row \<Rightarrow> history_row option" where
  "newer ck now newest r =
     (if isNewestRowCandidate r ck now \<and> (case newest of None \<Rightarrow> True | Some n \<Rightarrow> ended r \<ge> ended n) then Some r else newest)"

datatype reuse = Serve history_row | Refuse history_row | RunIt

definition decideReuse :: "history_row list \<Rightarrow> string \<Rightarrow> jsnum \<Rightarrow> jsnum \<Rightarrow> jsnum \<Rightarrow> reuse" where
  "decideReuse rows ck now passTtlMs redTtlMs =
     (case foldl (newer ck now) None rows of
        None \<Rightarrow> RunIt
      | Some n \<Rightarrow>
          (let age = now - ended n
           in if isServablePass n \<and> passTtlMs > 0 \<and> age \<le> passTtlMs then Serve n
              else if isQualifyingRed n \<and> redTtlMs > 0 \<and> age \<le> redTtlMs then Refuse n else RunIt))"

definition isCleanPass :: "history_row \<Rightarrow> bool" where
  "isCleanPass r \<longleftrightarrow> hyExit r = Some 0 \<and> \<not> hySignal r"

section \<open>How rows get their keys\<close>

text \<open>A finished run: what it was submitted for, the worktree when \<^verbatim>\<open>lane run\<close> took its key and when it ended, and whether the writer settles the key.\<close>

record run_end =
  reKey :: string
  reCmd :: string
  reConfig :: config_from
  reStart :: "worktree option"
  reEnd :: "worktree option"
  reSettles :: bool
  reResult :: history_row

definition ticket_key :: "(string \<Rightarrow> string) \<Rightarrow> run_end \<Rightarrow> string option" where
  "ticket_key sha e = computeContentKey sha (reKey e) (reCmd e) (reConfig e) (reStart e)"

definition settledContentKey :: "(string \<Rightarrow> string) \<Rightarrow> run_end \<Rightarrow> string option" where
  "settledContentKey sha e =
     (case ticket_key sha e of
        None \<Rightarrow> None
      | Some k \<Rightarrow> if computeContentKey sha (reKey e) (reCmd e) (reConfig e) (reEnd e) = Some k then Some k else None)"

definition historyRow :: "(string \<Rightarrow> string) \<Rightarrow> run_end \<Rightarrow> history_row" where
  "historyRow sha e =
     (let k = (if reSettles e then settledContentKey sha e else if isCleanPass (reResult e) then None else ticket_key sha e)
      in (reResult e)\<lparr>hyContentKey := k, hyVerified := (reSettles e \<and> k \<noteq> None)\<rparr>)"

section \<open>Framing is injective\<close>

lemma split_at_mark:
  assumes "c \<notin> set xs" "c \<notin> set ys" "xs @ c # r = ys @ c # s"
  shows "xs = ys \<and> r = s"
proof -
  have "takeWhile (\<lambda>x. x \<noteq> c) (xs @ c # r) = xs" "takeWhile (\<lambda>x. x \<noteq> c) (ys @ c # s) = ys"
    using assms(1,2) by (auto simp: takeWhile_append2 takeWhile_tail)
  with assms(3) have "xs = ys" by metis
  with assms(3) show ?thesis by simp
qed

definition decval :: "string \<Rightarrow> nat" where
  "decval s = foldl (\<lambda>n c. 10 * n + (of_char c - 48)) 0 s"

lemma of_digit_char: "d < 10 \<Longrightarrow> of_char (digit_char d) = (48 + d :: nat)"
  by (simp add: digit_char_def)

lemma decval_decimal: "decval (decimal n) = n"
proof (induction n rule: decimal.induct)
  case (1 n)
  show ?case
  proof (cases "n < 10")
    case True
    then show ?thesis by (simp add: decimal.simps[of n] decval_def of_digit_char)
  next
    case False
    have "10 * (n div 10) + n mod 10 = n" by simp
    moreover have "of_char (digit_char (n mod 10)) - 48 = n mod 10" by (simp add: of_digit_char)
    ultimately show ?thesis using 1 False by (simp add: decimal.simps[of n] decval_def)
  qed
qed

lemma decimal_inj: "decimal m = decimal n \<Longrightarrow> m = n"
  by (metis decval_decimal)

lemma decimal_digits: "c \<in> set (decimal n) \<Longrightarrow> c \<noteq> CHR '':''"
proof (induction n rule: decimal.induct)
  case (1 n)
  have colon: "digit_char d \<noteq> CHR '':''" if "d < 10" for d
  proof
    assume "digit_char d = CHR '':''"
    then have "of_char (digit_char d) = (58 :: nat)" by simp
    with that show False by (simp add: of_digit_char)
  qed
  show ?case
  proof (cases "n < 10")
    case True
    with 1(2) colon show ?thesis by (auto simp: decimal.simps[of n])
  next
    case False
    with 1(2) have "c \<in> set (decimal (n div 10)) \<or> c = digit_char (n mod 10)" by (auto simp: decimal.simps[of n])
    then show ?thesis using 1(1)[OF False] colon[of "n mod 10"] by auto
  qed
qed

lemma framed_inj: "framed xs = framed ys \<Longrightarrow> xs = ys"
proof (induction xs arbitrary: ys)
  case Nil
  then show ?case by (cases ys) (simp_all add: framed_def)
next
  case (Cons x xs)
  then obtain y ys' where ys: "ys = y # ys'" by (cases ys) (simp_all add: framed_def)
  have "decimal (length x) @ CHR '':'' # (x @ framed xs) = decimal (length y) @ CHR '':'' # (y @ framed ys')"
    using Cons.prems by (simp add: ys framed_def)
  then have "decimal (length x) = decimal (length y)" "x @ framed xs = y @ framed ys'"
    using split_at_mark[of "CHR '':''"] decimal_digits by blast+
  then have "x = y" "framed xs = framed ys'" using decimal_inj by (auto simp: append_eq_append_conv)
  with Cons.IH ys show ?case by simp
qed

section \<open>The untracked fingerprint\<close>

text \<open>What the operating system guarantees of a name, and what the fingerprint needs of a link's target; a hexadecimal digest has neither mark.\<close>

definition entry_ok :: "string \<times> untracked \<Rightarrow> bool" where
  "entry_ok e \<longleftrightarrow> NUL \<notin> set (fst e) \<and> (case snd e of SymLink t \<Rightarrow> NUL \<notin> set t \<and> NL \<notin> set t | _ \<Rightarrow> True)"

definition hex_digest :: "(string \<Rightarrow> string) \<Rightarrow> bool" where
  "hex_digest sha \<longleftrightarrow> (\<forall>x. NUL \<notin> set (sha x) \<and> NL \<notin> set (sha x))"

definition contents :: "(string \<times> untracked) list \<Rightarrow> string set" where
  "contents us = {c. \<exists>r x. (r, Plain x c) \<in> set us}"

lemma untracked_lines_all:
  "untracked_lines sha b us = Some ls \<Longrightarrow> ls = map (\<lambda>(r, u). entry_line sha r u) us \<and> (\<forall>e \<in> set us. snd e \<noteq> Odd)"
proof (induction us arbitrary: b ls)
  case (Cons e us)
  obtain r u where e: "e = (r, u)" by fastforce
  from Cons.prems obtain b' ks where "u \<noteq> Odd" "untracked_lines sha b' us = Some ks" "ls = entry_line sha r u # ks"
    by (auto simp: e split: untracked.splits if_splits)
  with Cons.IH[of b' ks] show ?case by (simp add: e)
qed simp

definition line_tail :: "string list \<Rightarrow> string" where
  "line_tail ls = (case ls of [] \<Rightarrow> [] | _ \<Rightarrow> NL # join_lines ls)"

lemma join_lines_Cons: "join_lines (l # ls) = l @ line_tail ls"
  by (cases ls) (simp_all add: line_tail_def)

lemma value_and_tail:
  assumes "NL \<notin> set v" "NL \<notin> set v'" "v @ line_tail ls = v' @ line_tail ls'"
  shows "v = v' \<and> line_tail ls = line_tail ls'"
proof -
  have tw: "takeWhile (\<lambda>x. x \<noteq> NL) (w @ line_tail ks) = w" if "NL \<notin> set w" for w ks
    using that by (cases ks) (auto simp: line_tail_def takeWhile_append2 takeWhile_tail)
  from tw[OF assms(1), of ls] tw[OF assms(2), of ls'] assms(3) have "v = v'" by simp
  with assms(3) show ?thesis by simp
qed

lemma line_tail_nonempty:
  assumes "line_tail ls = line_tail ls'"
  shows "ls = [] \<and> ls' = [] \<or> ls \<noteq> [] \<and> ls' \<noteq> [] \<and> join_lines ls = join_lines ls'"
  using assms by (cases ls; cases ls') (simp_all add: line_tail_def)

definition entry_fields :: "(string \<Rightarrow> string) \<Rightarrow> untracked \<Rightarrow> string \<times> string \<times> string" where
  "entry_fields sha u = (case u of SymLink t \<Rightarrow> (''symlink'', [], t) | Plain x c \<Rightarrow> (''file'', bool_text x, sha c) | Odd \<Rightarrow> ([], [], []))"

lemma entry_line_fields:
  "u \<noteq> Odd \<Longrightarrow> entry_line sha r u = (case entry_fields sha u of (k, x, v) \<Rightarrow> r @ NUL # k @ NUL # x @ NUL # v)"
  by (cases u) (simp_all add: entry_line_def entry_fields_def)

lemma NUL_plain: "NUL \<notin> set ''symlink''" "NUL \<notin> set ''file''" "NUL \<notin> set (bool_text x)"
  by (simp_all add: NUL_def bool_text_def char_of_def)

lemma entry_fields_plain:
  assumes "entry_ok (r, u)" "hex_digest sha" "u \<noteq> Odd" "entry_fields sha u = (k, x, v)"
  shows "NUL \<notin> set k" "NUL \<notin> set x" "NL \<notin> set v"
proof -
  have "NUL \<notin> set k \<and> NUL \<notin> set x \<and> NL \<notin> set v"
  proof (cases u)
    case (SymLink t)
    then have "k = ''symlink''" "x = []" "v = t" using assms(4) by (simp_all add: entry_fields_def)
    with SymLink assms(1) NUL_plain(1) show ?thesis by (simp add: entry_ok_def)
  next
    case (Plain y c)
    then have "k = ''file''" "x = bool_text y" "v = sha c" using assms(4) by (simp_all add: entry_fields_def)
    with assms(2) NUL_plain(2,3) show ?thesis by (simp add: hex_digest_def)
  qed (use assms(3) in simp)
  then show "NUL \<notin> set k" "NUL \<notin> set x" "NL \<notin> set v" by simp_all
qed

lemma bool_text_inj: "bool_text x = bool_text y \<Longrightarrow> x = y"
  by (cases x; cases y) (simp_all add: bool_text_def)

lemma entry_fields_inj:
  assumes "entry_fields sha u = entry_fields sha u'" "u \<noteq> Odd" "u' \<noteq> Odd" "\<And>x c x' c'. u = Plain x c \<Longrightarrow> u' = Plain x' c' \<Longrightarrow> sha c = sha c' \<Longrightarrow> c = c'"
  shows "u = u'"
proof (cases u)
  case (SymLink t)
  with assms(1,3) show ?thesis by (cases u') (simp_all add: entry_fields_def)
next
  case (Plain x c)
  then obtain x' c' where u': "u' = Plain x' c'" using assms(1,3) by (cases u') (simp_all add: entry_fields_def)
  with Plain assms(1) have "bool_text x = bool_text x'" "sha c = sha c'" by (simp_all add: entry_fields_def)
  with assms(4)[OF Plain u'] bool_text_inj Plain u' show ?thesis by simp
qed (use assms(2) in simp)

lemma entry_split:
  assumes ok: "entry_ok (r, u)" "entry_ok (r', u')" "hex_digest sha" "u \<noteq> Odd" "u' \<noteq> Odd"
    and eq: "entry_line sha r u @ line_tail ls = entry_line sha r' u' @ line_tail ls'"
  shows "r = r' \<and> entry_fields sha u = entry_fields sha u' \<and> line_tail ls = line_tail ls'"
proof -
  obtain k x v where f: "entry_fields sha u = (k, x, v)" by (metis prod_cases3)
  obtain k' x' v' where f': "entry_fields sha u' = (k', x', v')" by (metis prod_cases3)
  note p = entry_fields_plain[OF ok(1,3,4) f] and p' = entry_fields_plain[OF ok(2,3,5) f']
  have rn: "NUL \<notin> set r" "NUL \<notin> set r'" using ok by (auto simp: entry_ok_def)
  have "r @ NUL # (k @ NUL # x @ NUL # v @ line_tail ls) = r' @ NUL # (k' @ NUL # x' @ NUL # v' @ line_tail ls')"
    using eq ok(4,5) f f' by (simp add: entry_line_fields)
  from split_at_mark[OF rn this] have r: "r = r'" "k @ NUL # (x @ NUL # v @ line_tail ls) = k' @ NUL # (x' @ NUL # v' @ line_tail ls')" by simp_all
  from split_at_mark[OF p(1) p'(1) r(2)] have k: "k = k'" "x @ NUL # (v @ line_tail ls) = x' @ NUL # (v' @ line_tail ls')" by simp_all
  from split_at_mark[OF p(2) p'(2) k(2)] have x: "x = x'" "v @ line_tail ls = v' @ line_tail ls'" by simp_all
  from value_and_tail[OF p(3) p'(3) x(2)] show ?thesis using r k x f f' by simp
qed

lemma entry_line_nonempty: "u \<noteq> Odd \<Longrightarrow> entry_line sha r u \<noteq> []"
  by (cases u) (simp_all add: entry_line_def)

lemma lines_inj:
  assumes "\<forall>e \<in> set us. entry_ok e \<and> snd e \<noteq> Odd" "\<forall>e \<in> set vs. entry_ok e \<and> snd e \<noteq> Odd" "hex_digest sha" "inj_on sha (contents us \<union> contents vs)"
    and "join_lines (map (\<lambda>(r, u). entry_line sha r u) us) = join_lines (map (\<lambda>(r, u). entry_line sha r u) vs)"
  shows "us = vs"
  using assms
proof (induction us arbitrary: vs)
  case Nil
  show ?case
  proof (cases vs)
    case (Cons e vs')
    with Nil show ?thesis by (cases e) (auto simp: join_lines_Cons entry_line_nonempty)
  qed simp
next
  case (Cons e us)
  obtain r u where e: "e = (r, u)" by fastforce
  have u: "u \<noteq> Odd" "entry_ok (r, u)" using Cons.prems(1) e by auto
  have "vs \<noteq> []" using Cons.prems(5) u(1) by (auto simp: e join_lines_Cons entry_line_nonempty)
  then obtain r' u' vs' where vs: "vs = (r', u') # vs'" by (cases vs) auto
  have u': "u' \<noteq> Odd" "entry_ok (r', u')" using Cons.prems(2) vs by auto
  let ?l = "\<lambda>(r, u). entry_line sha r u"
  have "entry_line sha r u @ line_tail (map ?l us) = entry_line sha r' u' @ line_tail (map ?l vs')"
    using Cons.prems(5) by (simp add: e vs join_lines_Cons)
  from entry_split[OF u(2) u'(2) Cons.prems(3) u(1) u'(1) this]
  have s: "r = r'" "entry_fields sha u = entry_fields sha u'" "line_tail (map ?l us) = line_tail (map ?l vs')" by simp_all
  have "u = u'"
  proof (rule entry_fields_inj[OF s(2) u(1) u'(1)])
    fix x c x' c' assume h: "u = Plain x c" "u' = Plain x' c'" "sha c = sha c'"
    then have "c \<in> contents (e # us) \<union> contents vs" "c' \<in> contents (e # us) \<union> contents vs"
      by (auto simp: contents_def e vs)
    with inj_onD[OF Cons.prems(4) h(3)] show "c = c'" by blast
  qed
  moreover have "us = vs'"
  proof (cases "us = [] \<and> vs' = []")
    case False
    with line_tail_nonempty[OF s(3)] have "join_lines (map ?l us) = join_lines (map ?l vs')" by auto
    moreover have "contents us \<union> contents vs' \<subseteq> contents (e # us) \<union> contents vs" by (auto simp: contents_def vs)
    ultimately show ?thesis
      using Cons.IH[of vs'] Cons.prems(1-4) vs by (auto intro: inj_on_subset)
  qed simp
  ultimately show ?case using s(1) e vs by simp
qed

section \<open>Equal keys, equal source\<close>

text \<open>What the key is meant to identify, and the texts that are hashed for one key.\<close>

definition same_source :: "worktree option \<Rightarrow> worktree option \<Rightarrow> bool" where
  "same_source wt wt' \<longleftrightarrow>
     (case (wt, wt') of
        (Some w, Some w') \<Rightarrow> wtHeadTree w = wtHeadTree w' \<and> wtDiff w = wtDiff w' \<and> sort_key fst (wtUntracked w) = sort_key fst (wtUntracked w')
      | _ \<Rightarrow> False)"

definition hashed :: "(string \<Rightarrow> string) \<Rightarrow> string \<Rightarrow> string \<Rightarrow> config_from \<Rightarrow> worktree option \<Rightarrow> string set" where
  "hashed sha key cmd cf wt =
     (case wt of
        None \<Rightarrow> {}
      | Some w \<Rightarrow> contents (wtUntracked w) \<union> (case untrackedFingerprint sha w of Some u \<Rightarrow> {framed (key_parts key cmd cf w u)} | None \<Rightarrow> {}))"

definition plain_entries :: "worktree option \<Rightarrow> bool" where
  "plain_entries wt = (case wt of Some w \<Rightarrow> list_all entry_ok (wtUntracked w) | None \<Rightarrow> True)"

lemma computeContentKey_SomeD:
  assumes "computeContentKey sha key cmd cf wt = Some h"
  shows "\<exists>w u. wt = Some w \<and> untrackedFingerprint sha w = Some u \<and> h = sha (framed (key_parts key cmd cf w u))"
  using assms by (auto simp: computeContentKey_def digest_def split: if_splits option.splits)

lemma untrackedFingerprint_SomeD:
  assumes "untrackedFingerprint sha w = Some u"
  shows "u = join_lines (map (\<lambda>(r, e). entry_line sha r e) (sort_key fst (wtUntracked w))) \<and> (\<forall>e \<in> set (wtUntracked w). snd e \<noteq> Odd)"
  using assms untracked_lines_all[of sha 0 "sort_key fst (wtUntracked w)"]
  by (auto simp: untrackedFingerprint_def split: if_splits)

lemma key_parts_inj:
  assumes "key_parts key cmd cf w u = key_parts key' cmd' cf' w' u'"
  shows "key = key' \<and> cmd = cmd' \<and> wtHeadTree w = wtHeadTree w' \<and> wtDiff w = wtDiff w' \<and> u = u' \<and> configIdentityOf cf = configIdentityOf cf'"
  using assms by (auto simp: key_parts_def split: option.splits)

lemma content_key_inj:
  assumes k: "computeContentKey sha key cmd cf wt = Some h" "computeContentKey sha key' cmd' cf' wt' = Some h"
    and apart: "inj_on sha (hashed sha key cmd cf wt \<union> hashed sha key' cmd' cf' wt')"
    and ok: "hex_digest sha" "plain_entries wt" "plain_entries wt'"
  shows "key = key' \<and> cmd = cmd' \<and> configIdentityOf cf = configIdentityOf cf' \<and> same_source wt wt'"
proof -
  from computeContentKey_SomeD[OF k(1)] obtain w u where w: "wt = Some w" "untrackedFingerprint sha w = Some u" "h = sha (framed (key_parts key cmd cf w u))" by blast
  from computeContentKey_SomeD[OF k(2)] obtain w' u' where w': "wt' = Some w'" "untrackedFingerprint sha w' = Some u'" "h = sha (framed (key_parts key' cmd' cf' w' u'))" by blast
  have "framed (key_parts key cmd cf w u) = framed (key_parts key' cmd' cf' w' u')"
    by (rule inj_onD[OF apart]) (use w w' in \<open>auto simp: hashed_def\<close>)
  from key_parts_inj[OF framed_inj[OF this]]
  have p: "key = key'" "cmd = cmd'" "wtHeadTree w = wtHeadTree w'" "wtDiff w = wtDiff w'" "u = u'" "configIdentityOf cf = configIdentityOf cf'" by simp_all
  note u = untrackedFingerprint_SomeD[OF w(2)] and u' = untrackedFingerprint_SomeD[OF w'(2)]
  have "sort_key fst (wtUntracked w) = sort_key fst (wtUntracked w')"
  proof (rule lines_inj)
    show "inj_on sha (contents (sort_key fst (wtUntracked w)) \<union> contents (sort_key fst (wtUntracked w')))"
      by (rule inj_on_subset[OF apart]) (auto simp: hashed_def w(1) w'(1) contents_def)
  qed (use u u' p(5) ok w(1) w'(1) in \<open>auto simp: plain_entries_def list_all_iff\<close>)
  with p show ?thesis by (simp add: same_source_def w(1) w'(1))
qed

section \<open>The newest outcome decides\<close>

lemma newer_simps:
  "newer ck now None r = (if isNewestRowCandidate r ck now then Some r else None)"
  "newer ck now (Some m) r = (if isNewestRowCandidate r ck now \<and> ended r \<ge> ended m then Some r else Some m)"
  by (simp_all add: newer_def)

lemma newest_none: "foldl (newer ck now) None rows = None \<Longrightarrow> x \<in> set rows \<Longrightarrow> \<not> isNewestRowCandidate x ck now"
proof (induction rows rule: rev_induct)
  case (snoc r rows)
  then show ?case by (cases "foldl (newer ck now) None rows") (auto simp: newer_simps split: if_splits)
qed simp

lemma newest_outcome:
  assumes "foldl (newer ck now) None rows = Some n"
  shows "\<exists>pre suf. rows = pre @ n # suf \<and> isNewestRowCandidate n ck now \<and>
    (\<forall>r \<in> set pre. isNewestRowCandidate r ck now \<longrightarrow> ended r \<le> ended n) \<and> (\<forall>r \<in> set suf. isNewestRowCandidate r ck now \<longrightarrow> ended r < ended n)"
  using assms
proof (induction rows arbitrary: n rule: rev_induct)
  case (snoc r rows)
  show ?case
  proof (cases "foldl (newer ck now) None rows")
    case None
    from snoc.prems None have "n = r" "isNewestRowCandidate r ck now" by (auto simp: newer_simps split: if_splits)
    with newest_none[OF None] show ?thesis by (intro exI[of _ rows] exI[of _ "[]"]) auto
  next
    case (Some m)
    from snoc.IH[OF Some] obtain pre suf where h: "rows = pre @ m # suf" "isNewestRowCandidate m ck now"
      "\<forall>r \<in> set pre. isNewestRowCandidate r ck now \<longrightarrow> ended r \<le> ended m" "\<forall>r \<in> set suf. isNewestRowCandidate r ck now \<longrightarrow> ended r < ended m" by blast
    show ?thesis
    proof (cases "isNewestRowCandidate r ck now \<and> ended r \<ge> ended m")
      case True
      with snoc.prems Some have n: "n = r" by (simp add: newer_simps)
      have "ended x \<le> ended r" if "x \<in> set rows" "isNewestRowCandidate x ck now" for x
        using that h True by (auto intro: order_trans less_imp_le)
      with n True show ?thesis by (intro exI[of _ rows] exI[of _ "[]"]) auto
    next
      case False
      with snoc.prems Some have n: "n = m" by (auto simp: newer_simps split: if_splits)
      from False have "isNewestRowCandidate r ck now \<Longrightarrow> ended r < ended m" by auto
      with h n show ?thesis by (intro exI[of _ pre] exI[of _ "suf @ [r]"]) auto
    qed
  qed
qed simp

lemma historyRow_key:
  assumes "hyContentKey (historyRow sha e) = Some ck" "isServablePass (historyRow sha e) \<or> isQualifyingRed (historyRow sha e)"
  shows "computeContentKey sha (reKey e) (reCmd e) (reConfig e) (reStart e) = Some ck \<and>
         computeContentKey sha (reKey e) (reCmd e) (reConfig e) (reEnd e) = Some ck"
  using assms
  by (auto simp: historyRow_def settledContentKey_def ticket_key_def isServablePass_def isQualifyingRed_def isCleanPass_def Let_def split: if_splits option.splits)

text \<open>The rows that answered a run: \<open>r\<close> was served or refused as the newest outcome of the key.\<close>

definition answered_by :: "reuse \<Rightarrow> history_row \<Rightarrow> bool" where
  "answered_by d r \<longleftrightarrow> d = Serve r \<or> d = Refuse r"

lemma decideReuse_answer:
  assumes "answered_by (decideReuse rows ck now passTtlMs redTtlMs) r"
  shows "foldl (newer ck now) None rows = Some r \<and> (isServablePass r \<or> isQualifyingRed r)"
  using assms by (auto simp: answered_by_def decideReuse_def Let_def split: option.splits if_splits)


definition forged_worktree :: "(string \<times> untracked) list \<Rightarrow> worktree" where
  "forged_worktree us = \<lparr>wtHeadTree = ''tree'', wtModules = False, wtTags = ''H'', wtDiff = [], wtUntracked = us\<rparr>"

text \<open>Without the condition on links the promise fails whatever the hash: two worktrees with different untracked links get the same content key, because a line feed
  in a link's target or in a name passes for the separator of the fingerprint's lines.\<close>

theorem forged_link_shares_key:
  "computeContentKey sha ''key'' ''cmd'' FromWorktree (Some (forged_worktree [(''a'', SymLink (''x'' @ NL # ''c'')), (''b'', SymLink ''y'')])) =
   computeContentKey sha ''key'' ''cmd'' FromWorktree (Some (forged_worktree [(''a'', SymLink ''x''), (''c'' @ NL # ''b'', SymLink ''y'')])) \<and>
   computeContentKey sha ''key'' ''cmd'' FromWorktree (Some (forged_worktree [(''a'', SymLink (''x'' @ NL # ''c'')), (''b'', SymLink ''y'')])) \<noteq> None"
proof -
  have o: "sort_key fst [(''a'', SymLink s), (n, t)] = [(''a'', SymLink s), (n, t)]" if "''a'' \<le> n" for s n t
    using that by (simp add: insort_key.simps)
  have le: "''a'' \<le> ''b''" "''a'' \<le> ''c'' @ NL # ''b''" by (simp_all add: less_char_def less_eq_char_def)
  show ?thesis
    by (simp add: computeContentKey_def forged_worktree_def untrackedFingerprint_def MAX_UNTRACKED_FILES_def o le entry_line_def key_parts_def)
qed

text \<open>A hash for the examples that satisfies what is assumed of \<open>sha\<close>: every byte as a decimal number.\<close>

definition example_sha :: "string \<Rightarrow> string" where
  "example_sha s = concat (map (\<lambda>c. decimal (of_char c) @ '':'') s)"

lemma decimal_chars: "c \<in> set (decimal n) \<Longrightarrow> \<exists>d < 10. c = digit_char d"
proof (induction n rule: decimal.induct)
  case (1 n)
  show ?case
  proof (cases "n < 10")
    case True
    with 1(2) show ?thesis by (auto simp: decimal.simps[of n])
  next
    case False
    with 1(2) have "c \<in> set (decimal (n div 10)) \<or> c = digit_char (n mod 10)" by (auto simp: decimal.simps[of n])
    then show ?thesis using 1(1)[OF False] by (auto intro: exI[of _ "n mod 10"])
  qed
qed

lemma example_sha_hex: "hex_digest example_sha"
proof -
  have d: "digit_char d \<noteq> NUL \<and> digit_char d \<noteq> NL" if "d < 10" for d
  proof -
    have "of_char (digit_char d) = (48 + d :: nat)" by (rule of_digit_char[OF that])
    then show ?thesis by (auto simp: NUL_def NL_def)
  qed
  have "NUL \<noteq> CHR '':''" "NL \<noteq> CHR '':''" by (simp_all add: NUL_def NL_def char_of_def)
  moreover have "x \<noteq> NUL \<and> x \<noteq> NL" if "x \<in> set (decimal n)" for x n
    using decimal_chars[OF that] d by metis
  ultimately have "x \<noteq> NUL \<and> x \<noteq> NL" if "x \<in> set (decimal (of_char c) @ '':'')" for x and c :: char
    using that by auto
  then show ?thesis unfolding hex_digest_def example_sha_def by (auto simp del: append.simps)
qed

lemma example_sha_inj: "example_sha s = example_sha t \<Longrightarrow> s = t"
proof (induction s arbitrary: t)
  case Nil
  then show ?case by (cases t) (simp_all add: example_sha_def)
next
  case (Cons c s)
  then obtain d t' where t: "t = d # t'" by (cases t) (simp_all add: example_sha_def)
  have "decimal (of_char c) @ CHR '':'' # example_sha s = decimal (of_char d) @ CHR '':'' # example_sha t'"
    using Cons.prems by (simp add: t example_sha_def)
  then have "decimal (of_char c) = decimal (of_char d)" "example_sha s = example_sha t'"
    using split_at_mark[of "CHR '':''"] decimal_digits by blast+
  then have "of_char c = (of_char d :: nat)" "s = t'" using decimal_inj[of "of_char c" "of_char d"] Cons.IH[of t'] by blast+
  then show ?case by (simp add: t)
qed

definition example_worktree :: "worktree option" where
  "example_worktree =
     Some \<lparr>wtHeadTree = ''t1'', wtModules = False, wtTags = ''HH'', wtDiff = ''d'', wtUntracked = [(''n'', Plain True ''x''), (''l'', SymLink ''n'')]\<rparr>"

definition example_pass :: history_row where
  "example_pass =
     \<lparr>hyId = ''run1'', hyContentKey = None, hyVerified = False, hyCachedFrom = False, hyRefusedFrom = False, hyStartedAt = Some 1, hyEndedAt = Some 2,
      hyExit = Some 0, hySignal = False, hyCancelled = False, hyError = False, hyReason = False, hyRemote = False, hyRemoteCompleted = False,
      hyRemoteCommand = False, hyRemoteSignal = False\<rparr>"

definition example_run :: run_end where
  "example_run =
     \<lparr>reKey = ''r:unit'', reCmd = ''c'', reConfig = FromWorktree, reStart = example_worktree, reEnd = example_worktree, reSettles = True, reResult = example_pass\<rparr>"

lemma example_key: "\<exists>ck. computeContentKey example_sha ''r:unit'' ''c'' FromWorktree example_worktree = Some ck"
  by (simp add: computeContentKey_def example_worktree_def untrackedFingerprint_def MAX_UNTRACKED_FILES_def MAX_UNTRACKED_BYTES_def)

lemma example_served:
  assumes "computeContentKey example_sha ''r:unit'' ''c'' FromWorktree example_worktree = Some ck"
  shows "answered_by (decideReuse (map (historyRow example_sha) [example_run]) ck 10 100 0) (historyRow example_sha example_run)"
  using assms
  by (simp add: answered_by_def decideReuse_def newer_simps historyRow_def example_run_def settledContentKey_def ticket_key_def example_pass_def
      isNewestRowCandidate_def isServablePass_def ended_def)


end
