(* ===== verification/Journal.thy ===== *)
theory Journal
  imports Prelude
begin

text \<open>
  The journal file of the object store (\<^verbatim>\<open>src/src/store/journal.js\<close>) at the level of its bytes: reading in bounded chunks, the torn tail a crash leaves, the
  append with its rollback, and reopening. How a record is written as one JSON line and read back is a parameter (\<open>print\<close>, \<open>parse\<close>); a record is its sequence number
  and its fields. Whether a write reaches the disk is an input of each append.
\<close>

section \<open>Reading\<close>

type_synonym 'f jrec = "nat \<times> 'f"

definition LF :: char where "LF = char_of (10 :: nat)"

definition DEFAULT_CHUNK_BYTES :: nat where "DEFAULT_CHUNK_BYTES = 262144"

datatype journal_error = RecordTooLarge | BadLine | OutOfStep | NoNewline | BrokenJournal | AppendFailed

text \<open>The buffer up to its last line feed.\<close>

definition complete_part :: "string \<Rightarrow> string" where
  "complete_part buf = rev (dropWhile (\<lambda>c. c \<noteq> LF) (rev buf))"

function parse_lines :: "(string \<Rightarrow> 'f jrec option) \<Rightarrow> nat \<Rightarrow> nat option \<Rightarrow> string \<Rightarrow> journal_error + ('f jrec \<times> nat \<times> nat) list" where
  "parse_lines parse off want buf =
     (if buf = [] then Inr []
      else let line = takeWhile (\<lambda>c. c \<noteq> LF) buf; stop = off + length line + 1
           in case parse line of
                None \<Rightarrow> Inl BadLine
              | Some r \<Rightarrow>
                  if (case want of Some w \<Rightarrow> fst r \<noteq> w | None \<Rightarrow> False) then Inl OutOfStep
                  else case parse_lines parse stop (Some (fst r + 1)) (drop (length line + 1) buf) of
                         Inl e \<Rightarrow> Inl e
                       | Inr rs \<Rightarrow> Inr ((r, off, stop) # rs))"
  by pat_completeness auto

termination by (relation "measure (\<lambda>(_, _, _, buf). length buf)") auto

declare parse_lines.simps [simp del]

definition readJournalFrom ::
  "(string \<Rightarrow> 'f jrec option) \<Rightarrow> string \<Rightarrow> nat \<Rightarrow> nat \<Rightarrow> nat option \<Rightarrow> nat \<Rightarrow> journal_error + ('f jrec \<times> nat \<times> nat) list" where
  "readJournalFrom parse bytes offset maxBytes expectSeq limit =
     (let total = min (length bytes) limit
      in if offset \<ge> total then Inr []
         else let buf = take (min maxBytes (total - offset)) (drop offset bytes)
              in if complete_part buf = [] then (if length buf = maxBytes then Inl RecordTooLarge else Inr [])
                 else parse_lines parse offset expectSeq (complete_part buf))"

lemma parse_lines_after: "parse_lines parse off want buf = Inr rs \<Longrightarrow> x \<in> set rs \<Longrightarrow> off < snd (snd x)"
proof (induction parse off want buf arbitrary: rs rule: parse_lines.induct)
  case (1 parse off want buf)
  show ?case
  proof (cases "buf = []")
    case True
    with "1.prems" show ?thesis by (simp add: parse_lines.simps)
  next
    case False
    define line where "line = takeWhile (\<lambda>c. c \<noteq> LF) buf"
    from "1.prems"(1) False obtain r rest where r: "parse line = Some r" "\<not> (case want of Some w \<Rightarrow> fst r \<noteq> w | None \<Rightarrow> False)"
      "parse_lines parse (off + length line + 1) (Some (fst r + 1)) (drop (length line + 1) buf) = Inr rest" "rs = (r, off, off + length line + 1) # rest"
      by (auto simp: parse_lines.simps[of parse off want buf] line_def Let_def split: option.splits if_splits sum.splits)
    show ?thesis
    proof (cases "x \<in> set rest")
      case True
      from "1.IH"[OF False line_def refl r(1,2,3) True] show ?thesis by simp
    next
      case False
      with "1.prems"(2) r(4) show ?thesis by simp
    qed
  qed
qed

lemma readJournalFrom_advances:
  assumes "readJournalFrom parse bytes pos maxBytes want limit = Inr rs" "rs \<noteq> []"
  shows "pos < min (length bytes) limit \<and> pos < snd (snd (last rs))"
proof -
  have "pos < min (length bytes) limit" using assms by (auto simp: readJournalFrom_def Let_def split: if_splits)
  moreover have "pos < snd (snd (last rs))"
    using assms parse_lines_after[of parse pos want _ rs "last rs"] last_in_set by (auto simp: readJournalFrom_def Let_def split: if_splits)
  ultimately show ?thesis by simp
qed

function iterateJournal :: "(string \<Rightarrow> 'f jrec option) \<Rightarrow> string \<Rightarrow> nat \<Rightarrow> nat \<Rightarrow> nat \<Rightarrow> journal_error + ('f jrec \<times> nat \<times> nat) list" where
  "iterateJournal parse bytes pos maxBytes limit =
     (case readJournalFrom parse bytes pos maxBytes None limit of
        Inl e \<Rightarrow> Inl e
      | Inr rs \<Rightarrow>
          if rs = [] then Inr []
          else case iterateJournal parse bytes (snd (snd (last rs))) maxBytes limit of
                 Inl e \<Rightarrow> Inl e
               | Inr more' \<Rightarrow> Inr (rs @ more'))"
  by pat_completeness auto

termination
proof (relation "measure (\<lambda>(_, bytes, pos, _, limit). min (length bytes) limit - pos)", goal_cases)
  case (2 parse bytes pos maxBytes limit rs)
  from readJournalFrom_advances[OF 2(1,2)] show ?case by auto
qed simp

declare iterateJournal.simps [simp del]

section \<open>Writing\<close>

record journal =
  jBytes :: string
  jOffset :: nat
  jSeq :: nat
  jBroken :: bool

definition dropTornTail :: "nat \<Rightarrow> string \<Rightarrow> journal_error + string" where
  "dropTornTail chunk bytes =
     (let probe = drop (length bytes - min (length bytes) chunk) bytes
      in if probe = [] \<or> last probe = LF then Inr bytes
         else if complete_part probe = [] then (if length probe = length bytes then Inr [] else Inl NoNewline)
         else Inr (take (length bytes - length probe + length (complete_part probe)) bytes))"

text \<open>The last complete line of the tail, as splitting at the line feeds finds it.\<close>

definition tailSeq :: "(string \<Rightarrow> 'f jrec option) \<Rightarrow> nat \<Rightarrow> string \<Rightarrow> journal_error + nat" where
  "tailSeq parse chunk bytes =
     (if bytes = [] then Inr 0
      else let probe = drop (length bytes - min (length bytes) chunk) bytes
           in case parse (rev (takeWhile (\<lambda>c. c \<noteq> LF) (rev (butlast (complete_part probe))))) of
                None \<Rightarrow> Inl BadLine
              | Some r \<Rightarrow> Inr (fst r))"

text \<open>The constructor on the bytes a previous process left; no file is no bytes.\<close>

definition open_journal :: "(string \<Rightarrow> 'f jrec option) \<Rightarrow> nat \<Rightarrow> string \<Rightarrow> journal_error + journal" where
  "open_journal parse chunk bytes =
     (case dropTornTail chunk bytes of
        Inl e \<Rightarrow> Inl e
      | Inr kept \<Rightarrow>
          (case tailSeq parse chunk kept of
             Inl e \<Rightarrow> Inl e
           | Inr n \<Rightarrow> Inr \<lparr>jBytes = kept, jOffset = length kept, jSeq = n, jBroken = False\<rparr>))"

text \<open>How an append ends: written and synced, failed and rolled back, or failed with a rollback that failed too, some of the line's bytes left behind.\<close>

datatype append_end = Synced | RolledBack | LeftBehind nat

definition journal_line :: "('f jrec \<Rightarrow> string) \<Rightarrow> nat \<Rightarrow> 'f \<Rightarrow> string" where
  "journal_line print n f = print (n, f) @ [LF]"

definition append_journal :: "('f jrec \<Rightarrow> string) \<Rightarrow> append_end \<Rightarrow> 'f \<Rightarrow> journal \<Rightarrow> (journal_error + 'f jrec) \<times> journal" where
  "append_journal print how f j =
     (if jBroken j then (Inl BrokenJournal, j)
      else let line = journal_line print (jSeq j + 1) f
           in case how of
                Synced \<Rightarrow> (Inr (jSeq j + 1, f), j\<lparr>jBytes := jBytes j @ line, jOffset := jOffset j + length line, jSeq := jSeq j + 1\<rparr>)
              | RolledBack \<Rightarrow> (Inl AppendFailed, j\<lparr>jBytes := take (jOffset j) (jBytes j)\<rparr>)
              | LeftBehind k \<Rightarrow> (Inl AppendFailed, j\<lparr>jBytes := jBytes j @ take k line, jBroken := True\<rparr>))"

section \<open>Runs with crashes\<close>

text \<open>
  The states of the journal over the life of the store, beside the list of the fields of every record that was ever committed. A crash keeps what was synced and any
  part of the line that was being written.
\<close>

inductive journal_run :: "('f jrec \<Rightarrow> string) \<Rightarrow> (string \<Rightarrow> 'f jrec option) \<Rightarrow> nat \<Rightarrow> 'f list \<Rightarrow> journal \<Rightarrow> bool" for print parse chunk where
  created: "journal_run print parse chunk [] \<lparr>jBytes = [], jOffset = 0, jSeq = 0, jBroken = False\<rparr>"
| appended: "journal_run print parse chunk recs j \<Longrightarrow> length (journal_line print (jSeq j + 1) f) \<le> chunk \<Longrightarrow>
    append_journal print how f j = (res, j') \<Longrightarrow>
    journal_run print parse chunk (case res of Inr _ \<Rightarrow> recs @ [f] | Inl _ \<Rightarrow> recs) j'"
| reopened: "journal_run print parse chunk recs j \<Longrightarrow> length (journal_line print (jSeq j + 1) f) \<le> chunk \<Longrightarrow>
    img = (if jBroken j then jBytes j else jBytes j @ take k (journal_line print (jSeq j + 1) f)) \<Longrightarrow>
    open_journal parse chunk img = Inr j' \<Longrightarrow> f' = (if jBroken j then snd (the (parse (butlast (drop (jOffset j) img)))) else f) \<Longrightarrow>
    journal_run print parse chunk (if jSeq j' = jSeq j then recs else recs @ [f']) j'"

text \<open>What is assumed of the JSON text of a record: it reads back, and it has no line feed.\<close>

definition codec_ok :: "('f jrec \<Rightarrow> string) \<Rightarrow> (string \<Rightarrow> 'f jrec option) \<Rightarrow> bool" where
  "codec_ok print parse \<longleftrightarrow> (\<forall>r. parse (print r) = Some r \<and> LF \<notin> set (print r))"

fun render :: "('f jrec \<Rightarrow> string) \<Rightarrow> nat \<Rightarrow> 'f list \<Rightarrow> string" where
  "render print n [] = []"
| "render print n (f # fs) = journal_line print n f @ render print (n + 1) fs"

definition numbered :: "'f list \<Rightarrow> 'f jrec list" where
  "numbered recs = zip [1..<Suc (length recs)] recs"

section \<open>Lines and chunks\<close>

lemma complete_part_append_LF [simp]: "complete_part (xs @ LF # ys) = xs @ LF # complete_part ys"
  by (cases "LF \<in> set ys") (simp_all add: complete_part_def dropWhile_append1 dropWhile_append2 dropWhile_append3 dropWhile_eq_Nil_conv del: dropWhile_eq_Nil_conv)

lemma complete_part_none: "LF \<notin> set xs \<Longrightarrow> complete_part xs = []"
  by (simp add: complete_part_def) (metis)

lemma complete_part_render: "LF \<notin> set t \<Longrightarrow> complete_part (render print n recs @ t) = render print n recs"
proof (induction recs arbitrary: n)
  case Nil
  then show ?case by (simp add: complete_part_none)
next
  case (Cons f recs)
  then show ?case using complete_part_append_LF[of "print (n, f)"] by (simp add: journal_line_def)
qed

lemma render_append: "render print n (xs @ ys) = render print n xs @ render print (n + length xs) ys"
  by (induction xs arbitrary: n) simp_all

lemma render_empty_iff [simp]: "render print n recs = [] \<longleftrightarrow> recs = []"
  by (cases recs) (simp_all add: journal_line_def)

text \<open>A prefix of the text of some records, cut at its last line feed, is the text of a prefix of the records, with the first one if it fits.\<close>

lemma complete_part_take:
  assumes "codec_ok print parse"
  shows "\<exists>j. complete_part (take m (render print n recs)) = render print n (take j recs) \<and>
    (\<forall>f fs. recs = f # fs \<and> length (journal_line print n f) \<le> m \<longrightarrow> 0 < j)"
proof (induction recs arbitrary: n m)
  case Nil
  then show ?case by (simp add: complete_part_def)
next
  case (Cons f recs)
  let ?l = "print (n, f)"
  have noLF: "LF \<notin> set ?l" using assms by (simp add: codec_ok_def)
  show ?case
  proof (cases "m \<le> length ?l")
    case True
    then have "take m (render print n (f # recs)) = take m ?l" by (simp add: journal_line_def)
    moreover have "LF \<notin> set (take m ?l)" using noLF by (meson in_set_takeD)
    ultimately show ?thesis using True by (intro exI[of _ 0]) (simp add: complete_part_none journal_line_def)
  next
    case False
    then obtain m' where m: "m = length ?l + 1 + m'" by (metis add.commute add_leD1 le_add_diff_inverse not_less_eq_eq plus_1_eq_Suc)
    obtain j where j: "complete_part (take m' (render print (n + 1) recs)) = render print (n + 1) (take j recs)"
      using Cons.IH[of m' "n + 1"] by blast
    have "take m (render print n (f # recs)) = ?l @ LF # take m' (render print (n + 1) recs)" by (simp add: m journal_line_def)
    then have "complete_part (take m (render print n (f # recs))) = ?l @ LF # render print (n + 1) (take j recs)"
      by (simp only: complete_part_append_LF j)
    then have "complete_part (take m (render print n (f # recs))) = render print n (take (Suc j) (f # recs))"
      by (simp add: journal_line_def)
    then show ?thesis by (intro exI[of _ "Suc j"]) simp
  qed
qed

text \<open>Where each record of the text lies.\<close>

fun located :: "('f jrec \<Rightarrow> string) \<Rightarrow> nat \<Rightarrow> nat \<Rightarrow> 'f list \<Rightarrow> ('f jrec \<times> nat \<times> nat) list" where
  "located print off n [] = []"
| "located print off n (f # fs) =
     ((n, f), off, off + length (journal_line print n f)) # located print (off + length (journal_line print n f)) (n + 1) fs"

lemma located_end: "fs \<noteq> [] \<Longrightarrow> snd (snd (last (located print off n fs))) = off + length (render print n fs)"
proof (induction fs arbitrary: off n)
  case (Cons f fs)
  then show ?case by (cases fs) simp_all
qed simp

lemma located_append: "located print off n (xs @ ys) = located print off n xs @ located print (off + length (render print n xs)) (n + length xs) ys"
  by (induction xs arbitrary: off n) (simp_all add: add.assoc)

lemma located_empty_iff [simp]: "located print off n fs = [] \<longleftrightarrow> fs = []"
  by (cases fs) simp_all

lemma map_fst_located: "map fst (located print off n fs) = zip [n..<n + length fs] fs"
  by (induction fs arbitrary: off n) (simp_all add: upt_conv_Cons del: upt_Suc)

lemma parse_render:
  assumes "codec_ok print parse"
  shows "parse_lines parse off want (render print n recs) =
    (if recs \<noteq> [] \<and> (case want of Some w \<Rightarrow> w \<noteq> n | None \<Rightarrow> False) then Inl OutOfStep else Inr (located print off n recs))"
proof (induction recs arbitrary: off want n)
  case Nil
  then show ?case by (simp add: parse_lines.simps)
next
  case (Cons f recs)
  have p: "parse (print (n, f)) = Some (n, f)" "LF \<notin> set (print (n, f))" using assms by (simp_all add: codec_ok_def)
  have tw: "takeWhile (\<lambda>c. c \<noteq> LF) (render print n (f # recs)) = print (n, f)"
    using p(2) by (auto simp: journal_line_def takeWhile_append2 takeWhile_tail)
  have ne: "render print n (f # recs) \<noteq> []" by (simp add: journal_line_def)
  have dr: "drop (length (print (n, f)) + 1) (render print n (f # recs)) = render print (n + 1) recs" by (simp add: journal_line_def)
  show ?case
    unfolding parse_lines.simps[of parse off want "render print n (f # recs)"] Let_def tw dr using p(1) ne Cons.IH[of "off + length (print (n, f)) + 1" "Some (n + 1)" "n + 1"]
    by (auto simp: journal_line_def split: option.splits)
qed

lemma read_chunk:
  assumes "codec_ok print parse" "recs \<noteq> []" "length (journal_line print n (hd recs)) \<le> chunk"
    and "bytes = pre @ render print n recs @ junk" "limit = length pre + length (render print n recs)"
  shows "\<exists>j > 0. readJournalFrom parse bytes (length pre) chunk None limit = Inr (located print (length pre) n (take j recs))"
proof -
  let ?total = "min (length bytes) limit"
  have total: "?total = length pre + length (render print n recs)" using assms(4,5) by simp
  have pos: "length pre < ?total" using assms(2) total by simp
  then have npos: "\<not> ?total \<le> length pre" by (simp only: not_le)
  have buf: "take (min chunk (?total - length pre)) (drop (length pre) bytes) = take chunk (render print n recs)"
    using assms(4) total by (simp add: min_def)
  obtain f fs where recs: "recs = f # fs" using assms(2) by (cases recs) auto
  from complete_part_take[OF assms(1), of chunk n recs] obtain j where j: "complete_part (take chunk (render print n recs)) = render print n (take j recs)"
    "length (journal_line print n f) \<le> chunk \<longrightarrow> 0 < j" using recs by blast
  have j0: "0 < j" using j(2) assms(3) recs by simp
  have ne: "take j recs \<noteq> []" using j0 recs by (cases j) simp_all
  have "readJournalFrom parse bytes (length pre) chunk None limit = parse_lines parse (length pre) None (render print n (take j recs))"
    using ne unfolding readJournalFrom_def Let_def if_not_P[OF npos] buf j(1) by simp
  then show ?thesis using j0 parse_render[OF assms(1)] by auto
qed

lemma iterate_render:
  assumes "codec_ok print parse" "\<forall>i < length recs. length (journal_line print (n + i) (recs ! i)) \<le> chunk"
    and "bytes = pre @ render print n recs @ junk" "limit = length pre + length (render print n recs)"
  shows "iterateJournal parse bytes (length pre) chunk limit = Inr (located print (length pre) n recs)"
  using assms(2-4)
proof (induction "length recs" arbitrary: recs n pre rule: less_induct)
  case less
  show ?case
  proof (cases "recs = []")
    case True
    with less.prems show ?thesis by (simp add: iterateJournal.simps readJournalFrom_def)
  next
    case False
    then have "length (journal_line print n (hd recs)) \<le> chunk" using less.prems(1) by (metis add_0_right hd_conv_nth length_greater_0_conv)
    from read_chunk[OF assms(1) False this less.prems(2,3)] obtain j where j: "j > 0"
      "readJournalFrom parse bytes (length pre) chunk None limit = Inr (located print (length pre) n (take j recs))" by blast
    let ?xs = "take j recs" and ?ys = "drop j recs"
    have xs: "?xs \<noteq> []" using j(1) False by simp
    have split: "render print n recs = render print n ?xs @ render print (n + length ?xs) ?ys" by (metis append_take_drop_id render_append)
    let ?pre = "pre @ render print n ?xs"
    have "iterateJournal parse bytes (length ?pre) chunk limit = Inr (located print (length ?pre) (n + length ?xs) ?ys)"
    proof (rule less.hyps)
      show "length ?ys < length recs" using j(1) False by simp
      show "\<forall>i < length ?ys. length (journal_line print (n + length ?xs + i) (?ys ! i)) \<le> chunk"
        using less.prems(1) by (auto simp: add.assoc min_def)
      show "bytes = ?pre @ render print (n + length ?xs) ?ys @ junk" using less.prems(2) split by simp
      show "limit = length ?pre + length (render print (n + length ?xs) ?ys)" using less.prems(3) split by simp
    qed
    moreover have "snd (snd (last (located print (length pre) n ?xs))) = length ?pre" using located_end[OF xs] by simp
    moreover have "located print (length pre) n recs = located print (length pre) n ?xs @ located print (length ?pre) (n + length ?xs) ?ys"
      by (metis append_take_drop_id length_append located_append)
    ultimately show ?thesis
      unfolding iterateJournal.simps[of parse bytes "length pre"] j(2) using xs by simp
  qed
qed

section \<open>Reopening\<close>

lemma complete_part_suffix:
  assumes "LF \<notin> set t" "length t < chunk"
  shows "dropTornTail chunk (render print n recs @ t) = Inr (render print n recs)"
proof -
  let ?b = "render print n recs @ t"
  let ?k = "length ?b - min (length ?b) chunk"
  let ?probe = "drop ?k ?b"
  show ?thesis
  proof (cases "t = []")
    case True
    have "?probe = [] \<or> last ?probe = LF"
    proof (cases "recs = []")
      case False
      then obtain xs x where recs: "recs = xs @ [x]" by (metis append_butlast_last_id)
      have "last ?b = LF" using True by (simp add: recs render_append journal_line_def)
      then show ?thesis by (metis last_drop length_drop list.size(3) not_less zero_less_diff drop_eq_Nil)
    qed (use True in simp)
    with True show ?thesis unfolding dropTornTail_def Let_def by simp
  next
    case False
    have k: "?k \<le> length (render print n recs)" using assms(2) by simp
    then have probe: "?probe = drop ?k (render print n recs) @ t" by simp
    have last: "last ?probe \<noteq> LF" using False assms(1) probe by (metis last_appendR last_in_set)
    show ?thesis
    proof (cases "recs = []")
      case True
      then have "?k = 0" using assms(2) by simp
      with True last False show ?thesis unfolding dropTornTail_def Let_def using complete_part_none[OF assms(1)] by simp
    next
      case nonempty: False
      then obtain xs x where recs: "recs = xs @ [x]" by (metis append_butlast_last_id)
      define l where "l = render print n xs @ print (n + length xs, x)"
      have r: "render print n recs = l @ [LF]" by (simp add: l_def recs render_append journal_line_def)
      have kl: "?k \<le> length l" using assms(2) False k r by (simp add: r)
      have pr: "?probe = drop ?k l @ LF # t" using kl by (simp add: r)
      have cp: "complete_part ?probe = drop ?k l @ [LF]" unfolding pr complete_part_append_LF complete_part_none[OF assms(1)] ..
      have len: "length ?b - length ?probe + length (complete_part ?probe) = length (l @ [LF])"
        unfolding cp using kl by (simp add: r)
      have "dropTornTail chunk ?b = Inr (take (length (l @ [LF])) ?b)"
        unfolding dropTornTail_def Let_def len[symmetric] using last cp False by (simp add: r)
      then show ?thesis by (simp add: r)
    qed
  qed
qed

lemma tailSeq_render:
  assumes "codec_ok print parse" "\<forall>i < length recs. length (journal_line print (n + i) (recs ! i)) \<le> chunk"
  shows "tailSeq parse chunk (render print n recs) = Inr (if recs = [] then 0 else n + length recs - 1)"
proof (cases "recs = []")
  case False
  then obtain xs x where recs: "recs = xs @ [x]" by (metis append_butlast_last_id)
  let ?b = "render print n recs" and ?l = "print (n + length xs, x)"
  let ?k = "length ?b - min (length ?b) chunk"
  have b: "?b = render print n xs @ ?l @ [LF]" by (simp add: recs render_append journal_line_def)
  have "length (journal_line print (n + length xs) x) \<le> chunk" using spec[OF assms(2), of "length xs"] by (simp add: recs)
  then have k: "?k \<le> length (render print n xs)" by (simp add: b journal_line_def)
  have probe: "drop ?k ?b = drop ?k (render print n xs) @ ?l @ [LF]" unfolding b using k by (simp add: b)
  have cp: "complete_part (drop ?k ?b) = drop ?k ?b"
    using complete_part_append_LF[of "drop ?k (render print n xs) @ ?l" "[]"] unfolding probe by (simp add: complete_part_def)
  have noLF: "LF \<notin> set ?l" "parse ?l = Some (n + length xs, x)" using assms(1) by (simp_all add: codec_ok_def)
  have tail: "drop ?k (render print n xs) = [] \<or> last (drop ?k (render print n xs)) = LF"
  proof (cases "xs = []")
    case False
    then obtain ys y where "xs = ys @ [y]" by (metis append_butlast_last_id)
    then have "last (render print n xs) = LF" by (simp add: render_append journal_line_def)
    then show ?thesis by (metis drop_eq_Nil last_drop not_le)
  qed simp
  have "takeWhile (\<lambda>c. c \<noteq> LF) (rev (drop ?k (render print n xs) @ ?l)) = rev ?l"
  proof (cases "drop ?k (render print n xs)" rule: rev_cases)
    case Nil
    moreover have "takeWhile (\<lambda>c. c \<noteq> LF) (rev ?l) = rev ?l" using noLF(1) by (subst takeWhile_eq_all_conv) auto
    ultimately show ?thesis by simp
  next
    case (snoc ys y)
    then have "y = LF" using tail by simp
    moreover have "takeWhile (\<lambda>c. c \<noteq> LF) (rev ?l @ LF # rev ys) = rev ?l"
      by (subst takeWhile_append2) (use noLF(1) in auto)
    ultimately show ?thesis using snoc by simp
  qed
  moreover have "butlast (drop ?k ?b) = drop ?k (render print n xs) @ ?l" unfolding probe by (simp add: butlast_append)
  moreover have "?b \<noteq> []" using b by simp
  ultimately show ?thesis using noLF(2) unfolding tailSeq_def Let_def cp by (simp add: recs)
qed (simp add: tailSeq_def)

section \<open>The committed records are what is read\<close>

definition journal_ok :: "('f jrec \<Rightarrow> string) \<Rightarrow> nat \<Rightarrow> 'f list \<Rightarrow> journal \<Rightarrow> bool" where
  "journal_ok print chunk recs j \<longleftrightarrow>
     jOffset j = length (render print 1 recs) \<and> jSeq j = length recs \<and>
     (\<forall>i < length recs. length (journal_line print (1 + i) (recs ! i)) \<le> chunk) \<and>
     (if jBroken j
      then \<exists>f k. length (journal_line print (length recs + 1) f) \<le> chunk \<and> jBytes j = render print 1 recs @ take k (journal_line print (length recs + 1) f)
      else jBytes j = render print 1 recs)"

lemma open_image:
  assumes "codec_ok print parse" "\<forall>i < length recs. length (journal_line print (1 + i) (recs ! i)) \<le> chunk"
    and "length (journal_line print (length recs + 1) f) \<le> chunk"
  shows "\<exists>j'. open_journal parse chunk (render print 1 recs @ take k (journal_line print (length recs + 1) f)) = Inr j' \<and>
    (jSeq j' = length recs \<and> journal_ok print chunk recs j' \<or>
     jSeq j' = length recs + 1 \<and> journal_ok print chunk (recs @ [f]) j' \<and> take k (journal_line print (length recs + 1) f) = journal_line print (length recs + 1) f)"
proof (cases "length (journal_line print (length recs + 1) f) \<le> k")
  case True
  have all: "\<forall>i < length (recs @ [f]). length (journal_line print (1 + i) ((recs @ [f]) ! i)) \<le> chunk"
    using assms(2,3) by (auto simp: nth_append less_Suc_eq)
  have "render print 1 recs @ take k (journal_line print (length recs + 1) f) = render print 1 (recs @ [f]) @ []"
    using True by (simp add: render_append)
  moreover have "chunk > 0" using assms(3) by (simp add: journal_line_def)
  moreover note complete_part_suffix[of "[]" chunk print 1 "recs @ [f]"] tailSeq_render[OF assms(1), of "recs @ [f]" 1 chunk] all
  ultimately show ?thesis using True by (simp add: open_journal_def journal_ok_def)
next
  case False
  let ?t = "take k (journal_line print (length recs + 1) f)"
  have t: "?t = take k (print (length recs + 1, f))" using False by (simp add: journal_line_def)
  then have noLF: "LF \<notin> set ?t" using assms(1) by (metis codec_ok_def in_set_takeD)
  have "length ?t < chunk" using False assms(3) by simp
  from complete_part_suffix[OF noLF this, of print 1 recs] tailSeq_render[OF assms(1), of recs 1 chunk] assms(2)
  show ?thesis by (auto simp: open_journal_def journal_ok_def)
qed

lemma run_ok:
  assumes "journal_run print parse chunk recs j" "codec_ok print parse"
  shows "journal_ok print chunk recs j"
  using assms(1)
proof (induction rule: journal_run.induct)
  case created
  then show ?case by (simp add: journal_ok_def)
next
  case (appended recs j f how res j')
  show ?case
  proof (cases "jBroken j")
    case True
    with appended(3,4) show ?thesis by (auto simp: append_journal_def)
  next
    case False
    with appended(4) have b: "jBytes j = render print 1 recs" "jSeq j = length recs" "jOffset j = length (render print 1 recs)"
      "\<forall>i < length recs. length (journal_line print (1 + i) (recs ! i)) \<le> chunk" by (auto simp: journal_ok_def)
    have all: "\<forall>i < length (recs @ [f]). length (journal_line print (1 + i) ((recs @ [f]) ! i)) \<le> chunk"
      using b(4) appended(2) b(2) by (auto simp: nth_append less_Suc_eq)
    show ?thesis
    proof (cases how)
      case Synced
      with appended(3) False b all show ?thesis by (auto simp: append_journal_def journal_ok_def render_append Let_def)
    next
      case RolledBack
      with appended(3) False b show ?thesis by (auto simp: append_journal_def journal_ok_def Let_def)
    next
      case (LeftBehind k)
      then have res: "res = Inl AppendFailed" "j' = j\<lparr>jBytes := render print 1 recs @ take k (journal_line print (length recs + 1) f), jBroken := True\<rparr>"
        using appended(3) False b by (auto simp: append_journal_def Let_def)
      have "\<exists>g m. length (journal_line print (length recs + 1) g) \<le> chunk \<and>
          render print 1 recs @ take k (journal_line print (length recs + 1) f) = render print 1 recs @ take m (journal_line print (length recs + 1) g)"
        using appended(2) b(2) by (intro exI[of _ f] exI[of _ k]) simp
      with b(2-4) show ?thesis by (simp add: res journal_ok_def)
    qed
  qed
next
  case (reopened recs j f img k j' f')
  note ok = reopened.IH
  then have seq: "jSeq j = length recs" and all: "\<forall>i < length recs. length (journal_line print (1 + i) (recs ! i)) \<le> chunk" by (simp_all add: journal_ok_def)
  from ok reopened.hyps(2,3) seq obtain g m where img: "img = render print 1 recs @ take m (journal_line print (length recs + 1) g)"
    and g: "length (journal_line print (length recs + 1) g) \<le> chunk" "\<not> jBroken j \<longrightarrow> g = f" by (auto simp: journal_ok_def split: if_splits)
  from open_image[OF assms(2) all g(1), of m] reopened.hyps(4) img
  have "jSeq j' = length recs \<and> journal_ok print chunk recs j' \<or>
     jSeq j' = length recs + 1 \<and> journal_ok print chunk (recs @ [g]) j' \<and> take m (journal_line print (length recs + 1) g) = journal_line print (length recs + 1) g" by auto
  then show ?case
  proof (elim disjE conjE)
    assume "jSeq j' = length recs" "journal_ok print chunk recs j'"
    then show ?thesis using seq by simp
  next
    assume h: "jSeq j' = length recs + 1" "journal_ok print chunk (recs @ [g]) j'" "take m (journal_line print (length recs + 1) g) = journal_line print (length recs + 1) g"
    have "jOffset j = length (render print 1 recs)" using ok by (simp add: journal_ok_def)
    then have "parse (butlast (drop (jOffset j) img)) = Some (length recs + 1, g)"
      using img h(3) assms(2) by (simp add: journal_line_def codec_ok_def)
    then have "f' = g" using reopened.hyps(5) g(2) by auto
    with h seq show ?thesis by simp
  qed
qed

text \<open>C22. The journal loses nothing that was committed and never shows what was not: after any run of appends that succeed, are rolled back or are left behind
  half-written, and of crashes in the middle of a line followed by a reopen, reading the file in chunks gives exactly the committed records, in order and numbered
  from one without gaps; and the store can be reopened from what a crash leaves, with the interrupted record either whole or gone.\<close>

theorem journal_reads_back:
  assumes "journal_run print parse chunk recs j" "codec_ok print parse"
  shows "\<exists>rs. iterateJournal parse (jBytes j) 0 chunk (jOffset j) = Inr rs \<and> map fst rs = numbered recs \<and>
    (\<forall>f k. \<not> jBroken j \<longrightarrow> length (journal_line print (jSeq j + 1) f) \<le> chunk \<longrightarrow>
       (\<exists>j'. open_journal parse chunk (jBytes j @ take k (journal_line print (jSeq j + 1) f)) = Inr j' \<and>
         (journal_run print parse chunk recs j' \<or> journal_run print parse chunk (recs @ [f]) j')))"
proof -
  note ok = run_ok[OF assms]
  then obtain junk where b: "jBytes j = [] @ render print 1 recs @ junk" by (auto simp: journal_ok_def split: if_splits)
  have "iterateJournal parse (jBytes j) 0 chunk (jOffset j) = Inr (located print 0 1 recs)"
    using iterate_render[OF assms(2) _ b, of chunk "jOffset j"] ok by (simp add: journal_ok_def)
  moreover have "map fst (located print 0 1 recs) = numbered recs" by (simp add: map_fst_located numbered_def)
  moreover have "\<exists>j'. open_journal parse chunk (jBytes j @ take k (journal_line print (jSeq j + 1) f)) = Inr j' \<and>
         (journal_run print parse chunk recs j' \<or> journal_run print parse chunk (recs @ [f]) j')"
    if "\<not> jBroken j" "length (journal_line print (jSeq j + 1) f) \<le> chunk" for f k
  proof -
    have seq: "jSeq j = length recs" "jBytes j = render print 1 recs" using ok that(1) by (simp_all add: journal_ok_def)
    have all: "\<forall>i < length recs. length (journal_line print (1 + i) (recs ! i)) \<le> chunk" using ok by (simp add: journal_ok_def)
    from open_image[OF assms(2) all, of f k] that(2) seq obtain j'
      where j': "open_journal parse chunk (jBytes j @ take k (journal_line print (jSeq j + 1) f)) = Inr j'" by auto
    from journal_run.reopened[OF assms(1) that(2) refl, of k j' f] that(1) j' show ?thesis by (auto split: if_splits)
  qed
  ultimately show ?thesis by blast
qed

text \<open>A codec for the examples: the number in unary in front of a flag.\<close>

definition example_print :: "bool jrec \<Rightarrow> string" where
  "example_print r = replicate (fst r) (CHR ''1'') @ (if snd r then ''t'' else ''f'')"

definition example_parse :: "string \<Rightarrow> bool jrec option" where
  "example_parse s = (if s = [] then None else Some (length s - 1, last s = CHR ''t''))"

lemma example_codec: "codec_ok example_print example_parse"
proof -
  have "CHR ''1'' \<noteq> LF" "CHR ''t'' \<noteq> LF" "CHR ''f'' \<noteq> LF" by (simp_all add: LF_def char_of_def)
  then show ?thesis by (auto simp: codec_ok_def example_print_def example_parse_def)
qed

definition example_journal :: journal where
  "example_journal = \<lparr>jBytes = ''1t'' @ LF # ''11f'' @ [LF], jOffset = 7, jSeq = 2, jBroken = False\<rparr>"

lemma example_run: "journal_run example_print example_parse 10 [True, False] example_journal"
proof -
  let ?j0 = "\<lparr>jBytes = [], jOffset = 0, jSeq = 0, jBroken = False\<rparr>"
  let ?j1 = "\<lparr>jBytes = ''1t'' @ [LF], jOffset = 3, jSeq = 1, jBroken = False\<rparr>"
  have 1: "journal_run example_print example_parse 10 [] ?j0" by (rule journal_run.created)
  have a1: "append_journal example_print Synced True ?j0 = (Inr (1, True), ?j1)" by (simp add: append_journal_def journal_line_def example_print_def)
  have 2: "journal_run example_print example_parse 10 [True] ?j1"
    using journal_run.appended[OF 1 _ a1] by (simp add: journal_line_def example_print_def)
  have torn: "open_journal example_parse 10 (jBytes ?j1 @ take 2 (journal_line example_print 2 True)) = Inr ?j1"
    by code_simp
  have 3: "journal_run example_print example_parse 10 [True] ?j1"
    using journal_run.reopened[OF 2, of True _ 2 ?j1 True] torn by (simp add: journal_line_def example_print_def numeral_2_eq_2)
  have a2: "append_journal example_print Synced False ?j1 = (Inr (2, False), example_journal)"
    by (simp add: append_journal_def journal_line_def example_print_def example_journal_def numeral_2_eq_2)
  show ?thesis using journal_run.appended[OF 3 _ a2] by (simp add: journal_line_def example_print_def numeral_2_eq_2)
qed

theorem journal_reads_back_witness:
  "\<exists>rs. iterateJournal example_parse (jBytes example_journal) 0 10 7 = Inr rs \<and> map fst rs = [(1, True), (2, False)]"
  using journal_reads_back[OF example_run example_codec] by (auto simp: example_journal_def numbered_def)

end
