(* ===== verification/Store.thy ===== *)
theory Store
  imports Manifest Json
begin

text \<open>
  The object store (\<^verbatim>\<open>src/src/store/objects.js\<close>, \<^verbatim>\<open>ids.js\<close>, \<^verbatim>\<open>retention.js\<close>): content-addressed blobs, immutable job manifests, per-job retention state and
  the journal of every change. The journal is the list of its committed records (theory \<open>Journal\<close> shows that the file behaves as one). Every access to the disk or the
  journal that can fail consumes an outcome from \<open>sIo\<close> (success when none is left), so an operation is a function of the state that may stop half-way. The content
  hash is the parameter \<open>hash\<close>, \<^verbatim>\<open>JSON.parse\<close> of a manifest is \<open>pj\<close>, and the hash of a canonical entry list is \<open>dg\<close>. The cache of \<^verbatim>\<open>jobBlobs\<close> only saves work and is
  left out, as are symbolic links under the store root, which every access refuses.
\<close>

section \<open>Identifiers\<close>

definition is_hex :: "char \<Rightarrow> bool" where
  "is_hex c \<longleftrightarrow> c \<in> set ''0123456789abcdef''"

definition isSha256 :: "string \<Rightarrow> bool" where
  "isSha256 s \<longleftrightarrow> length s = 64 \<and> list_all is_hex s"

definition job_char :: "char \<Rightarrow> bool" where
  "job_char c \<longleftrightarrow> c \<in> set ''ABCDEFGHIJKLMNOPQRSTUVWXYZabcdefghijklmnopqrstuvwxyz0123456789''"

definition isJobId :: "string \<Rightarrow> bool" where
  "isJobId s \<longleftrightarrow>
     (case s of [] \<Rightarrow> False | c # cs \<Rightarrow> job_char c \<and> length cs \<le> 127 \<and> list_all (\<lambda>d. job_char d \<or> d \<in> set ''._-'') cs)"

definition blobRelPath :: "string \<Rightarrow> string" where
  "blobRelPath sha = ''blobs/'' @ take 2 sha @ ''/'' @ take 2 (drop 2 sha) @ ''/'' @ sha"

definition manifestRelPath :: "string \<Rightarrow> string" where
  "manifestRelPath job = ''manifests/'' @ job @ ''.json''"

datatype obj = Blob string | Man string

definition parseObjectPath :: "string \<Rightarrow> obj option" where
  "parseObjectPath rel =
     (let sha = drop 12 rel; job = take (length rel - 15) (drop 10 rel)
      in if isSha256 sha \<and> rel = blobRelPath sha then Some (Blob sha)
         else if isJobId job \<and> rel = manifestRelPath job then Some (Man job)
         else None)"

section \<open>Manifest documents\<close>

datatype store_error = E400 | E404 | E409 "string list" | E413 | E422 | E500 | E503 | E507 | EIo

definition exactKeys :: "string list \<Rightarrow> string list \<Rightarrow> jobj \<Rightarrow> bool" where
  "exactKeys allowed required kvs \<longleftrightarrow> set (obj_keys kvs) \<subseteq> set allowed \<and> set required \<subseteq> set (obj_keys kvs)"

definition entry_of_json :: "json \<Rightarrow> manifest_entry option" where
  "entry_of_json v =
     (case (v, field v ''path'') of
        (JObj kvs, Some (JStr p)) \<Rightarrow>
          if \<not> isCanonicalRelPath p then None
          else if field v ''type'' = Some (JStr ''file'')
          then (if exactKeys [''path'', ''type'', ''exec'', ''size'', ''sha256''] [''path'', ''type'', ''size'', ''sha256''] kvs \<and>
                   str_that isSha256 (field v ''sha256'') \<and> int_that (\<lambda>n. n \<ge> 0) (field v ''size'') \<and> absent_or is_bool (field v ''exec'')
                then (case (field v ''size'', field v ''sha256'') of
                        (Some (JNum n), Some (JStr h)) \<Rightarrow> Some \<lparr>ePath = p, eKind = FileEntry (bool_of (field v ''exec'')) (nat \<lfloor>n\<rfloor>) h\<rparr>
                      | _ \<Rightarrow> None)
                else None)
          else if field v ''type'' = Some (JStr ''symlink'')
          then (if exactKeys [''path'', ''type'', ''target''] [''path'', ''type'', ''target''] kvs
                then (case field v ''target'' of Some (JStr t) \<Rightarrow> Some \<lparr>ePath = p, eKind = LinkEntry t\<rparr> | _ \<Rightarrow> None) else None)
          else None
      | _ \<Rightarrow> None)"

fun entries_of_json :: "json list \<Rightarrow> manifest_entry list option" where
  "entries_of_json [] = Some []"
| "entries_of_json (v # vs) =
     (case (entry_of_json v, entries_of_json vs) of (Some e, Some es) \<Rightarrow> Some (e # es) | _ \<Rightarrow> None)"

definition manifestHashOf :: "(manifest_entry list \<Rightarrow> string) \<Rightarrow> manifest_entry list \<Rightarrow> string" where
  "manifestHashOf dg es = dg (sortEntries es)"

definition parseManifestDoc :: "(manifest_entry list \<Rightarrow> string) \<Rightarrow> json option \<Rightarrow> store_error + string \<times> manifest_entry list" where
  "parseManifestDoc dg d =
     (case d of
        Some (JObj kvs) \<Rightarrow>
          if \<not> exactKeys [''manifestHash'', ''entries''] [''manifestHash'', ''entries''] kvs then Inl E400
          else (case (map_of kvs ''manifestHash'', map_of kvs ''entries'') of
                  (Some (JStr h), Some (JArr vs)) \<Rightarrow>
                    if \<not> isSha256 h then Inl E400
                    else (case entries_of_json vs of
                            None \<Rightarrow> Inl E400
                          | Some es \<Rightarrow> if manifestHashOf dg es \<noteq> h then Inl E422 else Inr (h, es))
                | _ \<Rightarrow> Inl E400)
      | _ \<Rightarrow> Inl E400)"

text \<open>The hash and the blobs a stored document names; it is parsed but not checked again, so a field of another shape counts as absent.\<close>

definition file_ref :: "json \<Rightarrow> string option" where
  "file_ref v = (if field v ''type'' = Some (JStr ''file'') then (case field v ''sha256'' of Some (JStr h) \<Rightarrow> Some h | _ \<Rightarrow> None) else None)"

definition doc_hash :: "json \<Rightarrow> string option" where
  "doc_hash d = (case field d ''manifestHash'' of Some (JStr h) \<Rightarrow> Some h | _ \<Rightarrow> None)"

definition doc_blobs :: "json \<Rightarrow> string list option" where
  "doc_blobs d = (case field d ''entries'' of Some (JArr vs) \<Rightarrow> Some (List.map_filter file_ref vs) | _ \<Rightarrow> None)"

definition file_entries :: "manifest_entry list \<Rightarrow> (string \<times> nat) list" where
  "file_entries es = List.map_filter (\<lambda>e. case eKind e of FileEntry _ n h \<Rightarrow> Some (h, n) | LinkEntry _ \<Rightarrow> None) es"

section \<open>State\<close>

record ofile =
  ofBytes :: string
  ofMtime :: jsnum

record job_meta =
  mtRegistered :: "jsnum option"
  mtTerminal :: "jsnum option"
  mtPinned :: bool

datatype jentry = JPut obj string nat | JTerminal string jsnum | JPin string bool | JIntent obj | JDelete obj | JCancel obj

record store =
  sDisk :: "(obj \<times> ofile) list"
  sMeta :: "(string \<times> job_meta) list"
  sLog :: "jentry list"
  sIo :: "bool list"
  sBytes :: int
  sReserved :: int
  sUnjournaled :: "string list"
  sPending :: "obj list"
  sIntents :: "obj list"
  sLost :: "obj list"
  sVerifying :: "obj list"

record store_cfg =
  capBytes :: "jsnum option"
  maxBlobBytes :: nat
  replicaMode :: bool
  replicaGraceMs :: jsnum

text \<open>The last object record that names each path: present, about to be deleted, or deleted.\<close>

datatype ostate = OPut | OIntent | OGone

definition note_entry :: "(obj \<times> ostate) list \<Rightarrow> jentry \<Rightarrow> (obj \<times> ostate) list" where
  "note_entry m e =
     (case e of
        JPut ob _ _ \<Rightarrow> AList.update ob OPut m
      | JCancel ob \<Rightarrow> AList.update ob OPut m
      | JIntent ob \<Rightarrow> AList.update ob OIntent m
      | JDelete ob \<Rightarrow> AList.update ob OGone m
      | _ \<Rightarrow> m)"

definition objectStateByPath :: "jentry list \<Rightarrow> (obj \<times> ostate) list" where
  "objectStateByPath es = foldl note_entry [] es"

text \<open>An operation: it may stop with an error, leaving the state as far as it got.\<close>

type_synonym 'a act = "store \<Rightarrow> (store_error + 'a) \<times> store"

definition chain :: "'a act \<Rightarrow> ('a \<Rightarrow> 'b act) \<Rightarrow> 'b act" where
  "chain m f s = (case m s of (Inl e, s') \<Rightarrow> (Inl e, s') | (Inr x, s') \<Rightarrow> f x s')"

definition done_with :: "'a \<Rightarrow> 'a act" where
  "done_with x s = (Inr x, s)"

definition fail :: "store_error \<Rightarrow> 'a act" where
  "fail e s = (Inl e, s)"

definition io :: "unit act" where
  "io s = (case sIo s of [] \<Rightarrow> (Inr (), s) | b # bs \<Rightarrow> (if b then Inr () else Inl EIo, s\<lparr>sIo := bs\<rparr>))"

definition modify :: "(store \<Rightarrow> store) \<Rightarrow> unit act" where
  "modify f s = (Inr (), f s)"

definition append_entry :: "jentry \<Rightarrow> unit act" where
  "append_entry e = chain io (\<lambda>_. modify (\<lambda>s. s\<lparr>sLog := sLog s @ [e]\<rparr>))"

definition on_disk :: "store \<Rightarrow> obj \<Rightarrow> ofile option" where
  "on_disk s ob = map_of (sDisk s) ob"

definition blobSize :: "store \<Rightarrow> string \<Rightarrow> nat option" where
  "blobSize s sha = map_option (\<lambda>f. length (ofBytes f)) (on_disk s (Blob sha))"

definition hasBlob :: "store \<Rightarrow> string \<Rightarrow> bool" where
  "hasBlob s sha \<longleftrightarrow> blobSize s sha \<noteq> None"

definition intactBlob :: "(string \<Rightarrow> string) \<Rightarrow> store \<Rightarrow> string \<Rightarrow> nat \<Rightarrow> bool" where
  "intactBlob hash s sha n =
     (case on_disk s (Blob sha) of None \<Rightarrow> False | Some f \<Rightarrow> length (ofBytes f) = n \<and> hash (ofBytes f) = sha)"

definition over_cap :: "store_cfg \<Rightarrow> int \<Rightarrow> bool" where
  "over_cap cfg n = (case capBytes cfg of None \<Rightarrow> False | Some c \<Rightarrow> of_int n \<ge> c * 95 / 100)"

definition reserve :: "store_cfg \<Rightarrow> nat \<Rightarrow> unit act" where
  "reserve cfg n s =
     (if over_cap cfg (sBytes s + sReserved s + int n) then (Inl E507, s) else (Inr (), s\<lparr>sReserved := sReserved s + int n\<rparr>))"

definition release :: "nat \<Rightarrow> store \<Rightarrow> store" where
  "release n s = s\<lparr>sReserved := sReserved s - int n\<rparr>"

section \<open>Journaling\<close>

definition journalBlob :: "string \<Rightarrow> unit act" where
  "journalBlob sha s =
     chain (append_entry (JPut (Blob sha) sha (nullish (blobSize s sha) 0))) (\<lambda>_. modify (\<lambda>s. s\<lparr>sUnjournaled := removeAll sha (sUnjournaled s)\<rparr>)) s"

definition cancelIntent :: "obj \<Rightarrow> unit act" where
  "cancelIntent ob s =
     (if ob \<notin> set (sIntents s) then (Inr (), s)
      else chain (append_entry (JCancel ob)) (\<lambda>_. modify (\<lambda>s. s\<lparr>sIntents := removeAll ob (sIntents s)\<rparr>)) s)"

definition journalDelete :: "obj \<Rightarrow> unit act" where
  "journalDelete ob = chain (append_entry (JDelete ob)) (\<lambda>_. modify (\<lambda>s. s\<lparr>sPending := removeAll ob (sPending s)\<rparr>))"

fun flush_all :: "obj list \<Rightarrow> unit act" where
  "flush_all [] s = (Inr (), s)"
| "flush_all (ob # obs) s = chain (journalDelete ob) (\<lambda>_. flush_all obs) s"

definition flushPendingDeletes :: "unit act" where
  "flushPendingDeletes s = flush_all (sPending s) s"

definition journal_if_needed :: "string \<Rightarrow> unit act" where
  "journal_if_needed sha s = (if sha \<in> set (sUnjournaled s) then journalBlob sha s else (Inr (), s))"

section \<open>Uploads\<close>

definition put_file :: "obj \<Rightarrow> string \<Rightarrow> jsnum \<Rightarrow> store \<Rightarrow> store" where
  "put_file ob bytes now s = s\<lparr>sDisk := AList.update ob \<lparr>ofBytes = bytes, ofMtime = now\<rparr> (sDisk s)\<rparr>"

definition drop_file :: "obj \<Rightarrow> store \<Rightarrow> store" where
  "drop_file ob s = s\<lparr>sDisk := AList.delete ob (sDisk s)\<rparr>"

definition touch :: "obj \<Rightarrow> jsnum \<Rightarrow> unit act" where
  "touch ob now = chain io (\<lambda>_. modify (\<lambda>s. case on_disk s ob of None \<Rightarrow> s | Some f \<Rightarrow> put_file ob (ofBytes f) now s))"

text \<open>The body of a duplicate is read to its end before this; \<^verbatim>\<open>acknowledgeDuplicate\<close>.\<close>

definition acknowledgeDuplicate :: "(string \<Rightarrow> string) \<Rightarrow> string \<Rightarrow> string \<Rightarrow> jsnum \<Rightarrow> bool act" where
  "acknowledgeDuplicate hash sha body now s =
     (if hash body \<noteq> sha then (Inl E422, s)
      else if \<not> hasBlob s sha then (Inl E503, s)
      else chain (touch (Blob sha) now) (\<lambda>_. chain (journal_if_needed sha) (\<lambda>_. chain (cancelIntent (Blob sha)) (\<lambda>_. done_with False))) s)"

text \<open>The start of an upload: refused, to be acknowledged as a duplicate (\<open>False\<close>), or reserved (\<open>True\<close>).\<close>

definition putBlob_start :: "(string \<Rightarrow> string) \<Rightarrow> store_cfg \<Rightarrow> string \<Rightarrow> nat \<Rightarrow> bool act" where
  "putBlob_start hash cfg sha declared s =
     (if \<not> isSha256 sha then (Inl E400, s)
      else if declared > maxBlobBytes cfg then (Inl E413, s)
      else if intactBlob hash s sha declared then (Inr False, s)
      else chain (reserve cfg declared) (\<lambda>_. done_with True) s)"

text \<open>After the rename: stamp, sync and journal, or take the blob away again.\<close>

definition settle_blob :: "string \<Rightarrow> nat \<Rightarrow> jsnum \<Rightarrow> bool act" where
  "settle_blob sha n now s =
     (case chain (touch (Blob sha) now) (\<lambda>_. chain io (\<lambda>_. journalBlob sha)) s of
        (Inr _, s1) \<Rightarrow> (Inr True, s1\<lparr>sIntents := removeAll (Blob sha) (sIntents s1), sLost := removeAll (Blob sha) (sLost s1)\<rparr>)
      | (Inl e, s1) \<Rightarrow>
          (case io s1 of
             (Inr _, s2) \<Rightarrow> (Inl e, (drop_file (Blob sha) s2)\<lparr>sBytes := sBytes s2 - int n\<rparr>)
           | (Inl _, s2) \<Rightarrow> (Inl e, s2\<lparr>sUnjournaled := sha # sUnjournaled s2\<rparr>)))"

definition commit_blob :: "(string \<Rightarrow> string) \<Rightarrow> store_cfg \<Rightarrow> string \<Rightarrow> string \<Rightarrow> nat \<Rightarrow> jsnum \<Rightarrow> bool act" where
  "commit_blob hash cfg sha body held now s =
     (let n = length body
      in if n > maxBlobBytes cfg then (Inl E413, s)
         else if hash body \<noteq> sha then (Inl E422, s)
         else if intactBlob hash s sha n then chain (touch (Blob sha) now) (\<lambda>_. chain (journal_if_needed sha) (\<lambda>_. done_with False)) s
         else if over_cap cfg (sBytes s + int n + (sReserved s - int held)) then (Inl E507, s)
         else chain flushPendingDeletes (\<lambda>_. chain io (\<lambda>_ s1.
                settle_blob sha n now ((put_file (Blob sha) body now s1)\<lparr>sBytes := sBytes s1 + int n - int (nullish (blobSize s1 sha) 0)\<rparr>))) s)"

text \<open>The end of an upload whose body is on disk in \<^verbatim>\<open>tmp\<close>: commit, and release the reservation whatever happened.\<close>

definition putBlob_finish :: "(string \<Rightarrow> string) \<Rightarrow> store_cfg \<Rightarrow> string \<Rightarrow> string \<Rightarrow> nat \<Rightarrow> jsnum \<Rightarrow> bool act" where
  "putBlob_finish hash cfg sha body held now s = (case commit_blob hash cfg sha body held now s of (r, s') \<Rightarrow> (r, release held s'))"

section \<open>Manifests and retention state\<close>

text \<open>\<open>None\<close> is no manifest (a falsy document counts as none), \<open>Some None\<close> a file that is not JSON, which throws.\<close>

definition falsy :: "json \<Rightarrow> bool" where
  "falsy v \<longleftrightarrow> v = JNull \<or> v = JBool False \<or> v = JNum 0 \<or> v = JStr []"

definition readManifest :: "(string \<Rightarrow> json option) \<Rightarrow> store \<Rightarrow> string \<Rightarrow> json option option" where
  "readManifest pj s job =
     (case on_disk s (Man job) of
        None \<Rightarrow> None
      | Some f \<Rightarrow>
          if \<not> isJobId job then None
          else case pj (ofBytes f) of None \<Rightarrow> Some None | Some d \<Rightarrow> if falsy d then None else Some (Some d))"

fun journal_blobs :: "string list \<Rightarrow> unit act" where
  "journal_blobs [] s = (Inr (), s)"
| "journal_blobs (h # hs) s = chain (journal_if_needed h) (\<lambda>_. journal_blobs hs) s"

fun cancel_intents :: "string list \<Rightarrow> unit act" where
  "cancel_intents [] s = (Inr (), s)"
| "cancel_intents (h # hs) s = chain (cancelIntent (Blob h)) (\<lambda>_. cancel_intents hs) s"

definition write_manifest :: "(string \<Rightarrow> string) \<Rightarrow> string \<Rightarrow> string \<Rightarrow> jsnum \<Rightarrow> bool act" where
  "write_manifest hash job bytes now s =
     (let s1 = (put_file (Man job) bytes now s)\<lparr>sBytes := sBytes s + int (length bytes)\<rparr>
      in case chain io (\<lambda>_. chain (modify (\<lambda>s. s\<lparr>sMeta := AList.update job \<lparr>mtRegistered = Some now, mtTerminal = None, mtPinned = False\<rparr> (sMeta s)\<rparr>))
                (\<lambda>_. append_entry (JPut (Man job) (hash bytes) (length bytes)))) s1 of
           (Inr _, s2) \<Rightarrow> (Inr True, s2\<lparr>sLost := removeAll (Man job) (sLost s2)\<rparr>)
         | (Inl e, s2) \<Rightarrow> (Inl e, (drop_file (Man job) s2)\<lparr>sMeta := AList.delete job (sMeta s2), sBytes := sBytes s2 - int (length bytes)\<rparr>))"

definition MAX_MANIFEST_BYTES :: nat where "MAX_MANIFEST_BYTES = 16777216 - 4096"

definition registerManifest ::
  "(string \<Rightarrow> string) \<Rightarrow> (string \<Rightarrow> json option) \<Rightarrow> (manifest_entry list \<Rightarrow> string) \<Rightarrow> store_cfg \<Rightarrow> string \<Rightarrow> string \<Rightarrow> jsnum \<Rightarrow> bool act" where
  "registerManifest hash pj dg cfg job bytes now s =
     (if \<not> isJobId job then (Inl E400, s)
      else if length bytes > MAX_MANIFEST_BYTES then (Inl E413, s)
      else case parseManifestDoc dg (pj bytes) of
             Inl e \<Rightarrow> (Inl e, s)
           | Inr (h, es) \<Rightarrow>
               (case readManifest pj s job of
                  Some None \<Rightarrow> (Inl EIo, s)
                | Some (Some d) \<Rightarrow> if doc_hash d \<noteq> Some h then (Inl (E409 []), s) else (Inr False, s)
                | None \<Rightarrow>
                    (let fs = file_entries es; missing = map fst (filter (\<lambda>(h, n). blobSize s h \<noteq> Some n) fs)
                     in if missing \<noteq> [] then (Inl (E409 (rev (remdups (rev missing)))), s)
                        else if over_cap cfg (sBytes s + sReserved s + int (length bytes)) then (Inl E507, s)
                        else chain flushPendingDeletes (\<lambda>_. chain (journal_blobs (map fst fs)) (\<lambda>_. chain (cancel_intents (map fst fs)) (\<lambda>_.
                               chain io (\<lambda>_. write_manifest hash job bytes now)))) s)))"

definition no_meta :: job_meta where
  "no_meta = \<lparr>mtRegistered = None, mtTerminal = None, mtPinned = False\<rparr>"

definition meta :: "store \<Rightarrow> string \<Rightarrow> job_meta" where
  "meta s job = nullish (map_of (sMeta s) job) no_meta"

text \<open>The new state of a job and its record; undone when the record cannot be written.\<close>

definition write_state :: "string \<Rightarrow> job_meta \<Rightarrow> job_meta \<Rightarrow> jentry \<Rightarrow> bool act" where
  "write_state job before after e s =
     (case append_entry e (s\<lparr>sMeta := AList.update job after (sMeta s)\<rparr>) of
        (Inr _, s1) \<Rightarrow> (Inr True, s1)
      | (Inl err, s1) \<Rightarrow>
          (case io s1 of (Inr _, s2) \<Rightarrow> (Inl err, s2\<lparr>sMeta := AList.update job before (sMeta s2)\<rparr>) | (Inl err', s2) \<Rightarrow> (Inl err', s2)))"

text \<open>\<^verbatim>\<open>setJobState\<close> with the changed state and its record; a document that does not parse throws.\<close>

definition setJobState :: "(string \<Rightarrow> json option) \<Rightarrow> string \<Rightarrow> (job_meta \<Rightarrow> job_meta) \<Rightarrow> jentry \<Rightarrow> bool act" where
  "setJobState pj job upd e s =
     (case readManifest pj s job of
        None \<Rightarrow> (Inl E404, s)
      | Some None \<Rightarrow> (Inl EIo, s)
      | Some (Some _) \<Rightarrow>
          chain flushPendingDeletes (\<lambda>_ s1.
            (let before = meta s1 job
             in if upd before = before then (Inr False, s1) else chain io (\<lambda>_. write_state job before (upd before) e) s1)) s)"

definition markTerminal :: "(string \<Rightarrow> json option) \<Rightarrow> string \<Rightarrow> jsnum \<Rightarrow> bool act" where
  "markTerminal pj job at' = setJobState pj job (\<lambda>m. m\<lparr>mtTerminal := Some at'\<rparr>) (JTerminal job at')"

definition setPinned :: "(string \<Rightarrow> json option) \<Rightarrow> string \<Rightarrow> bool \<Rightarrow> bool act" where
  "setPinned pj job p = setJobState pj job (\<lambda>m. m\<lparr>mtPinned := p\<rparr>) (JPin job p)"

section \<open>Deletion\<close>

definition jobs_of :: "store \<Rightarrow> string list" where
  "jobs_of s = List.map_filter (\<lambda>(ob, _). case ob of Man j \<Rightarrow> if isJobId j then Some j else None | Blob _ \<Rightarrow> None) (sDisk s)"

text \<open>The blobs of a job; the outer \<open>None\<close> is a document that throws.\<close>

definition jobBlobs :: "(string \<Rightarrow> json option) \<Rightarrow> store \<Rightarrow> string \<Rightarrow> string list option option" where
  "jobBlobs pj s job =
     (case readManifest pj s job of
        None \<Rightarrow> Some None
      | Some None \<Rightarrow> None
      | Some (Some d) \<Rightarrow> (case doc_blobs d of None \<Rightarrow> None | Some hs \<Rightarrow> Some (Some hs)))"

fun protected_by :: "(string \<Rightarrow> json option) \<Rightarrow> store \<Rightarrow> string \<Rightarrow> string list \<Rightarrow> bool option" where
  "protected_by pj s sha [] = Some False"
| "protected_by pj s sha (j # js) =
     (if \<not> mtPinned (meta s j) \<and> mtTerminal (meta s j) \<noteq> None then protected_by pj s sha js
      else case jobBlobs pj s j of
             None \<Rightarrow> None
           | Some hs \<Rightarrow> if sha \<in> set (nullish hs []) then Some True else protected_by pj s sha js)"

definition isProtectedBlob :: "(string \<Rightarrow> json option) \<Rightarrow> store \<Rightarrow> string \<Rightarrow> bool option" where
  "isProtectedBlob pj s sha = protected_by pj s sha (jobs_of s)"

definition forget_meta :: "obj \<Rightarrow> unit act" where
  "forget_meta ob = (case ob of Man j \<Rightarrow> chain (modify (\<lambda>s. s\<lparr>sMeta := AList.delete j (sMeta s)\<rparr>)) (\<lambda>_. io) | Blob _ \<Rightarrow> done_with ())"

text \<open>The three durable steps, once nothing stands against the deletion.\<close>

definition remove_object :: "obj \<Rightarrow> nat \<Rightarrow> bool act" where
  "remove_object ob n =
     chain (append_entry (JIntent ob)) (\<lambda>_. chain (modify (\<lambda>s. s\<lparr>sIntents := ob # sIntents s\<rparr>)) (\<lambda>_. chain io (\<lambda>_.
       chain (modify (drop_file ob)) (\<lambda>_. chain io (\<lambda>_.
         chain (modify (\<lambda>s. s\<lparr>sBytes := sBytes s - int n, sPending := ob # sPending s\<rparr>)) (\<lambda>_. chain (forget_meta ob) (\<lambda>_.
           chain (journalDelete ob) (\<lambda>_. chain (modify (\<lambda>s. s\<lparr>sIntents := removeAll ob (sIntents s)\<rparr>)) (\<lambda>_. done_with True)))))))))"

definition deleteObject :: "(string \<Rightarrow> json option) \<Rightarrow> obj \<Rightarrow> bool act" where
  "deleteObject pj ob s =
     (case (case ob of Blob sha \<Rightarrow> isProtectedBlob pj s sha | Man _ \<Rightarrow> Some False) of
        None \<Rightarrow> (Inl EIo, s)
      | Some True \<Rightarrow> (Inl (E409 []), s)
      | Some False \<Rightarrow>
          if ob \<in> set (sVerifying s) then (Inr False, s)
          else chain flushPendingDeletes (\<lambda>_ s1.
                 (case on_disk s1 ob of None \<Rightarrow> (Inr False, s1) | Some f \<Rightarrow> remove_object ob (length (ofBytes f)) s1)) s)"

definition maintain :: "unit act" where
  "maintain = flushPendingDeletes"

text \<open>\<^verbatim>\<open>rejournal\<close> of one path, before and after its file is hashed; a path being hashed is not deleted.\<close>

definition rejournal_start :: "obj \<Rightarrow> unit act" where
  "rejournal_start ob = chain flushPendingDeletes (\<lambda>_. modify (\<lambda>s. s\<lparr>sVerifying := ob # sVerifying s\<rparr>))"

definition rejournal_finish :: "(string \<Rightarrow> string) \<Rightarrow> obj \<Rightarrow> string option \<Rightarrow> unit act" where
  "rejournal_finish hash ob seen s =
     (case (case seen of None \<Rightarrow> (Inr (), s) | Some bytes \<Rightarrow> append_entry (JPut ob (hash bytes) (length bytes)) s) of
        (r, s') \<Rightarrow> (r, s'\<lparr>sVerifying := remove1 ob (sVerifying s')\<rparr>))"

section \<open>Opening\<close>

record reconcile_report =
  rpJournaled :: "obj list"
  rpCorrupt :: "obj list"
  rpDeleted :: "obj list"
  rpLost :: "obj list"

definition is_blob :: "obj \<Rightarrow> bool" where
  "is_blob ob = (case ob of Blob _ \<Rightarrow> True | Man _ \<Rightarrow> False)"

fun journal_orphans :: "(string \<Rightarrow> string) \<Rightarrow> (obj \<times> ofile) list \<Rightarrow> reconcile_report \<Rightarrow> reconcile_report act" where
  "journal_orphans hash [] rp s = (Inr rp, s)"
| "journal_orphans hash ((ob, f) # os) rp s =
     (if (case ob of Blob sha \<Rightarrow> hash (ofBytes f) \<noteq> sha | Man _ \<Rightarrow> False)
      then journal_orphans hash os (rp\<lparr>rpCorrupt := rpCorrupt rp @ [ob]\<rparr>) s
      else chain (append_entry (JPut ob (hash (ofBytes f)) (length (ofBytes f))))
             (\<lambda>_. journal_orphans hash os (rp\<lparr>rpJournaled := rpJournaled rp @ [ob]\<rparr>)) s)"

fun settle_missing :: "(obj \<times> ostate) list \<Rightarrow> reconcile_report \<Rightarrow> reconcile_report act" where
  "settle_missing [] rp s = (Inr rp, s)"
| "settle_missing ((ob, st) # os) rp s =
     (if on_disk s ob \<noteq> None then settle_missing os rp s
      else case st of
             OIntent \<Rightarrow> chain (append_entry (JDelete ob)) (\<lambda>_. settle_missing os (rp\<lparr>rpDeleted := rpDeleted rp @ [ob]\<rparr>)) s
           | OPut \<Rightarrow> settle_missing os (rp\<lparr>rpLost := rpLost rp @ [ob]\<rparr>) (s\<lparr>sLost := ob # sLost s\<rparr>)
           | OGone \<Rightarrow> settle_missing os rp s)"

definition is_orphan :: "(obj \<times> ostate) list \<Rightarrow> obj \<times> ofile \<Rightarrow> bool" where
  "is_orphan st of' \<longleftrightarrow> map_of st (fst of') \<noteq> Some OPut \<and> map_of st (fst of') \<noteq> Some OIntent"

definition reconcile_store :: "(string \<Rightarrow> string) \<Rightarrow> reconcile_report act" where
  "reconcile_store hash s =
     (let st = objectStateByPath (sLog s);
          orphans = filter (is_orphan st) (sDisk s)
      in chain (journal_orphans hash (filter (\<lambda>x. is_blob (fst x)) orphans @ filter (\<lambda>x. \<not> is_blob (fst x)) orphans)
                  \<lparr>rpJournaled = [], rpCorrupt = [], rpDeleted = [], rpLost = []\<rparr>)
           (settle_missing st) s)"

definition valid_obj :: "obj \<Rightarrow> bool" where
  "valid_obj ob = (case ob of Blob sha \<Rightarrow> isSha256 sha | Man j \<Rightarrow> isJobId j)"

text \<open>A store on the files and the journal a previous process left; files that are not objects are ignored.\<close>

definition open_store ::
  "(string \<Rightarrow> string) \<Rightarrow> (obj \<times> ofile) list \<Rightarrow> (string \<times> job_meta) list \<Rightarrow> jentry list \<Rightarrow> bool list \<Rightarrow> (store_error + reconcile_report) \<times> store" where
  "open_store hash disk metas recs ios =
     (let objs = filter (\<lambda>x. valid_obj (fst x)) disk
      in reconcile_store hash
           \<lparr>sDisk = objs, sMeta = metas, sLog = recs, sIo = ios, sBytes = (\<Sum>x \<leftarrow> objs. int (length (ofBytes (snd x)))), sReserved = 0,
            sUnjournaled = [], sPending = [], sIntents = map fst (filter (\<lambda>x. snd x = OIntent) (objectStateByPath recs)), sLost = [], sVerifying = []\<rparr>)"

section \<open>Retention\<close>

definition manifestAfterTerminalMs :: jsnum where "manifestAfterTerminalMs = 14 * 24 * 3600 * 1000"
definition unreferencedBlobMs :: jsnum where "unreferencedBlobMs = 24 * 3600 * 1000"
definition evictAtFraction :: jsnum where "evictAtFraction = 8 / 10"

definition evictable :: "store \<Rightarrow> string \<Rightarrow> bool" where
  "evictable s j \<longleftrightarrow> \<not> mtPinned (meta s j) \<and> mtTerminal (meta s j) \<noteq> None"

definition expired_job :: "jsnum \<Rightarrow> jsnum \<Rightarrow> store \<Rightarrow> string \<Rightarrow> bool" where
  "expired_job grace now s j \<longleftrightarrow> evictable s j \<and> now - nullish (mtTerminal (meta s j)) 0 \<ge> grace"

fun referenced_by :: "(string \<Rightarrow> json option) \<Rightarrow> store \<Rightarrow> string list \<Rightarrow> string list option" where
  "referenced_by pj s [] = Some []"
| "referenced_by pj s (j # js) =
     (case (jobBlobs pj s j, referenced_by pj s js) of (Some hs, Some rest) \<Rightarrow> Some (nullish hs [] @ rest) | _ \<Rightarrow> None)"

definition referencedBlobs :: "(string \<Rightarrow> json option) \<Rightarrow> store \<Rightarrow> string list option" where
  "referencedBlobs pj s = referenced_by pj s (jobs_of s)"

fun delete_all :: "(string \<Rightarrow> json option) \<Rightarrow> obj list \<Rightarrow> unit act" where
  "delete_all pj [] s = (Inr (), s)"
| "delete_all pj (ob # obs) s = chain (deleteObject pj ob) (\<lambda>_. delete_all pj obs) s"

definition sweepBlobs :: "(string \<Rightarrow> json option) \<Rightarrow> jsnum \<Rightarrow> jsnum \<Rightarrow> unit act" where
  "sweepBlobs pj now grace s =
     (case referencedBlobs pj s of
        None \<Rightarrow> (Inl EIo, s)
      | Some refs \<Rightarrow>
          delete_all pj (List.map_filter (\<lambda>(ob, f). case ob of Blob h \<Rightarrow> if h \<notin> set refs \<and> now - ofMtime f \<ge> grace then Some ob else None | Man _ \<Rightarrow> None) (sDisk s)) s)"

text \<open>One evicted job: its manifest, then the blobs only it referenced.\<close>

definition evict_job :: "(string \<Rightarrow> json option) \<Rightarrow> string \<Rightarrow> unit act" where
  "evict_job pj j s =
     (case jobBlobs pj s j of
        None \<Rightarrow> (Inl EIo, s)
      | Some owned \<Rightarrow>
          chain (deleteObject pj (Man j)) (\<lambda>_ s1.
            (case referencedBlobs pj s1 of
               None \<Rightarrow> (Inl EIo, s1)
             | Some refs \<Rightarrow> delete_all pj (map Blob (filter (\<lambda>h. h \<notin> set refs) (rev (remdups (rev (nullish owned []))))) ) s1)) s)"

fun evict_while :: "(string \<Rightarrow> json option) \<Rightarrow> jsnum \<Rightarrow> string list \<Rightarrow> unit act" where
  "evict_while pj limit [] s = (Inr (), s)"
| "evict_while pj limit (j # js) s =
     (if of_int (sBytes s) \<ge> limit then chain (evict_job pj j) (\<lambda>_. evict_while pj limit js) s else (Inr (), s))"

definition sweep :: "(string \<Rightarrow> json option) \<Rightarrow> store_cfg \<Rightarrow> jsnum \<Rightarrow> unit act" where
  "sweep pj cfg now s =
     (let graceJob = (if replicaMode cfg then replicaGraceMs cfg else manifestAfterTerminalMs);
          graceBlob = (if replicaMode cfg then replicaGraceMs cfg else unreferencedBlobMs)
      in chain (delete_all pj (map Man (filter (expired_job graceJob now s) (jobs_of s)))) (\<lambda>_.
           chain (sweepBlobs pj now graceBlob) (\<lambda>_ s1.
             (case capBytes cfg of
                None \<Rightarrow> (Inr (), s1)
              | Some c \<Rightarrow> evict_while pj (c * evictAtFraction) (sort_key (\<lambda>j. nullish (mtTerminal (meta s1 j)) 0) (filter (evictable s1) (jobs_of s1))) s1))) s)"

end
