(* ===== verification/Store_Safety.thy ===== *)
theory Store_Safety
  imports Store
begin

text \<open>
  What the object store guarantees over any run of uploads, registrations, retention changes, deletions, sweeps and restarts, with every access to the disk and the
  journal free to fail: a manifest enters the journal only behind the records of its blobs, and the blobs of a job that has not finished stay on disk intact.
\<close>

section \<open>Frames\<close>

lemma snd_io [simp]: "snd (io s) = s\<lparr>sIo := tl (sIo s)\<rparr>"
  by (cases "sIo s") (simp_all add: io_def)

lemma ioD: "io s = (r, s') \<Longrightarrow> s' = s\<lparr>sIo := tl (sIo s)\<rparr>"
  by (metis snd_conv snd_io)

lemma chain_Inl: "m s = (Inl e, s') \<Longrightarrow> chain m f s = (Inl e, s')"
  by (simp add: chain_def)

lemma chain_Inr: "m s = (Inr x, s') \<Longrightarrow> chain m f s = f x s'"
  by (simp add: chain_def)

lemma chain_InrD: "chain m f s = (Inr y, s2) \<Longrightarrow> \<exists>x s1. m s = (Inr x, s1) \<and> f x s1 = (Inr y, s2)"
  by (auto simp: chain_def split: prod.splits sum.splits)

text \<open>A property of the state that an operation preserves however far it gets.\<close>

definition keeps :: "(store \<Rightarrow> bool) \<Rightarrow> 'a act \<Rightarrow> bool" where
  "keeps I m \<longleftrightarrow> (\<forall>s. I s \<longrightarrow> I (snd (m s)))"

lemma keepsD: "keeps I m \<Longrightarrow> I s \<Longrightarrow> I (snd (m s))"
  by (simp add: keeps_def)

lemma keeps_chain: "keeps I m \<Longrightarrow> (\<And>x. keeps I (f x)) \<Longrightarrow> keeps I (chain m f)"
  by (auto simp: keeps_def chain_def split: prod.splits sum.splits)

lemma keeps_done [simp]: "keeps I (done_with x)" "keeps I (fail e)"
  by (simp_all add: keeps_def done_with_def fail_def)

lemma keeps_modify: "(\<And>s. I s \<Longrightarrow> I (f s)) \<Longrightarrow> keeps I (modify f)"
  by (simp add: keeps_def modify_def)

lemma append_entry_cases:
  "append_entry e s = (Inr (), s\<lparr>sIo := tl (sIo s), sLog := sLog s @ [e]\<rparr>) \<or> append_entry e s = (Inl EIo, s\<lparr>sIo := tl (sIo s)\<rparr>)"
  by (cases "sIo s") (auto simp: append_entry_def chain_def io_def modify_def)

lemma append_entry_frame [simp]:
  "sDisk (snd (append_entry e s)) = sDisk s" "sMeta (snd (append_entry e s)) = sMeta s" "sBytes (snd (append_entry e s)) = sBytes s"
  "sReserved (snd (append_entry e s)) = sReserved s" "sUnjournaled (snd (append_entry e s)) = sUnjournaled s"
  "sPending (snd (append_entry e s)) = sPending s" "sIntents (snd (append_entry e s)) = sIntents s" "sVerifying (snd (append_entry e s)) = sVerifying s"
  using append_entry_cases[of e s] by auto

lemma on_disk_put [simp]: "on_disk (put_file ob b t s) x = (if x = ob then Some \<lparr>ofBytes = b, ofMtime = t\<rparr> else on_disk s x)"
  by (simp add: on_disk_def put_file_def update_conv')

lemma on_disk_drop [simp]: "on_disk (drop_file ob s) x = (if x = ob then None else on_disk s x)"
  by (simp add: on_disk_def drop_file_def delete_conv')

lemma on_disk_frame: "sDisk s' = sDisk s \<Longrightarrow> on_disk s' = on_disk s"
  by (simp add: on_disk_def fun_eq_iff)

lemma on_disk_update [simp]:
  "on_disk (s\<lparr>sMeta := a\<rparr>) = on_disk s" "on_disk (s\<lparr>sLog := b\<rparr>) = on_disk s" "on_disk (s\<lparr>sIo := c\<rparr>) = on_disk s" "on_disk (s\<lparr>sBytes := d\<rparr>) = on_disk s"
  "on_disk (s\<lparr>sReserved := e\<rparr>) = on_disk s" "on_disk (s\<lparr>sUnjournaled := g\<rparr>) = on_disk s" "on_disk (s\<lparr>sPending := h\<rparr>) = on_disk s"
  "on_disk (s\<lparr>sIntents := i\<rparr>) = on_disk s" "on_disk (s\<lparr>sLost := k\<rparr>) = on_disk s" "on_disk (s\<lparr>sVerifying := l\<rparr>) = on_disk s"
  by (simp_all add: on_disk_def fun_eq_iff)

lemma put_file_frame [simp]:
  "sMeta (put_file ob b t s) = sMeta s" "sLog (put_file ob b t s) = sLog s" "sUnjournaled (put_file ob b t s) = sUnjournaled s"
  "sPending (put_file ob b t s) = sPending s" "sIntents (put_file ob b t s) = sIntents s" "sBytes (put_file ob b t s) = sBytes s"
  by (simp_all add: put_file_def)

lemma drop_file_frame [simp]:
  "sMeta (drop_file ob s) = sMeta s" "sLog (drop_file ob s) = sLog s" "sUnjournaled (drop_file ob s) = sUnjournaled s"
  "sPending (drop_file ob s) = sPending s" "sIntents (drop_file ob s) = sIntents s" "sBytes (drop_file ob s) = sBytes s"
  by (simp_all add: drop_file_def)

section \<open>The journal covers the disk\<close>

definition ost :: "store \<Rightarrow> obj \<Rightarrow> ostate option" where
  "ost s = map_of (objectStateByPath (sLog s))"

lemma ost_frame: "sLog s' = sLog s \<Longrightarrow> ost s' = ost s"
  by (simp add: ost_def)

lemma objectState_snoc: "map_of (objectStateByPath (l @ [e])) = (case e of
    JPut ob _ _ \<Rightarrow> (map_of (objectStateByPath l))(ob \<mapsto> OPut) | JCancel ob \<Rightarrow> (map_of (objectStateByPath l))(ob \<mapsto> OPut)
  | JIntent ob \<Rightarrow> (map_of (objectStateByPath l))(ob \<mapsto> OIntent) | JDelete ob \<Rightarrow> (map_of (objectStateByPath l))(ob \<mapsto> OGone)
  | _ \<Rightarrow> map_of (objectStateByPath l))"
  by (cases e) (simp_all add: objectStateByPath_def note_entry_def update_conv')

lemma ost_append [simp]:
  "ost (s\<lparr>sIo := x, sLog := sLog s @ [JPut ob h n]\<rparr>) = (ost s)(ob \<mapsto> OPut)" "ost (s\<lparr>sIo := x, sLog := sLog s @ [JCancel ob]\<rparr>) = (ost s)(ob \<mapsto> OPut)"
  "ost (s\<lparr>sIo := x, sLog := sLog s @ [JIntent ob]\<rparr>) = (ost s)(ob \<mapsto> OIntent)" "ost (s\<lparr>sIo := x, sLog := sLog s @ [JDelete ob]\<rparr>) = (ost s)(ob \<mapsto> OGone)"
  "ost (s\<lparr>sIo := x, sLog := sLog s @ [JTerminal j at']\<rparr>) = ost s" "ost (s\<lparr>sIo := x, sLog := sLog s @ [JPin j b]\<rparr>) = ost s"
  by (simp_all add: ost_def objectState_snoc)

text \<open>
  Every blob on disk has a record, or is known to lack one; a delete intent that the journal holds for it is known too; and a delete that is only pending is of an
  object that is gone.
\<close>

definition covered :: "store \<Rightarrow> string \<Rightarrow> bool" where
  "covered s sha \<longleftrightarrow> sha \<in> set (sUnjournaled s) \<or> ost s (Blob sha) = Some OPut \<or> ost s (Blob sha) = Some OIntent \<and> Blob sha \<in> set (sIntents s)"

definition log_inv :: "store \<Rightarrow> bool" where
  "log_inv s \<longleftrightarrow> (\<forall>sha. on_disk s (Blob sha) \<noteq> None \<longrightarrow> covered s sha) \<and> (\<forall>ob \<in> set (sPending s). on_disk s ob = None)"

lemma log_invI:
  assumes "\<And>sha. on_disk s (Blob sha) \<noteq> None \<Longrightarrow> covered s sha" "\<And>ob. ob \<in> set (sPending s) \<Longrightarrow> on_disk s ob = None"
  shows "log_inv s"
  using assms by (simp add: log_inv_def)

lemma log_inv_frame:
  assumes "log_inv s" "\<And>ob. on_disk s' ob \<noteq> None \<Longrightarrow> on_disk s ob \<noteq> None" "set (sPending s') \<subseteq> set (sPending s)"
    and "\<And>sha. on_disk s (Blob sha) \<noteq> None \<Longrightarrow> covered s sha \<Longrightarrow> covered s' sha"
  shows "log_inv s'"
  using assms unfolding log_inv_def by blast

lemma log_inv_io [simp]: "log_inv (s\<lparr>sIo := x\<rparr>) = log_inv s"
  by (simp add: log_inv_def covered_def ost_def)

lemma keeps_log_io [simp]: "keeps log_inv io"
  by (simp add: keeps_def)

lemma log_inv_append_put:
  assumes "log_inv s" "e = JPut ob h n \<or> e = JCancel ob \<or> e = JTerminal j at' \<or> e = JPin j b"
  shows "log_inv (snd (append_entry e s))"
  using append_entry_cases[of e s]
proof
  assume a: "append_entry e s = (Inr (), s\<lparr>sIo := tl (sIo s), sLog := sLog s @ [e]\<rparr>)"
  show ?thesis unfolding a by (rule log_inv_frame[OF assms(1)]) (use assms(2) in \<open>auto simp: covered_def split: if_splits\<close>)
next
  assume a: "append_entry e s = (Inl EIo, s\<lparr>sIo := tl (sIo s)\<rparr>)"
  show ?thesis unfolding a using assms(1) by simp
qed

text \<open>A record is appended and then a list of the state shortened by what the record settles.\<close>

lemma append_modify_cases:
  "chain (append_entry e) (\<lambda>_. modify f) s = (Inr (), f (s\<lparr>sIo := tl (sIo s), sLog := sLog s @ [e]\<rparr>)) \<or>
   chain (append_entry e) (\<lambda>_. modify f) s = (Inl EIo, s\<lparr>sIo := tl (sIo s)\<rparr>)"
  using append_entry_cases[of e s] by (auto simp: chain_def modify_def)

lemma keeps_log_journalBlob: "keeps log_inv (journalBlob sha)"
  unfolding keeps_def
proof (intro allI impI)
  fix s assume inv: "log_inv s"
  let ?e = "JPut (Blob sha) sha (nullish (blobSize s sha) 0)"
  show "log_inv (snd (journalBlob sha s))"
    using append_modify_cases[of ?e "\<lambda>s. s\<lparr>sUnjournaled := removeAll sha (sUnjournaled s)\<rparr>" s]
  proof (elim disjE)
    assume a: "chain (append_entry ?e) (\<lambda>_. modify (\<lambda>s. s\<lparr>sUnjournaled := removeAll sha (sUnjournaled s)\<rparr>)) s =
      (Inr (), s\<lparr>sIo := tl (sIo s), sLog := sLog s @ [?e]\<rparr>\<lparr>sUnjournaled := removeAll sha (sUnjournaled (s\<lparr>sIo := tl (sIo s), sLog := sLog s @ [?e]\<rparr>))\<rparr>)"
    show ?thesis unfolding journalBlob_def a
      by (rule log_inv_frame[OF inv]) (auto simp: covered_def ost_def objectState_snoc)
  qed (simp add: journalBlob_def inv)
qed

lemma keeps_log_cancelIntent: "keeps log_inv (cancelIntent ob)"
  unfolding keeps_def
proof (intro allI impI)
  fix s assume inv: "log_inv s"
  show "log_inv (snd (cancelIntent ob s))"
  proof (cases "ob \<in> set (sIntents s)")
    case True
    show ?thesis
      using append_modify_cases[of "JCancel ob" "\<lambda>s. s\<lparr>sIntents := removeAll ob (sIntents s)\<rparr>" s]
    proof (elim disjE)
      assume a: "chain (append_entry (JCancel ob)) (\<lambda>_. modify (\<lambda>s. s\<lparr>sIntents := removeAll ob (sIntents s)\<rparr>)) s =
        (Inr (), s\<lparr>sIo := tl (sIo s), sLog := sLog s @ [JCancel ob]\<rparr>\<lparr>sIntents := removeAll ob (sIntents (s\<lparr>sIo := tl (sIo s), sLog := sLog s @ [JCancel ob]\<rparr>))\<rparr>)"
      have c: "cancelIntent ob s = chain (append_entry (JCancel ob)) (\<lambda>_. modify (\<lambda>s. s\<lparr>sIntents := removeAll ob (sIntents s)\<rparr>)) s"
        using True by (simp add: cancelIntent_def)
      show ?thesis unfolding c a
        by (rule log_inv_frame[OF inv]) (auto simp: covered_def ost_def objectState_snoc)
    qed (use True in \<open>simp add: cancelIntent_def inv\<close>)
  qed (simp add: cancelIntent_def inv)
qed

lemma journalDelete_frame [simp]:
  "sDisk (snd (journalDelete ob s)) = sDisk s" "sMeta (snd (journalDelete ob s)) = sMeta s" "sBytes (snd (journalDelete ob s)) = sBytes s"
  "sReserved (snd (journalDelete ob s)) = sReserved s" "sUnjournaled (snd (journalDelete ob s)) = sUnjournaled s" "sIntents (snd (journalDelete ob s)) = sIntents s"
  "sVerifying (snd (journalDelete ob s)) = sVerifying s" "set (sPending (snd (journalDelete ob s))) \<subseteq> set (sPending s)"
  using append_modify_cases[of "JDelete ob" "\<lambda>s. s\<lparr>sPending := removeAll ob (sPending s)\<rparr>" s] unfolding journalDelete_def by auto

lemma journalDelete_log:
  assumes "log_inv s" "on_disk s ob = None"
  shows "log_inv (snd (journalDelete ob s))"
  using append_modify_cases[of "JDelete ob" "\<lambda>s. s\<lparr>sPending := removeAll ob (sPending s)\<rparr>" s]
proof
  assume a: "chain (append_entry (JDelete ob)) (\<lambda>_. modify (\<lambda>s. s\<lparr>sPending := removeAll ob (sPending s)\<rparr>)) s =
    (Inr (), s\<lparr>sIo := tl (sIo s), sLog := sLog s @ [JDelete ob]\<rparr>\<lparr>sPending := removeAll ob (sPending (s\<lparr>sIo := tl (sIo s), sLog := sLog s @ [JDelete ob]\<rparr>))\<rparr>)"
  show ?thesis unfolding journalDelete_def a
    by (rule log_inv_frame[OF assms(1)]) (use assms(2) in \<open>auto simp: covered_def ost_def objectState_snoc split: if_splits\<close>)
next
  assume a: "chain (append_entry (JDelete ob)) (\<lambda>_. modify (\<lambda>s. s\<lparr>sPending := removeAll ob (sPending s)\<rparr>)) s = (Inl EIo, s\<lparr>sIo := tl (sIo s)\<rparr>)"
  show ?thesis unfolding journalDelete_def a using assms(1) by simp
qed

lemma flush_all_inv:
  assumes "log_inv s" "\<forall>ob \<in> set obs. on_disk s ob = None"
  shows "log_inv (snd (flush_all obs s)) \<and> sDisk (snd (flush_all obs s)) = sDisk s \<and> sMeta (snd (flush_all obs s)) = sMeta s \<and>
    sBytes (snd (flush_all obs s)) = sBytes s \<and> sReserved (snd (flush_all obs s)) = sReserved s \<and> sVerifying (snd (flush_all obs s)) = sVerifying s \<and>
    sUnjournaled (snd (flush_all obs s)) = sUnjournaled s \<and> sIntents (snd (flush_all obs s)) = sIntents s \<and>
    set (sPending (snd (flush_all obs s))) \<subseteq> set (sPending s)"
  using assms
proof (induction obs arbitrary: s)
  case (Cons ob obs)
  obtain r s1 where d: "journalDelete ob s = (r, s1)" by fastforce
  have f: "sDisk s1 = sDisk s" "sMeta s1 = sMeta s" "sBytes s1 = sBytes s" "sReserved s1 = sReserved s" "sUnjournaled s1 = sUnjournaled s"
    "sIntents s1 = sIntents s" "sVerifying s1 = sVerifying s" "set (sPending s1) \<subseteq> set (sPending s)"
    using journalDelete_frame[of ob s] d by (metis snd_conv)+
  have inv1: "log_inv s1" using journalDelete_log[OF Cons.prems(1), of ob] Cons.prems(2) d by simp
  show ?case
  proof (cases r)
    case (Inl e)
    with d have "flush_all (ob # obs) s = (Inl e, s1)" by (simp add: chain_def)
    with inv1 f show ?thesis by simp
  next
    case (Inr u)
    with d have fl: "flush_all (ob # obs) s = flush_all obs s1" by (simp add: chain_def)
    have "\<forall>ob \<in> set obs. on_disk s1 ob = None" using Cons.prems(2) on_disk_frame[OF f(1)] by simp
    from Cons.IH[OF inv1 this] f show ?thesis unfolding fl by auto
  qed
qed simp

lemma journalDelete_InrD: "journalDelete ob s = (Inr u, s') \<Longrightarrow> sPending s' = removeAll ob (sPending s)"
  using append_modify_cases[of "JDelete ob" "\<lambda>s. s\<lparr>sPending := removeAll ob (sPending s)\<rparr>" s] unfolding journalDelete_def by auto

lemma flush_all_empties: "flush_all obs s = (Inr u, s') \<Longrightarrow> set (sPending s') = set (sPending s) - set obs"
proof (induction obs arbitrary: s)
  case (Cons ob obs)
  then obtain v s1 where "journalDelete ob s = (Inr v, s1)" "flush_all obs s1 = (Inr u, s')" by (auto dest: chain_InrD)
  with Cons.IH journalDelete_InrD show ?case by fastforce
qed simp

lemma flush_empties: "flushPendingDeletes s = (Inr u, s') \<Longrightarrow> sPending s' = []"
  using flush_all_empties[of "sPending s" s u s'] by (simp add: flushPendingDeletes_def)

lemma flush_frame:
  assumes "log_inv s" "flushPendingDeletes s = (r, s')"
  shows "log_inv s'" "on_disk s' = on_disk s" "sDisk s' = sDisk s" "sMeta s' = sMeta s" "sBytes s' = sBytes s" "sReserved s' = sReserved s" "sVerifying s' = sVerifying s"
    "sUnjournaled s' = sUnjournaled s" "sIntents s' = sIntents s"
proof -
  have "\<forall>ob \<in> set (sPending s). on_disk s ob = None" using assms(1) by (simp add: log_inv_def)
  from flush_all_inv[OF assms(1) this] assms(2)
  show "log_inv s'" "on_disk s' = on_disk s" "sDisk s' = sDisk s" "sMeta s' = sMeta s" "sBytes s' = sBytes s" "sReserved s' = sReserved s" "sVerifying s' = sVerifying s"
    "sUnjournaled s' = sUnjournaled s" "sIntents s' = sIntents s"
    by (auto simp: flushPendingDeletes_def intro: on_disk_frame)
qed

lemma keeps_log_flush: "keeps log_inv flushPendingDeletes"
  unfolding keeps_def using flush_frame(1) by (metis prod.collapse)

lemma keeps_log_journal_if_needed: "keeps log_inv (journal_if_needed sha)"
  using keeps_log_journalBlob[of sha] by (simp add: keeps_def journal_if_needed_def)

lemma log_inv_touch [simp]: "log_inv (case on_disk s ob of None \<Rightarrow> s | Some f \<Rightarrow> put_file ob (ofBytes f) now s) = log_inv s"
  by (auto simp: log_inv_def covered_def ost_def split: option.splits)

lemma keeps_log_touch: "keeps log_inv (touch ob now)"
  unfolding touch_def by (intro keeps_chain keeps_modify) simp_all

lemma keeps_log_journal_blobs: "keeps log_inv (journal_blobs hs)"
proof (induction hs)
  case (Cons h hs)
  have "journal_blobs (h # hs) = chain (journal_if_needed h) (\<lambda>_. journal_blobs hs)" by (simp add: fun_eq_iff)
  then show ?case using keeps_chain[OF keeps_log_journal_if_needed] Cons.IH by simp
qed (simp add: keeps_def)

lemma keeps_log_cancel_intents: "keeps log_inv (cancel_intents hs)"
proof (induction hs)
  case (Cons h hs)
  have "cancel_intents (h # hs) = chain (cancelIntent (Blob h)) (\<lambda>_. cancel_intents hs)" by (simp add: fun_eq_iff)
  then show ?case using keeps_chain[OF keeps_log_cancelIntent] Cons.IH by simp
qed (simp add: keeps_def)

section \<open>Uploads keep the journal covering the disk\<close>

lemma journalBlob_cases:
  obtains (ok) "journalBlob sha s = (Inr (), s\<lparr>sIo := tl (sIo s), sLog := sLog s @ [JPut (Blob sha) sha (nullish (blobSize s sha) 0)], sUnjournaled := removeAll sha (sUnjournaled s)\<rparr>)"
  | (failed) "journalBlob sha s = (Inl EIo, s\<lparr>sIo := tl (sIo s)\<rparr>)"
  using append_modify_cases[of "JPut (Blob sha) sha (nullish (blobSize s sha) 0)" "\<lambda>s. s\<lparr>sUnjournaled := removeAll sha (sUnjournaled s)\<rparr>" s]
  unfolding journalBlob_def by auto

text \<open>Everything but the blob being settled is covered.\<close>

definition log_inv_but :: "string \<Rightarrow> store \<Rightarrow> bool" where
  "log_inv_but sha s \<longleftrightarrow> (\<forall>h. h \<noteq> sha \<and> on_disk s (Blob h) \<noteq> None \<longrightarrow> covered s h) \<and> (\<forall>ob \<in> set (sPending s). on_disk s ob = None)"

lemma log_inv_but_io [simp]: "log_inv_but sha (s\<lparr>sIo := x\<rparr>) = log_inv_but sha s"
  by (simp add: log_inv_but_def covered_def ost_def)

lemma settle_blob_log:
  assumes "log_inv_but sha s"
  shows "log_inv (snd (settle_blob sha n now s))"
proof -
  define s1 where "s1 = (case on_disk s (Blob sha) of None \<Rightarrow> s | Some f \<Rightarrow> put_file (Blob sha) (ofBytes f) now s)"
  have inv1: "log_inv_but sha (s1\<lparr>sIo := x\<rparr>)" for x
    using assms by (auto simp: s1_def log_inv_but_def covered_def ost_def split: option.splits)
  have undo: "log_inv (snd (case io t of (Inr _, s2) \<Rightarrow> (Inl e, (drop_file (Blob sha) s2)\<lparr>sBytes := sBytes s2 - int n\<rparr>)
      | (Inl _, s2) \<Rightarrow> (Inl e :: store_error + bool, s2\<lparr>sUnjournaled := sha # sUnjournaled s2\<rparr>)))" if "log_inv_but sha t" for t e
  proof (cases "fst (io t)")
    case (Inr u)
    then have "io t = (Inr u, t\<lparr>sIo := tl (sIo t)\<rparr>)" by (metis snd_io prod.collapse)
    with that show ?thesis by (auto simp: log_inv_but_def log_inv_def covered_def ost_def split: if_splits)
  next
    case (Inl u)
    then have "io t = (Inl u, t\<lparr>sIo := tl (sIo t)\<rparr>)" by (metis snd_io prod.collapse)
    with that show ?thesis by (auto simp: log_inv_but_def log_inv_def covered_def ost_def)
  qed
  let ?m = "chain (touch (Blob sha) now) (\<lambda>_. chain io (\<lambda>_. journalBlob sha))"
  have m: "(\<exists>t e. ?m s = (Inl e, t) \<and> log_inv_but sha t) \<or>
     (\<exists>t. ?m s = (Inr (), t\<lparr>sIo := tl (sIo t), sLog := sLog t @ [JPut (Blob sha) sha (nullish (blobSize t sha) 0)], sUnjournaled := removeAll sha (sUnjournaled t)\<rparr>) \<and> log_inv_but sha t)"
  proof (cases "fst (io s)")
    case (Inl e)
    then have "touch (Blob sha) now s = (Inl e, s\<lparr>sIo := tl (sIo s)\<rparr>)" by (metis chain_Inl prod.collapse snd_io touch_def)
    then show ?thesis using assms by (auto simp: chain_def)
  next
    case (Inr u)
    then have io: "io s = (Inr u, s\<lparr>sIo := tl (sIo s)\<rparr>)" by (metis prod.collapse snd_io)
    define t where "t = s1\<lparr>sIo := tl (sIo s)\<rparr>"
    have touch: "touch (Blob sha) now s = (Inr (), t)"
      unfolding touch_def chain_Inr[of io s, OF io] by (auto simp: modify_def t_def s1_def put_file_def split: option.split)
    have t: "log_inv_but sha (t\<lparr>sIo := x\<rparr>)" for x using inv1 by (simp add: t_def)
    have t0: "log_inv_but sha t" using inv1 by (simp add: t_def)
    show ?thesis
    proof (cases "fst (io t)")
      case (Inl e)
      then have "io t = (Inl e, t\<lparr>sIo := tl (sIo t)\<rparr>)" by (metis prod.collapse snd_io)
      with touch t show ?thesis by (auto simp: chain_def)
    next
      case (Inr v)
      then have io2: "io t = (Inr v, t\<lparr>sIo := tl (sIo t)\<rparr>)" by (metis prod.collapse snd_io)
      have run: "?m s = journalBlob sha (t\<lparr>sIo := tl (sIo t)\<rparr>)"
        unfolding chain_Inr[of "touch (Blob sha) now" s, OF touch] chain_Inr[of io t, OF io2] ..
      show ?thesis
      proof (cases rule: journalBlob_cases[of sha "t\<lparr>sIo := tl (sIo t)\<rparr>", case_names ok failed])
        case ok
        show ?thesis unfolding run using ok t by (intro disjI2 exI[of _ "t\<lparr>sIo := tl (sIo t)\<rparr>"]) simp
      next
        case failed
        show ?thesis unfolding run using failed t by (intro disjI1 exI[of _ "t\<lparr>sIo := tl (tl (sIo t))\<rparr>"] exI[of _ EIo]) simp
      qed
    qed
  qed
  then show ?thesis
  proof (elim disjE exE conjE)
    fix t e assume "?m s = (Inl e, t)" "log_inv_but sha t"
    then show ?thesis unfolding settle_blob_def using undo by simp
  next
    fix t assume a: "?m s = (Inr (), t\<lparr>sIo := tl (sIo t), sLog := sLog t @ [JPut (Blob sha) sha (nullish (blobSize t sha) 0)], sUnjournaled := removeAll sha (sUnjournaled t)\<rparr>)"
      and inv: "log_inv_but sha t"
    show ?thesis unfolding settle_blob_def a
      using inv by (auto simp: log_inv_but_def log_inv_def covered_def ost_def objectState_snoc)
  qed
qed

lemma keeps_log_acknowledge: "keeps log_inv (acknowledgeDuplicate hash sha body now)"
proof -
  have "keeps log_inv (chain (touch (Blob sha) now) (\<lambda>_. chain (journal_if_needed sha) (\<lambda>_. chain (cancelIntent (Blob sha)) (\<lambda>_. done_with False))))"
    by (intro keeps_chain keeps_log_touch keeps_log_journal_if_needed keeps_log_cancelIntent keeps_done)
  then show ?thesis by (simp add: keeps_def acknowledgeDuplicate_def)
qed

lemma log_inv_reserved [simp]: "log_inv (s\<lparr>sReserved := x\<rparr>) = log_inv s"
  by (simp add: log_inv_def covered_def ost_def)

lemma keeps_log_start: "keeps log_inv (putBlob_start hash cfg sha declared)"
  by (auto simp: keeps_def putBlob_start_def chain_def reserve_def done_with_def split: if_splits)

lemma keeps_log_commit: "keeps log_inv (commit_blob hash cfg sha body held now)"
  unfolding keeps_def
proof (intro allI impI)
  fix s assume inv: "log_inv s"
  let ?n = "length body"
  let ?settle = "\<lambda>s1. settle_blob sha ?n now ((put_file (Blob sha) body now s1)\<lparr>sBytes := sBytes s1 + int ?n - int (nullish (blobSize s1 sha) 0)\<rparr>)"
  have dup: "log_inv (snd (chain (touch (Blob sha) now) (\<lambda>_. chain (journal_if_needed sha) (\<lambda>_. done_with False)) s))"
    by (rule keepsD[where I = log_inv]) (intro keeps_chain keeps_log_touch keeps_log_journal_if_needed keeps_done, rule inv)
  have settle: "log_inv (snd (?settle s1))" if "log_inv s1" "Blob sha \<notin> set (sPending s1)" for s1
    by (rule settle_blob_log) (use that in \<open>auto simp: log_inv_def log_inv_but_def covered_def ost_def split: if_splits\<close>)
  have "log_inv (snd (chain flushPendingDeletes (\<lambda>_. chain io (\<lambda>_. ?settle)) s))"
  proof -
    obtain r s1 where f: "flushPendingDeletes s = (r, s1)" by fastforce
    note fr = flush_frame[OF inv f]
    show ?thesis
    proof (cases r)
      case (Inl e)
      with f fr show ?thesis by (simp add: chain_def)
    next
      case (Inr u)
      have pend: "sPending s1 = []"
        using f Inr flush_empties by blast
      obtain r2 s2 where i: "io s1 = (r2, s2)" by fastforce
      then have s2: "s2 = s1\<lparr>sIo := tl (sIo s1)\<rparr>" using snd_io[of s1] by simp
      show ?thesis
        using f Inr i fr(1) pend settle[of s2] s2 by (auto simp: chain_def split: sum.splits)
    qed
  qed
  with dup inv show "log_inv (snd (commit_blob hash cfg sha body held now s))"
    by (simp add: commit_blob_def Let_def)
qed

lemma keeps_log_finish: "keeps log_inv (putBlob_finish hash cfg sha body held now)"
  using keeps_log_commit[of hash cfg sha body held now]
  by (auto simp: keeps_def putBlob_finish_def release_def split: prod.splits)

section \<open>Registrations, states and deletions keep it too\<close>

lemma log_inv_meta_bytes [simp]: "log_inv (s\<lparr>sMeta := m, sBytes := b\<rparr>) = log_inv s" "log_inv (s\<lparr>sMeta := m\<rparr>) = log_inv s" "log_inv (s\<lparr>sBytes := b\<rparr>) = log_inv s"
  "log_inv (s\<lparr>sLost := l\<rparr>) = log_inv s" "log_inv (s\<lparr>sVerifying := v\<rparr>) = log_inv s"
  by (simp_all add: log_inv_def covered_def ost_def)

lemma log_inv_put_manifest: "log_inv s \<Longrightarrow> Man j \<notin> set (sPending s) \<Longrightarrow> log_inv (put_file (Man j) b t s)"
  by (auto simp: log_inv_def covered_def ost_def)

lemma log_inv_drop: "log_inv s \<Longrightarrow> log_inv (drop_file ob s)"
  by (auto simp: log_inv_def covered_def ost_def split: if_splits)

lemma write_manifest_log:
  assumes "log_inv s" "sPending s = []"
  shows "log_inv (snd (write_manifest hash job bytes now s))"
proof -
  let ?s1 = "(put_file (Man job) bytes now s)\<lparr>sBytes := sBytes s + int (length bytes)\<rparr>"
  have inv1: "log_inv ?s1" using log_inv_put_manifest[OF assms(1)] assms(2) by simp
  let ?m = "chain io (\<lambda>_. chain (modify (\<lambda>s. s\<lparr>sMeta := AList.update job \<lparr>mtRegistered = Some now, mtTerminal = None, mtPinned = False\<rparr> (sMeta s)\<rparr>))
                (\<lambda>_. append_entry (JPut (Man job) (hash bytes) (length bytes))))"
  have "keeps log_inv ?m"
    by (intro keeps_chain keeps_modify keeps_log_io) (simp_all add: keeps_def log_inv_append_put)
  from keepsD[OF this inv1] have "log_inv (snd (?m ?s1))" .
  then show ?thesis unfolding write_manifest_def Let_def
    by (auto simp: log_inv_drop split: prod.splits sum.splits)
qed

lemma journal_blobs_frame:
  "sDisk (snd (journal_blobs hs s)) = sDisk s \<and> sMeta (snd (journal_blobs hs s)) = sMeta s \<and> sBytes (snd (journal_blobs hs s)) = sBytes s \<and>
   sPending (snd (journal_blobs hs s)) = sPending s \<and> sIntents (snd (journal_blobs hs s)) = sIntents s \<and> sReserved (snd (journal_blobs hs s)) = sReserved s \<and>
   sVerifying (snd (journal_blobs hs s)) = sVerifying s"
proof (induction hs arbitrary: s)
  case (Cons h hs)
  have j: "sDisk (snd (journal_if_needed h s)) = sDisk s \<and> sMeta (snd (journal_if_needed h s)) = sMeta s \<and> sBytes (snd (journal_if_needed h s)) = sBytes s \<and>
    sPending (snd (journal_if_needed h s)) = sPending s \<and> sIntents (snd (journal_if_needed h s)) = sIntents s \<and> sReserved (snd (journal_if_needed h s)) = sReserved s \<and>
    sVerifying (snd (journal_if_needed h s)) = sVerifying s"
    by (rule journalBlob_cases[of h s]) (simp_all add: journal_if_needed_def)
  obtain r s1 where s1: "journal_if_needed h s = (r, s1)" by fastforce
  with Cons.IH[of s1] j show ?case by (cases r) (simp_all add: chain_def)
qed simp

lemma cancelIntent_cases:
  obtains (none) "ob \<notin> set (sIntents s)" "cancelIntent ob s = (Inr (), s)"
  | (ok) "cancelIntent ob s = (Inr (), s\<lparr>sIo := tl (sIo s), sLog := sLog s @ [JCancel ob], sIntents := removeAll ob (sIntents s)\<rparr>)"
  | (failed) "cancelIntent ob s = (Inl EIo, s\<lparr>sIo := tl (sIo s)\<rparr>)"
  using append_modify_cases[of "JCancel ob" "\<lambda>s. s\<lparr>sIntents := removeAll ob (sIntents s)\<rparr>" s]
  by (cases "ob \<in> set (sIntents s)") (auto simp: cancelIntent_def)

lemma cancel_intents_frame:
  "sDisk (snd (cancel_intents hs s)) = sDisk s \<and> sMeta (snd (cancel_intents hs s)) = sMeta s \<and> sBytes (snd (cancel_intents hs s)) = sBytes s \<and>
   sPending (snd (cancel_intents hs s)) = sPending s \<and> sUnjournaled (snd (cancel_intents hs s)) = sUnjournaled s \<and> sReserved (snd (cancel_intents hs s)) = sReserved s \<and>
   sVerifying (snd (cancel_intents hs s)) = sVerifying s"
proof (induction hs arbitrary: s)
  case (Cons h hs)
  have j: "sDisk (snd (cancelIntent (Blob h) s)) = sDisk s \<and> sMeta (snd (cancelIntent (Blob h) s)) = sMeta s \<and> sBytes (snd (cancelIntent (Blob h) s)) = sBytes s \<and>
    sPending (snd (cancelIntent (Blob h) s)) = sPending s \<and> sUnjournaled (snd (cancelIntent (Blob h) s)) = sUnjournaled s \<and>
    sReserved (snd (cancelIntent (Blob h) s)) = sReserved s \<and> sVerifying (snd (cancelIntent (Blob h) s)) = sVerifying s"
    by (rule cancelIntent_cases[of "Blob h" s]) simp_all
  obtain r s1 where s1: "cancelIntent (Blob h) s = (r, s1)" by fastforce
  with Cons.IH[of s1] j show ?case by (cases r) (simp_all add: chain_def)
qed simp

text \<open>The prelude of a registration, once it has succeeded: every blob of the list has a live record.\<close>

definition journal_ready :: "string list \<Rightarrow> unit act" where
  "journal_ready hs = chain flushPendingDeletes (\<lambda>_. chain (journal_blobs hs) (\<lambda>_. cancel_intents hs))"

lemma journal_blobs_done: "journal_blobs hs s = (Inr u, s') \<Longrightarrow> set (sUnjournaled s') = set (sUnjournaled s) - set hs"
proof (induction hs arbitrary: s)
  case (Cons h hs)
  then obtain v s1 where 1: "journal_if_needed h s = (Inr v, s1)" "journal_blobs hs s1 = (Inr u, s')" by (auto dest: chain_InrD)
  have "set (sUnjournaled s1) = set (sUnjournaled s) - {h}"
    using 1(1) by (cases rule: journalBlob_cases[of h s]) (auto simp: journal_if_needed_def split: if_splits)
  with Cons.IH[OF 1(2)] show ?case by auto
qed simp

lemma cancel_intents_done: "cancel_intents hs s = (Inr u, s') \<Longrightarrow> set (sIntents s') = set (sIntents s) - Blob ` set hs"
proof (induction hs arbitrary: s)
  case (Cons h hs)
  then obtain v s1 where 1: "cancelIntent (Blob h) s = (Inr v, s1)" "cancel_intents hs s1 = (Inr u, s')" by (auto dest: chain_InrD)
  have "set (sIntents s1) = set (sIntents s) - {Blob h}"
    using 1(1) by (cases rule: cancelIntent_cases[of "Blob h" s]) auto
  with Cons.IH[OF 1(2)] show ?case by auto
qed simp

lemma journal_ready_frame:
  assumes "log_inv s" "journal_ready hs s = (r, s')"
  shows "log_inv s'" "on_disk s' = on_disk s" "sMeta s' = sMeta s" "sBytes s' = sBytes s" "sReserved s' = sReserved s" "sVerifying s' = sVerifying s"
    "r = Inr () \<Longrightarrow> sPending s' = []" "r = Inr () \<Longrightarrow> h \<in> set hs \<Longrightarrow> on_disk s (Blob h) \<noteq> None \<Longrightarrow> ost s' (Blob h) = Some OPut"
proof -
  obtain r1 s1 where 1: "flushPendingDeletes s = (r1, s1)" by fastforce
  obtain r2 s2 where 2: "journal_blobs hs s1 = (r2, s2)" by fastforce
  obtain r3 s3 where 3: "cancel_intents hs s2 = (r3, s3)" by fastforce
  note f1 = flush_frame[OF assms(1) 1]
  have inv2: "log_inv s2" using keepsD[OF keeps_log_journal_blobs f1(1), of hs] 2 by simp
  have inv3: "log_inv s3" using keepsD[OF keeps_log_cancel_intents inv2, of hs] 3 by simp
  have f2: "sDisk s2 = sDisk s1" "sMeta s2 = sMeta s1" "sBytes s2 = sBytes s1" "sPending s2 = sPending s1" "sReserved s2 = sReserved s1" "sVerifying s2 = sVerifying s1"
    using journal_blobs_frame[of hs s1] 2 by auto
  have f3: "sDisk s3 = sDisk s2" "sMeta s3 = sMeta s2" "sBytes s3 = sBytes s2" "sPending s3 = sPending s2" "sReserved s3 = sReserved s2" "sVerifying s3 = sVerifying s2"
    "sUnjournaled s3 = sUnjournaled s2" using cancel_intents_frame[of hs s2] 3 by auto
  note d = on_disk_frame[OF f2(1)] on_disk_frame[OF f3(1)]
  have out: "(r, s') = (case r1 of Inl e \<Rightarrow> (Inl e, s1) | Inr _ \<Rightarrow> (case r2 of Inl e \<Rightarrow> (Inl e, s2) | Inr _ \<Rightarrow> (r3, s3)))"
    using assms(2) 1 2 3 by (cases r1; cases r2) (auto simp: journal_ready_def chain_def)
  show "log_inv s'" "on_disk s' = on_disk s" "sMeta s' = sMeta s" "sBytes s' = sBytes s" "sReserved s' = sReserved s" "sVerifying s' = sVerifying s"
    using out f1 f2 f3 inv2 inv3 d by (auto split: sum.splits)
  assume ok: "r = Inr ()"
  then have rs: "r1 = Inr ()" "r2 = Inr ()" "r3 = Inr ()" "s' = s3" using out by (auto split: sum.splits)
  show "sPending s' = []" using rs f2 f3 flush_empties[of s "()" s1] 1 by simp
  assume h: "h \<in> set hs" "on_disk s (Blob h) \<noteq> None"
  have "on_disk s3 (Blob h) \<noteq> None" using h(2) d f1 by simp
  then have "covered s3 h" using inv3 by (simp add: log_inv_def)
  moreover have "h \<notin> set (sUnjournaled s3)" using journal_blobs_done[of hs s1 "()" s2] 2 rs f3 h(1) by simp
  moreover have "Blob h \<notin> set (sIntents s3)" using cancel_intents_done[of hs s2 "()" s3] 3 rs h(1) by auto
  ultimately show "ost s' (Blob h) = Some OPut" using rs by (simp add: covered_def)
qed

lemma registerManifest_ready:
  "registerManifest hash pj dg cfg job bytes now s =
     (if \<not> isJobId job then (Inl E400, s)
      else if length bytes > MAX_MANIFEST_BYTES then (Inl E413, s)
      else case parseManifestDoc dg (pj bytes) of
             Inl e \<Rightarrow> (Inl e, s)
           | Inr (h, es) \<Rightarrow>
               (case readManifest pj s job of
                  Some None \<Rightarrow> (Inl EIo, s)
                | Some (Some d) \<Rightarrow> if doc_hash d \<noteq> Some h then (Inl (E409 []), s) else (Inr False, s)
                | None \<Rightarrow>
                    (let fs = file_entries es; missing = map fst (filter (\<lambda>(h, n). blobSize s h \<noteq> Some n) fs)
                     in if missing \<noteq> [] then (Inl (E409 (rev (remdups (rev missing)))), s)
                        else if over_cap cfg (sBytes s + sReserved s + int (length bytes)) then (Inl E507, s)
                        else chain (journal_ready (map fst fs)) (\<lambda>_. chain io (\<lambda>_. write_manifest hash job bytes now)) s)))"
proof -
  have "chain flushPendingDeletes (\<lambda>_. chain (journal_blobs hs) (\<lambda>_. chain (cancel_intents hs) (\<lambda>_. k))) s = chain (journal_ready hs) (\<lambda>_. k) s" for hs and k :: "bool act"
    by (auto simp: journal_ready_def chain_def split: prod.splits sum.splits)
  note eq = this
  show ?thesis unfolding registerManifest_def Let_def eq ..
qed

text \<open>How a registration ends: refused before anything happened, stopped in its prelude, or in the writing.\<close>

lemma registerManifest_cases:
  assumes "log_inv s" "registerManifest hash pj dg cfg job bytes now s = (r, s')"
  obtains (refused) "s' = s" "r \<noteq> Inr True"
  | (stopped) hs e where "journal_ready hs s = (Inl e, s')" "r \<noteq> Inr True"
  | (unwritten) hs s1 where "journal_ready hs s = (Inr (), s1)" "s' = s1\<lparr>sIo := tl (sIo s1)\<rparr>" "r \<noteq> Inr True"
  | (written) h es s1 where "isJobId job" "parseManifestDoc dg (pj bytes) = Inr (h, es)" "readManifest pj s job = None" "list_all (\<lambda>(h, n). blobSize s h = Some n) (file_entries es)"
      "journal_ready (map fst (file_entries es)) s = (Inr (), s1)" "write_manifest hash job bytes now (s1\<lparr>sIo := tl (sIo s1)\<rparr>) = (r, s')"
      "\<not> over_cap cfg (sBytes s + sReserved s + int (length bytes))"
proof -
  consider (A) "s' = s" "r \<noteq> Inr True"
    | (B) h es where "isJobId job" "parseManifestDoc dg (pj bytes) = Inr (h, es)" "readManifest pj s job = None" "list_all (\<lambda>(h, n). blobSize s h = Some n) (file_entries es)"
      "\<not> over_cap cfg (sBytes s + sReserved s + int (length bytes))"
      "chain (journal_ready (map fst (file_entries es))) (\<lambda>_. chain io (\<lambda>_. write_manifest hash job bytes now)) s = (r, s')"
    using assms(2) unfolding registerManifest_ready Let_def
    by (auto simp: list_all_iff filter_empty_conv split: if_splits sum.splits prod.splits option.splits)
  then show thesis
  proof cases
    case A
    then show thesis by (rule refused)
  next
    case (B h es)
    obtain r1 s1 where 1: "journal_ready (map fst (file_entries es)) s = (r1, s1)" by fastforce
    obtain r2 where 2: "io s1 = (r2, s1\<lparr>sIo := tl (sIo s1)\<rparr>)" by (metis prod.collapse snd_io)
    show thesis
    proof (cases r1)
      case (Inl e)
      with B(6) 1 have "r = Inl e" "s' = s1" by (simp_all add: chain_def)
      with 1 Inl stopped show thesis by blast
    next
      case (Inr u)
      then have r1: "r1 = Inr ()" by simp
      show thesis
      proof (cases r2)
        case (Inl e)
        with B(6) 1 2 r1 have "r = Inl e" "s' = s1\<lparr>sIo := tl (sIo s1)\<rparr>" by (simp_all add: chain_def)
        with 1 r1 unwritten show thesis by blast
      next
        case (Inr v)
        with B(6) 1 2 r1 have "write_manifest hash job bytes now (s1\<lparr>sIo := tl (sIo s1)\<rparr>) = (r, s')" by (simp add: chain_def)
        with B 1 r1 written show thesis by blast
      qed
    qed
  qed
qed

lemma keeps_log_register: "keeps log_inv (registerManifest hash pj dg cfg job bytes now)"
  unfolding keeps_def
proof (intro allI impI)
  fix s assume inv: "log_inv s"
  obtain r s' where reg: "registerManifest hash pj dg cfg job bytes now s = (r, s')" by fastforce
  have "log_inv s'"
    using inv reg
  proof (cases rule: registerManifest_cases)
    case refused
    with inv show ?thesis by simp
  next
    case (stopped hs e)
    then show ?thesis using journal_ready_frame(1)[OF inv] by blast
  next
    case (unwritten hs s1)
    then show ?thesis using journal_ready_frame(1)[OF inv] by simp
  next
    case (written h es s1)
    then show ?thesis
      using write_manifest_log[of "s1\<lparr>sIo := tl (sIo s1)\<rparr>" hash job bytes now] journal_ready_frame(1,7)[OF inv written(5)] by simp
  qed
  with reg show "log_inv (snd (registerManifest hash pj dg cfg job bytes now s))" by simp
qed

text \<open>How a change of a job's state ends.\<close>

lemma write_state_cases:
  obtains (ok) "write_state job before after e s = (Inr True, s\<lparr>sMeta := AList.update job after (sMeta s), sIo := tl (sIo s), sLog := sLog s @ [e]\<rparr>)"
  | (undone) x where "write_state job before after e s = (Inl EIo, s\<lparr>sMeta := AList.update job before (AList.update job after (sMeta s)), sIo := x\<rparr>)"
  | (stuck) x where "write_state job before after e s = (Inl EIo, s\<lparr>sMeta := AList.update job after (sMeta s), sIo := x\<rparr>)"
proof -
  let ?s = "s\<lparr>sMeta := AList.update job after (sMeta s)\<rparr>"
  from append_entry_cases[of e ?s] show thesis
  proof
    assume a: "append_entry e ?s = (Inr (), ?s\<lparr>sIo := tl (sIo ?s), sLog := sLog ?s @ [e]\<rparr>)"
    show thesis by (rule ok) (simp add: write_state_def a)
  next
    assume a: "append_entry e ?s = (Inl EIo, ?s\<lparr>sIo := tl (sIo ?s)\<rparr>)"
    let ?s1 = "?s\<lparr>sIo := tl (sIo ?s)\<rparr>"
    show thesis
    proof (cases "fst (io ?s1)")
      case (Inr u)
      then have "io ?s1 = (Inr u, ?s1\<lparr>sIo := tl (sIo ?s1)\<rparr>)" by (metis prod.collapse snd_io)
      then show thesis by (intro undone[of "tl (tl (sIo s))"]) (simp add: write_state_def a)
    next
      case (Inl u)
      moreover have "u = EIo" using Inl by (auto simp: io_def split: list.splits if_splits)
      ultimately have "io ?s1 = (Inl EIo, ?s1\<lparr>sIo := tl (sIo ?s1)\<rparr>)" by (metis prod.collapse snd_io)
      then show thesis by (intro stuck[of "tl (tl (sIo s))"]) (simp add: write_state_def a)
    qed
  qed
qed

lemma setJobState_cases:
  assumes "setJobState pj job upd e s = (r, s')"
  obtains (refused) "s' = s"
  | (stopped) r1 where "flushPendingDeletes s = (r1, s')"
  | (unwritten) r1 s1 where "flushPendingDeletes s = (r1, s1)" "s' = s1\<lparr>sIo := tl (sIo s1)\<rparr>"
  | (written) r1 s1 where "flushPendingDeletes s = (r1, s1)" "write_state job (meta s1 job) (upd (meta s1 job)) e (s1\<lparr>sIo := tl (sIo s1)\<rparr>) = (r, s')"
proof -
  obtain r1 s1 where 1: "flushPendingDeletes s = (r1, s1)" by fastforce
  obtain r2 where 2: "io s1 = (r2, s1\<lparr>sIo := tl (sIo s1)\<rparr>)" by (metis prod.collapse snd_io)
  show thesis
    using assms 1 2 refused stopped unwritten written unfolding setJobState_def
    by (cases r1; cases r2) (auto simp: chain_def Let_def split: option.splits if_splits)
qed

lemma keeps_log_setJobState:
  assumes "e = JTerminal j at' \<or> e = JPin j b"
  shows "keeps log_inv (setJobState pj job upd e)"
  unfolding keeps_def
proof (intro allI impI)
  fix s assume inv: "log_inv s"
  have ost': "map_of (objectStateByPath (sLog t @ [e])) = map_of (objectStateByPath (sLog t))" for t
    using assms by (auto simp: objectState_snoc)
  have w: "log_inv (snd (write_state job before after e t))" if "log_inv t" for t before after
    using that by (cases rule: write_state_cases[of job before after e t]) (simp_all add: log_inv_def covered_def ost_def ost')
  obtain r s' where set: "setJobState pj job upd e s = (r, s')" by fastforce
  from set have "log_inv s'"
  proof (cases rule: setJobState_cases)
    case (written r1 s1)
    with w[of "s1\<lparr>sIo := tl (sIo s1)\<rparr>"] flush_frame(1)[OF inv written(1)] show ?thesis by (metis log_inv_io snd_conv)
  qed (use inv flush_frame(1)[OF inv] in auto)
  with set show "log_inv (snd (setJobState pj job upd e s))" by simp
qed

section \<open>Deletion\<close>

text \<open>Where the three durable steps may stop: before the unlink, with the object live under an intent, or after it.\<close>

lemma remove_object_cases:
  assumes "remove_object ob n s = (r, s')"
  obtains (no_intent) x where "s' = s\<lparr>sIo := x\<rparr>" "r \<noteq> Inr True"
  | (kept) x where "s' = s\<lparr>sIo := x, sLog := sLog s @ [JIntent ob], sIntents := ob # sIntents s\<rparr>" "r \<noteq> Inr True"
  | (unlinked) x where "s' = (drop_file ob s)\<lparr>sIo := x, sLog := sLog s @ [JIntent ob], sIntents := ob # sIntents s\<rparr>" "r \<noteq> Inr True"
  | (pending) x m where "s' = (drop_file ob s)\<lparr>sIo := x, sLog := sLog s @ [JIntent ob], sIntents := ob # sIntents s, sBytes := sBytes s - int n, sPending := ob # sPending s, sMeta := m\<rparr>"
      "m = (case ob of Man j \<Rightarrow> AList.delete j (sMeta s) | Blob _ \<Rightarrow> sMeta s)" "r \<noteq> Inr True"
  | (removed) x m where "s' = (drop_file ob s)\<lparr>sIo := x, sLog := sLog s @ [JIntent ob, JDelete ob], sIntents := removeAll ob (sIntents s), sBytes := sBytes s - int n,
      sPending := removeAll ob (sPending s), sMeta := m\<rparr>" "m = (case ob of Man j \<Rightarrow> AList.delete j (sMeta s) | Blob _ \<Rightarrow> sMeta s)"
proof -
  obtain b1 bs1 where io1: "io s = (b1, s\<lparr>sIo := bs1\<rparr>)" by (metis prod.collapse snd_io)
  let ?a = "s\<lparr>sIo := bs1, sLog := sLog s @ [JIntent ob], sIntents := ob # sIntents s\<rparr>"
  obtain b2 bs2 where io2: "io ?a = (b2, ?a\<lparr>sIo := bs2\<rparr>)" by (metis prod.collapse snd_io)
  let ?b = "drop_file ob (?a\<lparr>sIo := bs2\<rparr>)"
  obtain b3 bs3 where io3: "io ?b = (b3, ?b\<lparr>sIo := bs3\<rparr>)" by (metis prod.collapse snd_io)
  let ?c = "?b\<lparr>sIo := bs3, sBytes := sBytes s - int n, sPending := ob # sPending s\<rparr>"
  let ?d = "?c\<lparr>sMeta := (case ob of Man j \<Rightarrow> AList.delete j (sMeta s) | Blob _ \<Rightarrow> sMeta s)\<rparr>"
  have forget: "\<exists>b4 bs4. forget_meta ob ?c = (b4, ?d\<lparr>sIo := bs4\<rparr>)"
  proof (cases ob)
    case (Blob h)
    then show ?thesis by (intro exI[of _ "Inr ()"] exI[of _ bs3]) (simp add: forget_meta_def done_with_def drop_file_def)
  next
    case (Man j)
    then show ?thesis using snd_io[of ?d] by (intro exI[of _ "fst (io ?d)"] exI[of _ "tl (sIo ?d)"])
      (simp add: forget_meta_def chain_def modify_def drop_file_def prod_eq_iff)
  qed
  then obtain b4 bs4 where io4: "forget_meta ob ?c = (b4, ?d\<lparr>sIo := bs4\<rparr>)" by blast
  let ?e = "?d\<lparr>sIo := bs4\<rparr>"
  obtain b5 bs5 where io5: "io ?e = (b5, ?e\<lparr>sIo := bs5\<rparr>)" by (metis prod.collapse snd_io)
  have dr: "?b = (drop_file ob s)\<lparr>sIo := bs2, sLog := sLog s @ [JIntent ob], sIntents := ob # sIntents s\<rparr>" by (simp add: drop_file_def)
  show thesis
  proof (cases b1)
    case (Inl x)
    with assms io1 have "s' = s\<lparr>sIo := bs1\<rparr>" "r = Inl x" by (simp_all add: remove_object_def append_entry_def chain_def)
    then show thesis by (intro no_intent[of bs1]) simp_all
  next
    case i1: (Inr u)
    show thesis
    proof (cases b2)
      case (Inl x)
      with assms io1 i1 io2 have "s' = ?a\<lparr>sIo := bs2\<rparr>" "r = Inl x" by (simp_all add: remove_object_def append_entry_def chain_def modify_def)
      then show thesis by (intro kept[of bs2]) simp_all
    next
      case i2: (Inr u)
      show thesis
      proof (cases b3)
        case (Inl x)
        with assms io1 i1 io2 i2 io3 have "s' = ?b\<lparr>sIo := bs3\<rparr>" "r = Inl x" by (simp_all add: remove_object_def append_entry_def chain_def modify_def)
        then show thesis by (intro unlinked[of bs3]) (simp_all add: drop_file_def)
      next
        case i3: (Inr u)
        have step: "(r, s') = chain (forget_meta ob) (\<lambda>_. chain (journalDelete ob) (\<lambda>_. chain (modify (\<lambda>s. s\<lparr>sIntents := removeAll ob (sIntents s)\<rparr>)) (\<lambda>_. done_with True))) ?c"
          using assms io1 i1 io2 i2 io3 i3 by (simp add: remove_object_def append_entry_def chain_def modify_def drop_file_def)
        show thesis
        proof (cases b4)
          case (Inl x)
          with step io4 have "s' = ?d\<lparr>sIo := bs4\<rparr>" "r = Inl x" by (simp_all add: chain_def)
          then show thesis by (intro pending[of _ bs4]) (simp_all add: drop_file_def)
        next
          case i4: (Inr u)
          have step2: "(r, s') = chain (journalDelete ob) (\<lambda>_. chain (modify (\<lambda>s. s\<lparr>sIntents := removeAll ob (sIntents s)\<rparr>)) (\<lambda>_. done_with True)) ?e"
            unfolding step chain_Inr[of "forget_meta ob" ?c, OF io4[unfolded i4]] ..
          show thesis
          proof (cases b5)
            case (Inl x)
            with step2 io5 have "s' = ?e\<lparr>sIo := bs5\<rparr>" "r = Inl x" by (simp_all add: chain_def journalDelete_def append_entry_def)
            then show thesis by (intro pending[of _ bs5]) (simp_all add: drop_file_def)
          next
            case (Inr v)
            with step2 io5 have "s' = ?e\<lparr>sIo := bs5, sLog := sLog s @ [JIntent ob, JDelete ob], sPending := removeAll ob (ob # sPending s), sIntents := removeAll ob (ob # sIntents s)\<rparr>"
              by (simp add: chain_def journalDelete_def append_entry_def modify_def done_with_def drop_file_def)
            then show thesis by (intro removed[of _ bs5]) (simp_all add: drop_file_def)
          qed
        qed
      qed
    qed
  qed
qed

lemma remove_object_log:
  assumes "log_inv s"
  shows "log_inv (snd (remove_object ob n s))"
proof -
  obtain r s' where rem: "remove_object ob n s = (r, s')" by fastforce
  from rem have "log_inv s'"
  proof (cases rule: remove_object_cases)
    case (no_intent x)
    with assms show ?thesis by simp
  next
    case (kept x)
    show ?thesis unfolding kept by (rule log_inv_frame[OF assms]) (auto simp: covered_def ost_def objectState_snoc)
  next
    case (unlinked x)
    show ?thesis unfolding unlinked
      by (rule log_inv_frame[OF assms]) (auto simp: covered_def ost_def objectState_snoc split: if_splits)
  next
    case (pending x m)
    show ?thesis unfolding pending
      by (rule log_invI) (use assms in \<open>auto simp: log_inv_def covered_def ost_def objectState_snoc split: if_splits\<close>)
  next
    case (removed x m)
    have two: "map_of (objectStateByPath (sLog s @ [JIntent ob, JDelete ob])) = (map_of (objectStateByPath (sLog s)))(ob \<mapsto> OGone)"
      using objectState_snoc[of "sLog s @ [JIntent ob]" "JDelete ob"] objectState_snoc[of "sLog s" "JIntent ob"] by simp
    show ?thesis unfolding removed
      by (rule log_invI) (use assms in \<open>auto simp: log_inv_def covered_def ost_def two split: if_splits\<close>)
  qed
  with rem show ?thesis by simp
qed

lemma deleteObject_cases:
  assumes "deleteObject pj ob s = (r, s')"
  obtains (refused) "s' = s"
  | (stopped) r1 where "flushPendingDeletes s = (r1, s')"
  | (attempted) s1 f where "flushPendingDeletes s = (Inr (), s1)" "on_disk s1 ob = Some f" "remove_object ob (length (ofBytes f)) s1 = (r, s')"
      "ob \<notin> set (sVerifying s)" "\<And>sha. ob = Blob sha \<Longrightarrow> isProtectedBlob pj s sha = Some False"
proof -
  obtain r1 s1 where 1: "flushPendingDeletes s = (r1, s1)" by fastforce
  let ?p = "case ob of Blob sha \<Rightarrow> isProtectedBlob pj s sha | Man _ \<Rightarrow> Some False"
  show thesis
  proof (cases "?p = Some False \<and> ob \<notin> set (sVerifying s)")
    case False
    with assms have "s' = s" by (auto simp: deleteObject_def split: option.splits bool.splits if_splits)
    then show thesis by (rule refused)
  next
    case True
    then have del: "(r, s') = chain flushPendingDeletes (\<lambda>_ s1. case on_disk s1 ob of None \<Rightarrow> (Inr False, s1) | Some f \<Rightarrow> remove_object ob (length (ofBytes f)) s1) s"
      using assms by (simp add: deleteObject_def)
    show thesis
    proof (cases r1)
      case (Inl e)
      with del 1 have "s' = s1" by (simp add: chain_def)
      with 1 stopped show thesis by blast
    next
      case (Inr u)
      then have r1: "r1 = Inr ()" by simp
      show thesis
      proof (cases "on_disk s1 ob")
        case None
        with del 1 r1 have "s' = s1" by (simp add: chain_def)
        with 1 stopped show thesis by blast
      next
        case (Some f)
        with del 1 r1 have "remove_object ob (length (ofBytes f)) s1 = (r, s')" by (simp add: chain_def)
        with 1 r1 Some True show thesis by (intro attempted[of s1 f]) auto
      qed
    qed
  qed
qed

lemma keeps_log_delete: "keeps log_inv (deleteObject pj ob)"
  unfolding keeps_def
proof (intro allI impI)
  fix s assume inv: "log_inv s"
  obtain r s' where d: "deleteObject pj ob s = (r, s')" by fastforce
  from d have "log_inv s'"
  proof (cases rule: deleteObject_cases)
    case (attempted s1 f)
    with remove_object_log[OF flush_frame(1)[OF inv attempted(1)], of ob "length (ofBytes f)"] show ?thesis by simp
  qed (use inv flush_frame(1)[OF inv] in auto)
  with d show "log_inv (snd (deleteObject pj ob s))" by simp
qed

lemma keeps_delete_all:
  assumes "\<And>ob. keeps I (deleteObject pj ob)"
  shows "keeps I (delete_all pj obs)"
proof (induction obs)
  case (Cons ob obs)
  have "delete_all pj (ob # obs) = chain (deleteObject pj ob) (\<lambda>_. delete_all pj obs)" by (simp add: fun_eq_iff)
  then show ?case using keeps_chain[OF assms] Cons.IH by simp
qed (simp add: keeps_def)

lemma keeps_evict_job:
  assumes "\<And>ob. keeps I (deleteObject pj ob)"
  shows "keeps I (evict_job pj j)"
proof -
  have all: "keeps I (delete_all pj obs)" for obs by (rule keeps_delete_all[OF assms])
  have "keeps I (\<lambda>s1. case referencedBlobs pj s1 of None \<Rightarrow> (Inl EIo, s1) | Some refs \<Rightarrow> delete_all pj (g refs) s1)" for g
    unfolding keeps_def by (auto split: option.splits intro: keepsD[OF all])
  from keeps_chain[OF assms this] show ?thesis
    unfolding keeps_def evict_job_def by (auto split: option.splits)
qed

lemma keeps_sweep:
  assumes "\<And>ob. keeps I (deleteObject pj ob)"
  shows "keeps I (sweep pj cfg now)"
proof -
  have all: "keeps I (delete_all pj obs)" for obs by (rule keeps_delete_all[OF assms])
  have blobs: "keeps I (sweepBlobs pj now g)" for g
    unfolding keeps_def sweepBlobs_def by (auto split: option.splits intro: keepsD[OF all])
  have evict: "keeps I (evict_while pj l js)" for l js
  proof (induction js)
    case (Cons j js)
    have "evict_while pj l (j # js) = (\<lambda>s. if of_int (sBytes s) \<ge> l then chain (evict_job pj j) (\<lambda>_. evict_while pj l js) s else (Inr (), s))"
      by (simp add: fun_eq_iff)
    then show ?case using keeps_chain[OF keeps_evict_job[OF assms] Cons.IH] by (simp add: keeps_def)
  qed (simp add: keeps_def)
  have last: "keeps I (\<lambda>s1. case capBytes cfg of None \<Rightarrow> (Inr (), s1) | Some c \<Rightarrow> evict_while pj (c * evictAtFraction) (h s1) s1)" for h
    unfolding keeps_def by (auto split: option.splits intro: keepsD[OF evict])
  show ?thesis
    unfolding keeps_def sweep_def Let_def by (intro allI impI keepsD[OF keeps_chain[OF all keeps_chain[OF blobs last]]])
qed

section \<open>Opening\<close>

lemma journal_orphans_ok:
  assumes "journal_orphans hash os rp s = (Inr rp', s')" "rpCorrupt rp' = []"
  shows "rpCorrupt rp = [] \<and> sDisk s' = sDisk s \<and> sMeta s' = sMeta s \<and> sUnjournaled s' = sUnjournaled s \<and> sPending s' = sPending s \<and> sIntents s' = sIntents s \<and>
    (\<forall>ob. ost s' ob = ost s ob \<or> ost s' ob = Some OPut) \<and> (\<forall>x \<in> set os. ost s' (fst x) = Some OPut)"
  using assms
proof (induction os arbitrary: rp s)
  case (Cons x os)
  obtain ob f where x: "x = (ob, f)" by fastforce
  show ?case
  proof (cases "case ob of Blob sha \<Rightarrow> hash (ofBytes f) \<noteq> sha | Man _ \<Rightarrow> False")
    case True
    with Cons.prems x have "journal_orphans hash os (rp\<lparr>rpCorrupt := rpCorrupt rp @ [ob]\<rparr>) s = (Inr rp', s')" by simp
    from Cons.IH[OF this Cons.prems(2)] show ?thesis by simp
  next
    case False
    let ?e = "JPut ob (hash (ofBytes f)) (length (ofBytes f))"
    from False Cons.prems(1) x obtain u s1 where a: "append_entry ?e s = (Inr u, s1)"
      and rest: "journal_orphans hash os (rp\<lparr>rpJournaled := rpJournaled rp @ [ob]\<rparr>) s1 = (Inr rp', s')" by (auto dest: chain_InrD)
    have s1: "s1 = s\<lparr>sIo := tl (sIo s), sLog := sLog s @ [?e]\<rparr>" using append_entry_cases[of ?e s] a by auto
    note ih = Cons.IH[OF rest Cons.prems(2)]
    have o1: "ost s1 = (ost s)(ob \<mapsto> OPut)" by (simp add: s1)
    have "\<forall>ob. ost s' ob = ost s ob \<or> ost s' ob = Some OPut" using ih unfolding o1 by (metis fun_upd_apply)
    moreover have "ost s' ob = Some OPut" using ih unfolding o1 by (metis fun_upd_same)
    ultimately show ?thesis using ih by (simp add: s1 x)
  qed
qed simp

lemma settle_missing_ok:
  assumes "settle_missing os rp s = (Inr rp', s')"
  shows "rpCorrupt rp' = rpCorrupt rp \<and> sDisk s' = sDisk s \<and> sMeta s' = sMeta s \<and> sUnjournaled s' = sUnjournaled s \<and> sPending s' = sPending s \<and> sIntents s' = sIntents s \<and>
    (\<forall>ob. on_disk s ob \<noteq> None \<longrightarrow> ost s' ob = ost s ob)"
  using assms
proof (induction os arbitrary: rp s)
  case (Cons x os)
  obtain ob st where x: "x = (ob, st)" by fastforce
  consider (skip) "settle_missing os rp s = (Inr rp', s')"
    | (lost) "settle_missing os (rp\<lparr>rpLost := rpLost rp @ [ob]\<rparr>) (s\<lparr>sLost := ob # sLost s\<rparr>) = (Inr rp', s')"
    | (gone) u s1 where "on_disk s ob = None" "append_entry (JDelete ob) s = (Inr u, s1)" "settle_missing os (rp\<lparr>rpDeleted := rpDeleted rp @ [ob]\<rparr>) s1 = (Inr rp', s')"
    using Cons.prems by (auto simp: x split: if_splits ostate.splits dest: chain_InrD)
  then show ?case
  proof cases
    case skip
    from Cons.IH[OF this] show ?thesis .
  next
    case lost
    from Cons.IH[OF this] show ?thesis by (simp add: ost_def)
  next
    case (gone u s1)
    have s1: "s1 = s\<lparr>sIo := tl (sIo s), sLog := sLog s @ [JDelete ob]\<rparr>" using append_entry_cases[of "JDelete ob" s] gone(2) by auto
    from Cons.IH[OF gone(3)] gone(1) show ?thesis by (auto simp: s1)
  qed
qed simp

lemma map_of_filter_key: "map_of (filter (\<lambda>x. P (fst x)) l) k = (if P k then map_of l k else None)"
  by (induction l) auto

lemma open_store_ok:
  assumes "open_store hash disk metas recs ios = (Inr rp, s)" "rpCorrupt rp = []"
  shows "log_inv s" "\<And>ob. on_disk s ob = (if valid_obj ob then map_of disk ob else None)" "sMeta s = metas"
proof -
  define objs where "objs = filter (\<lambda>x. valid_obj (fst x)) disk"
  define s0 where "s0 = \<lparr>sDisk = objs, sMeta = metas, sLog = recs, sIo = ios, sBytes = (\<Sum>x \<leftarrow> objs. int (length (ofBytes (snd x)))), sReserved = 0,
            sUnjournaled = [], sPending = [], sIntents = map fst (filter (\<lambda>x. snd x = OIntent) (objectStateByPath recs)), sLost = [], sVerifying = []\<rparr>"
  let ?st = "objectStateByPath (sLog s0)"
  let ?orphans = "filter (is_orphan ?st) (sDisk s0)"
  let ?os = "filter (\<lambda>x. is_blob (fst x)) ?orphans @ filter (\<lambda>x. \<not> is_blob (fst x)) ?orphans"
  have "reconcile_store hash s0 = (Inr rp, s)" using assms(1) by (simp add: open_store_def objs_def s0_def Let_def)
  then obtain rp1 s1 where 1: "journal_orphans hash ?os \<lparr>rpJournaled = [], rpCorrupt = [], rpDeleted = [], rpLost = []\<rparr> s0 = (Inr rp1, s1)"
    and 2: "settle_missing ?st rp1 s1 = (Inr rp, s)" unfolding reconcile_store_def Let_def by (blast dest: chain_InrD)
  note f2 = settle_missing_ok[OF 2]
  then have "rpCorrupt rp1 = []" using assms(2) by simp
  note f1 = journal_orphans_ok[OF 1 this]
  have disk: "on_disk s = on_disk s0" "on_disk s1 = on_disk s0" using f1 f2 by (auto intro!: on_disk_frame)
  show "on_disk s ob = (if valid_obj ob then map_of disk ob else None)" for ob
    unfolding disk by (simp add: on_disk_def s0_def objs_def map_of_filter_key)
  show "sMeta s = metas" using f1 f2 by (simp add: s0_def)
  show "log_inv s"
  proof (rule log_invI)
    fix sha assume d: "on_disk s (Blob sha) \<noteq> None"
    then have d0: "on_disk s0 (Blob sha) \<noteq> None" unfolding disk .
    then obtain f where f: "(Blob sha, f) \<in> set (sDisk s0)" by (auto simp: on_disk_def dest: map_of_SomeD)
    have os: "ost s (Blob sha) = ost s1 (Blob sha)" using f2 d0 disk by simp
    show "covered s sha"
    proof (cases "is_orphan ?st (Blob sha, f)")
      case True
      then have "(Blob sha, f) \<in> set ?os" using f by (simp add: is_blob_def)
      with f1 have "ost s1 (Blob sha) = Some OPut" by force
      with os show ?thesis by (simp add: covered_def)
    next
      case False
      then have st: "ost s0 (Blob sha) = Some OPut \<or> ost s0 (Blob sha) = Some OIntent" by (simp add: is_orphan_def ost_def)
      have int: "Blob sha \<in> set (sIntents s0)" if "ost s0 (Blob sha) = Some OIntent"
        using map_of_SomeD[OF that[unfolded ost_def]] by (force simp: s0_def)
      have or: "ost s1 (Blob sha) = ost s0 (Blob sha) \<or> ost s1 (Blob sha) = Some OPut" using f1 by blast
      have si: "sIntents s = sIntents s0" using f1 f2 by simp
      show ?thesis using st or int unfolding covered_def os si by metis
    qed
  next
    fix ob assume "ob \<in> set (sPending s)"
    then show "on_disk s ob = None" using f1 f2 by (simp add: s0_def)
  qed
qed

section \<open>Runs\<close>

text \<open>
  The states of a store over its life. A store is opened on any directory that satisfies \<open>ok\<close> and has no corrupt blob without a record; then its operations follow in any
  order, each with any outcomes of its disk and journal accesses. Uploaded bodies come from \<open>U\<close>.
\<close>

inductive store_run ::
  "(string \<Rightarrow> string) \<Rightarrow> (string \<Rightarrow> json option) \<Rightarrow> (manifest_entry list \<Rightarrow> string) \<Rightarrow> store_cfg \<Rightarrow> string set \<Rightarrow> (store \<Rightarrow> bool) \<Rightarrow> store \<Rightarrow> bool"
  for hash pj dg cfg U ok where
  opened: "open_store hash disk metas recs ios = (Inr rp, s) \<Longrightarrow> rpCorrupt rp = [] \<Longrightarrow> ok s \<Longrightarrow> store_run hash pj dg cfg U ok s"
| started: "store_run hash pj dg cfg U ok s \<Longrightarrow> store_run hash pj dg cfg U ok (snd (putBlob_start hash cfg sha n s))"
| duplicate: "store_run hash pj dg cfg U ok s \<Longrightarrow> store_run hash pj dg cfg U ok (snd (acknowledgeDuplicate hash sha body now (s\<lparr>sIo := ios\<rparr>)))"
| finished: "store_run hash pj dg cfg U ok s \<Longrightarrow> isSha256 sha \<Longrightarrow> body \<in> U \<Longrightarrow>
    store_run hash pj dg cfg U ok (snd (putBlob_finish hash cfg sha body held now (s\<lparr>sIo := ios\<rparr>)))"
| abandoned: "store_run hash pj dg cfg U ok s \<Longrightarrow> store_run hash pj dg cfg U ok (release held s)"
| registered: "store_run hash pj dg cfg U ok s \<Longrightarrow> store_run hash pj dg cfg U ok (snd (registerManifest hash pj dg cfg job bytes now (s\<lparr>sIo := ios\<rparr>)))"
| ended: "store_run hash pj dg cfg U ok s \<Longrightarrow> store_run hash pj dg cfg U ok (snd (markTerminal pj job now (s\<lparr>sIo := ios\<rparr>)))"
| pinned: "store_run hash pj dg cfg U ok s \<Longrightarrow> store_run hash pj dg cfg U ok (snd (setPinned pj job b (s\<lparr>sIo := ios\<rparr>)))"
| deleted: "store_run hash pj dg cfg U ok s \<Longrightarrow> store_run hash pj dg cfg U ok (snd (deleteObject pj ob (s\<lparr>sIo := ios\<rparr>)))"
| maintained: "store_run hash pj dg cfg U ok s \<Longrightarrow> store_run hash pj dg cfg U ok (snd (maintain (s\<lparr>sIo := ios\<rparr>)))"
| swept: "store_run hash pj dg cfg U ok s \<Longrightarrow> store_run hash pj dg cfg U ok (snd (sweep pj cfg now (s\<lparr>sIo := ios\<rparr>)))"
| rejournaling: "store_run hash pj dg cfg U ok s \<Longrightarrow> store_run hash pj dg cfg U ok (snd (rejournal_start ob (s\<lparr>sIo := ios\<rparr>)))"
| rejournaled: "store_run hash pj dg cfg U ok s \<Longrightarrow> store_run hash pj dg cfg U ok (snd (rejournal_finish hash ob seen (s\<lparr>sIo := ios\<rparr>)))"
| reopened: "store_run hash pj dg cfg U ok s \<Longrightarrow> open_store hash (sDisk s) (sMeta s) (sLog s) ios = (Inr rp, s') \<Longrightarrow> rpCorrupt rp = [] \<Longrightarrow> store_run hash pj dg cfg U ok s'"

text \<open>An invariant of runs: it holds when a store is opened and every operation preserves it.\<close>

lemma store_run_invariant:
  assumes "store_run hash pj dg cfg U ok s"
    and "\<And>disk metas recs ios rp s. open_store hash disk metas recs ios = (Inr rp, s) \<Longrightarrow> rpCorrupt rp = [] \<Longrightarrow> ok s \<Longrightarrow> I s"
    and "\<And>s ios rp s'. I s \<Longrightarrow> open_store hash (sDisk s) (sMeta s) (sLog s) ios = (Inr rp, s') \<Longrightarrow> rpCorrupt rp = [] \<Longrightarrow> I s'"
    and "\<And>s x. I s \<Longrightarrow> I (s\<lparr>sIo := x\<rparr>)" "\<And>s n. I s \<Longrightarrow> I (release n s)"
    and "\<And>sha n. keeps I (putBlob_start hash cfg sha n)" "\<And>sha body now. keeps I (acknowledgeDuplicate hash sha body now)"
    and "\<And>sha body held now. isSha256 sha \<Longrightarrow> body \<in> U \<Longrightarrow> keeps I (putBlob_finish hash cfg sha body held now)"
    and "\<And>job bytes now. keeps I (registerManifest hash pj dg cfg job bytes now)" "\<And>job now. keeps I (markTerminal pj job now)" "\<And>job b. keeps I (setPinned pj job b)"
    and "\<And>ob. keeps I (deleteObject pj ob)" "keeps I maintain" "\<And>ob. keeps I (rejournal_start ob)" "\<And>ob seen. keeps I (rejournal_finish hash ob seen)"
  shows "I s"
  using assms(1)
proof (induction rule: store_run.induct)
  case (swept s now ios)
  then show ?case using keepsD[OF keeps_sweep[OF assms(12)]] assms(4) by blast
qed (blast intro: assms(2-15) keepsD)+

lemma keeps_log_rejournal_start: "keeps log_inv (rejournal_start ob)"
  unfolding rejournal_start_def by (intro keeps_chain keeps_log_flush keeps_modify) simp

lemma keeps_log_rejournal_finish: "keeps log_inv (rejournal_finish hash ob seen)"
  unfolding keeps_def
proof (intro allI impI)
  fix s assume inv: "log_inv s"
  show "log_inv (snd (rejournal_finish hash ob seen s))"
  proof (cases seen)
    case (Some bytes)
    have "log_inv (snd (append_entry (JPut ob (hash bytes) (length bytes)) s))" by (rule log_inv_append_put[OF inv]) blast
    with Some show ?thesis by (auto simp: rejournal_finish_def split: prod.splits)
  qed (simp add: rejournal_finish_def inv)
qed

lemma run_log_inv: "store_run hash pj dg cfg U ok s \<Longrightarrow> log_inv s"
proof (erule store_run_invariant)
  show "keeps log_inv maintain" unfolding maintain_def by (rule keeps_log_flush)
qed (simp_all add: release_def keeps_log_start keeps_log_acknowledge keeps_log_finish keeps_log_register markTerminal_def setPinned_def keeps_log_setJobState
  keeps_log_delete keeps_log_rejournal_start keeps_log_rejournal_finish open_store_ok(1))

end
