(* ===== verification/Store_Live.thy ===== *)
theory Store_Live
  imports Store_Safety
begin

text \<open>
  What a run of the object store keeps: the record of a manifest follows live records of its blobs in the journal, and a job that has not finished keeps every blob of its
  manifest, intact. Both rest on the invariants of theory \<open>Store_Safety\<close>; an object's path and the object determine each other.
\<close>

section \<open>Object paths\<close>

lemma drop_blobRelPath: "isSha256 sha \<Longrightarrow> drop 12 (blobRelPath sha) = sha"
  by (simp add: blobRelPath_def isSha256_def)

lemma trim_manifestRelPath: "take (length (manifestRelPath job) - 15) (drop 10 (manifestRelPath job)) = job"
  by (simp add: manifestRelPath_def)

lemma blob_not_manifest: "blobRelPath sha \<noteq> manifestRelPath job"
  by (simp add: blobRelPath_def manifestRelPath_def)

definition objectPath :: "obj \<Rightarrow> string" where
  "objectPath ob = (case ob of Blob sha \<Rightarrow> blobRelPath sha | Man job \<Rightarrow> manifestRelPath job)"

text \<open>
  A path names an object exactly when it is the path of that object and its address or job id is well formed: the walk of the store's directories at start-up, the
  records of the journal and the paths a replica is sent all name the same objects, and no two objects share a path.
\<close>

theorem object_path_roundtrip: "parseObjectPath rel = Some ob \<longleftrightarrow> valid_obj ob \<and> rel = objectPath ob"
proof
  assume p: "parseObjectPath rel = Some ob"
  show "valid_obj ob \<and> rel = objectPath ob"
  proof (cases ob)
    case (Blob sha)
    from p show ?thesis unfolding parseObjectPath_def Let_def Blob valid_obj_def objectPath_def obj.case by (metis obj.distinct(1) obj.inject(1) option.distinct(1) option.inject)
  next
    case (Man job)
    from p show ?thesis unfolding parseObjectPath_def Let_def Man valid_obj_def objectPath_def obj.case by (metis obj.distinct(1) obj.inject(2) option.distinct(1) option.inject)
  qed
next
  assume v: "valid_obj ob \<and> rel = objectPath ob"
  show "parseObjectPath rel = Some ob"
  proof (cases ob)
    case (Blob sha)
    with v have "isSha256 sha" "rel = blobRelPath sha" unfolding Blob valid_obj_def objectPath_def obj.case by blast+
    then show ?thesis unfolding parseObjectPath_def Let_def Blob by (simp only: drop_blobRelPath simp_thms if_True)
  next
    case (Man job)
    with v have "isJobId job" "rel = manifestRelPath job" unfolding Man valid_obj_def objectPath_def obj.case by blast+
    then show ?thesis unfolding parseObjectPath_def Let_def Man
      by (simp only: trim_manifestRelPath blob_not_manifest[symmetric] simp_thms if_True if_False)
  qed
qed

section \<open>The journal only grows\<close>

lemma keeps_prefix_append: "keeps (\<lambda>t. \<exists>k. sLog t = l @ k) (append_entry e)"
  unfolding keeps_def
proof (intro allI impI)
  fix s :: store assume "\<exists>k. sLog s = l @ k"
  then show "\<exists>k. sLog (snd (append_entry e s)) = l @ k" using append_entry_cases[of e s] by auto
qed

lemma keeps_prefix_modify: "(\<And>s. sLog (f s) = sLog s) \<Longrightarrow> keeps (\<lambda>t. \<exists>k. sLog t = l @ k) (modify f)"
  by (rule keeps_modify) simp

lemma keeps_prefix_journalDelete: "keeps (\<lambda>t. \<exists>k. sLog t = l @ k) (journalDelete ob)"
  unfolding journalDelete_def by (intro keeps_chain keeps_prefix_append keeps_prefix_modify) simp

lemma keeps_prefix_flush: "keeps (\<lambda>t. \<exists>k. sLog t = l @ k) flushPendingDeletes"
proof -
  have "keeps (\<lambda>t. \<exists>k. sLog t = l @ k) (flush_all obs)" for obs
  proof (induction obs)
    case (Cons ob obs)
    have eq: "flush_all (ob # obs) = chain (journalDelete ob) (\<lambda>_. flush_all obs)" by (simp add: fun_eq_iff)
    show ?case unfolding eq by (rule keeps_chain, rule keeps_prefix_journalDelete, rule Cons.IH)
  qed (simp add: keeps_def)
  then show ?thesis by (simp add: keeps_def flushPendingDeletes_def)
qed

lemma keeps_prefix_journal_if_needed: "keeps (\<lambda>t. \<exists>k. sLog t = l @ k) (journal_if_needed h)"
  unfolding keeps_def
proof (intro allI impI)
  fix s :: store assume "\<exists>k. sLog s = l @ k"
  then show "\<exists>k. sLog (snd (journal_if_needed h s)) = l @ k"
    by (cases rule: journalBlob_cases[of h s]) (auto simp: journal_if_needed_def)
qed

lemma keeps_prefix_cancelIntent: "keeps (\<lambda>t. \<exists>k. sLog t = l @ k) (cancelIntent ob)"
  unfolding keeps_def
proof (intro allI impI)
  fix s :: store assume "\<exists>k. sLog s = l @ k"
  then show "\<exists>k. sLog (snd (cancelIntent ob s)) = l @ k"
    by (cases rule: cancelIntent_cases[of ob s]) auto
qed

lemma keeps_prefix_ready: "keeps (\<lambda>t. \<exists>k. sLog t = l @ k) (journal_ready hs)"
proof -
  have j: "keeps (\<lambda>t. \<exists>k. sLog t = l @ k) (journal_blobs hs)"
  proof (induction hs)
    case (Cons h hs)
    have eq: "journal_blobs (h # hs) = chain (journal_if_needed h) (\<lambda>_. journal_blobs hs)" by (simp add: fun_eq_iff)
    show ?case unfolding eq by (rule keeps_chain, rule keeps_prefix_journal_if_needed, rule Cons.IH)
  qed (simp add: keeps_def)
  have c: "keeps (\<lambda>t. \<exists>k. sLog t = l @ k) (cancel_intents hs)"
  proof (induction hs)
    case (Cons h hs)
    have eq: "cancel_intents (h # hs) = chain (cancelIntent (Blob h)) (\<lambda>_. cancel_intents hs)" by (simp add: fun_eq_iff)
    show ?case unfolding eq by (rule keeps_chain, rule keeps_prefix_cancelIntent, rule Cons.IH)
  qed (simp add: keeps_def)
  show ?thesis unfolding journal_ready_def by (intro keeps_chain keeps_prefix_flush j c)
qed

lemma journal_ready_grows: "journal_ready hs s = (r, s') \<Longrightarrow> \<exists>k. sLog s' = sLog s @ k"
  using keepsD[OF keeps_prefix_ready[of "sLog s" hs], of s] by simp

lemma write_manifest_Inr:
  assumes "write_manifest hash job bytes now s = (Inr b, s')"
  shows "sLog s' = sLog s @ [JPut (Man job) (hash bytes) (length bytes)]" "on_disk s' = (on_disk s)(Man job \<mapsto> \<lparr>ofBytes = bytes, ofMtime = now\<rparr>)"
    "sMeta s' = AList.update job \<lparr>mtRegistered = Some now, mtTerminal = None, mtPinned = False\<rparr> (sMeta s)"
proof -
  let ?f = "\<lambda>s. s\<lparr>sMeta := AList.update job \<lparr>mtRegistered = Some now, mtTerminal = None, mtPinned = False\<rparr> (sMeta s)\<rparr>"
  let ?e = "JPut (Man job) (hash bytes) (length bytes)"
  let ?s1 = "(put_file (Man job) bytes now s)\<lparr>sBytes := sBytes s + int (length bytes)\<rparr>"
  obtain u s2 where m: "chain io (\<lambda>_. chain (modify ?f) (\<lambda>_. append_entry ?e)) ?s1 = (Inr u, s2)" and s': "s' = s2\<lparr>sLost := removeAll (Man job) (sLost s2)\<rparr>"
    using assms unfolding write_manifest_def Let_def by (auto split: prod.splits sum.splits)
  from m have a: "append_entry ?e (?f (?s1\<lparr>sIo := tl (sIo ?s1)\<rparr>)) = (Inr u, s2)"
    by (auto simp: modify_def dest!: chain_InrD ioD)
  have s2: "s2 = (?f (?s1\<lparr>sIo := tl (sIo ?s1)\<rparr>))\<lparr>sIo := tl (tl (sIo ?s1)), sLog := sLog s @ [?e]\<rparr>"
    using append_entry_cases[of ?e "?f (?s1\<lparr>sIo := tl (sIo ?s1)\<rparr>)"] a by auto
  show "sLog s' = sLog s @ [JPut (Man job) (hash bytes) (length bytes)]" "on_disk s' = (on_disk s)(Man job \<mapsto> \<lparr>ofBytes = bytes, ofMtime = now\<rparr>)"
    "sMeta s' = AList.update job \<lparr>mtRegistered = Some now, mtTerminal = None, mtPinned = False\<rparr> (sMeta s)"
    by (simp_all add: s' s2 fun_eq_iff)
qed


section \<open>Live jobs keep their blobs\<close>

definition bytes_of :: "store \<Rightarrow> obj \<Rightarrow> string option" where
  "bytes_of s ob = map_option ofBytes (on_disk s ob)"

definition intact :: "(string \<Rightarrow> string) \<Rightarrow> string set \<Rightarrow> store \<Rightarrow> bool" where
  "intact hash U s \<longleftrightarrow> (\<forall>sha b. bytes_of s (Blob sha) = Some b \<longrightarrow> hash b = sha \<and> b \<in> U)"

definition live_complete :: "(string \<Rightarrow> json option) \<Rightarrow> store \<Rightarrow> bool" where
  "live_complete pj s \<longleftrightarrow> (\<forall>job d. readManifest pj s job = Some (Some d) \<and> mtTerminal (meta s job) = None \<longrightarrow>
     (\<exists>hs. doc_blobs d = Some hs \<and> (\<forall>h \<in> set hs. bytes_of s (Blob h) \<noteq> None)))"

definition live_inv :: "(string \<Rightarrow> string) \<Rightarrow> (string \<Rightarrow> json option) \<Rightarrow> string set \<Rightarrow> store \<Rightarrow> bool" where
  "live_inv hash pj U s \<longleftrightarrow> intact hash U s \<and> live_complete pj s \<and> (\<forall>ob. bytes_of s ob \<noteq> None \<longrightarrow> valid_obj ob)"

lemma live_invI:
  assumes "\<And>sha b. bytes_of s (Blob sha) = Some b \<Longrightarrow> hash b = sha \<and> b \<in> U" "\<And>ob. bytes_of s ob \<noteq> None \<Longrightarrow> valid_obj ob"
    and "\<And>job d. readManifest pj s job = Some (Some d) \<Longrightarrow> mtTerminal (meta s job) = None \<Longrightarrow> \<exists>hs. doc_blobs d = Some hs \<and> (\<forall>h \<in> set hs. bytes_of s (Blob h) \<noteq> None)"
  shows "live_inv hash pj U s"
  using assms unfolding live_inv_def intact_def live_complete_def by blast

lemma live_invD:
  assumes "live_inv hash pj U s"
  shows "bytes_of s (Blob sha) = Some b \<Longrightarrow> hash b = sha \<and> b \<in> U" "bytes_of s ob \<noteq> None \<Longrightarrow> valid_obj ob"
    and "readManifest pj s job = Some (Some d) \<Longrightarrow> mtTerminal (meta s job) = None \<Longrightarrow> \<exists>hs. doc_blobs d = Some hs \<and> (\<forall>h \<in> set hs. bytes_of s (Blob h) \<noteq> None)"
  using assms unfolding live_inv_def intact_def live_complete_def by blast+

lemma readManifest_bytes: "readManifest pj s job =
   (case bytes_of s (Man job) of None \<Rightarrow> None
    | Some b \<Rightarrow> if \<not> isJobId job then None else case pj b of None \<Rightarrow> Some None | Some d \<Rightarrow> if falsy d then None else Some (Some d))"
  by (cases "on_disk s (Man job)") (simp_all add: readManifest_def bytes_of_def)

lemma bytes_of_frame: "on_disk s' = on_disk s \<Longrightarrow> bytes_of s' = bytes_of s"
  by (simp add: bytes_of_def fun_eq_iff)

lemma bytes_of_put [simp]: "bytes_of (put_file ob b t s) = (bytes_of s)(ob \<mapsto> b)"
  by (simp add: bytes_of_def fun_eq_iff)

lemma bytes_of_drop [simp]: "bytes_of (drop_file ob s) = (bytes_of s)(ob := None)"
  by (simp add: bytes_of_def fun_eq_iff)

lemma bytes_of_update [simp]:
  "bytes_of (s\<lparr>sMeta := a\<rparr>) = bytes_of s" "bytes_of (s\<lparr>sLog := b\<rparr>) = bytes_of s" "bytes_of (s\<lparr>sIo := c\<rparr>) = bytes_of s" "bytes_of (s\<lparr>sBytes := d\<rparr>) = bytes_of s"
  "bytes_of (s\<lparr>sReserved := e\<rparr>) = bytes_of s" "bytes_of (s\<lparr>sUnjournaled := g\<rparr>) = bytes_of s" "bytes_of (s\<lparr>sPending := h\<rparr>) = bytes_of s"
  "bytes_of (s\<lparr>sIntents := i\<rparr>) = bytes_of s" "bytes_of (s\<lparr>sLost := k\<rparr>) = bytes_of s" "bytes_of (s\<lparr>sVerifying := l\<rparr>) = bytes_of s"
  by (simp_all add: bytes_of_def fun_eq_iff)

text \<open>Steps that change neither the contents of the store nor a job's state.\<close>

definition same :: "store \<Rightarrow> store \<Rightarrow> bool" where
  "same s t \<longleftrightarrow> bytes_of t = bytes_of s \<and> sMeta t = sMeta s"

lemma live_frame:
  assumes "live_inv hash pj U s" "bytes_of t = bytes_of s" "\<And>job. mtTerminal (meta t job) = None \<Longrightarrow> mtTerminal (meta s job) = None"
  shows "live_inv hash pj U t"
proof -
  have rm: "readManifest pj t job = readManifest pj s job" for job by (simp add: readManifest_bytes assms(2))
  show ?thesis using assms(1,3) unfolding live_inv_def intact_def live_complete_def assms(2) rm by blast
qed

lemma live_same: "live_inv hash pj U s \<Longrightarrow> same s t \<Longrightarrow> live_inv hash pj U t"
  by (rule live_frame) (simp_all add: same_def meta_def)

lemma same_refl [simp]: "same s s"
  by (simp add: same_def)

lemma keeps_same_io: "keeps (same s) io"
  by (simp add: keeps_def same_def)

lemma keeps_same_append: "keeps (same s) (append_entry e)"
  unfolding keeps_def same_def
proof (intro allI impI)
  fix t :: store assume "bytes_of t = bytes_of s \<and> sMeta t = sMeta s"
  then show "bytes_of (snd (append_entry e t)) = bytes_of s \<and> sMeta (snd (append_entry e t)) = sMeta s"
    using bytes_of_frame[OF on_disk_frame[OF append_entry_frame(1)[of e t]]] by simp
qed

lemma keeps_same_modify: "(\<And>t. bytes_of (f t) = bytes_of t) \<Longrightarrow> (\<And>t. sMeta (f t) = sMeta t) \<Longrightarrow> keeps (same s) (modify f)"
  by (rule keeps_modify) (simp add: same_def)

lemma keeps_same_journalBlob: "keeps (same s) (journalBlob sha)"
proof -
  have "keeps (same s) (chain (append_entry (JPut (Blob sha) sha n)) (\<lambda>_. modify (\<lambda>s. s\<lparr>sUnjournaled := removeAll sha (sUnjournaled s)\<rparr>)))" for n
    by (intro keeps_chain keeps_same_append keeps_same_modify) simp_all
  then show ?thesis by (simp add: keeps_def journalBlob_def)
qed

lemma keeps_same_journal_if_needed: "keeps (same s) (journal_if_needed sha)"
  using keeps_same_journalBlob[of s sha] by (simp add: keeps_def journal_if_needed_def)

lemma keeps_same_cancelIntent: "keeps (same s) (cancelIntent ob)"
proof -
  have "keeps (same s) (chain (append_entry (JCancel ob)) (\<lambda>_. modify (\<lambda>s. s\<lparr>sIntents := removeAll ob (sIntents s)\<rparr>)))"
    by (intro keeps_chain keeps_same_append keeps_same_modify) simp_all
  then show ?thesis by (simp add: keeps_def cancelIntent_def)
qed

lemma keeps_same_touch: "keeps (same s) (touch ob now)"
  unfolding touch_def
proof (intro keeps_chain keeps_same_io keeps_same_modify)
  fix t
  show "bytes_of (case on_disk t ob of None \<Rightarrow> t | Some f \<Rightarrow> put_file ob (ofBytes f) now t) = bytes_of t"
    by (cases "on_disk t ob") (auto simp: bytes_of_def fun_eq_iff)
  show "sMeta (case on_disk t ob of None \<Rightarrow> t | Some f \<Rightarrow> put_file ob (ofBytes f) now t) = sMeta t"
    by (cases "on_disk t ob") simp_all
qed

lemmas keeps_same = keeps_chain keeps_done keeps_same_io keeps_same_append keeps_same_journalBlob keeps_same_journal_if_needed keeps_same_cancelIntent keeps_same_touch

lemma same_after: "keeps (same s) m \<Longrightarrow> m s = (r, t) \<Longrightarrow> same s t"
  using keepsD[where I = "same s" and m = m and s = s] by simp

section \<open>Uploads keep it\<close>

lemma live_acknowledge:
  assumes "live_inv hash pj U s"
  shows "live_inv hash pj U (snd (acknowledgeDuplicate hash' sha body now s))"
proof -
  let ?m = "chain (touch (Blob sha) now) (\<lambda>_. chain (journal_if_needed sha) (\<lambda>_. chain (cancelIntent (Blob sha)) (\<lambda>_. done_with False)))"
  have "keeps (same s) ?m" by (intro keeps_same)
  from keepsD[where I = "same s" and s = s, OF this] have "same s (snd (?m s))" by simp
  then show ?thesis using assms live_same by (simp add: acknowledgeDuplicate_def)
qed

text \<open>After a new blob is on disk: it stays, or it is taken away again.\<close>

lemma settle_blob_bytes:
  assumes "settle_blob sha n now s = (r, s')"
  shows "sMeta s' = sMeta s" "bytes_of s' = bytes_of s \<or> bytes_of s' = (bytes_of s)(Blob sha := None)"
proof -
  let ?m = "chain (touch (Blob sha) now) (\<lambda>_. chain io (\<lambda>_. journalBlob sha))"
  obtain r1 s1 where m: "?m s = (r1, s1)" by fastforce
  have "keeps (same s) ?m" by (intro keeps_same)
  from same_after[OF this m] have s1: "bytes_of s1 = bytes_of s" "sMeta s1 = sMeta s" by (simp_all add: same_def)
  obtain r2 where i: "io s1 = (r2, s1\<lparr>sIo := tl (sIo s1)\<rparr>)" by (metis prod.collapse snd_io)
  show "sMeta s' = sMeta s" "bytes_of s' = bytes_of s \<or> bytes_of s' = (bytes_of s)(Blob sha := None)"
    using assms m i s1 by (auto simp: settle_blob_def split: sum.splits)
qed

lemma live_add_blob:
  assumes "live_inv hash pj U s" "bytes_of s (Blob sha) = None" "isSha256 sha" "body \<in> U" "hash body = sha" "sMeta t = sMeta s"
    and "bytes_of t = (bytes_of s)(Blob sha \<mapsto> body) \<or> bytes_of t = (bytes_of s)(Blob sha := None)"
  shows "live_inv hash pj U t"
  using assms(7)
proof
  assume t: "bytes_of t = (bytes_of s)(Blob sha \<mapsto> body)"
  have rm: "readManifest pj t job = readManifest pj s job" for job by (simp add: readManifest_bytes t)
  have mt: "meta t job = meta s job" for job by (simp add: meta_def assms(6))
  show ?thesis
  proof (rule live_invI)
    fix h b assume "bytes_of t (Blob h) = Some b"
    then show "hash b = h \<and> b \<in> U" using live_invD(1)[OF assms(1)] assms(4,5) by (auto simp: t split: if_splits)
  next
    fix ob assume "bytes_of t ob \<noteq> None"
    then show "valid_obj ob" using live_invD(2)[OF assms(1), of ob] assms(3) by (auto simp: t valid_obj_def split: if_splits)
  next
    fix job d assume "readManifest pj t job = Some (Some d)" "mtTerminal (meta t job) = None"
    from live_invD(3)[OF assms(1) this[unfolded rm mt]]
    show "\<exists>hs. doc_blobs d = Some hs \<and> (\<forall>h \<in> set hs. bytes_of t (Blob h) \<noteq> None)" by (auto simp: t)
  qed
next
  assume "bytes_of t = (bytes_of s)(Blob sha := None)"
  then have "bytes_of t = bytes_of s" using assms(2) by (simp add: fun_upd_idem_iff)
  then show ?thesis using live_same[OF assms(1)] assms(6) by (simp add: same_def)
qed

lemma live_commit:
  assumes "log_inv s" "live_inv hash pj U s" "inj_on hash U" "isSha256 sha" "body \<in> U"
  shows "live_inv hash pj U (snd (commit_blob hash cfg sha body held now s))"
proof (cases "hash body = sha \<and> length body \<le> maxBlobBytes cfg \<and> \<not> intactBlob hash s sha (length body)")
  case False
  let ?m = "chain (touch (Blob sha) now) (\<lambda>_. chain (journal_if_needed sha) (\<lambda>_. done_with False))"
  have "keeps (same s) ?m" by (intro keeps_same)
  from keepsD[where I = "same s" and s = s, OF this] have "same s (snd (?m s))" by simp
  then have dup: "live_inv hash pj U (snd (?m s))" by (rule live_same[OF assms(2)])
  show ?thesis
  proof (cases "length body > maxBlobBytes cfg")
    case long: True
    show ?thesis unfolding commit_blob_def Let_def if_P[OF long] snd_conv by (rule assms(2))
  next
    case fits: False
    show ?thesis
    proof (cases "hash body \<noteq> sha")
      case wrong: True
      show ?thesis unfolding commit_blob_def Let_def if_not_P[OF fits] if_P[OF wrong] snd_conv by (rule assms(2))
    next
      case right: False
      have held: "intactBlob hash s sha (length body)" using False fits right by linarith
      show ?thesis unfolding commit_blob_def Let_def if_not_P[OF fits] if_not_P[OF right] if_P[OF held] by (rule dup)
    qed
  qed
next
  case True
  have absent: "bytes_of s (Blob sha) = None"
  proof (rule ccontr)
    assume "bytes_of s (Blob sha) \<noteq> None"
    then obtain f where f: "on_disk s (Blob sha) = Some f" by (auto simp: bytes_of_def)
    then have "hash (ofBytes f) = sha" "ofBytes f \<in> U" using live_invD(1)[OF assms(2), of sha "ofBytes f"] by (simp_all add: bytes_of_def)
    then have "hash (ofBytes f) = hash body" using True by simp
    from inj_onD[OF assms(3) this \<open>ofBytes f \<in> U\<close> assms(5)] have "ofBytes f = body" .
    then have "intactBlob hash s sha (length body)" using f True by (simp add: intactBlob_def)
    with True show False by blast
  qed
  let ?settle = "\<lambda>s1. settle_blob sha (length body) now ((put_file (Blob sha) body now s1)\<lparr>sBytes := sBytes s1 + int (length body) - int (nullish (blobSize s1 sha) 0)\<rparr>)"
  have settle: "live_inv hash pj U (snd (?settle s1))" if "same s s1" for s1
  proof -
    obtain r t where t: "?settle s1 = (r, t)" by fastforce
    have b: "bytes_of s1 = bytes_of s" "sMeta s1 = sMeta s" using that by (simp_all add: same_def)
    have "sMeta t = sMeta s" using settle_blob_bytes(1)[OF t] b by simp
    moreover have "bytes_of t = (bytes_of s)(Blob sha \<mapsto> body) \<or> bytes_of t = (bytes_of s)(Blob sha := None)"
      using settle_blob_bytes(2)[OF t] b by simp
    ultimately have "live_inv hash pj U t" using live_add_blob[OF assms(2) absent assms(4,5)] True by blast
    then show ?thesis by (simp add: t)
  qed
  obtain r1 s1 where f: "flushPendingDeletes s = (r1, s1)" by fastforce
  have same1: "same s s1" using bytes_of_frame[OF flush_frame(2)[OF assms(1) f]] flush_frame(4)[OF assms(1) f] by (simp add: same_def)
  obtain r2 where i: "io s1 = (r2, s1\<lparr>sIo := tl (sIo s1)\<rparr>)" by (metis prod.collapse snd_io)
  have same2: "same s (s1\<lparr>sIo := tl (sIo s1)\<rparr>)" using same1 by (simp add: same_def)
  let ?c = "chain flushPendingDeletes (\<lambda>_. chain io (\<lambda>_. ?settle)) s"
  have run: "live_inv hash pj U (snd ?c)"
  proof (cases r1)
    case (Inl e)
    show ?thesis unfolding chain_Inl[of flushPendingDeletes s, OF f[unfolded Inl]] using live_same[OF assms(2) same1] by simp
  next
    case r1: (Inr u)
    show ?thesis
    proof (cases r2)
      case (Inl e)
      show ?thesis unfolding chain_Inr[of flushPendingDeletes s, OF f[unfolded r1]] chain_Inl[of io s1, OF i[unfolded Inl]] using live_same[OF assms(2) same2] by simp
    next
      case (Inr v)
      show ?thesis unfolding chain_Inr[of flushPendingDeletes s, OF f[unfolded r1]] chain_Inr[of io s1, OF i[unfolded Inr]] by (rule settle[OF same2])
    qed
  qed
  have fits: "\<not> length body > maxBlobBytes cfg" and right: "\<not> hash body \<noteq> sha" and new: "\<not> intactBlob hash s sha (length body)" using True by auto
  show ?thesis
  proof (cases "over_cap cfg (sBytes s + int (length body) + (sReserved s - int held))")
    case full: True
    show ?thesis unfolding commit_blob_def Let_def if_not_P[OF fits] if_not_P[OF right] if_not_P[OF new] if_P[OF full] snd_conv by (rule assms(2))
  next
    case room: False
    show ?thesis unfolding commit_blob_def Let_def if_not_P[OF fits] if_not_P[OF right] if_not_P[OF new] if_not_P[OF room] by (rule run)
  qed
qed

section \<open>Registrations keep it\<close>

lemma file_ref_entry: "entry_of_json v = Some e \<Longrightarrow> file_ref v = (case eKind e of FileEntry _ _ h \<Rightarrow> Some h | LinkEntry _ \<Rightarrow> None)"
  by (auto simp: entry_of_json_def file_ref_def str_that_def split: json.splits option.splits if_splits)

lemma doc_blobs_entries: "entries_of_json vs = Some es \<Longrightarrow> List.map_filter file_ref vs = map fst (file_entries es)"
proof (induction vs arbitrary: es)
  case (Cons v vs)
  then obtain e es' where "entry_of_json v = Some e" "entries_of_json vs = Some es'" "es = e # es'" by (auto split: option.splits)
  with Cons.IH[of es'] file_ref_entry[of v e] show ?case
    by (cases "eKind e") (simp_all add: file_entries_def map_filter_simps)
qed (simp add: file_entries_def map_filter_simps)

lemma parsed_doc:
  assumes "parseManifestDoc dg d = Inr (h, es)"
  obtains kvs where "d = Some (JObj kvs)" "doc_blobs (JObj kvs) = Some (map fst (file_entries es))"
proof -
  from assms obtain kvs vs where "d = Some (JObj kvs)" "map_of kvs ''entries'' = Some (JArr vs)" "entries_of_json vs = Some es"
    by (auto simp: parseManifestDoc_def split: option.splits json.splits if_splits)
  then show thesis using doc_blobs_entries[of vs es] by (intro that[of kvs]) (simp_all add: doc_blobs_def field_def)
qed

text \<open>However the writing of a manifest ends, it is either in place with its job's state new, or gone.\<close>

lemma write_manifest_bytes:
  assumes "write_manifest hash job bytes now s = (r, s')"
  shows "(bytes_of s' = (bytes_of s)(Man job \<mapsto> bytes) \<or> bytes_of s' = (bytes_of s)(Man job := None)) \<and> (\<forall>j. j \<noteq> job \<longrightarrow> meta s' j = meta s j)"
proof -
  let ?f = "\<lambda>s. s\<lparr>sMeta := AList.update job \<lparr>mtRegistered = Some now, mtTerminal = None, mtPinned = False\<rparr> (sMeta s)\<rparr>"
  let ?e = "JPut (Man job) (hash bytes) (length bytes)"
  let ?s1 = "(put_file (Man job) bytes now s)\<lparr>sBytes := sBytes s + int (length bytes)\<rparr>"
  let ?I = "\<lambda>t. bytes_of t = (bytes_of s)(Man job \<mapsto> bytes) \<and> (\<forall>j. j \<noteq> job \<longrightarrow> meta t j = meta s j)"
  have "keeps ?I (chain io (\<lambda>_. chain (modify ?f) (\<lambda>_. append_entry ?e)))"
  proof (intro keeps_chain keeps_modify)
    show "keeps ?I io" by (simp add: keeps_def meta_def)
    show "?I (?f t)" if "?I t" for t using that by (simp add: meta_def update_conv')
    show "keeps ?I (append_entry ?e)"
      unfolding keeps_def
    proof (intro allI impI)
      fix t :: store assume "?I t"
      then show "?I (snd (append_entry ?e t))"
        using bytes_of_frame[OF on_disk_frame[OF append_entry_frame(1)[of ?e t]]] append_entry_frame(2)[of ?e t] by (simp add: meta_def)
    qed
  qed
  then have m: "?I (snd (chain io (\<lambda>_. chain (modify ?f) (\<lambda>_. append_entry ?e)) ?s1))"
    by (rule keepsD[where I = ?I]) (simp add: meta_def)
  obtain r2 s2 where 2: "chain io (\<lambda>_. chain (modify ?f) (\<lambda>_. append_entry ?e)) ?s1 = (r2, s2)" by fastforce
  with m have I2: "?I s2" by simp
  show ?thesis
  proof (cases r2)
    case (Inl e)
    have "s' = (drop_file (Man job) s2)\<lparr>sMeta := AList.delete job (sMeta s2), sBytes := sBytes s2 - int (length bytes)\<rparr>"
      using assms unfolding write_manifest_def Let_def 2 Inl by simp
    with I2 show ?thesis by (simp add: meta_def delete_conv')
  next
    case (Inr u)
    have "s' = s2\<lparr>sLost := removeAll (Man job) (sLost s2)\<rparr>" using assms unfolding write_manifest_def Let_def 2 Inr by simp
    with I2 show ?thesis by (simp add: meta_def)
  qed
qed

lemma live_register:
  assumes "log_inv s" "live_inv hash pj U s" "registerManifest hash' pj dg cfg job bytes now s = (r, s')"
  shows "live_inv hash pj U s'"
  using assms(1,3)
proof (cases rule: registerManifest_cases)
  case refused
  with assms(2) show ?thesis by simp
next
  case (stopped hs e)
  note r = journal_ready_frame(2,3)[OF assms(1) stopped(1)]
  show ?thesis by (rule live_same[OF assms(2)]) (simp add: same_def bytes_of_frame[OF r(1)] r(2))
next
  case (unwritten hs s1)
  note r = journal_ready_frame(2,3)[OF assms(1) unwritten(1)]
  show ?thesis by (rule live_same[OF assms(2)]) (simp add: unwritten(2) same_def bytes_of_frame[OF r(1)] r(2))
next
  case (written h es s1)
  note r = journal_ready_frame(2,3)[OF assms(1) written(5)]
  have b1: "bytes_of (s1\<lparr>sIo := x\<rparr>) = bytes_of s" for x using bytes_of_frame[OF r(1)] by simp
  have m1: "meta (s1\<lparr>sIo := x\<rparr>) = meta s" for x using r(2) by (simp add: meta_def fun_eq_iff)
  note w = write_manifest_bytes[OF written(6), unfolded b1 m1]
  obtain kvs where doc: "pj bytes = Some (JObj kvs)" "doc_blobs (JObj kvs) = Some (map fst (file_entries es))" using parsed_doc[OF written(2)] by blast
  have blobs: "bytes_of s (Blob b) \<noteq> None" if "b \<in> fst ` set (file_entries es)" for b
    using that written(4) by (auto simp: list_all_iff blobSize_def bytes_of_def)
  have eqb: "bytes_of s' (Blob b) = bytes_of s (Blob b)" for b using w by auto
  show ?thesis
  proof (rule live_invI)
    fix sha b assume "bytes_of s' (Blob sha) = Some b"
    then show "hash b = sha \<and> b \<in> U" using live_invD(1)[OF assms(2)] eqb by simp
  next
    fix ob assume "bytes_of s' ob \<noteq> None"
    then show "valid_obj ob" using live_invD(2)[OF assms(2), of ob] w written(1) by (auto simp: valid_obj_def split: if_splits)
  next
    fix j d assume rd: "readManifest pj s' j = Some (Some d)" and live: "mtTerminal (meta s' j) = None"
    show "\<exists>hs. doc_blobs d = Some hs \<and> (\<forall>h \<in> set hs. bytes_of s' (Blob h) \<noteq> None)"
    proof (cases "j = job")
      case False
      then have "readManifest pj s j = Some (Some d)" "mtTerminal (meta s j) = None" using rd live w by (auto simp: readManifest_bytes)
      from live_invD(3)[OF assms(2) this] show ?thesis by (simp add: eqb)
    next
      case True
      then have "d = JObj kvs" using rd w doc by (auto simp: readManifest_bytes split: if_splits option.splits)
      then show ?thesis using doc(2) blobs by (auto simp: eqb)
    qed
  qed
qed

section \<open>Retention and deletion keep it\<close>

lemma live_setJobState:
  assumes "log_inv s" "live_inv hash pj U s" "setJobState pj' job upd e s = (r, s')" "\<And>m. mtTerminal (upd m) = None \<Longrightarrow> mtTerminal m = None"
  shows "live_inv hash pj U s'"
  using assms(3)
proof (cases rule: setJobState_cases)
  case refused
  with assms(2) show ?thesis by simp
next
  case (stopped r1)
  note f = flush_frame(2,4)[OF assms(1) stopped]
  show ?thesis by (rule live_same[OF assms(2)]) (simp add: same_def bytes_of_frame[OF f(1)] f(2))
next
  case (unwritten r1 s1)
  note f = flush_frame(2,4)[OF assms(1) unwritten(1)]
  show ?thesis by (rule live_same[OF assms(2)]) (simp add: unwritten(2) same_def bytes_of_frame[OF f(1)] f(2))
next
  case (written r1 s1)
  note f = flush_frame(2,4)[OF assms(1) written(1)]
  have b1: "bytes_of s1 = bytes_of s" by (rule bytes_of_frame[OF f(1)])
  have m1: "meta s1 job = meta s job" by (simp add: meta_def f(2))
  let ?t = "s1\<lparr>sIo := tl (sIo s1)\<rparr>"
  have out: "bytes_of s' = bytes_of s \<and> (\<forall>j. meta s' j = meta s j \<or> j = job \<and> meta s' j = upd (meta s j))"
    using written(2) b1 m1 f(2)
    by (cases rule: write_state_cases[of job "meta s1 job" "upd (meta s1 job)" e ?t]) (auto simp: meta_def update_conv' nullish_def)
  show ?thesis
  proof (rule live_frame[OF assms(2)])
    fix j assume "mtTerminal (meta s' j) = None"
    with out assms(4)[of "meta s j"] show "mtTerminal (meta s j) = None" by metis
  qed (use out in simp)
qed

lemma jobs_of_mem: "on_disk s (Man j) = Some f \<Longrightarrow> isJobId j \<Longrightarrow> j \<in> set (jobs_of s)"
  unfolding on_disk_def jobs_of_def by (force dest!: map_of_SomeD simp: map_filter_def)

lemma protected_byD: "protected_by pj s sha js = Some False \<Longrightarrow> j \<in> set js \<Longrightarrow> mtTerminal (meta s j) = None \<Longrightarrow>
   \<exists>hs. jobBlobs pj s j = Some hs \<and> sha \<notin> set (nullish hs [])"
  by (induction js) (auto split: if_splits option.splits)

lemma unprotected_blob:
  assumes "isProtectedBlob pj s sha = Some False" "readManifest pj s j = Some (Some d)" "mtTerminal (meta s j) = None" "doc_blobs d = Some hs"
  shows "sha \<notin> set hs"
proof -
  from assms(2) obtain f where "on_disk s (Man j) = Some f" "isJobId j" by (auto simp: readManifest_def split: option.splits if_splits)
  then have "j \<in> set (jobs_of s)" by (rule jobs_of_mem)
  from protected_byD[OF assms(1)[unfolded isProtectedBlob_def] this assms(3)] show ?thesis
    using assms(2,4) by (auto simp: jobBlobs_def nullish_def)
qed

text \<open>A deletion leaves everything, or takes exactly one object and, with a manifest, its job's state.\<close>

lemma remove_object_bytes:
  assumes "remove_object ob n s = (r, s')"
  shows "same s s' \<or> bytes_of s' = (bytes_of s)(ob := None) \<and> (\<forall>j. ob \<noteq> Man j \<longrightarrow> meta s' j = meta s j)"
  using assms
proof (cases rule: remove_object_cases)
  case (no_intent x)
  then show ?thesis by (simp add: same_def)
next
  case (kept x)
  then show ?thesis by (simp add: same_def)
next
  case (unlinked x)
  then show ?thesis by (simp add: meta_def)
next
  case (pending x m)
  have "\<forall>j. ob \<noteq> Man j \<longrightarrow> map_of m j = map_of (sMeta s) j" unfolding pending(2) by (cases ob) (simp_all add: delete_conv')
  then show ?thesis unfolding pending(1) by (simp add: meta_def)
next
  case (removed x m)
  have "\<forall>j. ob \<noteq> Man j \<longrightarrow> map_of m j = map_of (sMeta s) j" unfolding removed(2) by (cases ob) (simp_all add: delete_conv')
  then show ?thesis unfolding removed(1) by (simp add: meta_def)
qed

lemma live_without:
  assumes "live_inv hash pj U s" "bytes_of t = (bytes_of s)(ob := None)" "\<And>j. ob \<noteq> Man j \<Longrightarrow> meta t j = meta s j"
    and "\<And>sha. ob = Blob sha \<Longrightarrow> isProtectedBlob pj s sha = Some False"
  shows "live_inv hash pj U t"
proof (rule live_invI)
  fix h b assume "bytes_of t (Blob h) = Some b"
  then show "hash b = h \<and> b \<in> U" using live_invD(1)[OF assms(1)] by (auto simp: assms(2) split: if_splits)
next
  fix x assume "bytes_of t x \<noteq> None"
  then show "valid_obj x" using live_invD(2)[OF assms(1)] by (auto simp: assms(2) split: if_splits)
next
  fix j d assume rd: "readManifest pj t j = Some (Some d)" and live: "mtTerminal (meta t j) = None"
  have ne: "ob \<noteq> Man j" using rd by (auto simp: readManifest_bytes assms(2))
  then have rd': "readManifest pj s j = Some (Some d)" and live': "mtTerminal (meta s j) = None"
    using rd live assms(3)[OF ne] by (simp_all add: readManifest_bytes assms(2))
  from live_invD(3)[OF assms(1) this] obtain hs where hs: "doc_blobs d = Some hs" "\<forall>h \<in> set hs. bytes_of s (Blob h) \<noteq> None" by blast
  have "h \<noteq> sha" if "h \<in> set hs" "ob = Blob sha" for h sha
    using unprotected_blob[OF assms(4)[OF that(2)] rd' live' hs(1)] that(1) by blast
  with hs show "\<exists>hs. doc_blobs d = Some hs \<and> (\<forall>h \<in> set hs. bytes_of t (Blob h) \<noteq> None)" by (auto simp: assms(2))
qed

lemma live_delete:
  assumes "log_inv s" "live_inv hash pj U s" "deleteObject pj ob s = (r, s')"
  shows "live_inv hash pj U s'"
  using assms(3)
proof (cases rule: deleteObject_cases)
  case refused
  with assms(2) show ?thesis by simp
next
  case (stopped r1)
  note f = flush_frame(2,4)[OF assms(1) stopped]
  show ?thesis by (rule live_same[OF assms(2)]) (simp add: same_def bytes_of_frame[OF f(1)] f(2))
next
  case (attempted s1 f)
  note fl = flush_frame(2,4)[OF assms(1) attempted(1)]
  have b1: "bytes_of s1 = bytes_of s" by (rule bytes_of_frame[OF fl(1)])
  from remove_object_bytes[OF attempted(3)] show ?thesis
  proof
    assume "same s1 s'"
    then show ?thesis by (intro live_same[OF assms(2)]) (simp add: same_def b1 fl(2))
  next
    assume w: "bytes_of s' = (bytes_of s1)(ob := None) \<and> (\<forall>j. ob \<noteq> Man j \<longrightarrow> meta s' j = meta s1 j)"
    show ?thesis by (rule live_without[OF assms(2)]) (use w b1 fl(2) attempted(5) in \<open>auto simp: meta_def\<close>)
  qed
qed

section \<open>Every run keeps it\<close>

definition store_inv :: "(string \<Rightarrow> string) \<Rightarrow> (string \<Rightarrow> json option) \<Rightarrow> string set \<Rightarrow> store \<Rightarrow> bool" where
  "store_inv hash pj U s \<longleftrightarrow> log_inv s \<and> live_inv hash pj U s"

lemma store_inv_same: "store_inv hash pj U s \<Longrightarrow> log_inv t \<Longrightarrow> same s t \<Longrightarrow> store_inv hash pj U t"
  unfolding store_inv_def using live_same by blast

lemma keeps_store_inv:
  assumes "keeps log_inv m" "\<And>s r s'. log_inv s \<Longrightarrow> live_inv hash pj U s \<Longrightarrow> m s = (r, s') \<Longrightarrow> live_inv hash pj U s'"
  shows "keeps (store_inv hash pj U) m"
  unfolding keeps_def store_inv_def
proof (intro allI impI conjI)
  fix s assume inv: "log_inv s \<and> live_inv hash pj U s"
  show "log_inv (snd (m s))" using keepsD[OF assms(1)] inv by blast
  show "live_inv hash pj U (snd (m s))" using assms(2)[of s "fst (m s)" "snd (m s)"] inv by simp
qed

lemma open_live:
  assumes "open_store hash disk metas recs ios = (Inr rp, s)" "rpCorrupt rp = []" "intact hash U s" "live_complete pj s"
  shows "store_inv hash pj U s"
proof -
  note o = open_store_ok[OF assms(1,2)]
  have "valid_obj ob" if "bytes_of s ob \<noteq> None" for ob using that by (auto simp: bytes_of_def o(2) split: if_splits)
  with assms(3,4) o(1) show ?thesis by (simp add: store_inv_def live_inv_def)
qed

lemma reopen_live:
  assumes "store_inv hash pj U s" "open_store hash (sDisk s) (sMeta s) (sLog s) ios = (Inr rp, s')" "rpCorrupt rp = []"
  shows "store_inv hash pj U s'"
proof -
  note o = open_store_ok[OF assms(2,3)]
  have l: "live_inv hash pj U s" using assms(1) by (simp add: store_inv_def)
  have "same s s'"
    unfolding same_def bytes_of_def fun_eq_iff o(2) o(3) using live_invD(2)[OF l] by (auto simp: bytes_of_def on_disk_def) (metis not_None_eq)
  with live_same[OF l] o(1) show ?thesis by (simp add: store_inv_def)
qed

lemma keeps_inv_start: "keeps (store_inv hash pj U) (putBlob_start hash cfg sha n)"
proof (rule keeps_store_inv[OF keeps_log_start])
  fix t r t' assume l: "live_inv hash pj U t" and p: "putBlob_start hash cfg sha n t = (r, t')"
  have "same t t'" using p by (auto simp: putBlob_start_def chain_def reserve_def done_with_def same_def split: if_splits)
  with l show "live_inv hash pj U t'" by (rule live_same)
qed

lemma keeps_inv_duplicate: "keeps (store_inv hash pj U) (acknowledgeDuplicate hash sha body now)"
proof (rule keeps_store_inv[OF keeps_log_acknowledge])
  fix t r t' assume l: "live_inv hash pj U t" and p: "acknowledgeDuplicate hash sha body now t = (r, t')"
  show "live_inv hash pj U t'" using live_acknowledge[OF l, of hash sha body now] unfolding p by simp
qed

lemma keeps_inv_finish:
  assumes "inj_on hash U" "isSha256 sha" "body \<in> U"
  shows "keeps (store_inv hash pj U) (putBlob_finish hash cfg sha body held now)"
proof (rule keeps_store_inv[OF keeps_log_finish])
  fix t r t' assume i: "log_inv t" "live_inv hash pj U t" and p: "putBlob_finish hash cfg sha body held now t = (r, t')"
  obtain r1 t1 where c: "commit_blob hash cfg sha body held now t = (r1, t1)" by fastforce
  have "live_inv hash pj U t1" using live_commit[OF i assms, of cfg held now] unfolding c by simp
  moreover have "same t1 t'" using p unfolding putBlob_finish_def c by (auto simp: release_def same_def)
  ultimately show "live_inv hash pj U t'" by (rule live_same)
qed

lemma keeps_inv_terminal: "keeps (store_inv hash pj U) (markTerminal pj job now)"
  unfolding markTerminal_def
proof (rule keeps_store_inv)
  show "keeps log_inv (setJobState pj job (\<lambda>m. m\<lparr>mtTerminal := Some now\<rparr>) (JTerminal job now))" by (rule keeps_log_setJobState) blast
  fix t r t' assume "log_inv t" "live_inv hash pj U t" "setJobState pj job (\<lambda>m. m\<lparr>mtTerminal := Some now\<rparr>) (JTerminal job now) t = (r, t')"
  then show "live_inv hash pj U t'" by (rule live_setJobState) simp
qed

lemma keeps_inv_pinned: "keeps (store_inv hash pj U) (setPinned pj job b)"
  unfolding setPinned_def
proof (rule keeps_store_inv)
  show "keeps log_inv (setJobState pj job (\<lambda>m. m\<lparr>mtPinned := b\<rparr>) (JPin job b))" by (rule keeps_log_setJobState) blast
  fix t r t' assume "log_inv t" "live_inv hash pj U t" "setJobState pj job (\<lambda>m. m\<lparr>mtPinned := b\<rparr>) (JPin job b) t = (r, t')"
  then show "live_inv hash pj U t'" by (rule live_setJobState) simp
qed

lemma flush_same: "log_inv t \<Longrightarrow> flushPendingDeletes t = (r, t') \<Longrightarrow> same t t'"
  by (simp add: same_def bytes_of_frame[OF flush_frame(2)] flush_frame(4))

lemma keeps_inv_maintain: "keeps (store_inv hash pj U) maintain"
  unfolding maintain_def
proof (rule keeps_store_inv[OF keeps_log_flush])
  fix t r t' assume i: "log_inv t" "live_inv hash pj U t" and p: "flushPendingDeletes t = (r, t')"
  show "live_inv hash pj U t'" by (rule live_same[OF i(2) flush_same[OF i(1) p]])
qed

lemma keeps_inv_rejournal_start: "keeps (store_inv hash pj U) (rejournal_start ob)"
proof (rule keeps_store_inv[OF keeps_log_rejournal_start])
  fix t r t' assume i: "log_inv t" "live_inv hash pj U t" and p: "rejournal_start ob t = (r, t')"
  obtain r1 t1 where f: "flushPendingDeletes t = (r1, t1)" by fastforce
  have "same t t'" using p f flush_same[OF i(1) f] by (cases r1) (auto simp: rejournal_start_def chain_def modify_def same_def)
  with i(2) show "live_inv hash pj U t'" by (rule live_same)
qed

lemma keeps_inv_rejournal_finish: "keeps (store_inv hash pj U) (rejournal_finish hash ob seen)"
proof (rule keeps_store_inv[OF keeps_log_rejournal_finish])
  fix t r t' assume l: "live_inv hash pj U t" and p: "rejournal_finish hash ob seen t = (r, t')"
  define m where "m = (case seen of None \<Rightarrow> (Inr (), t) | Some bytes \<Rightarrow> append_entry (JPut ob (hash bytes) (length bytes)) t)"
  have "same t (snd (append_entry e t))" for e by (rule keepsD[where I = "same t", OF keeps_same_append]) simp
  then have m: "same t (snd m)" by (cases seen) (simp_all add: m_def)
  have "t' = (snd m)\<lparr>sVerifying := remove1 ob (sVerifying (snd m))\<rparr>"
    using p unfolding rejournal_finish_def m_def[symmetric] by (cases m) simp
  with m have "same t t'" by (simp add: same_def)
  with l show "live_inv hash pj U t'" by (rule live_same)
qed

lemma run_store_inv:
  assumes "inj_on hash U" "store_run hash pj dg cfg U (\<lambda>s. intact hash U s \<and> live_complete pj s) s"
  shows "store_inv hash pj U s"
  using assms(2)
proof (rule store_run_invariant)
  fix disk metas recs ios rp t
  assume "open_store hash disk metas recs ios = (Inr rp, t)" "rpCorrupt rp = []" "intact hash U t \<and> live_complete pj t"
  then show "store_inv hash pj U t" using open_live by blast
next
  fix t ios rp t' assume "store_inv hash pj U t" "open_store hash (sDisk t) (sMeta t) (sLog t) ios = (Inr rp, t')" "rpCorrupt rp = []"
  then show "store_inv hash pj U t'" by (rule reopen_live)
next
  fix t :: store and x assume i: "store_inv hash pj U t"
  show "store_inv hash pj U (t\<lparr>sIo := x\<rparr>)"
    by (rule store_inv_same[OF i]) (use i in \<open>simp_all add: store_inv_def same_def\<close>)
next
  fix t :: store and n assume i: "store_inv hash pj U t"
  show "store_inv hash pj U (release n t)"
    by (rule store_inv_same[OF i]) (use i in \<open>simp_all add: store_inv_def same_def release_def\<close>)
next
  show "keeps (store_inv hash pj U) (registerManifest hash pj dg cfg job bytes now)" for job bytes now
    by (rule keeps_store_inv[OF keeps_log_register live_register])
next
  show "keeps (store_inv hash pj U) (deleteObject pj ob)" for ob
    by (rule keeps_store_inv[OF keeps_log_delete live_delete])
qed (rule keeps_inv_start keeps_inv_duplicate keeps_inv_finish[OF assms(1)] keeps_inv_terminal keeps_inv_pinned keeps_inv_maintain
      keeps_inv_rejournal_start keeps_inv_rejournal_finish, assumption?, assumption?)+


end
