(* ===== verification/Store_Examples.thy ===== *)
theory Store_Examples
  imports Store_Live
begin

text \<open>
  The properties of the object store at work on a store of one blob and one job, and what a corrupt blob without a record does to the promise of theory \<open>Store_Live\<close>.
\<close>

section \<open>A store of one job\<close>

definition example_sha :: string where "example_sha = replicate 64 CHR ''a''"

definition example_manifest_hash :: string where "example_manifest_hash = replicate 64 CHR ''b''"

definition example_store_hash :: "string \<Rightarrow> string" where
  "example_store_hash b = (if b = ''x'' then example_sha else ''other'')"

definition example_doc :: json where
  "example_doc = JObj [(''manifestHash'', JStr example_manifest_hash),
     (''entries'', JArr [JObj [(''path'', JStr ''f''), (''type'', JStr ''file''), (''size'', JNum 1), (''sha256'', JStr example_sha)]])]"

definition example_parse :: "string \<Rightarrow> json option" where
  "example_parse b = (if b = ''m'' then Some example_doc else None)"

definition example_dg :: "manifest_entry list \<Rightarrow> string" where
  "example_dg es = example_manifest_hash"

definition example_store_cfg :: store_cfg where
  "example_store_cfg = \<lparr>capBytes = None, maxBlobBytes = 100, replicaMode = False, replicaGraceMs = 0\<rparr>"

definition example_opened :: store where
  "example_opened = snd (open_store example_store_hash [] [] [] [])"

definition example_uploaded :: store where
  "example_uploaded = snd (putBlob_finish example_store_hash example_store_cfg example_sha ''x'' 1 5 (snd (putBlob_start example_store_hash example_store_cfg example_sha 1 example_opened)\<lparr>sIo := []\<rparr>))"

definition example_registered :: store where
  "example_registered = snd (registerManifest example_store_hash example_parse example_dg example_store_cfg ''j'' ''m'' 6 (example_uploaded\<lparr>sIo := []\<rparr>))"

lemma example_sha_facts [simp]: "isSha256 example_sha" "isSha256 example_manifest_hash" "example_sha \<noteq> example_manifest_hash"
  by (simp_all add: example_sha_def example_manifest_hash_def isSha256_def list_all_iff is_hex_def)

definition example_start :: store where
  "example_start = \<lparr>sDisk = [], sMeta = [], sLog = [], sIo = [], sBytes = 0, sReserved = 0, sUnjournaled = [], sPending = [], sIntents = [], sLost = [], sVerifying = []\<rparr>"

lemma example_open: "open_store example_store_hash [] [] [] [] = (Inr \<lparr>rpJournaled = [], rpCorrupt = [], rpDeleted = [], rpLost = []\<rparr>, example_start)"
  by (simp add: open_store_def reconcile_store_def objectStateByPath_def chain_def example_start_def)

lemma example_upload: "putBlob_finish example_store_hash example_store_cfg example_sha ''x'' 0 5 example_start =
    (Inr True, example_start\<lparr>sDisk := [(Blob example_sha, \<lparr>ofBytes = ''x'', ofMtime = 5\<rparr>)], sLog := [JPut (Blob example_sha) example_sha 1], sBytes := 1\<rparr>)"
  by (simp add: putBlob_finish_def commit_blob_def example_start_def example_store_cfg_def example_store_hash_def intactBlob_def on_disk_def over_cap_def
    flushPendingDeletes_def chain_def io_def settle_blob_def touch_def modify_def put_file_def journalBlob_def append_entry_def blobSize_def nullish_def release_def)

lemma example_path: "isCanonicalRelPath ''f''" "isJobId ''j''"
  by code_simp+

lemma example_parses: "parseManifestDoc example_dg (Some example_doc) = Inr (example_manifest_hash, [\<lparr>ePath = ''f'', eKind = FileEntry False 1 example_sha\<rparr>])"
  by (simp add: parseManifestDoc_def example_doc_def exactKeys_def obj_keys_def entry_of_json_def field_def example_path str_that_def int_that_def absent_or_def bool_of_def
    manifestHashOf_def example_dg_def num_that_def is_integer_def)

definition example_stored :: store where
  "example_stored = example_start\<lparr>sDisk := [(Blob example_sha, \<lparr>ofBytes = ''x'', ofMtime = 5\<rparr>)], sLog := [JPut (Blob example_sha) example_sha 1], sBytes := 1\<rparr>"

definition example_done :: store where
  "example_done = example_stored\<lparr>sDisk := [(Blob example_sha, \<lparr>ofBytes = ''x'', ofMtime = 5\<rparr>), (Man ''j'', \<lparr>ofBytes = ''m'', ofMtime = 6\<rparr>)],
     sMeta := [(''j'', \<lparr>mtRegistered = Some 6, mtTerminal = None, mtPinned = False\<rparr>)],
     sLog := [JPut (Blob example_sha) example_sha 1, JPut (Man ''j'') ''other'' 1], sBytes := 2\<rparr>"

lemma example_register: "registerManifest example_store_hash example_parse example_dg example_store_cfg ''j'' ''m'' 6 example_stored = (Inr True, example_done)"
  by (simp add: registerManifest_def example_path MAX_MANIFEST_BYTES_def example_parse_def example_parses readManifest_def example_stored_def example_start_def on_disk_def
    file_entries_def map_filter_simps blobSize_def over_cap_def example_store_cfg_def flushPendingDeletes_def chain_def journal_if_needed_def cancelIntent_def io_def
    write_manifest_def put_file_def modify_def append_entry_def example_done_def example_store_hash_def)

lemma example_run_stored: "store_run example_store_hash example_parse example_dg example_store_cfg {''x''} (\<lambda>s. intact example_store_hash {''x''} s \<and> live_complete example_parse s) example_stored"
proof -
  have none: "bytes_of example_start ob = None" for ob by (simp add: bytes_of_def on_disk_def example_start_def)
  have "store_run example_store_hash example_parse example_dg example_store_cfg {''x''} (\<lambda>s. intact example_store_hash {''x''} s \<and> live_complete example_parse s) example_start"
    by (rule store_run.opened[OF example_open]) (simp_all add: intact_def live_complete_def readManifest_bytes none)
  from store_run.finished[OF this example_sha_facts(1), of "''x''" 0 5 "[]"] show ?thesis
    using example_upload by (simp add: example_start_def example_stored_def)
qed

lemma example_run_done: "store_run example_store_hash example_parse example_dg example_store_cfg {''x''} (\<lambda>s. intact example_store_hash {''x''} s \<and> live_complete example_parse s) example_done"
proof -
  have io: "example_stored\<lparr>sIo := []\<rparr> = example_stored" by (simp add: example_stored_def example_start_def)
  from store_run.registered[OF example_run_stored, of "''j''" "''m''" 6 "[]"] show ?thesis unfolding io example_register by simp
qed



section \<open>A corrupt blob without a record\<close>

text \<open>
  C38. A blob that was left on disk without a journal record and whose bytes do not hash to its address is reported at start-up and then forgotten: a manifest that names it
  is registered, because registration compares sizes only, and the journal then holds the manifest with no record of its blob.
\<close>

theorem corrupt_orphan_unjournaled:
  assumes "isSha256 sha" "hash b \<noteq> sha" "open_store hash [(Blob sha, \<lparr>ofBytes = b, ofMtime = t\<rparr>)] [] [] [] = (Inr rp, s)"
    and "isJobId job" "length bytes \<le> MAX_MANIFEST_BYTES" "parseManifestDoc dg (pj bytes) = Inr (h, es)" "file_entries es = [(sha, length b)]" "capBytes cfg = None"
  shows "rpCorrupt rp = [Blob sha] \<and>
    (\<exists>s'. registerManifest hash pj dg cfg job bytes now s = (Inr True, s') \<and> sLog s' = [JPut (Man job) (hash bytes) (length bytes)] \<and> blobSize s' sha = Some (length b))"
proof -
  have s: "rp = \<lparr>rpJournaled = [], rpCorrupt = [Blob sha], rpDeleted = [], rpLost = []\<rparr>"
    "s = example_start\<lparr>sDisk := [(Blob sha, \<lparr>ofBytes = b, ofMtime = t\<rparr>)], sBytes := int (length b)\<rparr>"
    using assms(1-3) by (simp_all add: open_store_def valid_obj_def reconcile_store_def objectStateByPath_def is_orphan_def is_blob_def chain_def example_start_def)
  have "registerManifest hash pj dg cfg job bytes now s =
    (Inr True, s\<lparr>sDisk := [(Blob sha, \<lparr>ofBytes = b, ofMtime = t\<rparr>), (Man job, \<lparr>ofBytes = bytes, ofMtime = now\<rparr>)],
       sMeta := [(job, \<lparr>mtRegistered = Some now, mtTerminal = None, mtPinned = False\<rparr>)], sLog := [JPut (Man job) (hash bytes) (length bytes)],
       sBytes := int (length b) + int (length bytes)\<rparr>)"
    using assms(4-8)
    by (simp add: s(2) registerManifest_def readManifest_def example_start_def on_disk_def blobSize_def over_cap_def flushPendingDeletes_def chain_def
      journal_if_needed_def cancelIntent_def io_def write_manifest_def put_file_def modify_def append_entry_def)
  then show ?thesis by (simp add: s blobSize_def on_disk_def)
qed

definition example_corrupt :: store where
  "example_corrupt = example_start\<lparr>sDisk := [(Blob example_sha, \<lparr>ofBytes = ''y'', ofMtime = 5\<rparr>)], sBytes := 1\<rparr>"

theorem corrupt_orphan_unjournaled_witness:
  "rpCorrupt \<lparr>rpJournaled = [], rpCorrupt = [Blob example_sha], rpDeleted = [], rpLost = []\<rparr> = [Blob example_sha] \<and>
   (\<exists>s'. registerManifest example_store_hash example_parse example_dg example_store_cfg ''j'' ''m'' 6 example_corrupt = (Inr True, s') \<and>
      sLog s' = [JPut (Man ''j'') (example_store_hash ''m'') (length ''m'')] \<and> blobSize s' example_sha = Some (length ''y''))"
proof (rule corrupt_orphan_unjournaled[where h = example_manifest_hash and es = "[\<lparr>ePath = ''f'', eKind = FileEntry False 1 example_sha\<rparr>]" and t = 5])
  show ne: "example_store_hash ''y'' \<noteq> example_sha" by (simp add: example_store_hash_def example_sha_def numeral_eq_Suc)
  show "open_store example_store_hash [(Blob example_sha, \<lparr>ofBytes = ''y'', ofMtime = 5\<rparr>)] [] [] [] =
    (Inr \<lparr>rpJournaled = [], rpCorrupt = [Blob example_sha], rpDeleted = [], rpLost = []\<rparr>, example_corrupt)"
    using ne by (simp add: open_store_def valid_obj_def reconcile_store_def objectStateByPath_def is_orphan_def is_blob_def chain_def example_corrupt_def example_start_def)
qed (simp_all add: example_path MAX_MANIFEST_BYTES_def example_parse_def example_parses file_entries_def map_filter_simps example_store_cfg_def)

end
