(* ===== verification/Runner_Ticket.thy ===== *)
theory Runner_Ticket
  imports Prelude
begin

text \<open>
  One dispatched ticket on a remote runner (\<^verbatim>\<open>src/src/remote-runner.js\<close>, with the life of its local supervisor in \<^verbatim>\<open>src/src/supervisor.js\<close> and \<^verbatim>\<open>cancelCommand\<close> of \<^verbatim>\<open>src/src/cancel.js\<close>):
  the \<^verbatim>\<open>remote-exec\<close> that creates it and publishes its result, the supervisor that queues, starts and finishes its lane, and any number of withdraw, cancel and shutdown
  requests, all of which may interleave and two of which may die at any point. A step is one section under the broker lock or one access to a file. Log lines, resource
  measurements and artifacts are left out, reads of existing files succeed, a signal to the command's group ends it, and a ticket on a runner is never exclusive, superseded, a push or an attempt of
  its own. A death is one that no handler sees; a signal that the supervisor catches is a step of its own.
\<close>

section \<open>Records\<close>

datatype stop_reason = Withdrawn | QueueTimeout | DeadQueued | RunnerShutdown | ShutdownUnproven | Migration | NoProgress | Silence | GroupReaped

record lane_result =
  lrExit :: "int option"
  lrSignal :: "string option"
  lrReason :: "stop_reason option"
  lrCancelled :: bool
  lrStopProven :: bool

datatype result_kind = Completed | Cancelled | Refused | Rejected | Unfinished

record remote_result =
  rrKind :: result_kind
  rrExit :: "int option"
  rrSignal :: "string option"
  rrReason :: "stop_reason option"
  rrBoot :: "string option"

text \<open>The ticket's directory under the runner's root: its markers, whether \<^verbatim>\<open>remote-id\<close> is written, and its result.\<close>

record ticket_dir =
  tdCancelled :: bool
  tdShutdown :: bool
  tdUnstarted :: bool
  tdRemoteId :: bool
  tdResult :: "remote_result option"

text \<open>What the runner's own broker holds of the ticket's lane.\<close>

record lane =
  lnQueued :: bool
  lnLease :: bool
  lnCancel :: bool
  lnWithdrawn :: bool
  lnExpired :: bool
  lnResult :: "lane_result option"

datatype child = Unborn | Alive | Strays | Gone

datatype supervisor = NoSup | AtEnqueue | Polling | SawWithdraw | Concluding | Admitted | Watching bool bool "bool option"
  | Publishing "lane_result option" bool | Releasing | Clearing | SupExited | SupDead

datatype exec = NoExec | Preparing | RefusedAtStart | Running | Returned int bool | Deciding remote_result | Done | ExecDead

datatype reply = RWithdrawn | RTombstoned | RStarted | RCancelled | RNotQueued | RFinished | RConfirmed | RUnconfirmed | RShutdownDone

text \<open>How far a request has come: a withdraw, a cancel, or the stop that a shutdown asks of the broker.\<close>

datatype request = Idle
  | WithdrawStart | WithdrawTomb | WithdrawRead | WithdrawLane | WithdrawRecheck
  | CancelStart | CancelTomb | CancelMark | CancelQueue bool | CancelLease bool | CancelWait bool | CancelKilled bool | CancelRelease bool | CancelRecheck bool | CancelResult
  | Answered reply

record rt =
  rtTomb :: bool
  rtDir :: "ticket_dir option"
  rtLane :: lane
  rtSup :: supervisor
  rtChild :: child
  rtExec :: exec
  rtReqs :: "nat \<Rightarrow> request"

definition no_lane :: lane where
  "no_lane = \<lparr>lnQueued = False, lnLease = False, lnCancel = False, lnWithdrawn = False, lnExpired = False, lnResult = None\<rparr>"

definition new_dir :: ticket_dir where
  "new_dir = \<lparr>tdCancelled = False, tdShutdown = False, tdUnstarted = False, tdRemoteId = False, tdResult = None\<rparr>"

definition rt_init :: rt where
  "rt_init = \<lparr>rtTomb = False, rtDir = None, rtLane = no_lane, rtSup = NoSup, rtChild = Unborn, rtExec = NoExec, rtReqs = (\<lambda>_. Idle)\<rparr>"

definition set_lane :: "(lane \<Rightarrow> lane) \<Rightarrow> rt \<Rightarrow> rt" where
  "set_lane f s = s\<lparr>rtLane := f (rtLane s)\<rparr>"

definition set_dir :: "(ticket_dir \<Rightarrow> ticket_dir) \<Rightarrow> rt \<Rightarrow> rt" where
  "set_dir f s = s\<lparr>rtDir := map_option f (rtDir s)\<rparr>"

definition set_req :: "nat \<Rightarrow> request \<Rightarrow> rt \<Rightarrow> rt" where
  "set_req i r s = s\<lparr>rtReqs := (rtReqs s)(i := r)\<rparr>"

definition has_remote_id :: "rt \<Rightarrow> bool" where
  "has_remote_id s = (case rtDir s of None \<Rightarrow> False | Some d \<Rightarrow> tdRemoteId d)"

definition published_result :: "rt \<Rightarrow> remote_result option" where
  "published_result s = (case rtDir s of None \<Rightarrow> None | Some d \<Rightarrow> tdResult d)"

section \<open>Results\<close>

definition PREFLIGHT_REFUSAL_EXIT_CODES :: "int list" where
  "PREFLIGHT_REFUSAL_EXIT_CODES = [64, 69, 2]"

definition shutdownStopReason :: "bool \<Rightarrow> bool \<Rightarrow> bool \<Rightarrow> bool \<Rightarrow> lane_result option \<Rightarrow> stop_reason option" where
  "shutdownStopReason cancelled shutdownMarked refusedAtStart unstarted structured =
     (if cancelled \<or> \<not> shutdownMarked then None
      else if refusedAtStart \<or> unstarted \<or> (case structured of None \<Rightarrow> False | Some r \<Rightarrow> lrStopProven r) then Some RunnerShutdown
      else if (case structured of None \<Rightarrow> True | Some r \<Rightarrow> lrCancelled r) then Some ShutdownUnproven
      else None)"

definition unfinished :: "string \<Rightarrow> stop_reason option \<Rightarrow> remote_result" where
  "unfinished boot why = \<lparr>rrKind = Unfinished, rrExit = None, rrSignal = None, rrReason = why, rrBoot = (if why = Some ShutdownUnproven then Some boot else None)\<rparr>"

text \<open>The result that \<^verbatim>\<open>remote-exec\<close> builds once \<^verbatim>\<open>runCommand\<close> has returned.\<close>

definition derive_result :: "string \<Rightarrow> ticket_dir \<Rightarrow> bool \<Rightarrow> lane_result option \<Rightarrow> int \<Rightarrow> remote_result" where
  "derive_result boot d refusedAtStart structured runExit =
     (let cancelled = tdCancelled d;
          why = (case structured of None \<Rightarrow> None | Some r \<Rightarrow> lrReason r);
          stop = shutdownStopReason cancelled (tdShutdown d) refusedAtStart (tdUnstarted d) structured
      in if why \<in> {Some Withdrawn, Some QueueTimeout, Some DeadQueued} \<and> \<not> cancelled then unfinished boot why
         else if stop \<noteq> None then unfinished boot stop
         else case structured of
                Some r \<Rightarrow> \<lparr>rrKind = (if cancelled then Cancelled else Completed), rrExit = lrExit r, rrSignal = lrSignal r,
                            rrReason = (if why \<in> {Some NoProgress, Some Silence} then why else None), rrBoot = None\<rparr>
              | None \<Rightarrow>
                  if cancelled then \<lparr>rrKind = Cancelled, rrExit = None, rrSignal = None, rrReason = None, rrBoot = None\<rparr>
                  else if runExit \<in> set PREFLIGHT_REFUSAL_EXIT_CODES then \<lparr>rrKind = Refused, rrExit = Some runExit, rrSignal = None, rrReason = None, rrBoot = None\<rparr>
                  else unfinished boot None)"

text \<open>What \<^verbatim>\<open>remote-result\<close> serves: a stop that was not proven is proven once the host has booted again.\<close>

definition servedRecord :: "remote_result \<Rightarrow> string option \<Rightarrow> remote_result" where
  "servedRecord r currentBootId =
     (if rrKind r \<noteq> Unfinished \<or> rrReason r \<noteq> Some ShutdownUnproven then r
      else case (rrBoot r, currentBootId) of
             (Some b, Some c) \<Rightarrow> if c = [] \<or> b = c then r else r\<lparr>rrReason := Some RunnerShutdown\<rparr>
           | _ \<Rightarrow> r)"

definition cancelled_result :: "bool \<Rightarrow> lane_result" where
  "cancelled_result proven = \<lparr>lrExit = Some 130, lrSignal = None, lrReason = None, lrCancelled = True, lrStopProven = proven\<rparr>"

definition refusal_result :: "int \<Rightarrow> stop_reason option \<Rightarrow> lane_result" where
  "refusal_result code why = \<lparr>lrExit = Some code, lrSignal = None, lrReason = why, lrCancelled = False, lrStopProven = False\<rparr>"

section \<open>The exec\<close>

text \<open>The creation of the ticket, one section under the broker lock: a tombstone or an existing directory turns it away.\<close>

definition exec_arrives :: "rt \<Rightarrow> rt option" where
  "exec_arrives s =
     (if rtTomb s \<or> rtDir s \<noteq> None then None else Some (s\<lparr>rtDir := Some new_dir, rtExec := Preparing\<rparr>))"

definition write_result :: "remote_result \<Rightarrow> rt \<Rightarrow> rt" where
  "write_result r s = (set_dir (\<lambda>d. d\<lparr>tdResult := Some r\<rparr>) s)\<lparr>rtExec := Done\<rparr>"

definition exec_rejects :: "remote_result \<Rightarrow> rt \<Rightarrow> rt option" where
  "exec_rejects r s = (if rtExec s = Preparing \<and> rrKind r \<in> {Rejected, Refused} \<and> rrReason r = None then Some (write_result r s) else None)"

text \<open>\<^verbatim>\<open>onTicketCreated\<close>, under the lock: the id is written, a shutdown in force marks the ticket, and a marked ticket is refused.\<close>

definition onTicketCreated :: "bool \<Rightarrow> rt \<Rightarrow> rt option" where
  "onTicketCreated drainShutdown s =
     (case rtDir s of
        Some d \<Rightarrow>
          if rtExec s \<noteq> Preparing then None
          else (let d' = d\<lparr>tdRemoteId := True, tdShutdown := (tdShutdown d \<or> drainShutdown)\<rparr>
                in Some (if tdCancelled d' \<or> tdShutdown d' then s\<lparr>rtDir := Some d', rtExec := RefusedAtStart\<rparr>
                         else s\<lparr>rtDir := Some d', rtExec := Running, rtSup := AtEnqueue\<rparr>))
      | None \<Rightarrow> None)"

text \<open>\<^verbatim>\<open>runCommand\<close> returns: before any ticket with the code of a refusal, at once when it was refused, or when the lane has a result or its supervisor is gone.\<close>

definition run_returns :: "int \<Rightarrow> rt \<Rightarrow> rt option" where
  "run_returns code s =
     (case rtExec s of
        Preparing \<Rightarrow> Some (s\<lparr>rtExec := Returned code False\<rparr>)
      | RefusedAtStart \<Rightarrow> Some (s\<lparr>rtExec := Returned 130 True\<rparr>)
      | Running \<Rightarrow> if lnResult (rtLane s) \<noteq> None \<or> rtSup s \<in> {SupExited, SupDead} then Some (s\<lparr>rtExec := Returned code False\<rparr>) else None
      | _ \<Rightarrow> None)"

definition exec_decides :: "string \<Rightarrow> rt \<Rightarrow> rt option" where
  "exec_decides boot s =
     (case (rtExec s, rtDir s) of
        (Returned code refused, Some d) \<Rightarrow> Some (s\<lparr>rtExec := Deciding (derive_result boot d refused (lnResult (rtLane s)) code)\<rparr>)
      | _ \<Rightarrow> None)"

definition exec_publishes :: "rt \<Rightarrow> rt option" where
  "exec_publishes s = (case rtExec s of Deciding r \<Rightarrow> Some (write_result r s) | _ \<Rightarrow> None)"

definition exec_dies :: "rt \<Rightarrow> rt option" where
  "exec_dies s = (if rtExec s \<in> {NoExec, Done, ExecDead} then None else Some (s\<lparr>rtExec := ExecDead\<rparr>))"

section \<open>The supervisor\<close>

definition sup_enqueue :: "bool \<Rightarrow> rt \<Rightarrow> rt option" where
  "sup_enqueue migrating s =
     (if rtSup s \<noteq> AtEnqueue then None
      else if migrating then Some (s\<lparr>rtSup := Publishing (Some (refusal_result 75 (Some Migration))) False\<rparr>)
      else Some (set_lane (\<lambda>l. l\<lparr>lnQueued := True\<rparr>) (s\<lparr>rtSup := Polling\<rparr>)))"

text \<open>The head of the polling loop: a cancel is noticed, the ticket leaves the queue (with retries when it was also withdrawn) and is finalized.\<close>

definition sup_sees_cancel :: "bool \<Rightarrow> rt \<Rightarrow> rt option" where
  "sup_sees_cancel unlinked s =
     (if rtSup s \<noteq> Polling \<or> \<not> lnCancel (rtLane s) then None
      else (let also = lnWithdrawn (rtLane s)
            in if also \<and> \<not> unlinked then None
               else Some (set_lane (\<lambda>l. l\<lparr>lnQueued := lnQueued l \<and> \<not> unlinked\<rparr>) (s\<lparr>rtSup := Publishing (if also then Some (cancelled_result False) else None) False\<rparr>))))"

text \<open>The ticket can never run here: dispatch-only, or the budget shrank below its claim.\<close>

definition sup_refuses :: "int \<Rightarrow> bool \<Rightarrow> rt \<Rightarrow> rt option" where
  "sup_refuses code unlinked s =
     (if rtSup s \<noteq> Polling then None
      else Some (set_lane (\<lambda>l. l\<lparr>lnQueued := lnQueued l \<and> \<not> unlinked\<rparr>) (s\<lparr>rtSup := Publishing (Some (refusal_result code None)) False\<rparr>)))"

datatype poll_choice = Start | Deny | Expire

text \<open>
  One \<^verbatim>\<open>tryStart\<close> under the lock and what the loop makes of its answer: a missing queue file ends the ticket, a withdrawn one is dequeued first, an expiry is marked, and a
  start moves the ticket from the queue to a lease, never when it is cancelled.
\<close>

definition sup_polls :: "poll_choice \<Rightarrow> rt \<Rightarrow> rt option" where
  "sup_polls choice s =
     (let l = rtLane s
      in if rtSup s \<noteq> Polling then None
         else if \<not> lnQueued l then Some (s\<lparr>rtSup := (if lnWithdrawn l then SawWithdraw else Publishing None False)\<rparr>)
         else if lnWithdrawn l then Some (s\<lparr>rtSup := SawWithdraw\<rparr>)
         else case choice of
                Expire \<Rightarrow> if lnCancel l then None else Some (set_lane (\<lambda>l. l\<lparr>lnExpired := True\<rparr>) s)
              | Deny \<Rightarrow> Some s
              | Start \<Rightarrow> if lnCancel l then None else Some (set_lane (\<lambda>l. l\<lparr>lnQueued := False, lnLease := True\<rparr>) (s\<lparr>rtSup := Admitted\<rparr>)))"

text \<open>After an expiry: dequeue and read the cancel marker in one section under the lock.\<close>

definition sup_times_out :: "bool \<Rightarrow> rt \<Rightarrow> rt option" where
  "sup_times_out unlinked s =
     (if rtSup s \<noteq> Polling \<or> \<not> lnExpired (rtLane s) then None
      else Some (set_lane (\<lambda>l. l\<lparr>lnQueued := lnQueued l \<and> \<not> unlinked\<rparr>)
                  (s\<lparr>rtSup := Publishing (Some (if lnCancel (rtLane s) then cancelled_result False else refusal_result 75 (Some QueueTimeout))) False\<rparr>)))"

definition sup_dequeues_withdrawn :: "rt \<Rightarrow> rt option" where
  "sup_dequeues_withdrawn s =
     (if rtSup s \<noteq> SawWithdraw then None else Some (set_lane (\<lambda>l. l\<lparr>lnQueued := False\<rparr>) (s\<lparr>rtSup := Concluding\<rparr>)))"

definition sup_concludes :: "rt \<Rightarrow> rt option" where
  "sup_concludes s =
     (if rtSup s \<noteq> Concluding then None
      else Some (s\<lparr>rtSup := Publishing (Some (if lnCancel (rtLane s) then cancelled_result False else refusal_result 75 (Some Withdrawn))) False\<rparr>))"

text \<open>\<^verbatim>\<open>refuseLocalAndExit\<close> after admission: the lease is given back unused.\<close>

definition sup_refuses_admitted :: "int \<Rightarrow> rt \<Rightarrow> rt option" where
  "sup_refuses_admitted code s =
     (if rtSup s \<noteq> Admitted then None
      else Some (set_lane (\<lambda>l. l\<lparr>lnLease := False\<rparr>) (s\<lparr>rtSup := Publishing (Some (refusal_result code None)) False\<rparr>)))"

definition sup_spawns :: "rt \<Rightarrow> rt option" where
  "sup_spawns s = (if rtSup s \<noteq> Admitted then None else Some (s\<lparr>rtSup := Watching False False None, rtChild := Alive\<rparr>))"

definition sup_notices_cancel :: "rt \<Rightarrow> rt option" where
  "sup_notices_cancel s =
     (case rtSup s of
        Watching False before reaped \<Rightarrow> if lnCancel (rtLane s) then Some (s\<lparr>rtSup := Watching True before reaped\<rparr>) else None
      | _ \<Rightarrow> None)"

text \<open>The command ends on its own, possibly leaving processes behind; a supervisor that is watching remembers that no cancel had reached it.\<close>

definition child_exits :: "bool \<Rightarrow> rt \<Rightarrow> rt option" where
  "child_exits strays s =
     (if rtChild s \<noteq> Alive then None
      else Some (s\<lparr>rtChild := (if strays then Strays else Gone),
                   rtSup := (case rtSup s of Watching False _ reaped \<Rightarrow> Watching False True reaped | p \<Rightarrow> p)\<rparr>))"

text \<open>The one reap of a run, for a cancel, a watchdog or processes left behind: the group is gone when it returns, and everything when it was complete.\<close>

definition sup_reaps :: "bool \<Rightarrow> rt \<Rightarrow> rt option" where
  "sup_reaps whole s =
     (case rtSup s of
        Watching cancelling before None \<Rightarrow>
          Some (s\<lparr>rtChild := (if whole \<or> rtChild s = Gone then Gone else Strays), rtSup := Watching cancelling before (Some whole)\<rparr>)
      | _ \<Rightarrow> None)"

definition strays_end :: "rt \<Rightarrow> rt option" where
  "strays_end s = (if rtChild s = Strays then Some (s\<lparr>rtChild := Gone\<rparr>) else None)"

definition own_reason :: "stop_reason option \<Rightarrow> bool" where
  "own_reason why \<longleftrightarrow> why \<in> {None, Some NoProgress, Some Silence, Some GroupReaped}"

text \<open>\<^verbatim>\<open>finalizeAndExit\<close>: a cancelled run is cancelled whatever the command answered, and a proven stop only if the cancel ended it and everything is gone.\<close>

definition sup_finalizes :: "int option \<Rightarrow> string option \<Rightarrow> stop_reason option \<Rightarrow> rt \<Rightarrow> rt option" where
  "sup_finalizes code sig why s =
     (case rtSup s of
        Watching cancelling before reaped \<Rightarrow>
          if rtChild s = Alive \<or> \<not> own_reason why \<or> cancelling \<and> reaped = None then None
          else Some (s\<lparr>rtSup := Publishing (Some (if cancelling then cancelled_result (\<not> before \<and> reaped = Some True)
                                           else \<lparr>lrExit = code, lrSignal = sig, lrReason = why, lrCancelled = False, lrStopProven = False\<rparr>)) True\<rparr>)
      | _ \<Rightarrow> None)"

definition sup_publishes :: "rt \<Rightarrow> rt option" where
  "sup_publishes s =
     (case rtSup s of
        Publishing r leased \<Rightarrow>
          Some (set_lane (\<lambda>l. case r of None \<Rightarrow> l | Some x \<Rightarrow> l\<lparr>lnResult := Some x\<rparr>) (s\<lparr>rtSup := (if leased then Releasing else Clearing)\<rparr>))
      | _ \<Rightarrow> None)"

definition sup_releases :: "rt \<Rightarrow> rt option" where
  "sup_releases s = (if rtSup s \<noteq> Releasing then None else Some (set_lane (\<lambda>l. l\<lparr>lnLease := False\<rparr>) (s\<lparr>rtSup := Clearing\<rparr>)))"

definition clearTicketMarkers :: "rt \<Rightarrow> rt option" where
  "clearTicketMarkers s =
     (if rtSup s \<noteq> Clearing then None
      else Some (set_lane (\<lambda>l. l\<lparr>lnCancel := False, lnWithdrawn := False, lnExpired := False\<rparr>) (s\<lparr>rtSup := SupExited\<rparr>)))"

text \<open>SIGTERM or SIGINT: the supervisor marks its own ticket cancelled, in whatever phase it is.\<close>

definition onFirstCancelSignal :: "rt \<Rightarrow> rt option" where
  "onFirstCancelSignal s =
     (if rtSup s \<in> {NoSup, SupExited, SupDead} then None else Some (set_lane (\<lambda>l. l\<lparr>lnCancel := True\<rparr>) s))"

definition sup_dies :: "rt \<Rightarrow> rt option" where
  "sup_dies s = (if rtSup s \<in> {NoSup, SupExited, SupDead} then None else Some (s\<lparr>rtSup := SupDead\<rparr>))"

text \<open>What other supervisors do for a dead one, under the lock: \<^verbatim>\<open>reapOrphanedQueue\<close>, and \<^verbatim>\<open>reapAll\<close> once no process of the command's group is left (its deadlines for a group that cannot be killed are left out).\<close>

definition reap_dead_queued :: "rt \<Rightarrow> rt option" where
  "reap_dead_queued s =
     (if rtSup s \<in> {SupDead, SupExited} \<and> lnQueued (rtLane s)
      then Some (set_lane (\<lambda>l. l\<lparr>lnQueued := False, lnResult := Some (refusal_result 75 (Some DeadQueued))\<rparr>) s)
      else None)"

definition reap_dead_lease :: "rt \<Rightarrow> rt option" where
  "reap_dead_lease s =
     (if rtSup s \<in> {SupDead, SupExited} \<and> lnLease (rtLane s) \<and> rtChild s \<noteq> Alive then Some (set_lane (\<lambda>l. l\<lparr>lnLease := False\<rparr>) s) else None)"

section \<open>Requests\<close>

definition answer :: "nat \<Rightarrow> reply \<Rightarrow> rt \<Rightarrow> rt option" where
  "answer i r s = Some (set_req i (Answered r) s)"

text \<open>\<^verbatim>\<open>tombstoneAbsentTicket\<close>, under the lock: a ticket that appeared meanwhile is handled as an ordinary one.\<close>

definition tombstoneAbsentTicket :: "nat \<Rightarrow> reply \<Rightarrow> request \<Rightarrow> rt \<Rightarrow> rt option" where
  "tombstoneAbsentTicket i done_reply next s =
     (if rtDir s \<noteq> None then Some (set_req i next s) else answer i done_reply (s\<lparr>rtTomb := True\<rparr>))"

text \<open>\<^verbatim>\<open>withdrawLane\<close>, the whole decision under the lock; \<open>migrating\<close> and the success of the dequeue are inputs.\<close>

definition withdrawLane :: "nat \<Rightarrow> bool \<Rightarrow> bool \<Rightarrow> rt \<Rightarrow> rt option" where
  "withdrawLane i migrating unlinked s =
     (let l = rtLane s
      in if lnWithdrawn l then answer i RWithdrawn s
         else if (case lnResult l of None \<Rightarrow> False | Some r \<Rightarrow> lrReason r = Some Withdrawn \<and> \<not> lrCancelled r) then answer i RWithdrawn s
         else if migrating then Some (set_req i WithdrawRecheck s)
         else if lnCancel l then answer i RCancelled s
         else if lnLease l then answer i RStarted s
         else if \<not> lnQueued l then Some (set_req i WithdrawRecheck s)
         else answer i RWithdrawn (set_lane (\<lambda>l. l\<lparr>lnWithdrawn := True, lnQueued := \<not> unlinked\<rparr>) s))"

definition recheck_reply :: "remote_result option \<Rightarrow> reply" where
  "recheck_reply r =
     (case r of None \<Rightarrow> RNotQueued | Some x \<Rightarrow> if rrReason x = Some Withdrawn \<and> rrKind x = Unfinished then RWithdrawn else RFinished)"

text \<open>The section of \<^verbatim>\<open>remote-cancel\<close> under the lock: mark the ticket, and the lane if it has an id; what is registered is left to \<^verbatim>\<open>cancelCommand\<close>.\<close>

definition cancel_mark :: "nat \<Rightarrow> rt \<Rightarrow> rt option" where
  "cancel_mark i s =
     (let s1 = set_dir (\<lambda>d. d\<lparr>tdCancelled := True\<rparr>) s
      in if \<not> has_remote_id s then answer i RConfirmed s1
         else if lnQueued (rtLane s) \<or> lnLease (rtLane s) then Some (set_req i (CancelQueue True) (set_lane (\<lambda>l. l\<lparr>lnCancel := True\<rparr>) s1))
         else answer i RConfirmed (set_lane (\<lambda>l. l\<lparr>lnCancel := True\<rparr>) s1))"

text \<open>\<^verbatim>\<open>cancelCommand\<close>: dequeue under the lock; else mark, and wait for a live supervisor to release the lease or kill for a dead one.\<close>

definition cancel_queue :: "nat \<Rightarrow> bool \<Rightarrow> bool \<Rightarrow> rt \<Rightarrow> rt option" where
  "cancel_queue i replies unlinked s =
     (if lnQueued (rtLane s)
      then answer i (if replies then RConfirmed else RShutdownDone) (set_lane (\<lambda>l. l\<lparr>lnQueued := \<not> unlinked, lnCancel := True\<rparr>) s)
      else Some (set_req i (CancelLease replies) s))"

definition after_command :: "nat \<Rightarrow> bool \<Rightarrow> bool \<Rightarrow> rt \<Rightarrow> rt option" where
  "after_command i replies ok s =
     (if \<not> replies then answer i RShutdownDone s else if ok then answer i RConfirmed s else Some (set_req i (CancelRecheck True) s))"

definition cancel_lease :: "nat \<Rightarrow> bool \<Rightarrow> rt \<Rightarrow> rt option" where
  "cancel_lease i replies s =
     (if \<not> lnLease (rtLane s) then after_command i replies False s
      else (let s1 = set_lane (\<lambda>l. l\<lparr>lnCancel := True\<rparr>) s
            in if rtSup s \<notin> {SupDead, SupExited} then Some (set_req i (CancelWait replies) s1)
               else Some (set_req i (CancelKilled replies) (s1\<lparr>rtChild := (if rtChild s = Alive then Strays else rtChild s)\<rparr>))))"

definition cancel_wait :: "nat \<Rightarrow> bool \<Rightarrow> rt \<Rightarrow> rt option" where
  "cancel_wait i replies s = after_command i replies (\<not> lnLease (rtLane s)) s"

definition cancel_killed :: "nat \<Rightarrow> bool \<Rightarrow> rt \<Rightarrow> rt option" where
  "cancel_killed i replies s =
     Some (set_req i (CancelRelease replies) (set_lane (\<lambda>l. l\<lparr>lnResult := Some \<lparr>lrExit = None, lrSignal = Some ''SIGKILL'', lrReason = None, lrCancelled = True, lrStopProven = False\<rparr>\<rparr>) s))"

definition cancel_release :: "nat \<Rightarrow> bool \<Rightarrow> rt \<Rightarrow> rt option" where
  "cancel_release i replies s = after_command i replies True (set_lane (\<lambda>l. l\<lparr>lnLease := False\<rparr>) s)"

text \<open>Not registered any more, under the lock; and last, a published result.\<close>

definition cancel_recheck :: "nat \<Rightarrow> rt \<Rightarrow> rt option" where
  "cancel_recheck i s =
     (if \<not> (lnQueued (rtLane s) \<or> lnLease (rtLane s)) then answer i RConfirmed s else Some (set_req i CancelResult s))"

definition cancel_result :: "nat \<Rightarrow> rt \<Rightarrow> rt option" where
  "cancel_result i s = answer i (if published_result s \<noteq> None then RConfirmed else RUnconfirmed) s"

text \<open>\<^verbatim>\<open>remote-shutdown\<close> for this ticket, under the lock; a lane that is not queued is then stopped through \<^verbatim>\<open>cancelCommand\<close>.\<close>

definition remoteShutdown :: "nat \<Rightarrow> bool \<Rightarrow> rt \<Rightarrow> rt option" where
  "remoteShutdown i unlinked s =
     (if rtReqs s i \<noteq> Idle \<or> rtDir s = None \<or> published_result s \<noteq> None then None
      else if \<not> has_remote_id s then answer i RShutdownDone (set_dir (\<lambda>d. d\<lparr>tdShutdown := True\<rparr>) s)
      else (let l = rtLane s;
                s1 = set_dir (\<lambda>d. d\<lparr>tdShutdown := True, tdUnstarted := (tdUnstarted d \<or> lnQueued l \<or> \<not> lnLease l)\<rparr>) s;
                s2 = set_lane (\<lambda>l. l\<lparr>lnCancel := True, lnQueued := lnQueued l \<and> \<not> unlinked\<rparr>) s1
            in if lnQueued l then answer i RShutdownDone s2 else Some (set_req i (CancelQueue False) s2)))"

text \<open>The next access of request \<open>i\<close>.\<close>

definition req_step :: "nat \<Rightarrow> bool \<Rightarrow> bool \<Rightarrow> rt \<Rightarrow> rt option" where
  "req_step i migrating unlinked s =
     (case rtReqs s i of
        Idle \<Rightarrow> None
      | WithdrawStart \<Rightarrow> Some (set_req i (if rtDir s = None then WithdrawTomb else WithdrawRead) s)
      | WithdrawTomb \<Rightarrow> tombstoneAbsentTicket i RTombstoned WithdrawRead s
      | WithdrawRead \<Rightarrow> if has_remote_id s then Some (set_req i WithdrawLane s) else answer i (if published_result s \<noteq> None then RFinished else RNotQueued) s
      | WithdrawLane \<Rightarrow> withdrawLane i migrating unlinked s
      | WithdrawRecheck \<Rightarrow> answer i (recheck_reply (published_result s)) s
      | CancelStart \<Rightarrow> Some (set_req i (if rtDir s = None then CancelTomb else CancelMark) s)
      | CancelTomb \<Rightarrow> tombstoneAbsentTicket i RConfirmed CancelMark s
      | CancelMark \<Rightarrow> cancel_mark i s
      | CancelQueue replies \<Rightarrow> cancel_queue i replies unlinked s
      | CancelLease replies \<Rightarrow> cancel_lease i replies s
      | CancelWait replies \<Rightarrow> cancel_wait i replies s
      | CancelKilled replies \<Rightarrow> cancel_killed i replies s
      | CancelRelease replies \<Rightarrow> cancel_release i replies s
      | CancelRecheck _ \<Rightarrow> cancel_recheck i s
      | CancelResult \<Rightarrow> cancel_result i s
      | Answered _ \<Rightarrow> None)"

definition new_request :: "nat \<Rightarrow> request \<Rightarrow> rt \<Rightarrow> rt option" where
  "new_request i r s = (if rtReqs s i = Idle \<and> r \<in> {WithdrawStart, CancelStart} then Some (set_req i r s) else None)"

section \<open>Runs\<close>

datatype event = Arrives | Rejects remote_result | Created bool | Returns int | Decides string | Publishes | ExecDies
  | Enqueues bool | SeesCancel bool | Refuses int bool | Polls poll_choice | TimesOut bool | DequeuesWithdrawn | Concludes | RefusesAdmitted int | Spawns | NoticesCancel
  | ChildExits bool | Reaps bool | StraysEnd | Finalizes "int option" "string option" "stop_reason option" | LanePublishes | Releases | Clears | Signals | SupDies
  | ReapsQueued | ReapsLease | NewRequest nat request | Request nat bool bool | Shutdown nat bool

fun rt_step :: "event \<Rightarrow> rt \<Rightarrow> rt option" where
  "rt_step Arrives = exec_arrives"
| "rt_step (Rejects r) = exec_rejects r"
| "rt_step (Created b) = onTicketCreated b"
| "rt_step (Returns c) = run_returns c"
| "rt_step (Decides b) = exec_decides b"
| "rt_step Publishes = exec_publishes"
| "rt_step ExecDies = exec_dies"
| "rt_step (Enqueues m) = sup_enqueue m"
| "rt_step (SeesCancel u) = sup_sees_cancel u"
| "rt_step (Refuses c u) = sup_refuses c u"
| "rt_step (Polls c) = sup_polls c"
| "rt_step (TimesOut u) = sup_times_out u"
| "rt_step DequeuesWithdrawn = sup_dequeues_withdrawn"
| "rt_step Concludes = sup_concludes"
| "rt_step (RefusesAdmitted c) = sup_refuses_admitted c"
| "rt_step Spawns = sup_spawns"
| "rt_step NoticesCancel = sup_notices_cancel"
| "rt_step (ChildExits b) = child_exits b"
| "rt_step (Reaps b) = sup_reaps b"
| "rt_step StraysEnd = strays_end"
| "rt_step (Finalizes c g w) = sup_finalizes c g w"
| "rt_step LanePublishes = sup_publishes"
| "rt_step Releases = sup_releases"
| "rt_step Clears = clearTicketMarkers"
| "rt_step Signals = onFirstCancelSignal"
| "rt_step SupDies = sup_dies"
| "rt_step ReapsQueued = reap_dead_queued"
| "rt_step ReapsLease = reap_dead_lease"
| "rt_step (NewRequest i r) = new_request i r"
| "rt_step (Request i m u) = req_step i m u"
| "rt_step (Shutdown i u) = remoteShutdown i u"

inductive rt_reach :: "rt \<Rightarrow> bool" where
  start: "rt_reach rt_init"
| step: "rt_reach s \<Longrightarrow> rt_step e s = Some s' \<Longrightarrow> rt_reach s'"

fun rt_run :: "event list \<Rightarrow> rt \<Rightarrow> rt option" where
  "rt_run [] s = Some s"
| "rt_run (e # es) s = (case rt_step e s of None \<Rightarrow> None | Some s' \<Rightarrow> rt_run es s')"

lemma rt_run_reach: "rt_run es s = Some s' \<Longrightarrow> rt_reach s \<Longrightarrow> rt_reach s'"
  by (induction es arbitrary: s) (auto split: option.splits intro: rt_reach.step)

end
