(* ===== verification/Runner_Safety.thy ===== *)
theory Runner_Safety
  imports Runner_Ticket
begin

text \<open>
  What the answers of a remote runner prove, in every interleaving of theory \<open>Runner_Ticket\<close>: a ticket that was withdrawn never runs, a confirmed cancel is final except
  in one window, a result that says the ticket never started is true, and a stop reported as a shutdown leaves no command running.
\<close>

section \<open>The invariant\<close>

definition never_reasons :: "stop_reason set" where
  "never_reasons = {Withdrawn, QueueTimeout, DeadQueued}"

definition end_ok :: "child \<Rightarrow> lane \<Rightarrow> bool" where
  "end_ok c l \<longleftrightarrow> (lnQueued l \<or> lnWithdrawn l \<longrightarrow> c = Unborn \<and> \<not> lnLease l) \<and>
     (\<forall>x. lnResult l = Some x \<longrightarrow> (lrReason x \<in> Some ` never_reasons \<longrightarrow> c = Unborn \<and> \<not> lnLease l) \<and> (lrStopProven x \<longrightarrow> c = Gone))"

definition ran_ok :: "child \<Rightarrow> lane_result option \<Rightarrow> bool" where
  "ran_ok c r \<longleftrightarrow> (\<exists>x. r = Some x \<and> own_reason (lrReason x) \<and> (lrStopProven x \<longrightarrow> c = Gone))"

fun stage :: "supervisor \<Rightarrow> child \<Rightarrow> lane \<Rightarrow> bool" where
  "stage NoSup c l = (c = Unborn \<and> \<not> lnQueued l \<and> \<not> lnLease l \<and> \<not> lnWithdrawn l \<and> lnResult l = None)"
| "stage AtEnqueue c l = (c = Unborn \<and> \<not> lnQueued l \<and> \<not> lnLease l \<and> \<not> lnWithdrawn l \<and> lnResult l = None)"
| "stage Polling c l = (c = Unborn \<and> \<not> lnLease l \<and> lnResult l = None)"
| "stage SawWithdraw c l = (c = Unborn \<and> \<not> lnLease l \<and> lnResult l = None)"
| "stage Concluding c l = (c = Unborn \<and> \<not> lnLease l \<and> lnResult l = None)"
| "stage Admitted c l = (c = Unborn \<and> lnLease l \<and> \<not> lnQueued l \<and> \<not> lnWithdrawn l \<and> lnResult l = None)"
| "stage (Watching k b m) c l = (c \<noteq> Unborn \<and> lnLease l \<and> \<not> lnQueued l \<and> \<not> lnWithdrawn l \<and> lnResult l = None \<and> (m = Some True \<longrightarrow> c = Gone))"
| "stage (Publishing r True) c l = (c \<in> {Strays, Gone} \<and> lnLease l \<and> \<not> lnQueued l \<and> \<not> lnWithdrawn l \<and> lnResult l = None \<and> ran_ok c r)"
| "stage (Publishing r False) c l = (c = Unborn \<and> \<not> lnLease l \<and> lnResult l = None \<and> (\<forall>x. r = Some x \<longrightarrow> \<not> lrStopProven x))"
| "stage Releasing c l = (c \<in> {Strays, Gone} \<and> lnLease l \<and> \<not> lnQueued l \<and> \<not> lnWithdrawn l \<and> ran_ok c (lnResult l))"
| "stage Clearing c l = (c \<noteq> Alive \<and> \<not> lnLease l \<and> end_ok c l)"
| "stage SupExited c l = (c \<noteq> Alive \<and> \<not> lnLease l \<and> end_ok c l)"
| "stage SupDead c l = ((c = Alive \<longrightarrow> lnLease l) \<and> end_ok c l)"

definition can_start :: "supervisor \<Rightarrow> bool" where
  "can_start p \<longleftrightarrow> p \<in> {NoSup, AtEnqueue, Polling, Admitted}"

text \<open>The lane can never start: for good, or because of its withdraw marker.\<close>

definition barred :: "rt \<Rightarrow> bool" where
  "barred s \<longleftrightarrow> rtChild s = Unborn \<and> \<not> lnLease (rtLane s) \<and> \<not> can_start (rtSup s)"

definition stopped :: "rt \<Rightarrow> bool" where
  "stopped s \<longleftrightarrow> rtChild s = Unborn \<and> \<not> lnLease (rtLane s) \<and> (\<not> can_start (rtSup s) \<or> lnWithdrawn (rtLane s) \<and> rtSup s = Polling)"

text \<open>A cancel marker stands before every start that is still possible.\<close>

definition marked :: "rt \<Rightarrow> bool" where
  "marked s \<longleftrightarrow> (rtSup s \<in> {AtEnqueue, Polling} \<longrightarrow> lnCancel (rtLane s))"

definition dir_cancelled :: "rt \<Rightarrow> bool" where
  "dir_cancelled s \<longleftrightarrow> (case rtDir s of None \<Rightarrow> False | Some d \<Rightarrow> tdCancelled d)"

definition dir_unstarted :: "rt \<Rightarrow> bool" where
  "dir_unstarted s \<longleftrightarrow> (case rtDir s of None \<Rightarrow> False | Some d \<Rightarrow> tdUnstarted d)"

definition idle :: "rt \<Rightarrow> bool" where
  "idle s \<longleftrightarrow> rtChild s \<noteq> Alive \<and> rtSup s \<noteq> Admitted"

definition halted :: "rt \<Rightarrow> bool" where
  "halted s \<longleftrightarrow> idle s \<and> marked s \<and> (rtSup s = NoSup \<longrightarrow> rtTomb s \<or> dir_cancelled s)"

definition past :: "rt \<Rightarrow> bool" where
  "past s \<longleftrightarrow> rtSup s = NoSup \<or> lnResult (rtLane s) \<noteq> None \<or> rtSup s \<in> {SupExited, SupDead}"

definition over :: "rt \<Rightarrow> bool" where
  "over s \<longleftrightarrow> rtSup s \<in> {SupDead, SupExited} \<and> rtChild s \<noteq> Alive"

text \<open>What a result proves.\<close>

definition record_ok :: "rt \<Rightarrow> remote_result \<Rightarrow> bool" where
  "record_ok s r \<longleftrightarrow> (rrReason r \<in> Some ` never_reasons \<longrightarrow> barred s) \<and>
     (rrReason r = Some RunnerShutdown \<longrightarrow> dir_unstarted s \<or> rtChild s = Gone \<or> rtSup s = NoSup)"

fun exec_ok :: "exec \<Rightarrow> rt \<Rightarrow> bool" where
  "exec_ok NoExec s = (rtDir s = None)"
| "exec_ok Preparing s = (rtDir s \<noteq> None \<and> \<not> has_remote_id s \<and> published_result s = None)"
| "exec_ok RefusedAtStart s = (has_remote_id s \<and> rtSup s = NoSup \<and> published_result s = None)"
| "exec_ok Running s = (has_remote_id s \<and> rtSup s \<noteq> NoSup \<and> published_result s = None)"
| "exec_ok (Returned c f) s = (rtDir s \<noteq> None \<and> published_result s = None \<and> past s \<and> (f \<longrightarrow> rtSup s = NoSup))"
| "exec_ok (Deciding r) s = (rtDir s \<noteq> None \<and> published_result s = None \<and> past s \<and> record_ok s r)"
| "exec_ok Done s = (past s \<and> (\<exists>r. published_result s = Some r \<and> record_ok s r))"
| "exec_ok ExecDead s = (rtDir s \<noteq> None \<and> published_result s = None)"

definition base_ok :: "rt \<Rightarrow> bool" where
  "base_ok s \<longleftrightarrow> stage (rtSup s) (rtChild s) (rtLane s) \<and> exec_ok (rtExec s) s \<and> (rtTomb s \<longrightarrow> rtDir s = None) \<and>
     (\<not> has_remote_id s \<longrightarrow> rtSup s = NoSup) \<and> (dir_unstarted s \<longrightarrow> idle s \<and> marked s \<and> has_remote_id s)"

text \<open>What no step takes back.\<close>

definition later :: "rt \<Rightarrow> rt \<Rightarrow> bool" where
  "later s t \<longleftrightarrow> (rtTomb s \<longrightarrow> rtTomb t) \<and> (rtDir s \<noteq> None \<longrightarrow> rtDir t \<noteq> None) \<and> (has_remote_id s \<longrightarrow> has_remote_id t) \<and> (dir_cancelled s \<longrightarrow> dir_cancelled t) \<and> (dir_unstarted s \<longrightarrow> dir_unstarted t) \<and>
     (published_result s \<noteq> None \<longrightarrow> published_result t = published_result s) \<and> (stopped s \<longrightarrow> stopped t) \<and> (barred s \<longrightarrow> barred t) \<and> (marked s \<and> has_remote_id s \<longrightarrow> marked t) \<and>
     (halted s \<longrightarrow> halted t) \<and> (idle s \<and> marked s \<and> has_remote_id s \<longrightarrow> idle t) \<and> (over s \<longrightarrow> over t) \<and> (rtSup s = SupDead \<longrightarrow> rtSup t = SupDead) \<and>
     (rtChild s = Gone \<longrightarrow> rtChild t = Gone)"

lemmas rt_defs = set_lane_def set_dir_def set_req_def answer_def write_result_def has_remote_id_def published_result_def dir_cancelled_def dir_unstarted_def
lemmas inv_defs = barred_def stopped_def marked_def idle_def halted_def past_def over_def record_ok_def can_start_def

lemma rt_init_ok: "base_ok rt_init"
  by (simp add: base_ok_def rt_init_def no_lane_def rt_defs)

section \<open>Steps that touch neither the ticket's directory nor its exec\<close>

definition moved :: "rt \<Rightarrow> rt \<Rightarrow> bool" where
  "moved s t \<longleftrightarrow> rtDir t = rtDir s \<and> rtExec t = rtExec s \<and> rtTomb t = rtTomb s \<and> stage (rtSup t) (rtChild t) (rtLane t) \<and>
     (rtSup t = NoSup \<longleftrightarrow> rtSup s = NoSup) \<and> (past s \<longrightarrow> past t) \<and> (stopped s \<longrightarrow> stopped t) \<and> (barred s \<longrightarrow> barred t) \<and> (marked s \<longrightarrow> marked t) \<and>
     (idle s \<and> marked s \<longrightarrow> idle t) \<and> (over s \<longrightarrow> over t) \<and> (rtSup s = SupDead \<longrightarrow> rtSup t = SupDead) \<and> (rtChild s = Gone \<longrightarrow> rtChild t = Gone)"

lemma moved_dir:
  assumes "moved s t"
  shows "has_remote_id t = has_remote_id s" "published_result t = published_result s" "dir_cancelled t = dir_cancelled s" "dir_unstarted t = dir_unstarted s"
  using assms by (simp_all add: moved_def rt_defs)

lemma moved_record: "moved s t \<Longrightarrow> record_ok s r \<Longrightarrow> record_ok t r"
  using moved_dir [of s t] by (auto simp: moved_def record_ok_def)

lemma moved_exec:
  assumes "moved s t" "exec_ok e s" shows "exec_ok e t"
proof -
  have "rtDir t = rtDir s" "rtSup t = NoSup \<longleftrightarrow> rtSup s = NoSup" "past s \<longrightarrow> past t"
    using assms(1) by (simp_all add: moved_def)
  then show ?thesis
    using assms(2) moved_dir [OF assms(1)] moved_record [OF assms(1)] by (cases e) auto
qed

lemma moved_base:
  assumes "moved s t" "base_ok s" shows "base_ok t"
  using assms moved_dir [OF assms(1)] moved_exec [OF assms(1)] unfolding base_ok_def by (auto simp: moved_def)

lemma moved_later:
  assumes "moved s t" shows "later s t"
  using assms moved_dir [OF assms] unfolding later_def halted_def by (auto simp: moved_def)

lemmas core_defs = moved_def base_ok_def set_lane_def barred_def stopped_def marked_def idle_def past_def over_def can_start_def end_ok_def ran_ok_def
  cancelled_result_def refusal_result_def own_reason_def never_reasons_def

lemma enqueue_moved: "base_ok s \<Longrightarrow> sup_enqueue m s = Some t \<Longrightarrow> moved s t"
  by (auto simp: core_defs sup_enqueue_def split: if_splits)

lemma sees_cancel_moved: "base_ok s \<Longrightarrow> sup_sees_cancel u s = Some t \<Longrightarrow> moved s t"
  by (auto simp: core_defs sup_sees_cancel_def Let_def split: if_splits)

lemma refuses_moved: "base_ok s \<Longrightarrow> sup_refuses c u s = Some t \<Longrightarrow> moved s t"
  by (auto simp: core_defs sup_refuses_def split: if_splits)

lemma polls_moved: "base_ok s \<Longrightarrow> sup_polls c s = Some t \<Longrightarrow> moved s t"
  by (auto simp: core_defs sup_polls_def Let_def split: if_splits poll_choice.splits)

lemma times_out_moved: "base_ok s \<Longrightarrow> sup_times_out u s = Some t \<Longrightarrow> moved s t"
  by (auto simp: core_defs sup_times_out_def split: if_splits)

lemma dequeues_moved: "base_ok s \<Longrightarrow> sup_dequeues_withdrawn s = Some t \<Longrightarrow> moved s t"
  by (auto simp: core_defs sup_dequeues_withdrawn_def split: if_splits)

lemma concludes_moved: "base_ok s \<Longrightarrow> sup_concludes s = Some t \<Longrightarrow> moved s t"
  by (auto simp: core_defs sup_concludes_def split: if_splits)

lemma refuses_admitted_moved: "base_ok s \<Longrightarrow> sup_refuses_admitted c s = Some t \<Longrightarrow> moved s t"
  by (auto simp: core_defs sup_refuses_admitted_def split: if_splits)

lemma spawns_moved: "base_ok s \<Longrightarrow> sup_spawns s = Some t \<Longrightarrow> moved s t"
  by (auto simp: core_defs sup_spawns_def split: if_splits)

lemma notices_moved: "base_ok s \<Longrightarrow> sup_notices_cancel s = Some t \<Longrightarrow> moved s t"
  by (auto simp: core_defs sup_notices_cancel_def split: if_splits supervisor.splits bool.splits)

lemma reaps_moved: "base_ok s \<Longrightarrow> sup_reaps w s = Some t \<Longrightarrow> moved s t"
  by (auto simp: core_defs sup_reaps_def split: if_splits supervisor.splits option.splits)

lemma stage_strays: "stage p Strays l \<Longrightarrow> stage p Gone l"
  by (induction p Strays l rule: stage.induct) (auto simp: end_ok_def ran_ok_def)

lemma stage_end: "stage p c l \<Longrightarrow> p \<noteq> SupDead \<Longrightarrow> (c = Alive \<longrightarrow> lnLease l) \<and> end_ok c l"
  by (induction p c l rule: stage.induct) (auto simp: end_ok_def ran_ok_def own_reason_def never_reasons_def)

lemma finalizes_cases:
  assumes "sup_finalizes c g w s = Some t"
  obtains k b m where "rtSup s = Watching k b m" "rtChild s \<noteq> Alive" "own_reason w" "k \<longrightarrow> m \<noteq> None"
    "t = s\<lparr>rtSup := Publishing (Some (if k then cancelled_result (\<not> b \<and> m = Some True) else \<lparr>lrExit = c, lrSignal = g, lrReason = w, lrCancelled = False, lrStopProven = False\<rparr>)) True\<rparr>"
  using assms by (auto simp: sup_finalizes_def split: supervisor.splits if_splits)

lemma finalizes_moved:
  assumes "base_ok s" "sup_finalizes c g w s = Some t" shows "moved s t"
proof -
  from assms(2) obtain k b m where k: "rtSup s = Watching k b m" "rtChild s \<noteq> Alive" "own_reason w" "k \<longrightarrow> m \<noteq> None"
    and t: "t = s\<lparr>rtSup := Publishing (Some (if k then cancelled_result (\<not> b \<and> m = Some True) else \<lparr>lrExit = c, lrSignal = g, lrReason = w, lrCancelled = False, lrStopProven = False\<rparr>)) True\<rparr>"
    by (rule finalizes_cases)
  have st: "stage (Watching k b m) (rtChild s) (rtLane s)"
    using assms(1) k by (simp add: base_ok_def)
  then have c: "rtChild s \<in> {Strays, Gone}"
    using k by (cases "rtChild s") auto
  have r: "ran_ok (rtChild s) (Some (if k then cancelled_result (\<not> b \<and> m = Some True) else \<lparr>lrExit = c, lrSignal = g, lrReason = w, lrCancelled = False, lrStopProven = False\<rparr>))"
    using st k by (auto simp: ran_ok_def cancelled_result_def own_reason_def)
  have "stage (rtSup t) (rtChild t) (rtLane t)"
    using st c r by (simp add: t)
  then show ?thesis
    using st k c by (auto simp: moved_def t past_def stopped_def barred_def marked_def idle_def over_def can_start_def)
qed

lemma dies_moved:
  assumes "base_ok s" "sup_dies s = Some t" shows "moved s t"
proof -
  have t: "t = s\<lparr>rtSup := SupDead\<rparr>" and p: "rtSup s \<notin> {NoSup, SupExited, SupDead}"
    using assms(2) by (auto simp: sup_dies_def split: if_splits)
  have "stage (rtSup s) (rtChild s) (rtLane s)"
    using assms(1) by (simp add: base_ok_def)
  then show ?thesis
    using stage_end [of "rtSup s" "rtChild s" "rtLane s"] p
    by (auto simp: moved_def t past_def stopped_def barred_def marked_def idle_def over_def can_start_def)
qed

lemma strays_moved: 
  assumes "base_ok s" "strays_end s = Some t" shows "moved s t"
proof -
  have t: "t = s\<lparr>rtChild := Gone\<rparr>" and p: "rtChild s = Strays"
    using assms(2) by (auto simp: strays_end_def split: if_splits)
  have "stage (rtSup s) Gone (rtLane s)"
    using assms(1) p by (auto simp: base_ok_def intro: stage_strays)
  then show ?thesis
    by (auto simp: moved_def t p past_def stopped_def barred_def marked_def idle_def over_def can_start_def)
qed

text \<open>Only a supervisor that watches, or that is dead, has a live command.\<close>

lemma alive_cases:
  assumes "stage p Alive l" obtains k b m where "p = Watching k b m" | "p = SupDead"
  using assms by (induction p Alive l rule: stage.induct) (auto simp: ran_ok_def)

lemma exits_moved:
  assumes "base_ok s" "child_exits b s = Some t" shows "moved s t"
proof -
  have p: "rtChild s = Alive"
    and t: "t = s\<lparr>rtChild := (if b then Strays else Gone), rtSup := (case rtSup s of Watching False _ reaped \<Rightarrow> Watching False True reaped | p \<Rightarrow> p)\<rparr>"
    using assms(2) by (auto simp: child_exits_def split: if_splits)
  have st: "stage (rtSup s) Alive (rtLane s)"
    using assms(1) p by (simp add: base_ok_def)
  then consider k bf m where "rtSup s = Watching k bf m" | "rtSup s = SupDead"
    by (rule alive_cases)
  then show ?thesis
  proof cases
    case (1 k bf m)
    then show ?thesis using st p by (cases k) (auto simp: moved_def t past_def stopped_def barred_def marked_def idle_def over_def can_start_def)
  next
    case 2
    then show ?thesis using st p by (auto simp: moved_def t past_def stopped_def barred_def marked_def idle_def over_def can_start_def end_ok_def)
  qed
qed

lemmas core_parts = moved_def set_lane_def past_def stopped_def barred_def marked_def idle_def over_def can_start_def

lemma publishes_moved:
  assumes "base_ok s" "sup_publishes s = Some t" shows "moved s t"
proof -
  obtain r b where p: "rtSup s = Publishing r b"
    and t: "t = set_lane (\<lambda>l. case r of None \<Rightarrow> l | Some x \<Rightarrow> l\<lparr>lnResult := Some x\<rparr>) (s\<lparr>rtSup := (if b then Releasing else Clearing)\<rparr>)"
    using assms(2) by (auto simp: sup_publishes_def split: supervisor.splits)
  have st: "stage (Publishing r b) (rtChild s) (rtLane s)"
    using assms(1) p by (simp add: base_ok_def)
  show ?thesis
  proof (cases b)
    case True
    then obtain x where r: "r = Some x" using st by (auto simp: ran_ok_def)
    have "rtChild s \<noteq> Unborn" "rtChild s \<noteq> Alive" using st True by auto
    then show ?thesis
      using st True r p by (simp add: core_parts t ran_ok_def)
  next
    case False
    have "end_ok Unborn ((rtLane s)\<lparr>lnResult := r\<rparr>)"
      using st False by (auto simp: end_ok_def)
    then show ?thesis
      using st False p by (cases r) (auto simp: core_parts t end_ok_def)
  qed
qed

lemma releases_moved:
  assumes "base_ok s" "sup_releases s = Some t" shows "moved s t"
proof -
  have p: "rtSup s = Releasing" and t: "t = set_lane (\<lambda>l. l\<lparr>lnLease := False\<rparr>) (s\<lparr>rtSup := Clearing\<rparr>)"
    using assms(2) by (auto simp: sup_releases_def split: if_splits)
  have st: "stage Releasing (rtChild s) (rtLane s)"
    using assms(1) p by (simp add: base_ok_def)
  then obtain x where x: "lnResult (rtLane s) = Some x" "own_reason (lrReason x)" "lrStopProven x \<longrightarrow> rtChild s = Gone"
    by (auto simp: ran_ok_def)
  have "end_ok (rtChild s) ((rtLane s)\<lparr>lnLease := False\<rparr>)"
    using st x by (auto simp: end_ok_def own_reason_def never_reasons_def)
  then show ?thesis
    using st p x by (auto simp: core_parts t)
qed

lemma end_ok_clear: "end_ok c l \<Longrightarrow> end_ok c (l\<lparr>lnCancel := False, lnWithdrawn := False, lnExpired := False\<rparr>)"
  by (auto simp: end_ok_def)

lemma clears_moved:
  assumes "base_ok s" "clearTicketMarkers s = Some t" shows "moved s t"
proof -
  have p: "rtSup s = Clearing" and t: "t = set_lane (\<lambda>l. l\<lparr>lnCancel := False, lnWithdrawn := False, lnExpired := False\<rparr>) (s\<lparr>rtSup := SupExited\<rparr>)"
    using assms(2) by (auto simp: clearTicketMarkers_def split: if_splits)
  have "stage Clearing (rtChild s) (rtLane s)"
    using assms(1) p by (simp add: base_ok_def)
  then show ?thesis
    using p end_ok_clear [of "rtChild s" "rtLane s"] by (auto simp: core_parts t)
qed

lemma reap_queued_moved:
  assumes "base_ok s" "reap_dead_queued s = Some t" shows "moved s t"
proof -
  have p: "rtSup s \<in> {SupDead, SupExited}" "lnQueued (rtLane s)"
    and t: "t = set_lane (\<lambda>l. l\<lparr>lnQueued := False, lnResult := Some (refusal_result 75 (Some DeadQueued))\<rparr>) s"
    using assms(2) by (auto simp: reap_dead_queued_def split: if_splits)
  have e: "stage (rtSup s) (rtChild s) (rtLane s)"
    using assms(1) by (simp add: base_ok_def)
  then have "end_ok (rtChild s) (rtLane s)" using p by auto
  then have "rtChild s = Unborn" "\<not> lnLease (rtLane s)" using p by (auto simp: end_ok_def)
  then show ?thesis
    using p by (auto simp: core_parts t end_ok_def refusal_result_def)
qed

lemma reap_lease_moved:
  assumes "base_ok s" "reap_dead_lease s = Some t" shows "moved s t"
proof -
  have p: "rtSup s \<in> {SupDead, SupExited}" "rtChild s \<noteq> Alive" and t: "t = set_lane (\<lambda>l. l\<lparr>lnLease := False\<rparr>) s"
    using assms(2) by (auto simp: reap_dead_lease_def split: if_splits)
  have e: "stage (rtSup s) (rtChild s) (rtLane s)"
    using assms(1) by (simp add: base_ok_def)
  then have "end_ok (rtChild s) (rtLane s)" using p by auto
  then have "end_ok (rtChild s) ((rtLane s)\<lparr>lnLease := False\<rparr>)" by (auto simp: end_ok_def)
  then show ?thesis
    using p by (auto simp: core_parts t)
qed

section \<open>The steps of the exec\<close>

lemma later_refl: "later s s"
  by (simp add: later_def)

lemma not_remote: "base_ok s \<Longrightarrow> \<not> has_remote_id s \<Longrightarrow> rtSup s = NoSup \<and> rtChild s = Unborn \<and> lnResult (rtLane s) = None \<and> \<not> dir_unstarted s"
  by (auto simp: base_ok_def)

text \<open>A step of the exec or of a request leaves the lane and its supervisor alone and only adds to the directory.\<close>

definition still :: "rt \<Rightarrow> rt \<Rightarrow> bool" where
  "still s t \<longleftrightarrow> rtLane t = rtLane s \<and> rtSup t = rtSup s \<and> rtChild t = rtChild s \<and> rtTomb t = rtTomb s \<and> has_remote_id t = has_remote_id s \<and>
     (dir_cancelled s \<longrightarrow> dir_cancelled t) \<and> (dir_unstarted s \<longrightarrow> dir_unstarted t) \<and> (rtDir s \<noteq> None \<longrightarrow> rtDir t \<noteq> None) \<and>
     (published_result s \<noteq> None \<longrightarrow> published_result t = published_result s)"

lemma still_same:
  assumes "still s t"
  shows "past t = past s" "stopped t = stopped s" "barred t = barred s" "marked t = marked s" "idle t = idle s" "over t = over s" "record_ok s r \<Longrightarrow> record_ok t r"
  using assms by (auto simp: still_def inv_defs)

lemma still_later:
  assumes "still s t" shows "later s t"
  using still_same [OF assms] assms unfolding later_def halted_def by (auto simp: still_def)

lemma still_base:
  assumes "still s t" "base_ok s" "exec_ok (rtExec t) t" "rtTomb s \<longrightarrow> rtDir t = None" "dir_unstarted t \<longrightarrow> dir_unstarted s \<or> idle s \<and> marked s \<and> has_remote_id s"
  shows "base_ok t"
  using still_same [OF assms(1)] assms unfolding base_ok_def by (auto simp: still_def)

lemma published_ok:
  assumes s: "base_ok s" and d: "rtDir s \<noteq> None" "published_result s = None" and r: "past s" "record_ok s r"
  shows "base_ok (write_result r s) \<and> later s (write_result r s)"
proof -
  obtain d where d1: "rtDir s = Some d" "tdResult d = None"
    using d by (auto simp: published_result_def)
  have w: "still s (write_result r s)"
    using d1 by (simp add: still_def rt_defs)
  have "exec_ok Done (write_result r s)"
    using d1 r still_same [OF w] by (simp add: rt_defs)
  then have "exec_ok (rtExec (write_result r s)) (write_result r s)"
    by (simp add: write_result_def)
  moreover have "rtTomb s \<longrightarrow> rtDir (write_result r s) = None"
    using s d by (auto simp: base_ok_def)
  moreover have "dir_unstarted (write_result r s) = dir_unstarted s"
    using d1 by (simp add: rt_defs)
  ultimately show ?thesis
    using still_base [OF w s] still_later [OF w] by simp
qed

lemma arrives_ok:
  assumes "base_ok s" "exec_arrives s = Some t" shows "base_ok t \<and> later s t"
proof -
  have p: "\<not> rtTomb s" "rtDir s = None" and t: "t = s\<lparr>rtDir := Some new_dir, rtExec := Preparing\<rparr>"
    using assms(2) by (auto simp: exec_arrives_def split: if_splits)
  have w: "still s t"
    using p by (simp add: still_def t rt_defs new_dir_def)
  moreover have "exec_ok (rtExec t) t"
    by (simp add: t rt_defs new_dir_def)
  moreover have "\<not> dir_unstarted t"
    by (simp add: t rt_defs new_dir_def)
  ultimately show ?thesis
    using still_base [OF w assms(1)] still_later [OF w] p by simp
qed

lemma rejects_ok:
  assumes "base_ok s" "exec_rejects r s = Some t" shows "base_ok t \<and> later s t"
proof -
  have p: "rtExec s = Preparing" "rrReason r = None" and t: "t = write_result r s"
    using assms(2) by (auto simp: exec_rejects_def split: if_splits)
  have d: "rtDir s \<noteq> None" "published_result s = None" "rtSup s = NoSup"
    using assms(1) p by (auto simp: base_ok_def)
  have "past s" "record_ok s r"
    using d p by (simp_all add: past_def record_ok_def)
  then show ?thesis
    using published_ok [OF assms(1) d(1,2)] by (simp add: t)
qed

lemma publishes_ok:
  assumes "base_ok s" "exec_publishes s = Some t" shows "base_ok t \<and> later s t"
proof -
  obtain r where p: "rtExec s = Deciding r" and t: "t = write_result r s"
    using assms(2) by (auto simp: exec_publishes_def split: exec.splits)
  have d: "rtDir s \<noteq> None" "published_result s = None" "past s" "record_ok s r"
    using assms(1) p by (auto simp: base_ok_def)
  show ?thesis
    using published_ok [OF assms(1) d] by (simp add: t)
qed

text \<open>Steps that change only how far the exec has come.\<close>

lemma exec_only:
  assumes "base_ok s" "t = s\<lparr>rtExec := e\<rparr>" "exec_ok e t" shows "base_ok t \<and> later s t"
proof -
  have w: "still s t" by (simp add: assms(2) still_def rt_defs)
  have "dir_unstarted t = dir_unstarted s" by (simp add: assms(2) rt_defs)
  then show ?thesis
    using still_base [OF w assms(1)] still_later [OF w] assms by (simp add: base_ok_def)
qed

lemma remote_dir: "has_remote_id s \<Longrightarrow> rtDir s \<noteq> None"
  by (auto simp: has_remote_id_def split: option.splits)

lemma returns_ok:
  assumes "base_ok s" "run_returns c s = Some t" shows "base_ok t \<and> later s t"
proof -
  have e: "exec_ok (rtExec s) s" "\<not> has_remote_id s \<longrightarrow> rtSup s = NoSup"
    using assms(1) by (simp_all add: base_ok_def)
  have go: "base_ok t \<and> later s t" if t: "t = s\<lparr>rtExec := Returned k f\<rparr>" and p: "rtDir s \<noteq> None" "published_result s = None" "past s" "f \<longrightarrow> rtSup s = NoSup" for k f
  proof -
    have w: "still s t" by (simp add: t still_def rt_defs)
    have "exec_ok (Returned k f) t"
      using p still_same [OF w] by (simp add: t rt_defs)
    then show ?thesis using exec_only [OF assms(1) t] by simp
  qed
  show ?thesis
  proof (cases "rtExec s")
    case Preparing
    then show ?thesis using e go [of c False] assms(2) by (auto simp: run_returns_def past_def)
  next
    case RefusedAtStart
    then show ?thesis using e go [of 130 True] assms(2) remote_dir [of s] by (auto simp: run_returns_def past_def)
  next
    case Running
    then have "past s" using assms(2) by (auto simp: run_returns_def past_def split: if_splits)
    then show ?thesis using e go [of c False] assms(2) remote_dir [of s] Running by (auto simp: run_returns_def split: if_splits)
  qed (use assms(2) in \<open>simp_all add: run_returns_def\<close>)
qed

lemma exec_dies_ok:
  assumes "base_ok s" "exec_dies s = Some t" shows "base_ok t \<and> later s t"
proof -
  have e: "exec_ok (rtExec s) s"
    using assms(1) by (simp add: base_ok_def)
  have t: "t = s\<lparr>rtExec := ExecDead\<rparr>" and p: "rtExec s \<notin> {NoExec, Done, ExecDead}"
    using assms(2) by (auto simp: exec_dies_def split: if_splits)
  have "exec_ok ExecDead t"
    using p e remote_dir [of s] by (cases "rtExec s") (auto simp: t rt_defs)
  then show ?thesis
    using exec_only [OF assms(1) t] by simp
qed


lemma stage_result:
  assumes "stage p c l" "lnResult l = Some x"
  shows "\<not> can_start p" "lrReason x \<in> Some ` never_reasons \<Longrightarrow> c = Unborn \<and> \<not> lnLease l" "lrStopProven x \<Longrightarrow> c = Gone"
  using assms by (induction p c l rule: stage.induct) (auto simp: can_start_def end_ok_def ran_ok_def own_reason_def never_reasons_def)

lemma derive_never: "rrReason (derive_result b d f r c) \<in> Some ` never_reasons \<Longrightarrow> \<exists>x. r = Some x \<and> lrReason x \<in> Some ` never_reasons"
  by (auto simp: derive_result_def Let_def unfinished_def shutdownStopReason_def never_reasons_def split: if_splits option.splits)

lemma derive_shutdown: "rrReason (derive_result b d f r c) = Some RunnerShutdown \<Longrightarrow> f \<or> tdUnstarted d \<or> (\<exists>x. r = Some x \<and> lrStopProven x)"
  by (auto simp: derive_result_def Let_def unfinished_def shutdownStopReason_def split: if_splits option.splits)

lemma decides_ok:
  assumes "base_ok s" "exec_decides b s = Some t" shows "base_ok t \<and> later s t"
proof -
  obtain c f d where p: "rtExec s = Returned c f" "rtDir s = Some d" and t: "t = s\<lparr>rtExec := Deciding (derive_result b d f (lnResult (rtLane s)) c)\<rparr>"
    using assms(2) by (auto simp: exec_decides_def split: exec.splits option.splits)
  define r where "r = derive_result b d f (lnResult (rtLane s)) c"
  have st: "stage (rtSup s) (rtChild s) (rtLane s)" and e: "published_result s = None" "past s" "f \<longrightarrow> rtSup s = NoSup"
    using assms(1) p by (simp_all add: base_ok_def)
  have "barred s" if "rrReason r \<in> Some ` never_reasons"
    using derive_never [of b d f "lnResult (rtLane s)" c] that stage_result [OF st] by (auto simp: r_def barred_def)
  moreover have "dir_unstarted s \<or> rtChild s = Gone \<or> rtSup s = NoSup" if "rrReason r = Some RunnerShutdown"
    using derive_shutdown [of b d f "lnResult (rtLane s)" c] that stage_result [OF st] e p by (auto simp: r_def dir_unstarted_def)
  ultimately have "record_ok s r" by (auto simp: record_ok_def)
  moreover have w: "still s t" by (simp add: t still_def rt_defs)
  ultimately have "exec_ok (Deciding r) t"
    using p e still_same [OF w] by (simp add: t rt_defs)
  then show ?thesis
    using exec_only [OF assms(1)] t by (simp add: r_def)
qed

lemma created_ok:
  assumes "base_ok s" "onTicketCreated b s = Some t" shows "base_ok t \<and> later s t"
proof -
  obtain d where d: "rtDir s = Some d" "rtExec s = Preparing"
    and t: "let d' = d\<lparr>tdRemoteId := True, tdShutdown := (tdShutdown d \<or> b)\<rparr>
            in t = (if tdCancelled d' \<or> tdShutdown d' then s\<lparr>rtDir := Some d', rtExec := RefusedAtStart\<rparr> else s\<lparr>rtDir := Some d', rtExec := Running, rtSup := AtEnqueue\<rparr>)"
    using assms(2) by (auto simp: onTicketCreated_def Let_def split: option.splits if_splits)
  have b: "stage NoSup (rtChild s) (rtLane s)" "rtSup s = NoSup" "\<not> tdRemoteId d" "tdResult d = None" "\<not> tdUnstarted d" "\<not> rtTomb s"
    using assms(1) d by (auto simp: base_ok_def rt_defs)
  show ?thesis
  proof (cases "tdCancelled d \<or> tdShutdown d \<or> b")
    case True
    then have t: "t = s\<lparr>rtDir := Some (d\<lparr>tdRemoteId := True, tdShutdown := (tdShutdown d \<or> b)\<rparr>), rtExec := RefusedAtStart\<rparr>"
      using t by (auto simp: Let_def)
    show ?thesis using b d by (auto simp: t base_ok_def later_def rt_defs inv_defs)
  next
    case False
    then have t: "t = s\<lparr>rtDir := Some (d\<lparr>tdRemoteId := True, tdShutdown := False\<rparr>), rtExec := Running, rtSup := AtEnqueue\<rparr>"
      using t by (auto simp: Let_def)
    show ?thesis using b d False by (auto simp: t base_ok_def later_def rt_defs inv_defs)
  qed
qed


section \<open>The steps of requests\<close>

lemma set_req_same [simp]:
  "rtTomb (set_req i r s) = rtTomb s" "rtDir (set_req i r s) = rtDir s" "rtLane (set_req i r s) = rtLane s" "rtSup (set_req i r s) = rtSup s"
  "rtChild (set_req i r s) = rtChild s" "rtExec (set_req i r s) = rtExec s" "has_remote_id (set_req i r s) = has_remote_id s"
  "published_result (set_req i r s) = published_result s" "dir_cancelled (set_req i r s) = dir_cancelled s" "dir_unstarted (set_req i r s) = dir_unstarted s"
  "stopped (set_req i r s) = stopped s" "barred (set_req i r s) = barred s" "marked (set_req i r s) = marked s" "idle (set_req i r s) = idle s"
  "halted (set_req i r s) = halted s" "over (set_req i r s) = over s" "past (set_req i r s) = past s" "record_ok (set_req i r s) x = record_ok s x"
  by (simp_all add: set_req_def has_remote_id_def published_result_def dir_cancelled_def dir_unstarted_def inv_defs)

lemma set_req_exec [simp]: "exec_ok e (set_req i r s) = exec_ok e s"
  by (cases e) simp_all

lemma set_req_base [simp]: "base_ok (set_req i r s) = base_ok s"
  by (simp add: base_ok_def)

lemma set_req_later [simp]: "later s (set_req i r t) = later s t"
  by (simp add: later_def)

lemma later_trans: "later s t \<Longrightarrow> later t u \<Longrightarrow> later s u"
  unfolding later_def by auto

lemma lane_base: "moved s t \<Longrightarrow> base_ok s \<Longrightarrow> base_ok t \<and> later s t"
  using moved_base moved_later by blast

lemma still_exec:
  assumes "still s t" "rtDir t = None \<longleftrightarrow> rtDir s = None" "published_result t = published_result s" "exec_ok e s" shows "exec_ok e t"
proof -
  have "has_remote_id t = has_remote_id s" "rtSup t = rtSup s" "past t = past s"
    using assms(1) still_same(1) [OF assms(1)] by (simp_all add: still_def)
  moreover have "record_ok s r \<Longrightarrow> record_ok t r" for r
    by (rule still_same(7) [OF assms(1)])
  ultimately show ?thesis
    using assms(2-4) by (cases e) auto
qed

text \<open>A marker of the directory.\<close>

lemma dir_base:
  assumes "base_ok s" "\<And>d. tdRemoteId (g d) = tdRemoteId d \<and> tdResult (g d) = tdResult d \<and> (tdCancelled d \<longrightarrow> tdCancelled (g d)) \<and> (tdUnstarted d \<longrightarrow> tdUnstarted (g d))"
    "\<And>d. rtDir s = Some d \<Longrightarrow> tdUnstarted (g d) \<Longrightarrow> tdUnstarted d \<or> idle s \<and> marked s \<and> has_remote_id s"
  shows "base_ok (set_dir g s) \<and> later s (set_dir g s)"
proof -
  have w: "still s (set_dir g s)"
    using assms(2) by (auto simp: still_def rt_defs split: option.splits)
  have p: "published_result (set_dir g s) = published_result s" "rtDir (set_dir g s) = None \<longleftrightarrow> rtDir s = None" "rtExec (set_dir g s) = rtExec s"
    using assms(2) by (auto simp: rt_defs split: option.splits)
  have u: "dir_unstarted (set_dir g s) \<longrightarrow> dir_unstarted s \<or> idle s \<and> marked s \<and> has_remote_id s"
    using assms(3) by (auto simp: dir_unstarted_def set_dir_def split: option.splits)
  have "exec_ok (rtExec (set_dir g s)) (set_dir g s)"
    using still_exec [OF w p(2,1)] assms(1) p(3) by (simp add: base_ok_def)
  then show ?thesis
    using still_base [OF w assms(1)] still_later [OF w] p u assms(1) by (simp add: base_ok_def)
qed

text \<open>What is queued or has no lease is not running.\<close>

lemma stage_queued: "stage p c l \<Longrightarrow> lnQueued l \<Longrightarrow> c = Unborn \<and> \<not> lnLease l \<and> p \<notin> {NoSup, AtEnqueue, Admitted}"
  by (induction p c l rule: stage.induct) (auto simp: end_ok_def)

lemma stage_unleased: "stage p c l \<Longrightarrow> \<not> lnLease l \<Longrightarrow> c \<noteq> Alive \<and> p \<noteq> Admitted"
  by (induction p c l rule: stage.induct) (auto simp: end_ok_def)

lemma stage_withdrawn: "stage p c l \<Longrightarrow> lnWithdrawn l \<Longrightarrow> c = Unborn \<and> \<not> lnLease l \<and> p \<notin> {NoSup, AtEnqueue, Admitted}"
  by (induction p c l rule: stage.induct) (auto simp: end_ok_def)

lemma stage_lane: 
  assumes "stage p c l" "lnQueued l' \<longrightarrow> lnQueued l" "lnLease l' = lnLease l" "lnResult l' = lnResult l" "lnWithdrawn l' \<longrightarrow> lnWithdrawn l \<or> lnQueued l"
  shows "stage p c l'"
  using assms by (induction p c l rule: stage.induct) (auto simp: end_ok_def)

text \<open>Marking a lane cancelled or withdrawn, dequeuing it.\<close>

lemma lane_mark_moved:
  assumes "base_ok s" "let l = rtLane s in (lnQueued (f l) \<longrightarrow> lnQueued l) \<and> lnLease (f l) = lnLease l \<and> lnResult (f l) = lnResult l \<and>
    (lnWithdrawn (f l) \<longrightarrow> lnWithdrawn l \<or> lnQueued l) \<and> (lnWithdrawn l \<longrightarrow> lnWithdrawn (f l)) \<and> (lnCancel l \<longrightarrow> lnCancel (f l))"
  shows "moved s (set_lane f s)"
proof -
  have "stage (rtSup s) (rtChild s) (rtLane s)" using assms(1) by (simp add: base_ok_def)
  then have "stage (rtSup s) (rtChild s) (f (rtLane s))"
    using stage_lane assms(2) unfolding Let_def by blast
  moreover have "rtDir (set_lane f s) = rtDir s" "rtExec (set_lane f s) = rtExec s" "rtTomb (set_lane f s) = rtTomb s" "rtSup (set_lane f s) = rtSup s"
    "rtChild (set_lane f s) = rtChild s" "rtLane (set_lane f s) = f (rtLane s)"
    by (simp_all add: set_lane_def)
  ultimately show ?thesis
    using assms(2) unfolding Let_def by (simp add: moved_def past_def stopped_def barred_def marked_def idle_def over_def)
qed


lemma signal_moved:
  assumes "base_ok s" "onFirstCancelSignal s = Some t" shows "moved s t"
proof -
  have "t = set_lane (\<lambda>l. l\<lparr>lnCancel := True\<rparr>) s"
    using assms(2) by (auto simp: onFirstCancelSignal_def split: if_splits)
  moreover have "moved s (set_lane (\<lambda>l. l\<lparr>lnCancel := True\<rparr>) s)"
    by (rule lane_mark_moved [OF assms(1)]) (simp add: Let_def)
  ultimately show ?thesis by simp
qed

lemmas lane_moved = enqueue_moved sees_cancel_moved refuses_moved polls_moved times_out_moved dequeues_moved concludes_moved refuses_admitted_moved spawns_moved notices_moved
  exits_moved reaps_moved strays_moved finalizes_moved publishes_moved releases_moved clears_moved dies_moved signal_moved reap_queued_moved reap_lease_moved

text \<open>What each stage of a request knows, and what each answer proves.\<close>

fun req_ok :: "rt \<Rightarrow> request \<Rightarrow> bool" where
  "req_ok s (Answered RWithdrawn) = stopped s"
| "req_ok s (Answered RTombstoned) = rtTomb s"
| "req_ok s (Answered RConfirmed) = (halted s \<or> rtSup s = SupDead \<and> published_result s \<noteq> None)"
| "req_ok s WithdrawLane = has_remote_id s"
| "req_ok s CancelMark = (rtDir s \<noteq> None)"
| "req_ok s (CancelQueue k) = (has_remote_id s \<and> marked s \<and> (k \<longrightarrow> dir_cancelled s))"
| "req_ok s (CancelLease k) = (has_remote_id s \<and> marked s \<and> (k \<longrightarrow> dir_cancelled s))"
| "req_ok s (CancelWait k) = (has_remote_id s \<and> marked s \<and> (k \<longrightarrow> dir_cancelled s))"
| "req_ok s (CancelKilled k) = (has_remote_id s \<and> marked s \<and> over s \<and> (k \<longrightarrow> dir_cancelled s))"
| "req_ok s (CancelRelease k) = (has_remote_id s \<and> marked s \<and> over s \<and> (k \<longrightarrow> dir_cancelled s))"
| "req_ok s (CancelRecheck k) = (has_remote_id s \<and> marked s \<and> dir_cancelled s)"
| "req_ok s CancelResult = (has_remote_id s \<and> marked s \<and> dir_cancelled s)"
| "req_ok s _ = True"

lemma set_req_ok [simp]: "req_ok (set_req i r s) q = req_ok s q"
  by (induction s q rule: req_ok.induct) simp_all

lemma laterD:
  assumes "later s t"
  shows "rtTomb s \<Longrightarrow> rtTomb t" "rtDir s \<noteq> None \<Longrightarrow> rtDir t \<noteq> None" "has_remote_id s \<Longrightarrow> has_remote_id t" "dir_cancelled s \<Longrightarrow> dir_cancelled t"
    "published_result s \<noteq> None \<Longrightarrow> published_result t \<noteq> None" "stopped s \<Longrightarrow> stopped t" "has_remote_id s \<Longrightarrow> marked s \<Longrightarrow> marked t" "halted s \<Longrightarrow> halted t"
    "over s \<Longrightarrow> over t" "rtSup s = SupDead \<Longrightarrow> rtSup t = SupDead" "barred s \<Longrightarrow> barred t" "rtChild s = Gone \<Longrightarrow> rtChild t = Gone"
    "dir_unstarted s \<Longrightarrow> dir_unstarted t" "published_result s = Some x \<Longrightarrow> published_result t = Some x"
  using assms by (simp_all add: later_def)

lemma later_req_ok:
  assumes "later s t" "req_ok s r" shows "req_ok t r"
proof -
  note D = laterD [OF assms(1)]
  show ?thesis
  proof (cases r)
    case (Answered a)
    then show ?thesis using assms(2) D by (cases a) (simp_all, blast)
  qed (use assms(2) in \<open>simp_all add: D\<close>)
qed

text \<open>A step of request \<open>i\<close> that leaves it at \<open>r\<close> in a state \<open>t\<close>.\<close>

definition req_done :: "rt \<Rightarrow> nat \<Rightarrow> rt \<Rightarrow> bool" where
  "req_done s i t \<longleftrightarrow> (\<exists>r u. t = set_req i r u \<and> rtReqs u = rtReqs s \<and> base_ok u \<and> later s u \<and> req_ok u r)"

lemma req_doneI: "base_ok u \<and> later s u \<Longrightarrow> rtReqs u = rtReqs s \<Longrightarrow> req_ok u r \<Longrightarrow> req_done s i (set_req i r u)"
  unfolding req_done_def by blast

lemma req_done_here: "base_ok s \<Longrightarrow> req_ok s r \<Longrightarrow> req_done s i (set_req i r s)"
  by (rule req_doneI) (simp_all add: later_refl)

text \<open>Facts about a well-formed state in the vocabulary of the answers.\<close>

lemma base_stage: "base_ok s \<Longrightarrow> stage (rtSup s) (rtChild s) (rtLane s)"
  by (simp add: base_ok_def)

lemma base_remote: "base_ok s \<Longrightarrow> rtSup s \<noteq> NoSup \<Longrightarrow> has_remote_id s"
  by (auto simp: base_ok_def)

lemma unleased_idle: "base_ok s \<Longrightarrow> \<not> lnLease (rtLane s) \<Longrightarrow> idle s"
  using stage_unleased [OF base_stage [of s]] by (simp add: idle_def)

lemma unleased_halted: "base_ok s \<Longrightarrow> \<not> lnLease (rtLane s) \<Longrightarrow> marked s \<Longrightarrow> dir_cancelled s \<Longrightarrow> halted s"
  using unleased_idle [of s] by (simp add: halted_def)

lemma published_record:
  assumes "base_ok s" "published_result s = Some r" shows "past s \<and> record_ok s r"
proof -
  have "exec_ok (rtExec s) s" using assms(1) by (simp add: base_ok_def)
  then show ?thesis
    using assms(2) by (cases "rtExec s") (auto simp: published_result_def)
qed

lemma stage_past: "stage p c l \<Longrightarrow> lnResult l \<noteq> None \<Longrightarrow> p \<noteq> SupDead \<Longrightarrow> c \<noteq> Alive \<and> p \<noteq> Admitted"
  by (induction p c l rule: stage.induct) (auto simp: end_ok_def)

lemma past_cases:
  assumes "base_ok s" "past s" shows "idle s \<or> rtSup s = SupDead"
proof (cases "lnResult (rtLane s) = None")
  case True
  then have "rtSup s \<in> {NoSup, SupExited, SupDead}" using assms(2) by (auto simp: past_def)
  then show ?thesis using base_stage [OF assms(1)] by (auto simp: idle_def)
next
  case False
  then show ?thesis using stage_past [OF base_stage [OF assms(1)]] by (auto simp: idle_def)
qed

lemma withdrawn_stopped:
  assumes "base_ok s" "lnWithdrawn (rtLane s)" shows "stopped s"
  using stage_withdrawn [OF base_stage [OF assms(1)] assms(2)] assms(2) by (auto simp: stopped_def can_start_def)

lemma barred_stopped: "barred s \<Longrightarrow> stopped s"
  by (simp add: barred_def stopped_def)

lemma tombstone_done:
  assumes s: "base_ok s" and t: "tombstoneAbsentTicket i a q s = Some t" and a: "a = RTombstoned \<or> a = RConfirmed" and q: "rtDir s \<noteq> None \<Longrightarrow> req_ok s q"
  shows "req_done s i t"
proof (cases "rtDir s = None")
  case False
  then have "t = set_req i q s" using t by (simp add: tombstoneAbsentTicket_def)
  then show ?thesis using req_done_here s q False by simp
next
  case True
  define u where "u = s\<lparr>rtTomb := True\<rparr>"
  have e: "t = set_req i (Answered a) u"
    using t True by (simp add: tombstoneAbsentTicket_def answer_def u_def)
  have n: "\<not> has_remote_id s" "published_result s = None" using True by (simp_all add: rt_defs)
  have p: "rtSup s = NoSup" "rtChild s = Unborn" "\<not> dir_unstarted s" using not_remote [OF s n(1)] by simp_all
  have x: "rtExec s = NoExec"
    using s True n by (cases "rtExec s") (auto simp: base_ok_def)
  have "base_ok u"
    using s True p x by (simp add: u_def base_ok_def rt_defs)
  moreover have "later s u"
    using p by (simp add: u_def later_def rt_defs inv_defs)
  moreover have "rtTomb u" "halted u"
    using p by (simp_all add: u_def inv_defs)
  ultimately show ?thesis
    using req_doneI [of u s "Answered a" i] a by (auto simp: e u_def)
qed

lemma withdraw_done:
  assumes s: "base_ok s" and w: "has_remote_id s" and t: "withdrawLane i m u s = Some t"
  shows "req_done s i t"
proof -
  let ?l = "rtLane s"
  have st: "stage (rtSup s) (rtChild s) ?l" using s by (rule base_stage)
  consider (marked) "lnWithdrawn ?l" "t = set_req i (Answered RWithdrawn) s"
    | (over) x where "lnResult ?l = Some x" "lrReason x = Some Withdrawn" "t = set_req i (Answered RWithdrawn) s"
    | (queued) "lnQueued ?l" "t = set_req i (Answered RWithdrawn) (set_lane (\<lambda>l. l\<lparr>lnWithdrawn := True, lnQueued := \<not> u\<rparr>) s)"
    | (other) r where "t = set_req i r s" "r \<in> {WithdrawRecheck, Answered RCancelled, Answered RStarted}"
    using t by (auto simp: withdrawLane_def Let_def answer_def split: if_splits option.splits)
  then show ?thesis
  proof cases
    case marked
    then show ?thesis using req_done_here s withdrawn_stopped by simp
  next
    case (over x)
    then have "barred s"
      using stage_result [OF st over(1)] by (simp add: barred_def never_reasons_def)
    then show ?thesis using over req_done_here s barred_stopped by simp
  next
    case queued
    define v where "v = set_lane (\<lambda>l. l\<lparr>lnWithdrawn := True, lnQueued := \<not> u\<rparr>) s"
    have "moved s v"
      unfolding v_def by (rule lane_mark_moved [OF s]) (use queued(1) in \<open>simp add: Let_def\<close>)
    then have b: "base_ok v \<and> later s v" by (rule lane_base) (rule s)
    have "lnWithdrawn (rtLane v)" "rtReqs v = rtReqs s" by (simp_all add: v_def set_lane_def)
    then show ?thesis
      using req_doneI [OF b, of "Answered RWithdrawn" i] withdrawn_stopped [of v] b queued(2) by (simp add: v_def)
  next
    case (other r)
    then show ?thesis using req_done_here [OF s, of r i] by auto
  qed
qed


text \<open>Requests that mark the lane.\<close>

lemma marking:
  assumes s: "base_ok s" and f: "lnQueued (f (rtLane s)) \<longrightarrow> lnQueued (rtLane s)" "lnLease (f (rtLane s)) = lnLease (rtLane s)" "lnResult (f (rtLane s)) = lnResult (rtLane s)"
    "lnWithdrawn (f (rtLane s)) = lnWithdrawn (rtLane s)" "lnCancel (f (rtLane s))"
  shows "base_ok (set_lane f s) \<and> later s (set_lane f s)" "marked (set_lane f s)" "rtReqs (set_lane f s) = rtReqs s" "lnLease (rtLane (set_lane f s)) = lnLease (rtLane s)"
    "has_remote_id (set_lane f s) = has_remote_id s" "dir_cancelled (set_lane f s) = dir_cancelled s"
proof -
  have "moved s (set_lane f s)"
    by (rule lane_mark_moved [OF s]) (use f in \<open>auto simp: Let_def\<close>)
  then show "base_ok (set_lane f s) \<and> later s (set_lane f s)" by (rule lane_base) (rule s)
qed (use f in \<open>simp_all add: marked_def set_lane_def has_remote_id_def dir_cancelled_def Let_def\<close>)

lemma cancel_queue_done:
  assumes s: "base_ok s" "req_ok s (CancelQueue k)" and t: "cancel_queue i k u s = Some t"
  shows "req_done s i t"
proof (cases "lnQueued (rtLane s)")
  case False
  then show ?thesis using s t req_done_here [OF s(1), of "CancelLease k" i] by (simp add: cancel_queue_def)
next
  case True
  let ?f = "\<lambda>l. l\<lparr>lnQueued := \<not> u, lnCancel := True\<rparr>"
  define v where "v = set_lane ?f s"
  have v: "base_ok v \<and> later s v" "marked v" "rtReqs v = rtReqs s" "lnLease (rtLane v) = lnLease (rtLane s)" "dir_cancelled v = dir_cancelled s"
    unfolding v_def using marking [OF s(1), of ?f] True by simp_all
  have "\<not> lnLease (rtLane s)" using stage_queued [OF base_stage [OF s(1)] True] by simp
  then have h: "k \<longrightarrow> halted v"
    using unleased_halted [of v] v s(2) by simp
  have e: "t = set_req i (Answered (if k then RConfirmed else RShutdownDone)) v"
    using t True by (simp add: cancel_queue_def answer_def v_def)
  show ?thesis
    unfolding e by (rule req_doneI [OF v(1,3)]) (use h in simp)
qed

lemma after_done:
  assumes s: "base_ok u" "later s u" "rtReqs u = rtReqs s" "has_remote_id u" "marked u" "k \<longrightarrow> dir_cancelled u" and ok: "ok \<longrightarrow> idle u"
    and t: "after_command i k ok u = Some t"
  shows "req_done s i t"
proof -
  have "k \<and> ok \<longrightarrow> halted u" using s ok by (simp add: halted_def)
  moreover have "t = set_req i (if \<not> k then Answered RShutdownDone else if ok then Answered RConfirmed else CancelRecheck True) u"
    using t by (auto simp: after_command_def answer_def split: if_splits)
  ultimately show ?thesis
    using req_doneI [of u s "if \<not> k then Answered RShutdownDone else if ok then Answered RConfirmed else CancelRecheck True" i] s by auto
qed

lemma cancel_lease_done:
  assumes s: "base_ok s" "req_ok s (CancelLease k)" and t: "cancel_lease i k s = Some t"
  shows "req_done s i t"
proof (cases "lnLease (rtLane s)")
  case False
  then show ?thesis using s t after_done [of s s k False i t] by (simp add: cancel_lease_def later_refl)
next
  case True
  define v where "v = set_lane (\<lambda>l. l\<lparr>lnCancel := True\<rparr>) s"
  have v: "base_ok v \<and> later s v" "marked v" "rtReqs v = rtReqs s" "has_remote_id v" "k \<longrightarrow> dir_cancelled v"
    using marking [OF s(1), of "\<lambda>l. l\<lparr>lnCancel := True\<rparr>"] s(2) by (simp_all add: v_def)
  show ?thesis
  proof (cases "rtSup s \<in> {SupDead, SupExited}")
    case False
    then have "t = set_req i (CancelWait k) v"
      using t True by (simp add: cancel_lease_def v_def Let_def)
    then show ?thesis using req_doneI [OF v(1,3), of "CancelWait k" i] v by simp
  next
    case dead: True
    define w where "w = v\<lparr>rtChild := (if rtChild s = Alive then Strays else rtChild s)\<rparr>"
    have e: "t = set_req i (CancelKilled k) w"
      using t True dead by (auto simp: cancel_lease_def v_def w_def Let_def)
    have p: "rtSup v = rtSup s" "rtChild v = rtChild s" by (simp_all add: v_def set_lane_def)
    have st: "stage (rtSup v) (rtChild v) (rtLane v)" using v(1) by (auto intro: base_stage)
    then have "end_ok (rtChild v) (rtLane v)" using dead p by auto
    then have "end_ok (rtChild w) (rtLane w)" using p by (auto simp: w_def end_ok_def)
    then have "stage (rtSup w) (rtChild w) (rtLane w)" using dead st p by (auto simp: w_def)
    moreover have "rtSup w = rtSup s" "rtLane w = rtLane v" using p by (simp_all add: w_def)
    ultimately have "moved v w"
      using dead p by (auto simp: moved_def w_def past_def stopped_def barred_def marked_def idle_def over_def)
    then have w: "base_ok w \<and> later v w" by (rule lane_base) (use v(1) in simp)
    have "later s w" using later_trans v(1) w by blast
    moreover have "over w" "marked w" "has_remote_id w" "k \<longrightarrow> dir_cancelled w" "rtReqs w = rtReqs s"
      using dead p v by (auto simp: w_def over_def marked_def has_remote_id_def dir_cancelled_def)
    ultimately show ?thesis using req_doneI [of w s "CancelKilled k" i] w by (simp add: e)
  qed
qed


lemma cancel_wait_done:
  assumes s: "base_ok s" "req_ok s (CancelWait k)" and t: "cancel_wait i k s = Some t"
  shows "req_done s i t"
  using s t after_done [of s s k "\<not> lnLease (rtLane s)" i t] unleased_idle [of s] by (simp add: cancel_wait_def later_refl)

lemma cancel_killed_done:
  assumes s: "base_ok s" "req_ok s (CancelKilled k)" and t: "cancel_killed i k s = Some t"
  shows "req_done s i t"
proof -
  define x where "x = \<lparr>lrExit = None, lrSignal = Some ''SIGKILL'', lrReason = None, lrCancelled = True, lrStopProven = False\<rparr>"
  define v where "v = set_lane (\<lambda>l. l\<lparr>lnResult := Some x\<rparr>) s"
  have d: "rtSup s \<in> {SupDead, SupExited}" "rtChild s \<noteq> Alive" using s(2) by (auto simp: over_def)
  have st: "stage (rtSup s) (rtChild s) (rtLane s)" using s(1) by (rule base_stage)
  then have "end_ok (rtChild s) (rtLane s)" using d by auto
  then have "end_ok (rtChild s) ((rtLane s)\<lparr>lnResult := Some x\<rparr>)" by (auto simp: end_ok_def x_def)
  then have "stage (rtSup v) (rtChild v) (rtLane v)" using st d by (auto simp: v_def set_lane_def)
  then have "moved s v"
    using d by (auto simp: core_parts v_def)
  then have v: "base_ok v \<and> later s v" by (rule lane_base) (rule s)
  have e: "t = set_req i (CancelRelease k) v"
    using t by (simp add: cancel_killed_def v_def x_def)
  have q: "req_ok v (CancelRelease k)" "rtReqs v = rtReqs s"
    using s(2) by (simp_all add: v_def set_lane_def over_def marked_def has_remote_id_def dir_cancelled_def)
  show ?thesis
    unfolding e by (rule req_doneI [OF v q(2,1)])
qed

lemma cancel_release_done:
  assumes s: "base_ok s" "req_ok s (CancelRelease k)" and t: "cancel_release i k s = Some t"
  shows "req_done s i t"
proof -
  define v where "v = set_lane (\<lambda>l. l\<lparr>lnLease := False\<rparr>) s"
  have d: "rtSup s \<in> {SupDead, SupExited}" "rtChild s \<noteq> Alive" using s(2) by (auto simp: over_def)
  have st: "stage (rtSup s) (rtChild s) (rtLane s)" using s(1) by (rule base_stage)
  then have "end_ok (rtChild s) (rtLane s)" using d by auto
  then have "end_ok (rtChild s) ((rtLane s)\<lparr>lnLease := False\<rparr>)" by (auto simp: end_ok_def)
  then have "stage (rtSup v) (rtChild v) (rtLane v)" using st d by (auto simp: v_def set_lane_def)
  then have "moved s v"
    using d by (auto simp: core_parts v_def)
  then have v: "base_ok v \<and> later s v" by (rule lane_base) (rule s)
  have "idle v" "has_remote_id v" "marked v" "k \<longrightarrow> dir_cancelled v" "rtReqs v = rtReqs s"
    using d s(2) by (auto simp: v_def set_lane_def idle_def marked_def has_remote_id_def dir_cancelled_def)
  then show ?thesis
    using after_done [of v s k True i t] v t by (simp add: cancel_release_def v_def)
qed

lemma cancel_recheck_done:
  assumes s: "base_ok s" "req_ok s (CancelRecheck k)" and t: "cancel_recheck i s = Some t"
  shows "req_done s i t"
proof (cases "lnQueued (rtLane s) \<or> lnLease (rtLane s)")
  case True
  then show ?thesis using s t req_done_here [of s CancelResult i] by (simp add: cancel_recheck_def)
next
  case False
  then show ?thesis using s t req_done_here [of s "Answered RConfirmed" i] unleased_halted [of s] by (simp add: cancel_recheck_def answer_def)
qed

lemma cancel_result_done:
  assumes s: "base_ok s" "req_ok s CancelResult" and t: "cancel_result i s = Some t"
  shows "req_done s i t"
proof (cases "published_result s")
  case None
  then show ?thesis using s t req_done_here [of s "Answered RUnconfirmed" i] by (simp add: cancel_result_def answer_def)
next
  case (Some r)
  then have "idle s \<or> rtSup s = SupDead" using past_cases published_record s(1) by blast
  then have "req_ok s (Answered RConfirmed)" using s(2) Some by (auto simp: halted_def)
  then show ?thesis using s t Some req_done_here [of s "Answered RConfirmed" i] by (simp add: cancel_result_def answer_def)
qed

lemma cancel_mark_done:
  assumes s: "base_ok s" "rtDir s \<noteq> None" and t: "cancel_mark i s = Some t"
  shows "req_done s i t"
proof -
  define u where "u = set_dir (\<lambda>d. d\<lparr>tdCancelled := True\<rparr>) s"
  have u: "base_ok u \<and> later s u"
    unfolding u_def by (rule dir_base [OF s(1)]) simp_all
  have p: "rtLane u = rtLane s" "rtSup u = rtSup s" "rtReqs u = rtReqs s" "has_remote_id u = has_remote_id s" "dir_cancelled u" "rtChild u = rtChild s"
    using s(2) by (auto simp: u_def rt_defs split: option.splits)
  show ?thesis
  proof (cases "has_remote_id s")
    case False
    then have "halted u" using not_remote [OF s(1) False] p by (simp add: halted_def idle_def marked_def)
    then have "req_done s i (set_req i (Answered RConfirmed) u)" by (intro req_doneI [OF u p(3)]) simp
    then show ?thesis using t False by (simp add: cancel_mark_def answer_def u_def Let_def)
  next
    case True
    let ?f = "\<lambda>l. l\<lparr>lnCancel := True\<rparr>"
    define v where "v = set_lane ?f u"
    have ub: "base_ok u" using u by simp
    have m: "base_ok v \<and> later u v" "marked v" "rtReqs v = rtReqs s" "lnLease (rtLane v) = lnLease (rtLane s)" "has_remote_id v" "dir_cancelled v"
      unfolding v_def using marking [OF ub, of ?f] True p by simp_all
    have b: "base_ok v \<and> later s v" using u m(1) later_trans by blast
    show ?thesis
    proof (cases "lnQueued (rtLane s) \<or> lnLease (rtLane s)")
      case q: True
      have "req_done s i (set_req i (CancelQueue True) v)" by (intro req_doneI [OF b m(3)]) (simp add: m)
      then show ?thesis using t True q by (simp add: cancel_mark_def v_def u_def Let_def)
    next
      case q: False
      have "halted v" using unleased_halted [of v] b m q by simp
      then have "req_done s i (set_req i (Answered RConfirmed) v)" by (intro req_doneI [OF b m(3)]) simp
      then show ?thesis using t True q by (simp add: cancel_mark_def answer_def v_def u_def Let_def)
    qed
  qed
qed

lemma lane_dir: "set_lane f (set_dir g s) = set_dir g (set_lane f s)"
  by (simp add: set_lane_def set_dir_def)

lemma shutdown_done:
  assumes s: "base_ok s" and t: "remoteShutdown i u s = Some t"
  shows "req_done s i t"
proof (cases "has_remote_id s")
  case False
  define v where "v = set_dir (\<lambda>d. d\<lparr>tdShutdown := True\<rparr>) s"
  have "base_ok v \<and> later s v"
    unfolding v_def by (rule dir_base [OF s]) simp_all
  moreover have "t = set_req i (Answered RShutdownDone) v" "rtReqs v = rtReqs s"
    using t False by (simp_all add: remoteShutdown_def answer_def v_def set_dir_def split: if_splits)
  ultimately show ?thesis using req_doneI [of v s "Answered RShutdownDone" i] by simp
next
  case True
  let ?l = "rtLane s"
  let ?f = "\<lambda>l. l\<lparr>lnCancel := True, lnQueued := lnQueued l \<and> \<not> u\<rparr>"
  let ?g = "\<lambda>d. d\<lparr>tdShutdown := True, tdUnstarted := (tdUnstarted d \<or> lnQueued ?l \<or> \<not> lnLease ?l)\<rparr>"
  define v where "v = set_lane ?f s"
  define w where "w = set_dir ?g v"
  have v: "base_ok v \<and> later s v" "marked v" "rtReqs v = rtReqs s" "lnLease (rtLane v) = lnLease ?l" "has_remote_id v"
    unfolding v_def using marking [OF s, of ?f] True by simp_all
  have "\<not> lnLease ?l" if "lnQueued ?l"
    using stage_queued [OF base_stage [OF s] that] by simp
  then have i: "idle v" if "lnQueued ?l \<or> \<not> lnLease ?l"
    using unleased_idle [of v] v that by auto
  have vb: "base_ok v" using v by simp
  have w1: "base_ok w \<and> later v w"
    unfolding w_def by (rule dir_base [OF vb]) (use i v in auto)
  have w2: "base_ok w \<and> later s w" using w1 v(1) later_trans by blast
  have w3: "marked w" "has_remote_id w" "rtReqs w = rtReqs s"
    using v by (auto simp: w_def set_dir_def marked_def has_remote_id_def split: option.splits)
  have "t = set_req i (if lnQueued ?l then Answered RShutdownDone else CancelQueue False) w"
    using t True by (auto simp: remoteShutdown_def answer_def Let_def v_def w_def lane_dir split: if_splits)
  then show ?thesis
    using req_doneI [OF w2 w3(3), of "if lnQueued ?l then Answered RShutdownDone else CancelQueue False" i] w3 by auto
qed

section \<open>The invariant holds\<close>

definition good :: "rt \<Rightarrow> bool" where
  "good s \<longleftrightarrow> base_ok s \<and> (\<forall>i. req_ok s (rtReqs s i))"

lemma req_done_good:
  assumes "good s" "req_done s i t" shows "good t \<and> later s t"
proof -
  obtain r u where t: "t = set_req i r u" and u: "rtReqs u = rtReqs s" "base_ok u" "later s u" "req_ok u r"
    using assms(2) by (auto simp: req_done_def)
  have "req_ok u (rtReqs t j)" for j
    using u assms(1) later_req_ok [OF u(3)] by (auto simp: t set_req_def good_def)
  then show ?thesis using u by (simp add: good_def t)
qed

lemma req_step_good:
  assumes g: "good s" and t: "req_step i m u s = Some t" shows "good t \<and> later s t"
proof -
  have b: "base_ok s" and q: "req_ok s (rtReqs s i)" using g by (simp_all add: good_def)
  have "req_done s i t"
  proof (cases "rtReqs s i")
    case WithdrawStart
    then have "t = set_req i (if rtDir s = None then WithdrawTomb else WithdrawRead) s" using t by (simp add: req_step_def)
    then show ?thesis using req_done_here [OF b, of "if rtDir s = None then WithdrawTomb else WithdrawRead" i] by (simp split: if_splits)
  next
    case WithdrawTomb
    then show ?thesis using t tombstone_done [OF b, of i RTombstoned WithdrawRead t] by (simp add: req_step_def)
  next
    case WithdrawRead
    then show ?thesis using t req_done_here [OF b, of WithdrawLane i] req_done_here [OF b, of "Answered RFinished" i] req_done_here [OF b, of "Answered RNotQueued" i]
      by (auto simp: req_step_def answer_def split: if_splits)
  next
    case WithdrawLane
    then show ?thesis using t q withdraw_done [OF b, of i m u t] by (simp add: req_step_def)
  next
    case WithdrawRecheck
    have "req_ok s (Answered (recheck_reply (published_result s)))"
    proof (cases "published_result s")
      case (Some x)
      then show ?thesis
        using published_record [OF b Some] barred_stopped by (auto simp: recheck_reply_def record_ok_def never_reasons_def)
    qed (simp add: recheck_reply_def)
    then show ?thesis using t WithdrawRecheck req_done_here [OF b, of "Answered (recheck_reply (published_result s))" i] by (simp add: req_step_def answer_def)
  next
    case CancelStart
    then have "t = set_req i (if rtDir s = None then CancelTomb else CancelMark) s" using t by (simp add: req_step_def)
    then show ?thesis using req_done_here [OF b, of "if rtDir s = None then CancelTomb else CancelMark" i] by (auto split: if_splits)
  next
    case CancelTomb
    then show ?thesis using t tombstone_done [OF b, of i RConfirmed CancelMark t] by (simp add: req_step_def)
  next
    case CancelMark
    then show ?thesis using t q cancel_mark_done [OF b] by (simp add: req_step_def)
  next
    case (CancelQueue k)
    then show ?thesis using t q cancel_queue_done [OF b, of k i u t] by (simp add: req_step_def)
  next
    case (CancelLease k)
    then show ?thesis using t q cancel_lease_done [OF b, of k i t] by (simp add: req_step_def)
  next
    case (CancelWait k)
    then show ?thesis using t q cancel_wait_done [OF b, of k i t] by (simp add: req_step_def)
  next
    case (CancelKilled k)
    then show ?thesis using t q cancel_killed_done [OF b, of k i t] by (simp add: req_step_def)
  next
    case (CancelRelease k)
    then show ?thesis using t q cancel_release_done [OF b, of k i t] by (simp add: req_step_def)
  next
    case (CancelRecheck k)
    then show ?thesis using t q cancel_recheck_done [OF b, of k i t] by (simp add: req_step_def)
  next
    case CancelResult
    then show ?thesis using t q cancel_result_done [OF b, of i t] by (simp add: req_step_def)
  qed (use t in \<open>simp_all add: req_step_def\<close>)
  then show ?thesis by (rule req_done_good [OF g])
qed

lemma new_request_good:
  assumes "good s" "new_request i r s = Some t" shows "good t \<and> later s t"
proof -
  have "t = set_req i r s" "r \<in> {WithdrawStart, CancelStart}" using assms(2) by (auto simp: new_request_def split: if_splits)
  moreover have "base_ok s" using assms(1) by (simp add: good_def)
  ultimately have "req_done s i t" using req_done_here [of s r i] by auto
  then show ?thesis by (rule req_done_good [OF assms(1)])
qed


text \<open>The other steps leave the requests alone.\<close>

lemma quiet_good:
  assumes "good s" "base_ok t \<and> later s t" "rtReqs t = rtReqs s" shows "good t \<and> later s t"
  using assms later_req_ok [of s t] by (auto simp: good_def)

lemma exec_reqs:
  "exec_arrives s = Some t \<Longrightarrow> rtReqs t = rtReqs s" "exec_rejects r s = Some t \<Longrightarrow> rtReqs t = rtReqs s" "onTicketCreated b s = Some t \<Longrightarrow> rtReqs t = rtReqs s"
  "run_returns c s = Some t \<Longrightarrow> rtReqs t = rtReqs s" "exec_decides x s = Some t \<Longrightarrow> rtReqs t = rtReqs s" "exec_publishes s = Some t \<Longrightarrow> rtReqs t = rtReqs s"
  "exec_dies s = Some t \<Longrightarrow> rtReqs t = rtReqs s"
  by (auto simp: exec_arrives_def exec_rejects_def onTicketCreated_def run_returns_def exec_decides_def exec_publishes_def exec_dies_def write_result_def set_dir_def Let_def
      split: if_splits option.splits exec.splits)

lemma sup_reqs:
  "sup_enqueue m s = Some t \<Longrightarrow> rtReqs t = rtReqs s" "sup_sees_cancel u s = Some t \<Longrightarrow> rtReqs t = rtReqs s" "sup_refuses c u s = Some t \<Longrightarrow> rtReqs t = rtReqs s"
  "sup_polls ch s = Some t \<Longrightarrow> rtReqs t = rtReqs s" "sup_times_out u s = Some t \<Longrightarrow> rtReqs t = rtReqs s" "sup_dequeues_withdrawn s = Some t \<Longrightarrow> rtReqs t = rtReqs s"
  "sup_concludes s = Some t \<Longrightarrow> rtReqs t = rtReqs s" "sup_refuses_admitted c s = Some t \<Longrightarrow> rtReqs t = rtReqs s" "sup_spawns s = Some t \<Longrightarrow> rtReqs t = rtReqs s"
  "sup_releases s = Some t \<Longrightarrow> rtReqs t = rtReqs s" "clearTicketMarkers s = Some t \<Longrightarrow> rtReqs t = rtReqs s" "sup_dies s = Some t \<Longrightarrow> rtReqs t = rtReqs s"
  "reap_dead_queued s = Some t \<Longrightarrow> rtReqs t = rtReqs s" "reap_dead_lease s = Some t \<Longrightarrow> rtReqs t = rtReqs s" "strays_end s = Some t \<Longrightarrow> rtReqs t = rtReqs s"
  "child_exits b s = Some t \<Longrightarrow> rtReqs t = rtReqs s" "onFirstCancelSignal s = Some t \<Longrightarrow> rtReqs t = rtReqs s"
  by (auto simp: sup_enqueue_def sup_sees_cancel_def sup_refuses_def sup_polls_def sup_times_out_def sup_dequeues_withdrawn_def sup_concludes_def sup_refuses_admitted_def
      sup_spawns_def sup_releases_def clearTicketMarkers_def onFirstCancelSignal_def sup_dies_def reap_dead_queued_def reap_dead_lease_def strays_end_def child_exits_def set_lane_def Let_def
      split: if_splits poll_choice.splits)

lemma watch_reqs:
  "sup_notices_cancel s = Some t \<Longrightarrow> rtReqs t = rtReqs s" "sup_reaps w s = Some t \<Longrightarrow> rtReqs t = rtReqs s" "sup_publishes s = Some t \<Longrightarrow> rtReqs t = rtReqs s"
  "sup_finalizes c g y s = Some t \<Longrightarrow> rtReqs t = rtReqs s"
  by (auto simp: sup_notices_cancel_def sup_reaps_def sup_publishes_def sup_finalizes_def set_lane_def split: if_splits supervisor.splits bool.splits option.splits)

lemmas exec_ok_steps = arrives_ok rejects_ok created_ok returns_ok decides_ok publishes_ok exec_dies_ok

lemma lane_event:
  assumes "base_ok s" "rt_step e s = Some t"
    "e \<in> {StraysEnd, DequeuesWithdrawn, Concludes, Spawns, NoticesCancel, LanePublishes, Releases, Clears, Signals, SupDies, ReapsQueued, ReapsLease} \<union>
       range Enqueues \<union> range SeesCancel \<union> {Refuses c u | c u. True} \<union> range Polls \<union> range TimesOut \<union> range RefusesAdmitted \<union> range ChildExits \<union> range Reaps \<union>
       {Finalizes c g w | c g w. True}"
  shows "moved s t \<and> rtReqs t = rtReqs s"
  using assms by (elim UnE insertE emptyE rangeE CollectE exE conjE) (auto dest: lane_moved [OF assms(1)] sup_reqs watch_reqs)

lemma exec_event:
  assumes "base_ok s" "rt_step e s = Some t" "e \<in> {Arrives, Publishes, ExecDies} \<union> range Rejects \<union> range Created \<union> range Returns \<union> range Decides"
  shows "(base_ok t \<and> later s t) \<and> rtReqs t = rtReqs s"
  using assms by (elim UnE insertE emptyE rangeE) (auto dest: exec_ok_steps [OF assms(1)] exec_reqs)

lemma rt_step_good:
  assumes g: "good s" and t: "rt_step e s = Some t" shows "good t \<and> later s t"
proof -
  have b: "base_ok s" using g by (simp add: good_def)
  have lane: "good t \<and> later s t" if "moved s t \<and> rtReqs t = rtReqs s"
    using quiet_good [OF g lane_base [OF _ b]] that by blast
  have exec: "good t \<and> later s t" if "(base_ok t \<and> later s t) \<and> rtReqs t = rtReqs s"
    using quiet_good [OF g] that by blast
  show ?thesis
  proof (cases e)
    case (Request i m u)
    then show ?thesis using req_step_good [OF g] t by simp
  next
    case (NewRequest i r)
    then show ?thesis using new_request_good [OF g] t by simp
  next
    case (Shutdown i u)
    then show ?thesis using req_done_good [OF g shutdown_done [OF b]] t by simp
  qed ((rule exec, rule exec_event [OF b t], simp; fail) | (rule lane, rule lane_event [OF b t], simp; fail))+
qed

lemma rt_init_good: "good rt_init"
  using rt_init_ok by (simp add: good_def rt_init_def)

lemma rt_reach_good: "rt_reach s \<Longrightarrow> good s"
proof (induction rule: rt_reach.induct)
  case start
  show ?case by (rule rt_init_good)
next
  case (step s e s')
  then show ?case using rt_step_good by blast
qed

lemma rt_run_later: "rt_run es s = Some s' \<Longrightarrow> good s \<Longrightarrow> good s' \<and> later s s'"
proof (induction es arbitrary: s)
  case Nil
  then show ?case by (simp add: later_refl)
next
  case (Cons e es)
  then obtain t where t: "rt_step e s = Some t" "rt_run es t = Some s'" by (auto split: option.splits)
  then show ?case using rt_step_good [OF Cons.prems(2) t(1)] Cons.IH [OF t(2)] later_trans by blast
qed

text \<open>An answered request keeps its answer.\<close>

lemma reached_later:
  assumes "rt_reach s" "rt_run es s = Some s'" shows "good s" "good s'" "later s s'"
  using rt_reach_good [OF assms(1)] rt_run_later [OF assms(2)] by simp_all

lemma answered_ok: "rt_reach s \<Longrightarrow> rtReqs s i = Answered a \<Longrightarrow> req_ok s (Answered a)"
  using rt_reach_good [of s] unfolding good_def by metis

end
