(* ===== verification/Runner_Answers.thy ===== *)
theory Runner_Answers
  imports Runner_Safety
begin

text \<open>
  The properties of a remote runner's ticket: what its answers and its published result prove about the command, in every interleaving, with the runs that witness them and
  two runs in which an answer or a result says more than what happened.
\<close>

section \<open>Answers\<close>

text \<open>
  C28. A ticket whose withdraw was answered \<open>withdrawn\<close>, or whose withdraw or cancel left a tombstone, never runs its command, whatever the exec, the supervisor and other requests do afterwards.
\<close>

theorem withdrawn_never_runs:
  assumes "rt_reach s" "rtReqs s i \<in> {Answered RWithdrawn, Answered RTombstoned}" "rt_run es s = Some s'"
  shows "rtChild s' = Unborn"
proof -
  note l = reached_later [OF assms(1,3)]
  have "stopped s \<or> rtTomb s"
    using assms(2) answered_ok [OF assms(1), of i] by auto
  then have "stopped s' \<or> rtTomb s'"
    using laterD [OF l(3)] by blast
  moreover have "rtTomb s' \<longrightarrow> rtDir s' = None" "base_ok s'" using l(2) by (simp_all add: good_def base_ok_def)
  ultimately show ?thesis
    using not_remote [of s'] by (auto simp: stopped_def has_remote_id_def)
qed

text \<open>
  C31. After a cancel was confirmed the command is not running in any later state, unless the supervisor had died and a result had been published when it was confirmed.
\<close>

theorem confirmed_cancel_is_final:
  assumes "rt_reach s" "rtReqs s i = Answered RConfirmed" "rt_run es s = Some s'" "rtSup s = SupDead \<longrightarrow> published_result s = None"
  shows "rtChild s' \<noteq> Alive"
proof -
  have "halted s"
    using answered_ok [OF assms(1,2)] assms(4) by auto
  then have "halted s'"
    using laterD(8) [OF reached_later(3) [OF assms(1,3)]] by blast
  then show ?thesis by (simp add: halted_def idle_def)
qed

section \<open>Results\<close>

text \<open>
  C30. A published result that says the ticket was withdrawn, timed out in the queue or lost its supervisor there is true for good: its command never ran and never will.
\<close>

theorem never_started_result_true:
  assumes "rt_reach s" "published_result s = Some r" "rrReason r \<in> {Some Withdrawn, Some QueueTimeout, Some DeadQueued}" "rt_run es s = Some s'"
  shows "rtChild s' = Unborn"
proof -
  note l = reached_later [OF assms(1,4)]
  have "record_ok s' r" using published_record [of s' r] laterD(14) [OF l(3) assms(2)] l(2) by (simp add: good_def)
  then show ?thesis using assms(3) by (auto simp: record_ok_def never_reasons_def barred_def)
qed

text \<open>
  C29. A result published with the reason \<open>runner-shutdown\<close>, on which the submitter runs the job again, leaves no command running, then or later.
\<close>

theorem shutdown_result_stopped:
  assumes "rt_reach s" "published_result s = Some r" "rrReason r = Some RunnerShutdown" "rt_run es s = Some s'"
  shows "rtChild s' \<noteq> Alive"
proof -
  note l = reached_later [OF assms(1,4)]
  have b: "base_ok s'" using l(2) by (simp add: good_def)
  have "record_ok s' r" using published_record [OF b] laterD(14) [OF l(3) assms(2)] by blast
  then have "dir_unstarted s' \<or> rtChild s' = Gone \<or> rtSup s' = NoSup"
    using assms(3) by (simp add: record_ok_def)
  then show ?thesis using b base_stage [OF b] by (auto simp: base_ok_def idle_def)
qed


section \<open>Runs\<close>

definition after_run :: "event list \<Rightarrow> (rt \<Rightarrow> bool) \<Rightarrow> bool" where
  "after_run es p = (case rt_run es rt_init of None \<Rightarrow> False | Some s \<Rightarrow> p s)"

lemma after_runE:
  assumes "after_run es p" obtains s where "rt_reach s" "p s"
  using assms rt_run_reach [of es rt_init] rt_reach.start by (auto simp: after_run_def split: option.splits)

definition started :: "event list" where
  "started = [Arrives, Created False, Enqueues False, Polls Start, Spawns]"

definition withdrawn_run :: "event list" where
  "withdrawn_run = [Arrives, Created False, Enqueues False, NewRequest 0 WithdrawStart, Request 0 False True, Request 0 False True, Request 0 False True]"

definition withdrawn_end :: "event list" where
  "withdrawn_end = [Polls Start, DequeuesWithdrawn, Concludes, LanePublishes, Clears, Returns 75, Decides [], Publishes]"

lemma withdrawn_run_ok:
  "after_run withdrawn_run (\<lambda>s. rtReqs s 0 = Answered RWithdrawn \<and> (case rt_run withdrawn_end s of None \<Rightarrow> False | Some t \<Rightarrow> rrReason (the (published_result t)) = Some Withdrawn))"
  by code_simp

definition cancelled_run :: "event list" where
  "cancelled_run = started @ [NewRequest 0 CancelStart, Request 0 False True, Request 0 False True, Request 0 False True, Request 0 False True, NoticesCancel, Reaps True,
     Finalizes (Some 143) None None, LanePublishes, Releases, Request 0 False True]"

lemma cancelled_run_ok: "after_run cancelled_run (\<lambda>s. rtReqs s 0 = Answered RConfirmed \<and> rtSup s = Clearing \<and> rtChild s = Gone)"
  by code_simp


lemma withdrawn_never_runs_witness:
  "\<exists>s s'. rt_reach s \<and> rtReqs s 0 = Answered RWithdrawn \<and> rt_run withdrawn_end s = Some s' \<and> rtChild s' = Unborn"
proof -
  obtain s where s: "rt_reach s" "rtReqs s 0 = Answered RWithdrawn" "rt_run withdrawn_end s \<noteq> None"
    using withdrawn_run_ok by (rule after_runE) (auto split: option.splits)
  then show ?thesis
    using withdrawn_never_runs [OF s(1), of 0 withdrawn_end] by auto
qed

lemma confirmed_cancel_is_final_witness:
  "\<exists>s s'. rt_reach s \<and> rtReqs s 0 = Answered RConfirmed \<and> rt_run [Clears] s = Some s' \<and> rtChild s' \<noteq> Alive"
proof -
  obtain s where s: "rt_reach s" "rtReqs s 0 = Answered RConfirmed" "rtSup s = Clearing"
    using cancelled_run_ok by (rule after_runE) blast
  then obtain s' where t: "rt_run [Clears] s = Some s'" by (auto simp: clearTicketMarkers_def)
  show ?thesis
    using confirmed_cancel_is_final [OF s(1,2) t] s t by auto
qed

definition shutdown_run :: "event list" where
  "shutdown_run = [Arrives, Created False, Enqueues False, Shutdown 0 True, SeesCancel True, LanePublishes, Clears, Returns 1, Decides [], Publishes]"

lemma withdrawn_full_ok: "after_run (withdrawn_run @ withdrawn_end) (\<lambda>s. case published_result s of None \<Rightarrow> False | Some r \<Rightarrow> rrReason r = Some Withdrawn)"
  by code_simp

lemma shutdown_run_ok: "after_run shutdown_run (\<lambda>s. case published_result s of None \<Rightarrow> False | Some r \<Rightarrow> rrReason r = Some RunnerShutdown)"
  by code_simp

lemma never_started_result_true_witness:
  "\<exists>s r s'. rt_reach s \<and> published_result s = Some r \<and> rrReason r = Some Withdrawn \<and> rt_run [] s = Some s' \<and> rtChild s' = Unborn"
proof -
  obtain s r where s: "rt_reach s" "published_result s = Some r" "rrReason r = Some Withdrawn"
    using withdrawn_full_ok by (rule after_runE) (auto split: option.splits)
  then show ?thesis
    using never_started_result_true [OF s(1,2), of "[]" s] by auto
qed

lemma shutdown_result_stopped_witness:
  "\<exists>s r s'. rt_reach s \<and> published_result s = Some r \<and> rrReason r = Some RunnerShutdown \<and> rt_run [] s = Some s' \<and> rtChild s' \<noteq> Alive"
proof -
  obtain s r where s: "rt_reach s" "published_result s = Some r" "rrReason r = Some RunnerShutdown"
    using shutdown_run_ok by (rule after_runE) (auto split: option.splits)
  then show ?thesis
    using shutdown_result_stopped [OF s, of "[]" s] by auto
qed

section \<open>Where an answer or a result says too much\<close>

text \<open>
  A supervisor that dies while \<^verbatim>\<open>cancelCommand\<close> waits for it leaves its command and its lease; the exec then publishes an unfinished result, and the cancel takes that result for
  the proof that nothing runs.
\<close>

definition orphaned_run :: "event list" where
  "orphaned_run = started @ [NewRequest 0 CancelStart, Request 0 False True, Request 0 False True, Request 0 False True, Request 0 False True, SupDies, Returns 1, Decides [], Publishes,
     Request 0 False True, Request 0 False True, Request 0 False True]"

lemma orphaned_run_ok: "after_run orphaned_run (\<lambda>s. rtReqs s 0 = Answered RConfirmed \<and> rtChild s = Alive \<and> lnLease (rtLane s))"
  by code_simp


text \<open>A shutdown that falls between the lane's own result and the ticket's finds neither a queue entry nor a lease, and takes the lane for one that never started.\<close>

definition late_shutdown_run :: "event list" where
  "late_shutdown_run = started @ [ChildExits False, Finalizes (Some 0) None None, LanePublishes, Releases, Shutdown 0 True, Returns 0, Decides [], Publishes]"

lemma late_shutdown_run_ok:
  "after_run late_shutdown_run (\<lambda>s. case (lnResult (rtLane s), published_result s) of
     (Some x, Some r) \<Rightarrow> lrExit x = Some 0 \<and> \<not> lrCancelled x \<and> rrKind r = Unfinished \<and> rrReason r = Some RunnerShutdown | _ \<Rightarrow> False)"
  by code_simp

text \<open>
  C40. A lane that completed with exit 0 can be published as an unfinished job stopped by a shutdown, so that the submitter runs it again.
\<close>

theorem completed_reported_as_shutdown:
  "\<exists>s x r. rt_reach s \<and> lnResult (rtLane s) = Some x \<and> lrExit x = Some 0 \<and> \<not> lrCancelled x \<and> published_result s = Some r \<and> rrKind r = Unfinished \<and> rrReason r = Some RunnerShutdown"
proof -
  obtain s where s: "rt_reach s" and p: "case (lnResult (rtLane s), published_result s) of
     (Some x, Some r) \<Rightarrow> lrExit x = Some 0 \<and> \<not> lrCancelled x \<and> rrKind r = Unfinished \<and> rrReason r = Some RunnerShutdown | _ \<Rightarrow> False"
    using late_shutdown_run_ok by (rule after_runE)
  obtain x r where "lnResult (rtLane s) = Some x" "published_result s = Some r" "lrExit x = Some 0" "\<not> lrCancelled x" "rrKind r = Unfinished" "rrReason r = Some RunnerShutdown"
    using p by (cases "lnResult (rtLane s)"; cases "published_result s") auto
  then show ?thesis using s by blast
qed

end
