(* ===== verification/Spec2Isabelle.thy ===== *)
theory Spec2Isabelle
  imports Start_Witnesses Intake Attempts Lock_Protocol Snapshot_Safety Artifacts Config_Safety Repo_Config Reconcile Placement Watchdog Result_Cache Journal Store_Examples Runner_Answers
begin

text \<open>
  lane-broker decides on one machine which of the queued test and simulation lanes may run now, runs them under supervisors, sends some of them to remote runners, and
  keeps the snapshots and results of those runs in a content-addressed store. The processes share one state root on disk under a global lock; there is no daemon. This
  development models the decisions and the state changes of the program, function by function, and proves what they guarantee.

  \<^bold>\<open>Conventions.\<close> A finite JavaScript number is an exact rational (\<open>jsnum\<close>): rounding, infinities and NaN are not represented, so a field that may be NaN is read as
  absent where the code tests it with \<^verbatim>\<open>Number.isFinite\<close>. An absent or ill-typed field is \<open>None\<close>; JavaScript's \<^verbatim>\<open>??\<close> is \<open>nullish\<close>. A string is a list of bytes. A directory is a
  list or a map of its files. A function that writes takes the state and returns the new one; a function that may throw returns a sum or an option. Readings of the
  clock, of process tables, of the disk's success and of other hosts are arguments. Log lines, telemetry and the texts of messages are left out, and an error is known by its kind.

  \<^bold>\<open>Foundations.\<close> \<open>Prelude\<close> holds the numbers and the shared lemmas and rule collections; \<open>Lane_Data\<close> tickets, leases and the configuration record (\<^verbatim>\<open>run.js\<close>, \<^verbatim>\<open>config.js\<close>);
  \<open>Json\<close> parsed JSON and the tests the code makes on it.

  \<^bold>\<open>The scheduler.\<close> Each of these theories is one file of \<^verbatim>\<open>src/src/\<close>: \<open>Resources\<close> (\<^verbatim>\<open>resources.js\<close>: claims, budgets, elastic ranges), \<open>Admission\<close> and \<open>Gates\<close>
  (\<^verbatim>\<open>admission.js\<close>, \<^verbatim>\<open>load.js\<close>: the CPU and memory predicate and its gates), \<open>Estimates\<close> (\<^verbatim>\<open>cpu-estimates.js\<close>), \<open>Priority\<close> (\<^verbatim>\<open>priority.js\<close>, \<^verbatim>\<open>priority-clock.js\<close>), \<open>Exclusive\<close>,
  \<open>Classes\<close>, \<open>Push_Gate\<close>, \<open>Express\<close>, \<open>Leases\<close> (\<^verbatim>\<open>lease.js\<close>), \<open>Fairness\<close> (the two stores of skip records), \<open>Skips\<close>, \<open>Selectors\<close>, \<open>Broker\<close> and \<open>Try_Start\<close> (all \<^verbatim>\<open>scheduler.js\<close>).
  \<open>Broker\<close> is the state root as one record, with intake, withdrawal, re-tiering and reaping; \<open>Try_Start\<close> is the locked decision of one poll, from the reaping of dead leases to
  the lease that is written, composed in the order of the code. \<open>Start_Safety\<close> derives what every start has passed, stage by stage; \<open>Start_Fairness\<close> what passing a waiting
  head costs; \<open>Start_Progress\<close> what a poll does to the queue and when it must start; \<open>Intake\<close> the invariant of the queue; \<open>Start_Examples\<close> and \<open>Start_Witnesses\<close> apply
  these to concrete polls. One reading of the clock stands for the several a poll makes, and the lane and command tables of the express lane are a parameter.

  \<^bold>\<open>Locks and attempts.\<close> \<open>Lock\<close> holds \<^verbatim>\<open>withLock\<close> and the liveness probes of \<^verbatim>\<open>state.js\<close> and \<^verbatim>\<open>process-liveness.js\<close>; \<open>Lock_Protocol\<close> interleaves its single file-system steps over any number
  of calls, crashes and reused process ids, and shows mutual exclusion and recovery, for takeovers that finish within a third of a tomb's lifetime and truthful
  probes. \<open>Attempts\<close> (\<^verbatim>\<open>attempts.js\<close>) interleaves the operations on remote attempts: no ticket is published twice. \<open>Reconcile\<close> with \<open>Remote_Results\<close> and \<open>Reach\<close> (\<^verbatim>\<open>remote-reconcile.js\<close>,
  \<^verbatim>\<open>remote-client.js\<close>, \<^verbatim>\<open>runner-unreachable.js\<close>) settles attempts whose supervisor died, with the answers over ssh as inputs, and refines the publish step of \<open>Attempts\<close>.

  \<^bold>\<open>Configuration.\<close> \<open>Config\<close> and \<open>Config_Safety\<close> (\<^verbatim>\<open>config.js\<close>): the global file, its validation and reloading, and that every configuration polled satisfies what the scheduler's theorems
  assume. \<open>Repo_Config\<close>: a repository's file and the resolution of a lane to a ticket. \<open>Schedule\<close> (\<^verbatim>\<open>runner-schedule.js\<close>): power schedules, with the time-zone database as a parameter.

  \<^bold>\<open>Remote runs.\<close> \<open>Placement\<close> (\<^verbatim>\<open>selectRunner\<close>, \<^verbatim>\<open>runner-readiness.js\<close>) chooses a runner from the probes' answers. \<open>Paths\<close>, \<open>Manifest\<close>, \<open>Reader\<close>, \<open>Snapshot\<close>, \<open>Snapshot_Safety\<close> and \<open>Blobs\<close>
  (\<^verbatim>\<open>remote-exclude.js\<close>, \<^verbatim>\<open>remote-manifest.js\<close>, \<^verbatim>\<open>remote-stream.js\<close>, \<^verbatim>\<open>remote-blobs.js\<close>) carry a worktree to it: what may be sent, the framed stream in chunks of any size, and an extraction that stays
  in its directory whatever bytes arrive. \<open>Artifacts\<close> (\<^verbatim>\<open>remote-artifacts.js\<close>) brings files back and installs them. SHA-256 and \<^verbatim>\<open>JSON.parse\<close> are parameters; names are compared in lower case over ASCII only.

  \<^bold>\<open>Runs and results.\<close> \<open>Watchdog\<close> (\<^verbatim>\<open>no-progress.js\<close>) decides when a running lane is stalled. \<open>Result_Cache\<close> (\<^verbatim>\<open>result-cache.js\<close>, \<^verbatim>\<open>historyRow\<close> of \<^verbatim>\<open>supervisor.js\<close>) decides when a past run answers a new one.

  \<^bold>\<open>The object store.\<close> \<open>Journal\<close> (\<^verbatim>\<open>store/journal.js\<close>) is the journal file byte by byte, with torn tails and failed rollbacks. \<open>Store\<close> (\<^verbatim>\<open>store/objects.js\<close>, \<^verbatim>\<open>ids.js\<close>, \<^verbatim>\<open>retention.js\<close>) is the store over a journal of records:
  every access to the disk or the journal takes its success from a list, so an operation may stop anywhere. \<open>Store_Safety\<close> shows that the journal covers the disk, \<open>Store_Live\<close> that live
  jobs keep their blobs, \<open>Store_Examples\<close> applies both. The last check of an upload and its commit are one step, a crash falls between operations, removing the
  files of a registration that is undone succeeds, and symbolic links, the fence of a displaced owner and the cache of \<^verbatim>\<open>jobBlobs\<close> are left out.

  Theories \<open>Runner_Ticket\<close>, \<open>Runner_Safety\<close> and \<open>Runner_Answers\<close> model one ticket dispatched to a remote runner as a transition system: \<^verbatim>\<open>remote-exec\<close>,
  the supervisor, withdraw, cancel and shutdown requests and the deaths of processes interleave freely, one section under the lock or one file access at a time. The invariant has one clause per
  phase of the supervisor (\<open>stage\<close>), per phase of the exec (\<open>exec_ok\<close>) and per phase of a request (\<open>req_ok\<close>), and \<open>later\<close> lists what no step takes back; the
  properties say what each answer and each published result proves about the command, and two runs show an answer and a result that say too much.

  \<^bold>\<open>Kinds of lemmas.\<close> Every operation has its functional description on each branch; every state has an invariant that its operations preserve; interleavings and runs are inductive
  relations with invariants by rule induction; laws that several operations share are locales, interpreted on the definitions of the model. Every theorem with a hypothesis
  is applied to a concrete input in the theorem named after it with \<open>_witness\<close>. Recursion ends by structure or by a measure; no fuel is used: the
  elastic walk ends because the claim shrinks, extraction and the reading of the journal because each step consumes bytes.

  \<^bold>\<open>Not modelled.\<close> The supervisor's telemetry and process spawning, the remote runner's unpacking and preparation of a job, ssh and HTTP transport, the dependency cache's directory work and the
  command line are orchestration of the operating system around the decisions above. The statistics that propose placements and sizes, the shadow
  allocation evaluator and the reports only print. Host probes read the operating system; their results are inputs here.
\<close>

end
